(* ===== verification/Prelude.thy ===== *)
theory Prelude
  imports Main
begin

text \<open>
  Shared vocabulary of the development: the state-and-exception computations in which the
  effectful TypeScript code is written (\<open>eff\<close>), the errors it throws (\<open>exn\<close>), the Hoare
  triples its proofs use, and generic list and map lemmas.
\<close>

subsection \<open>Errors\<close>

text \<open>
  The error classes of the repository: a plain \<open>Error\<close> with its message, and the classes of
  \<open>packages/broker/src/interfaces.ts\<close> and \<open>kill-switch.ts\<close> that handlers distinguish with
  \<open>instanceof\<close>.
\<close>

datatype exn =
    GenericError string
  | ConnectorRevalidationError string
  | IdempotencyConflictError string
  | KillSwitchReachabilityError
  | KillSwitchAuditError exn

fun exn_name :: "exn \<Rightarrow> string" where
  "exn_name (GenericError m) = ''Error''"
| "exn_name (ConnectorRevalidationError m) = ''ConnectorRevalidationError''"
| "exn_name (IdempotencyConflictError k) = ''IdempotencyConflictError''"
| "exn_name KillSwitchReachabilityError = ''KillSwitchReachabilityError''"
| "exn_name (KillSwitchAuditError e) = ''KillSwitchAuditError''"

fun exn_message :: "exn \<Rightarrow> string" where
  "exn_message (GenericError m) = m"
| "exn_message (ConnectorRevalidationError m) = m"
| "exn_message (IdempotencyConflictError k) =
     ''Idempotency key '' @ k @ '' was already used with a different intent payload.''"
| "exn_message KillSwitchReachabilityError = ''Kill switch is not reachable.''"
| "exn_message (KillSwitchAuditError e) = ''Kill switch activated, but activation audit failed.''"

text \<open>\<open>String(err)\<close> of an \<open>Error\<close>: its name, a colon and its message.\<close>

definition exn_string :: "exn \<Rightarrow> string" where
  "exn_string e = exn_name e @ '': '' @ exn_message e"

subsection \<open>Computations with state and exceptions\<close>

text \<open>
  A computation takes the world and returns either an exception or a value, with the world
  after it. A thrown exception keeps the effects made before it, as in JavaScript.
\<close>

type_synonym ('s, 'a) eff = "'s \<Rightarrow> (exn + 'a) \<times> 's"

definition ret :: "'a \<Rightarrow> ('s, 'a) eff" where
  "ret x s = (Inr x, s)"

definition throw :: "exn \<Rightarrow> ('s, 'a) eff" where
  "throw e s = (Inl e, s)"

definition andthen :: "('s, 'a) eff \<Rightarrow> ('a \<Rightarrow> ('s, 'b) eff) \<Rightarrow> ('s, 'b) eff" where
  "andthen m f s = (case m s of (Inl e, t) \<Rightarrow> (Inl e, t) | (Inr x, t) \<Rightarrow> f x t)"

definition try_catch :: "('s, 'a) eff \<Rightarrow> (exn \<Rightarrow> ('s, 'a) eff) \<Rightarrow> ('s, 'a) eff" where
  "try_catch m h s = (case m s of (Inl e, t) \<Rightarrow> h e t | (Inr x, t) \<Rightarrow> (Inr x, t))"

text \<open>\<open>try { m } catch \<dots>\<close> whose continuation runs outside the handler.\<close>

definition attempt :: "('s, 'a) eff \<Rightarrow> ('s, exn + 'a) eff" where
  "attempt m s = (case m s of (r, t) \<Rightarrow> (Inr r, t))"

definition read_state :: "('s \<Rightarrow> 'a) \<Rightarrow> ('s, 'a) eff" where
  "read_state f s = (Inr (f s), s)"

definition modify_state :: "('s \<Rightarrow> 's) \<Rightarrow> ('s, unit) eff" where
  "modify_state f s = (Inr (), f s)"

fun for_each :: "('a \<Rightarrow> ('s, unit) eff) \<Rightarrow> 'a list \<Rightarrow> ('s, unit) eff" where
  "for_each f [] = ret ()"
| "for_each f (x # xs) = andthen (f x) (\<lambda>_. for_each f xs)"

text \<open>
  A loop whose body may return early: the first \<open>Some\<close> is the result of the enclosing
  function, \<open>None\<close> says that the loop ran to its end.
\<close>

fun find_effect :: "('a \<Rightarrow> ('s, 'b option) eff) \<Rightarrow> 'a list \<Rightarrow> ('s, 'b option) eff" where
  "find_effect f [] = ret None"
| "find_effect f (x # xs) =
     andthen (f x) (\<lambda>r. case r of Some y \<Rightarrow> ret (Some y) | None \<Rightarrow> find_effect f xs)"

named_theorems eff_defs \<open>unfolding computations to functions of the world\<close>

lemmas eff_basic [eff_defs] =
  ret_def throw_def andthen_def try_catch_def attempt_def read_state_def modify_state_def

lemma andthen_ret [simp]: "andthen (ret x) f = f x"
  by (simp add: eff_basic fun_eq_iff)

lemma andthen_throw [simp]: "andthen (throw e) f = throw e"
  by (simp add: eff_basic fun_eq_iff)

lemma ret_right [simp]: "andthen m ret = m"
  by (auto simp: eff_basic fun_eq_iff split: prod.splits sum.splits)

lemma andthen_assoc: "andthen (andthen m f) g = andthen m (\<lambda>x. andthen (f x) g)"
  by (auto simp: eff_basic fun_eq_iff split: prod.splits sum.splits)

lemma ret_run [simp]: "ret x s = (Inr x, s)"
  by (simp add: ret_def)

lemma throw_run [simp]: "throw e s = (Inl e, s)"
  by (simp add: throw_def)

lemma map_sum_Inr: "map_sum id f r = Inr y \<Longrightarrow> (\<And>x. r = Inr x \<Longrightarrow> y = f x \<Longrightarrow> P) \<Longrightarrow> P"
  by (cases r) auto

lemma andthenE:
  assumes "andthen m f s = (Inr y, t)"
  obtains z u where "m s = (Inr z, u)" "f z u = (Inr y, t)"
  using assms by (auto simp: andthen_def split: prod.splits sum.splits)

subsection \<open>Hoare triples\<close>

text \<open>
  \<open>triple P m Q E\<close>: started where \<open>P\<close> holds, \<open>m\<close> returns a value that satisfies \<open>Q\<close> in the
  world after it, or throws an exception that satisfies \<open>E\<close> there. Every computation here is
  a total function, so this is total correctness.
\<close>

definition triple ::
  "('s \<Rightarrow> bool) \<Rightarrow> ('s, 'a) eff \<Rightarrow> ('a \<Rightarrow> 's \<Rightarrow> bool) \<Rightarrow> (exn \<Rightarrow> 's \<Rightarrow> bool) \<Rightarrow> bool" where
  "triple P m Q E \<longleftrightarrow>
     (\<forall>s. P s \<longrightarrow> (case m s of (Inl e, t) \<Rightarrow> E e t | (Inr x, t) \<Rightarrow> Q x t))"

named_theorems triples \<open>rules of the triple calculus\<close>

lemma tripleI:
  assumes "\<And>s x t. P s \<Longrightarrow> m s = (Inr x, t) \<Longrightarrow> Q x t"
    and "\<And>s e t. P s \<Longrightarrow> m s = (Inl e, t) \<Longrightarrow> E e t"
  shows "triple P m Q E"
  using assms by (auto simp: triple_def split: prod.splits sum.splits)

lemma tripleD_val: "triple P m Q E \<Longrightarrow> P s \<Longrightarrow> m s = (Inr x, t) \<Longrightarrow> Q x t"
  by (fastforce simp: triple_def)

lemma tripleD_exn: "triple P m Q E \<Longrightarrow> P s \<Longrightarrow> m s = (Inl e, t) \<Longrightarrow> E e t"
  by (fastforce simp: triple_def)

lemma triple_ret [triples]: "triple (Q x) (ret x) Q E"
  by (simp add: triple_def ret_def)

lemma triple_throw [triples]: "triple (E e) (throw e) Q E"
  by (simp add: triple_def throw_def)

lemma triple_andthen:
  assumes "triple P m R E" and "\<And>x. triple (R x) (f x) Q E"
  shows "triple P (andthen m f) Q E"
  using assms by (fastforce simp: triple_def andthen_def split: prod.splits sum.splits)

lemma triple_try_catch:
  assumes "triple P m Q R" and "\<And>e. triple (R e) (h e) Q E"
  shows "triple P (try_catch m h) Q E"
  using assms by (fastforce simp: triple_def try_catch_def split: prod.splits sum.splits)

lemma triple_attempt:
  assumes "triple P m (\<lambda>x. Q (Inr x)) (\<lambda>e. Q (Inl e))"
  shows "triple P (attempt m) Q E"
  unfolding triple_def
proof (intro allI impI)
  fix s assume "P s"
  then show "case attempt m s of (Inl e, t) \<Rightarrow> E e t | (Inr x, t) \<Rightarrow> Q x t"
    using assms by (cases "m s"; cases "fst (m s)") (auto simp: triple_def attempt_def)
qed

lemma triple_pre: "triple P m Q E \<Longrightarrow> (\<And>s. P' s \<Longrightarrow> P s) \<Longrightarrow> triple P' m Q E"
  by (simp add: triple_def)

lemma triple_post:
  assumes "triple P m Q E" and "\<And>x s. Q x s \<Longrightarrow> Q' x s" and "\<And>e s. E e s \<Longrightarrow> E' e s"
  shows "triple P m Q' E'"
  using assms by (fastforce simp: triple_def split: prod.splits sum.splits)

lemma triple_read_state [triples]: "triple (\<lambda>s. Q (f s) s) (read_state f) Q E"
  by (simp add: triple_def read_state_def)

lemma triple_modify_state [triples]: "triple (\<lambda>s. Q () (f s)) (modify_state f) Q E"
  by (simp add: triple_def modify_state_def)

lemma triple_if:
  assumes "b \<Longrightarrow> triple P m Q E" and "\<not> b \<Longrightarrow> triple P' m' Q E"
  shows "triple (\<lambda>s. if b then P s else P' s) (if b then m else m') Q E"
  using assms by simp

lemma triple_if_same:
  assumes "b \<Longrightarrow> triple P m Q E" and "\<not> b \<Longrightarrow> triple P m' Q E"
  shows "triple P (if b then m else m') Q E"
  using assms by simp

text \<open>An invariant of a computation: kept whether it returns or throws.\<close>

definition keeps :: "('s \<Rightarrow> bool) \<Rightarrow> ('s, 'a) eff \<Rightarrow> bool" where
  "keeps I m \<longleftrightarrow> triple I m (\<lambda>_. I) (\<lambda>_. I)"

named_theorems keeps_rules \<open>invariants are kept by the combinators\<close>

lemma keeps_iff: "keeps I m \<longleftrightarrow> (\<forall>s. I s \<longrightarrow> I (snd (m s)))"
  by (simp add: keeps_def triple_def split_beta split: sum.splits)

lemma keepsD: "keeps I m \<Longrightarrow> I s \<Longrightarrow> m s = (r, t) \<Longrightarrow> I t"
  by (fastforce simp: keeps_iff)

lemma keeps_ret [keeps_rules]: "keeps I (ret x)"
  by (simp add: keeps_iff ret_def)

lemma keeps_throw [keeps_rules]: "keeps I (throw e)"
  by (simp add: keeps_iff throw_def)

lemma keeps_read_state [keeps_rules]: "keeps I (read_state f)"
  by (simp add: keeps_iff read_state_def)

lemma keeps_andthen [keeps_rules]:
  "keeps I m \<Longrightarrow> (\<And>x. keeps I (f x)) \<Longrightarrow> keeps I (andthen m f)"
  unfolding keeps_def by (rule triple_andthen) auto

lemma keeps_try_catch [keeps_rules]:
  "keeps I m \<Longrightarrow> (\<And>e. keeps I (h e)) \<Longrightarrow> keeps I (try_catch m h)"
  unfolding keeps_def by (rule triple_try_catch) auto

lemma keeps_attempt [keeps_rules]: "keeps I m \<Longrightarrow> keeps I (attempt m)"
  unfolding keeps_def by (rule triple_attempt)

lemma keeps_if [keeps_rules]:
  "(b \<Longrightarrow> keeps I m) \<Longrightarrow> (\<not> b \<Longrightarrow> keeps I m') \<Longrightarrow> keeps I (if b then m else m')"
  by simp

lemma keeps_option [keeps_rules]:
  "(x = None \<Longrightarrow> keeps I m) \<Longrightarrow> (\<And>y. x = Some y \<Longrightarrow> keeps I (f y)) \<Longrightarrow>
   keeps I (case x of None \<Rightarrow> m | Some y \<Rightarrow> f y)"
  by (cases x) auto

lemma keeps_for_each [keeps_rules]: "(\<And>x. keeps I (f x)) \<Longrightarrow> keeps I (for_each f xs)"
  by (induction xs) (auto intro!: keeps_rules)

lemma keeps_find_effect [keeps_rules]: "(\<And>x. keeps I (f x)) \<Longrightarrow> keeps I (find_effect f xs)"
  by (induction xs) (auto intro!: keeps_rules)

subsection \<open>Lists and association lists\<close>

lemma map_of_filter_key:
  "map_of (filter (\<lambda>(k, v). P k) xs) k = (if P k then map_of xs k else None)"
  by (induction xs) auto

lemma distinct_fst_filter: "distinct (map fst xs) \<Longrightarrow> distinct (map fst (filter P xs))"
  by (induction xs) auto

lemma map_of_append_skip: "k \<notin> fst ` set xs \<Longrightarrow> map_of (xs @ ys) k = map_of ys k"
  by (simp add: map_of_append map_add_def map_of_eq_None_iff [THEN iffD2] split: option.split)

lemma pred_option_iff: "pred_option P x \<longleftrightarrow> (\<forall>y. x = Some y \<longrightarrow> P y)"
  by (cases x) auto

text \<open>An optional field of an object: present only when there is a value.\<close>

definition opt_field :: "'k \<Rightarrow> ('a \<Rightarrow> 'v) \<Rightarrow> 'a option \<Rightarrow> ('k \<times> 'v) list" where
  "opt_field k f x = (case x of None \<Rightarrow> [] | Some y \<Rightarrow> [(k, f y)])"

declare map_of_append [simp del]

lemma map_of_opt_field [simp]:
  "map_of (opt_field k f x @ xs) k' =
     (if k = k' then (case x of None \<Rightarrow> map_of xs k' | Some y \<Rightarrow> Some (f y)) else map_of xs k')"
  by (simp add: opt_field_def split: option.splits)

lemma map_of_opt_field_last [simp]:
  "map_of (opt_field k f x) k' = (if k = k' then map_option f x else None)"
  by (simp add: opt_field_def split: option.splits)

lemma keys_opt_field [simp]: "fst ` set (opt_field k f x) = (if x = None then {} else {k})"
  by (cases x) (simp_all add: opt_field_def)

end
