(* ===== verification/JsNumber.thy ===== *)
theory JsNumber
  imports Complex_Main "HOL-Library.Log_Nat" Prelude
begin

text \<open>
  JavaScript numbers: IEEE 754 binary64 values as exact rationals with the three special
  values, and the arithmetic the source uses, each operation rounding the exact result to the
  nearest double, ties to even. The sign of zero is not kept: \<open>-0\<close> and \<open>0\<close> are one value,
  which the source could tell apart only by dividing by it, and it never divides by zero.
\<close>

datatype jsnum = NaN | PInf | NInf | Fin rat

subsection \<open>Comparisons\<close>

text \<open>\<open>Number.isFinite\<close>, \<open><\<close>, \<open><=\<close> and \<open>===\<close>; a comparison with NaN is false.\<close>

fun is_finite :: "jsnum \<Rightarrow> bool" where
  "is_finite (Fin r) = True"
| "is_finite _ = False"

fun num_less :: "jsnum \<Rightarrow> jsnum \<Rightarrow> bool" where
  "num_less NaN y = False"
| "num_less x NaN = False"
| "num_less PInf y = False"
| "num_less x NInf = False"
| "num_less NInf y = True"
| "num_less x PInf = True"
| "num_less (Fin a) (Fin b) = (a < b)"

fun num_le :: "jsnum \<Rightarrow> jsnum \<Rightarrow> bool" where
  "num_le NaN y = False"
| "num_le x NaN = False"
| "num_le NInf y = True"
| "num_le x PInf = True"
| "num_le PInf y = False"
| "num_le x NInf = False"
| "num_le (Fin a) (Fin b) = (a \<le> b)"

definition num_eq :: "jsnum \<Rightarrow> jsnum \<Rightarrow> bool" where
  "num_eq x y \<longleftrightarrow> x \<noteq> NaN \<and> x = y"

lemma is_finite_iff: "is_finite x \<longleftrightarrow> (\<exists>r. x = Fin r)"
  by (cases x) auto

lemma num_less_irrefl [simp]: "\<not> num_less x x"
  by (cases x) auto

lemma num_not_less:
  "x \<noteq> NaN \<Longrightarrow> y \<noteq> NaN \<Longrightarrow> \<not> num_less x y \<longleftrightarrow> num_le y x"
  by (cases x; cases y) auto

lemma num_le_trans: "num_le x y \<Longrightarrow> num_le y z \<Longrightarrow> num_le x z"
  by (cases x; cases y; cases z) auto

subsection \<open>Rounding to the nearest double\<close>

text \<open>The exponent of the binade of a positive rational: \<open>2\<^sup>e \<le> r < 2\<^sup>e\<^sup>+\<^sup>1\<close>.\<close>

definition flog2 :: "rat \<Rightarrow> int" where
  "flog2 r = (case quotient_of r of (n, d) \<Rightarrow>
     (let e = bitlen n - bitlen d in if r < 2 powi e then e - 1 else e))"

definition round_half_even :: "rat \<Rightarrow> int" where
  "round_half_even x = (let f = \<lfloor>x\<rfloor>; d = x - of_int f in
     if d < 1/2 then f else if 1/2 < d then f + 1 else if even f then f else f + 1)"

text \<open>The weight of the last bit: 53 significant bits, none below \<open>2\<^sup>-\<^sup>1\<^sup>0\<^sup>7\<^sup>4\<close> (subnormals).\<close>

definition last_bit :: "rat \<Rightarrow> int" where
  "last_bit r = max (flog2 r - 52) (- 1074)"

definition round_pos :: "rat \<Rightarrow> rat" where
  "round_pos r = of_int (round_half_even (r / 2 powi last_bit r)) * 2 powi last_bit r"

definition round_double :: "rat \<Rightarrow> jsnum" where
  "round_double r =
     (if r = 0 then Fin 0
      else if 0 < r then (if 2 ^ 1024 \<le> round_pos r then PInf else Fin (round_pos r))
      else (if 2 ^ 1024 \<le> round_pos (- r) then NInf else Fin (- round_pos (- r))))"

subsection \<open>Arithmetic\<close>

fun num_neg :: "jsnum \<Rightarrow> jsnum" where
  "num_neg NaN = NaN"
| "num_neg PInf = NInf"
| "num_neg NInf = PInf"
| "num_neg (Fin r) = Fin (- r)"

fun num_add :: "jsnum \<Rightarrow> jsnum \<Rightarrow> jsnum" where
  "num_add NaN y = NaN"
| "num_add x NaN = NaN"
| "num_add PInf NInf = NaN"
| "num_add NInf PInf = NaN"
| "num_add PInf y = PInf"
| "num_add x PInf = PInf"
| "num_add NInf y = NInf"
| "num_add x NInf = NInf"
| "num_add (Fin a) (Fin b) = round_double (a + b)"

definition num_sub :: "jsnum \<Rightarrow> jsnum \<Rightarrow> jsnum" where
  "num_sub x y = num_add x (num_neg y)"

definition signed_inf :: "rat \<Rightarrow> jsnum" where
  "signed_inf s = (if s = 0 then NaN else if 0 < s then PInf else NInf)"

fun num_sign :: "jsnum \<Rightarrow> rat" where
  "num_sign NaN = 0"
| "num_sign PInf = 1"
| "num_sign NInf = - 1"
| "num_sign (Fin a) = sgn a"

fun num_mul :: "jsnum \<Rightarrow> jsnum \<Rightarrow> jsnum" where
  "num_mul NaN y = NaN"
| "num_mul x NaN = NaN"
| "num_mul (Fin a) (Fin b) = round_double (a * b)"
| "num_mul x y = signed_inf (num_sign x * num_sign y)"

fun num_div :: "jsnum \<Rightarrow> jsnum \<Rightarrow> jsnum" where
  "num_div NaN y = NaN"
| "num_div x NaN = NaN"
| "num_div (Fin a) (Fin b) = (if b = 0 then signed_inf a else round_double (a / b))"
| "num_div (Fin a) y = Fin 0"
| "num_div x (Fin b) = (if b < 0 then num_neg x else x)"
| "num_div x y = NaN"

fun num_abs :: "jsnum \<Rightarrow> jsnum" where
  "num_abs NaN = NaN"
| "num_abs (Fin a) = Fin \<bar>a\<bar>"
| "num_abs x = PInf"

abbreviation num_of_int :: "int \<Rightarrow> jsnum" where
  "num_of_int n \<equiv> Fin (of_int n)"

subsection \<open>Rounding is monotone and exact on integers\<close>

lemma round_half_even_floor:
  "\<lfloor>x\<rfloor> \<le> round_half_even x" "round_half_even x \<le> \<lfloor>x\<rfloor> + 1"
  by (auto simp: round_half_even_def Let_def)

lemma round_half_even_mono:
  assumes "x \<le> y" shows "round_half_even x \<le> round_half_even y"
proof (cases "\<lfloor>x\<rfloor> = \<lfloor>y\<rfloor>")
  case True
  then have "x - of_int \<lfloor>x\<rfloor> \<le> y - of_int \<lfloor>y\<rfloor>" using assms by simp
  with True show ?thesis by (auto simp: round_half_even_def Let_def)
next
  case False
  then have "\<lfloor>x\<rfloor> + 1 \<le> \<lfloor>y\<rfloor>" using floor_mono [OF assms] by simp
  with round_half_even_floor [of x] round_half_even_floor [of y] show ?thesis by linarith
qed

lemma round_half_even_int [simp]: "round_half_even (of_int n) = n"
  by (simp add: round_half_even_def)

lemma two_powi_pos [simp]: "0 < (2::rat) powi e"
  by (simp add: zero_less_power_int)

lemma two_powi_mono: "a \<le> b \<Longrightarrow> (2::rat) powi a \<le> 2 powi b"
  by (simp add: power_int_increasing)

lemma two_powi_nat: "(2::rat) powi a = of_int (2 ^ nat a)" if "0 \<le> a"
  using that by (simp add: power_int_def)

lemma bitlen_powi:
  assumes "0 < n"
  shows "2 powi (bitlen n - 1) \<le> rat_of_int n" "rat_of_int n < 2 powi bitlen n"
proof -
  have "0 \<le> bitlen n - 1" using assms bitlen_ge_iff_power [of 1 n] by simp
  then show "2 powi (bitlen n - 1) \<le> rat_of_int n"
    using bitlen_bounds [OF assms] by (simp only: two_powi_nat of_int_le_iff)
  show "rat_of_int n < 2 powi bitlen n"
    using bitlen_bounds [OF assms] bitlen_nonneg [of n] by (simp only: two_powi_nat of_int_less_iff)
qed

lemma flog2_bounds:
  assumes "0 < r" shows "2 powi flog2 r \<le> r" "r < 2 powi (flog2 r + 1)"
proof -
  obtain n d where nd: "quotient_of r = (n, d)" by fastforce
  then have r: "r = of_int n / of_int d" and d: "0 < d"
    by (auto dest: quotient_of_div quotient_of_denom_pos)
  with assms have n: "0 < n" by (simp add: zero_less_divide_iff)
  let ?e = "bitlen n - bitlen d"
  note bn = bitlen_powi [OF n] and bd = bitlen_powi [OF d]
  have split: "(2::rat) powi (a - b) = 2 powi a / 2 powi b" for a b :: int
    by (simp add: power_int_diff)
  have dpos: "0 < rat_of_int d" using d by simp
  have lo: "2 powi (?e - 1) \<le> r"
  proof -
    have "(2::rat) powi (?e - 1) = 2 powi (bitlen n - 1) / 2 powi bitlen d"
      by (metis split diff_right_commute)
    also have "\<dots> \<le> of_int n / of_int d"
      using bn(1) bd(2) dpos n by (intro frac_le) (auto simp: less_imp_le)
    finally show ?thesis using r by simp
  qed
  have hi: "r < 2 powi (?e + 1)"
  proof -
    have "r < 2 powi bitlen n / 2 powi (bitlen d - 1)"
      unfolding r using bn(2) bd(1) dpos n by (intro frac_less) auto
    also have "\<dots> = 2 powi (?e + 1)"
      by (simp add: algebra_simps flip: split)
    finally show ?thesis .
  qed
  show "2 powi flog2 r \<le> r" "r < 2 powi (flog2 r + 1)"
    using lo hi by (auto simp: flog2_def nd Let_def not_less)
qed

lemma flog2_unique:
  assumes "0 < r" "2 powi e \<le> r" "r < 2 powi (e + 1)"
  shows "flog2 r = e"
proof -
  have "\<not> flog2 r + 1 \<le> e"
    using two_powi_mono [of "flog2 r + 1" e] flog2_bounds(2) [OF assms(1)] assms(2) by linarith
  moreover have "\<not> e + 1 \<le> flog2 r"
    using two_powi_mono [of "e + 1" "flog2 r"] flog2_bounds(1) [OF assms(1)] assms(3) by linarith
  ultimately show ?thesis by linarith
qed

lemma flog2_mono:
  assumes "0 < r" "r \<le> s" shows "flog2 r \<le> flog2 s"
proof (rule ccontr)
  assume "\<not> flog2 r \<le> flog2 s"
  then have "(2::rat) powi (flog2 s + 1) \<le> 2 powi flog2 r" by (intro two_powi_mono) simp
  with flog2_bounds(1) [of r] flog2_bounds(2) [of s] assms show False by linarith
qed

text \<open>A multiple of the last bit is a bound that rounding respects.\<close>

lemma round_pos_ge_multiple:
  assumes "0 < r" "of_int k * 2 powi last_bit r \<le> r"
  shows "of_int k * 2 powi last_bit r \<le> round_pos r"
proof -
  have "of_int k \<le> r / 2 powi last_bit r" using assms(2) by (simp add: pos_le_divide_eq)
  then have "k \<le> round_half_even (r / 2 powi last_bit r)"
    using round_half_even_mono by fastforce
  then show ?thesis by (simp add: round_pos_def)
qed

lemma round_pos_le_multiple:
  assumes "0 < r" "r \<le> of_int k * 2 powi last_bit r"
  shows "round_pos r \<le> of_int k * 2 powi last_bit r"
proof -
  have "r / 2 powi last_bit r \<le> of_int k" using assms(2) by (simp add: pos_divide_le_eq)
  then have "round_half_even (r / 2 powi last_bit r) \<le> k"
    using round_half_even_mono by fastforce
  then show ?thesis by (simp add: round_pos_def)
qed

lemma round_pos_nonneg: "0 < r \<Longrightarrow> 0 \<le> round_pos r"
  using round_pos_ge_multiple [of r 0] by simp

lemma power_of_two_multiple:
  assumes "last_bit r \<le> e"
  shows "(2::rat) powi e = of_int (2 ^ nat (e - last_bit r)) * 2 powi last_bit r"
proof -
  have "(2::rat) powi e = 2 powi (e - last_bit r) * 2 powi last_bit r"
    by (simp flip: power_int_add)
  with assms show ?thesis by (simp add: two_powi_nat)
qed

lemma round_pos_mono:
  assumes "0 < r" "r \<le> s" shows "round_pos r \<le> round_pos s"
proof (cases "last_bit r = last_bit s")
  case True
  have "r / 2 powi last_bit s \<le> s / 2 powi last_bit s"
    using assms(2) by (intro divide_right_mono) (simp_all add: less_imp_le)
  then show ?thesis
    using round_half_even_mono True by (simp add: round_pos_def)
next
  case False
  have s: "0 < s" using assms by simp
  have le: "flog2 r \<le> flog2 s" using flog2_mono [OF assms] .
  with False have e: "last_bit r < last_bit s" by (auto simp: last_bit_def max_def split: if_splits)
  then have fs: "flog2 r + 1 \<le> flog2 s" "last_bit s \<le> flog2 s" "last_bit r \<le> flog2 s"
    using le by (auto simp: last_bit_def max_def split: if_splits)
  have "r \<le> 2 powi flog2 s"
    using flog2_bounds(2) [OF assms(1)] two_powi_mono [OF fs(1)] by linarith
  then have "round_pos r \<le> 2 powi flog2 s"
    using round_pos_le_multiple [OF assms(1)] by (simp only: power_of_two_multiple [OF fs(3)])
  also have "2 powi flog2 s \<le> round_pos s"
    using round_pos_ge_multiple [OF s] flog2_bounds(1) [OF s]
    by (simp only: power_of_two_multiple [OF fs(2)])
  finally show ?thesis .
qed

lemma round_double_mono:
  assumes "a \<le> b" shows "num_le (round_double a) (round_double b)"
proof -
  consider "0 < a" | "b < 0" | "a = 0" "0 < b" | "a < 0" "b = 0" | "a < 0" "0 < b" | "a = 0" "b = 0"
    using assms by linarith
  then show ?thesis
  proof cases
    case 1
    then show ?thesis using round_pos_mono [of a b] assms by (auto simp: round_double_def)
  next
    case 2
    then show ?thesis using round_pos_mono [of "- b" "- a"] assms by (auto simp: round_double_def)
  qed (use round_pos_nonneg [of b] round_pos_nonneg [of "- a"] in
      \<open>auto simp: round_double_def not_le intro: order_trans\<close>)
qed

text \<open>A rational is a double when rounding leaves it alone; integers up to \<open>2\<^sup>5\<^sup>3\<close> are.\<close>

definition is_double :: "rat \<Rightarrow> bool" where
  "is_double r \<longleftrightarrow> round_double r = Fin r"

lemma round_pos_exact:
  assumes "r = of_int m * 2 powi last_bit r" shows "round_pos r = r"
proof -
  have "r / 2 powi last_bit r = of_int m * 2 powi last_bit r / 2 powi last_bit r"
    using assms by argo
  also have "\<dots> = of_int m" by simp
  finally have "round_half_even (r / 2 powi last_bit r) = m" by simp
  with assms show ?thesis by (simp add: round_pos_def)
qed

lemma round_pos_int:
  assumes "0 < n" "n \<le> 2 ^ 53" shows "round_pos (of_int n) = of_int n"
proof -
  let ?r = "rat_of_int n"
  have r: "0 < ?r" using assms by simp
  have n53: "?r \<le> 2 powi 53"
  proof -
    have "?r \<le> of_int (2 ^ 53)" using assms(2) by (simp only: of_int_le_iff)
    then show ?thesis by simp
  qed
  show ?thesis
  proof (cases "last_bit ?r \<le> 0")
    case True
    then have "?r = of_int (n * 2 ^ nat (- last_bit ?r)) * 2 powi last_bit ?r"
      by (simp add: power_int_def field_simps)
    then show ?thesis by (rule round_pos_exact)
  next
    case False
    then have big: "53 \<le> flog2 ?r" by (simp add: last_bit_def max_def split: if_splits)
    then have "(2::rat) powi 53 \<le> ?r"
      using two_powi_mono [OF big] flog2_bounds(1) [OF r] by linarith
    with n53 have eq: "?r = 2 powi 53" by linarith
    have "flog2 ?r = 53"
      using r by (rule flog2_unique) (simp_all only: eq, simp_all)
    then have "last_bit ?r = 1" by (simp add: last_bit_def)
    moreover have "?r = of_int (2 ^ 52) * 2 powi 1" using eq by simp
    ultimately have "?r = of_int (2 ^ 52) * 2 powi last_bit ?r" by metis
    then show ?thesis by (rule round_pos_exact)
  qed
qed

lemma is_double_int:
  assumes "\<bar>n\<bar> \<le> 2 ^ 53" shows "is_double (of_int n)"
proof -
  have big: "rat_of_int m < 2 ^ 1024" if "m \<le> 2 ^ 53" for m
  proof -
    have "rat_of_int m \<le> of_int (2 ^ 53)" using that by (simp only: of_int_le_iff)
    also have "\<dots> < 2 ^ 1024" by simp
    finally show ?thesis .
  qed
  consider "n = 0" | "0 < n" | "n < 0" by linarith
  then show ?thesis
  proof cases
    case 2
    then show ?thesis using round_pos_int [of n] big [of n] assms
      by (simp add: is_double_def round_double_def)
  next
    case 3
    then have "round_pos (of_int (- n)) = of_int (- n)" using assms by (intro round_pos_int) auto
    with 3 show ?thesis using big [of "- n"] assms
      by (simp add: is_double_def round_double_def)
  qed (simp add: is_double_def round_double_def)
qed

lemma num_add_int [simp]:
  "\<bar>m + n\<bar> \<le> 2 ^ 53 \<Longrightarrow> num_add (num_of_int m) (num_of_int n) = num_of_int (m + n)"
  using is_double_int [of "m + n"] by (simp add: is_double_def)

lemma num_sub_int [simp]:
  "\<bar>m - n\<bar> \<le> 2 ^ 53 \<Longrightarrow> num_sub (num_of_int m) (num_of_int n) = num_of_int (m - n)"
  using is_double_int [of "m - n"] by (simp add: is_double_def num_sub_def)

lemma round_double_small [simp]:
  "round_double 0 = Fin 0" "round_double 1 = Fin 1"
  "numeral n \<le> (2::int) ^ 53 \<Longrightarrow> round_double (numeral n) = Fin (numeral n)"
  using is_double_int [of 0] is_double_int [of 1] is_double_int [of "numeral n"]
  by (simp_all add: is_double_def)

text \<open>
  A sum within a limit that is itself a double is never rounded above it, and a sum rounded
  to at most the limit is at most the next value: the two directions of a limit check.
\<close>

lemma num_add_le_limit:
  assumes "a + b \<le> l" "is_double l"
  shows "num_le (num_add (Fin a) (Fin b)) (Fin l)"
  using round_double_mono [OF assms(1)] assms(2) by (simp add: is_double_def)

end
