(* ===== verification/JsString.thy ===== *)
theory JsString
  imports Prelude "HOL-Library.Char_ord" "HOL-Library.List_Lexorder"
begin

text \<open>
  JavaScript strings, as lists of code units below 256, and the string operations the source
  uses. The order of \<open>List_Lexorder\<close> on them is the code-unit order of \<open><\<close>, \<open><=\<close> and of
  \<open>Array.prototype.sort\<close> without a comparator.
\<close>

abbreviation code :: "char \<Rightarrow> nat" where
  "code c \<equiv> of_char c"

subsection \<open>Case folding and trimming\<close>

definition lower_char :: "char \<Rightarrow> char" where
  "lower_char c =
     (if 65 \<le> code c \<and> code c \<le> 90 \<or> 192 \<le> code c \<and> code c \<le> 222 \<and> code c \<noteq> 215
      then char_of (code c + 32) else c)"

definition to_lower :: "string \<Rightarrow> string" where
  "to_lower s = map lower_char s"

text \<open>The white space and line terminators that \<open>trim\<close> removes.\<close>

definition is_space :: "char \<Rightarrow> bool" where
  "is_space c \<longleftrightarrow> 9 \<le> code c \<and> code c \<le> 13 \<or> code c = 32 \<or> code c = 160"

definition trim :: "string \<Rightarrow> string" where
  "trim s = rev (dropWhile is_space (rev (dropWhile is_space s)))"

lemma trim_Nil [simp]: "trim [] = []"
  by (simp add: trim_def)

lemma trim_empty_iff: "trim s = [] \<longleftrightarrow> list_all is_space s"
proof
  assume "trim s = []"
  then have "\<forall>c \<in> set (dropWhile is_space s). is_space c"
    by (simp add: trim_def dropWhile_eq_Nil_conv)
  then have "dropWhile is_space s = []"
    by (metis hd_dropWhile hd_in_set)
  then show "list_all is_space s" by (simp add: dropWhile_eq_Nil_conv list_all_iff)
next
  assume "list_all is_space s"
  then show "trim s = []"
    by (simp add: trim_def list_all_iff dropWhile_eq_Nil_conv [THEN iffD2])
qed

subsection \<open>Character classes of the regular expressions\<close>

definition is_digit :: "char \<Rightarrow> bool" where
  "is_digit c \<longleftrightarrow> 48 \<le> code c \<and> code c \<le> 57"

definition is_lower_hex :: "char \<Rightarrow> bool" where
  "is_lower_hex c \<longleftrightarrow> is_digit c \<or> 97 \<le> code c \<and> code c \<le> 102"

definition is_hex :: "char \<Rightarrow> bool" where
  "is_hex c \<longleftrightarrow> is_lower_hex c \<or> 65 \<le> code c \<and> code c \<le> 70"

text \<open>\<open>/^[0-9a-f]{64}$/\<close> and the same with the flag \<open>i\<close>.\<close>

definition lower_hex64 :: "string \<Rightarrow> bool" where
  "lower_hex64 s \<longleftrightarrow> length s = 64 \<and> list_all is_lower_hex s"

definition hex64 :: "string \<Rightarrow> bool" where
  "hex64 s \<longleftrightarrow> length s = 64 \<and> list_all is_hex s"

text \<open>\<open>/^-?\d+$/\<close>\<close>

definition integer_string :: "string \<Rightarrow> bool" where
  "integer_string s =
     (let ds = (case s of c # cs \<Rightarrow> if c = CHR ''-'' then cs else s | [] \<Rightarrow> [])
      in ds \<noteq> [] \<and> list_all is_digit ds)"

text \<open>\<open>/^(0|[1-9]\d*)$/\<close>\<close>

definition natural_string :: "string \<Rightarrow> bool" where
  "natural_string s =
     (s = ''0'' \<or> (case s of [] \<Rightarrow> False
                   | c # cs \<Rightarrow> is_digit c \<and> c \<noteq> CHR ''0'' \<and> list_all is_digit cs))"

subsection \<open>String literals of JSON\<close>

definition hex_digit :: "nat \<Rightarrow> char" where
  "hex_digit n = ''0123456789abcdef'' ! n"

definition short_escapes :: "(char \<times> char) list" where
  "short_escapes =
     [(CHR 0x22, CHR 0x22), (CHR 0x5C, CHR 0x5C), (CHR 0x08, CHR ''b''), (CHR 0x09, CHR ''t''),
      (CHR 0x0A, CHR ''n''), (CHR 0x0C, CHR ''f''), (CHR 0x0D, CHR ''r'')]"

definition escape_char :: "char \<Rightarrow> string" where
  "escape_char c =
     (case map_of short_escapes c of
        Some k \<Rightarrow> [CHR 0x5C, k]
      | None \<Rightarrow>
          if code c < 32
          then [CHR 0x5C, CHR ''u'', CHR ''0'', CHR ''0'',
                hex_digit (code c div 16), hex_digit (code c mod 16)]
          else [c])"

text \<open>\<open>JSON.stringify\<close> of a string.\<close>

definition quote :: "string \<Rightarrow> string" where
  "quote s = CHR 0x22 # concat (map escape_char s) @ [CHR 0x22]"

lemma hex_digit_inj: "m < 16 \<Longrightarrow> n < 16 \<Longrightarrow> hex_digit m = hex_digit n \<Longrightarrow> m = n"
  unfolding hex_digit_def by (subst (asm) nth_eq_iff_index_eq) auto

lemma code_inj: "code c = code d \<longleftrightarrow> c = d"
  by (rule of_char_eq_iff)

lemma short_escapes_inj:
  "map_of short_escapes c = Some k \<Longrightarrow> map_of short_escapes d = Some k \<Longrightarrow> c = d"
  by (auto simp: short_escapes_def split: if_splits)

lemma short_escapes_not_u: "map_of short_escapes c \<noteq> Some CHR ''u''"
  by (simp add: short_escapes_def)

lemma short_escapes_None: "map_of short_escapes c = None \<Longrightarrow> c \<noteq> CHR 0x5C \<and> c \<noteq> CHR 0x22"
  by (auto simp: short_escapes_def)

lemma hex_pair_inj:
  assumes "hex_digit (m div 16) = hex_digit (n div 16)" "hex_digit (m mod 16) = hex_digit (n mod 16)"
    and "m < 32" "n < 32"
  shows "m = n"
proof -
  have "m div 16 < 16" "n div 16 < 16" using assms(3,4) by simp_all
  then have "m div 16 = n div 16" using hex_digit_inj assms(1) by blast
  moreover have "m mod 16 = n mod 16" using hex_digit_inj assms(2) by simp
  ultimately show ?thesis by (metis div_mult_mod_eq)
qed

lemma escape_char_prefix_free:
  assumes "escape_char c @ x = escape_char d @ y"
  shows "c = d \<and> x = y"
  using assms short_escapes_not_u short_escapes_None short_escapes_inj
  by (auto simp: escape_char_def split: option.splits if_splits dest: hex_pair_inj)

lemma escape_char_not_quote: "escape_char c @ x \<noteq> CHR 0x22 # y"
  by (auto simp: escape_char_def split: option.splits dest: short_escapes_None)

lemma escaped_prefix_free:
  "concat (map escape_char s) @ CHR 0x22 # x = concat (map escape_char t) @ CHR 0x22 # y \<Longrightarrow>
   s = t \<and> x = y"
proof (induction s arbitrary: t)
  case Nil
  then show ?case by (cases t) (auto dest: sym simp: escape_char_not_quote)
next
  case (Cons c s)
  show ?case
  proof (cases t)
    case Nil
    with Cons.prems show ?thesis by (auto simp: escape_char_not_quote)
  next
    case (Cons d u)
    with Cons.prems have "c = d \<and> concat (map escape_char s) @ CHR 0x22 # x =
        concat (map escape_char u) @ CHR 0x22 # y"
      by (intro escape_char_prefix_free) simp
    with Cons Cons.IH show ?thesis by blast
  qed
qed

lemma quote_prefix_free: "quote s @ x = quote t @ y \<Longrightarrow> s = t \<and> x = y"
  using escaped_prefix_free [of s x t y] by (simp add: quote_def)

lemma quote_inj [simp]: "quote s = quote t \<longleftrightarrow> s = t"
  using quote_prefix_free [of s "[]" t "[]"] by auto

lemma quote_Cons: "\<exists>u. quote s = CHR 0x22 # u"
  by (simp add: quote_def)

end
