(* ===== verification/JsValue.thy ===== *)
theory JsValue
  imports JsNumber JsString
begin

text \<open>
  JavaScript values as the code sees them through \<open>unknown\<close> and \<open>JSON\<close>, the two canonical
  serialisations of the repository (\<open>stableJson\<close> in \<open>broker.ts\<close>, \<open>stableStringify\<close> in
  \<open>idempotency-store.ts\<close>), and the functions of the host that are parameters of the model.
\<close>

subsection \<open>Values\<close>

text \<open>An object is the list of its own properties in insertion order; keys are distinct.\<close>

datatype jsval =
    JUndef
  | JNull
  | JBool bool
  | JNum jsnum
  | JStr string
  | JArr "jsval list"
  | JObj "(string \<times> jsval) list"

text \<open>\<open>v[k]\<close>: \<open>undefined\<close> when the property is missing; \<open>has_key\<close> is \<open>k in v\<close>.\<close>

fun members :: "jsval \<Rightarrow> (string \<times> jsval) list" where
  "members (JObj kvs) = kvs"
| "members _ = []"

definition js_get :: "jsval \<Rightarrow> string \<Rightarrow> jsval" where
  "js_get v k = (case map_of (members v) k of Some x \<Rightarrow> x | None \<Rightarrow> JUndef)"

definition has_key :: "jsval \<Rightarrow> string \<Rightarrow> bool" where
  "has_key v k \<longleftrightarrow> map_of (members v) k \<noteq> None"

fun is_object :: "jsval \<Rightarrow> bool" where
  "is_object (JObj kvs) = True"
| "is_object _ = False"

fun is_string :: "jsval \<Rightarrow> bool" where
  "is_string (JStr s) = True"
| "is_string _ = False"

text \<open>JavaScript truth of a value.\<close>

fun truthy :: "jsval \<Rightarrow> bool" where
  "truthy JUndef = False"
| "truthy JNull = False"
| "truthy (JBool b) = b"
| "truthy (JNum x) = (x \<noteq> NaN \<and> x \<noteq> Fin 0)"
| "truthy (JStr s) = (s \<noteq> [])"
| "truthy _ = True"

text \<open>\<open>v == null\<close>\<close>

definition nullish :: "jsval \<Rightarrow> bool" where
  "nullish v \<longleftrightarrow> v = JUndef \<or> v = JNull"

text \<open>Values that \<open>JSON.parse\<close> can return: no \<open>undefined\<close>, distinct keys.\<close>

fun json_value :: "jsval \<Rightarrow> bool" where
  "json_value JUndef = False"
| "json_value (JArr xs) = list_all json_value xs"
| "json_value (JObj kvs) = (distinct (map fst kvs) \<and> list_all (\<lambda>(k, v). json_value v) kvs)"
| "json_value _ = True"

subsection \<open>The host\<close>

text \<open>
  What the code calls outside the repository: the digests of \<open>node:crypto\<close>, the formatting
  and parsing of dates and numbers by the engine, the ICU comparison behind
  \<open>localeCompare\<close>, the validators of the \<open>zod\<close> package, and \<open>redactSecrets\<close>. Times are
  milliseconds since the epoch.
\<close>

record host =
  sha256_hex :: "string \<Rightarrow> string"
  hmac_sha256_hex :: "string \<Rightarrow> string \<Rightarrow> string"
  iso_string :: "int \<Rightarrow> string"
  date_parse :: "string \<Rightarrow> jsnum"
  number_to_string :: "jsnum \<Rightarrow> string"
  locale_compare :: "string \<Rightarrow> string \<Rightarrow> int"
  is_uuid :: "string \<Rightarrow> bool"
  is_datetime :: "string \<Rightarrow> bool"
  redact_secrets :: "string \<Rightarrow> string"

subsection \<open>Canonical serialisation\<close>

text \<open>A stable sort of the entries of an object by a comparison of their keys.\<close>

fun insert_entry :: "(string \<Rightarrow> string \<Rightarrow> bool) \<Rightarrow> string \<times> 'a \<Rightarrow> (string \<times> 'a) list \<Rightarrow>
    (string \<times> 'a) list" where
  "insert_entry le e [] = [e]"
| "insert_entry le e (x # xs) =
     (if le (fst e) (fst x) then e # x # xs else x # insert_entry le e xs)"

definition sort_entries :: "(string \<Rightarrow> string \<Rightarrow> bool) \<Rightarrow> (string \<times> 'a) list \<Rightarrow>
    (string \<times> 'a) list" where
  "sort_entries le xs = foldr (insert_entry le) xs []"

lemma set_insert_entry [simp]: "set (insert_entry le e xs) = insert e (set xs)"
  by (induction xs) auto

lemma set_sort_entries [simp]: "set (sort_entries le xs) = set xs"
  by (induction xs) (simp_all add: sort_entries_def)

lemma map_insert_entry:
  "map (apsnd f) (insert_entry le e xs) = insert_entry le (apsnd f e) (map (apsnd f) xs)"
  by (induction xs) auto

lemma map_sort_entries:
  "map (apsnd f) (sort_entries le xs) = sort_entries le (map (apsnd f) xs)"
  by (induction xs) (simp_all add: sort_entries_def map_insert_entry)

lemma distinct_insert_entry:
  "distinct (map fst xs) \<Longrightarrow> fst e \<notin> fst ` set xs \<Longrightarrow> distinct (map fst (insert_entry le e xs))"
  by (induction xs) auto

lemma distinct_sort_entries:
  "distinct (map fst xs) \<Longrightarrow> distinct (map fst (sort_entries le xs))"
proof (induction xs)
  case (Cons e xs)
  have "fst e \<notin> fst ` set (sort_entries le xs)" using Cons.prems by simp
  with Cons show ?case by (simp add: sort_entries_def distinct_insert_entry)
qed (simp add: sort_entries_def)

lemma map_of_sort_entries:
  assumes "distinct (map fst xs)" shows "map_of (sort_entries le xs) = map_of xs"
  using assms distinct_sort_entries [OF assms] by (intro map_of_inject_set [THEN iffD2]) simp_all

text \<open>\<open>Array.prototype.join\<close>\<close>

fun join :: "string \<Rightarrow> string list \<Rightarrow> string" where
  "join sep [] = []"
| "join sep (x # xs) = x @ concat (map (\<lambda>y. sep @ y) xs)"

lemma size_entry [termination_simp]:
  "(k, v) \<in> set kvs \<Longrightarrow> size v < Suc (size_list (\<lambda>x. Suc (size (snd x))) kvs)"
  by (induction kvs) auto

text \<open>\<open>JSON.stringify\<close> of a leaf.\<close>

fun leaf_text :: "(jsnum \<Rightarrow> string) \<Rightarrow> jsval \<Rightarrow> string" where
  "leaf_text fmt (JBool b) = (if b then ''true'' else ''false'')"
| "leaf_text fmt (JNum x) = (if is_finite x then fmt x else ''null'')"
| "leaf_text fmt (JStr s) = quote s"
| "leaf_text fmt _ = ''null''"

definition member_text :: "string \<times> string \<Rightarrow> string" where
  "member_text e = quote (fst e) @ '':'' @ snd e"

text \<open>
  \<open>stableJson\<close>: keys by \<open>localeCompare\<close>, \<open>undefined\<close> members dropped, any other
  \<open>undefined\<close> printed as \<open>null\<close>.
\<close>

fun stable_json_by :: "(string \<Rightarrow> string \<Rightarrow> bool) \<Rightarrow> (jsnum \<Rightarrow> string) \<Rightarrow> jsval \<Rightarrow> string" where
  "stable_json_by le fmt (JArr xs) = ''['' @ join '','' (map (stable_json_by le fmt) xs) @ '']''"
| "stable_json_by le fmt (JObj kvs) =
     ''{'' @ join '','' (map member_text (sort_entries le
        (map (\<lambda>(k, v). (k, stable_json_by le fmt v)) (filter (\<lambda>(k, v). v \<noteq> JUndef) kvs)))) @ ''}''"
| "stable_json_by le fmt v = leaf_text fmt v"

definition stable_json :: "host \<Rightarrow> jsval \<Rightarrow> string" where
  "stable_json h = stable_json_by (\<lambda>a b. locale_compare h a b \<le> 0) (number_to_string h)"

text \<open>
  \<open>stableStringify\<close>: keys in code-unit order; \<open>undefined\<close> in an array leaves an empty
  place, because \<open>join\<close> prints it as the empty string.
\<close>

fun stable_stringify_by :: "(jsnum \<Rightarrow> string) \<Rightarrow> jsval \<Rightarrow> string" where
  "stable_stringify_by fmt JUndef = ''''"
| "stable_stringify_by fmt (JArr xs) =
     ''['' @ join '','' (map (stable_stringify_by fmt) xs) @ '']''"
| "stable_stringify_by fmt (JObj kvs) =
     ''{'' @ join '','' (map member_text (sort_entries (\<le>)
        (map (\<lambda>(k, v). (k, stable_stringify_by fmt v)) (filter (\<lambda>(k, v). v \<noteq> JUndef) kvs)))) @ ''}''"
| "stable_stringify_by fmt v = leaf_text fmt v"

definition stable_stringify :: "host \<Rightarrow> jsval \<Rightarrow> string" where
  "stable_stringify h = stable_stringify_by (number_to_string h)"

subsection \<open>The canonical form a serialisation prints\<close>

text \<open>
  What \<open>stableJson\<close> keeps of a value: members sorted, undefined members dropped, and
  \<open>undefined\<close>, NaN and the infinities elsewhere replaced by \<open>null\<close>. The text is a plain
  rendering of this form, and the rendering is injective, so two values have the same text
  exactly when they have the same canonical form.
\<close>

fun canon_by :: "(string \<Rightarrow> string \<Rightarrow> bool) \<Rightarrow> jsval \<Rightarrow> jsval" where
  "canon_by le JUndef = JNull"
| "canon_by le (JNum x) = (if is_finite x then JNum x else JNull)"
| "canon_by le (JArr xs) = JArr (map (canon_by le) xs)"
| "canon_by le (JObj kvs) =
     JObj (sort_entries le (map (\<lambda>(k, v). (k, canon_by le v)) (filter (\<lambda>(k, v). v \<noteq> JUndef) kvs)))"
| "canon_by le v = v"

definition canon :: "host \<Rightarrow> jsval \<Rightarrow> jsval" where
  "canon h = canon_by (\<lambda>a b. locale_compare h a b \<le> 0)"

fun render :: "(jsnum \<Rightarrow> string) \<Rightarrow> jsval \<Rightarrow> string" where
  "render fmt (JArr xs) = ''['' @ join '','' (map (render fmt) xs) @ '']''"
| "render fmt (JObj kvs) = ''{'' @ join '','' (map (\<lambda>(k, v). member_text (k, render fmt v)) kvs) @ ''}''"
| "render fmt v = leaf_text fmt v"

text \<open>No \<open>undefined\<close> as a whole value or as an element of an array.\<close>

fun no_holes :: "jsval \<Rightarrow> bool" where
  "no_holes JUndef = False"
| "no_holes (JArr xs) = list_all no_holes xs"
| "no_holes (JObj kvs) = list_all (\<lambda>(k, v). v = JUndef \<or> no_holes v) kvs"
| "no_holes _ = True"

fun clean :: "jsval \<Rightarrow> bool" where
  "clean JUndef = False"
| "clean (JNum x) = is_finite x"
| "clean (JArr xs) = list_all clean xs"
| "clean (JObj kvs) = list_all (\<lambda>(k, v). clean v) kvs"
| "clean _ = True"

lemma map_pair_apsnd: "map (\<lambda>(k, v). (k, f v)) = map (apsnd f)"
  by (intro arg_cong [where f = map] ext) auto

lemma stable_json_by_render: "stable_json_by le fmt v = render fmt (canon_by le v)"
proof (induction le fmt v rule: stable_json_by.induct)
  case (1 le fmt xs)
  then show ?case by (simp cong: map_cong)
next
  case (2 le fmt kvs)
  let ?kvs = "filter (\<lambda>(k, v). v \<noteq> JUndef) kvs"
  from 2 have "map (\<lambda>(k, v). (k, stable_json_by le fmt v)) ?kvs =
      map (apsnd (render fmt)) (map (\<lambda>(k, v). (k, canon_by le v)) ?kvs)"
    by auto
  then show ?case
    by (simp add: map_sort_entries [symmetric] o_def split_beta del: map_map)
      (simp add: member_text_def case_prod_unfold o_def)
qed simp_all

lemma stable_stringify_by_render:
  "no_holes v \<Longrightarrow> stable_stringify_by fmt v = render fmt (canon_by (\<le>) v)"
proof (induction fmt v rule: stable_stringify_by.induct)
  case (2 fmt xs)
  then show ?case by (simp add: list_all_iff cong: map_cong)
next
  case (3 fmt kvs)
  let ?kvs = "filter (\<lambda>(k, v). v \<noteq> JUndef) kvs"
  from 3 have "map (\<lambda>(k, v). (k, stable_stringify_by fmt v)) ?kvs =
      map (apsnd (render fmt)) (map (\<lambda>(k, v). (k, canon_by (\<le>) v)) ?kvs)"
    by (auto simp: list_all_iff)
  then show ?case
    by (simp add: map_sort_entries [symmetric] o_def split_beta del: map_map)
      (simp add: member_text_def case_prod_unfold o_def)
qed simp_all

lemma clean_canon_by: "clean (canon_by le v)"
  by (induction le v rule: canon_by.induct) (auto simp: list_all_iff)

subsection \<open>The rendering is injective\<close>

text \<open>
  What the code relies on from \<open>Number.prototype.toString\<close>: distinct finite numbers have
  distinct texts, made of digits, sign, point and exponent mark only.
\<close>

definition number_chars :: "char set" where
  "number_chars = set ''0123456789+-.e''"

definition number_format :: "(jsnum \<Rightarrow> string) \<Rightarrow> bool" where
  "number_format fmt \<longleftrightarrow>
     (\<forall>x. is_finite x \<longrightarrow> fmt x \<noteq> [] \<and> set (fmt x) \<subseteq> number_chars) \<and>
     (\<forall>x y. is_finite x \<longrightarrow> is_finite y \<longrightarrow> fmt x = fmt y \<longrightarrow> x = y)"

text \<open>A text stops where the next character separates or closes.\<close>

definition stops :: "string \<Rightarrow> bool" where
  "stops r \<longleftrightarrow> r = [] \<or> hd r \<in> set '',]}''"

lemma stops_simps [simp]:
  "stops []" "stops (CHR '','' # r)" "stops (CHR '']'' # r)" "stops (CHR ''}'' # r)"
  by (simp_all add: stops_def)

lemma stops_not_number: "stops u \<Longrightarrow> takeWhile (\<lambda>c. c \<in> number_chars) u = []"
  by (cases u) (auto simp: stops_def number_chars_def)

lemma take_number:
  "set t \<subseteq> number_chars \<Longrightarrow> stops u \<Longrightarrow> takeWhile (\<lambda>c. c \<in> number_chars) (t @ u) = t"
  using stops_not_number [of u] by (subst takeWhile_append2) auto

lemma span_number:
  assumes "set a \<subseteq> number_chars" "set b \<subseteq> number_chars" "stops r" "stops s" "a @ r = b @ s"
  shows "a = b \<and> r = s"
  using take_number [OF assms(1,3)] take_number [OF assms(2,4)] assms(5) by simp

fun kind :: "char \<Rightarrow> nat" where
  "kind c = (if c = CHR ''n'' then 0 else if c = CHR ''t'' then 1 else if c = CHR ''f'' then 2
     else if c = CHR 0x22 then 3 else if c = CHR ''['' then 4 else if c = CHR ''{'' then 5 else 6)"

fun value_kind :: "jsval \<Rightarrow> nat" where
  "value_kind (JBool b) = (if b then 1 else 2)"
| "value_kind (JNum x) = 6"
| "value_kind (JStr s) = 3"
| "value_kind (JArr xs) = 4"
| "value_kind (JObj kvs) = 5"
| "value_kind _ = 0"

lemma number_chars_kind: "c \<in> number_chars \<Longrightarrow> kind c = 6 \<and> c \<notin> set '',]}''"
  by (auto simp: number_chars_def)

lemma render_first:
  assumes "number_format fmt" "clean v"
  shows "\<exists>c u. render fmt v = c # u \<and> kind c = value_kind v \<and> c \<notin> set '',]}''"
proof (cases v)
  case (JNum x)
  with assms have "fmt x \<noteq> []" "set (fmt x) \<subseteq> number_chars" by (auto simp: number_format_def)
  then obtain c u where "fmt x = c # u" "c \<in> number_chars" by (cases "fmt x") auto
  with JNum assms number_chars_kind [of c] show ?thesis by auto
qed (use assms in \<open>auto simp: quote_def\<close>)

text \<open>
  Two comma-separated lists that continue with the same closing character agree, if their
  elements can be read off one by one.
\<close>

lemma tail_prefix_free:
  assumes elem: "\<And>x y r s. x \<in> set xs \<Longrightarrow> good y \<Longrightarrow> stops r \<Longrightarrow> stops s \<Longrightarrow>
      f x @ r = f y @ s \<Longrightarrow> x = y \<and> r = s"
    and c: "c = CHR '']'' \<or> c = CHR ''}''"
    and "list_all good ys"
    and "concat (map (\<lambda>x. '','' @ f x) xs) @ c # r = concat (map (\<lambda>y. '','' @ f y) ys) @ c # s"
  shows "xs = ys \<and> r = s"
  using assms(1,3,4)
proof (induction xs arbitrary: ys)
  case Nil
  then show ?case using c by (cases ys) auto
next
  case (Cons x xs)
  show ?case
  proof (cases ys)
    case Nil
    with Cons.prems c show ?thesis by auto
  next
    case (Cons y zs)
    let ?rest = "\<lambda>xs r. concat (map (\<lambda>x. '','' @ f x) xs) @ c # r"
    have stops: "stops (?rest us u)" for us u using c by (cases us) auto
    from Cons Cons.prems have "f x @ ?rest xs r = f y @ ?rest zs s" by simp
    with Cons Cons.prems stops have "x = y" "?rest xs r = ?rest zs s"
      using Cons.prems(1) [of x y "?rest xs r" "?rest zs s"] by auto
    moreover have "xs = zs \<and> r = s"
      by (rule Cons.IH [of zs]) (use Cons Cons.prems calculation in auto)
    ultimately show ?thesis using Cons by simp
  qed
qed

lemma join_prefix_free:
  assumes elem: "\<And>x y r s. x \<in> set xs \<Longrightarrow> good y \<Longrightarrow> stops r \<Longrightarrow> stops s \<Longrightarrow>
      f x @ r = f y @ s \<Longrightarrow> x = y \<and> r = s"
    and first: "\<And>x. x \<in> set xs \<or> good x \<Longrightarrow> f x \<noteq> [] \<and> hd (f x) \<noteq> c"
    and c: "c = CHR '']'' \<or> c = CHR ''}''"
    and good: "list_all good ys"
    and eq: "join '','' (map f xs) @ c # r = join '','' (map f ys) @ c # s"
  shows "xs = ys \<and> r = s"
proof -
  have first_ne: "f x @ t \<noteq> c # u" if "x \<in> set xs \<or> good x" for x t u
    using first [OF that] by (cases "f x") auto
  show ?thesis
  proof (cases xs; cases ys)
    fix x xs' y ys' assume xs: "xs = x # xs'" and ys: "ys = y # ys'"
    let ?rest = "\<lambda>xs r. concat (map (\<lambda>x. '','' @ f x) xs) @ c # r"
    have stops: "stops (?rest us u)" for us u using c by (cases us) auto
    have xy: "x = y \<and> ?rest xs' r = ?rest ys' s"
      by (rule elem) (use stops xs ys good eq in \<open>auto simp: o_def\<close>)
    have "xs' = ys' \<and> r = s"
      by (rule tail_prefix_free [where f = f and good = good])
        (use xs ys good xy c elem in auto)
    with xs ys xy show ?thesis by simp
  qed (use first_ne eq good in \<open>auto dest: sym\<close>)
qed

lemma member_prefix_free:
  assumes "quote k @ '':'' @ t @ r = quote l @ '':'' @ u @ s"
  shows "k = l \<and> t @ r = u @ s"
  using quote_prefix_free [OF assms] by simp

lemma render_same_kind:
  assumes "number_format fmt" "clean v" "clean w" "render fmt v @ r = render fmt w @ s"
  shows "value_kind v = value_kind w"
proof -
  obtain c u d t where "render fmt v = c # u" "kind c = value_kind v"
    "render fmt w = d # t" "kind d = value_kind w"
    using render_first assms(1-3) by metis
  with assms(4) show ?thesis by simp
qed

theorem render_prefix_free:
  assumes fmt: "number_format fmt"
  shows "clean v \<Longrightarrow> clean w \<Longrightarrow> stops r \<Longrightarrow> stops s \<Longrightarrow>
    render fmt v @ r = render fmt w @ s \<Longrightarrow> v = w \<and> r = s"
proof (induction v arbitrary: w r s)
  case (JArr xs)
  from JArr.prems render_same_kind [OF fmt, of "JArr xs" w r s]
  obtain ys where w: "w = JArr ys" by (cases w) (auto split: if_splits)
  have "xs = ys \<and> r = s"
  proof (rule join_prefix_free [where f = "render fmt" and good = clean and c = "CHR '']''"])
    show "x \<in> set xs \<or> clean x \<Longrightarrow> render fmt x \<noteq> [] \<and> hd (render fmt x) \<noteq> CHR '']''" for x
      using render_first [OF fmt, of x] JArr.prems(1) by (auto simp: list_all_iff)
  qed (use JArr w in \<open>auto simp: list_all_iff\<close>)
  with w show ?case by simp
next
  case (JObj kvs)
  let ?f = "\<lambda>(k, v). member_text (k, render fmt v)"
  from JObj.prems render_same_kind [OF fmt, of "JObj kvs" w r s]
  obtain lws where w: "w = JObj lws" by (cases w) (auto split: if_splits)
  have "kvs = lws \<and> r = s"
  proof (rule join_prefix_free [where f = ?f and good = "\<lambda>(k, v). clean v" and c = "CHR ''}''"])
    fix x y r s
    assume x: "x \<in> set kvs" and y: "(\<lambda>(k, v). clean v) y" and st: "stops r" "stops s"
      and eq: "?f x @ r = ?f y @ s"
    obtain k v l u where xy: "x = (k, v)" "y = (l, u)" by (cases x; cases y) auto
    with eq have "quote k @ '':'' @ render fmt v @ r = quote l @ '':'' @ render fmt u @ s"
      by (simp add: member_text_def)
    then have "k = l" "render fmt v @ r = render fmt u @ s" using member_prefix_free by blast+
    moreover have "clean v" using x xy JObj.prems(1) by (auto simp: list_all_iff)
    moreover have "v = u \<and> r = s"
      by (rule JObj.IH [of x]) (use x xy y st calculation in auto)
    ultimately show "x = y \<and> r = s" using xy by simp
  qed (use JObj.prems w in \<open>auto simp: list_all_iff member_text_def quote_def\<close>)
  with w show ?case by simp
next
  case (JNum x)
  from JNum.prems render_same_kind [OF fmt, of "JNum x" w r s]
  obtain y where w: "w = JNum y" by (cases w) (auto split: if_splits)
  with JNum.prems fmt show ?case
    using span_number [of "fmt x" "fmt y" r s] by (auto simp: number_format_def)
next
  case (JStr t)
  from JStr.prems render_same_kind [OF fmt, of "JStr t" w r s]
  obtain u where w: "w = JStr u" by (cases w) (auto split: if_splits)
  with JStr.prems show ?case using quote_prefix_free [of t r u s] by simp
next
  case (JBool b)
  from JBool.prems render_same_kind [OF fmt, of "JBool b" w r s]
  show ?case by (cases w) (auto split: if_splits)
next
  case JNull
  from JNull.prems render_same_kind [OF fmt, of JNull w r s]
  show ?case by (cases w) (auto split: if_splits)
qed simp

lemma render_inj:
  "number_format fmt \<Longrightarrow> clean v \<Longrightarrow> clean w \<Longrightarrow> render fmt v = render fmt w \<longleftrightarrow> v = w"
  using render_prefix_free [of fmt v w "[]" "[]"] by auto

text \<open>Two values have the same canonical text exactly when their canonical forms agree.\<close>

lemma stable_json_eq_iff:
  assumes "number_format (number_to_string h)"
  shows "stable_json h v = stable_json h w \<longleftrightarrow> canon h v = canon h w"
  by (simp add: stable_json_def canon_def stable_json_by_render render_inj assms clean_canon_by)

lemma stable_stringify_eq_iff:
  assumes "number_format (number_to_string h)" "no_holes v" "no_holes w"
  shows "stable_stringify h v = stable_stringify h w \<longleftrightarrow> canon_by (\<le>) v = canon_by (\<le>) w"
  using assms by (simp add: stable_stringify_def stable_stringify_by_render render_inj clean_canon_by)

end
