(* ===== verification/Schemas.thy ===== *)
theory Schemas
  imports JsValue "HOL-Library.Monad_Syntax"
begin

text \<open>
  The trading intents of \<open>packages/schemas/src/intent.ts\<close> with the enumerations of
  \<open>common.ts\<close>: one datatype whose values are what \<open>TradingIntent.parse\<close> returns, the
  validation itself (\<open>parse_intent\<close>, the successes of \<open>safeParse\<close>) and the object an intent
  is in memory (\<open>intent_json\<close>). The field predicates of the \<open>zod\<close> package that are regular
  expressions of that package (\<open>uuid\<close>, \<open>datetime\<close>) are parameters of the host.
\<close>

subsection \<open>Enumerations\<close>

datatype environment = Dev | Paper | Testnet | CanaryLive | Production

definition environment_table :: "(string \<times> environment) list" where
  "environment_table = [(''dev'', Dev), (''paper'', Paper), (''testnet'', Testnet),
     (''canary_live'', CanaryLive), (''production'', Production)]"

fun environment_name :: "environment \<Rightarrow> string" where
  "environment_name Dev = ''dev''"
| "environment_name Paper = ''paper''"
| "environment_name Testnet = ''testnet''"
| "environment_name CanaryLive = ''canary_live''"
| "environment_name Production = ''production''"

datatype action =
    PlaceOrder
  | CancelOrder
  | GetOrderStatus
  | SimulateTransaction
  | RequestSignature

fun action_name :: "action \<Rightarrow> string" where
  "action_name PlaceOrder = ''cex.place_order''"
| "action_name CancelOrder = ''cex.cancel_order''"
| "action_name GetOrderStatus = ''cex.get_order_status''"
| "action_name SimulateTransaction = ''onchain.simulate_transaction''"
| "action_name RequestSignature = ''onchain.request_signature''"

definition action_table :: "(string \<times> action) list" where
  "action_table = map (\<lambda>a. (action_name a, a))
     [PlaceOrder, CancelOrder, GetOrderStatus, SimulateTransaction, RequestSignature]"

datatype order_side = Buy | Sell

fun side_name :: "order_side \<Rightarrow> string" where
  "side_name Buy = ''buy''"
| "side_name Sell = ''sell''"

definition side_table :: "(string \<times> order_side) list" where
  "side_table = [(''buy'', Buy), (''sell'', Sell)]"

datatype account_mode = Spot | UsdmFutures

fun account_mode_name :: "account_mode \<Rightarrow> string" where
  "account_mode_name Spot = ''spot''"
| "account_mode_name UsdmFutures = ''usdm_futures''"

definition account_mode_table :: "(string \<times> account_mode) list" where
  "account_mode_table = [(''spot'', Spot), (''usdm_futures'', UsdmFutures)]"

datatype margin_type = Isolated | Cross

fun margin_type_name :: "margin_type \<Rightarrow> string" where
  "margin_type_name Isolated = ''isolated''"
| "margin_type_name Cross = ''cross''"

definition margin_type_table :: "(string \<times> margin_type) list" where
  "margin_type_table = [(''isolated'', Isolated), (''cross'', Cross)]"

datatype chain = Ethereum | Solana

fun chain_name :: "chain \<Rightarrow> string" where
  "chain_name Ethereum = ''ethereum''"
| "chain_name Solana = ''solana''"

definition chain_table :: "(string \<times> chain) list" where
  "chain_table = [(''ethereum'', Ethereum), (''solana'', Solana)]"

datatype chain_environment = Sepolia | Devnet | Mainnet

fun chain_environment_name :: "chain_environment \<Rightarrow> string" where
  "chain_environment_name Sepolia = ''sepolia''"
| "chain_environment_name Devnet = ''devnet''"
| "chain_environment_name Mainnet = ''mainnet''"

text \<open>\<open>EvmChainEnvironment\<close> and \<open>SolanaChainEnvironment\<close>\<close>

fun chain_environment_table :: "chain \<Rightarrow> (string \<times> chain_environment) list" where
  "chain_environment_table Ethereum = [(''sepolia'', Sepolia), (''mainnet'', Mainnet)]"
| "chain_environment_table Solana = [(''devnet'', Devnet), (''mainnet'', Mainnet)]"

subsection \<open>Intents\<close>

text \<open>The envelope every intent has; its \<open>action\<close> is the constructor of the intent.\<close>

record envelope =
  env_intentId :: string
  env_principal :: string
  env_resource :: string
  env_environment :: environment
  env_requestedAt :: string
  env_idempotencyKey :: string
  env_rationale :: string
  env_evidence :: "string list"

text \<open>\<open>exchange\<close> is always \<open>binance\<close> and \<open>orderType\<close> always \<open>limit\<close>.\<close>

record cex_order =
  ord_account :: string
  ord_accountMode :: account_mode
  ord_symbol :: string
  ord_side :: order_side
  ord_quantity :: jsnum
  ord_price :: jsnum
  ord_maxNotionalUsd :: jsnum
  ord_maxSlippageBps :: jsnum
  ord_leverage :: "jsnum option"
  ord_marginType :: "margin_type option"

record cex_ref =
  ref_account :: string
  ref_orderId :: string
  ref_symbol :: string

text \<open>The owner is the field \<open>address\<close> on Ethereum and \<open>account\<close> on Solana.\<close>

record expected_delta =
  ed_owner :: string
  ed_asset :: string
  ed_minDelta :: string
  ed_maxDelta :: string

record onchain_call =
  oc_chain :: chain
  oc_chainEnvironment :: chain_environment
  oc_to :: string
  oc_data :: "string option"
  oc_value :: "string option"
  oc_programId :: "string option"
  oc_instructions :: "jsval list option"
  oc_expectedDeltas :: "expected_delta list option"

record signing_call = onchain_call +
  sc_simulationId :: string
  sc_maxTokenApprovalAmount :: "string option"

datatype trading_intent =
    CexOrderIntent envelope cex_order
  | CexCancelIntent envelope cex_ref
  | CexOrderStatusIntent envelope cex_ref
  | OnchainSimulationIntent envelope onchain_call
  | OnchainSigningIntent envelope signing_call

fun intent_envelope :: "trading_intent \<Rightarrow> envelope" where
  "intent_envelope (CexOrderIntent e x) = e"
| "intent_envelope (CexCancelIntent e x) = e"
| "intent_envelope (CexOrderStatusIntent e x) = e"
| "intent_envelope (OnchainSimulationIntent e x) = e"
| "intent_envelope (OnchainSigningIntent e x) = e"

fun intent_action :: "trading_intent \<Rightarrow> action" where
  "intent_action (CexOrderIntent e x) = PlaceOrder"
| "intent_action (CexCancelIntent e x) = CancelOrder"
| "intent_action (CexOrderStatusIntent e x) = GetOrderStatus"
| "intent_action (OnchainSimulationIntent e x) = SimulateTransaction"
| "intent_action (OnchainSigningIntent e x) = RequestSignature"

abbreviation in_intentId :: "trading_intent \<Rightarrow> string" where
  "in_intentId i \<equiv> env_intentId (intent_envelope i)"
abbreviation in_principal :: "trading_intent \<Rightarrow> string" where
  "in_principal i \<equiv> env_principal (intent_envelope i)"
abbreviation in_resource :: "trading_intent \<Rightarrow> string" where
  "in_resource i \<equiv> env_resource (intent_envelope i)"
abbreviation in_environment :: "trading_intent \<Rightarrow> environment" where
  "in_environment i \<equiv> env_environment (intent_envelope i)"
abbreviation in_idempotencyKey :: "trading_intent \<Rightarrow> string" where
  "in_idempotencyKey i \<equiv> env_idempotencyKey (intent_envelope i)"
abbreviation in_evidence :: "trading_intent \<Rightarrow> string list" where
  "in_evidence i \<equiv> env_evidence (intent_envelope i)"

text \<open>The optional properties that \<open>"account" in intent\<close> and its kin read.\<close>

fun intent_account :: "trading_intent \<Rightarrow> string option" where
  "intent_account (CexOrderIntent e x) = Some (ord_account x)"
| "intent_account (CexCancelIntent e x) = Some (ref_account x)"
| "intent_account (CexOrderStatusIntent e x) = Some (ref_account x)"
| "intent_account _ = None"

fun intent_exchange :: "trading_intent \<Rightarrow> string option" where
  "intent_exchange (CexOrderIntent e x) = Some ''binance''"
| "intent_exchange (CexCancelIntent e x) = Some ''binance''"
| "intent_exchange (CexOrderStatusIntent e x) = Some ''binance''"
| "intent_exchange _ = None"

fun intent_symbol :: "trading_intent \<Rightarrow> string option" where
  "intent_symbol (CexOrderIntent e x) = Some (ord_symbol x)"
| "intent_symbol (CexCancelIntent e x) = Some (ref_symbol x)"
| "intent_symbol (CexOrderStatusIntent e x) = Some (ref_symbol x)"
| "intent_symbol _ = None"

fun intent_chain :: "trading_intent \<Rightarrow> chain option" where
  "intent_chain (OnchainSimulationIntent e x) = Some (oc_chain x)"
| "intent_chain (OnchainSigningIntent e x) = Some (oc_chain x)"
| "intent_chain _ = None"

subsection \<open>Field validators\<close>

fun z_string :: "(string \<Rightarrow> bool) \<Rightarrow> jsval \<Rightarrow> string option" where
  "z_string P (JStr s) = (if P s then Some s else None)"
| "z_string P _ = None"

abbreviation nonempty :: "string \<Rightarrow> bool" where
  "nonempty s \<equiv> s \<noteq> []"

abbreviation any_string :: "string \<Rightarrow> bool" where
  "any_string \<equiv> \<lambda>_. True"

text \<open>\<open>z.number()\<close> refuses NaN and the infinities; \<open>.int()\<close> takes safe integers only.\<close>

fun z_number :: "(jsnum \<Rightarrow> bool) \<Rightarrow> jsval \<Rightarrow> jsnum option" where
  "z_number P (JNum x) = (if is_finite x \<and> P x then Some x else None)"
| "z_number P _ = None"

fun safe_integer :: "jsnum \<Rightarrow> bool" where
  "safe_integer (Fin r) \<longleftrightarrow> of_int \<lfloor>r\<rfloor> = r \<and> \<bar>r\<bar> \<le> 9007199254740991"
| "safe_integer _ \<longleftrightarrow> False"

definition positive :: "jsnum \<Rightarrow> bool" where
  "positive x \<longleftrightarrow> num_less (Fin 0) x"

definition nonnegative :: "jsnum \<Rightarrow> bool" where
  "nonnegative x \<longleftrightarrow> num_le (Fin 0) x"

fun z_enum :: "(string \<times> 'a) list \<Rightarrow> jsval \<Rightarrow> 'a option" where
  "z_enum t (JStr s) = map_of t s"
| "z_enum t _ = None"

definition z_literal :: "string \<Rightarrow> jsval \<Rightarrow> unit option" where
  "z_literal s v = (if v = JStr s then Some () else None)"

fun all_some :: "('a \<Rightarrow> 'b option) \<Rightarrow> 'a list \<Rightarrow> 'b list option" where
  "all_some f [] = Some []"
| "all_some f (x # xs) = do { y \<leftarrow> f x; ys \<leftarrow> all_some f xs; Some (y # ys) }"

text \<open>\<open>z.array(d).min(lo).max(hi)\<close>\<close>

fun z_array :: "nat \<Rightarrow> nat \<Rightarrow> (jsval \<Rightarrow> 'a option) \<Rightarrow> jsval \<Rightarrow> 'a list option" where
  "z_array lo hi d (JArr xs) =
     (if lo \<le> length xs \<and> length xs \<le> hi then all_some d xs else None)"
| "z_array lo hi d _ = None"

text \<open>\<open>z.record(z.string(), z.unknown())\<close>: the members as they are. The package itself is not in the
  repository; that it leaves out a member called \<open>__proto__\<close> is not modelled.\<close>

fun z_record :: "jsval \<Rightarrow> jsval option" where
  "z_record (JObj kvs) = Some (JObj kvs)"
| "z_record _ = None"

text \<open>A required member, and an optional one: missing or \<open>undefined\<close>, or valid.\<close>

definition required :: "(string \<rightharpoonup> jsval) \<Rightarrow> string \<Rightarrow> (jsval \<Rightarrow> 'a option) \<Rightarrow> 'a option" where
  "required m k d = (case m k of None \<Rightarrow> None | Some v \<Rightarrow> d v)"

definition optional ::
  "(string \<rightharpoonup> jsval) \<Rightarrow> string \<Rightarrow> (jsval \<Rightarrow> 'a option) \<Rightarrow> 'a option option" where
  "optional m k d = (case m k of None \<Rightarrow> Some None
     | Some v \<Rightarrow> if v = JUndef then Some None else map_option Some (d v))"

text \<open>\<open>.strict()\<close>: no member outside the schema.\<close>

definition strict :: "string list \<Rightarrow> (string \<times> jsval) list \<Rightarrow> bool" where
  "strict ks kvs = list_all (\<lambda>(k, v). k \<in> set ks) kvs"

lemma all_some_map [simp]: "(\<And>x. x \<in> set xs \<Longrightarrow> f (g x) = Some x) \<Longrightarrow> all_some f (map g xs) = Some xs"
  by (induction xs) auto

lemma strict_iff: "strict ks kvs \<longleftrightarrow> dom (map_of kvs) \<subseteq> set ks"
  by (auto simp: strict_def list_all_iff dom_map_of_conv_image_fst)

end
