(* ===== verification/RiskChecks.thy ===== *)
theory RiskChecks
  imports Schemas
begin

text \<open>
  The twelve risk checks of \<open>packages/risk-engine/src/checks.ts\<close>, with the limits of
  \<open>config.ts\<close> and the snapshots of \<open>providers.ts\<close>. A check looks at the intent, the limits
  and one snapshot and answers pass, fail or unavailable.
\<close>

subsection \<open>Limits, snapshots, results\<close>

record risk_limits =
  maxMarketDataAgeMs :: jsnum
  maxPortfolioAgeMs :: jsnum
  maxNotionalUsd :: jsnum
  maxDailyNotionalUsd :: jsnum
  maxDailyLossUsd :: jsnum
  maxSlippageBps :: jsnum
  maxPriceBandBps :: jsnum
  maxPositionDeltaPct :: jsnum
  minOrderIntervalMs :: jsnum
  maxOrdersPerDay :: jsnum

definition default_canary_live_limits :: risk_limits where
  "default_canary_live_limits =
     \<lparr>maxMarketDataAgeMs = Fin 10000, maxPortfolioAgeMs = Fin 30000, maxNotionalUsd = Fin 10,
      maxDailyNotionalUsd = Fin 50, maxDailyLossUsd = Fin 25, maxSlippageBps = Fin 50,
      maxPriceBandBps = Fin 100, maxPositionDeltaPct = Fin 10, minOrderIntervalMs = Fin 5000,
      maxOrdersPerDay = Fin 25\<rparr>"

record market_data =
  md_symbol :: string
  md_price :: jsnum
  md_timestampMs :: jsnum

record position =
  po_symbol :: string
  po_quantity :: jsnum
  po_notionalUsd :: jsnum

record portfolio =
  pf_account :: string
  pf_timestampMs :: jsnum
  pf_positions :: "position list"

record daily_stats =
  ds_account :: string
  ds_date :: string
  ds_totalNotionalUsd :: jsnum
  ds_realizedLossUsd :: jsnum
  ds_orderCount :: jsnum

datatype check_status = Pass | Fail | Unavailable

text \<open>Template strings keep their numbers: \<open>Num x\<close> is \<open>${x}\<close>, \<open>Fixed1 x\<close> is \<open>x.toFixed(1)\<close>.\<close>

datatype message_part = Txt string | Num jsnum | Fixed1 jsnum

record risk_check =
  rk_check :: string
  rk_status :: check_status
  rk_value :: "jsnum option"
  rk_threshold :: "jsnum option"
  rk_message :: "message_part list option"

definition passing :: "string \<Rightarrow> risk_check" where
  "passing c = \<lparr>rk_check = c, rk_status = Pass, rk_value = None, rk_threshold = None,
     rk_message = None\<rparr>"

definition unavailable :: "string \<Rightarrow> string \<Rightarrow> risk_check" where
  "unavailable c m = \<lparr>rk_check = c, rk_status = Unavailable, rk_value = None, rk_threshold = None,
     rk_message = Some [Txt m]\<rparr>"

definition failing :: "string \<Rightarrow> string \<Rightarrow> risk_check" where
  "failing c m = \<lparr>rk_check = c, rk_status = Fail, rk_value = None, rk_threshold = None,
     rk_message = Some [Txt m]\<rparr>"

definition measured :: "string \<Rightarrow> check_status \<Rightarrow> jsnum \<Rightarrow> jsnum \<Rightarrow> message_part list option \<Rightarrow>
    risk_check" where
  "measured c st v t m = \<lparr>rk_check = c, rk_status = st, rk_value = Some v, rk_threshold = Some t,
     rk_message = m\<rparr>"

lemma rk_status_simps [simp]:
  "rk_status (passing c) = Pass" "rk_status (unavailable c m) = Unavailable"
  "rk_status (failing c m) = Fail" "rk_status (measured c st v t m') = st"
  by (simp_all add: passing_def unavailable_def failing_def measured_def)

text \<open>\<open>!Number.isFinite(x) || x < 0\<close>\<close>

definition invalid_limit :: "jsnum \<Rightarrow> bool" where
  "invalid_limit x \<longleftrightarrow> \<not> is_finite x \<or> num_less x (Fin 0)"

subsection \<open>The checks\<close>

fun check_market_data_freshness ::
  "trading_intent \<Rightarrow> risk_limits \<Rightarrow> jsnum \<Rightarrow> market_data option \<Rightarrow> risk_check" where
  "check_market_data_freshness (CexOrderIntent e x) l now d =
     (let c = ''market_data_freshness'' in
      if invalid_limit (maxMarketDataAgeMs l)
      then unavailable c ''Market data freshness limit unavailable or invalid.''
      else case d of
        None \<Rightarrow> unavailable c ''Market data unavailable or invalid.''
      | Some md \<Rightarrow>
          if md_symbol md \<noteq> ord_symbol x \<or> \<not> is_finite (md_timestampMs md)
          then unavailable c ''Market data unavailable or invalid.''
          else let age = num_sub now (md_timestampMs md) in
            if num_less age (Fin 0) then unavailable c ''Market data unavailable or invalid.''
            else if num_less (maxMarketDataAgeMs l) age
            then measured c Fail age (maxMarketDataAgeMs l)
              (Some [Txt ''Market data is '', Num age, Txt ''ms old, max '',
                     Num (maxMarketDataAgeMs l), Txt ''ms.''])
            else measured c Pass age (maxMarketDataAgeMs l) None)"
| "check_market_data_freshness i l now d = passing ''market_data_freshness''"

fun check_portfolio_freshness ::
  "portfolio option \<Rightarrow> trading_intent \<Rightarrow> risk_limits \<Rightarrow> jsnum \<Rightarrow> risk_check" where
  "check_portfolio_freshness p (CexOrderIntent e x) l now =
     (let c = ''portfolio_freshness'' in
      case p of
        None \<Rightarrow> unavailable c ''Portfolio data not available.''
      | Some pf \<Rightarrow>
          if pf_account pf \<noteq> ord_account x
          then unavailable c ''Portfolio account does not match intent account.''
          else let age = num_sub now (pf_timestampMs pf) in
            if \<not> is_finite age \<or> num_less age (Fin 0)
            then unavailable c ''Portfolio timestamp is invalid.''
            else if num_less (maxPortfolioAgeMs l) age
            then measured c Fail age (maxPortfolioAgeMs l)
              (Some [Txt ''Portfolio data is '', Num age, Txt ''ms old, max '',
                     Num (maxPortfolioAgeMs l), Txt ''ms.''])
            else measured c Pass age (maxPortfolioAgeMs l) None)"
| "check_portfolio_freshness p i l now = passing ''portfolio_freshness''"

fun check_per_order_notional :: "trading_intent \<Rightarrow> risk_limits \<Rightarrow> risk_check" where
  "check_per_order_notional (CexOrderIntent e x) l =
     (let c = ''per_order_notional''; v = ord_maxNotionalUsd x; t = maxNotionalUsd l in
      if num_less t v
      then measured c Fail v t
        (Some [Txt ''Notional $'', Num v, Txt '' exceeds limit $'', Num t, Txt ''.''])
      else measured c Pass v t None)"
| "check_per_order_notional i l = passing ''per_order_notional''"

fun check_daily_notional :: "trading_intent \<Rightarrow> risk_limits \<Rightarrow> daily_stats option \<Rightarrow> risk_check" where
  "check_daily_notional (CexOrderIntent e x) l s =
     (let c = ''daily_notional'' in
      case s of
        None \<Rightarrow> unavailable c ''Daily stats not available.''
      | Some st \<Rightarrow>
          if invalid_limit (ds_totalNotionalUsd st)
          then unavailable c ''Daily notional stats are invalid.''
          else let v = num_add (ds_totalNotionalUsd st) (ord_maxNotionalUsd x);
                   t = maxDailyNotionalUsd l in
            if num_less t v
            then measured c Fail v t
              (Some [Txt ''Projected daily notional $'', Num v, Txt '' exceeds limit $'', Num t,
                     Txt ''.''])
            else measured c Pass v t None)"
| "check_daily_notional i l s = passing ''daily_notional''"

fun check_daily_loss :: "trading_intent \<Rightarrow> risk_limits \<Rightarrow> daily_stats option \<Rightarrow> risk_check" where
  "check_daily_loss (CexOrderIntent e x) l s =
     (let c = ''daily_loss'' in
      case s of
        None \<Rightarrow> unavailable c ''Daily stats not available.''
      | Some st \<Rightarrow>
          if invalid_limit (ds_realizedLossUsd st)
          then unavailable c ''Daily loss stats are invalid.''
          else let v = ds_realizedLossUsd st; t = maxDailyLossUsd l in
            if num_less t v
            then measured c Fail v t
              (Some [Txt ''Daily loss $'', Num v, Txt '' exceeds limit $'', Num t, Txt ''.''])
            else measured c Pass v t None)"
| "check_daily_loss i l s = passing ''daily_loss''"

fun check_slippage :: "trading_intent \<Rightarrow> risk_limits \<Rightarrow> risk_check" where
  "check_slippage (CexOrderIntent e x) l =
     (let c = ''slippage''; v = ord_maxSlippageBps x; t = maxSlippageBps l in
      if num_less t v
      then measured c Fail v t
        (Some [Txt ''Slippage '', Num v, Txt ''bps exceeds limit '', Num t, Txt ''bps.''])
      else measured c Pass v t None)"
| "check_slippage i l = passing ''slippage''"

fun check_price_band ::
  "trading_intent \<Rightarrow> risk_limits \<Rightarrow> jsnum \<Rightarrow> market_data option \<Rightarrow> risk_check" where
  "check_price_band (CexOrderIntent e x) l now d =
     (let c = ''price_band'' in
      if \<not> is_finite (ord_price x) \<or> num_le (ord_price x) (Fin 0)
      then unavailable c ''Intent price unavailable or invalid.''
      else case d of
        None \<Rightarrow> unavailable c ''Market data unavailable or invalid.''
      | Some md \<Rightarrow>
          if md_symbol md \<noteq> ord_symbol x \<or> \<not> is_finite (md_timestampMs md) \<or>
             \<not> is_finite (md_price md) \<or> num_le (md_price md) (Fin 0)
          then unavailable c ''Market data unavailable or invalid.''
          else if invalid_limit (maxMarketDataAgeMs l)
          then unavailable c ''Market data freshness limit unavailable or invalid.''
          else let age = num_sub now (md_timestampMs md) in
            if num_less age (Fin 0) \<or> num_less (maxMarketDataAgeMs l) age
            then unavailable c ''Market data unavailable or invalid.''
            else if invalid_limit (maxPriceBandBps l)
            then unavailable c ''Price band limit unavailable or invalid.''
            else let v = num_mul (num_abs (num_div (num_sub (ord_price x) (md_price md))
                                                   (md_price md))) (Fin 10000);
                     t = maxPriceBandBps l in
              if num_less t v
              then measured c Fail v t
                (Some [Txt ''Price band '', Fixed1 v, Txt ''bps exceeds limit '', Num t, Txt ''bps.''])
              else measured c Pass v t None)"
| "check_price_band i l now d = passing ''price_band''"

fun check_position_delta :: "portfolio option \<Rightarrow> trading_intent \<Rightarrow> risk_limits \<Rightarrow> risk_check" where
  "check_position_delta p (CexOrderIntent e x) l =
     (let c = ''position_delta'' in
      case p of
        None \<Rightarrow> unavailable c ''Portfolio not available.''
      | Some pf \<Rightarrow>
          if pf_account pf \<noteq> ord_account x
          then unavailable c ''Portfolio account does not match intent account.''
          else let pos = List.find (\<lambda>q. po_symbol q = ord_symbol x) (pf_positions pf) in
            if \<not> pred_option (\<lambda>q. is_finite (po_notionalUsd q)) pos
            then unavailable c ''Position notional is invalid.''
            else let cur = num_abs (case pos of Some q \<Rightarrow> po_notionalUsd q | None \<Rightarrow> Fin 0) in
              if num_eq cur (Fin 0) then passing c
              else let v = num_mul (num_div (ord_maxNotionalUsd x) cur) (Fin 100);
                       t = maxPositionDeltaPct l in
                if num_less t v
                then measured c Fail v t
                  (Some [Txt ''Position delta '', Fixed1 v, Txt ''% exceeds limit '', Num t,
                         Txt ''%.''])
                else measured c Pass v t None)"
| "check_position_delta p i l = passing ''position_delta''"

text \<open>\<open>None\<close> is \<open>undefined\<close> and \<open>Some None\<close> is \<open>null\<close>: no order placed yet.\<close>

fun check_order_frequency ::
  "jsnum option option \<Rightarrow> trading_intent \<Rightarrow> risk_limits \<Rightarrow> jsnum \<Rightarrow> risk_check" where
  "check_order_frequency lastTs (CexOrderIntent e x) l now =
     (let c = ''order_frequency'' in
      if lastTs = Some None then passing c
      else let elapsed = (case lastTs of Some (Some ts) \<Rightarrow> num_sub now ts | _ \<Rightarrow> NaN);
               t = minOrderIntervalMs l in
        if \<not> is_finite elapsed \<or> num_less elapsed (Fin 0)
        then unavailable c ''Last order timestamp is invalid.''
        else if num_less elapsed t
        then measured c Fail elapsed t
          (Some [Txt ''Only '', Num elapsed, Txt ''ms since last order, min '', Num t, Txt ''ms.''])
        else measured c Pass elapsed t None)"
| "check_order_frequency lastTs i l now = passing ''order_frequency''"

fun check_daily_order_count :: "trading_intent \<Rightarrow> risk_limits \<Rightarrow> daily_stats option \<Rightarrow> risk_check" where
  "check_daily_order_count (CexOrderIntent e x) l s =
     (let c = ''daily_order_count'' in
      case s of
        None \<Rightarrow> unavailable c ''Daily stats not available.''
      | Some st \<Rightarrow>
          if invalid_limit (ds_orderCount st)
          then unavailable c ''Daily order count stats are invalid.''
          else let v = num_add (ds_orderCount st) (Fin 1); t = maxOrdersPerDay l in
            if num_less t v
            then measured c Fail v t
              (Some [Txt ''Projected daily order count '', Num v, Txt '' exceeds limit '', Num t,
                     Txt ''.''])
            else measured c Pass v t None)"
| "check_daily_order_count i l s = passing ''daily_order_count''"

definition check_evidence_references :: "trading_intent \<Rightarrow> risk_check" where
  "check_evidence_references i =
     (let c = ''evidence_references'' in
      if in_evidence i = [] then failing c ''No evidence references provided.''
      else if list_ex (\<lambda>r. r = [] \<or> trim r = []) (in_evidence i)
      then failing c ''Empty evidence reference found.''
      else passing c)"

subsection \<open>Reviewer verdicts\<close>

text \<open>\<open>packages/schemas/src/reviewer.ts\<close>\<close>

datatype risk_tier = LowRisk | MediumRisk | HighRisk | CriticalRisk
datatype verdict = Approve | Reject | NeedsHumanReview
datatype detected_issue =
    PromptInjection
  | UnsupportedClaim
  | EvidenceActionMismatch
  | SuspiciousToolBehavior
  | HallucinatedData
  | ExcessiveRisk

record reviewer_verdict =
  rv_intentId :: string
  rv_verdict :: verdict
  rv_riskLevel :: risk_tier
  rv_reasons :: "string list"
  rv_detectedIssues :: "detected_issue list"
  rv_requiredPolicyTags :: "string list"
  rv_reviewerModel :: string
  rv_reviewerProvider :: string
  rv_reviewedAt :: string

definition check_reviewer_consistency :: "trading_intent \<Rightarrow> reviewer_verdict \<Rightarrow> risk_check" where
  "check_reviewer_consistency i v =
     (let c = ''reviewer_consistency'' in
      if rv_intentId v \<noteq> in_intentId i
      then failing c ''Reviewer verdict intentId does not match intent.''
      else if rv_verdict v = Approve \<and> rv_detectedIssues v \<noteq> []
      then failing c ''Reviewer approved but detected issues present.''
      else passing c)"

end
