(* ===== verification/IntentSchema.thy ===== *)
theory IntentSchema
  imports Schemas
begin

text \<open>
  The validation \<open>TradingIntent.safeParse\<close> of \<open>packages/schemas/src/intent.ts\<close> and the
  object an intent is: each accepts what the other produces, and the canonical text of an
  intent determines it.
\<close>

declare map_of_append [simp del]

subsection \<open>Limits of the schema\<close>

definition max_evidence_items :: nat where "max_evidence_items = 64"
definition max_instructions :: nat where "max_instructions = 64"
definition max_expected_deltas :: nat where "max_expected_deltas = 256"

definition uint256_max_decimal :: string where
  "uint256_max_decimal =
     ''115792089237316195423570985008687907853269984665640564039457584007913129639935''"

text \<open>\<open>TokenApprovalAmount\<close>: a canonical decimal that fits in 256 bits.\<close>

definition token_approval_amount :: "string \<Rightarrow> bool" where
  "token_approval_amount s \<longleftrightarrow> natural_string s \<and>
     (length s < length uint256_max_decimal \<or>
      length s = length uint256_max_decimal \<and> s \<le> uint256_max_decimal)"

subsection \<open>Validation\<close>

definition envelope_keys :: "string list" where
  "envelope_keys = [''intentId'', ''principal'', ''action'', ''resource'', ''environment'',
     ''requestedAt'', ''idempotencyKey'', ''rationale'', ''evidence'']"

definition parse_envelope :: "host \<Rightarrow> (string \<rightharpoonup> jsval) \<Rightarrow> envelope option" where
  "parse_envelope h m = do {
     iid \<leftarrow> required m ''intentId'' (z_string (is_uuid h));
     pr \<leftarrow> required m ''principal'' (z_string nonempty);
     res \<leftarrow> required m ''resource'' (z_string nonempty);
     envr \<leftarrow> required m ''environment'' (z_enum environment_table);
     rqa \<leftarrow> required m ''requestedAt'' (z_string (is_datetime h));
     ik \<leftarrow> required m ''idempotencyKey'' (z_string nonempty);
     ra \<leftarrow> required m ''rationale'' (z_string nonempty);
     ev \<leftarrow> required m ''evidence'' (z_array 1 max_evidence_items (z_string nonempty));
     Some \<lparr>env_intentId = iid, env_principal = pr, env_resource = res, env_environment = envr,
       env_requestedAt = rqa, env_idempotencyKey = ik, env_rationale = ra, env_evidence = ev\<rparr>
   }"

definition cex_order_keys :: "string list" where
  "cex_order_keys = [''exchange'', ''account'', ''accountMode'', ''symbol'', ''side'',
     ''orderType'', ''quantity'', ''price'', ''maxNotionalUsd'', ''maxSlippageBps'', ''leverage'',
     ''marginType'']"

definition parse_cex_order :: "(string \<rightharpoonup> jsval) \<Rightarrow> cex_order option" where
  "parse_cex_order m = do {
     required m ''exchange'' (z_literal ''binance'');
     acc \<leftarrow> required m ''account'' (z_string nonempty);
     mode \<leftarrow> required m ''accountMode'' (z_enum account_mode_table);
     sym \<leftarrow> required m ''symbol'' (z_string nonempty);
     sd \<leftarrow> required m ''side'' (z_enum side_table);
     required m ''orderType'' (z_literal ''limit'');
     q \<leftarrow> required m ''quantity'' (z_number positive);
     p \<leftarrow> required m ''price'' (z_number positive);
     mn \<leftarrow> required m ''maxNotionalUsd'' (z_number positive);
     ms \<leftarrow> required m ''maxSlippageBps'' (z_number (\<lambda>x. nonnegative x \<and> safe_integer x));
     lev \<leftarrow> optional m ''leverage'' (z_number (\<lambda>x. safe_integer x \<and> num_le (Fin 1) x));
     mt \<leftarrow> optional m ''marginType'' (z_enum margin_type_table);
     Some \<lparr>ord_account = acc, ord_accountMode = mode, ord_symbol = sym, ord_side = sd,
       ord_quantity = q, ord_price = p, ord_maxNotionalUsd = mn, ord_maxSlippageBps = ms,
       ord_leverage = lev, ord_marginType = mt\<rparr>
   }"

text \<open>Cancellations and status requests have the same members.\<close>

definition cex_ref_keys :: "string list" where
  "cex_ref_keys = [''exchange'', ''account'', ''orderId'', ''symbol'']"

definition parse_cex_ref :: "(string \<rightharpoonup> jsval) \<Rightarrow> cex_ref option" where
  "parse_cex_ref m = do {
     required m ''exchange'' (z_literal ''binance'');
     acc \<leftarrow> required m ''account'' (z_string nonempty);
     oid \<leftarrow> required m ''orderId'' (z_string nonempty);
     sym \<leftarrow> required m ''symbol'' (z_string nonempty);
     Some \<lparr>ref_account = acc, ref_orderId = oid, ref_symbol = sym\<rparr>
   }"

fun owner_key :: "chain \<Rightarrow> string" where
  "owner_key Ethereum = ''address''"
| "owner_key Solana = ''account''"

definition delta_keys :: "chain \<Rightarrow> string list" where
  "delta_keys c = [owner_key c, ''asset'', ''minDelta'', ''maxDelta'']"

definition parse_delta :: "chain \<Rightarrow> jsval \<Rightarrow> expected_delta option" where
  "parse_delta c v = (let m = map_of (members v) in
     if \<not> is_object v \<or> \<not> strict (delta_keys c) (members v) then None
     else do {
       ow \<leftarrow> required m (owner_key c) (z_string nonempty);
       ast \<leftarrow> required m ''asset'' (z_string nonempty);
       lo \<leftarrow> required m ''minDelta'' (z_string integer_string);
       hi \<leftarrow> required m ''maxDelta'' (z_string integer_string);
       Some \<lparr>ed_owner = ow, ed_asset = ast, ed_minDelta = lo, ed_maxDelta = hi\<rparr>
     })"

definition onchain_keys :: "string list" where
  "onchain_keys = [''to'', ''data'', ''value'', ''programId'', ''instructions'', ''chain'',
     ''chainEnvironment'', ''expectedDeltas'']"

text \<open>
  The two on-chain schemas are discriminated by \<open>chain\<close>; a signing intent needs at least one
  expected delta, and on Solana a program.
\<close>

definition parse_simulation :: "(string \<rightharpoonup> jsval) \<Rightarrow> onchain_call option" where
  "parse_simulation m = do {
     c \<leftarrow> required m ''chain'' (z_enum chain_table);
     ce \<leftarrow> required m ''chainEnvironment'' (z_enum (chain_environment_table c));
     tgt \<leftarrow> required m ''to'' (z_string nonempty);
     da \<leftarrow> optional m ''data'' (z_string any_string);
     va \<leftarrow> optional m ''value'' (z_string any_string);
     pid \<leftarrow> optional m ''programId'' (z_string any_string);
     ins \<leftarrow> optional m ''instructions'' (z_array 0 max_instructions z_record);
     eds \<leftarrow> optional m ''expectedDeltas'' (z_array 0 max_expected_deltas (parse_delta c));
     Some \<lparr>oc_chain = c, oc_chainEnvironment = ce, oc_to = tgt, oc_data = da, oc_value = va,
       oc_programId = pid, oc_instructions = ins, oc_expectedDeltas = eds\<rparr>
   }"

definition signing_keys :: "string list" where
  "signing_keys = onchain_keys @ [''simulationId'', ''maxTokenApprovalAmount'']"

definition parse_signing :: "host \<Rightarrow> (string \<rightharpoonup> jsval) \<Rightarrow> signing_call option" where
  "parse_signing h m = do {
     c \<leftarrow> required m ''chain'' (z_enum chain_table);
     ce \<leftarrow> required m ''chainEnvironment'' (z_enum (chain_environment_table c));
     tgt \<leftarrow> required m ''to'' (z_string nonempty);
     da \<leftarrow> optional m ''data'' (z_string any_string);
     va \<leftarrow> optional m ''value'' (z_string any_string);
     pid \<leftarrow> (if c = Solana then map_option Some (required m ''programId'' (z_string nonempty))
             else optional m ''programId'' (z_string any_string));
     ins \<leftarrow> optional m ''instructions'' (z_array 0 max_instructions z_record);
     eds \<leftarrow> required m ''expectedDeltas'' (z_array 1 max_expected_deltas (parse_delta c));
     sid \<leftarrow> required m ''simulationId'' (z_string (is_uuid h));
     amt \<leftarrow> optional m ''maxTokenApprovalAmount'' (z_string token_approval_amount);
     Some \<lparr>oc_chain = c, oc_chainEnvironment = ce, oc_to = tgt, oc_data = da, oc_value = va,
       oc_programId = pid, oc_instructions = ins, oc_expectedDeltas = Some eds,
       sc_simulationId = sid, sc_maxTokenApprovalAmount = amt\<rparr>
   }"

fun action_keys :: "action \<Rightarrow> string list" where
  "action_keys PlaceOrder = cex_order_keys"
| "action_keys CancelOrder = cex_ref_keys"
| "action_keys GetOrderStatus = cex_ref_keys"
| "action_keys SimulateTransaction = onchain_keys"
| "action_keys RequestSignature = signing_keys"

text \<open>\<open>TradingIntent.safeParse\<close>: the parsed intent on success.\<close>

definition parse_intent :: "host \<Rightarrow> jsval \<Rightarrow> trading_intent option" where
  "parse_intent h v = (if \<not> is_object v then None else
     (let m = map_of (members v) in do {
       a \<leftarrow> required m ''action'' (z_enum action_table);
       (if strict (envelope_keys @ action_keys a) (members v) then Some () else None);
       e \<leftarrow> parse_envelope h m;
       (case a of
          PlaceOrder \<Rightarrow> map_option (CexOrderIntent e) (parse_cex_order m)
        | CancelOrder \<Rightarrow> map_option (CexCancelIntent e) (parse_cex_ref m)
        | GetOrderStatus \<Rightarrow> map_option (CexOrderStatusIntent e) (parse_cex_ref m)
        | SimulateTransaction \<Rightarrow> map_option (OnchainSimulationIntent e) (parse_simulation m)
        | RequestSignature \<Rightarrow> map_option (OnchainSigningIntent e) (parse_signing h m))
     }))"

subsection \<open>The object of an intent\<close>

definition envelope_fields :: "action \<Rightarrow> envelope \<Rightarrow> (string \<times> jsval) list" where
  "envelope_fields a e =
     [(''intentId'', JStr (env_intentId e)), (''principal'', JStr (env_principal e)),
      (''action'', JStr (action_name a)), (''resource'', JStr (env_resource e)),
      (''environment'', JStr (environment_name (env_environment e))),
      (''requestedAt'', JStr (env_requestedAt e)),
      (''idempotencyKey'', JStr (env_idempotencyKey e)), (''rationale'', JStr (env_rationale e)),
      (''evidence'', JArr (map JStr (env_evidence e)))]"

definition cex_order_fields :: "cex_order \<Rightarrow> (string \<times> jsval) list" where
  "cex_order_fields x =
     [(''exchange'', JStr ''binance''), (''account'', JStr (ord_account x)),
      (''accountMode'', JStr (account_mode_name (ord_accountMode x))),
      (''symbol'', JStr (ord_symbol x)), (''side'', JStr (side_name (ord_side x))),
      (''orderType'', JStr ''limit''), (''quantity'', JNum (ord_quantity x)),
      (''price'', JNum (ord_price x)), (''maxNotionalUsd'', JNum (ord_maxNotionalUsd x)),
      (''maxSlippageBps'', JNum (ord_maxSlippageBps x))] @
     opt_field ''leverage'' JNum (ord_leverage x) @
     opt_field ''marginType'' (\<lambda>t. JStr (margin_type_name t)) (ord_marginType x)"

definition cex_ref_fields :: "cex_ref \<Rightarrow> (string \<times> jsval) list" where
  "cex_ref_fields x =
     [(''exchange'', JStr ''binance''), (''account'', JStr (ref_account x)),
      (''orderId'', JStr (ref_orderId x)), (''symbol'', JStr (ref_symbol x))]"

definition delta_json :: "chain \<Rightarrow> expected_delta \<Rightarrow> jsval" where
  "delta_json c d = JObj
     [(owner_key c, JStr (ed_owner d)), (''asset'', JStr (ed_asset d)),
      (''minDelta'', JStr (ed_minDelta d)), (''maxDelta'', JStr (ed_maxDelta d))]"

definition onchain_fields :: "'a onchain_call_scheme \<Rightarrow> (string \<times> jsval) list" where
  "onchain_fields x =
     [(''to'', JStr (oc_to x)), (''chain'', JStr (chain_name (oc_chain x))),
      (''chainEnvironment'', JStr (chain_environment_name (oc_chainEnvironment x)))] @
     opt_field ''data'' JStr (oc_data x) @ opt_field ''value'' JStr (oc_value x) @
     opt_field ''programId'' JStr (oc_programId x) @
     opt_field ''instructions'' JArr (oc_instructions x) @
     opt_field ''expectedDeltas'' (\<lambda>ds. JArr (map (delta_json (oc_chain x)) ds)) (oc_expectedDeltas x)"

definition signing_fields :: "signing_call \<Rightarrow> (string \<times> jsval) list" where
  "signing_fields x = onchain_fields x @
     (''simulationId'', JStr (sc_simulationId x)) #
     opt_field ''maxTokenApprovalAmount'' JStr (sc_maxTokenApprovalAmount x)"

fun intent_json :: "trading_intent \<Rightarrow> jsval" where
  "intent_json (CexOrderIntent e x) = JObj (envelope_fields PlaceOrder e @ cex_order_fields x)"
| "intent_json (CexCancelIntent e x) = JObj (envelope_fields CancelOrder e @ cex_ref_fields x)"
| "intent_json (CexOrderStatusIntent e x) = JObj (envelope_fields GetOrderStatus e @ cex_ref_fields x)"
| "intent_json (OnchainSimulationIntent e x) =
     JObj (envelope_fields SimulateTransaction e @ onchain_fields x)"
| "intent_json (OnchainSigningIntent e x) =
     JObj (envelope_fields RequestSignature e @ signing_fields x)"

subsection \<open>Well-formed intents\<close>

text \<open>What the schema says of the fields of an intent.\<close>

definition envelope_ok :: "host \<Rightarrow> envelope \<Rightarrow> bool" where
  "envelope_ok h e \<longleftrightarrow> is_uuid h (env_intentId e) \<and> nonempty (env_principal e) \<and>
     nonempty (env_resource e) \<and> is_datetime h (env_requestedAt e) \<and>
     nonempty (env_idempotencyKey e) \<and> nonempty (env_rationale e) \<and>
     1 \<le> length (env_evidence e) \<and> length (env_evidence e) \<le> max_evidence_items \<and>
     list_all nonempty (env_evidence e)"

definition cex_order_ok :: "cex_order \<Rightarrow> bool" where
  "cex_order_ok x \<longleftrightarrow> nonempty (ord_account x) \<and> nonempty (ord_symbol x) \<and>
     list_all (\<lambda>n. is_finite n \<and> positive n)
       [ord_quantity x, ord_price x, ord_maxNotionalUsd x] \<and>
     is_finite (ord_maxSlippageBps x) \<and> nonnegative (ord_maxSlippageBps x) \<and>
     safe_integer (ord_maxSlippageBps x) \<and>
     pred_option (\<lambda>n. is_finite n \<and> safe_integer n \<and> num_le (Fin 1) n) (ord_leverage x)"

definition cex_ref_ok :: "cex_ref \<Rightarrow> bool" where
  "cex_ref_ok x \<longleftrightarrow> nonempty (ref_account x) \<and> nonempty (ref_orderId x) \<and> nonempty (ref_symbol x)"

definition delta_ok :: "expected_delta \<Rightarrow> bool" where
  "delta_ok d \<longleftrightarrow> nonempty (ed_owner d) \<and> nonempty (ed_asset d) \<and>
     integer_string (ed_minDelta d) \<and> integer_string (ed_maxDelta d)"

definition onchain_ok :: "'a onchain_call_scheme \<Rightarrow> bool" where
  "onchain_ok x \<longleftrightarrow> nonempty (oc_to x) \<and>
     oc_chainEnvironment x \<in> snd ` set (chain_environment_table (oc_chain x)) \<and>
     pred_option (\<lambda>ins. length ins \<le> max_instructions \<and> list_all is_object ins) (oc_instructions x) \<and>
     pred_option (\<lambda>ds. length ds \<le> max_expected_deltas \<and> list_all delta_ok ds) (oc_expectedDeltas x)"

definition signing_ok :: "host \<Rightarrow> signing_call \<Rightarrow> bool" where
  "signing_ok h x \<longleftrightarrow> onchain_ok x \<and> oc_expectedDeltas x \<noteq> None \<and> oc_expectedDeltas x \<noteq> Some [] \<and>
     (oc_chain x = Solana \<longrightarrow> oc_programId x \<noteq> None \<and> oc_programId x \<noteq> Some []) \<and>
     is_uuid h (sc_simulationId x) \<and>
     pred_option token_approval_amount (sc_maxTokenApprovalAmount x)"

fun intent_ok :: "host \<Rightarrow> trading_intent \<Rightarrow> bool" where
  "intent_ok h (CexOrderIntent e x) = (envelope_ok h e \<and> cex_order_ok x)"
| "intent_ok h (CexCancelIntent e x) = (envelope_ok h e \<and> cex_ref_ok x)"
| "intent_ok h (CexOrderStatusIntent e x) = (envelope_ok h e \<and> cex_ref_ok x)"
| "intent_ok h (OnchainSimulationIntent e x) = (envelope_ok h e \<and> onchain_ok x)"
| "intent_ok h (OnchainSigningIntent e x) = (envelope_ok h e \<and> signing_ok h x)"

subsection \<open>Round trip\<close>

lemma environment_table_lookup [simp]: "map_of environment_table (environment_name x) = Some x"
  by (cases x) (simp_all add: environment_table_def)

lemma action_table_lookup [simp]: "map_of action_table (action_name x) = Some x"
  by (cases x) (simp_all add: action_table_def)

lemma side_table_lookup [simp]: "map_of side_table (side_name x) = Some x"
  by (cases x) (simp_all add: side_table_def)

lemma account_mode_table_lookup [simp]: "map_of account_mode_table (account_mode_name x) = Some x"
  by (cases x) (simp_all add: account_mode_table_def)

lemma margin_type_table_lookup [simp]: "map_of margin_type_table (margin_type_name x) = Some x"
  by (cases x) (simp_all add: margin_type_table_def)

lemma chain_table_lookup [simp]: "map_of chain_table (chain_name x) = Some x"
  by (cases x) (simp_all add: chain_table_def)

lemma chain_environment_tables:
  "ce \<in> snd ` set (chain_environment_table c) \<Longrightarrow>
   map_of (chain_environment_table c) (chain_environment_name ce) = Some ce"
  by (cases c; cases ce) auto

lemma required_Some [simp]: "m k = Some v \<Longrightarrow> required m k d = d v"
  by (simp add: required_def)

lemma parse_envelope_fields:
  assumes "envelope_ok h e"
  shows "parse_envelope h (map_of (envelope_fields a e @ xs)) = Some e"
  using assms
  by (simp add: parse_envelope_def envelope_fields_def envelope_ok_def required_def
      list_all_iff)

lemma envelope_lookup_other:
  "k \<notin> set envelope_keys \<Longrightarrow> map_of (envelope_fields a e @ xs) k = map_of xs k"
  by (simp add: envelope_fields_def envelope_keys_def)

lemma envelope_action: "map_of (envelope_fields a e @ xs) ''action'' = Some (JStr (action_name a))"
  by (simp add: envelope_fields_def)

lemma optional_lookup:
  assumes "m k = map_option f x" and "\<And>y. x = Some y \<Longrightarrow> d (f y) = Some y \<and> f y \<noteq> JUndef"
  shows "optional m k d = Some x"
  using assms by (cases x) (auto simp: optional_def)

lemma parse_cex_order_fields:
  assumes "cex_order_ok x"
  shows "parse_cex_order (map_of (envelope_fields a e @ cex_order_fields x)) = Some x"
proof -
  let ?m = "map_of (envelope_fields a e @ cex_order_fields x)"
  have look: "?m k = map_of (cex_order_fields x) k" if "k \<in> set cex_order_keys" for k
    using that by (intro envelope_lookup_other) (auto simp: cex_order_keys_def envelope_keys_def)
  have m: "?m ''exchange'' = Some (JStr ''binance'')"
    "?m ''account'' = Some (JStr (ord_account x))"
    "?m ''accountMode'' = Some (JStr (account_mode_name (ord_accountMode x)))"
    "?m ''symbol'' = Some (JStr (ord_symbol x))" "?m ''side'' = Some (JStr (side_name (ord_side x)))"
    "?m ''orderType'' = Some (JStr ''limit'')" "?m ''quantity'' = Some (JNum (ord_quantity x))"
    "?m ''price'' = Some (JNum (ord_price x))"
    "?m ''maxNotionalUsd'' = Some (JNum (ord_maxNotionalUsd x))"
    "?m ''maxSlippageBps'' = Some (JNum (ord_maxSlippageBps x))"
    "?m ''leverage'' = map_option JNum (ord_leverage x)"
    "?m ''marginType'' = map_option (\<lambda>t. JStr (margin_type_name t)) (ord_marginType x)"
    by (simp_all add: look cex_order_keys_def)
      (simp_all add: cex_order_fields_def split: option.splits)
  have "optional ?m ''leverage'' (z_number (\<lambda>x. safe_integer x \<and> num_le (Fin 1) x)) =
      Some (ord_leverage x)"
    using assms by (intro optional_lookup [where f = JNum]) (auto simp: m cex_order_ok_def)
  moreover have "optional ?m ''marginType'' (z_enum margin_type_table) = Some (ord_marginType x)"
    by (intro optional_lookup [where f = "\<lambda>t. JStr (margin_type_name t)"]) (auto simp: m)
  ultimately show ?thesis
    using assms m by (simp add: parse_cex_order_def z_literal_def cex_order_ok_def)
qed

lemma parse_cex_ref_fields:
  assumes "cex_ref_ok x"
  shows "parse_cex_ref (map_of (envelope_fields a e @ cex_ref_fields x)) = Some x"
  using assms
  by (simp add: parse_cex_ref_def required_def envelope_lookup_other envelope_keys_def
      cex_ref_fields_def z_literal_def cex_ref_ok_def)

lemma parse_delta_json:
  assumes "delta_ok d" shows "parse_delta c (delta_json c d) = Some d"
  using assms
  by (cases c) (simp_all add: parse_delta_def delta_json_def required_def strict_def delta_keys_def
      delta_ok_def)

lemma parse_deltas_json:
  assumes "list_all delta_ok ds"
  shows "all_some (parse_delta c) (map (delta_json c) ds) = Some ds"
  using assms by (intro all_some_map parse_delta_json) (auto simp: list_all_iff)

lemma z_records: "list_all is_object xs \<Longrightarrow> all_some z_record xs = Some xs"
proof (induction xs)
  case (Cons v xs)
  then show ?case by (cases v) auto
qed simp

text \<open>The members an on-chain object starts with, whatever follows them.\<close>

lemma onchain_lookups:
  fixes x :: "'a onchain_call_scheme" and e :: envelope and a :: action
  assumes "set (map fst xs) \<inter> set onchain_keys = {}"
  defines "m \<equiv> map_of (envelope_fields a e @ onchain_fields x @ xs)"
  shows "m ''to'' = Some (JStr (oc_to x))" "m ''chain'' = Some (JStr (chain_name (oc_chain x)))"
    "m ''chainEnvironment'' = Some (JStr (chain_environment_name (oc_chainEnvironment x)))"
    "m ''data'' = map_option JStr (oc_data x)" "m ''value'' = map_option JStr (oc_value x)"
    "m ''programId'' = map_option JStr (oc_programId x)"
    "m ''instructions'' = map_option JArr (oc_instructions x)"
    "m ''expectedDeltas'' =
       map_option (\<lambda>ds. JArr (map (delta_json (oc_chain x)) ds)) (oc_expectedDeltas x)"
proof -
  have none: "map_of xs k = None" if "k \<in> set onchain_keys" for k
    using that assms(1) by (auto simp: map_of_eq_None_iff)
  have look: "m k = map_of (onchain_fields x @ xs) k" if "k \<in> set onchain_keys" for k
    unfolding m_def using that
    by (intro envelope_lookup_other) (auto simp: onchain_keys_def envelope_keys_def)
  show "m ''to'' = Some (JStr (oc_to x))" "m ''chain'' = Some (JStr (chain_name (oc_chain x)))"
    "m ''chainEnvironment'' = Some (JStr (chain_environment_name (oc_chainEnvironment x)))"
    "m ''data'' = map_option JStr (oc_data x)" "m ''value'' = map_option JStr (oc_value x)"
    "m ''programId'' = map_option JStr (oc_programId x)"
    "m ''instructions'' = map_option JArr (oc_instructions x)"
    "m ''expectedDeltas'' =
       map_option (\<lambda>ds. JArr (map (delta_json (oc_chain x)) ds)) (oc_expectedDeltas x)"
    by (simp_all add: look onchain_keys_def) (simp_all add: onchain_fields_def none onchain_keys_def
        split: option.splits)
qed

lemma parse_simulation_fields:
  assumes "onchain_ok x"
  shows "parse_simulation (map_of (envelope_fields a e @ onchain_fields x)) = Some x"
proof -
  note m = onchain_lookups [of "[]" a e x, simplified]
  let ?m = "map_of (envelope_fields a e @ onchain_fields x)"
  have "optional ?m ''data'' (z_string any_string) = Some (oc_data x)"
    "optional ?m ''value'' (z_string any_string) = Some (oc_value x)"
    "optional ?m ''programId'' (z_string any_string) = Some (oc_programId x)"
    by (auto simp: m intro!: optional_lookup [where f = JStr])
  moreover have "optional ?m ''instructions'' (z_array 0 max_instructions z_record) =
      Some (oc_instructions x)"
    using assms by (intro optional_lookup [where f = JArr]) (auto simp: m onchain_ok_def z_records)
  moreover have "optional ?m ''expectedDeltas'' (z_array 0 max_expected_deltas
        (parse_delta (oc_chain x))) = Some (oc_expectedDeltas x)"
    using assms by (intro optional_lookup [where f = "\<lambda>ds. JArr (map (delta_json (oc_chain x)) ds)"])
      (auto simp: m onchain_ok_def parse_deltas_json)
  ultimately show ?thesis
    using assms by (simp add: m parse_simulation_def onchain_ok_def chain_environment_tables)
qed

lemma onchain_lookup_other:
  "k \<notin> set onchain_keys \<Longrightarrow> map_of (onchain_fields x @ xs) k = map_of xs k"
  by (rule map_of_append_skip) (auto simp: onchain_keys_def onchain_fields_def opt_field_def
      split: option.splits)

lemma simulation_id_keys:
  "''simulationId'' \<notin> set envelope_keys" "''simulationId'' \<notin> set onchain_keys"
  "''maxTokenApprovalAmount'' \<notin> set envelope_keys" "''maxTokenApprovalAmount'' \<notin> set onchain_keys"
  by (simp_all add: envelope_keys_def onchain_keys_def)

lemma parse_signing_fields:
  assumes "signing_ok h x"
  shows "parse_signing h (map_of (envelope_fields a e @ signing_fields x)) = Some x"
proof -
  let ?tl = "(''simulationId'', JStr (sc_simulationId x)) #
     opt_field ''maxTokenApprovalAmount'' JStr (sc_maxTokenApprovalAmount x)"
  let ?m = "map_of (envelope_fields a e @ onchain_fields x @ ?tl)"
  have "set (map fst ?tl) \<inter> set onchain_keys = {}"
    by (simp add: onchain_keys_def)
  note m = onchain_lookups [OF this, of a e x]
  have tl: "?m ''simulationId'' = Some (JStr (sc_simulationId x))"
    "?m ''maxTokenApprovalAmount'' = map_option JStr (sc_maxTokenApprovalAmount x)"
    by (simp_all add: envelope_lookup_other onchain_lookup_other simulation_id_keys)
  have oc: "onchain_ok x" using assms by (simp add: signing_ok_def)
  obtain ds where ds: "oc_expectedDeltas x = Some ds" "ds \<noteq> []"
    using assms by (auto simp: signing_ok_def)
  have strs: "optional ?m ''data'' (z_string any_string) = Some (oc_data x)"
    "optional ?m ''value'' (z_string any_string) = Some (oc_value x)"
    "optional ?m ''programId'' (z_string any_string) = Some (oc_programId x)"
    by (auto simp: m intro!: optional_lookup [where f = JStr])
  have ins: "optional ?m ''instructions'' (z_array 0 max_instructions z_record) =
      Some (oc_instructions x)"
    using oc by (intro optional_lookup [where f = JArr]) (auto simp: m onchain_ok_def z_records)
  have amt: "optional ?m ''maxTokenApprovalAmount'' (z_string token_approval_amount) =
      Some (sc_maxTokenApprovalAmount x)"
    using assms by (intro optional_lookup [where f = JStr])
      (auto simp: tl signing_ok_def)
  have pid: "(if oc_chain x = Solana
      then map_option Some (required ?m ''programId'' (z_string nonempty))
      else optional ?m ''programId'' (z_string any_string)) = Some (oc_programId x)"
    using assms strs(3) by (auto simp: m signing_ok_def required_def)
  have eds: "required ?m ''expectedDeltas'' (z_array 1 max_expected_deltas
        (parse_delta (oc_chain x))) = Some ds"
    using oc ds by (simp add: m required_def onchain_ok_def parse_deltas_json Suc_le_eq)
  have req: "required ?m ''chain'' (z_enum chain_table) = Some (oc_chain x)"
    "required ?m ''chainEnvironment'' (z_enum (chain_environment_table (oc_chain x))) =
       Some (oc_chainEnvironment x)"
    "required ?m ''to'' (z_string nonempty) = Some (oc_to x)"
    "required ?m ''simulationId'' (z_string (is_uuid h)) = Some (sc_simulationId x)"
    using assms oc by (simp_all add: m tl onchain_ok_def signing_ok_def chain_environment_tables)
  have "parse_signing h ?m = Some \<lparr>oc_chain = oc_chain x,
      oc_chainEnvironment = oc_chainEnvironment x, oc_to = oc_to x, oc_data = oc_data x,
      oc_value = oc_value x, oc_programId = oc_programId x, oc_instructions = oc_instructions x,
      oc_expectedDeltas = Some ds, sc_simulationId = sc_simulationId x,
      sc_maxTokenApprovalAmount = sc_maxTokenApprovalAmount x\<rparr>"
    unfolding parse_signing_def by (simp only: req strs(1,2) ins amt eds pid Option.bind.bind_lunit)
  then show ?thesis using ds(1) by (simp add: signing_fields_def)
qed

lemma strict_members:
  "strict (envelope_keys @ action_keys (intent_action i)) (members (intent_json i))"
proof -
  have "fst ` set (members (intent_json i)) \<subseteq> set envelope_keys \<union> set (action_keys (intent_action i))"
    by (cases i) (auto simp: envelope_fields_def envelope_keys_def cex_order_fields_def
        cex_order_keys_def cex_ref_fields_def cex_ref_keys_def onchain_fields_def onchain_keys_def
        signing_fields_def signing_keys_def opt_field_def split: option.splits)
  then show ?thesis by (auto simp: strict_def list_all_iff)
qed

text \<open>Validating the object of a well-formed intent returns that intent.\<close>

lemma parse_intent_json:
  assumes "intent_ok h i" shows "parse_intent h (intent_json i) = Some i"
proof -
  have "strict (envelope_keys @ action_keys (intent_action i)) (members (intent_json i))"
    by (rule strict_members)
  moreover have "required (map_of (members (intent_json i))) ''action'' (z_enum action_table) =
      Some (intent_action i)"
    by (cases i) (simp_all add: envelope_action del: action_name.simps)
  moreover have "parse_envelope h (map_of (members (intent_json i))) = Some (intent_envelope i)"
    using assms by (cases i) (simp_all add: parse_envelope_fields)
  ultimately show ?thesis
    using assms by (cases i) (simp_all add: parse_intent_def parse_cex_order_fields
        parse_cex_ref_fields parse_simulation_fields parse_signing_fields)
qed

subsection \<open>Validation establishes well-formedness\<close>

lemma z_string_Some: "z_string P v = Some s \<longleftrightarrow> v = JStr s \<and> P s"
  by (cases v) auto

lemma z_number_Some: "z_number P v = Some x \<longleftrightarrow> v = JNum x \<and> is_finite x \<and> P x"
  by (cases v) auto

lemma z_enum_Some: "z_enum t v = Some x \<longleftrightarrow> (\<exists>s. v = JStr s \<and> map_of t s = Some x)"
  by (cases v) auto

lemma z_record_Some: "z_record v = Some w \<longleftrightarrow> v = w \<and> is_object w"
  by (cases v) auto

lemma required_Some_iff: "required m k d = Some x \<longleftrightarrow> (\<exists>v. m k = Some v \<and> d v = Some x)"
  by (auto simp: required_def split: option.splits)

lemma optional_Some_Some: "optional m k d = Some (Some x) \<Longrightarrow> \<exists>v. m k = Some v \<and> d v = Some x"
  by (auto simp: optional_def split: option.splits if_splits)

lemma all_some_elems:
  "all_some f xs = Some ys \<Longrightarrow> length ys = length xs \<and> (\<forall>y \<in> set ys. \<exists>x \<in> set xs. f x = Some y)"
  by (induction xs arbitrary: ys) (fastforce simp: bind_eq_Some_conv)+

lemma z_array_Some:
  assumes "z_array lo hi d v = Some ys"
  shows "lo \<le> length ys \<and> length ys \<le> hi \<and> (\<forall>y \<in> set ys. \<exists>x. d x = Some y)"
  using assms all_some_elems by (cases v) (fastforce split: if_splits)+

lemma parse_envelope_ok: "parse_envelope h m = Some e \<Longrightarrow> envelope_ok h e"
  by (auto simp: parse_envelope_def envelope_ok_def bind_eq_Some_conv required_Some_iff
      z_string_Some list_all_iff dest!: z_array_Some)

lemma parse_cex_order_ok: "parse_cex_order m = Some x \<Longrightarrow> cex_order_ok x"
  by (auto simp: parse_cex_order_def cex_order_ok_def bind_eq_Some_conv required_Some_iff
      z_string_Some z_number_Some pred_option_iff
      dest!: optional_Some_Some)

lemma parse_cex_ref_ok: "parse_cex_ref m = Some x \<Longrightarrow> cex_ref_ok x"
  by (auto simp: parse_cex_ref_def cex_ref_ok_def bind_eq_Some_conv required_Some_iff z_string_Some)

lemma parse_delta_ok: "parse_delta c v = Some d \<Longrightarrow> delta_ok d"
  by (auto simp: parse_delta_def delta_ok_def bind_eq_Some_conv required_Some_iff z_string_Some
      Let_def split: if_splits)

lemma chain_environment_table_range:
  "map_of (chain_environment_table c) s = Some ce \<Longrightarrow> ce \<in> snd ` set (chain_environment_table c)"
  by (force dest: map_of_SomeD)

lemma z_deltas_ok: "z_array lo hi (parse_delta c) v = Some ds \<Longrightarrow>
    length ds \<le> hi \<and> list_all delta_ok ds \<and> lo \<le> length ds"
  by (auto simp: list_all_iff dest!: z_array_Some dest: parse_delta_ok)

lemma z_records_ok: "z_array lo hi z_record v = Some is \<Longrightarrow> length is \<le> hi \<and> list_all is_object is"
  by (auto simp: list_all_iff z_record_Some dest!: z_array_Some)

lemma parse_simulation_ok: "parse_simulation m = Some x \<Longrightarrow> onchain_ok x"
  by (auto simp: parse_simulation_def onchain_ok_def bind_eq_Some_conv required_Some_iff
      z_string_Some z_enum_Some pred_option_iff intro: chain_environment_table_range
      dest!: optional_Some_Some dest: z_deltas_ok z_records_ok)

lemma parse_signing_ok: "parse_signing h m = Some x \<Longrightarrow> signing_ok h x"
proof -
  assume a: "parse_signing h m = Some x"
  then have "onchain_ok x"
    by (auto simp: parse_signing_def onchain_ok_def bind_eq_Some_conv required_Some_iff
        z_string_Some z_enum_Some pred_option_iff intro: chain_environment_table_range
        dest!: optional_Some_Some dest: z_deltas_ok z_records_ok)
  moreover from a obtain v ds where "z_array 1 max_expected_deltas (parse_delta (oc_chain x)) v = Some ds"
    "oc_expectedDeltas x = Some ds"
    by (auto simp: parse_signing_def bind_eq_Some_conv required_Some_iff)
  then have "oc_expectedDeltas x \<noteq> None" "oc_expectedDeltas x \<noteq> Some []"
    by (auto dest: z_deltas_ok)
  moreover from a have "oc_chain x = Solana \<Longrightarrow> oc_programId x \<noteq> None \<and> oc_programId x \<noteq> Some []"
    by (auto simp: parse_signing_def bind_eq_Some_conv required_Some_iff z_string_Some)
  moreover from a have "is_uuid h (sc_simulationId x)"
    "pred_option token_approval_amount (sc_maxTokenApprovalAmount x)"
    by (auto simp: parse_signing_def bind_eq_Some_conv required_Some_iff z_string_Some
        pred_option_iff dest!: optional_Some_Some)
  ultimately show ?thesis by (simp add: signing_ok_def)
qed

lemma parse_intent_ok:
  assumes "parse_intent h v = Some i" shows "intent_ok h i"
proof -
  obtain a where "required (map_of (members v)) ''action'' (z_enum action_table) = Some a"
    using assms by (auto simp: parse_intent_def bind_eq_Some_conv Let_def split: if_splits)
  with assms show ?thesis
    by (cases a) (auto simp: parse_intent_def bind_eq_Some_conv Let_def split: if_splits
        dest: parse_envelope_ok parse_cex_order_ok parse_cex_ref_ok parse_simulation_ok
          parse_signing_ok)
qed

subsection \<open>The canonical text determines the intent\<close>

text \<open>
  Validation does not see the order of members: on values that JSON can carry, validating the
  canonical form gives the same intent, up to the canonical form of its raw instructions.
\<close>

definition canon_call :: "(string \<Rightarrow> string \<Rightarrow> bool) \<Rightarrow> 'a onchain_call_scheme \<Rightarrow> 'a onchain_call_scheme" where
  "canon_call le x = x\<lparr>oc_instructions := map_option (map (canon_by le)) (oc_instructions x)\<rparr>"

fun canon_intent :: "(string \<Rightarrow> string \<Rightarrow> bool) \<Rightarrow> trading_intent \<Rightarrow> trading_intent" where
  "canon_intent le (OnchainSimulationIntent e x) = OnchainSimulationIntent e (canon_call le x)"
| "canon_intent le (OnchainSigningIntent e x) = OnchainSigningIntent e (canon_call le x)"
| "canon_intent le i = i"

lemma json_members_defined: "json_value (JObj kvs) \<Longrightarrow> filter (\<lambda>(k, v). v \<noteq> JUndef) kvs = kvs"
  by (auto simp: filter_id_conv list_all_iff)

lemma map_of_canon_members:
  assumes "json_value (JObj kvs)"
  shows "map_of (members (canon_by le (JObj kvs))) k = map_option (canon_by le) (map_of kvs k)"
proof -
  have "map_of (members (canon_by le (JObj kvs))) =
      map_of (sort_entries le (map (apsnd (canon_by le)) kvs))"
    using json_members_defined [OF assms] by (simp add: map_pair_apsnd)
  also have "\<dots> = map_of (map (apsnd (canon_by le)) kvs)"
    using assms by (intro map_of_sort_entries) (simp add: o_def)
  finally show ?thesis by (simp add: apsnd_def map_of_map map_prod_def flip: id_def)
qed

definition order_blind :: "(jsval \<Rightarrow> 'a option) \<Rightarrow> bool" where
  "order_blind d \<longleftrightarrow> (\<forall>le v. json_value v \<longrightarrow> d (canon_by le v) = d v)"

named_theorems order_blinds \<open>decoders that do not see the order of members\<close>

lemma order_blind_string [order_blinds]: "order_blind (z_string P)"
  unfolding order_blind_def by (intro allI, case_tac v) auto

lemma order_blind_number [order_blinds]: "order_blind (z_number P)"
  unfolding order_blind_def by (intro allI, case_tac v) auto

lemma order_blind_enum [order_blinds]: "order_blind (z_enum t)"
  unfolding order_blind_def by (intro allI, case_tac v) auto

lemma order_blind_literal [order_blinds]: "order_blind (z_literal s)"
  unfolding order_blind_def z_literal_def by (intro allI, case_tac v) auto

lemma order_blind_array [order_blinds]:
  assumes "order_blind d" shows "order_blind (z_array lo hi d)"
proof -
  have "all_some d (map (canon_by le) xs) = all_some d xs" if "list_all json_value xs" for le xs
    using that assms by (induction xs) (auto simp: order_blind_def)
  then show ?thesis unfolding order_blind_def by (intro allI, case_tac v) auto
qed

lemma json_member: "json_value (JObj kvs) \<Longrightarrow> map_of kvs k = Some v \<Longrightarrow> json_value v"
  by (auto dest!: map_of_SomeD simp: list_all_iff)

lemma required_canon:
  assumes "order_blind d" "json_value (JObj kvs)"
  shows "required (map_of (members (canon_by le (JObj kvs)))) k d = required (map_of kvs) k d"
  unfolding required_def map_of_canon_members [OF assms(2)]
  using assms(1) json_member [OF assms(2), of k]
  by (cases "map_of kvs k") (simp_all add: order_blind_def)

lemma optional_canon:
  assumes "order_blind d" "json_value (JObj kvs)"
  shows "optional (map_of (members (canon_by le (JObj kvs)))) k d = optional (map_of kvs) k d"
proof (cases "map_of kvs k")
  case None
  then show ?thesis unfolding optional_def map_of_canon_members [OF assms(2)] by simp
next
  case (Some v)
  then have "json_value v" by (rule json_member [OF assms(2)])
  then have "v \<noteq> JUndef" "canon_by le v \<noteq> JUndef" by (cases v; simp)+
  with Some \<open>json_value v\<close> assms(1) show ?thesis
    unfolding optional_def map_of_canon_members [OF assms(2)] by (simp add: order_blind_def)
qed

lemma strict_canon:
  assumes "json_value (JObj kvs)"
  shows "strict ks (members (canon_by le (JObj kvs))) = strict ks kvs"
  unfolding strict_iff dom_def map_of_canon_members [OF assms] by simp

lemma order_blind_delta [order_blinds]: "order_blind (parse_delta c)"
  unfolding order_blind_def
proof (intro allI impI)
  fix le v assume v: "json_value v"
  show "parse_delta c (canon_by le v) = parse_delta c v"
  proof (cases v)
    case (JObj kvs)
    note eqs = required_canon [OF _ v [unfolded JObj]] strict_canon [OF v [unfolded JObj]]
    show ?thesis
      unfolding JObj parse_delta_def Let_def
      by (simp only: eqs order_blinds members.simps is_object.simps) simp
  qed (use v in \<open>auto simp: parse_delta_def\<close>)
qed

lemma records_canon:
  "all_some z_record (map (canon_by le) xs) = map_option (map (canon_by le)) (all_some z_record xs)"
proof (induction xs)
  case (Cons v xs)
  then show ?case
    by (cases v; cases "all_some z_record xs") auto
qed simp

lemma instructions_canon:
  assumes "json_value (JObj kvs)"
  shows "optional (map_of (members (canon_by le (JObj kvs)))) k (z_array lo hi z_record) =
     map_option (map_option (map (canon_by le))) (optional (map_of kvs) k (z_array lo hi z_record))"
proof (cases "map_of kvs k")
  case (Some v)
  then have "json_value v" by (rule json_member [OF assms])
  with Some show ?thesis
    unfolding optional_def map_of_canon_members [OF assms]
    by (cases v) (auto simp: records_canon option.map_comp o_def)
qed (simp add: optional_def map_of_canon_members [OF assms] del: canon_by.simps)

lemma parse_simulation_canon:
  assumes "json_value (JObj kvs)"
  shows "parse_simulation (map_of (members (canon_by le (JObj kvs)))) =
    map_option (canon_call le) (parse_simulation (map_of kvs))"
proof -
  note eqs = required_canon [OF _ assms] optional_canon [OF _ assms] instructions_canon [OF assms]
  show ?thesis
    unfolding parse_simulation_def
    by (simp only: eqs order_blinds)
      (auto simp: map_option_bind canon_call_def bind_map_option o_def intro!: Option.bind_cong)
qed

lemma parse_signing_canon:
  assumes "json_value (JObj kvs)"
  shows "parse_signing h (map_of (members (canon_by le (JObj kvs)))) =
    map_option (canon_call le) (parse_signing h (map_of kvs))"
proof -
  note eqs = required_canon [OF _ assms] optional_canon [OF _ assms] instructions_canon [OF assms]
  show ?thesis
    unfolding parse_signing_def
    by (simp only: eqs order_blinds)
      (auto simp: map_option_bind canon_call_def bind_map_option o_def intro!: Option.bind_cong)
qed

lemma parse_intent_canon:
  assumes "json_value v"
  shows "parse_intent h (canon_by le v) = map_option (canon_intent le) (parse_intent h v)"
proof (cases v)
  case (JObj kvs)
  have j: "json_value (JObj kvs)" using assms JObj by simp
  note eqs = required_canon [OF _ j] optional_canon [OF _ j] strict_canon [OF j]
  have env: "parse_envelope h (map_of (members (canon_by le (JObj kvs)))) =
      parse_envelope h (map_of kvs)"
    unfolding parse_envelope_def by (simp only: eqs order_blinds)
  have ord: "parse_cex_order (map_of (members (canon_by le (JObj kvs)))) = parse_cex_order (map_of kvs)"
    unfolding parse_cex_order_def by (simp only: eqs order_blinds)
  have ref: "parse_cex_ref (map_of (members (canon_by le (JObj kvs)))) = parse_cex_ref (map_of kvs)"
    unfolding parse_cex_ref_def by (simp only: eqs order_blinds)
  note calls = parse_simulation_canon [OF j] parse_signing_canon [OF j]
  have obj: "is_object (canon_by le (JObj kvs))" by simp
  show ?thesis
    unfolding JObj parse_intent_def Let_def
    by (simp only: eqs order_blinds env ord ref calls obj)
      (auto simp: map_option_bind o_def option.map_comp intro!: Option.bind_cong
        split: action.split)
qed (use assms in \<open>auto simp: parse_intent_def\<close>)

text \<open>What the canonical text of an intent keeps: everything but the key order of its raw
  instructions.\<close>

definition same_intent :: "host \<Rightarrow> trading_intent \<Rightarrow> trading_intent \<Rightarrow> bool" where
  "same_intent h i j \<longleftrightarrow>
     canon_intent (\<lambda>a b. locale_compare h a b \<le> 0) i = canon_intent (\<lambda>a b. locale_compare h a b \<le> 0) j"

lemma canon_eq_intent:
  assumes "intent_ok h i" "intent_ok h j" "json_value (intent_json i)" "json_value (intent_json j)"
    and "canon_by le (intent_json i) = canon_by le (intent_json j)"
  shows "canon_intent le i = canon_intent le j"
proof -
  have "Some (canon_intent le i) = parse_intent h (canon_by le (intent_json i))"
    using assms(1,3) by (simp add: parse_intent_canon parse_intent_json)
  also have "\<dots> = Some (canon_intent le j)"
    using assms(2,4,5) by (simp add: parse_intent_canon parse_intent_json)
  finally show ?thesis by simp
qed

lemma canon_intent_frame [simp]:
  "intent_envelope (canon_intent le i) = intent_envelope i"
  "intent_action (canon_intent le i) = intent_action i"
  by (cases i; simp)+

lemma same_intent_frame:
  "same_intent h i j \<Longrightarrow> intent_envelope i = intent_envelope j \<and> intent_action i = intent_action j"
  unfolding same_intent_def by (metis canon_intent_frame)

lemma same_intent_cex:
  "same_intent h i j \<Longrightarrow> intent_action i \<in> {PlaceOrder, CancelOrder, GetOrderStatus} \<Longrightarrow> i = j"
  by (cases i; cases j) (auto simp: same_intent_def)

end
