(* ===== verification/Samples.thy ===== *)
theory Samples
  imports IntentSchema
begin

text \<open>
  Concrete values at which the theorems are applied: a host whose external functions are simple
  computable ones, and intents that the schema accepts. Nothing here models code.
\<close>

text \<open>All instants of the sample host fall on one day; a date is as long as its time is late.\<close>

definition sample_date :: "int \<Rightarrow> string" where
  "sample_date t = ''2026-01-01T'' @ replicate (nat t) CHR ''x''"

definition sample_host :: host where
  "sample_host =
     \<lparr>sha256_hex = (\<lambda>s. replicate 64 CHR ''a''), hmac_sha256_hex = (\<lambda>k m. k @ ''.'' @ m),
      iso_string = sample_date, date_parse = (\<lambda>s. num_of_int (int (length s) - 11)),
      number_to_string = (\<lambda>x. ''1''), locale_compare = (\<lambda>a b. if a = b then 0 else if a < b then -1 else 1),
      is_uuid = (\<lambda>s. True), is_datetime = (\<lambda>s. True), redact_secrets = (\<lambda>s. s)\<rparr>"

lemma sample_host_simps [simp]:
  "sha256_hex sample_host s = replicate 64 CHR ''a''"
  "hmac_sha256_hex sample_host k m = k @ ''.'' @ m"
  "iso_string sample_host = sample_date"
  "is_uuid sample_host s" "is_datetime sample_host s" "redact_secrets sample_host s = s"
  by (simp_all add: sample_host_def)

lemma sample_date_parse [simp]: "0 \<le> t \<Longrightarrow> date_parse sample_host (sample_date t) = num_of_int t"
  by (simp add: sample_host_def sample_date_def)

lemma sample_day [simp]: "take 10 (sample_date t) = ''2026-01-01''"
  by (simp add: sample_date_def)

definition sample_envelope :: envelope where
  "sample_envelope =
     \<lparr>env_intentId = ''i1'', env_principal = ''agent'', env_resource = ''acct'',
      env_environment = Testnet, env_requestedAt = sample_date 1, env_idempotencyKey = ''key1'',
      env_rationale = ''why'', env_evidence = [''e1'']\<rparr>"

definition sample_order :: cex_order where
  "sample_order =
     \<lparr>ord_account = ''acct'', ord_accountMode = Spot, ord_symbol = ''BTCUSDT'', ord_side = Buy,
      ord_quantity = Fin 2, ord_price = Fin 100, ord_maxNotionalUsd = Fin 8,
      ord_maxSlippageBps = Fin 20, ord_leverage = None, ord_marginType = None\<rparr>"

definition sample_ref :: cex_ref where
  "sample_ref = \<lparr>ref_account = ''acct'', ref_orderId = ''o1'', ref_symbol = ''BTCUSDT''\<rparr>"

abbreviation sample_intent :: trading_intent where
  "sample_intent \<equiv> CexOrderIntent sample_envelope sample_order"

abbreviation sample_cancel :: trading_intent where
  "sample_cancel \<equiv> CexCancelIntent sample_envelope sample_ref"

abbreviation sample_status :: trading_intent where
  "sample_status \<equiv> CexOrderStatusIntent sample_envelope sample_ref"

lemma sample_envelope_ok [simp]: "envelope_ok sample_host sample_envelope"
  by (simp add: envelope_ok_def sample_envelope_def max_evidence_items_def)

lemma sample_intents_ok [simp]:
  "intent_ok sample_host sample_intent" "intent_ok sample_host sample_cancel"
  "intent_ok sample_host sample_status"
  by (simp_all add: cex_order_ok_def sample_order_def positive_def nonnegative_def
      cex_ref_ok_def sample_ref_def)

end
