(* ===== verification/RiskEngine.thy ===== *)
theory RiskEngine
  imports RiskChecks Samples
begin

text \<open>
  \<open>RiskEngine\<close> of \<open>packages/risk-engine/src/engine.ts\<close>: the constructor's check of the
  limits, and \<open>evaluate\<close>, which collects the snapshots from a provider, refuses to mix two
  UTC days and runs the twelve checks. The provider's answers and the clock are effects of
  the world. The abstract specification \<open>within_limits\<close> states what passing means.
\<close>

subsection \<open>The engine\<close>

record 'w risk_provider =
  getMarketData :: "string \<Rightarrow> ('w, market_data option) eff"
  getPortfolio :: "string \<Rightarrow> ('w, portfolio option) eff"
  getDailyStats :: "string \<Rightarrow> string \<Rightarrow> ('w, daily_stats option) eff"
  getLastOrderTimestampMs :: "string \<Rightarrow> ('w, jsnum option) eff"
  clock :: "('w, int) eff"

definition limit_fields :: "risk_limits \<Rightarrow> (string \<times> jsnum) list" where
  "limit_fields l =
     [(''maxMarketDataAgeMs'', maxMarketDataAgeMs l), (''maxPortfolioAgeMs'', maxPortfolioAgeMs l),
      (''maxNotionalUsd'', maxNotionalUsd l), (''maxDailyNotionalUsd'', maxDailyNotionalUsd l),
      (''maxDailyLossUsd'', maxDailyLossUsd l), (''maxSlippageBps'', maxSlippageBps l),
      (''maxPriceBandBps'', maxPriceBandBps l), (''maxPositionDeltaPct'', maxPositionDeltaPct l),
      (''minOrderIntervalMs'', minOrderIntervalMs l), (''maxOrdersPerDay'', maxOrdersPerDay l)]"

text \<open>The constructor throws on the first limit that is not finite and nonnegative.\<close>

definition new_risk_engine :: "risk_limits \<Rightarrow> exn + risk_limits" where
  "new_risk_engine l =
     (case List.find (\<lambda>(n, v). invalid_limit v) (limit_fields l) of
        Some (n, v) \<Rightarrow> Inl (GenericError
          (''Risk limit '' @ n @ '' must be a finite nonnegative number.''))
      | None \<Rightarrow> Inr l)"

record risk_result =
  rr_intentId :: string
  rr_passed :: bool
  rr_checks :: "risk_check list"
  rr_dailyStats :: "daily_stats option"
  rr_evaluatedAt :: string

text \<open>The checks of one evaluation, in order.\<close>

definition risk_checks ::
  "trading_intent \<Rightarrow> reviewer_verdict \<Rightarrow> risk_limits \<Rightarrow> jsnum \<Rightarrow> market_data option \<Rightarrow>
   portfolio option \<Rightarrow> daily_stats option \<Rightarrow> jsnum option option \<Rightarrow> risk_check list" where
  "risk_checks i v l now md pf st lastTs =
     [check_market_data_freshness i l now md,
      check_price_band i l now md,
      check_portfolio_freshness pf i l now,
      check_per_order_notional i l,
      check_daily_notional i l st,
      check_daily_loss i l st,
      check_slippage i l,
      check_position_delta pf i l,
      check_order_frequency lastTs i l now,
      check_daily_order_count i l st,
      check_evidence_references i,
      check_reviewer_consistency i v]"

text \<open>Daily statistics of another account or day count as missing.\<close>

definition own_daily_stats :: "string \<Rightarrow> string \<Rightarrow> daily_stats option \<Rightarrow> daily_stats option" where
  "own_daily_stats account today raw =
     (case raw of None \<Rightarrow> None
      | Some st \<Rightarrow> if ds_account st = account \<and> ds_date st = today then Some st else None)"

definition utc_day :: "host \<Rightarrow> int \<Rightarrow> string" where
  "utc_day h t = take 10 (iso_string h t)"

definition risk_verdict ::
  "host \<Rightarrow> trading_intent \<Rightarrow> risk_check list \<Rightarrow> daily_stats option \<Rightarrow> int \<Rightarrow> risk_result" where
  "risk_verdict h i cs st at_ms =
     \<lparr>rr_intentId = in_intentId i, rr_passed = list_all (\<lambda>c. rk_status c = Pass) cs,
      rr_checks = cs, rr_dailyStats = st, rr_evaluatedAt = iso_string h at_ms\<rparr>"

fun order_of :: "trading_intent \<Rightarrow> cex_order option" where
  "order_of (CexOrderIntent e x) = Some x"
| "order_of _ = None"

definition evaluate_risk ::
  "host \<Rightarrow> 'w risk_provider \<Rightarrow> risk_limits \<Rightarrow> trading_intent \<Rightarrow> reviewer_verdict \<Rightarrow>
   ('w, risk_result) eff" where
  "evaluate_risk h p l i v =
     andthen (clock p) (\<lambda>t0. let today = utc_day h t0 in
     andthen (case order_of i of
         Some x \<Rightarrow> getDailyStats p (ord_account x) today
       | None \<Rightarrow> ret None) (\<lambda>raw.
     let st = (case order_of i of Some x \<Rightarrow> own_daily_stats (ord_account x) today raw
               | None \<Rightarrow> None) in
     andthen (case order_of i of
         Some x \<Rightarrow> getMarketData p (ord_symbol x) | None \<Rightarrow> ret None) (\<lambda>md.
     andthen (case order_of i of
         Some x \<Rightarrow> getPortfolio p (ord_account x) | None \<Rightarrow> ret None) (\<lambda>pf.
     andthen (case order_of i of
         Some x \<Rightarrow> andthen (getLastOrderTimestampMs p (ord_account x)) (\<lambda>ts. ret (Some ts))
       | None \<Rightarrow> ret None) (\<lambda>lastTs.
     andthen (clock p) (\<lambda>now.
     if utc_day h now \<noteq> today
     then throw (GenericError ''Risk data collection crossed a UTC day boundary; evaluate again.'')
     else andthen (clock p) (\<lambda>done.
       ret (risk_verdict h i (risk_checks i v l (num_of_int now) md pf st lastTs) st done))))))))"

subsection \<open>What passing means\<close>

text \<open>
  The abstract contract of an order's evaluation, one clause per limit. \<open>\<le>\<close> on JavaScript
  numbers is false on NaN, so each clause also says that its operands are numbers.
\<close>

definition fresh_within :: "jsnum \<Rightarrow> jsnum \<Rightarrow> jsnum \<Rightarrow> bool" where
  "fresh_within now ts maxAge \<longleftrightarrow>
     num_le (Fin 0) (num_sub now ts) \<and> num_le (num_sub now ts) maxAge"

definition valid_limits :: "risk_limits \<Rightarrow> bool" where
  "valid_limits l \<longleftrightarrow> list_all (\<lambda>(n, v). is_finite v \<and> num_le (Fin 0) v) (limit_fields l)"

definition market_within :: "cex_order \<Rightarrow> risk_limits \<Rightarrow> jsnum \<Rightarrow> market_data option \<Rightarrow> bool" where
  "market_within x l now d \<longleftrightarrow> (\<exists>md. d = Some md \<and> md_symbol md = ord_symbol x \<and>
     is_finite (md_timestampMs md) \<and> fresh_within now (md_timestampMs md) (maxMarketDataAgeMs l) \<and>
     is_finite (md_price md) \<and> num_less (Fin 0) (md_price md) \<and>
     num_le (num_mul (num_abs (num_div (num_sub (ord_price x) (md_price md)) (md_price md)))
        (Fin 10000)) (maxPriceBandBps l))"

definition position_notional :: "cex_order \<Rightarrow> portfolio \<Rightarrow> jsnum" where
  "position_notional x pf = (case List.find (\<lambda>q. po_symbol q = ord_symbol x) (pf_positions pf) of
     Some q \<Rightarrow> po_notionalUsd q | None \<Rightarrow> Fin 0)"

definition portfolio_within :: "cex_order \<Rightarrow> risk_limits \<Rightarrow> jsnum \<Rightarrow> portfolio option \<Rightarrow> bool" where
  "portfolio_within x l now p \<longleftrightarrow> (\<exists>pf. p = Some pf \<and> pf_account pf = ord_account x \<and>
     is_finite (pf_timestampMs pf) \<and> fresh_within now (pf_timestampMs pf) (maxPortfolioAgeMs l) \<and>
     is_finite (position_notional x pf) \<and>
     (position_notional x pf = Fin 0 \<or>
      num_le (num_mul (num_div (ord_maxNotionalUsd x) (num_abs (position_notional x pf))) (Fin 100))
        (maxPositionDeltaPct l)))"

definition daily_within :: "cex_order \<Rightarrow> risk_limits \<Rightarrow> daily_stats option \<Rightarrow> bool" where
  "daily_within x l s \<longleftrightarrow> (\<exists>st. s = Some st \<and>
     list_all (\<lambda>v. is_finite v \<and> num_le (Fin 0) v)
       [ds_totalNotionalUsd st, ds_realizedLossUsd st, ds_orderCount st] \<and>
     num_le (num_add (ds_totalNotionalUsd st) (ord_maxNotionalUsd x)) (maxDailyNotionalUsd l) \<and>
     num_le (ds_realizedLossUsd st) (maxDailyLossUsd l) \<and>
     num_le (num_add (ds_orderCount st) (Fin 1)) (maxOrdersPerDay l))"

definition frequency_within :: "risk_limits \<Rightarrow> jsnum \<Rightarrow> jsnum option option \<Rightarrow> bool" where
  "frequency_within l now lastTs \<longleftrightarrow> lastTs = Some None \<or>
     (\<exists>ts. lastTs = Some (Some ts) \<and> is_finite (num_sub now ts) \<and>
        num_le (Fin 0) (num_sub now ts) \<and> num_le (minOrderIntervalMs l) (num_sub now ts))"

definition evidence_and_review_ok :: "trading_intent \<Rightarrow> reviewer_verdict \<Rightarrow> bool" where
  "evidence_and_review_ok i v \<longleftrightarrow> in_evidence i \<noteq> [] \<and>
     list_all (\<lambda>r. \<not> list_all is_space r) (in_evidence i) \<and> rv_intentId v = in_intentId i \<and>
     \<not> (rv_verdict v = Approve \<and> rv_detectedIssues v \<noteq> [])"

definition within_limits ::
  "cex_order \<Rightarrow> risk_limits \<Rightarrow> jsnum \<Rightarrow> market_data option \<Rightarrow> portfolio option \<Rightarrow>
   daily_stats option \<Rightarrow> jsnum option option \<Rightarrow> bool" where
  "within_limits x l now md pf st lastTs \<longleftrightarrow>
     market_within x l now md \<and> portfolio_within x l now pf \<and> daily_within x l st \<and>
     frequency_within l now lastTs \<and> num_le (ord_maxNotionalUsd x) (maxNotionalUsd l) \<and>
     num_le (ord_maxSlippageBps x) (maxSlippageBps l)"

subsection \<open>Each check decides its clause\<close>

lemma invalid_limit_iff: "invalid_limit v \<longleftrightarrow> \<not> (is_finite v \<and> num_le (Fin 0) v)"
  by (cases v) (auto simp: invalid_limit_def)

lemma valid_limits_nan:
  assumes "valid_limits l" "(n, v) \<in> set (limit_fields l)"
  shows "\<not> invalid_limit v" "v \<noteq> NaN"
  using assms by (auto simp: valid_limits_def list_all_iff invalid_limit_iff)

lemma new_risk_engine_ok: "new_risk_engine l = Inr l' \<longleftrightarrow> l' = l \<and> valid_limits l"
proof (cases "List.find (\<lambda>(n, v). invalid_limit v) (limit_fields l)")
  case None
  then have "valid_limits l"
    by (auto simp: find_None_iff valid_limits_def list_all_iff invalid_limit_iff)
  with None show ?thesis by (auto simp: new_risk_engine_def)
next
  case (Some q)
  obtain n v where q: "q = (n, v)" by fastforce
  from Some have "invalid_limit v" "(n, v) \<in> set (limit_fields l)"
    unfolding find_Some_iff q by (auto simp: in_set_conv_nth)
  then have "\<not> valid_limits l" using valid_limits_nan(1) by blast
  with Some q show ?thesis by (simp add: new_risk_engine_def)
qed

lemma valid_limits_finite:
  assumes "valid_limits l" "(n, v) \<in> set (limit_fields l)"
  obtains r where "v = Fin r" "0 \<le> r"
  using assms that by (cases v) (auto simp: valid_limits_def list_all_iff)

lemma round_double_not_NaN [simp]: "round_double r \<noteq> NaN"
  by (simp add: round_double_def)

lemma scaled_not_NaN [simp]:
  "0 < m \<Longrightarrow> num_mul (num_abs (num_div (num_sub (Fin p) (Fin m)) (Fin m))) (Fin 10000) \<noteq> NaN"
  by (cases "round_double (p - m)"; cases "round_double (p / m)")
    (auto simp: num_sub_def signed_inf_def round_double_def split: if_splits)

lemma num_less_iff: "x \<noteq> NaN \<Longrightarrow> y \<noteq> NaN \<Longrightarrow> num_less x y \<longleftrightarrow> \<not> num_le y x"
  using num_not_less [of x y] by blast

lemma num_sub_not_NaN: "y \<noteq> NaN \<Longrightarrow> num_sub (Fin x) y \<noteq> NaN"
  by (cases y) (simp_all add: num_sub_def)

lemma invalid_limit_Fin [simp]: "invalid_limit (Fin r) \<longleftrightarrow> r < 0"
  by (simp add: invalid_limit_def)

lemma pass_market:
  assumes "ord_price x = Fin p" "0 < p" "maxMarketDataAgeMs l = Fin a" "0 \<le> a"
    "maxPriceBandBps l = Fin b" "0 \<le> b"
  shows "rk_status (check_market_data_freshness (CexOrderIntent e x) l (Fin now) md) = Pass \<and>
      rk_status (check_price_band (CexOrderIntent e x) l (Fin now) md) = Pass
    \<longleftrightarrow> market_within x l (Fin now) md"
proof (cases md)
  case None
  then show ?thesis using assms by (simp add: market_within_def)
next
  case (Some d)
  show ?thesis
  proof (cases "md_timestampMs d")
    case (Fin t)
    show ?thesis
    proof (cases "md_price d")
      case m: (Fin m)
      let ?v = "num_mul (num_abs (num_div (num_sub (Fin p) (Fin m)) (Fin m))) (Fin 10000)"
      show ?thesis using Some Fin m assms scaled_not_NaN [of m p] num_sub_not_NaN [of "Fin t" now]
        by (auto simp: market_within_def fresh_within_def Let_def num_less_iff)
    qed (use Some assms in \<open>auto simp: market_within_def Let_def\<close>)
  qed (use Some assms in \<open>auto simp: market_within_def Let_def\<close>)
qed

lemma pass_portfolio:
  assumes "ord_maxNotionalUsd x = Fin v" "maxPortfolioAgeMs l = Fin a"
    "maxPositionDeltaPct l = Fin b" "0 \<le> b"
  shows "rk_status (check_portfolio_freshness p (CexOrderIntent e x) l (Fin now)) = Pass \<and>
      rk_status (check_position_delta p (CexOrderIntent e x) l) = Pass
    \<longleftrightarrow> portfolio_within x l (Fin now) p"
proof (cases p)
  case None
  then show ?thesis by (simp add: portfolio_within_def)
next
  case (Some pf)
  let ?pos = "List.find (\<lambda>q. po_symbol q = ord_symbol x) (pf_positions pf)"
  have age: "is_finite (num_sub (Fin now) (pf_timestampMs pf)) \<and>
      \<not> num_less (num_sub (Fin now) (pf_timestampMs pf)) (Fin 0) \<and>
      \<not> num_less (Fin a) (num_sub (Fin now) (pf_timestampMs pf))
    \<longleftrightarrow> is_finite (pf_timestampMs pf) \<and>
      fresh_within (Fin now) (pf_timestampMs pf) (Fin a)"
    by (cases "pf_timestampMs pf"; cases "num_sub (Fin now) (pf_timestampMs pf)")
      (auto simp: fresh_within_def num_sub_def)
  have delta: "num_mul (num_div (Fin v) (Fin \<bar>n\<bar>)) (Fin 100) \<noteq> NaN" if "n \<noteq> 0" for n :: rat
    using that by (cases "round_double (v / \<bar>n\<bar>)") (auto simp: signed_inf_def)
  have pos: "pred_option (\<lambda>q. is_finite (po_notionalUsd q)) ?pos \<longleftrightarrow>
      is_finite (position_notional x pf)"
    by (simp add: position_notional_def split: option.split)
  have notional: "(case ?pos of None \<Rightarrow> Fin 0 | Some q \<Rightarrow> po_notionalUsd q) = position_notional x pf"
    by (simp add: position_notional_def)
  have "rk_status (check_position_delta p (CexOrderIntent e x) l) = Pass \<longleftrightarrow>
      pf_account pf = ord_account x \<and> is_finite (position_notional x pf) \<and>
      (position_notional x pf = Fin 0 \<or>
       num_le (num_mul (num_div (ord_maxNotionalUsd x) (num_abs (position_notional x pf))) (Fin 100))
         (maxPositionDeltaPct l))"
    using assms Some delta unfolding check_position_delta.simps Let_def
    by (cases "position_notional x pf")
      (auto simp: pos notional num_eq_def num_less_iff simp del: num_div.simps)
  moreover have "rk_status (check_portfolio_freshness p (CexOrderIntent e x) l (Fin now)) = Pass
      \<longleftrightarrow> pf_account pf = ord_account x \<and> is_finite (pf_timestampMs pf) \<and>
          fresh_within (Fin now) (pf_timestampMs pf) (Fin a)"
    using Some age assms(2) by (auto simp: Let_def)
  ultimately show ?thesis using Some assms(2) by (auto simp: portfolio_within_def)
qed

lemma pass_daily:
  assumes "ord_maxNotionalUsd x = Fin v" "maxDailyNotionalUsd l = Fin a"
    "maxDailyLossUsd l = Fin b" "maxOrdersPerDay l = Fin c"
  shows "rk_status (check_daily_notional (CexOrderIntent e x) l s) = Pass \<and>
      rk_status (check_daily_loss (CexOrderIntent e x) l s) = Pass \<and>
      rk_status (check_daily_order_count (CexOrderIntent e x) l s) = Pass
    \<longleftrightarrow> daily_within x l s"
proof (cases s)
  case None
  then show ?thesis by (simp add: daily_within_def)
next
  case (Some st)
  have "is_finite y \<and> num_le (Fin 0) y \<longleftrightarrow> (\<exists>r. y = Fin r \<and> 0 \<le> r)" for y
    by (cases y) auto
  then show ?thesis using Some assms
    by (cases "ds_totalNotionalUsd st"; cases "ds_realizedLossUsd st"; cases "ds_orderCount st")
      (auto simp: daily_within_def Let_def invalid_limit_def num_less_iff)
qed

lemma pass_frequency:
  assumes "minOrderIntervalMs l = Fin a"
  shows "rk_status (check_order_frequency lastTs (CexOrderIntent e x) l (Fin now)) = Pass
    \<longleftrightarrow> frequency_within l (Fin now) lastTs"
proof (cases lastTs)
  case (Some q)
  show ?thesis
  proof (cases q)
    case (Some ts)
    then show ?thesis using \<open>lastTs = Some q\<close> assms
      by (cases "num_sub (Fin now) ts") (auto simp: frequency_within_def Let_def)
  qed (simp add: Some frequency_within_def)
qed (simp add: frequency_within_def Let_def)

lemma pass_review:
  "rk_status (check_evidence_references i) = Pass \<and> rk_status (check_reviewer_consistency i v) = Pass
    \<longleftrightarrow> evidence_and_review_ok i v"
  by (auto simp: check_evidence_references_def check_reviewer_consistency_def Let_def
      evidence_and_review_ok_def trim_empty_iff list_ex_iff list_all_iff Bex_def Ball_def
      split: if_splits)

text \<open>Together: a validated order under a validated configuration.\<close>

lemma valid_limits_Fin:
  assumes "valid_limits l"
    and "f \<in> {maxMarketDataAgeMs, maxPortfolioAgeMs, maxNotionalUsd, maxDailyNotionalUsd,
      maxDailyLossUsd, maxSlippageBps, maxPriceBandBps, maxPositionDeltaPct, minOrderIntervalMs,
      maxOrdersPerDay}"
  obtains r where "f l = Fin r" "0 \<le> r"
proof -
  have "f l \<in> snd ` set (limit_fields l)"
    using assms(2) by (elim insertE emptyE) (simp_all add: limit_fields_def)
  then obtain n where "(n, f l) \<in> set (limit_fields l)" by auto
  then show ?thesis using valid_limits_finite [OF assms(1)] that by blast
qed

lemma checks_pass_iff:
  assumes "valid_limits l" "intent_ok h (CexOrderIntent e x)"
  shows "list_all (\<lambda>c. rk_status c = Pass)
      (risk_checks (CexOrderIntent e x) v l (Fin now) md pf st lastTs)
    \<longleftrightarrow> within_limits x l (Fin now) md pf st lastTs \<and>
        evidence_and_review_ok (CexOrderIntent e x) v"
proof -
  obtain a where la: "maxMarketDataAgeMs l = Fin a" "0 \<le> a"
    by (rule valid_limits_Fin [OF assms(1), of maxMarketDataAgeMs]) simp_all
  obtain b where lb: "maxPortfolioAgeMs l = Fin b" "0 \<le> b"
    by (rule valid_limits_Fin [OF assms(1), of maxPortfolioAgeMs]) simp_all
  obtain c where lc: "maxNotionalUsd l = Fin c" "0 \<le> c"
    by (rule valid_limits_Fin [OF assms(1), of maxNotionalUsd]) simp_all
  obtain d where ld: "maxDailyNotionalUsd l = Fin d" "0 \<le> d"
    by (rule valid_limits_Fin [OF assms(1), of maxDailyNotionalUsd]) simp_all
  obtain f where lf: "maxDailyLossUsd l = Fin f" "0 \<le> f"
    by (rule valid_limits_Fin [OF assms(1), of maxDailyLossUsd]) simp_all
  obtain g where lg: "maxSlippageBps l = Fin g" "0 \<le> g"
    by (rule valid_limits_Fin [OF assms(1), of maxSlippageBps]) simp_all
  obtain k where lk: "maxPriceBandBps l = Fin k" "0 \<le> k"
    by (rule valid_limits_Fin [OF assms(1), of maxPriceBandBps]) simp_all
  obtain m where lm: "maxPositionDeltaPct l = Fin m" "0 \<le> m"
    by (rule valid_limits_Fin [OF assms(1), of maxPositionDeltaPct]) simp_all
  obtain n where ln: "minOrderIntervalMs l = Fin n" "0 \<le> n"
    by (rule valid_limits_Fin [OF assms(1), of minOrderIntervalMs]) simp_all
  obtain q where lq: "maxOrdersPerDay l = Fin q" "0 \<le> q"
    by (rule valid_limits_Fin [OF assms(1), of maxOrdersPerDay]) simp_all
  obtain p u w where x: "ord_price x = Fin p" "0 < p" "ord_maxNotionalUsd x = Fin u"
    "ord_maxSlippageBps x = Fin w"
    using assms(2) by (auto simp: cex_order_ok_def positive_def nonnegative_def is_finite_iff)
  let ?i = "CexOrderIntent e x"
  have "rk_status (check_per_order_notional ?i l) = Pass
      \<longleftrightarrow> num_le (ord_maxNotionalUsd x) (maxNotionalUsd l)"
    "rk_status (check_slippage ?i l) = Pass \<longleftrightarrow> num_le (ord_maxSlippageBps x) (maxSlippageBps l)"
    using lc lg x by (auto simp: Let_def)
  then show ?thesis
    using pass_market [OF x(1,2) la lk, of e now md]
      pass_portfolio [OF x(3) lb(1) lm, of pf e now]
      pass_daily [OF x(3) ld(1) lf(1) lq(1), of e st] pass_frequency [OF ln(1), of lastTs e x now]
      pass_review [of ?i v] list.pred_inject(1) [of "\<lambda>c. rk_status c = Pass"]
    unfolding risk_checks_def within_limits_def list.pred_inject(2) by blast
qed

subsection \<open>The evaluation\<close>

lemma evaluate_risk_order:
  assumes "evaluate_risk h p l (CexOrderIntent e x) v s = (Inr r, t)"
  obtains t0 s1 raw s2 md s3 pf s4 lastTs s5 now s6 fin where
    "clock p s = (Inr t0, s1)"
    "getDailyStats p (ord_account x) (utc_day h t0) s1 = (Inr raw, s2)"
    "getMarketData p (ord_symbol x) s2 = (Inr md, s3)"
    "getPortfolio p (ord_account x) s3 = (Inr pf, s4)"
    "getLastOrderTimestampMs p (ord_account x) s4 = (Inr lastTs, s5)"
    "clock p s5 = (Inr now, s6)" "utc_day h now = utc_day h t0" "clock p s6 = (Inr fin, t)"
    "r = risk_verdict h (CexOrderIntent e x)
       (risk_checks (CexOrderIntent e x) v l (num_of_int now) md pf
         (own_daily_stats (ord_account x) (utc_day h t0) raw) (Some lastTs))
       (own_daily_stats (ord_account x) (utc_day h t0) raw) fin"
  using assms
  by (auto simp: evaluate_risk_def andthen_def Let_def split: prod.splits sum.splits if_splits)

lemma evaluate_risk_other:
  assumes "evaluate_risk h p l i v s = (Inr r, t)" "order_of i = None"
  shows "rr_passed r \<longleftrightarrow> evidence_and_review_ok i v"
    "rr_checks r = risk_checks i v l (Fin 0) None None None None" "rr_dailyStats r = None"
proof -
  obtain now fin where r: "r = risk_verdict h i (risk_checks i v l (num_of_int now) None None None None)
      None fin"
    using assms
    by (auto simp: evaluate_risk_def andthen_def Let_def split: prod.splits sum.splits if_splits)
  have "risk_checks i v l (num_of_int now) None None None None
      = risk_checks i v l (Fin 0) None None None None"
    using assms(2) by (cases i) (simp_all add: risk_checks_def)
  then show "rr_checks r = risk_checks i v l (Fin 0) None None None None"
    using r by (simp add: risk_verdict_def)
  show "rr_passed r \<longleftrightarrow> evidence_and_review_ok i v" "rr_dailyStats r = None"
    using assms(2) r pass_review [of i v]
    by (cases i; simp add: risk_verdict_def risk_checks_def)+
qed

subsection \<open>Limits and monotonicity\<close>

definition looser :: "risk_limits \<Rightarrow> risk_limits \<Rightarrow> bool" where
  "looser l l' \<longleftrightarrow> list_all (\<lambda>f. num_le (f l) (f l'))
     [maxMarketDataAgeMs, maxPortfolioAgeMs, maxNotionalUsd, maxDailyNotionalUsd, maxDailyLossUsd,
      maxSlippageBps, maxPriceBandBps, maxPositionDeltaPct, maxOrdersPerDay] \<and>
     num_le (minOrderIntervalMs l') (minOrderIntervalMs l)"

lemma within_limits_mono:
  assumes "looser l l'" "within_limits x l now md pf st lastTs"
  shows "within_limits x l' now md pf st lastTs"
proof -
  have le: "num_le v (f l) \<Longrightarrow> num_le v (f l')"
    if "f \<in> {maxMarketDataAgeMs, maxPortfolioAgeMs, maxNotionalUsd, maxDailyNotionalUsd,
      maxDailyLossUsd, maxSlippageBps, maxPriceBandBps, maxPositionDeltaPct, maxOrdersPerDay}" for f v
    using that assms(1) unfolding looser_def by (elim insertE emptyE) (auto elim: num_le_trans)
  have ge: "num_le (minOrderIntervalMs l) v \<Longrightarrow> num_le (minOrderIntervalMs l') v" for v
    using assms(1) num_le_trans unfolding looser_def by blast
  have "market_within x l' now md"
    using assms(2) le [of maxMarketDataAgeMs] le [of maxPriceBandBps]
    by (auto simp: within_limits_def market_within_def fresh_within_def)
  moreover have "portfolio_within x l' now pf"
    using assms(2) le [of maxPortfolioAgeMs] le [of maxPositionDeltaPct]
    by (auto simp: within_limits_def portfolio_within_def fresh_within_def)
  moreover have "daily_within x l' st"
    using assms(2) le [of maxDailyNotionalUsd] le [of maxDailyLossUsd] le [of maxOrdersPerDay]
    by (auto simp: within_limits_def daily_within_def)
  moreover have "frequency_within l' now lastTs"
    using assms(2) ge by (auto simp: within_limits_def frequency_within_def)
  ultimately show ?thesis
    using assms(2) le [of maxNotionalUsd] le [of maxSlippageBps] by (simp add: within_limits_def)
qed

subsection \<open>Properties\<close>

definition sample_provider :: "nat risk_provider" where
  "sample_provider =
     \<lparr>getMarketData = (\<lambda>s. ret (Some \<lparr>md_symbol = s, md_price = Fin 100, md_timestampMs = Fin 0\<rparr>)),
      getPortfolio = (\<lambda>a. ret (Some \<lparr>pf_account = a, pf_timestampMs = Fin 0, pf_positions = []\<rparr>)),
      getDailyStats = (\<lambda>a d. ret (Some \<lparr>ds_account = a, ds_date = d, ds_totalNotionalUsd = Fin 0,
        ds_realizedLossUsd = Fin 0, ds_orderCount = Fin 0\<rparr>)),
      getLastOrderTimestampMs = (\<lambda>a. ret None), clock = (\<lambda>n. (Inr (int n), n + 1))\<rparr>"

definition sample_review :: reviewer_verdict where
  "sample_review =
     \<lparr>rv_intentId = ''i1'', rv_verdict = Approve, rv_riskLevel = LowRisk, rv_reasons = [],
      rv_detectedIssues = [], rv_requiredPolicyTags = [], rv_reviewerModel = ''m'',
      rv_reviewerProvider = ''p'', rv_reviewedAt = sample_date 1\<rparr>"

lemma sample_limits_valid [simp]: "valid_limits default_canary_live_limits"
  by (simp add: valid_limits_def limit_fields_def default_canary_live_limits_def)

lemma sample_provider_simps [simp]:
  "getMarketData sample_provider s =
     ret (Some \<lparr>md_symbol = s, md_price = Fin 100, md_timestampMs = Fin 0\<rparr>)"
  "getPortfolio sample_provider a =
     ret (Some \<lparr>pf_account = a, pf_timestampMs = Fin 0, pf_positions = []\<rparr>)"
  "getDailyStats sample_provider a d = ret (Some \<lparr>ds_account = a, ds_date = d,
     ds_totalNotionalUsd = Fin 0, ds_realizedLossUsd = Fin 0, ds_orderCount = Fin 0\<rparr>)"
  "getLastOrderTimestampMs sample_provider a = ret None"
  "clock sample_provider n = (Inr (int n), Suc n)"
  by (simp_all add: sample_provider_def)

lemma sample_evaluation:
  "\<exists>r. evaluate_risk sample_host sample_provider default_canary_live_limits sample_intent
      sample_review 0 = (Inr r, 3)"
  by (simp add: evaluate_risk_def andthen_def Let_def utc_day_def)

text \<open>C2. An evaluation of a validated order under an accepted configuration reports \<open>passed\<close>
  exactly when the snapshots it collected satisfy every limit: each of the twelve checks decides
  its clause of the contract, missing data is never within limits, and floating point rounding
  and NaN do not open a gap between the negated comparisons of the code and the contract.\<close>

theorem risk_evaluation_decides_limits:
  assumes "new_risk_engine l0 = Inr l" and "intent_ok h (CexOrderIntent e x)"
    and "evaluate_risk h p l (CexOrderIntent e x) v s = (Inr r, t)"
  shows "\<exists>t0 s1 raw s2 md s3 pf s4 lastTs s5 now s6.
    clock p s = (Inr t0, s1) \<and>
    getDailyStats p (ord_account x) (utc_day h t0) s1 = (Inr raw, s2) \<and>
    getMarketData p (ord_symbol x) s2 = (Inr md, s3) \<and>
    getPortfolio p (ord_account x) s3 = (Inr pf, s4) \<and>
    getLastOrderTimestampMs p (ord_account x) s4 = (Inr lastTs, s5) \<and>
    clock p s5 = (Inr now, s6) \<and> utc_day h now = utc_day h t0 \<and>
    (rr_passed r \<longleftrightarrow>
      within_limits x l (num_of_int now) md pf (own_daily_stats (ord_account x) (utc_day h t0) raw)
        (Some lastTs) \<and> evidence_and_review_ok (CexOrderIntent e x) v)"
proof -
  have l: "valid_limits l" using assms(1) by (simp add: new_risk_engine_ok)
  show ?thesis
    by (rule evaluate_risk_order [OF assms(3)], intro exI conjI, assumption+)
      (simp add: risk_verdict_def checks_pass_iff [OF l assms(2)])
qed

theorem risk_evaluation_decides_limits_witness:
  "new_risk_engine default_canary_live_limits = Inr default_canary_live_limits \<and>
   (\<exists>r. evaluate_risk sample_host sample_provider default_canary_live_limits sample_intent
      sample_review 0 = (Inr r, 3) \<and> rr_passed r \<and> (\<exists>t0 s1. clock sample_provider 0 = (Inr t0, s1)))"
proof -
  obtain r where r: "evaluate_risk sample_host sample_provider default_canary_live_limits
      sample_intent sample_review 0 = (Inr r, 3)" using sample_evaluation by blast
  have l: "new_risk_engine default_canary_live_limits = Inr default_canary_live_limits"
    by (simp add: new_risk_engine_ok)
  note c = risk_evaluation_decides_limits [OF l sample_intents_ok(1) r]
  then have "rr_passed r"
    by (auto simp: sample_provider_def within_limits_def market_within_def portfolio_within_def
        daily_within_def frequency_within_def evidence_and_review_ok_def fresh_within_def
        default_canary_live_limits_def sample_order_def sample_review_def sample_envelope_def
        position_notional_def own_daily_stats_def num_sub_def is_space_def)
  with r l c show ?thesis by blast
qed

text \<open>C3. The engine fails closed: when the provider has no market data, no portfolio or no
  daily statistics of the order's own account and day, the evaluation of an order is not passed
  and one of its checks is \<open>unavailable\<close>, whatever the limits, the review and the other data.\<close>

theorem risk_missing_data_fails_closed:
  assumes "evaluate_risk h p l (CexOrderIntent e x) v s = (Inr r, t)"
    and "(\<forall>w. fst (getMarketData p (ord_symbol x) w) = Inr None) \<or>
         (\<forall>w. fst (getPortfolio p (ord_account x) w) = Inr None) \<or>
         (\<forall>d w. \<exists>raw. fst (getDailyStats p (ord_account x) d w) = Inr raw \<and>
            own_daily_stats (ord_account x) d raw = None)"
  shows "\<not> rr_passed r \<and> (\<exists>c \<in> set (rr_checks r). rk_status c = Unavailable)"
proof -
  from assms(1) obtain t0 s1 raw s2 md s3 pf s4 lastTs now fin where run:
    "getDailyStats p (ord_account x) (utc_day h t0) s1 = (Inr raw, s2)"
    "getMarketData p (ord_symbol x) s2 = (Inr md, s3)"
    "getPortfolio p (ord_account x) s3 = (Inr pf, s4)"
    and r: "r = risk_verdict h (CexOrderIntent e x)
       (risk_checks (CexOrderIntent e x) v l (num_of_int now) md pf
         (own_daily_stats (ord_account x) (utc_day h t0) raw) (Some lastTs))
       (own_daily_stats (ord_account x) (utc_day h t0) raw) fin"
    by (rule evaluate_risk_order)
  let ?st = "own_daily_stats (ord_account x) (utc_day h t0) raw"
  have "md = None \<or> pf = None \<or> ?st = None"
    using assms(2) run by (metis fst_conv sum.inject(2))
  then have "\<exists>c \<in> set (rr_checks r). rk_status c = Unavailable"
  proof (elim disjE)
    assume "md = None"
    then have "rk_status (check_market_data_freshness (CexOrderIntent e x) l (num_of_int now) md)
        = Unavailable" by (simp add: Let_def)
    then show ?thesis by (simp add: r risk_verdict_def risk_checks_def)
  qed (simp_all add: r risk_verdict_def risk_checks_def)
  moreover from this obtain c where "c \<in> set (rr_checks r)" "rk_status c \<noteq> Pass" by fastforce
  ultimately show ?thesis by (auto simp: r risk_verdict_def list_all_iff)
qed

theorem risk_missing_data_fails_closed_witness:
  "\<exists>r t. evaluate_risk sample_host (sample_provider\<lparr>getPortfolio := \<lambda>a. ret None\<rparr>)
     default_canary_live_limits sample_intent sample_review 0 = (Inr r, t) \<and> \<not> rr_passed r"
proof -
  let ?p = "sample_provider\<lparr>getPortfolio := \<lambda>a. ret None\<rparr>"
  obtain r t where r: "evaluate_risk sample_host ?p default_canary_live_limits sample_intent
      sample_review 0 = (Inr r, t)"
    by (simp add: evaluate_risk_def andthen_def Let_def utc_day_def)
  then show ?thesis using risk_missing_data_fails_closed [OF r] by auto
qed

text \<open>Loosening limits never turns a passed evaluation into a denial: with the same
  snapshots, what passes under a configuration passes under every configuration that is at
  least as loose in each limit (a shorter minimal interval, larger bounds otherwise).\<close>

theorem risk_limits_monotone:
  assumes "valid_limits l" "valid_limits l'" "looser l l'" "intent_ok h (CexOrderIntent e x)"
    and "list_all (\<lambda>c. rk_status c = Pass)
      (risk_checks (CexOrderIntent e x) v l (Fin now) md pf st lastTs)"
  shows "list_all (\<lambda>c. rk_status c = Pass)
      (risk_checks (CexOrderIntent e x) v l' (Fin now) md pf st lastTs)"
  using assms(5) within_limits_mono [OF assms(3)] checks_pass_iff [OF assms(1,4)]
    checks_pass_iff [OF assms(2,4)] by blast

theorem risk_limits_monotone_witness:
  "list_all (\<lambda>c. rk_status c = Pass)
     (risk_checks sample_intent sample_review (default_canary_live_limits\<lparr>maxNotionalUsd := Fin 20\<rparr>)
        (Fin 1) (Some \<lparr>md_symbol = ''BTCUSDT'', md_price = Fin 100, md_timestampMs = Fin 0\<rparr>)
        (Some \<lparr>pf_account = ''acct'', pf_timestampMs = Fin 0, pf_positions = []\<rparr>)
        (Some \<lparr>ds_account = ''acct'', ds_date = ''2026-01-01'', ds_totalNotionalUsd = Fin 40,
          ds_realizedLossUsd = Fin 3, ds_orderCount = Fin 24\<rparr>) (Some None))"
proof (rule risk_limits_monotone [OF sample_limits_valid _ _ sample_intents_ok(1)])
  show "valid_limits (default_canary_live_limits\<lparr>maxNotionalUsd := Fin 20\<rparr>)"
    by (simp add: valid_limits_def limit_fields_def default_canary_live_limits_def)
  show "looser default_canary_live_limits (default_canary_live_limits\<lparr>maxNotionalUsd := Fin 20\<rparr>)"
    by (simp add: looser_def default_canary_live_limits_def)
  show "list_all (\<lambda>c. rk_status c = Pass) (risk_checks sample_intent sample_review
     default_canary_live_limits
        (Fin 1) (Some \<lparr>md_symbol = ''BTCUSDT'', md_price = Fin 100, md_timestampMs = Fin 0\<rparr>)
        (Some \<lparr>pf_account = ''acct'', pf_timestampMs = Fin 0, pf_positions = []\<rparr>)
        (Some \<lparr>ds_account = ''acct'', ds_date = ''2026-01-01'', ds_totalNotionalUsd = Fin 40,
          ds_realizedLossUsd = Fin 3, ds_orderCount = Fin 24\<rparr>) (Some None))"
    using checks_pass_iff [OF sample_limits_valid sample_intents_ok(1), of sample_review 1]
    by (simp add: within_limits_def market_within_def portfolio_within_def
        daily_within_def frequency_within_def evidence_and_review_ok_def fresh_within_def
        default_canary_live_limits_def sample_order_def sample_review_def sample_envelope_def
        position_notional_def num_sub_def is_space_def)
qed

text \<open>C4. The daily bounds are exact. On whole numbers of the safe range, the order count passes exactly when
  one more order is within \<open>maxOrdersPerDay\<close>, and the notional exactly when the sum is within
  \<open>maxDailyNotionalUsd\<close>; both fail beyond, and an order that passes every check is within both. On any
  other amounts, a sum that is within a limit that is a double is never refused because of rounding.\<close>

theorem risk_daily_bounds_exact:
  assumes "maxOrdersPerDay l = num_of_int m" "ds_orderCount d = num_of_int n" "0 \<le> n" "n + 1 \<le> 2 ^ 53"
    and "maxDailyNotionalUsd l = Fin b" "is_double b" "ord_maxNotionalUsd x = Fin a"
    and "ds_totalNotionalUsd d = Fin c" "0 \<le> c"
  shows "rk_status (check_daily_order_count (CexOrderIntent e x) l (Some d)) = (if n + 1 \<le> m then Pass else Fail) \<and>
    (\<forall>i j. a = of_int i \<and> c = of_int j \<and> \<bar>j + i\<bar> \<le> 2 ^ 53 \<longrightarrow>
      rk_status (check_daily_notional (CexOrderIntent e x) l (Some d)) = (if c + a \<le> b then Pass else Fail)) \<and>
    (c + a \<le> b \<longrightarrow> rk_status (check_daily_notional (CexOrderIntent e x) l (Some d)) = Pass) \<and>
    (list_all (\<lambda>k. rk_status k = Pass) (risk_checks (CexOrderIntent e x) v l now md pf (Some d) lastTs) \<longrightarrow>
      n + 1 \<le> m \<and> (\<forall>i j. a = of_int i \<and> c = of_int j \<and> \<bar>j + i\<bar> \<le> 2 ^ 53 \<longrightarrow> c + a \<le> b))"
proof -
  have sum: "num_add (num_of_int j) (num_of_int i) = num_of_int (j + i)" if "\<bar>j + i\<bar> \<le> 2 ^ 53" for i j
    using that by (rule num_add_int)
  have "num_add (num_of_int n) (num_of_int 1) = num_of_int (n + 1)" using assms(3,4) by (intro sum) simp
  then have count: "rk_status (check_daily_order_count (CexOrderIntent e x) l (Some d)) = (if n + 1 \<le> m then Pass else Fail)"
    using assms(1-3) by (auto simp: Let_def num_less_iff invalid_limit_def simp del: num_add.simps num_add_int)
  have notional: "rk_status (check_daily_notional (CexOrderIntent e x) l (Some d)) = (if c + a \<le> b then Pass else Fail)"
    if i: "a = of_int i" "c = of_int j" "\<bar>j + i\<bar> \<le> 2 ^ 53" for i j
  proof -
    have "num_add (Fin c) (Fin a) = Fin (c + a)" using sum [OF i(3)] by (simp add: i(1,2) del: num_add.simps)
    then show ?thesis
      using assms(5,7-9) by (auto simp: Let_def num_less_iff invalid_limit_def simp del: num_add.simps num_add_int)
  qed
  have exact: "rk_status (check_daily_notional (CexOrderIntent e x) l (Some d)) = Pass" if "c + a \<le> b"
    using num_add_le_limit [OF that assms(6)] assms(5,7-9) by (auto simp: Let_def num_less_iff invalid_limit_def)
  have checks: "rk_status (check_daily_order_count (CexOrderIntent e x) l (Some d)) = Pass \<and>
      rk_status (check_daily_notional (CexOrderIntent e x) l (Some d)) = Pass"
    if "list_all (\<lambda>k. rk_status k = Pass) (risk_checks (CexOrderIntent e x) v l now md pf (Some d) lastTs)"
    using that by (simp add: risk_checks_def del: check_daily_order_count.simps check_daily_notional.simps)
  have within: "n + 1 \<le> m \<and> (\<forall>i j. a = of_int i \<and> c = of_int j \<and> \<bar>j + i\<bar> \<le> 2 ^ 53 \<longrightarrow> c + a \<le> b)"
    if "list_all (\<lambda>k. rk_status k = Pass) (risk_checks (CexOrderIntent e x) v l now md pf (Some d) lastTs)"
    using checks [OF that] count notional by (metis check_status.distinct(1))
  show ?thesis using count notional exact within by blast
qed

text \<open>The 25th order of a day with a limit of 25, on a notional that reaches its limit, and the 26th.\<close>

definition sample_day :: "int \<Rightarrow> daily_stats" where
  "sample_day n = \<lparr>ds_account = ''acct'', ds_date = ''d'', ds_totalNotionalUsd = Fin 42, ds_realizedLossUsd = Fin 0,
     ds_orderCount = num_of_int n\<rparr>"

theorem risk_daily_bounds_exact_witness:
  "rk_status (check_daily_order_count sample_intent default_canary_live_limits (Some (sample_day 24))) = Pass \<and>
   rk_status (check_daily_notional sample_intent default_canary_live_limits (Some (sample_day 24))) = Pass \<and>
   rk_status (check_daily_order_count sample_intent default_canary_live_limits (Some (sample_day 25))) = Fail"
proof -
  have limits: "maxOrdersPerDay default_canary_live_limits = num_of_int 25" "maxDailyNotionalUsd default_canary_live_limits = Fin 50"
    "is_double 50" "ord_maxNotionalUsd sample_order = Fin 8"
    using is_double_int [of 50] by (simp_all add: default_canary_live_limits_def sample_order_def)
  have day: "ds_orderCount (sample_day n) = num_of_int n" "ds_totalNotionalUsd (sample_day n) = Fin 42" for n
    by (simp_all add: sample_day_def)
  note exact = risk_daily_bounds_exact [where e = sample_envelope, OF limits(1) day(1) _ _ limits(2,3,4) day(2)]
  show ?thesis using exact [of 24] exact [of 25]
    by (simp del: check_daily_order_count.simps check_daily_notional.simps)
qed

end
