(* ===== verification/ResultSchema.thy ===== *)
theory ResultSchema
  imports Schemas
begin

text \<open>
  The execution results of \<open>packages/schemas/src/broker.ts\<close> and the audit event types of
  \<open>audit.ts\<close>: the result is one record whose optional fields are present or not, the union of
  nine strict object schemas is the table \<open>result_variants\<close>, and \<open>parse_result\<close> is
  \<open>BrokerExecutionResult.safeParse\<close>.
\<close>

declare map_of_append [simp del]

subsection \<open>Data\<close>

datatype exec_status = Executed | Rejected | Failed

fun exec_status_name :: "exec_status \<Rightarrow> string" where
  "exec_status_name Executed = ''executed''"
| "exec_status_name Rejected = ''rejected''"
| "exec_status_name Failed = ''failed''"

datatype exec_kind =
    CexOrderKind
  | CexCancelKind
  | CexOrderStatusKind
  | OnchainSignatureKind
  | OnchainSimulationKind

fun exec_kind_name :: "exec_kind \<Rightarrow> string" where
  "exec_kind_name CexOrderKind = ''cex_order''"
| "exec_kind_name CexCancelKind = ''cex_cancel''"
| "exec_kind_name CexOrderStatusKind = ''cex_order_status''"
| "exec_kind_name OnchainSignatureKind = ''onchain_signature''"
| "exec_kind_name OnchainSimulationKind = ''onchain_simulation''"

record order_status =
  os_orderId :: string
  os_symbol :: string
  os_side :: string
  os_status :: string
  os_executedQty :: jsnum
  os_avgPrice :: jsnum

datatype reconciliation_status = Matched | Discrepancy | ReconciliationUnavailable

fun reconciliation_status_name :: "reconciliation_status \<Rightarrow> string" where
  "reconciliation_status_name Matched = ''matched''"
| "reconciliation_status_name Discrepancy = ''discrepancy''"
| "reconciliation_status_name ReconciliationUnavailable = ''unavailable''"

definition reconciliation_table :: "(string \<times> reconciliation_status) list" where
  "reconciliation_table = map (\<lambda>s. (reconciliation_status_name s, s))
     [Matched, Discrepancy, ReconciliationUnavailable]"

record reconciliation =
  rc_status :: reconciliation_status
  rc_checkedAt :: string
  rc_expected :: order_status
  rc_observed :: "order_status option"
  rc_discrepancies :: "string list"

record sim_evidence =
  se_simulationId :: "string option"
  se_provider :: string

record exec_result =
  xr_intentId :: string
  xr_idempotencyKey :: string
  xr_status :: exec_status
  xr_executionKind :: "exec_kind option"
  xr_revalidationPassed :: bool
  xr_executedAt :: string
  xr_orderId :: "string option"
  xr_transactionHash :: "string option"
  xr_orderStatus :: "order_status option"
  xr_reconciliation :: "reconciliation option"
  xr_simulationEvidence :: "sim_evidence option"
  xr_rejectionReason :: "string option"

subsection \<open>Objects\<close>

definition order_status_json :: "order_status \<Rightarrow> jsval" where
  "order_status_json s = JObj
     [(''orderId'', JStr (os_orderId s)), (''symbol'', JStr (os_symbol s)),
      (''side'', JStr (os_side s)), (''status'', JStr (os_status s)),
      (''executedQty'', JNum (os_executedQty s)), (''avgPrice'', JNum (os_avgPrice s))]"

definition reconciliation_json :: "reconciliation \<Rightarrow> jsval" where
  "reconciliation_json r = JObj
     ([(''status'', JStr (reconciliation_status_name (rc_status r))),
       (''checkedAt'', JStr (rc_checkedAt r)), (''expected'', order_status_json (rc_expected r))] @
      opt_field ''observed'' order_status_json (rc_observed r) @
      [(''discrepancies'', JArr (map JStr (rc_discrepancies r)))])"

definition sim_evidence_json :: "sim_evidence \<Rightarrow> jsval" where
  "sim_evidence_json s = JObj
     (opt_field ''simulationId'' JStr (se_simulationId s) @ [(''provider'', JStr (se_provider s))])"

definition result_json :: "exec_result \<Rightarrow> jsval" where
  "result_json r = JObj
     ([(''intentId'', JStr (xr_intentId r)), (''idempotencyKey'', JStr (xr_idempotencyKey r)),
       (''status'', JStr (exec_status_name (xr_status r)))] @
      opt_field ''executionKind'' (\<lambda>k. JStr (exec_kind_name k)) (xr_executionKind r) @
      opt_field ''orderId'' JStr (xr_orderId r) @
      opt_field ''transactionHash'' JStr (xr_transactionHash r) @
      opt_field ''orderStatus'' order_status_json (xr_orderStatus r) @
      opt_field ''reconciliation'' reconciliation_json (xr_reconciliation r) @
      opt_field ''simulationEvidence'' sim_evidence_json (xr_simulationEvidence r) @
      opt_field ''rejectionReason'' JStr (xr_rejectionReason r) @
      [(''revalidationPassed'', JBool (xr_revalidationPassed r)),
       (''executedAt'', JStr (xr_executedAt r))])"

subsection \<open>Validation\<close>

fun z_bool :: "jsval \<Rightarrow> bool option" where
  "z_bool (JBool b) = Some b"
| "z_bool _ = None"

definition order_status_keys :: "string list" where
  "order_status_keys =
     [''orderId'', ''symbol'', ''side'', ''status'', ''executedQty'', ''avgPrice'']"

definition parse_order_status :: "jsval \<Rightarrow> order_status option" where
  "parse_order_status v = (let m = map_of (members v) in
     if \<not> is_object v \<or> \<not> strict order_status_keys (members v) then None
     else do {
       oid \<leftarrow> required m ''orderId'' (z_string nonempty);
       sym \<leftarrow> required m ''symbol'' (z_string nonempty);
       sd \<leftarrow> required m ''side'' (z_string nonempty);
       st \<leftarrow> required m ''status'' (z_string nonempty);
       q \<leftarrow> required m ''executedQty'' (z_number nonnegative);
       p \<leftarrow> required m ''avgPrice'' (z_number nonnegative);
       Some \<lparr>os_orderId = oid, os_symbol = sym, os_side = sd, os_status = st,
         os_executedQty = q, os_avgPrice = p\<rparr>
     })"

definition parse_reconciliation :: "host \<Rightarrow> jsval \<Rightarrow> reconciliation option" where
  "parse_reconciliation h v = (let m = map_of (members v) in
     if \<not> is_object v \<or>
        \<not> strict [''status'', ''checkedAt'', ''expected'', ''observed'', ''discrepancies''] (members v)
     then None
     else do {
       st \<leftarrow> required m ''status'' (z_enum reconciliation_table);
       ca \<leftarrow> required m ''checkedAt'' (z_string (is_datetime h));
       ex \<leftarrow> required m ''expected'' parse_order_status;
       ob \<leftarrow> optional m ''observed'' parse_order_status;
       ds \<leftarrow> required m ''discrepancies''
               (\<lambda>v. case v of JArr xs \<Rightarrow> all_some (z_string nonempty) xs | _ \<Rightarrow> None);
       Some \<lparr>rc_status = st, rc_checkedAt = ca, rc_expected = ex, rc_observed = ob,
         rc_discrepancies = ds\<rparr>
     })"

definition parse_sim_evidence :: "host \<Rightarrow> jsval \<Rightarrow> sim_evidence option" where
  "parse_sim_evidence h v = (let m = map_of (members v) in
     if \<not> is_object v \<or> \<not> strict [''simulationId'', ''provider''] (members v) then None
     else do {
       sid \<leftarrow> optional m ''simulationId'' (z_string (is_uuid h));
       pr \<leftarrow> required m ''provider'' (z_string nonempty);
       Some \<lparr>se_simulationId = sid, se_provider = pr\<rparr>
     })"

text \<open>Each schema of the union: status, kind, required members and optional members.\<close>

record variant =
  va_status :: exec_status
  va_kind :: "exec_kind option"
  va_required :: "string list"
  va_optional :: "string list"

definition result_variants :: "variant list" where
  "result_variants =
     [\<lparr>va_status = Executed, va_kind = Some CexOrderKind, va_required = [''orderId''],
        va_optional = [''reconciliation'']\<rparr>,
      \<lparr>va_status = Executed, va_kind = Some CexOrderKind, va_required = [''orderStatus''],
        va_optional = [''reconciliation'']\<rparr>,
      \<lparr>va_status = Executed, va_kind = Some CexOrderKind,
        va_required = [''orderId'', ''orderStatus''], va_optional = [''reconciliation'']\<rparr>,
      \<lparr>va_status = Executed, va_kind = Some CexCancelKind, va_required = [''orderId''],
        va_optional = []\<rparr>,
      \<lparr>va_status = Executed, va_kind = Some CexOrderStatusKind, va_required = [''orderStatus''],
        va_optional = [''orderId'']\<rparr>,
      \<lparr>va_status = Executed, va_kind = Some OnchainSignatureKind,
        va_required = [''transactionHash''], va_optional = []\<rparr>,
      \<lparr>va_status = Executed, va_kind = Some OnchainSimulationKind,
        va_required = [''simulationEvidence''], va_optional = []\<rparr>,
      \<lparr>va_status = Rejected, va_kind = None, va_required = [''rejectionReason''], va_optional = []\<rparr>,
      \<lparr>va_status = Failed, va_kind = None, va_required = [''rejectionReason''], va_optional = []\<rparr>]"

definition base_keys :: "string list" where
  "base_keys = [''intentId'', ''idempotencyKey'', ''revalidationPassed'', ''executedAt'', ''status'']"

definition field_of :: "variant \<Rightarrow> (string \<rightharpoonup> jsval) \<Rightarrow> string \<Rightarrow> (jsval \<Rightarrow> 'a option) \<Rightarrow> 'a option option"
  where
  "field_of va m k d =
     (if k \<in> set (va_required va) then map_option Some (required m k d)
      else if k \<in> set (va_optional va) then optional m k d else Some None)"

definition variant_keys :: "variant \<Rightarrow> string list" where
  "variant_keys va = base_keys @ (if va_kind va = None then [] else [''executionKind'']) @
     va_required va @ va_optional va"

definition parse_variant :: "host \<Rightarrow> jsval \<Rightarrow> variant \<Rightarrow> exec_result option" where
  "parse_variant h v va = (let m = map_of (members v) in
     if \<not> is_object v \<or> \<not> strict (variant_keys va) (members v) then None
     else do {
       iid \<leftarrow> required m ''intentId'' (z_string (is_uuid h));
       ik \<leftarrow> required m ''idempotencyKey'' (z_string nonempty);
       rp \<leftarrow> required m ''revalidationPassed'' z_bool;
       ea \<leftarrow> required m ''executedAt'' (z_string (is_datetime h));
       required m ''status'' (z_literal (exec_status_name (va_status va)));
       (case va_kind va of None \<Rightarrow> Some ()
        | Some k \<Rightarrow> if rp then required m ''executionKind'' (z_literal (exec_kind_name k)) else None);
       oid \<leftarrow> field_of va m ''orderId'' (z_string nonempty);
       th \<leftarrow> field_of va m ''transactionHash'' (z_string nonempty);
       os \<leftarrow> field_of va m ''orderStatus'' parse_order_status;
       rc \<leftarrow> field_of va m ''reconciliation'' (parse_reconciliation h);
       se \<leftarrow> field_of va m ''simulationEvidence'' (parse_sim_evidence h);
       rr \<leftarrow> field_of va m ''rejectionReason'' (z_string nonempty);
       Some \<lparr>xr_intentId = iid, xr_idempotencyKey = ik, xr_status = va_status va,
         xr_executionKind = va_kind va, xr_revalidationPassed = rp, xr_executedAt = ea,
         xr_orderId = oid, xr_transactionHash = th, xr_orderStatus = os, xr_reconciliation = rc,
         xr_simulationEvidence = se, xr_rejectionReason = rr\<rparr>
     })"

text \<open>The first schema of the union that accepts the value.\<close>

fun first_some :: "('a \<Rightarrow> 'b option) \<Rightarrow> 'a list \<Rightarrow> 'b option" where
  "first_some f [] = None"
| "first_some f (x # xs) = (case f x of Some y \<Rightarrow> Some y | None \<Rightarrow> first_some f xs)"

definition parse_result :: "host \<Rightarrow> jsval \<Rightarrow> exec_result option" where
  "parse_result h v = first_some (parse_variant h v) result_variants"

subsection \<open>Audit event types\<close>

definition audit_event_types :: "string list" where
  "audit_event_types =
     [''intent.received'', ''intent.validated'', ''intent.rejected'', ''reviewer.started'',
      ''reviewer.completed'', ''reviewer.failed'', ''policy.evaluated'', ''policy.failed'',
      ''risk.evaluated'', ''risk.failed'', ''decision.final'', ''decision.dry_run'',
      ''approval.requested'', ''approval.approved'', ''approval.denied'', ''approval.timeout'',
      ''allowlist.updated'', ''signer.requested'', ''signer.completed'', ''signer.failed'',
      ''broker.revalidated'', ''broker.preflight'', ''broker.dry_run'', ''broker.executed'',
      ''broker.failed'', ''killswitch.activated'', ''killswitch.blocked'']"

text \<open>\<open>BrokerAuditEvent\<close> of \<open>packages/broker/src/interfaces.ts\<close>: absent members are \<open>None\<close>; \<open>ae_extra\<close>
  are the members that the type does not name, which an event read from a file may have.\<close>

record audit_event =
  ae_eventId :: "string option"
  ae_eventType :: string
  ae_environment :: environment
  ae_intentId :: "string option"
  ae_principal :: "string option"
  ae_correlationId :: string
  ae_data :: jsval
  ae_extra :: "(string \<times> jsval) list"

definition audit_event_json :: "audit_event \<Rightarrow> jsval" where
  "audit_event_json e = JObj
     (opt_field ''eventId'' JStr (ae_eventId e) @ [(''eventType'', JStr (ae_eventType e)),
       (''environment'', JStr (environment_name (ae_environment e)))] @
      opt_field ''intentId'' JStr (ae_intentId e) @ opt_field ''principal'' JStr (ae_principal e) @
      [(''correlationId'', JStr (ae_correlationId e)), (''data'', ae_data e)] @ ae_extra e)"

subsection \<open>Valid results\<close>

definition order_status_ok :: "order_status \<Rightarrow> bool" where
  "order_status_ok s \<longleftrightarrow> list_all nonempty [os_orderId s, os_symbol s, os_side s, os_status s] \<and>
     list_all (\<lambda>x. is_finite x \<and> nonnegative x) [os_executedQty s, os_avgPrice s]"

definition reconciliation_ok :: "host \<Rightarrow> reconciliation \<Rightarrow> bool" where
  "reconciliation_ok h r \<longleftrightarrow> is_datetime h (rc_checkedAt r) \<and> order_status_ok (rc_expected r) \<and>
     pred_option order_status_ok (rc_observed r) \<and> list_all nonempty (rc_discrepancies r)"

definition sim_evidence_ok :: "host \<Rightarrow> sim_evidence \<Rightarrow> bool" where
  "sim_evidence_ok h s \<longleftrightarrow> pred_option (is_uuid h) (se_simulationId s) \<and> nonempty (se_provider s)"

definition present :: "exec_result \<Rightarrow> string list" where
  "present r = map fst
     (opt_field ''orderId'' (\<lambda>_. ()) (xr_orderId r) @
      opt_field ''transactionHash'' (\<lambda>_. ()) (xr_transactionHash r) @
      opt_field ''orderStatus'' (\<lambda>_. ()) (xr_orderStatus r) @
      opt_field ''reconciliation'' (\<lambda>_. ()) (xr_reconciliation r) @
      opt_field ''simulationEvidence'' (\<lambda>_. ()) (xr_simulationEvidence r) @
      opt_field ''rejectionReason'' (\<lambda>_. ()) (xr_rejectionReason r))"

definition fits :: "exec_result \<Rightarrow> variant \<Rightarrow> bool" where
  "fits r va \<longleftrightarrow> va_status va = xr_status r \<and> va_kind va = xr_executionKind r \<and>
     set (va_required va) \<subseteq> set (present r) \<and>
     set (present r) \<subseteq> set (va_required va) \<union> set (va_optional va)"

definition result_ok :: "host \<Rightarrow> exec_result \<Rightarrow> bool" where
  "result_ok h r \<longleftrightarrow> is_uuid h (xr_intentId r) \<and> nonempty (xr_idempotencyKey r) \<and>
     is_datetime h (xr_executedAt r) \<and> pred_option nonempty (xr_orderId r) \<and>
     pred_option nonempty (xr_transactionHash r) \<and> pred_option order_status_ok (xr_orderStatus r) \<and>
     pred_option (reconciliation_ok h) (xr_reconciliation r) \<and>
     pred_option (sim_evidence_ok h) (xr_simulationEvidence r) \<and>
     pred_option nonempty (xr_rejectionReason r) \<and>
     (xr_status r = Executed \<longrightarrow> xr_revalidationPassed r) \<and>
     list_ex (fits r) result_variants"

subsection \<open>Round trip\<close>

lemma z_string_JStr [simp]: "z_string P (JStr s) = (if P s then Some s else None)" by simp

lemma parse_order_status_json [simp]:
  "parse_order_status (order_status_json s) = (if order_status_ok s then Some s else None)"
  by (simp add: parse_order_status_def order_status_json_def strict_def order_status_keys_def
      required_def order_status_ok_def)

lemma strings_json [simp]:
  "all_some (z_string nonempty) (map JStr xs) = (if list_all nonempty xs then Some xs else None)"
  by (induction xs) auto

lemma reconciliation_lookup [simp]: "map_of reconciliation_table (reconciliation_status_name s) = Some s"
  by (cases s) (simp_all add: reconciliation_table_def)

lemma z_enum_JStr [simp]: "z_enum t (JStr s) = map_of t s" by simp

lemma order_status_json_defined [simp]: "order_status_json s \<noteq> JUndef"
  by (simp add: order_status_json_def)

lemma reconciliation_members:
  fixes r defines "m \<equiv> map_of (members (reconciliation_json r))"
  shows "m ''status'' = Some (JStr (reconciliation_status_name (rc_status r)))"
    "m ''checkedAt'' = Some (JStr (rc_checkedAt r))"
    "m ''expected'' = Some (order_status_json (rc_expected r))"
    "m ''observed'' = map_option order_status_json (rc_observed r)"
    "m ''discrepancies'' = Some (JArr (map JStr (rc_discrepancies r)))"
  unfolding m_def by (simp_all add: reconciliation_json_def split: option.split)

lemma parse_reconciliation_json [simp]:
  "parse_reconciliation h (reconciliation_json r) = (if reconciliation_ok h r then Some r else None)"
proof -
  have "strict [''status'', ''checkedAt'', ''expected'', ''observed'', ''discrepancies'']
      (members (reconciliation_json r))"
    by (simp add: strict_def reconciliation_json_def opt_field_def split: option.split)
  moreover have "is_object (reconciliation_json r)" by (simp add: reconciliation_json_def)
  ultimately show ?thesis
    by (cases "rc_observed r")
      (simp_all add: parse_reconciliation_def required_def optional_def reconciliation_members
        reconciliation_ok_def)
qed

lemma parse_sim_evidence_json [simp]:
  "parse_sim_evidence h (sim_evidence_json s) = (if sim_evidence_ok h s then Some s else None)"
  by (cases "se_simulationId s")
    (simp_all add: parse_sim_evidence_def sim_evidence_json_def sim_evidence_ok_def strict_def
      opt_field_def required_def optional_def)

lemma result_members:
  fixes r defines "m \<equiv> map_of (members (result_json r))"
  shows "m ''intentId'' = Some (JStr (xr_intentId r))"
    "m ''idempotencyKey'' = Some (JStr (xr_idempotencyKey r))"
    "m ''status'' = Some (JStr (exec_status_name (xr_status r)))"
    "m ''executionKind'' = map_option (\<lambda>k. JStr (exec_kind_name k)) (xr_executionKind r)"
    "m ''orderId'' = map_option JStr (xr_orderId r)"
    "m ''transactionHash'' = map_option JStr (xr_transactionHash r)"
    "m ''orderStatus'' = map_option order_status_json (xr_orderStatus r)"
    "m ''reconciliation'' = map_option reconciliation_json (xr_reconciliation r)"
    "m ''simulationEvidence'' = map_option sim_evidence_json (xr_simulationEvidence r)"
    "m ''rejectionReason'' = map_option JStr (xr_rejectionReason r)"
    "m ''revalidationPassed'' = Some (JBool (xr_revalidationPassed r))"
    "m ''executedAt'' = Some (JStr (xr_executedAt r))"
  unfolding m_def by (simp_all add: result_json_def split: option.split)

lemma exec_names_inj [simp]:
  "exec_status_name a = exec_status_name b \<longleftrightarrow> a = b" "exec_kind_name k = exec_kind_name l \<longleftrightarrow> k = l"
  by (cases a; cases b; simp) (cases k; cases l; simp)

definition evidence_fields :: "string list" where
  "evidence_fields = [''orderId'', ''transactionHash'', ''orderStatus'', ''reconciliation'',
     ''simulationEvidence'', ''rejectionReason'']"

lemma field_of_json:
  assumes "m k = map_option f x" and "\<And>y. d (f y) = (if P y then Some y else None)"
    and "\<And>y. f y \<noteq> JUndef" and "x \<noteq> None \<Longrightarrow> k \<in> set (va_required va) \<union> set (va_optional va)"
  shows "field_of va m k d =
     (if pred_option P x \<and> (k \<in> set (va_required va) \<longrightarrow> x \<noteq> None) then Some x else None)"
  using assms by (cases x) (auto simp: field_of_def required_def optional_def)

definition fields_ok :: "host \<Rightarrow> exec_result \<Rightarrow> bool" where
  "fields_ok h r \<longleftrightarrow> is_uuid h (xr_intentId r) \<and> nonempty (xr_idempotencyKey r) \<and>
     is_datetime h (xr_executedAt r) \<and> pred_option nonempty (xr_orderId r) \<and>
     pred_option nonempty (xr_transactionHash r) \<and> pred_option order_status_ok (xr_orderStatus r) \<and>
     pred_option (reconciliation_ok h) (xr_reconciliation r) \<and>
     pred_option (sim_evidence_ok h) (xr_simulationEvidence r) \<and>
     pred_option nonempty (xr_rejectionReason r) \<and>
     (xr_status r = Executed \<longrightarrow> xr_revalidationPassed r)"

lemma result_ok_iff: "result_ok h r \<longleftrightarrow> fields_ok h r \<and> list_ex (fits r) result_variants"
  by (simp add: result_ok_def fields_ok_def conj_assoc)

definition sound_variant :: "variant \<Rightarrow> bool" where
  "sound_variant va \<longleftrightarrow> set (va_required va) \<union> set (va_optional va) \<subseteq> set evidence_fields \<and>
     (va_kind va = None \<longleftrightarrow> va_status va \<noteq> Executed)"

lemma result_variants_sound: "list_all sound_variant result_variants"
  by (simp add: result_variants_def sound_variant_def evidence_fields_def)

lemma keys_reordered:
  "{i, k, s} \<union> (K \<union> (A \<union> (B \<union> (C \<union> (D \<union> (E \<union> (F \<union> {r, e}))))))) =
     {i, k, r, e, s} \<union> (A \<union> (B \<union> (C \<union> (D \<union> (E \<union> F))))) \<union> K"
  by blast

lemma keys_within:
  assumes "A \<inter> (B \<union> {k}) = {}" "k \<notin> R \<union> B"
  shows "B \<union> A \<union> (if p then {} else {k}) \<subseteq> B \<union> (if q then {} else {k}) \<union> R \<longleftrightarrow>
     A \<subseteq> R \<and> (\<not> p \<longrightarrow> \<not> q)"
  using assms by auto

lemma result_keys:
  "fst ` set (members (result_json r)) = set base_keys \<union> set (present r) \<union>
     (if xr_executionKind r = None then {} else {''executionKind''})"
  by (simp only: result_json_def members.simps present_def base_keys_def set_append set_map
      image_Un keys_opt_field list.set image_insert image_empty fst_conv) (rule keys_reordered)

lemma present_evidence: "set (present r) \<subseteq> set evidence_fields"
  unfolding present_def set_map set_append image_Un keys_opt_field
  by (simp add: evidence_fields_def)

lemma strict_result:
  assumes "sound_variant va"
  shows "strict (variant_keys va) (members (result_json r)) \<longleftrightarrow>
    set (present r) \<subseteq> set (va_required va) \<union> set (va_optional va) \<and>
    (xr_executionKind r \<noteq> None \<longrightarrow> va_kind va \<noteq> None)"
proof -
  have "set (present r) \<subseteq> set evidence_fields" by (rule present_evidence)
  moreover have "set evidence_fields \<inter> (set base_keys \<union> {''executionKind''}) = {}"
    "''executionKind'' \<notin> set base_keys"
    by (simp_all add: evidence_fields_def base_keys_def)
  ultimately have "set (present r) \<inter> (set base_keys \<union> {''executionKind''}) = {}"
    "''executionKind'' \<notin> (set (va_required va) \<union> set (va_optional va)) \<union> set base_keys"
    using assms unfolding sound_variant_def by blast+
  note within = keys_within [OF this, of "xr_executionKind r = None" "va_kind va = None"]
  have "strict (variant_keys va) (members (result_json r)) \<longleftrightarrow>
      fst ` set (members (result_json r)) \<subseteq> set (variant_keys va)"
    by (auto simp: strict_def list_all_iff)
  also have "set (variant_keys va) = set base_keys \<union> (if va_kind va = None then {} else
      {''executionKind''}) \<union> (set (va_required va) \<union> set (va_optional va))"
    by (simp add: variant_keys_def Un_assoc)
  finally show ?thesis unfolding result_keys within .
qed

lemma present_iff:
  "''orderId'' \<in> set (present r) \<longleftrightarrow> xr_orderId r \<noteq> None"
  "''transactionHash'' \<in> set (present r) \<longleftrightarrow> xr_transactionHash r \<noteq> None"
  "''orderStatus'' \<in> set (present r) \<longleftrightarrow> xr_orderStatus r \<noteq> None"
  "''reconciliation'' \<in> set (present r) \<longleftrightarrow> xr_reconciliation r \<noteq> None"
  "''simulationEvidence'' \<in> set (present r) \<longleftrightarrow> xr_simulationEvidence r \<noteq> None"
  "''rejectionReason'' \<in> set (present r) \<longleftrightarrow> xr_rejectionReason r \<noteq> None"
  unfolding present_def set_map set_append image_Un keys_opt_field by simp_all

lemma bind_if: "(if c then Some x else None) \<bind> f = (if c then f x else None)"
  by simp

lemma if_if: "(if a then if b then x else y else y) = (if a \<and> b then x else y)"
  by simp

lemma if_option_cong:
  "a = b \<Longrightarrow> (a \<Longrightarrow> x = y) \<Longrightarrow> (if a then Some x else None) = (if b then Some y else None)"
  by simp

lemma disj_False: "(False \<or> False) = False"
  by simp

lemma parse_variant_json:
  assumes "sound_variant va"
  shows "parse_variant h (result_json r) va = (if fits r va \<and> fields_ok h r then Some r else None)"
proof (cases "strict (variant_keys va) (members (result_json r))")
  case False
  then have "\<not> fits r va" unfolding strict_result [OF assms] fits_def by auto
  with False show ?thesis by (simp add: parse_variant_def)
next
  case True
  let ?m = "map_of (members (result_json r))"
  have sub: "set (present r) \<subseteq> set (va_required va) \<union> set (va_optional va)"
    and kind: "xr_executionKind r \<noteq> None \<Longrightarrow> va_kind va \<noteq> None"
    using True unfolding strict_result [OF assms] by auto
  note in_present = present_iff [of r]
  have json: "sim_evidence_json x \<noteq> JUndef" "reconciliation_json y \<noteq> JUndef" for x y
    by (simp_all add: sim_evidence_json_def reconciliation_json_def)
  note field = field_of_json [where m = ?m and va = va]
  have f1: "field_of va ?m ''orderId'' (z_string nonempty) = (if pred_option nonempty (xr_orderId r) \<and>
      (''orderId'' \<in> set (va_required va) \<longrightarrow> xr_orderId r \<noteq> None) then Some (xr_orderId r) else None)"
    by (rule field [where f = JStr, OF result_members(5)]) (simp, simp, use in_present(1) sub in blast)
  have f2: "field_of va ?m ''transactionHash'' (z_string nonempty) =
      (if pred_option nonempty (xr_transactionHash r) \<and>
      (''transactionHash'' \<in> set (va_required va) \<longrightarrow> xr_transactionHash r \<noteq> None)
      then Some (xr_transactionHash r) else None)"
    by (rule field [where f = JStr, OF result_members(6)]) (simp, simp, use in_present(2) sub in blast)
  have f3: "field_of va ?m ''orderStatus'' parse_order_status =
      (if pred_option order_status_ok (xr_orderStatus r) \<and>
      (''orderStatus'' \<in> set (va_required va) \<longrightarrow> xr_orderStatus r \<noteq> None)
      then Some (xr_orderStatus r) else None)"
    by (rule field [where f = order_status_json, OF result_members(7)]) (simp, simp, use in_present(3) sub in blast)
  have f4: "field_of va ?m ''reconciliation'' (parse_reconciliation h) =
      (if pred_option (reconciliation_ok h) (xr_reconciliation r) \<and>
      (''reconciliation'' \<in> set (va_required va) \<longrightarrow> xr_reconciliation r \<noteq> None)
      then Some (xr_reconciliation r) else None)"
    by (rule field [where f = reconciliation_json, OF result_members(8)]) (simp, simp add: json, use in_present(4) sub in blast)
  have f5: "field_of va ?m ''simulationEvidence'' (parse_sim_evidence h) =
      (if pred_option (sim_evidence_ok h) (xr_simulationEvidence r) \<and>
      (''simulationEvidence'' \<in> set (va_required va) \<longrightarrow> xr_simulationEvidence r \<noteq> None)
      then Some (xr_simulationEvidence r) else None)"
    by (rule field [where f = sim_evidence_json, OF result_members(9)]) (simp, simp add: json, use in_present(5) sub in blast)
  have f6: "field_of va ?m ''rejectionReason'' (z_string nonempty) =
      (if pred_option nonempty (xr_rejectionReason r) \<and>
      (''rejectionReason'' \<in> set (va_required va) \<longrightarrow> xr_rejectionReason r \<noteq> None)
      then Some (xr_rejectionReason r) else None)"
    by (rule field [where f = JStr, OF result_members(10)]) (simp, simp, use in_present(6) sub in blast)
  have req: "set (va_required va) \<subseteq> set (present r) \<longleftrightarrow>
      (\<forall>k \<in> set evidence_fields. k \<in> set (va_required va) \<longrightarrow> k \<in> set (present r))"
    using assms unfolding sound_variant_def by blast
  have fits: "fits r va \<longleftrightarrow> va_status va = xr_status r \<and> va_kind va = xr_executionKind r \<and>
      (''orderId'' \<in> set (va_required va) \<longrightarrow> xr_orderId r \<noteq> None) \<and>
      (''transactionHash'' \<in> set (va_required va) \<longrightarrow> xr_transactionHash r \<noteq> None) \<and>
      (''orderStatus'' \<in> set (va_required va) \<longrightarrow> xr_orderStatus r \<noteq> None) \<and>
      (''reconciliation'' \<in> set (va_required va) \<longrightarrow> xr_reconciliation r \<noteq> None) \<and>
      (''simulationEvidence'' \<in> set (va_required va) \<longrightarrow> xr_simulationEvidence r \<noteq> None) \<and>
      (''rejectionReason'' \<in> set (va_required va) \<longrightarrow> xr_rejectionReason r \<noteq> None)"
    using sub unfolding fits_def req evidence_fields_def by (simp only: list.set ball_simps in_present
        simp_thms Un_empty_right insert_iff)
  have same: "xr_status r = va_status va \<Longrightarrow> xr_executionKind r = va_kind va \<Longrightarrow>
      \<lparr>xr_intentId = xr_intentId r, xr_idempotencyKey = xr_idempotencyKey r,
       xr_status = va_status va, xr_executionKind = va_kind va,
       xr_revalidationPassed = xr_revalidationPassed r, xr_executedAt = xr_executedAt r,
       xr_orderId = xr_orderId r, xr_transactionHash = xr_transactionHash r,
       xr_orderStatus = xr_orderStatus r, xr_reconciliation = xr_reconciliation r,
       xr_simulationEvidence = xr_simulationEvidence r,
       xr_rejectionReason = xr_rejectionReason r\<rparr> = r"
    by (rule exec_result.equality) simp_all
  have obj: "is_object (result_json r)" by (simp add: result_json_def)
  have executed: "va_kind va = None \<longleftrightarrow> va_status va \<noteq> Executed"
    using assms by (simp add: sound_variant_def)
  have exec_kind: "(case va_kind va of None \<Rightarrow> Some ()
      | Some k \<Rightarrow> if xr_revalidationPassed r
          then required ?m ''executionKind'' (z_literal (exec_kind_name k)) else None)
    = (if va_kind va = xr_executionKind r \<and> (va_kind va \<noteq> None \<longrightarrow> xr_revalidationPassed r)
       then Some () else None)"
    using kind by (cases "va_kind va"; cases "xr_executionKind r")
      (auto simp: required_def z_literal_def result_members simp del: exec_kind_name.simps)
  have base: "required ?m ''intentId'' (z_string (is_uuid h)) =
      (if is_uuid h (xr_intentId r) then Some (xr_intentId r) else None)"
    "required ?m ''idempotencyKey'' (z_string nonempty) =
      (if nonempty (xr_idempotencyKey r) then Some (xr_idempotencyKey r) else None)"
    "required ?m ''revalidationPassed'' z_bool =
      (if True then Some (xr_revalidationPassed r) else None)"
    "required ?m ''executedAt'' (z_string (is_datetime h)) =
      (if is_datetime h (xr_executedAt r) then Some (xr_executedAt r) else None)"
    "required ?m ''status'' (z_literal (exec_status_name (va_status va))) =
      (if va_status va = xr_status r then Some () else None)"
    by (auto simp: required_def z_literal_def result_members simp del: exec_status_name.simps)
  show ?thesis
    unfolding parse_variant_def Let_def
  proof (simp only: True obj base bind_if exec_kind f1 f2 f3 f4 f5 f6 if_if not_True_eq_False
      disj_False if_False, rule if_option_cong, goal_cases)
    case 1
    show ?case using executed unfolding fits fields_ok_def by argo
  next
    case 2
    then show ?case by (elim conjE) (rule same; simp only:)
  qed
qed

lemma first_some_variants:
  assumes "\<And>va. va \<in> set vas \<Longrightarrow> f va = (if P va then Some r else None)"
  shows "first_some f vas = (if list_ex P vas then Some r else None)"
  using assms by (induction vas) auto

lemma parse_result_json:
  "parse_result h (result_json r) = (if result_ok h r then Some r else None)"
proof -
  have "parse_variant h (result_json r) va = (if fits r va \<and> fields_ok h r then Some r else None)"
    if "va \<in> set result_variants" for va
    using that result_variants_sound by (intro parse_variant_json) (auto simp: list_all_iff)
  then have "parse_result h (result_json r) =
      (if list_ex (\<lambda>va. fits r va \<and> fields_ok h r) result_variants then Some r else None)"
    unfolding parse_result_def by (rule first_some_variants)
  also have "list_ex (\<lambda>va. fits r va \<and> fields_ok h r) result_variants \<longleftrightarrow> result_ok h r"
    by (auto simp: result_ok_iff list_ex_iff)
  finally show ?thesis .
qed

text \<open>What an accepted result says: executed results carry no rejection reason and passed
  revalidation; rejected and failed ones carry a reason and no evidence.\<close>

lemma present_only:
  assumes "set (present r) \<subseteq> set ks"
  shows "(xr_orderId r \<noteq> None \<longrightarrow> ''orderId'' \<in> set ks) \<and>
    (xr_transactionHash r \<noteq> None \<longrightarrow> ''transactionHash'' \<in> set ks) \<and>
    (xr_orderStatus r \<noteq> None \<longrightarrow> ''orderStatus'' \<in> set ks) \<and>
    (xr_reconciliation r \<noteq> None \<longrightarrow> ''reconciliation'' \<in> set ks) \<and>
    (xr_simulationEvidence r \<noteq> None \<longrightarrow> ''simulationEvidence'' \<in> set ks) \<and>
    (xr_rejectionReason r \<noteq> None \<longrightarrow> ''rejectionReason'' \<in> set ks)"
  using assms present_iff [of r] by blast

lemma failure_result_ok:
  assumes "xr_status r = Rejected \<or> xr_status r = Failed" "xr_executionKind r = None"
    "xr_orderId r = None" "xr_transactionHash r = None" "xr_orderStatus r = None"
    "xr_reconciliation r = None" "xr_simulationEvidence r = None"
    "xr_rejectionReason r = Some reason" "nonempty reason" "is_uuid h (xr_intentId r)"
    "nonempty (xr_idempotencyKey r)" "is_datetime h (xr_executedAt r)"
  shows "result_ok h r"
proof -
  have "present r = [''rejectionReason'']" using assms by (simp add: present_def opt_field_def)
  then show ?thesis using assms by (auto simp: result_ok_def result_variants_def fits_def)
qed

subsection \<open>What validation accepts\<close>

lemma z_string_SomeD: "z_string P v = Some s \<Longrightarrow> P s"
  by (cases v) (auto split: if_splits)

lemma z_number_SomeD: "z_number P v = Some x \<Longrightarrow> is_finite x \<and> P x"
  by (cases v) (auto split: if_splits)

lemma required_SomeD: "required m k d = Some x \<Longrightarrow> \<exists>v. d v = Some x"
  by (auto simp: required_def split: option.splits)

lemma optional_SomeD: "optional m k d = Some (Some x) \<Longrightarrow> \<exists>v. d v = Some x"
  by (auto simp: optional_def split: option.splits if_splits)

lemma required_stringD: "required m k (z_string P) = Some s \<Longrightarrow> P s"
  by (blast dest: required_SomeD z_string_SomeD)

lemma parse_order_status_ok: "parse_order_status v = Some s \<Longrightarrow> order_status_ok s"
  by (auto simp: parse_order_status_def Let_def bind_eq_Some_conv order_status_ok_def
      split: if_splits dest!: required_SomeD z_string_SomeD z_number_SomeD)

lemma strings_ok: "all_some (z_string P) xs = Some ys \<Longrightarrow> list_all P ys"
  by (induction xs arbitrary: ys) (auto simp: bind_eq_Some_conv dest: z_string_SomeD)

lemma parse_reconciliation_ok: "parse_reconciliation h v = Some r \<Longrightarrow> reconciliation_ok h r"
proof -
  assume "parse_reconciliation h v = Some r"
  then obtain m where "required m ''checkedAt'' (z_string (is_datetime h)) = Some (rc_checkedAt r)"
    "required m ''expected'' parse_order_status = Some (rc_expected r)"
    "optional m ''observed'' parse_order_status = Some (rc_observed r)"
    "required m ''discrepancies'' (\<lambda>v. case v of JArr xs \<Rightarrow> all_some (z_string nonempty) xs | _ \<Rightarrow> None) =
      Some (rc_discrepancies r)"
    by (auto simp: parse_reconciliation_def Let_def bind_eq_Some_conv split: if_splits)
  moreover from this(4) have "list_all nonempty (rc_discrepancies r)"
    by (auto dest!: required_SomeD strings_ok split: jsval.splits)
  moreover from calculation(3) have "pred_option order_status_ok (rc_observed r)"
    by (cases "rc_observed r") (auto dest!: optional_SomeD parse_order_status_ok)
  ultimately show ?thesis
    by (auto simp: reconciliation_ok_def dest: required_stringD
        dest!: required_SomeD [of m "''expected''"] parse_order_status_ok)
qed

lemma parse_sim_evidence_ok: "parse_sim_evidence h v = Some s \<Longrightarrow> sim_evidence_ok h s"
  by (auto simp: parse_sim_evidence_def Let_def bind_eq_Some_conv sim_evidence_ok_def
      pred_option_iff split: if_splits dest!: required_stringD)
    (auto dest!: optional_SomeD z_string_SomeD)

text \<open>A field: valid when present, present when required, absent when not allowed.\<close>

lemma field_of_SomeD:
  assumes "field_of va m k d = Some x" "\<forall>v y. d v = Some y \<longrightarrow> P y"
  shows "pred_option P x \<and> (k \<in> set (va_required va) \<longrightarrow> x \<noteq> None) \<and>
    (x \<noteq> None \<longrightarrow> k \<in> set (va_required va) \<union> set (va_optional va))"
proof (cases "k \<in> set (va_required va)")
  case True
  then obtain y where "x = Some y" "required m k d = Some y"
    using assms(1) by (auto simp: field_of_def)
  with assms(2) required_SomeD [of m k d y] True show ?thesis by auto
next
  case False
  with assms optional_SomeD [of m k d] show ?thesis
    by (cases x) (auto simp: field_of_def split: if_splits)
qed

lemma parse_variant_ok:
  assumes "parse_variant h v va = Some r" "sound_variant va"
  shows "fields_ok h r \<and> fits r va"
proof -
  let ?m = "map_of (members v)"
  have p: "required ?m ''intentId'' (z_string (is_uuid h)) = Some (xr_intentId r)"
    "required ?m ''idempotencyKey'' (z_string nonempty) = Some (xr_idempotencyKey r)"
    "required ?m ''executedAt'' (z_string (is_datetime h)) = Some (xr_executedAt r)"
    "xr_status r = va_status va" "xr_executionKind r = va_kind va"
    "va_kind va \<noteq> None \<longrightarrow> xr_revalidationPassed r"
    "field_of va ?m ''orderId'' (z_string nonempty) = Some (xr_orderId r)"
    "field_of va ?m ''transactionHash'' (z_string nonempty) = Some (xr_transactionHash r)"
    "field_of va ?m ''orderStatus'' parse_order_status = Some (xr_orderStatus r)"
    "field_of va ?m ''reconciliation'' (parse_reconciliation h) = Some (xr_reconciliation r)"
    "field_of va ?m ''simulationEvidence'' (parse_sim_evidence h) = Some (xr_simulationEvidence r)"
    "field_of va ?m ''rejectionReason'' (z_string nonempty) = Some (xr_rejectionReason r)"
    using assms(1) unfolding parse_variant_def Let_def
    by (auto simp: bind_eq_Some_conv split: if_splits option.splits)
  have f1: "pred_option (\<lambda>s. s \<noteq> []) (xr_orderId r) \<and>
      (''orderId'' \<in> set (va_required va) \<longrightarrow> xr_orderId r \<noteq> None) \<and>
      (xr_orderId r \<noteq> None \<longrightarrow> ''orderId'' \<in> set (va_required va) \<union> set (va_optional va))"
    by (rule field_of_SomeD [OF p(7)]) (blast dest: z_string_SomeD)
  have f2: "pred_option (\<lambda>s. s \<noteq> []) (xr_transactionHash r) \<and>
      (''transactionHash'' \<in> set (va_required va) \<longrightarrow> xr_transactionHash r \<noteq> None) \<and>
      (xr_transactionHash r \<noteq> None \<longrightarrow> ''transactionHash'' \<in> set (va_required va) \<union> set (va_optional va))"
    by (rule field_of_SomeD [OF p(8)]) (blast dest: z_string_SomeD)
  have f3: "pred_option (order_status_ok) (xr_orderStatus r) \<and>
      (''orderStatus'' \<in> set (va_required va) \<longrightarrow> xr_orderStatus r \<noteq> None) \<and>
      (xr_orderStatus r \<noteq> None \<longrightarrow> ''orderStatus'' \<in> set (va_required va) \<union> set (va_optional va))"
    by (rule field_of_SomeD [OF p(9)]) (blast dest: parse_order_status_ok)
  have f4: "pred_option (reconciliation_ok h) (xr_reconciliation r) \<and>
      (''reconciliation'' \<in> set (va_required va) \<longrightarrow> xr_reconciliation r \<noteq> None) \<and>
      (xr_reconciliation r \<noteq> None \<longrightarrow> ''reconciliation'' \<in> set (va_required va) \<union> set (va_optional va))"
    by (rule field_of_SomeD [OF p(10)]) (blast dest: parse_reconciliation_ok)
  have f5: "pred_option (sim_evidence_ok h) (xr_simulationEvidence r) \<and>
      (''simulationEvidence'' \<in> set (va_required va) \<longrightarrow> xr_simulationEvidence r \<noteq> None) \<and>
      (xr_simulationEvidence r \<noteq> None \<longrightarrow> ''simulationEvidence'' \<in> set (va_required va) \<union> set (va_optional va))"
    by (rule field_of_SomeD [OF p(11)]) (blast dest: parse_sim_evidence_ok)
  have f6: "pred_option (\<lambda>s. s \<noteq> []) (xr_rejectionReason r) \<and>
      (''rejectionReason'' \<in> set (va_required va) \<longrightarrow> xr_rejectionReason r \<noteq> None) \<and>
      (xr_rejectionReason r \<noteq> None \<longrightarrow> ''rejectionReason'' \<in> set (va_required va) \<union> set (va_optional va))"
    by (rule field_of_SomeD [OF p(12)]) (blast dest: z_string_SomeD)
  note f = f1 f2 f3 f4 f5 f6
  have executed: "xr_status r = Executed \<longrightarrow> xr_revalidationPassed r"
    using p(4,6) assms(2) by (auto simp: sound_variant_def)
  have "fields_ok h r"
    unfolding fields_ok_def
    using f [THEN conjunct1] executed required_stringD [OF p(1)] required_stringD [OF p(2)]
      required_stringD [OF p(3)] by (intro conjI)
  moreover have "set (va_required va) \<subseteq> set (present r)"
  proof
    fix k assume "k \<in> set (va_required va)"
    moreover from this have "k \<in> set evidence_fields" using assms(2) by (auto simp: sound_variant_def)
    ultimately show "k \<in> set (present r)"
      unfolding evidence_fields_def list.set insert_iff empty_iff
      using f [THEN conjunct2, THEN conjunct1] present_iff [of r] by (elim disjE) (simp_all only: simp_thms)
  qed
  moreover have "set (present r) \<subseteq> set (va_required va) \<union> set (va_optional va)"
  proof
    fix k assume k: "k \<in> set (present r)"
    then have "k \<in> set evidence_fields" using present_evidence by blast
    then have "k = ''orderId'' \<or> k = ''transactionHash'' \<or> k = ''orderStatus'' \<or>
        k = ''reconciliation'' \<or> k = ''simulationEvidence'' \<or> k = ''rejectionReason''"
      unfolding evidence_fields_def list.set insert_iff empty_iff by (simp only: simp_thms)
    then show "k \<in> set (va_required va) \<union> set (va_optional va)"
    proof (elim disjE)
      assume "k = ''orderId''"
      with k present_iff(1) f(1) show ?thesis by blast
    next
      assume "k = ''transactionHash''"
      with k present_iff(2) f(2) show ?thesis by blast
    next
      assume "k = ''orderStatus''"
      with k present_iff(3) f(3) show ?thesis by blast
    next
      assume "k = ''reconciliation''"
      with k present_iff(4) f(4) show ?thesis by blast
    next
      assume "k = ''simulationEvidence''"
      with k present_iff(5) f(5) show ?thesis by blast
    next
      assume "k = ''rejectionReason''"
      with k present_iff(6) f(6) show ?thesis by blast
    qed
  qed
  ultimately show ?thesis using p(4,5) by (simp add: fits_def)
qed

lemma first_some_SomeD: "first_some f xs = Some y \<Longrightarrow> \<exists>x \<in> set xs. f x = Some y"
  by (induction xs) (auto split: option.splits)

lemma parse_result_ok: "parse_result h v = Some r \<Longrightarrow> result_ok h r"
proof -
  assume "parse_result h v = Some r"
  then obtain va where va: "va \<in> set result_variants" "parse_variant h v va = Some r"
    unfolding parse_result_def by (blast dest!: first_some_SomeD)
  have "sound_variant va"
    using result_variants_sound va(1) unfolding list_all_iff by (rule bspec)
  from parse_variant_ok [OF va(2) this] show ?thesis
    unfolding result_ok_iff list_ex_iff using va(1) by blast
qed

end
