(* ===== verification/KillSwitch.thy ===== *)
theory KillSwitch
  imports ResultSchema Samples
begin

text \<open>
  The kill switch of \<open>packages/broker/src/kill-switch.ts\<close>, the reading of it in
  \<open>preflight.ts\<close> (\<open>getKillSwitchScopes\<close>, \<open>readKillSwitchBlocking\<close>) and the live-mode
  preflight check. The switch is a set of keys; what the broker relies on is the locale
  \<open>kill_switch_laws\<close>, interpreted on \<open>InMemoryKillSwitch\<close>.
\<close>

subsection \<open>Interfaces\<close>

datatype scope =
    GlobalScope
  | AgentScope string
  | AccountScope string
  | ExchangeScope string
  | ChainScope string

fun scope_json :: "scope \<Rightarrow> jsval" where
  "scope_json GlobalScope = JObj [(''type'', JStr ''global'')]"
| "scope_json (AgentScope p) = JObj [(''type'', JStr ''agent''), (''principal'', JStr p)]"
| "scope_json (AccountScope a) = JObj [(''type'', JStr ''account''), (''account'', JStr a)]"
| "scope_json (ExchangeScope e) = JObj [(''type'', JStr ''exchange''), (''exchange'', JStr e)]"
| "scope_json (ChainScope c) = JObj [(''type'', JStr ''chain''), (''chain'', JStr c)]"

record 'w audit_writer =
  aw_write :: "audit_event \<Rightarrow> ('w, unit) eff"
  aw_checkHealth :: "('w, unit) eff option"

subsection \<open>InMemoryKillSwitch\<close>

text \<open>The state is the set of active keys.\<close>

fun scope_key :: "scope \<Rightarrow> string" where
  "scope_key GlobalScope = ''global''"
| "scope_key (AgentScope p) = ''agent:'' @ p"
| "scope_key (AccountScope a) = ''account:'' @ a"
| "scope_key (ExchangeScope e) = ''exchange:'' @ e"
| "scope_key (ChainScope c) = ''chain:'' @ c"

definition im_isActive :: "string set \<Rightarrow> scope \<Rightarrow> bool" where
  "im_isActive act sc \<longleftrightarrow> ''global'' \<in> act \<or> scope_key sc \<in> act"

text \<open>The constructor: an audit writer needs an environment; without one it is \<open>dev\<close>.\<close>

definition new_kill_switch ::
  "'w audit_writer option \<Rightarrow> environment option \<Rightarrow> exn + ('w audit_writer option \<times> environment)" where
  "new_kill_switch audit envr =
     (if audit \<noteq> None \<and> envr = None
      then Inl (GenericError ''Kill switch audit requires an environment.'')
      else Inr (audit, case envr of Some e \<Rightarrow> e | None \<Rightarrow> Dev))"

definition on_world :: "('w, 'a) eff \<Rightarrow> ('s \<times> 'w, 'a) eff" where
  "on_world m sw = (case sw of (s, w) \<Rightarrow> (case m w of (r, w') \<Rightarrow> (r, (s, w'))))"

definition activation_event :: "environment \<Rightarrow> string \<Rightarrow> scope \<Rightarrow> audit_event" where
  "activation_event envr uuid sc =
     \<lparr>ae_eventId = None, ae_eventType = ''killswitch.activated'', ae_environment = envr,
      ae_intentId = None, ae_principal = (case sc of AgentScope p \<Rightarrow> Some p | _ \<Rightarrow> None),
      ae_correlationId = uuid, ae_data = JObj [(''scope'', scope_json sc)], ae_extra = []\<rparr>"

text \<open>\<open>activate\<close> stops first and audits afterwards; \<open>uuid\<close> is \<open>randomUUID\<close>.\<close>

definition im_activate ::
  "'w audit_writer option \<Rightarrow> environment \<Rightarrow> ('w, string) eff \<Rightarrow> scope \<Rightarrow>
   (string set \<times> 'w, unit) eff" where
  "im_activate audit envr uuid sc =
     andthen (modify_state (\<lambda>(act, w). (insert (scope_key sc) act, w))) (\<lambda>_.
     (case audit of None \<Rightarrow> ret ()
      | Some a \<Rightarrow> try_catch
          (andthen (on_world uuid) (\<lambda>u. on_world (aw_write a (activation_event envr u sc))))
          (\<lambda>err. throw (KillSwitchAuditError err))))"

definition im_deactivate :: "scope \<Rightarrow> string set \<Rightarrow> string set" where
  "im_deactivate sc act = act - {scope_key sc}"

lemma scope_key_inj [simp]: "scope_key a = scope_key b \<longleftrightarrow> a = b"
  by (cases a; cases b) auto

lemma scope_key_global [simp]: "scope_key sc = ''global'' \<longleftrightarrow> sc = GlobalScope"
  using scope_key_inj [of sc GlobalScope] by simp

subsection \<open>Reading the switch\<close>

definition getKillSwitchScopes :: "trading_intent \<Rightarrow> scope list" where
  "getKillSwitchScopes i =
     [GlobalScope, AgentScope (in_principal i)] @
     (case intent_exchange i of Some e \<Rightarrow> [ExchangeScope e] | None \<Rightarrow> []) @
     (case intent_account i of Some a \<Rightarrow> [AccountScope a] | None \<Rightarrow> []) @
     (case intent_chain i of Some c \<Rightarrow> [ChainScope (chain_name c)] | None \<Rightarrow> [])"

text \<open>\<open>isActive\<close> is read as \<open>unknown\<close>: any exception and any non-boolean is unreachable.\<close>

definition readKillSwitchBlocking ::
  "(scope \<Rightarrow> ('w, jsval) eff) \<Rightarrow> scope \<Rightarrow> trading_intent \<Rightarrow> ('w, bool) eff" where
  "readKillSwitchBlocking isActive sc i =
     andthen (try_catch (isActive sc) (\<lambda>_. throw KillSwitchReachabilityError)) (\<lambda>v.
     case v of JBool b \<Rightarrow> ret (b \<and> intent_action i \<noteq> CancelOrder)
     | _ \<Rightarrow> throw KillSwitchReachabilityError)"

text \<open>A loop over scopes that stops at the first that blocks.\<close>

definition blocking_scope ::
  "(scope \<Rightarrow> ('w, jsval) eff) \<Rightarrow> trading_intent \<Rightarrow> scope list \<Rightarrow> ('w, scope option) eff" where
  "blocking_scope isActive i scs =
     find_effect (\<lambda>sc. andthen (readKillSwitchBlocking isActive sc i)
       (\<lambda>b. ret (if b then Some sc else None))) scs"

subsection \<open>Live-mode preflight\<close>

record preflight_check =
  pc_check :: string
  pc_passed :: bool
  pc_message :: "string option"

definition passed_check :: "string \<Rightarrow> preflight_check" where
  "passed_check c = \<lparr>pc_check = c, pc_passed = True, pc_message = None\<rparr>"

definition failed_check :: "string \<Rightarrow> string \<Rightarrow> preflight_check" where
  "failed_check c m = \<lparr>pc_check = c, pc_passed = False, pc_message = Some m\<rparr>"

definition preflight_check_json :: "preflight_check \<Rightarrow> jsval" where
  "preflight_check_json c = JObj ([(''check'', JStr (pc_check c)), (''passed'', JBool (pc_passed c))] @
     opt_field ''message'' JStr (pc_message c))"

record 'w live_store =
  ls_liveConfigured :: "('w, jsval) eff option"
  ls_checkHealth :: "('w, unit) eff option"

record 'w preflight_params =
  pp_audit :: "'w audit_writer"
  pp_isActive :: "scope \<Rightarrow> ('w, jsval) eff"
  pp_store :: "'w live_store option"
  pp_environment :: environment
  pp_intent :: trading_intent
  pp_correlationId :: string

definition checkKillSwitch :: "'w preflight_params \<Rightarrow> ('w, preflight_check) eff" where
  "checkKillSwitch p = try_catch
     (andthen (blocking_scope (pp_isActive p) (pp_intent p) (getKillSwitchScopes (pp_intent p)))
       (\<lambda>blocked. ret (case blocked of
           Some sc \<Rightarrow> failed_check ''kill_switch'' ''Kill switch is active.''
         | None \<Rightarrow> passed_check ''kill_switch'')))
     (\<lambda>_. ret (failed_check ''kill_switch'' ''Kill switch is not reachable.''))"

definition checkAudit :: "'w preflight_params \<Rightarrow> ('w, preflight_check) eff" where
  "checkAudit p = (case aw_checkHealth (pp_audit p) of
     None \<Rightarrow> ret (failed_check ''audit'' ''Audit writer health check is not available.'')
   | Some health \<Rightarrow> try_catch (andthen health (\<lambda>_. ret (passed_check ''audit'')))
       (\<lambda>_. ret (failed_check ''audit'' ''Audit writer health check failed.'')))"

definition checkApproval :: "'w preflight_params \<Rightarrow> ('w, preflight_check) eff" where
  "checkApproval p = (case Option.bind (pp_store p) ls_checkHealth of
     None \<Rightarrow> ret (failed_check ''approval'' ''Approval store health check is not available.'')
   | Some health \<Rightarrow> try_catch
       (andthen (case Option.bind (pp_store p) ls_liveConfigured of
           None \<Rightarrow> ret JUndef | Some live \<Rightarrow> live) (\<lambda>live.
        if live \<noteq> JBool True
        then ret (failed_check ''approval''
          ''Approval store is not explicitly configured for live trading.'')
        else andthen health (\<lambda>_. ret (passed_check ''approval''))))
       (\<lambda>_. ret (failed_check ''approval'' ''Approval store health check failed.'')))"

definition writeSummary ::
  "'w preflight_params \<Rightarrow> bool \<Rightarrow> preflight_check list \<Rightarrow> ('w, bool) eff" where
  "writeSummary p passed checks =
     (if pp_correlationId p = [] then ret False
      else try_catch
        (andthen (aw_write (pp_audit p)
          \<lparr>ae_eventId = None, ae_eventType = ''broker.preflight'',
           ae_environment = pp_environment p, ae_intentId = Some (in_intentId (pp_intent p)),
           ae_principal = Some (in_principal (pp_intent p)), ae_correlationId = pp_correlationId p,
           ae_data = JObj [(''passed'', JBool passed),
             (''checks'', JArr (map preflight_check_json checks))], ae_extra = []\<rparr>) (\<lambda>_. ret True))
        (\<lambda>_. ret False))"

fun find_index :: "('a \<Rightarrow> bool) \<Rightarrow> 'a list \<Rightarrow> nat option" where
  "find_index P [] = None"
| "find_index P (x # xs) = (if P x then Some 0 else map_option Suc (find_index P xs))"

definition recordFailedAuditCheck ::
  "preflight_check list \<Rightarrow> string \<Rightarrow> preflight_check list" where
  "recordFailedAuditCheck checks m =
     (case find_index (\<lambda>c. pc_check c = ''audit'') checks of
        None \<Rightarrow> checks @ [failed_check ''audit'' m]
      | Some n \<Rightarrow> if pc_passed (checks ! n) then checks[n := failed_check ''audit'' m] else checks)"

definition all_passed :: "preflight_check list \<Rightarrow> bool" where
  "all_passed cs \<longleftrightarrow> list_all pc_passed cs"

definition run_preflight :: "'w preflight_params \<Rightarrow> ('w, bool \<times> preflight_check list) eff" where
  "run_preflight p =
     andthen (checkKillSwitch p) (\<lambda>k.
     andthen (checkAudit p) (\<lambda>a.
     andthen (checkApproval p) (\<lambda>s.
     let checks = [k, a, s] in
     andthen (writeSummary p (all_passed checks) checks) (\<lambda>written.
     let checks' = (if written then checks
       else recordFailedAuditCheck checks ''Audit preflight summary could not be written.'') in
     ret (all_passed checks', checks')))))"

subsection \<open>What the broker relies on\<close>

datatype switch_op = Activate scope | Deactivate scope

text \<open>
  A switch keeps the set of stopped scopes; a stopped global scope stops every scope.
\<close>

locale kill_switch_laws =
  fixes stopped :: "'s \<Rightarrow> scope \<Rightarrow> bool"
    and is_active :: "'s \<Rightarrow> scope \<Rightarrow> bool"
    and activate :: "scope \<Rightarrow> 's \<Rightarrow> 's"
    and deactivate :: "scope \<Rightarrow> 's \<Rightarrow> 's"
  assumes active_iff: "is_active s sc \<longleftrightarrow> stopped s GlobalScope \<or> stopped s sc"
    and stopped_activate: "stopped (activate sc s) sc' \<longleftrightarrow> sc' = sc \<or> stopped s sc'"
    and stopped_deactivate: "stopped (deactivate sc s) sc' \<longleftrightarrow> sc' \<noteq> sc \<and> stopped s sc'"
begin

definition apply_op :: "switch_op \<Rightarrow> 's \<Rightarrow> 's" where
  "apply_op opr s = (case opr of Activate sc \<Rightarrow> activate sc s | Deactivate sc \<Rightarrow> deactivate sc s)"

lemma stays_stopped:
  "stopped s sc \<Longrightarrow> Deactivate sc \<notin> set ops \<Longrightarrow> stopped (fold apply_op ops s) sc"
proof (induction ops arbitrary: s)
  case (Cons opr ops)
  have "stopped (apply_op opr s) sc"
    using Cons.prems
    by (cases opr) (auto simp: apply_op_def stopped_activate stopped_deactivate)
  with Cons show ?case by simp
qed simp

lemma activation_holds:
  assumes "Deactivate sc \<notin> set ops"
  shows "is_active (fold apply_op ops (activate sc s)) sc"
  using stays_stopped [OF _ assms, of "activate sc s"] by (simp add: active_iff stopped_activate)

lemma global_activation_holds:
  assumes "Deactivate GlobalScope \<notin> set ops"
  shows "is_active (fold apply_op ops (activate GlobalScope s)) sc"
  using stays_stopped [OF _ assms, of "activate GlobalScope s"]
  by (simp add: active_iff stopped_activate)

end

interpretation im: kill_switch_laws
  "\<lambda>act sc. scope_key sc \<in> act" im_isActive "\<lambda>sc act. insert (scope_key sc) act" im_deactivate
  by unfold_locales (auto simp: im_isActive_def im_deactivate_def)

text \<open>Reading the in-memory switch, whose state is the first component of the world.\<close>

definition im_reader :: "scope \<Rightarrow> (string set \<times> 'w, jsval) eff" where
  "im_reader sc = read_state (\<lambda>(act, w). JBool (im_isActive act sc))"

lemma read_im:
  "readKillSwitchBlocking im_reader sc i (act, w) =
     (Inr (im_isActive act sc \<and> intent_action i \<noteq> CancelOrder), (act, w))"
  by (simp add: readKillSwitchBlocking_def im_reader_def eff_defs)

lemma blocking_scope_im:
  "blocking_scope im_reader i scs (act, w) =
     (Inr (if intent_action i = CancelOrder then None else List.find (im_isActive act) scs), (act, w))"
proof (induction scs)
  case (Cons sc scs)
  then show ?case
    by (simp add: blocking_scope_def andthen_def read_im)
qed (simp add: blocking_scope_def)

lemma activate_stops:
  "fst (snd (im_activate audit envr uuid sc (act, w))) = insert (scope_key sc) act"
  by (auto simp: im_activate_def andthen_def modify_state_def try_catch_def on_world_def
      split: option.split prod.split sum.split)

subsection \<open>The preflight\<close>

lemma blocking_scope_clear:
  assumes "blocking_scope isActive i scs w = (Inr None, w')" "sc \<in> set scs"
  shows "\<exists>w1 w2 b. isActive sc w1 = (Inr (JBool b), w2) \<and> (b \<longrightarrow> intent_action i = CancelOrder)"
  using assms
proof (induction scs arbitrary: w)
  case (Cons x scs)
  from Cons.prems(1) obtain w2 b where x: "isActive x w = (Inr (JBool b), w2)"
    "b \<longrightarrow> intent_action i = CancelOrder" "blocking_scope isActive i scs w2 = (Inr None, w')"
    by (auto simp: blocking_scope_def readKillSwitchBlocking_def eff_defs
        split: prod.splits sum.splits jsval.splits if_splits option.splits)
  then show ?case using Cons by (cases "sc = x") auto
qed simp

lemma checkApproval_outcome:
  assumes "checkApproval p w = (Inr c, w')"
  shows "(pc_passed c \<longleftrightarrow> c = passed_check ''approval'') \<and>
    (pc_passed c \<longrightarrow> (\<exists>st live health v1 v2 v3 v4. pp_store p = Some st \<and>
       ls_liveConfigured st = Some live \<and> ls_checkHealth st = Some health \<and>
       live v1 = (Inr (JBool True), v2) \<and> health v3 = (Inr (), v4)))"
proof (cases "pp_store p")
  case (Some st)
  note st = Some
  show ?thesis
  proof (cases "ls_checkHealth st")
    case (Some health)
    note health = Some
    show ?thesis
    proof (cases "ls_liveConfigured st")
      case (Some live)
      obtain r v where live: "live w = (r, v)" by fastforce
      obtain r' v' where hv: "health v = (r', v')" by fastforce
      consider e where "r = Inl e" | x where "r = Inr x" "x \<noteq> JBool True"
        | e where "r = Inr (JBool True)" "r' = Inl e" | "r = Inr (JBool True)" "r' = Inr ()"
        by (cases r; cases r') auto
      then show ?thesis
      proof cases
        case 4
        then have "c = passed_check ''approval''"
          using assms st health Some live hv by (simp add: checkApproval_def eff_defs)
        then show ?thesis using st health Some live hv 4 by (force simp: passed_check_def)
      qed (use assms st health Some live hv in
          \<open>auto simp: checkApproval_def eff_defs failed_check_def passed_check_def\<close>)
    qed (use assms st health in
        \<open>auto simp: checkApproval_def eff_defs failed_check_def passed_check_def\<close>)
  qed (use assms st in \<open>auto simp: checkApproval_def failed_check_def passed_check_def\<close>)
qed (use assms in \<open>auto simp: checkApproval_def failed_check_def passed_check_def\<close>)

lemma recordFailed_not_passed:
  "\<not> all_passed (recordFailedAuditCheck [k, a, s] m)" if "pc_check a = ''audit''" "pc_check k \<noteq> ''audit''"
  using that by (auto simp: recordFailedAuditCheck_def all_passed_def failed_check_def)

lemma check_names:
  "checkKillSwitch p w = (Inr c, w') \<Longrightarrow> pc_check c = ''kill_switch''"
  "checkAudit p w = (Inr c, w') \<Longrightarrow> pc_check c = ''audit''"
  by (auto simp: checkKillSwitch_def checkAudit_def eff_defs failed_check_def passed_check_def
      split: prod.splits sum.splits option.splits)

lemma checks_return:
  "\<exists>c w'. checkKillSwitch p w = (Inr c, w')" "\<exists>c w'. checkAudit p w = (Inr c, w')"
  "\<exists>c w'. checkApproval p w = (Inr c, w')" "\<exists>b w'. writeSummary p x cs w = (Inr b, w')"
  by (auto simp: checkKillSwitch_def checkAudit_def checkApproval_def writeSummary_def eff_defs
      split: prod.splits sum.splits option.splits)

lemma run_preflight_eq:
  obtains k w1 a w2 s w3 written where
    "checkKillSwitch p w = (Inr k, w1)" "checkAudit p w1 = (Inr a, w2)"
    "checkApproval p w2 = (Inr s, w3)"
    "writeSummary p (all_passed [k, a, s]) [k, a, s] w3 = (Inr written, snd (run_preflight p w))"
    "fst (run_preflight p w) = Inr (all_passed [k, a, s] \<and> written,
       if written then [k, a, s]
       else recordFailedAuditCheck [k, a, s] ''Audit preflight summary could not be written.'')"
proof -
  obtain k w1 where 1: "checkKillSwitch p w = (Inr k, w1)" using checks_return(1) [of p w] by blast
  obtain a w2 where 2: "checkAudit p w1 = (Inr a, w2)" using checks_return(2) [of p w1] by blast
  obtain s w3 where 3: "checkApproval p w2 = (Inr s, w3)" using checks_return(3) [of p w2] by blast
  obtain b w4 where 4: "writeSummary p (all_passed [k, a, s]) [k, a, s] w3 = (Inr b, w4)"
    using checks_return(4) [of p _ _ w3] by blast
  have "\<not> all_passed (recordFailedAuditCheck [k, a, s] m)" for m
    using check_names(1) [OF 1] check_names(2) [OF 2] by (intro recordFailed_not_passed) simp_all
  then show ?thesis using that [OF 1 2 3] 1 2 3 4
    by (simp add: run_preflight_def andthen_def Let_def)
qed

subsection \<open>Properties\<close>

text \<open>C5. A stop holds: once \<open>activate\<close> was called for a scope of an intent (even if its
  audit failed), reading the in-memory switch reports a blocking scope for the intent through
  every later sequence of activations and deactivations that does not deactivate that scope,
  unless the intent is a cancellation, which is never blocked by a known stop.\<close>

theorem kill_switch_stop_holds:
  assumes "sc \<in> set (getKillSwitchScopes i)" "Deactivate sc \<notin> set ops"
    and "act = fst (snd (im_activate audit envr uuid sc s))"
  shows "blocking_scope im_reader i (getKillSwitchScopes i) (fold im.apply_op ops act, w) =
     (Inr (if intent_action i = CancelOrder then None
           else List.find (im_isActive (fold im.apply_op ops act)) (getKillSwitchScopes i)),
      (fold im.apply_op ops act, w)) \<and>
    List.find (im_isActive (fold im.apply_op ops act)) (getKillSwitchScopes i) \<noteq> None"
proof
  show "blocking_scope im_reader i (getKillSwitchScopes i) (fold im.apply_op ops act, w) =
     (Inr (if intent_action i = CancelOrder then None
           else List.find (im_isActive (fold im.apply_op ops act)) (getKillSwitchScopes i)),
      (fold im.apply_op ops act, w))"
    by (rule blocking_scope_im)
  have "act = insert (scope_key sc) (fst s)"
    unfolding assms(3) by (cases s) (simp add: activate_stops)
  with im.activation_holds [OF assms(2)] have "im_isActive (fold im.apply_op ops act) sc" by simp
  with assms(1) show "List.find (im_isActive (fold im.apply_op ops act)) (getKillSwitchScopes i) \<noteq> None"
    unfolding find_None_iff by blast
qed

theorem kill_switch_stop_holds_witness:
  "\<exists>sc. fst (blocking_scope im_reader sample_intent (getKillSwitchScopes sample_intent)
      (fold im.apply_op [Activate GlobalScope, Deactivate GlobalScope]
        (fst (snd (im_activate None Testnet (ret ''u'') (AccountScope ''acct'') ({}, ())))), ()))
    = Inr (Some sc)"
proof -
  have "AccountScope ''acct'' \<in> set (getKillSwitchScopes sample_intent)"
    by (simp add: getKillSwitchScopes_def sample_order_def)
  moreover have "Deactivate (AccountScope ''acct'') \<notin>
      set [Activate GlobalScope, Deactivate GlobalScope]" by simp
  ultimately have "AccountScope ''acct'' \<in> set (getKillSwitchScopes sample_intent)"
    "Deactivate (AccountScope ''acct'') \<notin> set [Activate GlobalScope, Deactivate GlobalScope]" .
  note holds = kill_switch_stop_holds [OF this refl, where audit = None and envr = Testnet
      and uuid = "ret ''u''" and s = "({}, ())"]
  show ?thesis unfolding conjunct1 [OF holds] using conjunct2 [OF holds] by auto
qed

text \<open>C6. The live-mode preflight always answers; it passes exactly when its three checks pass
  and the summary, which says that all of them passed, was written to the audit log under a
  nonempty correlation id. In that case every scope of the intent was read as a boolean that
  does not block it, the audit and approval health checks returned, and the approval store said
  that it is configured for live trading.\<close>

theorem preflight_passes_iff:
  "\<exists>passed cs w'. run_preflight p w = (Inr (passed, cs), w') \<and>
     (passed \<longleftrightarrow> (\<exists>w1 w2 w3.
        checkKillSwitch p w = (Inr (passed_check ''kill_switch''), w1) \<and>
        checkAudit p w1 = (Inr (passed_check ''audit''), w2) \<and>
        checkApproval p w2 = (Inr (passed_check ''approval''), w3) \<and>
        writeSummary p True [passed_check ''kill_switch'', passed_check ''audit'',
          passed_check ''approval''] w3 = (Inr True, w'))) \<and>
     (passed \<longrightarrow> pp_correlationId p \<noteq> [] \<and>
        (\<forall>sc \<in> set (getKillSwitchScopes (pp_intent p)). \<exists>v1 v2 b.
           pp_isActive p sc v1 = (Inr (JBool b), v2) \<and>
           (b \<longrightarrow> intent_action (pp_intent p) = CancelOrder)) \<and>
        (\<exists>health v1 v2. aw_checkHealth (pp_audit p) = Some health \<and> health v1 = (Inr (), v2)) \<and>
        (\<exists>st live health v1 v2 v3 v4. pp_store p = Some st \<and> ls_liveConfigured st = Some live \<and>
           ls_checkHealth st = Some health \<and> live v1 = (Inr (JBool True), v2) \<and>
           health v3 = (Inr (), v4)))"
proof -
  obtain k w1 a w2 s w3 written where run: "checkKillSwitch p w = (Inr k, w1)"
    "checkAudit p w1 = (Inr a, w2)" "checkApproval p w2 = (Inr s, w3)"
    "writeSummary p (all_passed [k, a, s]) [k, a, s] w3 = (Inr written, snd (run_preflight p w))"
    "fst (run_preflight p w) = Inr (all_passed [k, a, s] \<and> written,
       if written then [k, a, s]
       else recordFailedAuditCheck [k, a, s] ''Audit preflight summary could not be written.'')"
    by (rule run_preflight_eq)
  have k: "pc_passed k \<longleftrightarrow> k = passed_check ''kill_switch''"
    "pc_passed k \<Longrightarrow> \<exists>w'. blocking_scope (pp_isActive p) (pp_intent p)
       (getKillSwitchScopes (pp_intent p)) w = (Inr None, w')"
    using run(1) by (auto simp: checkKillSwitch_def eff_defs failed_check_def passed_check_def
        split: prod.splits sum.splits option.splits)
  have a: "pc_passed a \<longleftrightarrow> a = passed_check ''audit''"
    "pc_passed a \<Longrightarrow> \<exists>health v1 v2. aw_checkHealth (pp_audit p) = Some health \<and> health v1 = (Inr (), v2)"
    using run(2) by (auto simp: checkAudit_def eff_defs failed_check_def passed_check_def
        split: prod.splits sum.splits option.splits)
  have s: "pc_passed s \<longleftrightarrow> s = passed_check ''approval''"
    "pc_passed s \<Longrightarrow> \<exists>st live health v1 v2 v3 v4. pp_store p = Some st \<and>
       ls_liveConfigured st = Some live \<and> ls_checkHealth st = Some health \<and>
       live v1 = (Inr (JBool True), v2) \<and> health v3 = (Inr (), v4)"
    using checkApproval_outcome [OF run(3)] by blast+
  have passed: "pc_passed (passed_check c)" for c by (simp add: passed_check_def)
  have w: "written \<Longrightarrow> pp_correlationId p \<noteq> []"
    using run(4) by (auto simp: writeSummary_def split: if_splits)
  have scopes: "pc_passed k \<Longrightarrow> \<forall>sc \<in> set (getKillSwitchScopes (pp_intent p)). \<exists>v1 v2 b.
     pp_isActive p sc v1 = (Inr (JBool b), v2) \<and> (b \<longrightarrow> intent_action (pp_intent p) = CancelOrder)"
  proof
    fix sc
    assume "pc_passed k" and sc: "sc \<in> set (getKillSwitchScopes (pp_intent p))"
    then obtain v where "blocking_scope (pp_isActive p) (pp_intent p)
       (getKillSwitchScopes (pp_intent p)) w = (Inr None, v)" using k(2) by blast
    then show "\<exists>v1 v2 b. pp_isActive p sc v1 = (Inr (JBool b), v2) \<and>
      (b \<longrightarrow> intent_action (pp_intent p) = CancelOrder)" using sc by (rule blocking_scope_clear)
  qed
  obtain r w' where "run_preflight p w = (r, w')" by fastforce
  then have eq: "run_preflight p w = (Inr (all_passed [k, a, s] \<and> written,
       if written then [k, a, s]
       else recordFailedAuditCheck [k, a, s] ''Audit preflight summary could not be written.''), w')"
    and w': "writeSummary p (all_passed [k, a, s]) [k, a, s] w3 = (Inr written, w')"
    using run(4,5) by simp_all
  have iff: "all_passed [k, a, s] \<and> written \<longleftrightarrow> (\<exists>w1 w2 w3.
      checkKillSwitch p w = (Inr (passed_check ''kill_switch''), w1) \<and>
      checkAudit p w1 = (Inr (passed_check ''audit''), w2) \<and>
      checkApproval p w2 = (Inr (passed_check ''approval''), w3) \<and>
      writeSummary p True [passed_check ''kill_switch'', passed_check ''audit'',
        passed_check ''approval''] w3 = (Inr True, w'))"
    using run(1-3) w' passed k(1) a(1) s(1) by (auto simp: all_passed_def)
  have rest: "pp_correlationId p \<noteq> [] \<and>
        (\<forall>sc \<in> set (getKillSwitchScopes (pp_intent p)). \<exists>v1 v2 b.
           pp_isActive p sc v1 = (Inr (JBool b), v2) \<and>
           (b \<longrightarrow> intent_action (pp_intent p) = CancelOrder)) \<and>
        (\<exists>health v1 v2. aw_checkHealth (pp_audit p) = Some health \<and> health v1 = (Inr (), v2)) \<and>
        (\<exists>st live health v1 v2 v3 v4. pp_store p = Some st \<and> ls_liveConfigured st = Some live \<and>
           ls_checkHealth st = Some health \<and> live v1 = (Inr (JBool True), v2) \<and>
           health v3 = (Inr (), v4))" if "all_passed [k, a, s] \<and> written"
  proof -
    from that have "pc_passed k" "pc_passed a" "pc_passed s" "written" by (simp_all add: all_passed_def)
    from w [OF this(4)] scopes [OF this(1)] a(2) [OF this(2)] s(2) [OF this(3)] show ?thesis
      by (intro conjI)
  qed
  show ?thesis by (intro exI conjI, rule eq, rule iff, intro impI, rule rest)
qed

definition sample_preflight :: "unit preflight_params" where
  "sample_preflight =
     \<lparr>pp_audit = \<lparr>aw_write = (\<lambda>e. ret ()), aw_checkHealth = Some (ret ())\<rparr>,
      pp_isActive = (\<lambda>sc. ret (JBool False)),
      pp_store = Some \<lparr>ls_liveConfigured = Some (ret (JBool True)), ls_checkHealth = Some (ret ())\<rparr>,
      pp_environment = CanaryLive, pp_intent = sample_intent, pp_correlationId = ''c1''\<rparr>"

theorem preflight_passes_iff_witness:
  "\<exists>cs w'. run_preflight sample_preflight () = (Inr (True, cs), w') \<and>
     pp_correlationId sample_preflight \<noteq> []"
proof -
  have run: "\<exists>cs. run_preflight sample_preflight () = (Inr (True, cs), ())"
    by (simp add: run_preflight_def sample_preflight_def checkKillSwitch_def blocking_scope_def
        readKillSwitchBlocking_def checkAudit_def checkApproval_def writeSummary_def Let_def
        getKillSwitchScopes_def eff_defs all_passed_def passed_check_def)
  then show ?thesis using preflight_passes_iff [of sample_preflight "()"] by auto
qed

end
