(* ===== verification/IdempotencyStore.thy ===== *)
theory IdempotencyStore
  imports ResultSchema Samples
begin

text \<open>
  The idempotency contract of the broker and its in-memory implementation
  (\<open>packages/broker/src/idempotency-store.ts\<close>, lines 1 to 164, and the helpers at its end).
  A promise is an identifier; \<open>settled\<close> says how it was settled, and settling twice has no
  effect. What the broker relies on is the locale \<open>idempotency_laws\<close> over the abstract slot of a
  scoped key: free, in flight, or done.
\<close>

subsection \<open>Keys and hashes\<close>

definition scopeIdempotencyKey :: "host \<Rightarrow> string \<Rightarrow> trading_intent \<Rightarrow> string" where
  "scopeIdempotencyKey h key i = stable_stringify h (JObj
     [(''key'', JStr key), (''principal'', JStr (in_principal i)),
      (''action'', JStr (action_name (intent_action i))), (''resource'', JStr (in_resource i))])"

definition hashIntentPayload :: "host \<Rightarrow> trading_intent \<Rightarrow> string" where
  "hashIntentPayload h i = sha256_hex h (stable_stringify h (intent_json i))"

definition hashPendingAudit :: "host \<Rightarrow> audit_event \<Rightarrow> string" where
  "hashPendingAudit h e = sha256_hex h (stable_stringify h (audit_event_json e))"

text \<open>\<open>terminalAuditEventId\<close>: a version-4 shaped identifier cut from a digest.\<close>

definition slice :: "nat \<Rightarrow> nat \<Rightarrow> 'a list \<Rightarrow> 'a list" where
  "slice a b s = take (b - a) (drop a s)"

definition terminalAuditEventId :: "host \<Rightarrow> trading_intent \<Rightarrow> string \<Rightarrow> string \<Rightarrow> string" where
  "terminalAuditEventId h i cid eventType =
     (let d = sha256_hex h (join '':'' [eventType, in_intentId i, in_idempotencyKey i, in_principal i,
        action_name (intent_action i), in_resource i, cid])
      in join ''-'' [slice 0 8 d, slice 8 12 d, ''4'' @ slice 13 16 d, ''8'' @ slice 17 20 d,
           slice 20 32 d])"

subsection \<open>Promises\<close>

type_synonym promise = nat

record promises =
  pr_next :: promise
  pr_settled :: "promise \<rightharpoonup> exn + exec_result"

definition new_promise :: "promises \<Rightarrow> promise \<times> promises" where
  "new_promise ps = (pr_next ps, ps\<lparr>pr_next := Suc (pr_next ps)\<rparr>)"

definition settle :: "promise \<Rightarrow> exn + exec_result \<Rightarrow> promises \<Rightarrow> promises" where
  "settle p v ps = (if pr_settled ps p = None
     then ps\<lparr>pr_settled := (pr_settled ps)(p \<mapsto> v)\<rparr> else ps)"

subsection \<open>InMemoryBrokerIdempotencyStore\<close>

text \<open>\<open>ce_waiter\<close> is the promise of \<open>completePending\<close> and \<open>abortPending\<close>, while they are set.\<close>

record cached_entry =
  ce_payloadHash :: string
  ce_result :: exec_result
  ce_pendingAudit :: "audit_event option"
  ce_pendingAuditHash :: "string option"
  ce_expiresAt :: "jsnum option"
  ce_waiter :: "promise option"

datatype im_entry = ImCached cached_entry | ImPending string promise

fun im_payloadHash :: "im_entry \<Rightarrow> string" where
  "im_payloadHash (ImCached c) = ce_payloadHash c"
| "im_payloadHash (ImPending ph p) = ph"

record im_store =
  im_ttlMs :: "jsnum option"
  im_entries :: "string \<rightharpoonup> im_entry"
  im_promises :: promises

definition new_im_store :: "jsnum option \<Rightarrow> exn + im_store" where
  "new_im_store ttl =
     (if pred_option (\<lambda>t. is_finite t \<and> num_less (Fin 0) t) ttl
      then Inr \<lparr>im_ttlMs = ttl, im_entries = (\<lambda>_. None),
        im_promises = \<lparr>pr_next = 0, pr_settled = (\<lambda>_. None)\<rparr>\<rparr>
      else Inl (GenericError ''Idempotency TTL must be a positive finite number of milliseconds.''))"

text \<open>\<open>pruneExpired\<close> has an empty body.\<close>

definition im_pruneExpired :: "im_store \<Rightarrow> im_store" where
  "im_pruneExpired st = st"

text \<open>What \<open>begin\<close> answers; the operations of a reservation follow with its scoped key and hash.\<close>

datatype 'p begun =
    Reserved
  | Cached exec_result "audit_event option"
  | Pending 'p

definition im_begin :: "host \<Rightarrow> string \<Rightarrow> trading_intent \<Rightarrow> im_store \<Rightarrow>
    (exn + promise begun) \<times> im_store" where
  "im_begin h key i st0 =
     (let st = im_pruneExpired st0;
          k = scopeIdempotencyKey h key i;
          ph = hashIntentPayload h i in
      case im_entries st k of
        Some entry \<Rightarrow>
          if im_payloadHash entry \<noteq> ph then (Inl (IdempotencyConflictError key), st)
          else (case entry of
              ImCached c \<Rightarrow> (Inr (Cached (ce_result c) (ce_pendingAudit c)), st)
            | ImPending _ p \<Rightarrow> (Inr (Pending p), st))
      | None \<Rightarrow> (case new_promise (im_promises st) of (p, ps) \<Rightarrow>
          (Inr Reserved, st\<lparr>im_entries := (im_entries st)(k \<mapsto> ImPending ph p), im_promises := ps\<rparr>)))"

text \<open>\<open>now\<close> is the clock that \<open>expiresAt\<close> is computed from.\<close>

definition im_complete :: "host \<Rightarrow> jsnum \<Rightarrow> string \<Rightarrow> string \<Rightarrow> exec_result \<Rightarrow> audit_event option \<Rightarrow>
    im_store \<Rightarrow> im_store" where
  "im_complete h now k ph r pa st =
     (case im_entries st k of
        Some (ImPending ph' p) \<Rightarrow>
          if ph' = ph then
            (let st' = st\<lparr>im_entries := (im_entries st)(k \<mapsto> ImCached
               \<lparr>ce_payloadHash = ph, ce_result = r, ce_pendingAudit = pa,
                ce_pendingAuditHash = map_option (hashPendingAudit h) pa,
                ce_expiresAt = map_option (num_add now) (im_ttlMs st), ce_waiter = Some p\<rparr>)\<rparr>
             in if pa = None then st'\<lparr>im_promises := settle p (Inr r) (im_promises st')\<rparr> else st')
          else st
      | _ \<Rightarrow> st)"

definition settle_waiter :: "promise option \<Rightarrow> exn + exec_result \<Rightarrow> promises \<Rightarrow> promises" where
  "settle_waiter w v ps = (case w of None \<Rightarrow> ps | Some p \<Rightarrow> settle p v ps)"

text \<open>The same closure in a fresh reservation and in a cached one.\<close>

definition im_completeAudit :: "string \<Rightarrow> string \<Rightarrow> im_store \<Rightarrow> im_store" where
  "im_completeAudit k ph st =
     (case im_entries st k of
        Some (ImCached c) \<Rightarrow>
          if ce_payloadHash c = ph
          then st\<lparr>im_entries := (im_entries st)(k \<mapsto>
                   ImCached (c\<lparr>ce_pendingAudit := None, ce_waiter := None\<rparr>)),
                 im_promises := settle_waiter (ce_waiter c) (Inr (ce_result c)) (im_promises st)\<rparr>
          else st
      | _ \<Rightarrow> st)"

definition im_failAudit :: "string \<Rightarrow> string \<Rightarrow> exn \<Rightarrow> im_store \<Rightarrow> im_store" where
  "im_failAudit k ph e st =
     (case im_entries st k of
        Some (ImCached c) \<Rightarrow>
          if ce_payloadHash c = ph
          then st\<lparr>im_entries := (im_entries st)(k \<mapsto> ImCached (c\<lparr>ce_waiter := None\<rparr>)),
                 im_promises := settle_waiter (ce_waiter c) (Inl e) (im_promises st)\<rparr>
          else st
      | _ \<Rightarrow> st)"

definition im_abort :: "string \<Rightarrow> string \<Rightarrow> exn \<Rightarrow> im_store \<Rightarrow> im_store" where
  "im_abort k ph e st =
     (case im_entries st k of
        Some (ImPending ph' p) \<Rightarrow>
          if ph' = ph
          then st\<lparr>im_entries := (im_entries st)(k := None),
                 im_promises := settle p (Inl e) (im_promises st)\<rparr>
          else st
      | _ \<Rightarrow> st)"

subsection \<open>The contract\<close>

text \<open>The abstract slot of a scoped key; \<open>Unreadable\<close> is a slot of a store that cannot be read.\<close>

datatype slot =
    Free
  | InFlight string
  | Done string exec_result
  | Unreadable

datatype store_op =
    OpBegin string trading_intent
  | OpComplete string string exec_result "audit_event option"
  | OpCompleteAudit string string
  | OpFailAudit string string exn
  | OpAbort string string exn

text \<open>
  The specification of one operation on the slots: the store never forgets a completed entry, a
  reservation is granted only for a free slot, and only the payload it was granted for can move it.
\<close>

fun spec_slot :: "(string \<Rightarrow> trading_intent \<Rightarrow> string) \<Rightarrow> (trading_intent \<Rightarrow> string) \<Rightarrow> store_op \<Rightarrow>
    string \<Rightarrow> slot \<Rightarrow> slot" where
  "spec_slot sk hp (OpBegin key i) k s =
     (if k = sk key i \<and> s = Free then InFlight (hp i) else s)"
| "spec_slot sk hp (OpComplete k' ph r pa) k s =
     (if k = k' \<and> s = InFlight ph then Done ph r else s)"
| "spec_slot sk hp (OpCompleteAudit k' ph) k s = s"
| "spec_slot sk hp (OpFailAudit k' ph e) k s = s"
| "spec_slot sk hp (OpAbort k' ph e) k s =
     (if k = k' \<and> s = InFlight ph then Free else s)"

fun spec_begun :: "string \<Rightarrow> string \<Rightarrow> slot \<Rightarrow> 'p begun option \<Rightarrow> bool" where
  "spec_begun key ph Free ans \<longleftrightarrow> ans = Some Reserved"
| "spec_begun key ph (InFlight ph') ans \<longleftrightarrow>
     (if ph = ph' then (\<exists>p. ans = Some (Pending p)) else ans = None)"
| "spec_begun key ph (Done ph' r) ans \<longleftrightarrow>
     (if ph = ph' then (\<exists>pa. ans = Some (Cached r pa)) else ans = None)"
| "spec_begun key ph Unreadable ans \<longleftrightarrow> ans = None"

text \<open>
  The safety half of the contract, which also holds for a store whose operations can fail: a key
  that is taken stays taken until a reservation of it is aborted, and a granted reservation found
  the key free and takes it. An operation of an implementation may carry more than the abstract one
  that \<open>op_of\<close> reads off it, or be none (the restart of a process).
\<close>

locale idempotency_safety =
  fixes free :: "'s \<Rightarrow> string \<Rightarrow> bool"
    and sk :: "string \<Rightarrow> trading_intent \<Rightarrow> string"
    and op_of :: "'o \<Rightarrow> store_op option"
    and granted :: "'o \<Rightarrow> 's \<Rightarrow> bool"
    and perform :: "'o \<Rightarrow> 's \<Rightarrow> 's"
  assumes stays_taken: "\<not> free s k \<Longrightarrow> (\<And>ph e. op_of opr \<noteq> Some (OpAbort k ph e)) \<Longrightarrow>
      \<not> free (perform opr s) k"
    and grant_begin: "granted opr s \<Longrightarrow> \<exists>key i. op_of opr = Some (OpBegin key i) \<and>
      free s (sk key i) \<and> \<not> free (perform opr s) (sk key i)"

locale idempotency_laws =
  fixes slot :: "'s \<Rightarrow> string \<Rightarrow> slot"
    and sk :: "string \<Rightarrow> trading_intent \<Rightarrow> string"
    and hp :: "trading_intent \<Rightarrow> string"
    and answer :: "string \<Rightarrow> trading_intent \<Rightarrow> 's \<Rightarrow> 'p begun option"
    and perform :: "store_op \<Rightarrow> 's \<Rightarrow> 's"
  assumes perform_slot: "slot (perform opr s) k = spec_slot sk hp opr k (slot s k)"
    and answer_slot: "spec_begun key (hp i) (slot s (sk key i)) (answer key i s)"
begin

lemma reserved_iff: "answer key i s = Some Reserved \<longleftrightarrow> slot s (sk key i) = Free"
  using answer_slot [of key i s] by (cases "slot s (sk key i)") (auto split: if_splits)

lemma done_stays: "slot s k = Done ph r \<Longrightarrow> slot (fold perform ops s) k = Done ph r"
proof (induction ops arbitrary: s)
  case (Cons opr ops)
  have "slot (perform opr s) k = Done ph r"
    using Cons.prems by (cases opr) (auto simp: perform_slot)
  with Cons.IH show ?case by simp
qed simp

text \<open>Every later request for the key gets the first result, or a conflict.\<close>

lemma replay:
  assumes "slot s (sk key i) = Done ph r"
  shows "\<exists>pa'. answer key i (fold perform ops s) =
     (if hp i = ph then Some (Cached r pa') else None)"
  using done_stays [OF assms, of ops] answer_slot [of key i "fold perform ops s"] by auto

text \<open>While a payload holds the slot, nobody else gets a reservation for it.\<close>

lemma held_exclusive:
  assumes "slot s (sk key i) = InFlight ph"
    and "\<forall>e. OpAbort (sk key i) ph e \<notin> set ops"
  shows "answer key i (fold perform ops s) \<noteq> Some Reserved"
proof -
  have "slot s (sk key i) \<noteq> Free \<and> (\<forall>ph'. slot s (sk key i) = InFlight ph' \<longrightarrow> ph' = ph) \<Longrightarrow>
      \<forall>e. OpAbort (sk key i) ph e \<notin> set ops \<Longrightarrow> slot (fold perform ops s) (sk key i) \<noteq> Free" for s
  proof (induction ops arbitrary: s)
    case (Cons opr ops)
    have "slot (perform opr s) (sk key i) \<noteq> Free \<and>
        (\<forall>ph'. slot (perform opr s) (sk key i) = InFlight ph' \<longrightarrow> ph' = ph)"
      using Cons.prems by (cases opr) (auto simp: perform_slot split: slot.splits if_splits)
    with Cons show ?case by simp
  qed simp
  then show ?thesis using assms by (simp add: reserved_iff)
qed

end

sublocale idempotency_laws \<subseteq> safe: idempotency_safety "\<lambda>s k. slot s k = Free" sk Some
  "\<lambda>opr s. \<exists>key i. opr = OpBegin key i \<and> answer key i s = Some Reserved" perform
proof
  fix s :: 's and k opr
  assume "slot s k \<noteq> Free" "\<And>ph e. Some opr \<noteq> Some (OpAbort k ph e)"
  then show "slot (perform opr s) k \<noteq> Free" by (cases opr) (auto simp: perform_slot)
qed (auto simp: perform_slot reserved_iff)

subsection \<open>The in-memory store meets the contract\<close>

definition im_slot :: "im_store \<Rightarrow> string \<Rightarrow> slot" where
  "im_slot st k = (case im_entries st k of None \<Rightarrow> Free
     | Some (ImPending ph p) \<Rightarrow> InFlight ph
     | Some (ImCached c) \<Rightarrow> Done (ce_payloadHash c) (ce_result c))"

fun im_perform :: "host \<Rightarrow> jsnum \<Rightarrow> store_op \<Rightarrow> im_store \<Rightarrow> im_store" where
  "im_perform h now (OpBegin key i) st = snd (im_begin h key i st)"
| "im_perform h now (OpComplete k ph r pa) st = im_complete h now k ph r pa st"
| "im_perform h now (OpCompleteAudit k ph) st = im_completeAudit k ph st"
| "im_perform h now (OpFailAudit k ph e) st = im_failAudit k ph e st"
| "im_perform h now (OpAbort k ph e) st = im_abort k ph e st"

definition im_answer :: "host \<Rightarrow> string \<Rightarrow> trading_intent \<Rightarrow> im_store \<Rightarrow> promise begun option" where
  "im_answer h key i st = (case fst (im_begin h key i st) of Inr b \<Rightarrow> Some b | Inl e \<Rightarrow> None)"

interpretation mem: idempotency_laws im_slot "scopeIdempotencyKey h" "hashIntentPayload h"
  "im_answer h" "im_perform h now" for h now
proof
  show "im_slot (im_perform h now opr st) k =
      spec_slot (scopeIdempotencyKey h) (hashIntentPayload h) opr k (im_slot st k)" for opr st k
    by (cases opr)
      (auto simp: im_slot_def im_begin_def im_pruneExpired_def new_promise_def Let_def
        im_complete_def im_completeAudit_def im_failAudit_def im_abort_def
        split: option.splits im_entry.splits if_splits)
  show "spec_begun key (hashIntentPayload h i) (im_slot st (scopeIdempotencyKey h key i))
      (im_answer h key i st)" for key i st
    by (auto simp: im_answer_def im_slot_def im_begin_def im_pruneExpired_def new_promise_def
        Let_def split: option.splits im_entry.splits if_splits)
qed

subsection \<open>Waiting requests are answered\<close>

text \<open>
  Well-formed stores: every pending entry has its own unsettled promise, and so has a cached one
  that still waits for its audit.
\<close>

definition entry_promise :: "im_entry \<Rightarrow> promise option" where
  "entry_promise e = (case e of ImPending ph p \<Rightarrow> Some p | ImCached c \<Rightarrow> ce_waiter c)"

definition unsettled :: "im_entry \<Rightarrow> promise option" where
  "unsettled e = (case e of ImPending ph p \<Rightarrow> Some p
     | ImCached c \<Rightarrow> if ce_pendingAudit c = None then None else ce_waiter c)"

definition im_wf :: "im_store \<Rightarrow> bool" where
  "im_wf st \<longleftrightarrow>
     (\<forall>k e p. im_entries st k = Some e \<and> entry_promise e = Some p \<longrightarrow> p < pr_next (im_promises st)) \<and>
     (\<forall>k e p. im_entries st k = Some e \<and> unsettled e = Some p \<longrightarrow>
        pr_settled (im_promises st) p = None) \<and>
     (\<forall>k l d e p. im_entries st k = Some d \<and> im_entries st l = Some e \<and>
        entry_promise d = Some p \<and> entry_promise e = Some p \<longrightarrow> k = l) \<and>
     (\<forall>p. pr_next (im_promises st) \<le> p \<longrightarrow> pr_settled (im_promises st) p = None)"

lemma im_wfD:
  assumes "im_wf st"
  shows "im_entries st k = Some e \<Longrightarrow> entry_promise e = Some p \<Longrightarrow> p < pr_next (im_promises st)"
    and "im_entries st k = Some e \<Longrightarrow> unsettled e = Some p \<Longrightarrow> pr_settled (im_promises st) p = None"
    and "im_entries st k = Some d \<Longrightarrow> im_entries st l = Some e \<Longrightarrow> entry_promise d = Some p \<Longrightarrow>
      entry_promise e = Some p \<Longrightarrow> k = l"
    and "pr_next (im_promises st) \<le> p \<Longrightarrow> pr_settled (im_promises st) p = None"
  using assms unfolding im_wf_def by blast+

lemma im_wfI:
  assumes "\<And>k e p. im_entries st k = Some e \<Longrightarrow> entry_promise e = Some p \<Longrightarrow>
      p < pr_next (im_promises st)"
    and "\<And>k e p. im_entries st k = Some e \<Longrightarrow> unsettled e = Some p \<Longrightarrow>
      pr_settled (im_promises st) p = None"
    and "\<And>k l d e p. im_entries st k = Some d \<Longrightarrow> im_entries st l = Some e \<Longrightarrow>
      entry_promise d = Some p \<Longrightarrow> entry_promise e = Some p \<Longrightarrow> k = l"
    and "\<And>p. pr_next (im_promises st) \<le> p \<Longrightarrow> pr_settled (im_promises st) p = None"
  shows "im_wf st"
  unfolding im_wf_def 
  by (intro conjI allI impI) (use assms(1) in blast, use assms(2) in blast, use assms(3) in blast,
    use assms(4) in blast)

lemma settle_next [simp]: "pr_next (settle p v ps) = pr_next ps"
  by (simp add: settle_def)

lemma settle_waiter_next [simp]: "pr_next (settle_waiter w v ps) = pr_next ps"
  by (simp add: settle_waiter_def split: option.split)

lemma settle_settled:
  "pr_settled (settle p v ps) q =
     (if q = p \<and> pr_settled ps p = None then Some v else pr_settled ps q)"
  by (simp add: settle_def)

lemma settle_waiter_settled:
  "pr_settled (settle_waiter w v ps) q =
     (if w = Some q \<and> pr_settled ps q = None then Some v else pr_settled ps q)"
  by (auto simp: settle_waiter_def settle_settled split: option.split)

text \<open>One entry is replaced by an entry with the same promise or none, and that promise may be
  settled on the way: the shape of every operation but \<open>begin\<close>.\<close>

lemma im_wf_update:
  assumes "im_wf st" "im_entries st k = Some e"
    and "\<And>e'. new = Some e' \<Longrightarrow> entry_promise e' = entry_promise e \<or> entry_promise e' = None"
    and "\<And>e' p. new = Some e' \<Longrightarrow> unsettled e' = Some p \<Longrightarrow> unsettled e = Some p \<and> w = None"
    and "w = None \<or> w = entry_promise e"
  shows "im_wf (st\<lparr>im_entries := (im_entries st)(k := new),
    im_promises := settle_waiter w v (im_promises st)\<rparr>)"
proof -
  have sub: "unsettled d = Some p \<Longrightarrow> entry_promise d = Some p" for d p
    by (cases d) (auto simp: unsettled_def entry_promise_def split: if_splits)
  let ?st = "st\<lparr>im_entries := (im_entries st)(k := new),
    im_promises := settle_waiter w v (im_promises st)\<rparr>"
  have old: "\<exists>d0. im_entries st l = Some d0 \<and> entry_promise d0 = Some p"
    if "im_entries ?st l = Some d" "entry_promise d = Some p" for l d p
    using that assms(2,3) by (cases "l = k") auto
  note wf = im_wfD [OF assms(1)]
  have waits: "w \<noteq> Some p" if "im_entries st l = Some d" "l \<noteq> k" "entry_promise d = Some p" for l d p
    using wf(3) [OF that(1) assms(2) that(3)] that(2) assms(5) by auto
  show ?thesis
  proof (rule im_wfI)
    fix l d p assume "im_entries ?st l = Some d" "entry_promise d = Some p"
    then show "p < pr_next (im_promises ?st)" using old wf(1) by fastforce
  next
    fix l d p assume d: "im_entries ?st l = Some d" "unsettled d = Some p"
    show "pr_settled (im_promises ?st) p = None"
    proof (cases "l = k")
      case True
      then have "unsettled e = Some p" "w = None" using d assms(4) by auto
      then show ?thesis using wf(2) [OF assms(2)] by (simp add: settle_waiter_settled)
    next
      case False
      then have l: "im_entries st l = Some d" using d by simp
      show ?thesis using waits [OF l False sub [OF d(2)]] wf(2) [OF l d(2)]
        by (simp add: settle_waiter_settled)
    qed
  next
    fix l m d d' p
    assume "im_entries ?st l = Some d" "im_entries ?st m = Some d'"
      "entry_promise d = Some p" "entry_promise d' = Some p"
    then show "l = m" using old wf(3) by meson
  next
    fix p assume "pr_next (im_promises ?st) \<le> p"
    then have le: "pr_next (im_promises st) \<le> p" by simp
    then have "w \<noteq> Some p" using wf(1) [OF assms(2), of p] assms(5) by auto
    then show "pr_settled (im_promises ?st) p = None"
      using wf(4) [OF le] by (simp add: settle_waiter_settled)
  qed
qed

lemma im_wf_reserve:
  assumes "im_wf st" "im_entries st k = None"
  shows "im_wf (st\<lparr>im_entries := (im_entries st)(k \<mapsto> ImPending ph (pr_next (im_promises st))),
    im_promises := (im_promises st)\<lparr>pr_next := Suc (pr_next (im_promises st))\<rparr>\<rparr>)"
proof -
  let ?n = "pr_next (im_promises st)"
  let ?st = "st\<lparr>im_entries := (im_entries st)(k \<mapsto> ImPending ph ?n),
    im_promises := (im_promises st)\<lparr>pr_next := Suc ?n\<rparr>\<rparr>"
  note wf = im_wfD [OF assms(1)]
  have look: "im_entries ?st l = (if l = k then Some (ImPending ph ?n) else im_entries st l)" for l
    by simp
  have new: "entry_promise (ImPending ph ?n) = Some ?n" by (simp add: entry_promise_def)
  show ?thesis
  proof (rule im_wfI)
    fix l e p assume e: "im_entries ?st l = Some e" "entry_promise e = Some p"
    show "p < pr_next (im_promises ?st)"
      using e new wf(1) [of l e p] unfolding look by (cases "l = k") auto
  next
    fix l e p assume e: "im_entries ?st l = Some e" "unsettled e = Some p"
    show "pr_settled (im_promises ?st) p = None"
      using e wf(2) [of l e p] wf(4) [of p] unfolding look by (cases "l = k") (auto simp: unsettled_def)
  next
    fix l m d e p
    assume d: "im_entries ?st l = Some d" "entry_promise d = Some p"
      and e: "im_entries ?st m = Some e" "entry_promise e = Some p"
    show "l = m"
      using d e new wf(1) [of l d p] wf(1) [of m e p] wf(3) [of l d m e p]
      unfolding look by (cases "l = k"; cases "m = k") auto
  next
    fix p assume "pr_next (im_promises ?st) \<le> p"
    then show "pr_settled (im_promises ?st) p = None" using wf(4) by simp
  qed
qed

lemma im_perform_wf:
  assumes "im_wf st" shows "im_wf (im_perform h now opr st)"
proof (cases opr)
  case (OpBegin key i)
  show ?thesis
  proof (cases "im_entries st (scopeIdempotencyKey h key i)")
    case None
    then show ?thesis using im_wf_reserve [OF assms None] unfolding OpBegin
      by (simp add: im_begin_def im_pruneExpired_def new_promise_def Let_def)
  next
    case (Some e)
    then show ?thesis using assms unfolding OpBegin
      by (auto simp: im_begin_def im_pruneExpired_def Let_def split: im_entry.splits)
  qed
next
  case (OpComplete k ph r pa)
  show ?thesis
  proof (cases "\<exists>p. im_entries st k = Some (ImPending ph p)")
    case True
    then obtain p where e: "im_entries st k = Some (ImPending ph p)" by blast
    let ?new = "Some (ImCached \<lparr>ce_payloadHash = ph, ce_result = r, ce_pendingAudit = pa,
      ce_pendingAuditHash = map_option (hashPendingAudit h) pa,
      ce_expiresAt = map_option (num_add now) (im_ttlMs st), ce_waiter = Some p\<rparr>)"
    have "im_wf (st\<lparr>im_entries := (im_entries st)(k := ?new),
        im_promises := settle_waiter (if pa = None then Some p else None) (Inr r) (im_promises st)\<rparr>)"
      by (rule im_wf_update [OF assms e]) (auto simp: entry_promise_def unsettled_def split: if_splits)
    then show ?thesis using e
      by (cases pa) (simp_all add: OpComplete im_complete_def Let_def settle_waiter_def)
  qed (use assms in \<open>auto simp: OpComplete im_complete_def split: option.splits im_entry.splits\<close>)
next
  case (OpCompleteAudit k ph)
  show ?thesis
  proof (cases "\<exists>c. im_entries st k = Some (ImCached c) \<and> ce_payloadHash c = ph")
    case True
    then obtain c where e: "im_entries st k = Some (ImCached c)" "ce_payloadHash c = ph" by blast
    have "im_wf (st\<lparr>im_entries := (im_entries st)(k :=
        Some (ImCached (c\<lparr>ce_pendingAudit := None, ce_waiter := None\<rparr>))),
        im_promises := settle_waiter (ce_waiter c) (Inr (ce_result c)) (im_promises st)\<rparr>)"
      by (rule im_wf_update [OF assms e(1)]) (auto simp: entry_promise_def unsettled_def)
    then show ?thesis using e by (simp add: OpCompleteAudit im_completeAudit_def)
  qed (use assms in \<open>auto simp: OpCompleteAudit im_completeAudit_def
      split: option.splits im_entry.splits\<close>)
next
  case (OpFailAudit k ph x)
  show ?thesis
  proof (cases "\<exists>c. im_entries st k = Some (ImCached c) \<and> ce_payloadHash c = ph")
    case True
    then obtain c where e: "im_entries st k = Some (ImCached c)" "ce_payloadHash c = ph" by blast
    have "im_wf (st\<lparr>im_entries := (im_entries st)(k := Some (ImCached (c\<lparr>ce_waiter := None\<rparr>))),
        im_promises := settle_waiter (ce_waiter c) (Inl x) (im_promises st)\<rparr>)"
      by (rule im_wf_update [OF assms e(1)]) (auto simp: entry_promise_def unsettled_def split: if_splits)
    then show ?thesis using e by (simp add: OpFailAudit im_failAudit_def)
  qed (use assms in \<open>auto simp: OpFailAudit im_failAudit_def split: option.splits im_entry.splits\<close>)
next
  case (OpAbort k ph x)
  show ?thesis
  proof (cases "\<exists>p. im_entries st k = Some (ImPending ph p)")
    case True
    then obtain p where e: "im_entries st k = Some (ImPending ph p)" by blast
    have "im_wf (st\<lparr>im_entries := (im_entries st)(k := None),
        im_promises := settle_waiter (Some p) (Inl x) (im_promises st)\<rparr>)"
      by (rule im_wf_update [OF assms e]) (auto simp: entry_promise_def)
    then show ?thesis using e by (simp add: OpAbort im_abort_def settle_waiter_def)
  qed (use assms in \<open>auto simp: OpAbort im_abort_def split: option.splits im_entry.splits\<close>)
qed

subsection \<open>Keys determine requests\<close>

lemma canon_members_eq:
  assumes "canon_by le (JObj kvs) = canon_by le (JObj kvs')" "json_value (JObj kvs)"
    "json_value (JObj kvs')"
  shows "map_option (canon_by le) (map_of kvs k) = map_option (canon_by le) (map_of kvs' k)"
  using map_of_canon_members [OF assms(2)] map_of_canon_members [OF assms(3)] assms(1) by metis

lemma action_name_inj [simp]: "action_name a = action_name b \<longleftrightarrow> a = b"
  by (cases a; cases b; simp)

lemma scope_idempotency_key_inj:
  assumes "number_format (number_to_string h)"
    and "scopeIdempotencyKey h key i = scopeIdempotencyKey h key' j"
  shows "key = key' \<and> in_principal i = in_principal j \<and> intent_action i = intent_action j \<and>
    in_resource i = in_resource j"
proof -
  let ?kvs = "\<lambda>key i. [(''key'', JStr key), (''principal'', JStr (in_principal i)),
      (''action'', JStr (action_name (intent_action i))), (''resource'', JStr (in_resource i))]"
  have "stable_stringify h (JObj (?kvs key i)) = stable_stringify h (JObj (?kvs key' j))"
    using assms(2) unfolding scopeIdempotencyKey_def .
  then have "canon_by (\<le>) (JObj (?kvs key i)) = canon_by (\<le>) (JObj (?kvs key' j))"
    by (rule iffD1 [OF stable_stringify_eq_iff [OF assms(1)], rotated 2]) simp_all
  note eq = canon_members_eq [OF this]
  have "json_value (JObj (?kvs key i))" for key i by simp
  note eq = eq [OF this this]
  show ?thesis
    using eq [of "''key''"] eq [of "''principal''"] eq [of "''action''"] eq [of "''resource''"]
    by (simp del: action_name.simps)
qed

lemma payload_hash_same_intent:
  assumes "number_format (number_to_string h)" "intent_ok h i" "intent_ok h j"
    "json_value (intent_json i)" "json_value (intent_json j)"
    "no_holes (intent_json i)" "no_holes (intent_json j)"
    and "inj_on (sha256_hex h) {stable_stringify h (intent_json i), stable_stringify h (intent_json j)}"
    and "hashIntentPayload h i = hashIntentPayload h j"
  shows "canon_intent (\<le>) i = canon_intent (\<le>) j"
proof -
  have "stable_stringify h (intent_json i) = stable_stringify h (intent_json j)"
    by (rule inj_onD [OF assms(8)]) (use assms(9) in \<open>simp_all add: hashIntentPayload_def\<close>)
  then have "canon_by (\<le>) (intent_json i) = canon_by (\<le>) (intent_json j)"
    by (rule iffD1 [OF stable_stringify_eq_iff [OF assms(1,6,7)]])
  then show ?thesis by (rule canon_eq_intent [OF assms(2-5)])
qed

subsection \<open>Properties\<close>

lemma reserved_in_flight:
  assumes "im_begin h key i st = (Inr Reserved, st')"
  shows "im_slot st' (scopeIdempotencyKey h key i) = InFlight (hashIntentPayload h i)"
  using assms
  by (auto simp: im_begin_def im_pruneExpired_def new_promise_def Let_def im_slot_def
      split: option.splits im_entry.splits if_splits)

lemma pending_entry:
  assumes "im_begin h key i st = (Inr (Pending p), st')"
  shows "im_entries st (scopeIdempotencyKey h key i) = Some (ImPending (hashIntentPayload h i) p)"
  using assms
  by (auto simp: im_begin_def im_pruneExpired_def new_promise_def Let_def
      split: option.splits im_entry.splits if_splits)

lemma new_im_store_wf: "new_im_store ttl = Inr st \<Longrightarrow> im_wf st"
  by (auto simp: new_im_store_def im_wf_def split: if_splits)

lemma im_reachable_wf: "im_wf st \<Longrightarrow> im_wf (fold (im_perform h now) ops st)"
  by (induction ops arbitrary: st) (simp_all add: im_perform_wf)

text \<open>C7. A completed request is replayed for ever: once a reservation is completed with a result,
  every later request that has the same scoped key is answered with that very result when its
  payload has the same hash, and refused as a conflict otherwise, whatever operations of any
  requests happen in between; no second reservation for the key is ever granted.\<close>

theorem idempotency_replay:
  assumes "im_begin h key i st = (Inr Reserved, st1)"
    and "scopeIdempotencyKey h key' j = scopeIdempotencyKey h key i"
    and "st2 = fold (im_perform h now) ops
      (im_complete h now (scopeIdempotencyKey h key i) (hashIntentPayload h i) r pa st1)"
  shows "\<exists>pa'. im_answer h key' j st2 =
    (if hashIntentPayload h j = hashIntentPayload h i then Some (Cached r pa') else None)"
proof -
  let ?k = "scopeIdempotencyKey h key i" and ?ph = "hashIntentPayload h i"
  have "im_slot (im_perform h now (OpComplete ?k ?ph r pa) st1) ?k = Done ?ph r"
    by (simp only: mem.perform_slot reserved_in_flight [OF assms(1)] spec_slot.simps simp_thms if_True)
  then have "im_slot (im_complete h now ?k ?ph r pa st1) (scopeIdempotencyKey h key' j) = Done ?ph r"
    using assms(2) by simp
  from mem.replay [OF this, of now ops] show ?thesis using assms(3) by simp
qed

text \<open>A reservation is exclusive: after \<open>begin\<close> granted a reservation, no request for the
  same scoped key is granted another one, through any sequence of operations in which the holder
  does not abort; and \<open>begin\<close> grants one exactly when the key has no entry.\<close>

theorem idempotency_exclusive:
  assumes "im_begin h key i st = (Inr Reserved, st1)"
    and "scopeIdempotencyKey h key' j = scopeIdempotencyKey h key i"
    and "\<forall>e. OpAbort (scopeIdempotencyKey h key i) (hashIntentPayload h i) e \<notin> set ops"
  shows "im_entries st (scopeIdempotencyKey h key i) = None \<and>
    im_answer h key' j (fold (im_perform h now) ops st1) \<noteq> Some Reserved"
proof
  show "im_entries st (scopeIdempotencyKey h key i) = None"
    using assms(1) by (auto simp: im_begin_def im_pruneExpired_def Let_def
        split: option.splits im_entry.splits if_splits)
  have "im_slot st1 (scopeIdempotencyKey h key' j) = InFlight (hashIntentPayload h i)"
    using reserved_in_flight [OF assms(1)] assms(2) by simp
  then show "im_answer h key' j (fold (im_perform h now) ops st1) \<noteq> Some Reserved"
    by (rule mem.held_exclusive) (use assms(2,3) in simp)
qed

text \<open>C8. Waiting requests are always answered: in every state the store can reach, a request
  that was told to wait gets the holder's outcome as soon as the holder aborts, completes without
  an audit event, or completes and then reports that its audit event was written or failed.\<close>

theorem idempotency_waiters_answered:
  assumes "new_im_store ttl = Inr st0" and "st = fold (im_perform h now) ops st0"
    and "im_begin h key i st = (Inr (Pending p), st')"
    and "k = scopeIdempotencyKey h key i" and "ph = hashIntentPayload h i"
  shows "pr_settled (im_promises (im_abort k ph e st)) p = Some (Inl e) \<and>
    pr_settled (im_promises (im_complete h t k ph r None st)) p = Some (Inr r) \<and>
    pr_settled (im_promises (im_completeAudit k ph (im_complete h t k ph r (Some a) st))) p =
      Some (Inr r) \<and>
    pr_settled (im_promises (im_failAudit k ph e (im_complete h t k ph r (Some a) st))) p =
      Some (Inl e)"
proof -
  have entry: "im_entries st k = Some (ImPending ph p)"
    using pending_entry [OF assms(3)] assms(4,5) by simp
  have "im_wf st" unfolding assms(2) by (rule im_reachable_wf [OF new_im_store_wf [OF assms(1)]])
  then have "pr_settled (im_promises st) p = None"
    by (rule im_wfD(2) [OF _ entry]) (simp add: unsettled_def)
  with entry show ?thesis
    by (simp add: im_abort_def im_complete_def im_completeAudit_def im_failAudit_def Let_def
        settle_settled settle_waiter_settled)
qed

definition sample_result :: exec_result where
  "sample_result =
     \<lparr>xr_intentId = ''i1'', xr_idempotencyKey = ''key1'', xr_status = Executed,
      xr_executionKind = Some CexOrderKind, xr_revalidationPassed = True,
      xr_executedAt = sample_date 3, xr_orderId = Some ''o7'', xr_transactionHash = None,
      xr_orderStatus = None, xr_reconciliation = None, xr_simulationEvidence = None,
      xr_rejectionReason = None\<rparr>"

definition sample_store :: im_store where
  "sample_store = \<lparr>im_ttlMs = None, im_entries = (\<lambda>_. None),
     im_promises = \<lparr>pr_next = 0, pr_settled = (\<lambda>_. None)\<rparr>\<rparr>"

lemma sample_store_new: "new_im_store None = Inr sample_store"
  by (simp add: new_im_store_def sample_store_def)

lemma sample_store_begin:
  "\<exists>st. im_begin sample_host ''key1'' sample_intent sample_store = (Inr Reserved, st)"
  by (simp add: im_begin_def im_pruneExpired_def new_promise_def Let_def sample_store_def)

theorem idempotency_replay_witness:
  "\<exists>st1 pa'. im_begin sample_host ''key1'' sample_intent sample_store = (Inr Reserved, st1) \<and>
     im_answer sample_host ''key1'' sample_intent
       (fold (im_perform sample_host (Fin 0)) [OpBegin ''key1'' sample_intent]
         (im_complete sample_host (Fin 0) (scopeIdempotencyKey sample_host ''key1'' sample_intent)
           (hashIntentPayload sample_host sample_intent) sample_result None st1)) =
       Some (Cached sample_result pa')"
proof -
  obtain st1 where b: "im_begin sample_host ''key1'' sample_intent sample_store = (Inr Reserved, st1)"
    using sample_store_begin by blast
  from idempotency_replay [OF b refl refl, where now = "Fin 0" and r = sample_result and pa = None
      and ops = "[OpBegin ''key1'' sample_intent]"]
  show ?thesis unfolding if_P [OF refl] using b by blast
qed

theorem idempotency_exclusive_witness:
  "\<exists>st1. im_begin sample_host ''key1'' sample_intent sample_store = (Inr Reserved, st1) \<and>
     im_answer sample_host ''key1'' sample_intent
       (fold (im_perform sample_host (Fin 0)) [OpBegin ''key1'' sample_intent] st1) \<noteq> Some Reserved"
proof -
  obtain st1 where b: "im_begin sample_host ''key1'' sample_intent sample_store = (Inr Reserved, st1)"
    using sample_store_begin by blast
  have "\<forall>e. OpAbort (scopeIdempotencyKey sample_host ''key1'' sample_intent)
      (hashIntentPayload sample_host sample_intent) e \<notin> set [OpBegin ''key1'' sample_intent]" by simp
  from idempotency_exclusive [OF b refl this, of "Fin 0"] b show ?thesis by blast
qed

theorem idempotency_waiters_answered_witness:
  "\<exists>st p. im_begin sample_host ''key1'' sample_intent st = (Inr (Pending p), st) \<and>
     pr_settled (im_promises (im_complete sample_host (Fin 0)
       (scopeIdempotencyKey sample_host ''key1'' sample_intent)
       (hashIntentPayload sample_host sample_intent) sample_result None st)) p =
       Some (Inr sample_result)"
proof -
  let ?st = "fold (im_perform sample_host (Fin 0)) [OpBegin ''key1'' sample_intent] sample_store"
  have "im_begin sample_host ''key1'' sample_intent ?st = (Inr (Pending 0), ?st)"
    by (simp add: im_begin_def im_pruneExpired_def new_promise_def Let_def sample_store_def)
  with idempotency_waiters_answered [OF sample_store_new refl this refl refl] show ?thesis by blast
qed

end
