(* ===== verification/FileStore.thy ===== *)
theory FileStore
  imports IdempotencyStore
begin

text \<open>
  \<open>FileBrokerIdempotencyStore\<close> of \<open>packages/broker/src/idempotency-store.ts\<close> (lines 166 to 399)
  and the validation of what it reads back (lines 431 to 711). The disk holds the value
  that was serialised into the file; each process has its own map of pending requests. Every locked update takes an \<open>io_fault\<close>
  that says whether the file system fails, and whether before or after the file was replaced.
\<close>

declare map_of_append [simp del]

subsection \<open>State\<close>

record file_cached =
  fc_payloadHash :: string
  fc_result :: exec_result
  fc_pendingAudit :: "jsval option"
  fc_pendingAuditHash :: "string option"

datatype file_entry = FileCached file_cached | FileInProgress string

fun fe_payloadHash :: "file_entry \<Rightarrow> string" where
  "fe_payloadHash (FileCached c) = fc_payloadHash c"
| "fe_payloadHash (FileInProgress ph) = ph"

text \<open>The entries of the file, in the order of the object.\<close>

type_synonym file_state = "(string \<times> file_entry) list"

datatype disk = NoFile | NotJson | FileJson jsval

datatype io_fault = IoOk | FailsBefore exn | FailsAfter exn

text \<open>The memory of one process: its pending requests and promises.\<close>

record process =
  fp_pending :: "string \<rightharpoonup> string \<times> promise"
  fp_promises :: promises

subsection \<open>What JSON keeps\<close>

text \<open>\<open>JSON.parse(JSON.stringify(v))\<close>: undefined members are dropped; \<open>undefined\<close> elements and
  numbers that are not finite become \<open>null\<close>.\<close>

fun through_json :: "jsval \<Rightarrow> jsval" where
  "through_json JUndef = JNull"
| "through_json (JNum x) = (if is_finite x then JNum x else JNull)"
| "through_json (JArr xs) = JArr (map through_json xs)"
| "through_json (JObj kvs) =
     JObj (map (\<lambda>(k, v). (k, through_json v)) (filter (\<lambda>(k, v). v \<noteq> JUndef) kvs))"
| "through_json v = v"

fun file_entry_json :: "file_entry \<Rightarrow> jsval" where
  "file_entry_json (FileInProgress ph) =
     JObj [(''status'', JStr ''in_progress''), (''payloadHash'', JStr ph)]"
| "file_entry_json (FileCached c) = JObj
     ([(''status'', JStr ''cached''), (''payloadHash'', JStr (fc_payloadHash c)),
       (''result'', result_json (fc_result c))] @
      opt_field ''pendingAudit'' (\<lambda>v. v) (fc_pendingAudit c) @
      opt_field ''pendingAuditHash'' JStr (fc_pendingAuditHash c))"

definition file_state_json :: "file_state \<Rightarrow> jsval" where
  "file_state_json st = JObj [(''entries'', JObj (map (\<lambda>(k, e). (k, file_entry_json e)) st))]"

subsection \<open>Validation of the file\<close>

definition invalid_entry :: "string \<Rightarrow> string \<Rightarrow> exn" where
  "invalid_entry key m = GenericError (''Invalid idempotency store entry '' @ key @ '': '' @ m)"

definition requiredString :: "jsval \<Rightarrow> bool" where
  "requiredString v \<longleftrightarrow> is_string v \<and> v \<noteq> JStr []"

definition optionalString :: "jsval \<Rightarrow> bool" where
  "optionalString v \<longleftrightarrow> v = JUndef \<or> is_string v"

definition isBrokerAuditEvent :: "jsval \<Rightarrow> bool" where
  "isBrokerAuditEvent v \<longleftrightarrow> is_object v \<and>
     (\<exists>t \<in> set audit_event_types. js_get v ''eventType'' = JStr t) \<and>
     z_enum environment_table (js_get v ''environment'') \<noteq> None \<and>
     is_string (js_get v ''correlationId'') \<and> is_object (js_get v ''data'') \<and>
     requiredString (js_get v ''eventId'') \<and> optionalString (js_get v ''intentId'') \<and>
     optionalString (js_get v ''principal'')"

definition deepEqual :: "host \<Rightarrow> jsval \<Rightarrow> jsval \<Rightarrow> bool" where
  "deepEqual h a b \<longleftrightarrow> stable_stringify h a = stable_stringify h b"

definition resultHasField :: "exec_result \<Rightarrow> string \<Rightarrow> bool" where
  "resultHasField r k \<longleftrightarrow> has_key (result_json r) k"

definition pendingAuditDataKeys :: "exec_result \<Rightarrow> string list" where
  "pendingAuditDataKeys r =
     ''status'' # filter (resultHasField r)
       [''rejectionReason'', ''orderId'', ''transactionHash'', ''orderStatus'',
        ''simulationEvidence'', ''reconciliation''] @
     (if xr_status r = Failed then [''reason'', ''error''] else [])"

text \<open>A member of \<open>data\<close> agrees with the result when the result has the field, and is
  \<open>undefined\<close> otherwise.\<close>

definition same_member :: "exec_result \<Rightarrow> jsval \<Rightarrow> string \<Rightarrow> bool" where
  "same_member r data k =
     (if resultHasField r k then js_get data k = js_get (result_json r) k
      else js_get data k = JUndef)"

definition deep_member :: "host \<Rightarrow> exec_result \<Rightarrow> jsval \<Rightarrow> string \<Rightarrow> bool" where
  "deep_member h r data k =
     (if resultHasField r k then deepEqual h (js_get data k) (js_get (result_json r) k)
      else js_get data k = JUndef)"

definition pendingAuditDataMatchesResult :: "host \<Rightarrow> jsval \<Rightarrow> exec_result \<Rightarrow> bool" where
  "pendingAuditDataMatchesResult h data r \<longleftrightarrow>
     list_all (\<lambda>(k, v). k \<in> set (pendingAuditDataKeys r)) (members data) \<and>
     js_get data ''status'' = JStr (exec_status_name (xr_status r)) \<and>
     same_member r data ''rejectionReason'' \<and>
     optionalString (js_get data ''reason'') \<and> optionalString (js_get data ''error'') \<and>
     same_member r data ''orderId'' \<and> same_member r data ''transactionHash'' \<and>
     deep_member h r data ''orderStatus'' \<and> deep_member h r data ''simulationEvidence'' \<and>
     deep_member h r data ''reconciliation''"

definition expected_event_type :: "exec_result \<Rightarrow> string" where
  "expected_event_type r = (if xr_status r = Executed then ''broker.executed'' else ''broker.failed'')"

definition validatePendingAudit ::
  "host \<Rightarrow> string \<Rightarrow> exec_result \<Rightarrow> jsval \<Rightarrow> string option \<Rightarrow> exn + jsval option" where
  "validatePendingAudit h key r v hash =
     (if v = JUndef then Inr None
      else if \<not> (\<exists>s \<in> set_option hash. lower_hex64 s)
      then Inl (invalid_entry key ''pendingAuditHash is invalid.'')
      else if \<not> isBrokerAuditEvent v then Inl (invalid_entry key ''pendingAudit is invalid.'')
      else if js_get v ''eventType'' \<noteq> JStr (expected_event_type r)
      then Inl (invalid_entry key ''pendingAudit eventType mismatches result.'')
      else if js_get v ''intentId'' \<noteq> JStr (xr_intentId r)
      then Inl (invalid_entry key ''pendingAudit intentId mismatches result.'')
      else if \<not> pendingAuditDataMatchesResult h (js_get v ''data'') r
      then Inl (invalid_entry key ''pendingAudit data mismatches result.'')
      else if hash \<noteq> Some (sha256_hex h (stable_stringify h v))
      then Inl (invalid_entry key ''pendingAudit hash mismatches event.'')
      else Inr (Some v))"

definition parseFileEntry :: "host \<Rightarrow> string \<Rightarrow> jsval \<Rightarrow> exn + file_entry" where
  "parseFileEntry h key v =
     (if \<not> is_object v then Inl (invalid_entry key ''entry must be an object.'')
      else if js_get v ''status'' \<notin> {JStr ''cached'', JStr ''in_progress''}
      then Inl (invalid_entry key ''status is invalid.'')
      else case js_get v ''payloadHash'' of
        JStr ph \<Rightarrow>
          if \<not> lower_hex64 ph then Inl (invalid_entry key ''payloadHash is invalid.'')
          else if js_get v ''status'' = JStr ''in_progress'' then Inr (FileInProgress ph)
          else (case parse_result h (js_get v ''result'') of
              None \<Rightarrow> Inl (invalid_entry key ''cached result is invalid.'')
            | Some r \<Rightarrow>
                (let hash = (case js_get v ''pendingAuditHash'' of JStr s \<Rightarrow> Some s | _ \<Rightarrow> None) in
                 case validatePendingAudit h key r (js_get v ''pendingAudit'') hash of
                   Inl e \<Rightarrow> Inl e
                 | Inr pa \<Rightarrow> Inr (FileCached \<lparr>fc_payloadHash = ph, fc_result = r,
                     fc_pendingAudit = pa, fc_pendingAuditHash = hash\<rparr>)))
      | _ \<Rightarrow> Inl (invalid_entry key ''payloadHash is invalid.''))"

fun parse_entries :: "host \<Rightarrow> (string \<times> jsval) list \<Rightarrow> exn + file_state" where
  "parse_entries h [] = Inr []"
| "parse_entries h ((k, v) # kvs) =
     (case parseFileEntry h k v of Inl e \<Rightarrow> Inl e
      | Inr x \<Rightarrow> (case parse_entries h kvs of Inl e \<Rightarrow> Inl e | Inr xs \<Rightarrow> Inr ((k, x) # xs)))"

definition parseFileState :: "host \<Rightarrow> jsval \<Rightarrow> exn + file_state" where
  "parseFileState h v =
     (if \<not> is_object v
      then Inl (GenericError ''Invalid idempotency store state: root must be an object.'')
      else if \<not> has_key v ''entries''
      then Inl (GenericError ''Invalid idempotency store state: entries is required.'')
      else if \<not> is_object (js_get v ''entries'')
      then Inl (GenericError ''Invalid idempotency store state: entries must be an object.'')
      else parse_entries h (members (js_get v ''entries'')))"

definition readState :: "host \<Rightarrow> disk \<Rightarrow> exn + file_state" where
  "readState h d = (case d of NoFile \<Rightarrow> Inr []
     | NotJson \<Rightarrow> Inl (GenericError ''Unexpected token in JSON'')
     | FileJson v \<Rightarrow> parseFileState h (through_json v))"

text \<open>The event that \<open>begin\<close> hands out, from its object.\<close>

definition event_of_json :: "jsval \<Rightarrow> audit_event" where
  "event_of_json v = (let str = (\<lambda>k. case js_get v k of JStr s \<Rightarrow> Some s | _ \<Rightarrow> None) in
     \<lparr>ae_eventId = str ''eventId'',
      ae_eventType = (case str ''eventType'' of Some s \<Rightarrow> s | None \<Rightarrow> []),
      ae_environment = (case z_enum environment_table (js_get v ''environment'') of
        Some e \<Rightarrow> e | None \<Rightarrow> Dev),
      ae_intentId = str ''intentId'', ae_principal = str ''principal'',
      ae_correlationId = (case str ''correlationId'' of Some s \<Rightarrow> s | None \<Rightarrow> []),
      ae_data = js_get v ''data'',
      ae_extra = filter (\<lambda>(k, w). k \<notin> {''eventId'', ''eventType'', ''environment'', ''intentId'', ''principal'',
        ''correlationId'', ''data''}) (members v)\<rparr>)"

subsection \<open>Checking a cached entry against the intent\<close>

fun executionKindForIntent :: "trading_intent \<Rightarrow> exec_kind" where
  "executionKindForIntent (CexOrderIntent e x) = CexOrderKind"
| "executionKindForIntent (CexCancelIntent e x) = CexCancelKind"
| "executionKindForIntent (CexOrderStatusIntent e x) = CexOrderStatusKind"
| "executionKindForIntent (OnchainSigningIntent e x) = OnchainSignatureKind"
| "executionKindForIntent (OnchainSimulationIntent e x) = OnchainSimulationKind"

definition validateCachedResultEvidenceForIntent ::
  "string \<Rightarrow> exec_result \<Rightarrow> trading_intent \<Rightarrow> exn + unit" where
  "validateCachedResultEvidenceForIntent key r i =
     (if xr_status r = Executed \<and> xr_executionKind r \<noteq> Some (executionKindForIntent i)
      then Inl (invalid_entry key ''result executionKind mismatches intent.'')
      else case i of
        CexCancelIntent e x \<Rightarrow>
          if xr_orderId r \<noteq> None \<and> xr_orderId r \<noteq> Some (ref_orderId x)
          then Inl (invalid_entry key ''result orderId mismatches intent.'') else Inr ()
      | CexOrderStatusIntent e x \<Rightarrow>
          if xr_orderId r \<noteq> None \<and> xr_orderId r \<noteq> Some (ref_orderId x)
          then Inl (invalid_entry key ''result orderId mismatches intent.'')
          else (case xr_orderStatus r of
              None \<Rightarrow> Inl (invalid_entry key ''result orderStatus mismatches intent.'')
            | Some s \<Rightarrow>
                if os_orderId s \<noteq> ref_orderId x \<or> os_symbol s \<noteq> ref_symbol x
                then Inl (invalid_entry key ''result orderStatus mismatches intent.'')
                else Inr ())
      | CexOrderIntent e x \<Rightarrow>
          (case xr_orderStatus r of
              None \<Rightarrow> Inr ()
            | Some s \<Rightarrow>
                if os_symbol s \<noteq> ord_symbol x \<or> to_lower (os_side s) \<noteq> side_name (ord_side x)
                then Inl (invalid_entry key ''result orderStatus mismatches intent.'')
                else if xr_orderId r \<noteq> None \<and> xr_orderId r \<noteq> Some (os_orderId s)
                then Inl (invalid_entry key ''result orderStatus mismatches result.'')
                else Inr ())
      | _ \<Rightarrow> Inr ())"

definition validateCachedEntryForIntent ::
  "host \<Rightarrow> string \<Rightarrow> file_cached \<Rightarrow> trading_intent \<Rightarrow> exn + unit" where
  "validateCachedEntryForIntent h key c i =
     (if xr_intentId (fc_result c) \<noteq> in_intentId i
      then Inl (invalid_entry key ''result intentId mismatches intent.'')
      else if xr_idempotencyKey (fc_result c) \<noteq> in_idempotencyKey i
      then Inl (invalid_entry key ''result idempotencyKey mismatches intent.'')
      else case validateCachedResultEvidenceForIntent key (fc_result c) i of
        Inl e \<Rightarrow> Inl e
      | Inr _ \<Rightarrow> (case map_option event_of_json (fc_pendingAudit c) of
          None \<Rightarrow> Inr ()
        | Some a \<Rightarrow>
            if ae_environment a \<noteq> in_environment i
            then Inl (invalid_entry key ''pendingAudit environment mismatches intent.'')
            else if ae_principal a \<noteq> Some (in_principal i)
            then Inl (invalid_entry key ''pendingAudit principal mismatches intent.'')
            else if ae_eventType a \<notin> {''broker.executed'', ''broker.failed''}
            then Inl (invalid_entry key ''pendingAudit eventType mismatches result.'')
            else if ae_eventId a \<noteq>
                Some (terminalAuditEventId h i (ae_correlationId a) (ae_eventType a))
            then Inl (invalid_entry key ''pendingAudit eventId mismatches intent.'')
            else Inr ()))"

subsection \<open>Locked updates\<close>

text \<open>\<open>state.entries[k] = e\<close> keeps the place of a key that exists.\<close>

fun put_entry :: "string \<Rightarrow> file_entry \<Rightarrow> file_state \<Rightarrow> file_state" where
  "put_entry k e [] = [(k, e)]"
| "put_entry k e ((l, d) # st) = (if k = l then (k, e) # st else (l, d) # put_entry k e st)"

definition delete_entry :: "string \<Rightarrow> file_state \<Rightarrow> file_state" where
  "delete_entry k st = filter (\<lambda>(l, e). l \<noteq> k) st"

text \<open>
  \<open>withLockedState\<close>: lock, read, update, replace the file. A failure before the rename leaves
  the file as it was; a failure after it (syncing the directory) does not.
\<close>

definition withLockedState ::
  "host \<Rightarrow> io_fault \<Rightarrow> (file_state \<Rightarrow> 'a \<times> file_state) \<Rightarrow> disk \<Rightarrow> (exn + 'a) \<times> disk" where
  "withLockedState h io update d =
     (case io of
        FailsBefore e \<Rightarrow> (Inl e, d)
      | _ \<Rightarrow> (case readState h d of
            Inl e \<Rightarrow> (Inl e, d)
          | Inr st \<Rightarrow> (case update st of (x, st') \<Rightarrow>
              ((case io of FailsAfter e \<Rightarrow> Inl e | _ \<Rightarrow> Inr x),
               FileJson (file_state_json st')))))"

subsection \<open>Operations\<close>

definition inProgressError :: exn where
  "inProgressError = GenericError ''Idempotency key is already in progress.''"

type_synonym file_store = "process \<times> disk"

definition reject_promise :: "exn \<Rightarrow> promises \<Rightarrow> promise \<times> promises" where
  "reject_promise e ps = (case new_promise ps of (p, ps') \<Rightarrow> (p, settle p (Inl e) ps'))"

definition fs_begin :: "host \<Rightarrow> io_fault \<Rightarrow> string \<Rightarrow> trading_intent \<Rightarrow> file_store \<Rightarrow>
    (exn + promise begun) \<times> file_store" where
  "fs_begin h io key i s =
     (case s of (pr, d) \<Rightarrow>
      let k = scopeIdempotencyKey h key i; ph = hashIntentPayload h i in
      case fp_pending pr k of
        Some (ph', p) \<Rightarrow>
          if ph' \<noteq> ph then (Inl (IdempotencyConflictError key), (pr, d))
          else (Inr (Pending p), (pr, d))
      | None \<Rightarrow>
          (case withLockedState h io (\<lambda>st. case map_of st k of
              Some e \<Rightarrow> (Some e, st)
            | None \<Rightarrow> (None, put_entry k (FileInProgress ph) st)) d of
            (Inl e, d') \<Rightarrow> (Inl e, (pr, d'))
          | (Inr (Some existing), d') \<Rightarrow>
              if fe_payloadHash existing \<noteq> ph then (Inl (IdempotencyConflictError key), (pr, d'))
              else (case existing of
                  FileInProgress _ \<Rightarrow>
                    (case reject_promise inProgressError (fp_promises pr) of (p, ps) \<Rightarrow>
                      (Inr (Pending p), (pr\<lparr>fp_promises := ps\<rparr>, d')))
                | FileCached c \<Rightarrow>
                    (case validateCachedEntryForIntent h key c i of
                      Inl e \<Rightarrow> (Inl e, (pr, d'))
                    | Inr _ \<Rightarrow> (Inr (Cached (fc_result c)
                        (map_option event_of_json (fc_pendingAudit c))), (pr, d'))))
          | (Inr None, d') \<Rightarrow>
              (case new_promise (fp_promises pr) of (p, ps) \<Rightarrow>
                (Inr Reserved, (pr\<lparr>fp_pending := (fp_pending pr)(k \<mapsto> (ph, p)),
                  fp_promises := ps\<rparr>, d')))))"

definition drop_pending :: "string \<Rightarrow> process \<Rightarrow> process" where
  "drop_pending k pr = pr\<lparr>fp_pending := (fp_pending pr)(k := None)\<rparr>"

definition settle_pending :: "promise \<Rightarrow> exn + exec_result \<Rightarrow> process \<Rightarrow> process" where
  "settle_pending p v pr = pr\<lparr>fp_promises := settle p v (fp_promises pr)\<rparr>"

definition fs_complete :: "host \<Rightarrow> io_fault \<Rightarrow> string \<Rightarrow> string \<Rightarrow> exec_result \<Rightarrow> audit_event option \<Rightarrow>
    file_store \<Rightarrow> (exn + unit) \<times> file_store" where
  "fs_complete h io k ph r pa s =
     (case s of (pr, d) \<Rightarrow>
      case fp_pending pr k of
        None \<Rightarrow> (Inr (), (pr, d))
      | Some (ph', p) \<Rightarrow>
          if ph' \<noteq> ph then (Inr (), (pr, d))
          else (case withLockedState h io (\<lambda>st. ((), put_entry k (FileCached
              \<lparr>fc_payloadHash = ph, fc_result = r, fc_pendingAudit = map_option audit_event_json pa,
               fc_pendingAuditHash = map_option (hashPendingAudit h) pa\<rparr>) st)) d of
              (Inl e, d') \<Rightarrow> (Inl e, (settle_pending p (Inl e) (drop_pending k pr), d'))
            | (Inr _, d') \<Rightarrow>
                (Inr (), (if pa = None then settle_pending p (Inr r) (drop_pending k pr) else pr, d'))))"

text \<open>Clearing the pending audit of an entry; the answer is the stored result.\<close>

definition clear_audit :: "string \<Rightarrow> string \<Rightarrow> file_state \<Rightarrow> exec_result option \<times> file_state" where
  "clear_audit k ph st =
     (case map_of st k of
        Some (FileCached c) \<Rightarrow>
          if fc_payloadHash c = ph
          then (Some (fc_result c), put_entry k (FileCached (c\<lparr>fc_pendingAudit := None\<rparr>)) st)
          else (None, st)
      | _ \<Rightarrow> (None, st))"

definition fs_completeAudit :: "host \<Rightarrow> io_fault \<Rightarrow> string \<Rightarrow> string \<Rightarrow> file_store \<Rightarrow>
    (exn + unit) \<times> file_store" where
  "fs_completeAudit h io k ph s =
     (case s of (pr, d) \<Rightarrow>
      case withLockedState h io (clear_audit k ph) d of
        (Inl e, d') \<Rightarrow> (Inl e, (case fp_pending pr k of
            Some (ph', p) \<Rightarrow> if ph' = ph then settle_pending p (Inl e) pr else pr
          | None \<Rightarrow> pr, d'))
      | (Inr r, d') \<Rightarrow> (Inr (), (case fp_pending pr k of
            Some (ph', p) \<Rightarrow>
              if ph' \<noteq> ph then pr
              else settle_pending p (case r of Some x \<Rightarrow> Inr x
                | None \<Rightarrow> Inl (GenericError ''Completed idempotency result is missing.''))
                (drop_pending k pr)
          | None \<Rightarrow> pr, d')))"

text \<open>The \<open>completeAudit\<close> of a cached answer touches the file only.\<close>

definition fs_completeCachedAudit :: "host \<Rightarrow> io_fault \<Rightarrow> string \<Rightarrow> string \<Rightarrow> file_store \<Rightarrow>
    (exn + unit) \<times> file_store" where
  "fs_completeCachedAudit h io k ph s =
     (case s of (pr, d) \<Rightarrow> case withLockedState h io (clear_audit k ph) d of
        (Inl e, d') \<Rightarrow> (Inl e, (pr, d'))
      | (Inr _, d') \<Rightarrow> (Inr (), (pr, d')))"

definition fs_failAudit :: "string \<Rightarrow> string \<Rightarrow> exn \<Rightarrow> file_store \<Rightarrow> file_store" where
  "fs_failAudit k ph e s =
     (case s of (pr, d) \<Rightarrow>
      case fp_pending pr k of
        None \<Rightarrow> (pr, d)
      | Some (ph', p) \<Rightarrow>
          if ph' \<noteq> ph then (pr, d) else (settle_pending p (Inl e) (drop_pending k pr), d))"

definition fs_abort :: "host \<Rightarrow> io_fault \<Rightarrow> string \<Rightarrow> string \<Rightarrow> exn \<Rightarrow> file_store \<Rightarrow>
    (exn + unit) \<times> file_store" where
  "fs_abort h io k ph e s =
     (case s of (pr, d) \<Rightarrow>
      case fp_pending pr k of
        None \<Rightarrow> (Inr (), (pr, d))
      | Some (ph', p) \<Rightarrow>
          if ph' \<noteq> ph then (Inr (), (pr, d))
          else (case withLockedState h io (\<lambda>st. ((),
              if map_of st k = Some (FileInProgress ph) then delete_entry k st else st)) d of
            (x, d') \<Rightarrow> (x, (settle_pending p (Inl e) (drop_pending k pr), d'))))"

subsection \<open>What is written is read back\<close>

lemma through_json_defined [simp]: "through_json v \<noteq> JUndef"
  by (cases v) auto

lemma through_json_idem [simp]: "through_json (through_json v) = through_json v"
proof (induction v rule: through_json.induct)
  case (4 kvs)
  have "filter (\<lambda>(k, v). v \<noteq> JUndef) (map (\<lambda>(k, v). (k, through_json v)) xs) =
      map (\<lambda>(k, v). (k, through_json v)) xs" for xs :: "(string \<times> jsval) list"
    by (auto simp: filter_id_conv)
  with 4 show ?case by auto
qed auto

lemma through_json_fixed_object:
  assumes "through_json (JObj kvs) = JObj kvs" "(k, v) \<in> set kvs"
  shows "v \<noteq> JUndef \<and> through_json v = v"
proof -
  let ?f = "\<lambda>(k, v). (k, through_json v)" and ?P = "\<lambda>(k :: string, v). v \<noteq> JUndef"
  have eq: "map ?f (filter ?P kvs) = kvs" using assms(1) by simp
  then have "length (filter ?P kvs) = length kvs" by (metis length_map)
  then have "filter ?P kvs = kvs"
    by (metis filter_id_conv length_filter_less linorder_neq_iff)
  with eq assms(2) have "v \<noteq> JUndef" "map ?f kvs = kvs" by (auto simp: filter_id_conv)
  from this(2) have "map ?f kvs = map (\<lambda>x. x) kvs" by simp
  then have "?f (k, v) = (k, v)" using assms(2) by (simp only: map_eq_conv)
  with \<open>v \<noteq> JUndef\<close> show ?thesis by simp
qed

lemma through_json_fixed_get:
  assumes "through_json v = v" "js_get v k \<noteq> JUndef"
  shows "through_json (js_get v k) = js_get v k"
proof (cases v)
  case (JObj kvs)
  with assms obtain x where "map_of kvs k = Some x" by (auto simp: js_get_def split: option.splits)
  with JObj assms(1) through_json_fixed_object [OF _ map_of_SomeD] show ?thesis
    by (simp add: js_get_def del: through_json.simps)
qed (use assms in \<open>auto simp: js_get_def\<close>)

definition order_status_finite :: "order_status \<Rightarrow> bool" where
  "order_status_finite s \<longleftrightarrow> is_finite (os_executedQty s) \<and> is_finite (os_avgPrice s)"

definition result_finite :: "exec_result \<Rightarrow> bool" where
  "result_finite r \<longleftrightarrow> pred_option order_status_finite (xr_orderStatus r) \<and>
     pred_option (\<lambda>c. order_status_finite (rc_expected c) \<and>
       pred_option order_status_finite (rc_observed c)) (xr_reconciliation r)"

lemma order_status_ok_finite: "order_status_ok s \<Longrightarrow> order_status_finite s"
  by (simp add: order_status_ok_def order_status_finite_def)

lemma result_ok_finite: "result_ok h r \<Longrightarrow> result_finite r"
  by (auto simp: result_ok_iff fields_ok_def result_finite_def reconciliation_ok_def pred_option_iff
      intro: order_status_ok_finite)

lemma through_order_status:
  "order_status_finite s \<Longrightarrow> through_json (order_status_json s) = order_status_json s"
  by (simp add: order_status_json_def order_status_finite_def)

lemma strings_fixed [simp]: "map (through_json \<circ> JStr) xs = map JStr xs"
  by simp

lemma through_reconciliation:
  assumes "order_status_finite (rc_expected c)" "pred_option order_status_finite (rc_observed c)"
  shows "through_json (reconciliation_json c) = reconciliation_json c"
  using assms by (cases "rc_observed c")
    (simp_all add: reconciliation_json_def opt_field_def through_order_status)

lemma through_sim_evidence [simp]: "through_json (sim_evidence_json s) = sim_evidence_json s"
  by (cases "se_simulationId s") (simp_all add: sim_evidence_json_def opt_field_def)

lemma opt_field_through:
  assumes "\<And>y. x = Some y \<Longrightarrow> f y \<noteq> JUndef \<and> through_json (f y) = f y"
  shows "map (\<lambda>(k, v). (k, through_json v)) (filter (\<lambda>(k, v). v \<noteq> JUndef) (opt_field k f x)) =
     opt_field k f x"
  using assms by (cases x) (simp_all add: opt_field_def)

lemma through_result_json:
  assumes "result_finite r" shows "through_json (result_json r) = result_json r"
proof -
  have "reconciliation_json c \<noteq> JUndef" "sim_evidence_json s \<noteq> JUndef" for c s
    by (simp_all add: reconciliation_json_def sim_evidence_json_def)
  with assms show ?thesis
    unfolding result_json_def through_json.simps filter_append map_append
    by (subst opt_field_through, force simp: result_finite_def through_order_status
        through_reconciliation)+ simp
qed

lemma js_get_JObj: "js_get (JObj kvs) k = (case map_of kvs k of Some x \<Rightarrow> x | None \<Rightarrow> JUndef)"
  by (simp add: js_get_def)

lemma map_of_through:
  "map_of kvs k = Some v \<Longrightarrow> v \<noteq> JUndef \<Longrightarrow>
   map_of (members (through_json (JObj kvs))) k = Some (through_json v)"
  by (induction kvs) (auto split: if_splits)

lemma parse_order_status_nonfinite:
  "\<not> order_status_finite s \<Longrightarrow> parse_order_status (through_json (order_status_json s)) = None"
  by (auto simp: order_status_finite_def order_status_json_def parse_order_status_def Let_def
      required_def)

lemma parse_reconciliation_nonfinite:
  assumes "\<not> (order_status_finite (rc_expected c) \<and> pred_option order_status_finite (rc_observed c))"
  shows "parse_reconciliation h (through_json (reconciliation_json c)) = None"
proof -
  have "required (map_of (members (through_json (reconciliation_json c)))) ''expected'' parse_order_status
      = None" if "\<not> order_status_finite (rc_expected c)"
    using that by (simp add: reconciliation_json_def required_def parse_order_status_nonfinite
        opt_field_def split: option.split)
  moreover have "optional (map_of (members (through_json (reconciliation_json c)))) ''observed''
      parse_order_status = None" if "\<not> pred_option order_status_finite (rc_observed c)"
    using that by (auto simp: reconciliation_json_def optional_def parse_order_status_nonfinite
        opt_field_def pred_option_iff split: option.split)
  ultimately show ?thesis
    using assms by (auto simp: parse_reconciliation_def Let_def bind_eq_None_conv)
qed

lemma parse_variant_bad_field:
  assumes "map_of (members v) k = Some w" "w \<noteq> JUndef" "sound_variant va"
    and "k = ''orderStatus'' \<and> parse_order_status w = None \<or>
      k = ''reconciliation'' \<and> parse_reconciliation h w = None"
  shows "parse_variant h v va = None"
proof (cases "k \<in> set (va_required va) \<union> set (va_optional va)")
  case True
  then have none: "field_of va (map_of (members v)) ''orderStatus'' parse_order_status = None \<or>
      field_of va (map_of (members v)) ''reconciliation'' (parse_reconciliation h) = None"
    using assms(1,2,4) by (auto simp: field_of_def required_def optional_def)
  show ?thesis
  proof (rule ccontr)
    assume "parse_variant h v va \<noteq> None"
    then show False using none
      unfolding parse_variant_def Let_def by (auto simp: bind_eq_Some_conv split: if_splits)
  qed
next
  case False
  have "k \<notin> set (variant_keys va)"
    using False assms(4) by (auto simp: variant_keys_def base_keys_def)
  moreover have "k \<in> fst ` set (members v)"
    using assms(1) by (metis map_of_eq_None_iff option.distinct(1))
  ultimately have "\<not> strict (variant_keys va) (members v)"
    by (auto simp: strict_def list_all_iff)
  then show ?thesis by (simp add: parse_variant_def Let_def)
qed

lemma parse_result_nonfinite:
  assumes "\<not> result_finite r"
  shows "parse_result h (through_json (result_json r)) = None"
proof -
  have mem: "map_of (members (through_json (result_json r))) k = Some (through_json w)"
    if "map_of (members (result_json r)) k = Some w" "w \<noteq> JUndef" for k w
  proof -
    have "result_json r = JObj (members (result_json r))" by (simp add: result_json_def)
    with map_of_through [OF that] show ?thesis by simp
  qed
  have json: "order_status_json s \<noteq> JUndef" "reconciliation_json c \<noteq> JUndef" for s c
    by (simp_all add: reconciliation_json_def)
  obtain k w where bad: "map_of (members (through_json (result_json r))) k = Some w" "w \<noteq> JUndef"
    "k = ''orderStatus'' \<and> parse_order_status w = None \<or>
     k = ''reconciliation'' \<and> parse_reconciliation h w = None"
  proof (cases "pred_option order_status_finite (xr_orderStatus r)")
    case False
    then obtain s where s: "xr_orderStatus r = Some s" "\<not> order_status_finite s"
      by (auto simp: pred_option_iff)
    have "map_of (members (result_json r)) ''orderStatus'' = Some (order_status_json s)"
      using result_members(7) [of r] s(1) by simp
    from mem [OF this json(1)] that show ?thesis
      using parse_order_status_nonfinite [OF s(2)] by fastforce
  next
    case True
    then obtain c where c: "xr_reconciliation r = Some c"
      "\<not> (order_status_finite (rc_expected c) \<and> pred_option order_status_finite (rc_observed c))"
      using assms unfolding result_finite_def pred_option_iff by blast
    have "map_of (members (result_json r)) ''reconciliation'' = Some (reconciliation_json c)"
      using result_members(8) [of r] c(1) by simp
    from mem [OF this json(2)] that show ?thesis
      using parse_reconciliation_nonfinite [OF c(2)] by fastforce
  qed
  have "parse_variant h (through_json (result_json r)) va = None" if "va \<in> set result_variants" for va
    using parse_variant_bad_field [OF bad(1,2) _ bad(3)] result_variants_sound that
    by (simp add: list_all_iff)
  then show ?thesis
    unfolding parse_result_def by (metis first_some_SomeD option.exhaust option.distinct(1))
qed

lemma parse_result_through:
  "parse_result h (through_json (result_json r)) = (if result_ok h r then Some r else None)"
proof (cases "result_finite r")
  case False
  with result_ok_finite parse_result_nonfinite show ?thesis by auto
qed (simp add: through_result_json parse_result_json)

text \<open>Reading an entry back.\<close>

definition reread :: "host \<Rightarrow> string \<Rightarrow> file_entry \<Rightarrow> exn + file_entry" where
  "reread h k e = parseFileEntry h k (through_json (file_entry_json e))"

lemma result_json_object [simp]: "result_json r \<noteq> JUndef"
  by (simp add: result_json_def)

lemma cached_members:
  assumes "pred_option (\<lambda>v. v \<noteq> JUndef) (fc_pendingAudit c)"
  shows "js_get (through_json (file_entry_json (FileCached c))) ''status'' = JStr ''cached''"
    "js_get (through_json (file_entry_json (FileCached c))) ''payloadHash'' = JStr (fc_payloadHash c)"
    "js_get (through_json (file_entry_json (FileCached c))) ''result'' =
       through_json (result_json (fc_result c))"
    "js_get (through_json (file_entry_json (FileCached c))) ''pendingAudit'' =
       (case fc_pendingAudit c of None \<Rightarrow> JUndef | Some v \<Rightarrow> through_json v)"
    "js_get (through_json (file_entry_json (FileCached c))) ''pendingAuditHash'' =
       (case fc_pendingAuditHash c of None \<Rightarrow> JUndef | Some s \<Rightarrow> JStr s)"
    "is_object (through_json (file_entry_json (FileCached c)))"
  using assms by (cases "fc_pendingAudit c"; cases "fc_pendingAuditHash c";
      simp add: js_get_def opt_field_def)+

lemma reread_cached:
  assumes "pred_option (\<lambda>v. v \<noteq> JUndef) (fc_pendingAudit c)"
  shows "reread h k (FileCached c) =
    (if \<not> lower_hex64 (fc_payloadHash c) then Inl (invalid_entry k ''payloadHash is invalid.'')
     else if \<not> result_ok h (fc_result c) then Inl (invalid_entry k ''cached result is invalid.'')
     else case validatePendingAudit h k (fc_result c)
         (case fc_pendingAudit c of None \<Rightarrow> JUndef | Some v \<Rightarrow> through_json v)
         (fc_pendingAuditHash c) of
       Inl e \<Rightarrow> Inl e
     | Inr pa \<Rightarrow> Inr (FileCached (c\<lparr>fc_pendingAudit := pa\<rparr>)))"
proof -
  have h: "(case (case fc_pendingAuditHash c of None \<Rightarrow> JUndef | Some s \<Rightarrow> JStr s) of
      JStr s \<Rightarrow> Some s | _ \<Rightarrow> None) = fc_pendingAuditHash c"
    by (simp split: option.split)
  show ?thesis
    unfolding reread_def parseFileEntry_def cached_members [OF assms] parse_result_through
    by (auto simp: h Let_def split: sum.split)
qed

lemma reread_in_progress:
  "reread h k (FileInProgress ph) =
     (if lower_hex64 ph then Inr (FileInProgress ph)
      else Inl (invalid_entry k ''payloadHash is invalid.''))"
  by (simp add: reread_def parseFileEntry_def js_get_def)

subsection \<open>Slots of the file\<close>

fun entry_slot :: "file_entry \<Rightarrow> slot" where
  "entry_slot (FileInProgress ph) = InFlight ph"
| "entry_slot (FileCached c) = Done (fc_payloadHash c) (fc_result c)"

definition state_slot :: "file_state \<Rightarrow> string \<Rightarrow> slot" where
  "state_slot st k = (case map_of st k of None \<Rightarrow> Free | Some e \<Rightarrow> entry_slot e)"

definition disk_slot :: "host \<Rightarrow> disk \<Rightarrow> string \<Rightarrow> slot" where
  "disk_slot h d k = (case readState h d of Inl e \<Rightarrow> Unreadable | Inr st \<Rightarrow> state_slot st k)"

definition entry_wf :: "file_entry \<Rightarrow> bool" where
  "entry_wf e = (case e of FileInProgress ph \<Rightarrow> True
     | FileCached c \<Rightarrow> pred_option (\<lambda>v. v \<noteq> JUndef) (fc_pendingAudit c))"

lemma reread_slot: "entry_wf e \<Longrightarrow> reread h k e = Inr e' \<Longrightarrow> entry_slot e' = entry_slot e"
  by (cases e) (auto simp: entry_wf_def reread_in_progress reread_cached split: if_splits sum.splits)

lemma validatePendingAudit_Inr:
  "validatePendingAudit h key r v hash = Inr pa \<Longrightarrow> pa = (if v = JUndef then None else Some v)"
  by (auto simp: validatePendingAudit_def split: if_splits)

text \<open>Every entry that was read is well formed and reads back as it is.\<close>

lemma read_entry_stable:
  assumes "parseFileEntry h k v = Inr e" "through_json v = v"
  shows "entry_wf e \<and> reread h k e = Inr e"
proof (cases e)
  case (FileInProgress ph)
  then show ?thesis using assms(1)
    by (auto simp: parseFileEntry_def reread_in_progress entry_wf_def Let_def
        split: if_splits jsval.splits option.splits sum.splits)
next
  case (FileCached c)
  then have c: "lower_hex64 (fc_payloadHash c)"
    "parse_result h (js_get v ''result'') = Some (fc_result c)"
    "validatePendingAudit h k (fc_result c) (js_get v ''pendingAudit'') (fc_pendingAuditHash c) =
       Inr (fc_pendingAudit c)"
    using assms(1)
    by (auto simp: parseFileEntry_def Let_def split: if_splits jsval.splits option.splits sum.splits)
  have pa: "fc_pendingAudit c =
      (if js_get v ''pendingAudit'' = JUndef then None else Some (js_get v ''pendingAudit''))"
    by (rule validatePendingAudit_Inr [OF c(3)])
  then have wf: "pred_option (\<lambda>v. v \<noteq> JUndef) (fc_pendingAudit c)" by simp
  have "(case fc_pendingAudit c of None \<Rightarrow> JUndef | Some v \<Rightarrow> through_json v) = js_get v ''pendingAudit''"
    using pa through_json_fixed_get [OF assms(2)] by simp
  with c(3) have "validatePendingAudit h k (fc_result c)
      (case fc_pendingAudit c of None \<Rightarrow> JUndef | Some v \<Rightarrow> through_json v) (fc_pendingAuditHash c) =
      Inr (fc_pendingAudit c)" by simp
  with c(1) parse_result_ok [OF c(2)] wf show ?thesis
    by (simp add: FileCached reread_cached entry_wf_def)
qed

lemma parse_entries_each:
  "parse_entries h kvs = Inr st \<Longrightarrow> (k, e) \<in> set st \<Longrightarrow> \<exists>v. (k, v) \<in> set kvs \<and> parseFileEntry h k v = Inr e"
proof (induction h kvs arbitrary: st rule: parse_entries.induct)
  case (2 h l v kvs)
  from 2(2) obtain x xs where x: "parseFileEntry h l v = Inr x" "parse_entries h kvs = Inr xs"
    "st = (l, x) # xs" by (auto split: sum.splits)
  show ?case
  proof (cases "(k, e) = (l, x)")
    case False
    with 2(3) x(3) have "(k, e) \<in> set xs" by auto
    from 2(1) [OF x(1,2) this] show ?thesis by auto
  qed (use x(1) in auto)
qed simp

lemma parse_entries_lookup:
  "parse_entries h (map (\<lambda>(k, e). (k, through_json (file_entry_json e))) st) = Inr st' \<Longrightarrow>
   rel_option (\<lambda>e e'. reread h k e = Inr e') (map_of st k) (map_of st' k)"
  by (induction st arbitrary: st') (auto simp: reread_def split: sum.splits)

lemma file_entry_json_defined [simp]: "file_entry_json e \<noteq> JUndef"
  by (cases e) auto

lemma readState_written:
  "readState h (FileJson (file_state_json st)) =
     parse_entries h (map (\<lambda>(k, e). (k, through_json (file_entry_json e))) st)"
proof -
  have "filter (\<lambda>(k, v). v \<noteq> JUndef) (map (\<lambda>(k, e). (k, file_entry_json e)) st) =
      map (\<lambda>(k, e). (k, file_entry_json e)) st"
    by (auto simp: filter_id_conv)
  then show ?thesis
    by (simp add: readState_def parseFileState_def file_state_json_def js_get_def has_key_def
        o_def case_prod_unfold)
qed

lemma readState_stable:
  assumes "readState h d = Inr st" "(k, e) \<in> set st"
  shows "entry_wf e \<and> reread h k e = Inr e"
proof -
  from assms(1) obtain v where "st = [] \<or> d = FileJson v \<and> parseFileState h (through_json v) = Inr st"
    by (auto simp: readState_def split: disk.splits)
  with assms(2) have v: "parseFileState h (through_json v) = Inr st" by auto
  define w where "w = js_get (through_json v) ''entries''"
  have w: "is_object w" "parse_entries h (members w) = Inr st"
    using v by (auto simp: parseFileState_def w_def split: if_splits)
  have "through_json w = w"
    unfolding w_def by (rule through_json_fixed_get) (use w(1) in \<open>auto simp: w_def\<close>)
  obtain x where x: "(k, x) \<in> set (members w)" "parseFileEntry h k x = Inr e"
    using parse_entries_each [OF w(2) assms(2)] by blast
  have "w = JObj (members w)" using w(1) by (cases w) auto
  with \<open>through_json w = w\<close> x(1) through_json_fixed_object [of "members w" k x]
  have "through_json x = x" by simp
  with read_entry_stable [OF x(2)] show ?thesis by blast
qed

lemma map_of_put [simp]: "map_of (put_entry k e st) = (map_of st)(k \<mapsto> e)"
  by (induction k e st rule: put_entry.induct) auto

lemma map_of_delete [simp]: "map_of (delete_entry k st) = (map_of st)(k := None)"
  by (rule ext) (induction st; auto simp: delete_entry_def)

lemma written_slot:
  assumes "\<And>k e. map_of st k = Some e \<Longrightarrow> entry_wf e"
  shows "disk_slot h (FileJson (file_state_json st)) k \<in> {state_slot st k, Unreadable}"
proof (cases "readState h (FileJson (file_state_json st))")
  case (Inr st')
  then have "rel_option (\<lambda>e e'. reread h k e = Inr e') (map_of st k) (map_of st' k)"
    by (intro parse_entries_lookup) (simp add: readState_written)
  then have "state_slot st' k = state_slot st k"
    using assms [of k] by (cases rule: option.rel_cases) (auto simp: state_slot_def reread_slot)
  with Inr show ?thesis by (simp add: disk_slot_def)
qed (simp add: disk_slot_def)

lemma entry_slot_not_free [simp]: "entry_slot e \<noteq> Free" "entry_slot e \<noteq> Unreadable"
  by (cases e; simp)+

text \<open>A locked update, seen from the slots.\<close>

lemma locked_slot:
  assumes "withLockedState h io update d = (r, d')"
    and "\<And>st k e. readState h d = Inr st \<Longrightarrow> map_of (snd (update st)) k = Some e \<Longrightarrow>
      map_of st k = Some e \<or> entry_wf e"
  shows "d' = d \<or> (\<exists>st. readState h d = Inr st \<and>
    disk_slot h d' k \<in> {state_slot (snd (update st)) k, Unreadable})"
proof (cases "d' = d")
  case False
  then obtain st where st: "readState h d = Inr st" "d' = FileJson (file_state_json (snd (update st)))"
    using assms(1)
    by (auto simp: withLockedState_def split: io_fault.splits sum.splits prod.splits)
  have "entry_wf e" if "map_of (snd (update st)) k = Some e" for k e
    using assms(2) [OF st(1) that] readState_stable [OF st(1) map_of_SomeD] by blast
  from written_slot [OF this] st show ?thesis by auto
qed simp

lemma locked_unreadable:
  assumes "withLockedState h io update d = (r, d')" "disk_slot h d k = Unreadable"
  shows "d' = d"
proof -
  have "\<exists>e. readState h d = Inl e"
    using assms(2) by (auto simp: disk_slot_def state_slot_def split: sum.splits option.splits)
  then show ?thesis using assms(1) by (auto simp: withLockedState_def split: io_fault.splits)
qed

lemma written_free:
  "disk_slot h (FileJson (file_state_json st)) k = Free \<longrightarrow> map_of st k = None"
proof (cases "readState h (FileJson (file_state_json st))")
  case (Inr st')
  then have "rel_option (\<lambda>e e'. reread h k e = Inr e') (map_of st k) (map_of st' k)"
    by (intro parse_entries_lookup) (simp add: readState_written)
  then show ?thesis
    by (cases rule: option.rel_cases) (auto simp: Inr disk_slot_def state_slot_def)
qed (simp add: disk_slot_def)

lemma locked_taken:
  assumes "withLockedState h io update d = (r, d')"
    and "\<And>st. readState h d = Inr st \<Longrightarrow> map_of st k \<noteq> None \<Longrightarrow> map_of (snd (update st)) k \<noteq> None"
    and "disk_slot h d k \<noteq> Free"
  shows "disk_slot h d' k \<noteq> Free"
proof (cases "d' = d")
  case False
  then obtain st where st: "readState h d = Inr st" "d' = FileJson (file_state_json (snd (update st)))"
    using assms(1) by (auto simp: withLockedState_def split: io_fault.splits sum.splits prod.splits)
  then have "map_of st k \<noteq> None" using assms(3)
    by (auto simp: disk_slot_def state_slot_def split: option.splits)
  from assms(2) [OF st(1) this] show ?thesis using written_free [of h "snd (update st)" k] st(2) by auto
qed (use assms(3) in simp)

subsection \<open>Processes over one file\<close>

text \<open>
  The processes of a deployment share the file. \<open>FileOp n io c x\<close> is an operation of process \<open>n\<close>,
  under a fault of the file system; \<open>c\<close> tells the \<open>completeAudit\<close> of a cached answer from that of
  a reservation. \<open>Restart n\<close> is a process that crashed and starts with an empty memory.
\<close>

type_synonym file_system = "(nat \<Rightarrow> process) \<times> disk"

datatype file_op = FileOp nat io_fault bool store_op | Restart nat

fun fs_perform :: "host \<Rightarrow> io_fault \<Rightarrow> bool \<Rightarrow> store_op \<Rightarrow> file_store \<Rightarrow> file_store" where
  "fs_perform h io c (OpBegin key i) s = snd (fs_begin h io key i s)"
| "fs_perform h io c (OpComplete k ph r pa) s = snd (fs_complete h io k ph r pa s)"
| "fs_perform h io c (OpCompleteAudit k ph) s =
     snd (if c then fs_completeCachedAudit h io k ph s else fs_completeAudit h io k ph s)"
| "fs_perform h io c (OpFailAudit k ph e) s = fs_failAudit k ph e s"
| "fs_perform h io c (OpAbort k ph e) s = snd (fs_abort h io k ph e s)"

definition new_process :: process where
  "new_process = \<lparr>fp_pending = (\<lambda>_. None),
     fp_promises = \<lparr>pr_next = 0, pr_settled = (\<lambda>_. None)\<rparr>\<rparr>"

fun file_perform :: "host \<Rightarrow> file_op \<Rightarrow> file_system \<Rightarrow> file_system" where
  "file_perform h (FileOp n io c x) (ps, d) =
     (case fs_perform h io c x (ps n, d) of (pr, d') \<Rightarrow> (ps(n := pr), d'))"
| "file_perform h (Restart n) (ps, d) = (ps(n := new_process), d)"

fun file_op_of :: "file_op \<Rightarrow> store_op option" where
  "file_op_of (FileOp n io c x) = Some x"
| "file_op_of (Restart n) = None"

fun file_granted :: "host \<Rightarrow> file_op \<Rightarrow> file_system \<Rightarrow> bool" where
  "file_granted h (FileOp n io c (OpBegin key i)) (ps, d) \<longleftrightarrow>
     fst (fs_begin h io key i (ps n, d)) = Inr Reserved"
| "file_granted h _ s \<longleftrightarrow> False"

definition file_free :: "host \<Rightarrow> file_system \<Rightarrow> string \<Rightarrow> bool" where
  "file_free h s k \<longleftrightarrow> disk_slot h (snd s) k = Free"

lemma fs_begin_disk:
  assumes "fs_begin h io key i (pr, d) = (ans, (pr', d'))"
  shows "d' = d \<or> (\<exists>r. withLockedState h io (\<lambda>st. case map_of st (scopeIdempotencyKey h key i) of
      Some e \<Rightarrow> (Some e, st)
    | None \<Rightarrow> (None, put_entry (scopeIdempotencyKey h key i)
        (FileInProgress (hashIntentPayload h i)) st)) d = (r, d') \<and> (ans = Inr Reserved \<longrightarrow> r = Inr None))"
  using assms
  by (auto simp: fs_begin_def Let_def split: option.splits if_splits prod.splits sum.splits
      file_entry.splits)

lemma fs_begin_granted:
  assumes "fs_begin h io key i (pr, d) = (Inr Reserved, (pr', d'))"
  shows "io = IoOk \<and> (\<exists>st. readState h d = Inr st \<and> map_of st (scopeIdempotencyKey h key i) = None \<and>
    d' = FileJson (file_state_json (put_entry (scopeIdempotencyKey h key i)
      (FileInProgress (hashIntentPayload h i)) st)))"
  using assms
  by (auto simp: fs_begin_def withLockedState_def Let_def
      split: option.splits if_splits prod.splits sum.splits file_entry.splits io_fault.splits)

lemma fs_perform_taken:
  assumes "fs_perform h io c x (pr, d) = (pr', d')" "disk_slot h d k \<noteq> Free"
    and "\<And>ph e. x \<noteq> OpAbort k ph e"
  shows "disk_slot h d' k \<noteq> Free"
proof -
  have locked: "disk_slot h d'' k \<noteq> Free"
    if "withLockedState h io update d = (r, d'')"
      "\<And>st. map_of st k \<noteq> None \<Longrightarrow> map_of (snd (update st)) k \<noteq> None"
    for update :: "file_state \<Rightarrow> 'a \<times> file_state" and r d''
    using that locked_taken [of h io update d r d'' k] assms(2) by blast
  note split = option.splits if_splits prod.splits sum.splits
  show ?thesis
  proof (cases x)
    case (OpBegin key i)
    with assms(1) obtain ans where "fs_begin h io key i (pr, d) = (ans, (pr', d'))"
      by (cases "fs_begin h io key i (pr, d)") auto
    from fs_begin_disk [OF this] assms(2) show ?thesis
      by (elim disjE exE conjE) (simp, erule locked, auto split: option.splits)
  next
    case (OpComplete k' ph r pa)
    have "map_of (snd ((), put_entry k' e st)) k \<noteq> None" if "map_of st k \<noteq> None" for e st
      using that by simp
    note locked [OF _ this]
    with OpComplete assms(1,2) show ?thesis by (auto simp: fs_complete_def split: split)
  next
    case (OpCompleteAudit k' ph)
    have "map_of (snd (clear_audit k' ph st)) k \<noteq> None" if "map_of st k \<noteq> None" for st
      using that by (auto simp: clear_audit_def split: option.split file_entry.split)
    note locked [OF _ this]
    with OpCompleteAudit assms(1,2) show ?thesis
      by (auto simp: fs_completeAudit_def fs_completeCachedAudit_def split: split)
  next
    case (OpFailAudit k' ph e)
    with assms(1,2) show ?thesis by (auto simp: fs_failAudit_def split: split)
  next
    case (OpAbort k' ph e)
    with assms(3) have "k' \<noteq> k" by blast
    then have "map_of (snd ((), if map_of st k' = Some (FileInProgress ph)
        then delete_entry k' st else st)) k \<noteq> None" if "map_of st k \<noteq> None" for st
      using that by simp
    note locked [OF _ this]
    with OpAbort assms(1,2) show ?thesis by (auto simp: fs_abort_def split: split)
  qed
qed

interpretation disk: idempotency_safety "file_free h" "scopeIdempotencyKey h" file_op_of
  "file_granted h" "file_perform h" for h
proof
  fix s :: file_system and k and opr :: file_op
  assume "\<not> file_free h s k" "\<And>ph e. file_op_of opr \<noteq> Some (OpAbort k ph e)"
  then show "\<not> file_free h (file_perform h opr s) k"
    by (cases s; cases opr) (auto simp: file_free_def fs_perform_taken split: prod.splits)
next
  fix opr :: file_op and s :: file_system
  assume g: "file_granted h opr s"
  obtain ps d where s: "s = (ps, d)" by fastforce
  with g obtain n io c key i where o: "opr = FileOp n io c (OpBegin key i)"
    and b: "fst (fs_begin h io key i (ps n, d)) = Inr Reserved"
    by (cases "(h, opr, s)" rule: file_granted.cases) auto
  then obtain pr' d' where b: "fs_begin h io key i (ps n, d) = (Inr Reserved, (pr', d'))"
    by (metis prod.collapse)
  obtain st where st: "readState h d = Inr st" "map_of st (scopeIdempotencyKey h key i) = None"
    "d' = FileJson (file_state_json (put_entry (scopeIdempotencyKey h key i)
      (FileInProgress (hashIntentPayload h i)) st))"
    using fs_begin_granted [OF b] by blast
  have "disk_slot h d (scopeIdempotencyKey h key i) = Free"
    using st(1,2) by (simp add: disk_slot_def state_slot_def)
  moreover have "disk_slot h d' (scopeIdempotencyKey h key i) \<noteq> Free"
    using written_free [of h _ "scopeIdempotencyKey h key i"] st(3) by fastforce
  ultimately show "\<exists>key i. file_op_of opr = Some (OpBegin key i) \<and>
      file_free h s (scopeIdempotencyKey h key i) \<and>
      \<not> file_free h (file_perform h opr s) (scopeIdempotencyKey h key i)"
    using b by (simp add: o s file_free_def)
qed

subsection \<open>Writing and reading back\<close>

lemma parse_entries_same:
  assumes "\<And>k e. (k, e) \<in> set st \<Longrightarrow> reread h k e = Inr e"
  shows "parse_entries h (map (\<lambda>(k, e). (k, through_json (file_entry_json e))) st) = Inr st"
  using assms by (induction st) (auto simp: reread_def)

lemma parse_entries_bad:
  assumes "\<And>l x. (l, x) \<in> set st \<Longrightarrow> (l, x) \<noteq> (k, e) \<Longrightarrow> reread h l x = Inr x"
    and "(k, e) \<in> set st" "reread h k e = Inl m"
  shows "parse_entries h (map (\<lambda>(k, e). (k, through_json (file_entry_json e))) st) = Inl m"
  using assms
proof (induction st)
  case (Cons y st)
  show ?case
  proof (cases "y = (k, e)")
    case False
    with Cons.prems have "reread h (fst y) (snd y) = Inr (snd y)" "(k, e) \<in> set st"
      by (cases y; auto)+
    moreover from Cons.IH [OF _ this(2) Cons.prems(3)] Cons.prems(1)
    have "parse_entries h (map (\<lambda>(k, e). (k, through_json (file_entry_json e))) st) = Inl m" by simp
    ultimately show ?thesis by (cases y) (simp add: reread_def)
  qed (use Cons.prems(3) in \<open>simp add: reread_def\<close>)
qed simp

lemma put_entry_set: "(l, x) \<in> set (put_entry k e st) \<Longrightarrow> (l, x) = (k, e) \<or> (l, x) \<in> set st"
  by (induction k e st rule: put_entry.induct) (auto split: if_splits)

lemma put_entry_mem: "(k, e) \<in> set (put_entry k e st)"
  by (induction k e st rule: put_entry.induct) auto

lemma parse_entries_put:
  assumes "\<And>l x. (l, x) \<in> set st \<Longrightarrow> reread h l x = Inr x" "reread h k e = Inr e'"
  shows "parse_entries h (map (\<lambda>(k, e). (k, through_json (file_entry_json e))) (put_entry k e st)) =
    Inr (put_entry k e' st)"
  using assms
proof (induction k e st rule: put_entry.induct)
  case (2 k e l x st)
  from 2(2) [of l x] have "reread h l x = Inr x" by simp
  moreover have "parse_entries h (map (\<lambda>(k, e). (k, through_json (file_entry_json e))) st) = Inr st"
    by (rule parse_entries_same) (rule 2(2), simp)
  moreover have "k \<noteq> l \<Longrightarrow> parse_entries h (map (\<lambda>(k, e). (k, through_json (file_entry_json e))) (put_entry k e st)) =
      Inr (put_entry k e' st)"
    using 2 by simp
  ultimately show ?case using 2(3) by (cases "k = l") (simp_all add: reread_def)
qed (simp add: reread_def)

lemma put_read:
  assumes "readState h d = Inr st" "reread h k e = Inr e'"
  shows "readState h (FileJson (file_state_json (put_entry k e st))) = Inr (put_entry k e' st)"
  unfolding readState_written
  by (rule parse_entries_put) (use readState_stable [OF assms(1)] assms(2) in auto)

lemma put_unreadable:
  assumes "readState h d = Inr st" "reread h k e = Inl m"
  shows "readState h (FileJson (file_state_json (put_entry k e st))) = Inl m"
proof -
  have "reread h l x = Inr x" if "(l, x) \<in> set (put_entry k e st)" "(l, x) \<noteq> (k, e)" for l x
    using put_entry_set [OF that(1)] that(2) readState_stable [OF assms(1)] by blast
  from parse_entries_bad [OF this put_entry_mem assms(2)] show ?thesis
    by (simp add: readState_written)
qed

lemma fs_complete_held:
  assumes "fp_pending pr k = Some (ph, p)" "readState h d = Inr st"
  shows "fs_complete h IoOk k ph r None (pr, d) = (Inr (), (settle_pending p (Inr r) (drop_pending k pr),
    FileJson (file_state_json (put_entry k (FileCached \<lparr>fc_payloadHash = ph, fc_result = r,
      fc_pendingAudit = None, fc_pendingAuditHash = None\<rparr>) st))))"
  using assms by (simp add: fs_complete_def withLockedState_def)

lemma reread_completed:
  assumes "lower_hex64 ph"
  shows "reread h k (FileCached \<lparr>fc_payloadHash = ph, fc_result = r, fc_pendingAudit = None,
      fc_pendingAuditHash = None\<rparr>) =
    (if result_ok h r then Inr (FileCached \<lparr>fc_payloadHash = ph, fc_result = r,
       fc_pendingAudit = None, fc_pendingAuditHash = None\<rparr>)
     else Inl (invalid_entry k ''cached result is invalid.''))"
  using assms by (simp add: reread_cached validatePendingAudit_def)

subsection \<open>Properties\<close>

text \<open>A pending audit that a reader accepts beside the result: the event it reads (the JSON text of the
  one given) is an audit event of the result, and its hash is the stored one.\<close>

definition audit_fits :: "host \<Rightarrow> exec_result \<Rightarrow> audit_event \<Rightarrow> bool" where
  "audit_fits h r a \<longleftrightarrow> (let v = through_json (audit_event_json a) in
     lower_hex64 (hashPendingAudit h a) \<and> isBrokerAuditEvent v \<and> ae_eventType a = expected_event_type r \<and>
     js_get v ''intentId'' = JStr (xr_intentId r) \<and> pendingAuditDataMatchesResult h (js_get v ''data'') r \<and>
     sha256_hex h (stable_stringify h v) = hashPendingAudit h a)"

lemma audit_event_members:
  "js_get (through_json (audit_event_json a)) ''eventType'' = JStr (ae_eventType a)"
  "audit_event_json a \<noteq> JUndef" "through_json (audit_event_json a) \<noteq> JUndef"
  by (cases "ae_eventId a"; cases "ae_intentId a"; cases "ae_principal a";
      simp add: audit_event_json_def js_get_def opt_field_def)+

lemma validate_fitting:
  "validatePendingAudit h k r (through_json (audit_event_json a)) (Some (hashPendingAudit h a)) =
     Inr (Some (through_json (audit_event_json a)))" if "audit_fits h r a"
  using that by (simp add: validatePendingAudit_def audit_fits_def Let_def audit_event_members)

lemma validate_misfitting:
  "\<exists>m. validatePendingAudit h k r (through_json (audit_event_json a)) (Some (hashPendingAudit h a)) =
     Inl (invalid_entry k m)" if "\<not> audit_fits h r a"
  using that by (auto simp: validatePendingAudit_def audit_fits_def Let_def audit_event_members
      split: option.splits)

lemma complete_cases:
  assumes "fp_pending pr k = Some (ph, p)" "readState h d = Inr st"
    and "fs_complete h io k ph r pa (pr, d) = (x, (pr', d'))"
  shows "x = (case io of IoOk \<Rightarrow> Inr () | FailsBefore e \<Rightarrow> Inl e | FailsAfter e \<Rightarrow> Inl e)"
    "d' = (case io of FailsBefore e \<Rightarrow> d | _ \<Rightarrow> FileJson (file_state_json (put_entry k (FileCached
       \<lparr>fc_payloadHash = ph, fc_result = r, fc_pendingAudit = map_option audit_event_json pa,
        fc_pendingAuditHash = map_option (hashPendingAudit h) pa\<rparr>) st)))"
    "pr' = (case x of Inl e \<Rightarrow> settle_pending p (Inl e) (drop_pending k pr)
      | Inr _ \<Rightarrow> if pa = None then settle_pending p (Inr r) (drop_pending k pr) else pr)"
  using assms by (cases io; auto simp: fs_complete_def withLockedState_def)+

text \<open>C9. What the holder of a reservation completes is read back by every process, or nothing is
  readable. A \<open>complete\<close> whose file update fails before the rename leaves the file as it was; one that
  reaches the rename, also when the directory sync then fails, leaves the entries the file held with the
  completed one, its pending audit as JSON carries it, exactly when the result satisfies the result
  schema and the pending audit, if one is given, fits the result; otherwise no process can read the file
  any more. The promise of the reservation gets the exception or the result, and stays open for a
  pending audit.\<close>

theorem file_store_reads_back:
  assumes "fp_pending pr k = Some (ph, p)" "readState h d = Inr st" "lower_hex64 ph"
    and "fs_complete h io k ph r pa (pr, d) = (x, (pr', d'))"
  shows "x = (case io of IoOk \<Rightarrow> Inr () | FailsBefore e \<Rightarrow> Inl e | FailsAfter e \<Rightarrow> Inl e) \<and>
    (case io of FailsBefore e \<Rightarrow> d' = d
     | _ \<Rightarrow>
         if \<not> result_ok h r then readState h d' = Inl (invalid_entry k ''cached result is invalid.'')
         else if \<exists>a. pa = Some a \<and> \<not> audit_fits h r a then \<exists>m. readState h d' = Inl (invalid_entry k m)
         else readState h d' = Inr (put_entry k (FileCached \<lparr>fc_payloadHash = ph, fc_result = r,
           fc_pendingAudit = map_option (\<lambda>a. through_json (audit_event_json a)) pa,
           fc_pendingAuditHash = map_option (hashPendingAudit h) pa\<rparr>) st)) \<and>
    pr' = (case x of Inl e \<Rightarrow> settle_pending p (Inl e) (drop_pending k pr)
      | Inr _ \<Rightarrow> if pa = None then settle_pending p (Inr r) (drop_pending k pr) else pr)"
proof -
  note run = complete_cases [OF assms(1,2,4)]
  define c where "c = \<lparr>fc_payloadHash = ph, fc_result = r, fc_pendingAudit = map_option audit_event_json pa,
    fc_pendingAuditHash = map_option (hashPendingAudit h) pa\<rparr>"
  let ?c = "\<lparr>fc_payloadHash = ph, fc_result = r,
    fc_pendingAudit = map_option (\<lambda>a. through_json (audit_event_json a)) pa,
    fc_pendingAuditHash = map_option (hashPendingAudit h) pa\<rparr>"
  let ?d = "FileJson (file_state_json (put_entry k (FileCached c) st))"
  have "pred_option (\<lambda>v. v \<noteq> JUndef) (fc_pendingAudit c)"
    by (cases pa) (simp_all add: c_def audit_event_members(2))
  note once = reread_cached [OF this, of h k]
  have reads: "if \<not> result_ok h r then readState h ?d = Inl (invalid_entry k ''cached result is invalid.'')
      else if \<exists>a. pa = Some a \<and> \<not> audit_fits h r a then \<exists>m. readState h ?d = Inl (invalid_entry k m)
      else readState h ?d = Inr (put_entry k (FileCached ?c) st)"
  proof (cases pa)
    case None
    then have "reread h k (FileCached c) = (if result_ok h r then Inr (FileCached ?c)
        else Inl (invalid_entry k ''cached result is invalid.''))"
      using once assms(3) by (simp add: c_def validatePendingAudit_def)
    then show ?thesis
      using put_read [OF assms(2), of k "FileCached c"] put_unreadable [OF assms(2), of k "FileCached c"] None by simp
  next
    case (Some a)
    have "reread h k (FileCached c) = (if \<not> result_ok h r then Inl (invalid_entry k ''cached result is invalid.'')
        else case validatePendingAudit h k r (through_json (audit_event_json a)) (Some (hashPendingAudit h a)) of
          Inl e \<Rightarrow> Inl e | Inr pa \<Rightarrow> Inr (FileCached (c\<lparr>fc_pendingAudit := pa\<rparr>)))"
      using once assms(3) by (simp add: c_def Some)
    then show ?thesis
      using put_read [OF assms(2), of k "FileCached c"] put_unreadable [OF assms(2), of k "FileCached c"] Some
        validate_fitting [of h r a k] validate_misfitting [of h r a k]
      by (cases "audit_fits h r a") (auto simp: c_def)
  qed
  have d': "d' = (case io of FailsBefore e \<Rightarrow> d | _ \<Rightarrow> ?d)" unfolding c_def by (rule run(2))
  show ?thesis
  proof (intro conjI)
    show "x = (case io of IoOk \<Rightarrow> Inr () | FailsBefore e \<Rightarrow> Inl e | FailsAfter e \<Rightarrow> Inl e)" by (rule run(1))
    show "case io of FailsBefore e \<Rightarrow> d' = d
      | _ \<Rightarrow>
         if \<not> result_ok h r then readState h d' = Inl (invalid_entry k ''cached result is invalid.'')
         else if \<exists>a. pa = Some a \<and> \<not> audit_fits h r a then \<exists>m. readState h d' = Inl (invalid_entry k m)
         else readState h d' = Inr (put_entry k (FileCached ?c) st)"
      using reads unfolding d' by (cases io) (simp_all only: io_fault.case)
  qed (rule run(3))
qed

lemma begin_cached:
  assumes "fp_pending pr (scopeIdempotencyKey h key i) = None" "readState h d = Inr st"
    and "map_of st (scopeIdempotencyKey h key i) = Some (FileCached c)"
    and "fc_payloadHash c = hashIntentPayload h i"
  shows "fst (fs_begin h IoOk key i (pr, d)) = (case validateCachedEntryForIntent h key c i of
      Inl e \<Rightarrow> Inl e
    | Inr _ \<Rightarrow> Inr (Cached (fc_result c) (map_option event_of_json (fc_pendingAudit c))))"
  using assms by (simp add: fs_begin_def withLockedState_def Let_def split: sum.split)

text \<open>A completed request is replayed to every process: any process that has no pending
  request of its own for the key and asks with the same payload gets the stored result, if the
  result names the intent and carries evidence the reader accepts for it.\<close>

theorem file_store_replay:
  assumes "fp_pending pr k = Some (ph, p)" "readState h d = Inr st" "lower_hex64 ph"
    and "k = scopeIdempotencyKey h key i" "ph = hashIntentPayload h i" "fp_pending other k = None"
    and "result_ok h r" "xr_intentId r = in_intentId i" "xr_idempotencyKey r = in_idempotencyKey i"
    and "fs_complete h IoOk k ph r None (pr, d) = (x, (pr', d'))"
  shows "fst (fs_begin h IoOk key i (other, d')) =
    (case validateCachedResultEvidenceForIntent key r i of
       Inl e \<Rightarrow> Inl e | Inr _ \<Rightarrow> Inr (Cached r None))"
proof -
  let ?c = "\<lparr>fc_payloadHash = ph, fc_result = r, fc_pendingAudit = None, fc_pendingAuditHash = None\<rparr>"
  have "readState h d' = Inr (put_entry k (FileCached ?c) st)"
    using assms(7,10) unfolding fs_complete_held [OF assms(1,2)]
    by (auto intro!: put_read [OF assms(2)] simp: reread_completed [OF assms(3)])
  from begin_cached [OF _ this, of other key i ?c] show ?thesis
    using assms(4-6,8,9) by (simp add: validateCachedEntryForIntent_def split: sum.split)
qed

text \<open>The order-status replay of a request that did not succeed is an error: a stored result
  of a \<open>cex.get_order_status\<close> intent that has no order status, as the broker stores it for a
  connector that failed, is never replayed; the next request for it throws, although the in-memory
  store answers it.\<close>

theorem file_store_status_failure_not_replayed:
  assumes "fp_pending pr k = Some (ph, p)" "readState h d = Inr st" "lower_hex64 ph"
    and "k = scopeIdempotencyKey h key (CexOrderStatusIntent e x)"
    and "ph = hashIntentPayload h (CexOrderStatusIntent e x)" "fp_pending other k = None"
    and "result_ok h r" "xr_status r \<noteq> Executed" "xr_orderStatus r = None"
    and "fs_complete h IoOk k ph r None (pr, d) = (y, (pr', d'))"
  shows "\<exists>m. fst (fs_begin h IoOk key (CexOrderStatusIntent e x) (other, d')) = Inl (invalid_entry key m)"
proof -
  let ?c = "\<lparr>fc_payloadHash = ph, fc_result = r, fc_pendingAudit = None, fc_pendingAuditHash = None\<rparr>"
  have "readState h d' = Inr (put_entry k (FileCached ?c) st)"
    using assms(7,10) unfolding fs_complete_held [OF assms(1,2)]
    by (auto intro!: put_read [OF assms(2)] simp: reread_completed [OF assms(3)])
  from begin_cached [OF _ this, of other key "CexOrderStatusIntent e x" ?c] show ?thesis
    using assms(4-6,8,9)
    by (auto simp: validateCachedEntryForIntent_def validateCachedResultEvidenceForIntent_def)
qed

text \<open>A process that holds the reservation of the sample order, and its file.\<close>

definition sample_held :: "trading_intent \<Rightarrow> file_store" where
  "sample_held i = snd (fs_begin sample_host IoOk ''key1'' i (new_process, NoFile))"

definition sample_failure :: exec_result where
  "sample_failure = sample_result\<lparr>xr_status := Failed, xr_executionKind := None, xr_orderId := None,
     xr_rejectionReason := Some ''no answer''\<rparr>"

lemma sample_results_ok:
  "result_ok sample_host sample_result" "result_ok sample_host sample_failure"
  by (simp_all add: result_ok_iff fields_ok_def sample_result_def sample_failure_def
      result_variants_def fits_def present_def opt_field_def)

lemma sample_hash [simp]: "lower_hex64 (hashIntentPayload sample_host i)"
  by (simp add: hashIntentPayload_def lower_hex64_def list_all_iff is_lower_hex_def)

lemma sample_held:
  assumes "k = scopeIdempotencyKey sample_host ''key1'' i" "ph = hashIntentPayload sample_host i"
  shows "\<exists>pr p d. sample_held i = (pr, d) \<and> fp_pending pr k = Some (ph, p) \<and>
    readState sample_host d = Inr [(k, FileInProgress ph)]"
proof -
  have "readState sample_host (FileJson (file_state_json [(k, FileInProgress ph)])) =
      Inr [(k, FileInProgress ph)]"
    unfolding readState_written
    by (rule parse_entries_same) (auto simp: reread_in_progress assms(2))
  then show ?thesis
    by (simp add: sample_held_def fs_begin_def withLockedState_def readState_def new_process_def
        new_promise_def Let_def assms)
qed

text \<open>The sample order completed, and completed with the audit event of a failure.\<close>

definition sample_misfit :: audit_event where
  "sample_misfit = \<lparr>ae_eventId = Some ''e'', ae_eventType = ''broker.failed'', ae_environment = Dev,
     ae_intentId = None, ae_principal = None, ae_correlationId = ''c'', ae_data = JObj [], ae_extra = []\<rparr>"

theorem file_store_reads_back_witness:
  "\<exists>pr d k ph x pr' d' y pr2 d2 m. sample_held sample_intent = (pr, d) \<and>
     fs_complete sample_host IoOk k ph sample_result None (pr, d) = (x, (pr', d')) \<and>
     (\<exists>e. readState sample_host d' = Inr [(k, FileCached e)] \<and> fc_result e = sample_result) \<and>
     fs_complete sample_host IoOk k ph sample_result (Some sample_misfit) (pr, d) = (y, (pr2, d2)) \<and>
     readState sample_host d2 = Inl (invalid_entry k m)"
proof -
  let ?k = "scopeIdempotencyKey sample_host ''key1'' sample_intent"
  let ?ph = "hashIntentPayload sample_host sample_intent"
  obtain pr p d where held: "sample_held sample_intent = (pr, d)" "fp_pending pr ?k = Some (?ph, p)"
    "readState sample_host d = Inr [(?k, FileInProgress ?ph)]"
    using sample_held [OF refl refl] by blast
  obtain x pr' d' where c: "fs_complete sample_host IoOk ?k ?ph sample_result None (pr, d) = (x, (pr', d'))"
    by (metis prod.collapse)
  obtain y pr2 d2 where m: "fs_complete sample_host IoOk ?k ?ph sample_result (Some sample_misfit) (pr, d) =
      (y, (pr2, d2))" by (metis prod.collapse)
  have misfit: "\<not> audit_fits sample_host sample_result sample_misfit"
    by (simp add: audit_fits_def Let_def sample_misfit_def expected_event_type_def sample_result_def)
  from file_store_reads_back [OF held(2,3) sample_hash c] sample_results_ok(1)
  have "\<exists>e. readState sample_host d' = Inr [(?k, FileCached e)] \<and> fc_result e = sample_result" by simp
  moreover from file_store_reads_back [OF held(2,3) sample_hash m] sample_results_ok(1) misfit
  have "\<exists>m. readState sample_host d2 = Inl (invalid_entry ?k m)" by simp
  ultimately show ?thesis using held(1) c m by blast
qed

theorem file_store_replay_witness:
  "\<exists>pr d k ph x pr' d'. sample_held sample_intent = (pr, d) \<and>
     fs_complete sample_host IoOk k ph sample_result None (pr, d) = (x, (pr', d')) \<and>
     fst (fs_begin sample_host IoOk ''key1'' sample_intent (new_process, d')) =
       Inr (Cached sample_result None)"
proof -
  let ?k = "scopeIdempotencyKey sample_host ''key1'' sample_intent"
  let ?ph = "hashIntentPayload sample_host sample_intent"
  obtain pr p d where held: "sample_held sample_intent = (pr, d)" "fp_pending pr ?k = Some (?ph, p)"
    "readState sample_host d = Inr [(?k, FileInProgress ?ph)]"
    using sample_held [OF refl refl] by blast
  obtain x pr' d' where c: "fs_complete sample_host IoOk ?k ?ph sample_result None (pr, d) = (x, (pr', d'))"
    by (metis prod.collapse)
  have "fp_pending new_process ?k = None" by (simp add: new_process_def)
  from file_store_replay [OF held(2,3) sample_hash refl refl this sample_results_ok(1) _ _ c]
  have "fst (fs_begin sample_host IoOk ''key1'' sample_intent (new_process, d')) =
      Inr (Cached sample_result None)"
    by (simp add: validateCachedResultEvidenceForIntent_def sample_result_def sample_envelope_def)
  with held(1) c show ?thesis by blast
qed

theorem file_store_status_failure_not_replayed_witness:
  "\<exists>pr d k ph x pr' d' m. sample_held sample_status = (pr, d) \<and>
     fs_complete sample_host IoOk k ph sample_failure None (pr, d) = (x, (pr', d')) \<and>
     fst (fs_begin sample_host IoOk ''key1'' sample_status (new_process, d')) =
       Inl (invalid_entry ''key1'' m)"
proof -
  let ?k = "scopeIdempotencyKey sample_host ''key1'' sample_status"
  let ?ph = "hashIntentPayload sample_host sample_status"
  obtain pr p d where held: "sample_held sample_status = (pr, d)" "fp_pending pr ?k = Some (?ph, p)"
    "readState sample_host d = Inr [(?k, FileInProgress ?ph)]"
    using sample_held [OF refl refl] by blast
  obtain x pr' d' where c: "fs_complete sample_host IoOk ?k ?ph sample_failure None (pr, d) = (x, (pr', d'))"
    by (metis prod.collapse)
  have "fp_pending new_process ?k = None" by (simp add: new_process_def)
  from file_store_status_failure_not_replayed [OF held(2,3) sample_hash refl refl this
      sample_results_ok(2) _ _ c] held(1) c show ?thesis
    by (fastforce simp: sample_failure_def sample_result_def)
qed

end
