(* ===== verification/Protocol.thy ===== *)
theory Protocol
  imports FileStore
begin

text \<open>
  Executions interleaved over one idempotency store. Each execution is a thread that may acquire a
  reservation, call the connector once while it holds it, and then complete it; before the call it
  may also abort or complete it. A crashed execution is a thread that never moves again. Everything
  else that happens to the store (other operations, faults, restarts) is a step of the environment.
  That the broker's executions are such threads is shown in \<open>ExecutionProtocol\<close>.
\<close>

datatype phase = Idle | Holding string | Called string

record 's run =
  run_store :: 's
  run_phase :: "nat \<Rightarrow> phase"
  run_calls :: "string list"

inductive exec_step ::
  "(string \<Rightarrow> trading_intent \<Rightarrow> string) \<Rightarrow> ('o \<Rightarrow> store_op option) \<Rightarrow> ('o \<Rightarrow> 's \<Rightarrow> bool) \<Rightarrow>
    ('o \<Rightarrow> 's \<Rightarrow> 's) \<Rightarrow> 's run \<Rightarrow> 's run \<Rightarrow> bool"
  for sk op_of granted perform where
  acquire: "run_phase s t = Idle \<Longrightarrow> granted opr (run_store s) \<Longrightarrow>
    op_of opr = Some (OpBegin key i) \<Longrightarrow>
    exec_step sk op_of granted perform s (s\<lparr>run_store := perform opr (run_store s),
      run_phase := (run_phase s)(t := Holding (sk key i))\<rparr>)"
| call: "run_phase s t = Holding k \<Longrightarrow>
    exec_step sk op_of granted perform s (s\<lparr>run_phase := (run_phase s)(t := Called k),
      run_calls := k # run_calls s\<rparr>)"
| release: "run_phase s t = Holding k \<Longrightarrow> op_of opr = Some (OpAbort k ph e) \<Longrightarrow>
    exec_step sk op_of granted perform s (s\<lparr>run_store := perform opr (run_store s),
      run_phase := (run_phase s)(t := Idle)\<rparr>)"
| finish: "run_phase s t \<in> {Holding k, Called k} \<Longrightarrow> op_of opr = Some (OpComplete k ph r pa) \<Longrightarrow>
    exec_step sk op_of granted perform s (s\<lparr>run_store := perform opr (run_store s),
      run_phase := (run_phase s)(t := Idle)\<rparr>)"
| environment: "\<not> granted opr (run_store s) \<Longrightarrow> \<forall>k ph e. op_of opr \<noteq> Some (OpAbort k ph e) \<Longrightarrow>
    exec_step sk op_of granted perform s (s\<lparr>run_store := perform opr (run_store s)\<rparr>)"

text \<open>What every reachable run satisfies.\<close>

definition holds :: "'s run \<Rightarrow> nat \<Rightarrow> string \<Rightarrow> bool" where
  "holds s t k \<longleftrightarrow> run_phase s t \<in> {Holding k, Called k}"

definition run_inv :: "('s \<Rightarrow> string \<Rightarrow> bool) \<Rightarrow> 's run \<Rightarrow> bool" where
  "run_inv free s \<longleftrightarrow>
     (\<forall>t k. holds s t k \<longrightarrow> \<not> free (run_store s) k) \<and>
     (\<forall>t t' k. holds s t k \<longrightarrow> holds s t' k \<longrightarrow> t = t') \<and>
     (\<forall>k \<in> set (run_calls s). \<not> free (run_store s) k \<and> (\<forall>t. run_phase s t \<noteq> Holding k)) \<and>
     distinct (run_calls s)"

definition idle_run :: "'s \<Rightarrow> 's run" where
  "idle_run st = \<lparr>run_store = st, run_phase = (\<lambda>_. Idle), run_calls = []\<rparr>"

lemma idle_run_inv: "run_inv free (idle_run st)"
  by (simp add: run_inv_def idle_run_def holds_def)

context idempotency_safety begin

lemma exec_step_inv:
  assumes "exec_step sk op_of granted perform s s'" "run_inv free s"
  shows "run_inv free s'"
proof -
  from assms(2) have inv:
    "\<And>t k. holds s t k \<Longrightarrow> \<not> free (run_store s) k"
    "\<And>t t' k. holds s t k \<Longrightarrow> holds s t' k \<Longrightarrow> t = t'"
    "\<And>k. k \<in> set (run_calls s) \<Longrightarrow> \<not> free (run_store s) k"
    "\<And>t k. k \<in> set (run_calls s) \<Longrightarrow> run_phase s t \<noteq> Holding k"
    "distinct (run_calls s)"
    unfolding run_inv_def by blast+
  from assms(1) show ?thesis
  proof cases
    case (acquire t opr key i)
    have g: "free (run_store s) (sk key i)" "\<not> free (perform opr (run_store s)) (sk key i)"
      using grant_begin [OF acquire(3)] acquire(4) by auto
    have keep: "\<not> free (perform opr (run_store s)) k" if "\<not> free (run_store s) k" for k
      using stays_taken [OF that] acquire(4) by simp
    have hold: "holds s' u k \<longleftrightarrow> (if u = t then k = sk key i else holds s u k)" for u k
      using acquire(1) by (auto simp: holds_def)
    have "\<not> holds s u (sk key i)" for u using inv(1) g(1) by blast
    moreover have "sk key i \<notin> set (run_calls s)" using inv(3) g(1) by blast
    ultimately show ?thesis
      unfolding run_inv_def hold using inv g keep acquire(1) by auto
  next
    case (call t k)
    have "k \<notin> set (run_calls s)" using inv(4) call(2) by blast
    moreover have hold: "holds s' u l \<longleftrightarrow> holds s u l" for u l
      using call by (auto simp: holds_def)
    moreover have "holds s t k" using call(2) by (simp add: holds_def)
    moreover have "run_phase s u \<noteq> Holding k" if "u \<noteq> t" for u
      using inv(2) [OF \<open>holds s t k\<close>, of u] that by (auto simp: holds_def)
    ultimately show ?thesis
      unfolding run_inv_def hold using inv call(1) by auto
  next
    case (release t k opr ph e)
    have "holds s t k" using release(2) by (simp add: holds_def)
    have keep: "\<not> free (perform opr (run_store s)) l" if "\<not> free (run_store s) l" "l \<noteq> k" for l
      using stays_taken [OF that(1)] release(3) that(2) by simp
    have hold: "holds s' u l \<longleftrightarrow> u \<noteq> t \<and> holds s u l" for u l
      using release(1) by (auto simp: holds_def)
    have "l \<noteq> k" if "holds s u l" "u \<noteq> t" for u l using inv(2) [OF that(1)] that(2) \<open>holds s t k\<close> by blast
    moreover have "l \<noteq> k" if "l \<in> set (run_calls s)" for l using inv(4) [OF that] release(2) by blast
    ultimately show ?thesis
      unfolding run_inv_def hold using inv keep release(1) by auto
  next
    case (finish t k opr ph r pa)
    have keep: "\<not> free (perform opr (run_store s)) l" if "\<not> free (run_store s) l" for l
      using stays_taken [OF that] finish(3) by simp
    have hold: "holds s' u l \<longleftrightarrow> u \<noteq> t \<and> holds s u l" for u l
      using finish(1) by (auto simp: holds_def)
    show ?thesis
      unfolding run_inv_def hold using inv keep finish(1) by auto
  next
    case (environment opr)
    have keep: "\<not> free (perform opr (run_store s)) l" if "\<not> free (run_store s) l" for l
      using stays_taken [OF that] environment(3) by blast
    have hold: "holds s' u l \<longleftrightarrow> holds s u l" for u l
      using environment(1) by (auto simp: holds_def)
    show ?thesis
      unfolding run_inv_def hold using inv keep environment(1) by auto
  qed
qed

lemma runs_inv: "(exec_step sk op_of granted perform)\<^sup>*\<^sup>* s s' \<Longrightarrow> run_inv free s \<Longrightarrow> run_inv free s'"
  by (induction rule: rtranclp_induct) (auto intro: exec_step_inv)

lemma at_most_once:
  assumes "(exec_step sk op_of granted perform)\<^sup>*\<^sup>* (idle_run st) s"
  shows "distinct (run_calls s) \<and> (\<forall>k \<in> set (run_calls s). \<not> free (run_store s) k)"
  using runs_inv [OF assms idle_run_inv] unfolding run_inv_def by blast

end

subsection \<open>Properties\<close>

definition im_granted :: "host \<Rightarrow> store_op \<Rightarrow> im_store \<Rightarrow> bool" where
  "im_granted h opr st \<longleftrightarrow> (\<exists>key i. opr = OpBegin key i \<and> im_answer h key i st = Some Reserved)"

text \<open>C10. At most one connector call per key over the in-memory store: however the executions of
  one process interleave at their store operations, no scoped idempotency key is ever passed to the
  connector twice, and a key that was passed to it stays taken.\<close>

theorem at_most_one_call_in_memory:
  assumes "(exec_step (scopeIdempotencyKey h) Some (im_granted h) (im_perform h now))\<^sup>*\<^sup>*
    (idle_run st) s"
  shows "distinct (run_calls s) \<and> (\<forall>k \<in> set (run_calls s). im_slot (run_store s) k \<noteq> Free)"
  by (rule mem.safe.at_most_once [of h now st s])
    (use assms in \<open>simp add: im_granted_def [abs_def]\<close>)

text \<open>C11. At most one connector call per key over the shared file: the same holds across the
  processes that share one file store, although its operations may fail before or after the file was
  replaced, executions may crash at any point and processes restart with an empty memory.\<close>

theorem at_most_one_call_across_processes:
  assumes "(exec_step (scopeIdempotencyKey h) file_op_of (file_granted h) (file_perform h))\<^sup>*\<^sup>*
    (idle_run (procs, d)) s"
  shows "distinct (run_calls s) \<and>
    (\<forall>k \<in> set (run_calls s). disk_slot h (snd (run_store s)) k \<noteq> Free)"
  using disk.at_most_once [OF assms] by (simp add: file_free_def)

lemma one_call:
  assumes "granted opr st" "op_of opr = Some (OpBegin key i)"
  shows "\<exists>s. (exec_step sk op_of granted perform)\<^sup>*\<^sup>* (idle_run st) s \<and> run_calls s = [sk key i]"
proof -
  let ?s1 = "(idle_run st)\<lparr>run_store := perform opr st,
    run_phase := (run_phase (idle_run st))(0 := Holding (sk key i))\<rparr>"
  have "exec_step sk op_of granted perform (idle_run st) ?s1"
    using exec_step.acquire [of "idle_run st" 0 granted opr op_of key i sk perform] assms
    by (simp add: idle_run_def)
  moreover have "exec_step sk op_of granted perform ?s1 (?s1\<lparr>run_phase :=
      (run_phase ?s1)(0 := Called (sk key i)), run_calls := sk key i # run_calls ?s1\<rparr>)"
    by (rule exec_step.call) simp
  ultimately have "(exec_step sk op_of granted perform)\<^sup>*\<^sup>* (idle_run st) (?s1\<lparr>run_phase :=
      (run_phase ?s1)(0 := Called (sk key i)), run_calls := sk key i # run_calls ?s1\<rparr>)"
    by (rule converse_rtranclp_into_rtranclp [OF _ r_into_rtranclp])
  then show ?thesis by (intro exI conjI, assumption) (simp add: idle_run_def)
qed

theorem at_most_one_call_in_memory_witness:
  "\<exists>s :: im_store run. run_calls s = [scopeIdempotencyKey sample_host ''key1'' sample_intent] \<and>
     (\<forall>k \<in> set (run_calls s). im_slot (run_store s) k \<noteq> Free)"
proof -
  have "im_granted sample_host (OpBegin ''key1'' sample_intent) sample_store"
    using sample_store_begin by (auto simp: im_granted_def im_answer_def)
  then obtain s where "(exec_step (scopeIdempotencyKey sample_host) Some (im_granted sample_host)
      (im_perform sample_host (Fin 0)))\<^sup>*\<^sup>* (idle_run sample_store) s"
    "run_calls s = [scopeIdempotencyKey sample_host ''key1'' sample_intent]"
    using one_call [of "im_granted sample_host"] by blast
  with at_most_one_call_in_memory [OF this(1)] show ?thesis by blast
qed

theorem at_most_one_call_across_processes_witness:
  "\<exists>s :: file_system run. run_calls s = [scopeIdempotencyKey sample_host ''key1'' sample_intent] \<and>
     (\<forall>k \<in> set (run_calls s). disk_slot sample_host (snd (run_store s)) k \<noteq> Free)"
proof -
  let ?start = "FileOp 0 IoOk False (OpBegin ''key1'' sample_intent)"
  have "file_granted sample_host ?start (\<lambda>_. new_process, NoFile)"
    by (simp add: fs_begin_def withLockedState_def readState_def new_process_def new_promise_def
        Let_def)
  then obtain s where "(exec_step (scopeIdempotencyKey sample_host) file_op_of
      (file_granted sample_host) (file_perform sample_host))\<^sup>*\<^sup>* (idle_run (\<lambda>_. new_process, NoFile)) s"
    "run_calls s = [scopeIdempotencyKey sample_host ''key1'' sample_intent]"
    using one_call [of "file_granted sample_host" ?start _ file_op_of] by force
  with at_most_one_call_across_processes [OF this(1)] show ?thesis by blast
qed

end
