(* ===== verification/ApprovalStore.thy ===== *)
theory ApprovalStore
  imports KillSwitch FileStore "HOL-Library.Sublist"
begin

text \<open>
  The approval store of \<open>packages/approval/src/store.ts\<close>. The state is the table, one row of an
  identifier and a stored request in the order of the row ids, beside the world of the process. The
  environment record holds what the store is configured with and what it calls: the clock, the
  identifiers, the audit writer, the allowlist, and the access to the database, which can fail at
  the start of a transaction, at each statement and at the commit.
\<close>

declare map_of_append [simp del]

subsection \<open>Requests\<close>

datatype approval_type = OneTime | AllowlistOnboarding

fun approval_type_name :: "approval_type \<Rightarrow> string" where
  "approval_type_name OneTime = ''one_time''"
| "approval_type_name AllowlistOnboarding = ''allowlist_onboarding''"

definition approval_type_table :: "(string \<times> approval_type) list" where
  "approval_type_table = [(''one_time'', OneTime), (''allowlist_onboarding'', AllowlistOnboarding)]"

text \<open>The state with \<open>decidedAt\<close> and \<open>decidedBy\<close>.\<close>

datatype approval_state =
    AppPending
  | AppApproved string string
  | AppDenied string string
  | AppTimeout string
  | AppConsumed string string

fun state_name :: "approval_state \<Rightarrow> string" where
  "state_name AppPending = ''pending''"
| "state_name (AppApproved t b) = ''approved''"
| "state_name (AppDenied t b) = ''denied''"
| "state_name (AppTimeout t) = ''timeout''"
| "state_name (AppConsumed t b) = ''consumed''"

fun state_decidedAt :: "approval_state \<Rightarrow> jsval" where
  "state_decidedAt AppPending = JNull"
| "state_decidedAt (AppApproved t b) = JStr t"
| "state_decidedAt (AppDenied t b) = JStr t"
| "state_decidedAt (AppTimeout t) = JStr t"
| "state_decidedAt (AppConsumed t b) = JStr t"

fun state_decidedBy :: "approval_state \<Rightarrow> jsval" where
  "state_decidedBy (AppApproved t b) = JStr b"
| "state_decidedBy (AppDenied t b) = JStr b"
| "state_decidedBy (AppConsumed t b) = JStr b"
| "state_decidedBy _ = JNull"

record approval_params =
  ap_intentId :: string
  ap_correlationId :: string
  ap_principal :: string
  ap_action :: string
  ap_resource :: string
  ap_environment :: environment
  ap_escalationReason :: string
  ap_approvalType :: approval_type
  ap_intentData :: jsval

record approval_request = approval_params +
  ar_approvalId :: string
  ar_createdAt :: string
  ar_timeoutAt :: string
  ar_state :: approval_state

definition approval_json :: "approval_request \<Rightarrow> jsval" where
  "approval_json r = JObj
     [(''approvalId'', JStr (ar_approvalId r)), (''intentId'', JStr (ap_intentId r)),
      (''correlationId'', JStr (ap_correlationId r)), (''principal'', JStr (ap_principal r)),
      (''action'', JStr (ap_action r)), (''resource'', JStr (ap_resource r)),
      (''environment'', JStr (environment_name (ap_environment r))),
      (''escalationReason'', JStr (ap_escalationReason r)),
      (''approvalType'', JStr (approval_type_name (ap_approvalType r))),
      (''intentData'', ap_intentData r), (''state'', JStr (state_name (ar_state r))),
      (''createdAt'', JStr (ar_createdAt r)), (''decidedAt'', state_decidedAt (ar_state r)),
      (''decidedBy'', state_decidedBy (ar_state r)), (''timeoutAt'', JStr (ar_timeoutAt r))]"

definition request_keys :: "string list" where
  "request_keys =
     [''approvalId'', ''intentId'', ''correlationId'', ''principal'', ''action'', ''resource'',
      ''environment'', ''escalationReason'', ''approvalType'', ''intentData'', ''state'',
      ''createdAt'', ''decidedAt'', ''decidedBy'', ''timeoutAt'']"

text \<open>\<open>approvalRequestSchema\<close>: the discriminated union over \<open>state\<close>.\<close>

definition z_null :: "jsval \<Rightarrow> unit option" where
  "z_null v = (if v = JNull then Some () else None)"

definition parse_state :: "host \<Rightarrow> (string \<rightharpoonup> jsval) \<Rightarrow> approval_state option" where
  "parse_state h m =
     (let dat = required m ''decidedAt'' (z_string (is_datetime h));
          dby = required m ''decidedBy'' (z_string any_string) in
      do {
        s \<leftarrow> required m ''state'' (z_string any_string);
        if s = ''pending'' then do {
          required m ''decidedAt'' z_null; required m ''decidedBy'' z_null; Some AppPending }
        else if s = ''approved'' then do { t \<leftarrow> dat; b \<leftarrow> dby; Some (AppApproved t b) }
        else if s = ''denied'' then do { t \<leftarrow> dat; b \<leftarrow> dby; Some (AppDenied t b) }
        else if s = ''consumed'' then do { t \<leftarrow> dat; b \<leftarrow> dby; Some (AppConsumed t b) }
        else if s = ''timeout'' then do {
          t \<leftarrow> dat; required m ''decidedBy'' z_null; Some (AppTimeout t) }
        else None })"

definition parse_approval :: "host \<Rightarrow> jsval \<Rightarrow> approval_request option" where
  "parse_approval h v =
     (let m = map_of (members v); str = (\<lambda>k. required m k (z_string any_string)) in
      if \<not> is_object v \<or> \<not> strict request_keys (members v) then None
      else do {
        aid \<leftarrow> required m ''approvalId'' (z_string (is_uuid h));
        iid \<leftarrow> str ''intentId'';
        cid \<leftarrow> str ''correlationId'';
        pr \<leftarrow> str ''principal'';
        ac \<leftarrow> str ''action'';
        rs \<leftarrow> str ''resource'';
        en \<leftarrow> required m ''environment'' (z_enum environment_table);
        er \<leftarrow> str ''escalationReason'';
        ty \<leftarrow> required m ''approvalType'' (z_enum approval_type_table);
        dt \<leftarrow> required m ''intentData'' z_record;
        cr \<leftarrow> required m ''createdAt'' (z_string (is_datetime h));
        tm \<leftarrow> required m ''timeoutAt'' (z_string (is_datetime h));
        st \<leftarrow> parse_state h m;
        Some \<lparr>ap_intentId = iid, ap_correlationId = cid, ap_principal = pr, ap_action = ac,
          ap_resource = rs, ap_environment = en, ap_escalationReason = er, ap_approvalType = ty,
          ap_intentData = dt, ar_approvalId = aid, ar_createdAt = cr, ar_timeoutAt = tm,
          ar_state = st\<rparr> })"

definition request_ok :: "host \<Rightarrow> approval_request \<Rightarrow> bool" where
  "request_ok h r \<longleftrightarrow> is_uuid h (ar_approvalId r) \<and> is_object (ap_intentData r) \<and>
     is_datetime h (ar_createdAt r) \<and> is_datetime h (ar_timeoutAt r) \<and>
     (case state_decidedAt (ar_state r) of JStr t \<Rightarrow> is_datetime h t | _ \<Rightarrow> True)"

text \<open>What \<open>save\<close> and \<open>create\<close> store is the JSON text of the request.\<close>

definition stored_json :: "approval_request \<Rightarrow> jsval" where
  "stored_json r = through_json (approval_json r)"

lemma approval_type_lookup [simp]:
  "map_of approval_type_table (approval_type_name t) = Some t"
  by (cases t) (simp_all add: approval_type_table_def)

lemma z_record_through [simp]:
  "z_record (through_json v) = (if is_object v then Some (through_json v) else None)"
  by (cases v) auto

lemma parse_stored:
  assumes "ap_intentData r \<noteq> JUndef"
  shows "parse_approval h (stored_json r) =
    (if request_ok h r then Some (r\<lparr>ap_intentData := through_json (ap_intentData r)\<rparr>) else None)"
  using assms
  by (cases r; cases "ar_state r") (simp_all add: stored_json_def approval_json_def
      parse_approval_def parse_state_def request_ok_def required_def z_null_def strict_def
      request_keys_def Let_def)

subsection \<open>The environment\<close>

record allow_entry =
  le_name :: string
  le_principal :: string
  le_action :: string
  le_resource :: string
  le_condition :: jsval

definition allow_entry_json :: "allow_entry \<Rightarrow> jsval" where
  "allow_entry_json e = JObj
     [(''name'', JStr (le_name e)), (''effect'', JStr ''allow''),
      (''principal'', JStr (le_principal e)), (''action'', JStr (le_action e)),
      (''resource'', JStr (le_resource e)), (''condition'', le_condition e)]"

text \<open>\<open>add\<close> returns the closure that takes the entry back.\<close>

record 'w onboarding =
  ob_add :: "allow_entry \<Rightarrow> ('w, ('w, unit) eff) eff"
  ob_write :: "audit_event \<Rightarrow> ('w, unit) eff"

record 'w approval_env =
  av_now :: "('w, int) eff"
  av_uuid :: "('w, string) eff"
  av_io :: "('w, unit) eff"
  av_misuse :: "exn \<Rightarrow> bool"
  av_explicit :: bool
  av_timeoutSeconds :: jsnum
  av_audit :: "(audit_event \<Rightarrow> ('w, unit) eff) option"
  av_onboarding :: "'w onboarding option"

type_synonym rows = "(string \<times> jsval) list"

type_synonym 'w adb = "rows \<times> 'w"

definition lift_exn :: "exn + 'a \<Rightarrow> ('s, 'a) eff" where
  "lift_exn r = (case r of Inl e \<Rightarrow> throw e | Inr x \<Rightarrow> ret x)"

text \<open>\<open>new Date(t).toISOString()\<close>\<close>

fun date_to_iso :: "host \<Rightarrow> jsnum \<Rightarrow> exn + string" where
  "date_to_iso h (Fin r) =
     (if \<bar>r\<bar> \<le> 8640000000000000 then Inr (iso_string h (if 0 \<le> r then \<lfloor>r\<rfloor> else \<lceil>r\<rceil>))
      else Inl (GenericError ''Invalid time value''))"
| "date_to_iso h _ = Inl (GenericError ''Invalid time value'')"

subsection \<open>The table\<close>

text \<open>The checks of the table, on a row to be written.\<close>

definition row_check :: "string \<Rightarrow> jsval \<Rightarrow> bool" where
  "row_check k v \<longleftrightarrow> js_get v ''approvalId'' = JStr k \<and>
     (\<exists>s \<in> set [''pending'', ''approved'', ''denied'', ''timeout'', ''consumed''].
        js_get v ''state'' = JStr s) \<and> js_get v ''timeoutAt'' \<noteq> JUndef"

definition db_access :: "'w approval_env \<Rightarrow> ('w adb, unit) eff" where
  "db_access env = on_world (av_io env)"

definition insert_row :: "'w approval_env \<Rightarrow> string \<Rightarrow> jsval \<Rightarrow> ('w adb, unit) eff" where
  "insert_row env k v = andthen (db_access env) (\<lambda>_ (rows, w).
     if map_of rows k \<noteq> None then (Inl (GenericError ''UNIQUE constraint failed''), (rows, w))
     else if \<not> row_check k v then (Inl (GenericError ''CHECK constraint failed''), (rows, w))
     else (Inr (), (rows @ [(k, v)], w)))"

fun set_row :: "string \<Rightarrow> jsval \<Rightarrow> rows \<Rightarrow> rows" where
  "set_row k v [] = []"
| "set_row k v ((l, x) # rows) = (if k = l then (l, v) # rows else (l, x) # set_row k v rows)"

definition update_row :: "'w approval_env \<Rightarrow> string \<Rightarrow> jsval \<Rightarrow> ('w adb, unit) eff" where
  "update_row env k v = andthen (db_access env) (\<lambda>_ (rows, w).
     if map_of rows k \<noteq> None \<and> \<not> row_check k v
     then (Inl (GenericError ''CHECK constraint failed''), (rows, w))
     else (Inr (), (set_row k v rows, w)))"

text \<open>The answer is the number of rows deleted.\<close>

definition delete_row :: "'w approval_env \<Rightarrow> string \<Rightarrow> ('w adb, nat) eff" where
  "delete_row env k = andthen (db_access env) (\<lambda>_ (rows, w).
     (Inr (if map_of rows k = None then 0 else 1), (filter (\<lambda>(l, x). l \<noteq> k) rows, w)))"

text \<open>\<open>database.transaction(m).immediate()\<close>: an exception rolls the table back.\<close>

definition transaction :: "'w approval_env \<Rightarrow> ('w adb, 'a) eff \<Rightarrow> ('w adb, 'a) eff" where
  "transaction env m = (\<lambda>(rows, w).
     case andthen (db_access env) (\<lambda>_. andthen m (\<lambda>x. andthen (db_access env) (\<lambda>_. ret x))) (rows, w) of
       (Inl e, (rows', w')) \<Rightarrow> (Inl e, (rows, w'))
     | (Inr x, (rows', w')) \<Rightarrow> (Inr x, (rows', w')))"

definition parse_row :: "host \<Rightarrow> jsval \<Rightarrow> ('s, approval_request) eff" where
  "parse_row h v = (case parse_approval h v of
     None \<Rightarrow> throw (GenericError ''ZodError'') | Some r \<Rightarrow> ret r)"

definition get_request ::
  "host \<Rightarrow> 'w approval_env \<Rightarrow> string \<Rightarrow> ('w adb, approval_request option) eff" where
  "get_request h env k =
     andthen (db_access env) (\<lambda>_.
     andthen (read_state (\<lambda>(rows, w). map_of rows k)) (\<lambda>row.
     case row of None \<Rightarrow> ret None
     | Some v \<Rightarrow> andthen (parse_row h v) (\<lambda>r. ret (Some r))))"

fun parse_rows :: "host \<Rightarrow> jsval list \<Rightarrow> ('s, approval_request list) eff" where
  "parse_rows h [] = ret []"
| "parse_rows h (v # vs) =
     andthen (parse_row h v) (\<lambda>r. andthen (parse_rows h vs) (\<lambda>rs. ret (r # rs)))"

definition list_requests ::
  "host \<Rightarrow> 'w approval_env \<Rightarrow> string option \<Rightarrow> ('w adb, approval_request list) eff" where
  "list_requests h env state =
     andthen (db_access env) (\<lambda>_.
     andthen (read_state (\<lambda>(rows, w). map snd (case state of
         Some s \<Rightarrow> filter (\<lambda>(k, v). js_get v ''state'' = JStr s) rows | None \<Rightarrow> rows))) (\<lambda>vs.
     parse_rows h vs))"

definition delete_request :: "'w approval_env \<Rightarrow> string \<Rightarrow> ('w adb, bool) eff" where
  "delete_request env k = andthen (delete_row env k) (\<lambda>n. ret (0 < n))"

text \<open>\<open>save\<close> returns the request it was given.\<close>

definition save_request :: "'w approval_env \<Rightarrow> approval_request \<Rightarrow> ('w adb, approval_request) eff" where
  "save_request env r =
     andthen (update_row env (ar_approvalId r) (stored_json r)) (\<lambda>_. ret r)"

definition now_iso :: "host \<Rightarrow> 'w approval_env \<Rightarrow> ('w adb, string) eff" where
  "now_iso h env = andthen (on_world (av_now env)) (\<lambda>t. ret (iso_string h t))"

subsection \<open>Creating and deciding\<close>

definition new_request :: "approval_params \<Rightarrow> string \<Rightarrow> string \<Rightarrow> string \<Rightarrow> approval_request" where
  "new_request p k created timeout = approval_params.extend p
     \<lparr>ar_approvalId = k, ar_createdAt = created, ar_timeoutAt = timeout, ar_state = AppPending\<rparr>"

definition create_request ::
  "host \<Rightarrow> 'w approval_env \<Rightarrow> approval_params \<Rightarrow> ('w adb, approval_request) eff" where
  "create_request h env p =
     andthen (on_world (av_now env)) (\<lambda>now.
     andthen (on_world (av_uuid env)) (\<lambda>k.
     andthen (lift_exn (date_to_iso h (num_add (num_of_int now)
       (num_mul (av_timeoutSeconds env) (Fin 1000))))) (\<lambda>timeout.
     let r = new_request p k (iso_string h now) timeout in
     andthen (insert_row env k (stored_json r)) (\<lambda>_. ret r))))"

definition request_event :: "approval_request \<Rightarrow> string \<Rightarrow> (string \<times> jsval) list \<Rightarrow> audit_event" where
  "request_event r eventType data =
     \<lparr>ae_eventId = None, ae_eventType = eventType, ae_environment = ap_environment r,
      ae_intentId = Some (ap_intentId r), ae_principal = Some (ap_principal r),
      ae_correlationId = ap_correlationId r, ae_data = JObj data, ae_extra = []\<rparr>"

definition decision_event ::
  "approval_request \<Rightarrow> string \<Rightarrow> jsval \<Rightarrow> string \<Rightarrow> string \<Rightarrow> audit_event" where
  "decision_event r eventType decidedBy decidedAt state = request_event r eventType
     [(''approvalId'', JStr (ar_approvalId r)),
      (''approvalType'', JStr (approval_type_name (ap_approvalType r))), (''decidedBy'', decidedBy),
      (''decidedAt'', JStr decidedAt), (''state'', JStr state)]"

text \<open>\<open>config.audit ?? config.allowlistOnboarding?.audit\<close>\<close>

definition decision_writer :: "'w approval_env \<Rightarrow> (audit_event \<Rightarrow> ('w, unit) eff) option" where
  "decision_writer env = (case av_audit env of Some w \<Rightarrow> Some w
     | None \<Rightarrow> map_option ob_write (av_onboarding env))"

definition writeDecisionAudit ::
  "'w approval_env \<Rightarrow> approval_request \<Rightarrow> string \<Rightarrow> jsval \<Rightarrow> string \<Rightarrow> string \<Rightarrow> ('w adb, unit) eff"
  where
  "writeDecisionAudit env r eventType decidedBy decidedAt state =
     (case decision_writer env of None \<Rightarrow> ret ()
      | Some write \<Rightarrow> on_world (write (decision_event r eventType decidedBy decidedAt state)))"

definition timeout_request ::
  "'w approval_env \<Rightarrow> approval_request \<Rightarrow> string \<Rightarrow> ('w adb, approval_request) eff" where
  "timeout_request env r decidedAt =
     andthen (writeDecisionAudit env r ''approval.timeout'' JNull decidedAt ''timeout'') (\<lambda>_.
     save_request env (r\<lparr>ar_state := AppTimeout decidedAt\<rparr>))"

definition buildAllowlistCondition :: "approval_request \<Rightarrow> jsval" where
  "buildAllowlistCondition r = JObj
     ([(''environment'', JStr (environment_name (ap_environment r))),
       (''requiresHumanApproval'', JBool False)] @
      (case js_get (ap_intentData r) ''accountMode'' of
         JStr s \<Rightarrow> [(''accountMode'', JStr s)] | _ \<Rightarrow> []) @
      (case js_get (ap_intentData r) ''maxNotionalUsd'' of
         JNum x \<Rightarrow> [(''maxNotionalUsd'', JNum x)] | _ \<Rightarrow> []) @
      (case js_get (ap_intentData r) ''leverage'' of
         JNum x \<Rightarrow> [(''maxLeverage'', JNum x)] | _ \<Rightarrow> []))"

definition buildAllowlistEntry :: "approval_request \<Rightarrow> allow_entry" where
  "buildAllowlistEntry r =
     \<lparr>le_name = ''approval-'' @ ar_approvalId r, le_principal = ap_principal r,
      le_action = ap_action r, le_resource = ap_resource r,
      le_condition = buildAllowlistCondition r\<rparr>"

definition allowlist_event ::
  "approval_request \<Rightarrow> string \<Rightarrow> string \<Rightarrow> allow_entry \<Rightarrow> bool \<Rightarrow> audit_event" where
  "allowlist_event r by decidedAt entry rolledBack = request_event r ''allowlist.updated''
     ([(''approvalId'', JStr (ar_approvalId r)), (''updatedBy'', JStr by),
       (''updatedAt'', JStr decidedAt), (''policyEntry'', allow_entry_json entry)] @
      (if rolledBack then [(''rolledBack'', JBool True)] else []))"

text \<open>The rollback and the entry.\<close>

definition applyAllowlistOnboarding ::
  "'w approval_env \<Rightarrow> approval_request \<Rightarrow> string \<Rightarrow> string \<Rightarrow>
    ('w adb, ('w, unit) eff \<times> allow_entry) eff" where
  "applyAllowlistOnboarding env r decidedBy decidedAt =
     (case av_onboarding env of
        None \<Rightarrow> throw (GenericError ''Allowlist onboarding persistence is not configured.'')
      | Some ob \<Rightarrow>
          (let entry = buildAllowlistEntry r in
           andthen (on_world (ob_add ob entry)) (\<lambda>rollback.
           andthen (try_catch
             (on_world (ob_write ob (allowlist_event r decidedBy decidedAt entry False)))
             (\<lambda>err. andthen (on_world rollback) (\<lambda>_. throw err))) (\<lambda>_.
           ret (rollback, entry)))))"

definition writeAllowlistRollbackAudit ::
  "'w approval_env \<Rightarrow> approval_request \<Rightarrow> string \<Rightarrow> string \<Rightarrow> allow_entry \<Rightarrow> ('w adb, unit) eff" where
  "writeAllowlistRollbackAudit env r decidedBy decidedAt entry =
     (case av_onboarding env of None \<Rightarrow> ret ()
      | Some ob \<Rightarrow> on_world (ob_write ob (allowlist_event r decidedBy decidedAt entry True)))"

text \<open>The reading of a request that \<open>approve\<close> and \<open>deny\<close> share: only a pending one that has not
  reached its timeout is decided.\<close>

definition decide ::
  "host \<Rightarrow> 'w approval_env \<Rightarrow> string \<Rightarrow>
    (approval_request \<Rightarrow> string \<Rightarrow> ('w adb, approval_request) eff) \<Rightarrow>
    ('w adb, approval_request option) eff" where
  "decide h env k f = transaction env
     (andthen (get_request h env k) (\<lambda>found.
      case found of None \<Rightarrow> ret None
      | Some r \<Rightarrow>
          if ar_state r \<noteq> AppPending then ret None
          else andthen (now_iso h env) (\<lambda>decidedAt.
            if ar_timeoutAt r \<le> decidedAt
            then andthen (timeout_request env r decidedAt) (\<lambda>_. ret None)
            else andthen (f r decidedAt) (\<lambda>x. ret (Some x)))))"

definition approve_body ::
  "'w approval_env \<Rightarrow> string \<Rightarrow> approval_request \<Rightarrow> string \<Rightarrow> ('w adb, approval_request) eff" where
  "approve_body env decidedBy r decidedAt =
     andthen (if ap_approvalType r = AllowlistOnboarding
       then andthen (applyAllowlistOnboarding env r decidedBy decidedAt) (\<lambda>x. ret (Some x))
       else ret None) (\<lambda>onboarding.
     try_catch
       (andthen (writeDecisionAudit env r ''approval.approved'' (JStr decidedBy) decidedAt
           ''approved'') (\<lambda>_.
        save_request env (r\<lparr>ar_state := AppApproved decidedAt decidedBy\<rparr>)))
       (\<lambda>err. case onboarding of None \<Rightarrow> throw err
         | Some (rollback, entry) \<Rightarrow>
             andthen (on_world rollback) (\<lambda>_.
             andthen (writeAllowlistRollbackAudit env r decidedBy decidedAt entry) (\<lambda>_.
             throw err))))"

definition approve ::
  "host \<Rightarrow> 'w approval_env \<Rightarrow> string \<Rightarrow> string \<Rightarrow> ('w adb, approval_request option) eff" where
  "approve h env k decidedBy = decide h env k (approve_body env decidedBy)"

definition deny_body ::
  "'w approval_env \<Rightarrow> string \<Rightarrow> approval_request \<Rightarrow> string \<Rightarrow> ('w adb, approval_request) eff" where
  "deny_body env decidedBy r decidedAt =
     andthen (writeDecisionAudit env r ''approval.denied'' (JStr decidedBy) decidedAt ''denied'')
       (\<lambda>_. save_request env (r\<lparr>ar_state := AppDenied decidedAt decidedBy\<rparr>))"

definition deny ::
  "host \<Rightarrow> 'w approval_env \<Rightarrow> string \<Rightarrow> string \<Rightarrow> ('w adb, approval_request option) eff" where
  "deny h env k decidedBy = decide h env k (deny_body env decidedBy)"

definition consumeOneTime ::
  "host \<Rightarrow> 'w approval_env \<Rightarrow> string \<Rightarrow> ('w adb, approval_request option) eff" where
  "consumeOneTime h env k = transaction env
     (andthen (get_request h env k) (\<lambda>found.
      case found of None \<Rightarrow> ret None
      | Some r \<Rightarrow> (case ar_state r of
          AppApproved t b \<Rightarrow>
            if ap_approvalType r \<noteq> OneTime then ret None
            else andthen (on_world (av_now env)) (\<lambda>now.
              if num_le (date_parse h (ar_timeoutAt r)) (num_of_int now) then ret None
              else andthen (save_request env (r\<lparr>ar_state := AppConsumed t b\<rparr>)) (\<lambda>x. ret (Some x)))
        | _ \<Rightarrow> ret None)))"

subsection \<open>Timeouts and waiting\<close>

definition expire ::
  "host \<Rightarrow> 'w approval_env \<Rightarrow> string \<Rightarrow> ('w adb, approval_request option) eff" where
  "expire h env k = transaction env
     (andthen (get_request h env k) (\<lambda>found.
      andthen (now_iso h env) (\<lambda>now.
      case found of None \<Rightarrow> ret None
      | Some r \<Rightarrow>
          if ar_state r \<noteq> AppPending \<or> now < ar_timeoutAt r then ret None
          else andthen (timeout_request env r now) (\<lambda>x. ret (Some x)))))"

fun expire_all ::
  "host \<Rightarrow> 'w approval_env \<Rightarrow> string list \<Rightarrow> ('w adb, approval_request list) eff" where
  "expire_all h env [] = ret []"
| "expire_all h env (k # ks) =
     andthen (expire h env k) (\<lambda>r.
     andthen (expire_all h env ks) (\<lambda>rs.
     ret (case r of Some x \<Rightarrow> x # rs | None \<Rightarrow> rs)))"

definition select_expired :: "string \<Rightarrow> rows \<Rightarrow> string list" where
  "select_expired now rows = map fst (filter (\<lambda>(k, v). js_get v ''state'' = JStr ''pending'' \<and>
     (case js_get v ''timeoutAt'' of JStr t \<Rightarrow> t \<le> now | _ \<Rightarrow> False)) rows)"

definition checkTimeouts ::
  "host \<Rightarrow> 'w approval_env \<Rightarrow> ('w adb, approval_request list) eff" where
  "checkTimeouts h env =
     andthen (now_iso h env) (\<lambda>now.
     andthen (db_access env) (\<lambda>_.
     andthen (read_state (\<lambda>(rows, w). select_expired now rows)) (\<lambda>ks.
     expire_all h env ks)))"

definition wait_error :: "string \<Rightarrow> string \<Rightarrow> exn" where
  "wait_error k m = GenericError (''Approval request '' @ k @ m)"

text \<open>One call of \<open>poll\<close>: \<open>Some\<close> resolves, an exception rejects, \<open>None\<close> schedules the next one.\<close>

definition poll_state ::
  "'w approval_env \<Rightarrow> string \<Rightarrow> jsnum \<Rightarrow> approval_request \<Rightarrow> ('w adb, approval_request option) eff"
  where
  "poll_state env k deadline r =
     (case ar_state r of
        AppApproved t b \<Rightarrow> ret (Some r)
      | AppDenied t b \<Rightarrow> throw (wait_error k '' was denied.'')
      | AppTimeout t \<Rightarrow> throw (wait_error k '' timed out.'')
      | AppConsumed t b \<Rightarrow> throw (wait_error k '' was already used.'')
      | AppPending \<Rightarrow>
          andthen (on_world (av_now env)) (\<lambda>now.
          if num_le deadline (num_of_int now)
          then throw (GenericError (''Timed out waiting for approval request '' @ k @ ''.''))
          else ret None))"

definition poll_found ::
  "host \<Rightarrow> 'w approval_env \<Rightarrow> string \<Rightarrow> jsnum \<Rightarrow> approval_request \<Rightarrow>
    ('w adb, approval_request option) eff" where
  "poll_found h env k deadline r =
     andthen (on_world (av_now env)) (\<lambda>now.
     if num_le (date_parse h (ar_timeoutAt r)) (num_of_int now)
     then andthen (if ar_state r = AppPending
         then andthen (expire h env k) (\<lambda>_. ret ()) else ret ())
       (\<lambda>_. throw (wait_error k '' timed out.''))
     else poll_state env k deadline r)"

definition poll ::
  "host \<Rightarrow> 'w approval_env \<Rightarrow> string \<Rightarrow> jsnum \<Rightarrow> ('w adb, approval_request option) eff" where
  "poll h env k deadline =
     andthen (get_request h env k) (\<lambda>found.
     case found of None \<Rightarrow> throw (wait_error k '' was not found.'')
     | Some r \<Rightarrow> poll_found h env k deadline r)"

text \<open>
  The polls of \<open>waitForApproval\<close>; \<open>sleep\<close> is all that happens between two of them, and the outcome
  \<open>None\<close> says that the promise is not settled after that many polls.
\<close>

fun poll_loop ::
  "nat \<Rightarrow> host \<Rightarrow> 'w approval_env \<Rightarrow> ('w adb \<Rightarrow> 'w adb) \<Rightarrow> string \<Rightarrow> jsnum \<Rightarrow>
    ('w adb, approval_request option) eff" where
  "poll_loop 0 h env sleep k deadline = ret None"
| "poll_loop (Suc n) h env sleep k deadline =
     andthen (poll h env k deadline) (\<lambda>r.
     case r of Some x \<Rightarrow> ret (Some x)
     | None \<Rightarrow> andthen (modify_state sleep) (\<lambda>_. poll_loop n h env sleep k deadline))"

definition waitForApproval ::
  "nat \<Rightarrow> host \<Rightarrow> 'w approval_env \<Rightarrow> ('w adb \<Rightarrow> 'w adb) \<Rightarrow> string \<Rightarrow> jsnum \<Rightarrow>
    ('w adb, approval_request option) eff" where
  "waitForApproval n h env sleep k timeoutMs =
     andthen (on_world (av_now env)) (\<lambda>now.
     poll_loop n h env sleep k (num_add (num_of_int now) timeoutMs))"

subsection \<open>Health\<close>

definition isClosedSqliteError :: "'w approval_env \<Rightarrow> exn \<Rightarrow> bool" where
  "isClosedSqliteError env e = (let m = to_lower (exn_message e) in
     sublist ''not open'' m \<or> sublist ''database is closed'' m \<or> sublist ''closed database'' m \<or>
     av_misuse env e)"

definition probe_params :: "string \<Rightarrow> approval_params" where
  "probe_params cid =
     \<lparr>ap_intentId = ''00000000-0000-4000-8000-000000000000'', ap_correlationId = cid,
      ap_principal = ''guardrails.health-probe'', ap_action = ''health.probe'',
      ap_resource = ''approval:health'', ap_environment = Dev,
      ap_escalationReason = ''Approval store health probe.'', ap_approvalType = OneTime,
      ap_intentData = JObj [(''healthProbe'', JBool True)]\<rparr>"

definition checkHealth_body :: "host \<Rightarrow> 'w approval_env \<Rightarrow> ('w adb, unit) eff" where
  "checkHealth_body h env =
     andthen (on_world (av_now env)) (\<lambda>now.
     andthen (on_world (av_uuid env)) (\<lambda>k.
     andthen (on_world (av_uuid env)) (\<lambda>cid.
     andthen (lift_exn (date_to_iso h (num_add (num_of_int now) (Fin 60000)))) (\<lambda>timeout.
     let r = new_request (probe_params cid) k (iso_string h now) timeout in
     andthen (insert_row env k (stored_json r)) (\<lambda>_.
     andthen (get_request h env k) (\<lambda>stored.
     if \<not> (\<exists>x \<in> set_option stored. ar_state x = AppPending \<and> ar_approvalId x = k)
     then throw (GenericError ''Approval health probe request was not stored.'')
     else andthen (delete_row env k) (\<lambda>n.
       if n \<noteq> 1 then throw (GenericError ''Approval health probe request could not be deleted.'')
       else andthen (get_request h env k) (\<lambda>left.
         if left \<noteq> None then throw (GenericError ''Approval health probe request was not removed.'')
         else ret ()))))))))"

definition approval_checkHealth :: "host \<Rightarrow> 'w approval_env \<Rightarrow> ('w adb, unit) eff" where
  "approval_checkHealth h env =
     (if \<not> av_explicit env
      then throw (GenericError ''Approval store is not explicitly configured for live trading.'')
      else try_catch (transaction env (checkHealth_body h env))
        (\<lambda>e. if isClosedSqliteError env e then throw (GenericError ''Approval store is closed.'')
             else throw e))"

subsection \<open>A concrete store\<close>

text \<open>The world is the clock, the audit log and nothing that fails.\<close>

definition sample_env :: "(int \<times> audit_event list) approval_env" where
  "sample_env =
     \<lparr>av_now = (\<lambda>w. (Inr (fst w), w)), av_uuid = (\<lambda>w. (Inr ''u1'', w)), av_io = ret (),
      av_misuse = (\<lambda>_. False), av_explicit = True, av_timeoutSeconds = Fin 1,
      av_audit = Some (\<lambda>e (t, es). (Inr (), (t, es @ [e]))), av_onboarding = None\<rparr>"

definition sample_request :: "approval_state \<Rightarrow> approval_request" where
  "sample_request st = approval_params.extend
     \<lparr>ap_intentId = ''i1'', ap_correlationId = ''c1'', ap_principal = ''agent'',
      ap_action = ''cex.place_order'', ap_resource = ''acct'', ap_environment = Testnet,
      ap_escalationReason = ''large order'', ap_approvalType = OneTime, ap_intentData = JObj []\<rparr>
     \<lparr>ar_approvalId = ''u1'', ar_createdAt = sample_date 1, ar_timeoutAt = sample_date 9,
      ar_state = st\<rparr>"

definition sample_rows :: "approval_state \<Rightarrow> rows" where
  "sample_rows st = [(''u1'', stored_json (sample_request st))]"

lemma sample_request_simps [simp]:
  "ar_state (sample_request st) = st" "ar_approvalId (sample_request st) = ''u1''"
  "ap_approvalType (sample_request st) = OneTime" "ar_timeoutAt (sample_request st) = sample_date 9"
  "ap_intentData (sample_request st) = JObj []" "ar_createdAt (sample_request st) = sample_date 1"
  "sample_request st\<lparr>ap_intentData := JObj []\<rparr> = sample_request st"
  "sample_request st\<lparr>ar_state := st'\<rparr> = sample_request st'"
  by (simp_all add: sample_request_def approval_params.defs)

lemma sample_row_parses [simp]:
  "parse_approval sample_host (stored_json (sample_request st)) = Some (sample_request st)"
  using parse_stored [of "sample_request st" sample_host]
  by (cases st) (simp_all add: request_ok_def)

lemma sample_rows_lookup [simp]: "map_of (sample_rows st) ''u1'' = Some (stored_json (sample_request st))"
  by (simp add: sample_rows_def)

end
