(* ===== verification/ApprovalSafety.thy ===== *)
theory ApprovalSafety
  imports ApprovalStore
begin

text \<open>
  The life of an approval request: the table moves by creations, decisions and deletions only
  (\<open>row_step\<close>), every operation of the store is a run of such steps, and the states denied,
  timed out and consumed are final. On that rest the properties of decisions and of consumption.
\<close>

declare ret_run [simp del] throw_run [simp del]

subsection \<open>Steps of the table\<close>

fun allowed :: "approval_state \<Rightarrow> approval_state \<Rightarrow> bool" where
  "allowed AppPending st \<longleftrightarrow> (case st of AppApproved t b \<Rightarrow> True | AppDenied t b \<Rightarrow> True
     | AppTimeout t \<Rightarrow> True | _ \<Rightarrow> False)"
| "allowed (AppApproved t b) st \<longleftrightarrow> st = AppConsumed t b"
| "allowed _ st \<longleftrightarrow> False"

datatype row_event = Created string | Decided string | Deleted string

inductive row_step :: "host \<Rightarrow> row_event \<Rightarrow> rows \<Rightarrow> rows \<Rightarrow> bool" for h where
  created: "map_of rows k = None \<Longrightarrow> row_check k (stored_json r) \<Longrightarrow> ar_state r = AppPending \<Longrightarrow>
    row_step h (Created k) rows (rows @ [(k, stored_json r)])"
| decided: "map_of rows k = Some v \<Longrightarrow> parse_approval h v = Some r \<Longrightarrow> allowed (ar_state r) st \<Longrightarrow>
    row_step h (Decided k) rows (set_row k (stored_json (r\<lparr>ar_state := st\<rparr>)) rows)"
| deleted: "row_step h (Deleted k) rows (filter (\<lambda>(l, x). l \<noteq> k) rows)"

inductive row_steps :: "host \<Rightarrow> row_event list \<Rightarrow> rows \<Rightarrow> rows \<Rightarrow> bool" for h where
  row_steps_nil: "row_steps h [] rows rows"
| row_steps_cons: "row_step h ev rows rows' \<Longrightarrow> row_steps h evs rows' rows'' \<Longrightarrow>
    row_steps h (ev # evs) rows rows''"

lemma row_steps_append:
  "row_steps h evs rows rows' \<Longrightarrow> row_steps h evs' rows' rows'' \<Longrightarrow> row_steps h (evs @ evs') rows rows''"
  by (induction rule: row_steps.induct) (auto intro: row_steps.intros)

lemma row_steps_one: "row_step h ev rows rows' \<Longrightarrow> row_steps h [ev] rows rows'"
  by (auto intro: row_steps.intros)

definition rows_wf :: "rows \<Rightarrow> bool" where
  "rows_wf rows \<longleftrightarrow> distinct (map fst rows) \<and> (\<forall>(k, v) \<in> set rows. row_check k v)"

lemma map_of_set_row [simp]:
  "map_of (set_row k v rows) l = (if l = k \<and> map_of rows k \<noteq> None then Some v else map_of rows l)"
  by (induction k v rows rule: set_row.induct) auto

lemma set_row_keys [simp]: "map fst (set_row k v rows) = map fst rows"
  by (induction k v rows rule: set_row.induct) auto

lemma set_row_wf: "rows_wf rows \<Longrightarrow> row_check k v \<Longrightarrow> rows_wf (set_row k v rows)"
  unfolding rows_wf_def
  by (induction k v rows rule: set_row.induct) auto

lemma stored_fields [simp]:
  "js_get (stored_json r) ''approvalId'' = JStr (ar_approvalId r)"
  "js_get (stored_json r) ''state'' = JStr (state_name (ar_state r))"
  "js_get (stored_json r) ''timeoutAt'' = JStr (ar_timeoutAt r)"
  by (cases "ap_intentData r = JUndef"; cases "ar_state r";
      simp add: stored_json_def approval_json_def js_get_def)+

lemma stored_check [simp]: "row_check k (stored_json r) \<longleftrightarrow> ar_approvalId r = k"
  by (cases "ar_state r") (auto simp: row_check_def)

text \<open>What the reader finds in a row.\<close>

lemma parse_state_name:
  "parse_state h m = Some st \<Longrightarrow> m ''state'' = Some (JStr (state_name st))"
  unfolding parse_state_def Let_def required_def
  by (auto simp: bind_eq_Some_conv split: option.splits if_splits elim!: z_string.elims)

lemma parse_approval_fields:
  assumes "parse_approval h v = Some r"
  shows "js_get v ''approvalId'' = JStr (ar_approvalId r)"
    "js_get v ''state'' = JStr (state_name (ar_state r))"
    "js_get v ''timeoutAt'' = JStr (ar_timeoutAt r)" "is_object (ap_intentData r)"
proof -
  have str: "required (map_of (members v)) k (z_string P) = Some s \<Longrightarrow> js_get v k = JStr s" for k P s
    by (auto simp: required_def js_get_def split: option.splits if_splits elim!: z_string.elims)
  have rec: "required (map_of (members v)) k z_record = Some s \<Longrightarrow> is_object s" for k s
    by (auto simp: required_def split: option.splits elim!: z_record.elims)
  show "js_get v ''approvalId'' = JStr (ar_approvalId r)"
    "js_get v ''timeoutAt'' = JStr (ar_timeoutAt r)" "is_object (ap_intentData r)"
    using assms unfolding parse_approval_def Let_def
    by (auto simp: bind_eq_Some_conv split: if_splits dest!: str rec)
  show "js_get v ''state'' = JStr (state_name (ar_state r))"
    using assms unfolding parse_approval_def Let_def
    by (auto simp: bind_eq_Some_conv js_get_def split: if_splits dest!: parse_state_name)
qed

lemma row_id: "rows_wf rows \<Longrightarrow> map_of rows k = Some v \<Longrightarrow> parse_approval h v = Some r \<Longrightarrow> ar_approvalId r = k"
  using parse_approval_fields(1) [of h v r] by (auto simp: rows_wf_def row_check_def dest!: map_of_SomeD)

lemma row_step_wf: "row_step h ev rows rows' \<Longrightarrow> rows_wf rows \<Longrightarrow> rows_wf rows'"
proof (induction rule: row_step.induct)
  case (created rows k r)
  then show ?case by (auto simp: rows_wf_def map_of_eq_None_iff)
next
  case (decided rows k v r st)
  then show ?case using row_id by (intro set_row_wf) auto
qed (auto simp: rows_wf_def distinct_fst_filter)

lemma row_steps_wf: "row_steps h evs rows rows' \<Longrightarrow> rows_wf rows \<Longrightarrow> rows_wf rows'"
  by (induction rule: row_steps.induct) (auto intro: row_step_wf)

subsection \<open>Final states\<close>

definition final_row :: "jsval \<Rightarrow> bool" where
  "final_row v \<longleftrightarrow> js_get v ''state'' \<in> JStr ` {''denied'', ''timeout'', ''consumed''}"

lemma allowed_not_final: "allowed st st' \<Longrightarrow> state_name st \<in> {''pending'', ''approved''}"
  by (cases st) auto

lemma row_step_final:
  "row_step h ev rows rows' \<Longrightarrow> map_of rows k = Some v \<Longrightarrow> final_row v \<Longrightarrow> ev \<noteq> Deleted k \<Longrightarrow>
   map_of rows' k = Some v"
proof (induction rule: row_step.induct)
  case (created rows l r)
  then show ?case by (auto simp: map_of_append map_add_def)
next
  case (decided rows l w r st)
  have "l \<noteq> k"
    using decided parse_approval_fields(2) [of h w r] allowed_not_final [OF decided(3)]
    by (auto simp: final_row_def)
  with decided show ?case by simp
qed (simp add: map_of_filter_key)

lemma row_steps_final:
  "row_steps h evs rows rows' \<Longrightarrow> map_of rows k = Some v \<Longrightarrow> final_row v \<Longrightarrow> Deleted k \<notin> set evs \<Longrightarrow>
   map_of rows' k = Some v"
  by (induction rule: row_steps.induct) (auto dest: row_step_final)

subsection \<open>The operations are runs of steps\<close>

datatype approval_op =
    AppCreate approval_params
  | AppApprove string string
  | AppDeny string string
  | AppConsume string
  | AppCheckTimeouts
  | AppPoll string jsnum
  | AppDelete string
  | AppHealth
  | AppGet string
  | AppList "string option"

fun approval_perform :: "host \<Rightarrow> 'w approval_env \<Rightarrow> approval_op \<Rightarrow> 'w adb \<Rightarrow> 'w adb" where
  "approval_perform h env (AppCreate p) s = snd (create_request h env p s)"
| "approval_perform h env (AppApprove k by) s = snd (approve h env k by s)"
| "approval_perform h env (AppDeny k by) s = snd (deny h env k by s)"
| "approval_perform h env (AppConsume k) s = snd (consumeOneTime h env k s)"
| "approval_perform h env AppCheckTimeouts s = snd (checkTimeouts h env s)"
| "approval_perform h env (AppPoll k deadline) s = snd (poll h env k deadline s)"
| "approval_perform h env (AppDelete k) s = snd (delete_request env k s)"
| "approval_perform h env AppHealth s = snd (approval_checkHealth h env s)"
| "approval_perform h env (AppGet k) s = snd (get_request h env k s)"
| "approval_perform h env (AppList state) s = snd (list_requests h env state s)"

text \<open>Computations that leave the table alone.\<close>

abbreviation same_rows :: "('w adb, 'a) eff \<Rightarrow> bool" where
  "same_rows m \<equiv> \<forall>rows. keeps (\<lambda>s. fst s = rows) m"

lemma same_on_world [keeps_rules]: "keeps (\<lambda>s. fst s = rows) (on_world m)"
  by (auto simp: keeps_iff on_world_def split: prod.split)

lemma same_db_access [keeps_rules]: "keeps (\<lambda>s. fst s = rows) (db_access env)"
  unfolding db_access_def by (rule same_on_world)

lemma keeps_parse_row [keeps_rules]: "keeps I (parse_row h v)"
  by (auto simp: parse_row_def intro: keeps_rules split: option.split)

lemma keeps_parse_rows [keeps_rules]: "keeps I (parse_rows h vs)"
  by (induction vs) (simp_all only: parse_rows.simps, (intro keeps_rules | assumption)+)

lemma keeps_lift_exn [keeps_rules]: "keeps I (lift_exn r)"
  by (cases r) (auto simp: lift_exn_def intro: keeps_rules)

lemma same_get_request [keeps_rules]: "keeps (\<lambda>s. fst s = rows) (get_request h env k)"
  unfolding get_request_def by (intro keeps_rules)

lemma same_list_requests [keeps_rules]: "keeps (\<lambda>s. fst s = rows) (list_requests h env st)"
  unfolding list_requests_def by (intro keeps_rules)

lemma same_now_iso [keeps_rules]: "keeps (\<lambda>s. fst s = rows) (now_iso h env)"
  unfolding now_iso_def by (intro keeps_rules)

lemma same_decision_audit [keeps_rules]:
  "keeps (\<lambda>s. fst s = rows) (writeDecisionAudit env r ty by t st)"
  unfolding writeDecisionAudit_def by (intro keeps_rules)

lemma same_onboarding [keeps_rules]:
  "keeps (\<lambda>s. fst s = rows) (applyAllowlistOnboarding env r by t)"
  "keeps (\<lambda>s. fst s = rows) (writeAllowlistRollbackAudit env r by t e)"
  unfolding applyAllowlistOnboarding_def writeAllowlistRollbackAudit_def Let_def
  by (intro keeps_rules)+

text \<open>Triples over the table alone: \<open>m\<close> started at \<open>rows\<close> ends in a table that \<open>Q\<close> accepts.\<close>

abbreviation ends :: "rows \<Rightarrow> ('w adb, 'a) eff \<Rightarrow> ('a \<Rightarrow> rows \<Rightarrow> bool) \<Rightarrow> bool" where
  "ends rows m Q \<equiv> triple (\<lambda>s. fst s = rows) m (\<lambda>x s. Q x (fst s)) (\<lambda>_ _. True)"

lemma ends_same: "keeps (\<lambda>s. fst s = rows) m \<Longrightarrow> ends rows m (\<lambda>_ rows'. rows' = rows)"
  unfolding keeps_def by (rule triple_post) auto

lemma ends_andthen_same:
  fixes m :: "('w adb, 'a) eff"
  assumes "keeps (\<lambda>s. fst s = rows) m" "\<And>x. triple (\<lambda>s. fst s = rows) (f x) Q (\<lambda>_ _. True)"
  shows "triple (\<lambda>s. fst s = rows) (andthen m f) Q (\<lambda>_ _. True)"
  by (rule triple_andthen [OF ends_same [OF assms(1)] assms(2)])

lemma ends_ret: "Q x rows \<Longrightarrow> ends rows (ret x) Q"
  by (rule triple_pre [OF triple_ret]) simp

lemma ends_throw: "ends rows (throw e) Q"
  by (rule triple_pre [OF triple_throw]) simp

lemma ends_get:
  fixes Q :: "'a \<Rightarrow> 'w adb \<Rightarrow> bool"
  assumes "triple (\<lambda>s. fst s = rows) (f None) Q (\<lambda>_ _. True)"
    and "\<And>v r. map_of rows k = Some v \<Longrightarrow> parse_approval h v = Some r \<Longrightarrow>
      triple (\<lambda>s. fst s = rows) (f (Some r)) Q (\<lambda>_ _. True)"
  shows "triple (\<lambda>s. fst s = rows) (andthen (get_request h env k) f) Q (\<lambda>_ _. True)"
proof -
  have "ends rows (get_request h env k) (\<lambda>x rows'. rows' = rows \<and> (\<forall>r. x = Some r \<longrightarrow>
      (\<exists>v. map_of rows k = Some v \<and> parse_approval h v = Some r)))"
    unfolding get_request_def
    by (rule ends_andthen_same, rule same_db_access)
      (auto simp: triple_def eff_defs parse_row_def split: option.splits)
  then show ?thesis
  proof (rule triple_andthen)
    fix x :: "approval_request option"
    show "triple (\<lambda>s. fst s = rows \<and> (\<forall>r. x = Some r \<longrightarrow>
        (\<exists>v. map_of rows k = Some v \<and> parse_approval h v = Some r))) (f x) Q (\<lambda>_ _. True)"
    proof (cases x)
      case None
      with assms(1) show ?thesis by (auto intro: triple_pre)
    next
      case (Some r)
      show ?thesis
      proof (cases "\<exists>v. map_of rows k = Some v \<and> parse_approval h v = Some r")
        case True
        with assms(2) Some show ?thesis by (auto intro: triple_pre)
      next
        case False
        with Some show ?thesis by (auto simp: triple_def)
      qed
    qed
  qed
qed

lemma ends_save:
  assumes "\<And>rows'. rows' = set_row (ar_approvalId r) (stored_json r) rows \<Longrightarrow> Q r rows'"
  shows "ends rows (save_request env r) Q"
  unfolding save_request_def update_row_def andthen_assoc
  by (rule ends_andthen_same, rule same_db_access) (auto simp: triple_def eff_defs assms)

definition one_decision :: "host \<Rightarrow> rows \<Rightarrow> rows \<Rightarrow> bool" where
  "one_decision h rows rows' \<longleftrightarrow> rows' = rows \<or> (\<exists>k. row_step h (Decided k) rows rows')"

lemma transaction_ends:
  assumes "ends rows m Q" "transaction env m (rows, w) = (r, (rows', w'))"
  shows "(case r of Inl e \<Rightarrow> rows' = rows | Inr x \<Rightarrow> Q x rows')"
proof -
  have "ends rows (andthen (db_access env) (\<lambda>_. andthen m (\<lambda>x. andthen (db_access env) (\<lambda>_. ret x)))) Q"
  proof (rule ends_andthen_same, rule same_db_access, rule triple_andthen [OF assms(1)])
    fix x
    show "triple (\<lambda>s. Q x (fst s)) (andthen (db_access env) (\<lambda>_. ret x)) (\<lambda>x s. Q x (fst s)) (\<lambda>_ _. True)"
      by (auto simp: triple_def db_access_def on_world_def eff_defs split: prod.splits sum.splits)
  qed
  then show ?thesis
    using assms(2) unfolding transaction_def triple_def
    by (force split: prod.splits sum.splits)
qed

lemma ends_then_ret:
  "ends rows m (\<lambda>_. Q) \<Longrightarrow> ends rows (andthen m (\<lambda>x. ret (g x))) (\<lambda>_. Q)"
  by (erule triple_andthen) (rule triple_ret)

lemma ends_decision:
  assumes "rows_wf rows" "map_of rows k = Some v" "parse_approval h v = Some r"
    and "allowed (ar_state r) st"
  shows "ends rows (save_request env (r\<lparr>ar_state := st\<rparr>)) (\<lambda>_. one_decision h rows)"
  by (rule ends_save)
    (use row_step.decided [OF assms(2-4)] row_id [OF assms(1-3)] in \<open>auto simp: one_decision_def\<close>)

lemma ends_timeout:
  assumes "rows_wf rows" "map_of rows k = Some v" "parse_approval h v = Some r"
    and "ar_state r = AppPending"
  shows "ends rows (timeout_request env r t) (\<lambda>_. one_decision h rows)"
  unfolding timeout_request_def
  by (rule ends_andthen_same [OF same_decision_audit ends_decision [OF assms(1-3)]]) (simp add: assms(4))

lemma triple_any: "triple (\<lambda>_. True) m (\<lambda>_ _. True) (\<lambda>_ _. True)"
  by (auto simp: triple_def split: prod.splits sum.splits)

lemma ends_approve_body:
  assumes "rows_wf rows" "map_of rows k = Some v" "parse_approval h v = Some r"
    and "ar_state r = AppPending"
  shows "ends rows (approve_body env by r t) (\<lambda>_. one_decision h rows)"
  unfolding approve_body_def
proof (rule ends_andthen_same)
  fix ob
  show "ends rows (try_catch (andthen (writeDecisionAudit env r ''approval.approved'' (JStr by) t
        ''approved'') (\<lambda>_. save_request env (r\<lparr>ar_state := AppApproved t by\<rparr>)))
      (\<lambda>err. case ob of None \<Rightarrow> throw err | Some (rollback, entry) \<Rightarrow>
        andthen (on_world rollback) (\<lambda>_.
        andthen (writeAllowlistRollbackAudit env r by t entry) (\<lambda>_. throw err))))
      (\<lambda>_. one_decision h rows)"
  proof (rule triple_try_catch)
    show "ends rows (andthen (writeDecisionAudit env r ''approval.approved'' (JStr by) t ''approved'')
        (\<lambda>_. save_request env (r\<lparr>ar_state := AppApproved t by\<rparr>))) (\<lambda>_. one_decision h rows)"
      by (rule ends_andthen_same [OF same_decision_audit ends_decision [OF assms(1-3)]])
        (simp add: assms(4))
  qed (auto simp: triple_def eff_defs split: option.splits prod.splits sum.splits)
qed (intro keeps_rules)

lemma ends_deny_body:
  assumes "rows_wf rows" "map_of rows k = Some v" "parse_approval h v = Some r"
    and "ar_state r = AppPending"
  shows "ends rows (deny_body env by r t) (\<lambda>_. one_decision h rows)"
  unfolding deny_body_def
  by (rule ends_andthen_same [OF same_decision_audit ends_decision [OF assms(1-3)]]) (simp add: assms(4))

lemma one_decision_refl [simp]: "one_decision h rows rows"
  by (simp add: one_decision_def)

lemma transaction_one_decision:
  assumes "ends rows m (\<lambda>_. one_decision h rows)" "transaction env m (rows, w) = (r, (rows', w'))"
  shows "one_decision h rows rows'"
  using transaction_ends [OF assms] by (auto split: sum.splits)

lemma decide_step:
  assumes "rows_wf rows"
    and "\<And>v r t. map_of rows k = Some v \<Longrightarrow> parse_approval h v = Some r \<Longrightarrow> ar_state r = AppPending \<Longrightarrow>
      ends rows (f r t) (\<lambda>_. one_decision h rows)"
    and "decide h env k f (rows, w) = (r, (rows', w'))"
  shows "one_decision h rows rows'"
proof (rule transaction_one_decision [OF _ assms(3) [unfolded decide_def]], rule ends_get)
  fix v x
  assume v: "map_of rows k = Some v" "parse_approval h v = Some x"
  show "ends rows (case Some x of None \<Rightarrow> ret None
      | Some r \<Rightarrow> if ar_state r \<noteq> AppPending then ret None
          else andthen (now_iso h env) (\<lambda>decidedAt.
            if ar_timeoutAt r \<le> decidedAt
            then andthen (timeout_request env r decidedAt) (\<lambda>_. ret None)
            else andthen (f r decidedAt) (\<lambda>x. ret (Some x)))) (\<lambda>_. one_decision h rows)"
  proof (cases "ar_state x = AppPending")
    case True
    then show ?thesis
      by (auto simp: True intro!: ends_andthen_same [OF same_now_iso] ends_then_ret
          ends_timeout [OF assms(1) v True] assms(2) [OF v True])
  qed (auto intro: ends_ret)
qed (auto intro: ends_ret)

lemma approve_step:
  "rows_wf rows \<Longrightarrow> approve h env k by (rows, w) = (r, (rows', w')) \<Longrightarrow> one_decision h rows rows'"
  unfolding approve_def by (rule decide_step [OF _ ends_approve_body])

lemma deny_step:
  "rows_wf rows \<Longrightarrow> deny h env k by (rows, w) = (r, (rows', w')) \<Longrightarrow> one_decision h rows rows'"
  unfolding deny_def by (rule decide_step [OF _ ends_deny_body])

lemma consume_step:
  assumes "rows_wf rows" "consumeOneTime h env k (rows, w) = (r, (rows', w'))"
  shows "one_decision h rows rows'"
proof (rule transaction_one_decision [OF _ assms(2) [unfolded consumeOneTime_def]], rule ends_get)
  fix v x
  assume v: "map_of rows k = Some v" "parse_approval h v = Some x"
  have "ends rows (if ap_approvalType x \<noteq> OneTime then ret None
      else andthen (on_world (av_now env)) (\<lambda>now.
        if num_le (date_parse h (ar_timeoutAt x)) (num_of_int now) then ret None
        else andthen (save_request env (x\<lparr>ar_state := AppConsumed t b\<rparr>)) (\<lambda>x. ret (Some x))))
      (\<lambda>_. one_decision h rows)" if "ar_state x = AppApproved t b" for t b
    by (auto intro!: ends_ret ends_andthen_same [OF same_on_world] ends_then_ret
        ends_decision [OF assms(1) v] simp: that)
  then show "ends rows (case Some x of None \<Rightarrow> ret None
      | Some r \<Rightarrow> (case ar_state r of
          AppApproved t b \<Rightarrow>
            if ap_approvalType r \<noteq> OneTime then ret None
            else andthen (on_world (av_now env)) (\<lambda>now.
              if num_le (date_parse h (ar_timeoutAt r)) (num_of_int now) then ret None
              else andthen (save_request env (r\<lparr>ar_state := AppConsumed t b\<rparr>)) (\<lambda>x. ret (Some x)))
        | _ \<Rightarrow> ret None)) (\<lambda>_. one_decision h rows)"
    by (cases "ar_state x") (auto intro: ends_ret)
qed (auto intro: ends_ret)

lemma expire_step:
  assumes "rows_wf rows" "expire h env k (rows, w) = (r, (rows', w'))"
  shows "one_decision h rows rows'"
proof (rule transaction_one_decision [OF _ assms(2) [unfolded expire_def]], rule ends_get)
  fix v x
  assume v: "map_of rows k = Some v" "parse_approval h v = Some x"
  show "ends rows (andthen (now_iso h env) (\<lambda>now. case Some x of None \<Rightarrow> ret None
      | Some r \<Rightarrow>
          if ar_state r \<noteq> AppPending \<or> now < ar_timeoutAt r then ret None
          else andthen (timeout_request env r now) (\<lambda>x. ret (Some x)))) (\<lambda>_. one_decision h rows)"
  proof (cases "ar_state x = AppPending")
    case True
    show ?thesis
      by (auto intro!: ends_ret ends_andthen_same [OF same_now_iso] ends_then_ret
          ends_timeout [OF assms(1) v True])
  qed (auto intro!: ends_ret ends_andthen_same [OF same_now_iso])
qed (auto intro!: ends_ret ends_andthen_same [OF same_now_iso])

text \<open>Runs without deletions, for operations that are not transactions as a whole.\<close>

definition runs_to :: "host \<Rightarrow> rows \<Rightarrow> rows \<Rightarrow> bool" where
  "runs_to h rows rows' \<longleftrightarrow> (\<exists>evs. row_steps h evs rows rows' \<and> (\<forall>k. Deleted k \<notin> set evs))"

lemma runs_to_refl [simp]: "runs_to h rows rows"
  unfolding runs_to_def by (rule exI [of _ "[]"]) (simp add: row_steps_nil)

lemma runs_to_trans: "runs_to h rows rows' \<Longrightarrow> runs_to h rows' rows'' \<Longrightarrow> runs_to h rows rows''"
  unfolding runs_to_def by (metis Un_iff row_steps_append set_append)

lemma runs_to_wf: "runs_to h rows rows' \<Longrightarrow> rows_wf rows \<Longrightarrow> rows_wf rows'"
  unfolding runs_to_def using row_steps_wf by blast

lemma runs_to_decision: "one_decision h rows rows' \<Longrightarrow> runs_to h rows rows'"
  unfolding one_decision_def runs_to_def
  by (elim disjE exE; force intro: row_steps_one row_steps_nil)

text \<open>Computations that move the table by such runs; they compose.\<close>

definition moves :: "host \<Rightarrow> ('w adb, 'a) eff \<Rightarrow> bool" where
  "moves h m \<longleftrightarrow> (\<forall>s. rows_wf (fst s) \<longrightarrow> runs_to h (fst s) (fst (snd (m s))))"

lemma movesD: "moves h m \<Longrightarrow> rows_wf (fst s) \<Longrightarrow> runs_to h (fst s) (fst (snd (m s)))"
  unfolding moves_def by blast

named_theorems moves_rules \<open>computations that move the table by steps\<close>

lemma moves_keeps: "(\<And>rows. keeps (\<lambda>s. fst s = rows) m) \<Longrightarrow> moves h m"
  by (auto simp: moves_def keeps_iff)

lemma moves_andthen [moves_rules]:
  fixes m :: "('w adb, 'a) eff" and f :: "'a \<Rightarrow> ('w adb, 'b) eff"
  assumes "moves h m" "\<And>x. moves h (f x)" shows "moves h (andthen m f)"
  unfolding moves_def
proof (intro allI impI)
  fix s :: "'w adb" assume wf: "rows_wf (fst s)"
  obtain r t where m: "m s = (r, t)" by (cases "m s")
  then have t: "runs_to h (fst s) (fst t)" using movesD [OF assms(1) wf] by simp
  show "runs_to h (fst s) (fst (snd (andthen m f s)))"
  proof (cases r)
    case (Inr x)
    have "runs_to h (fst t) (fst (snd (f x t)))"
      using assms(2) runs_to_wf [OF t wf] unfolding moves_def by blast
    from runs_to_trans [OF t this] show ?thesis by (simp add: andthen_def m Inr)
  qed (use t in \<open>simp add: andthen_def m\<close>)
qed

lemma moves_basic [moves_rules]:
  "moves h (ret x)" "moves h (throw e)" "moves h (read_state g)" "moves h (on_world n)"
  "moves h (db_access env)" "moves h (lift_exn r)" "moves h (get_request h' env k)"
  "moves h (list_requests h' env st)" "moves h (now_iso h' env)"
  by (rule moves_keeps, intro keeps_rules)+

lemma moves_if [moves_rules]:
  "(b \<Longrightarrow> moves h m) \<Longrightarrow> (\<not> b \<Longrightarrow> moves h n) \<Longrightarrow> moves h (if b then m else n)"
  by simp

lemma moves_option [moves_rules]:
  "moves h m \<Longrightarrow> (\<And>y. moves h (f y)) \<Longrightarrow> moves h (case x of None \<Rightarrow> m | Some y \<Rightarrow> f y)"
  by (cases x) auto

lemma moves_one_decision:
  fixes m :: "('w adb, 'a) eff"
  assumes "\<And>rows w r rows' w'. rows_wf rows \<Longrightarrow> m (rows, w) = (r, (rows', w')) \<Longrightarrow> one_decision h rows rows'"
  shows "moves h m"
  unfolding moves_def
proof (intro allI impI)
  fix s :: "'w adb" assume wf: "rows_wf (fst s)"
  obtain rows w r rows' w' where "s = (rows, w)" "m (rows, w) = (r, (rows', w'))" by (metis prod.collapse)
  with runs_to_decision [OF assms] wf show "runs_to h (fst s) (fst (snd (m s)))" by fastforce
qed

lemma moves_decisions [moves_rules]:
  "moves h (approve h env k by)" "moves h (deny h env k by)" "moves h (consumeOneTime h env k)"
  "moves h (expire h env k)"
  by (rule moves_one_decision, erule (1) approve_step deny_step consume_step expire_step)+

lemma moves_expire_all [moves_rules]: "moves h (expire_all h env ks)"
proof (induction ks)
  case (Cons k ks)
  then show ?case unfolding expire_all.simps by (intro moves_rules)
qed (simp only: expire_all.simps moves_basic)

lemma moves_checkTimeouts [moves_rules]: "moves h (checkTimeouts h env)"
  unfolding checkTimeouts_def by (intro moves_rules)

lemma moves_poll [moves_rules]: "moves h (poll h env k deadline)"
proof -
  have "moves h (poll_state env k deadline r)" for r
    unfolding poll_state_def by (cases "ar_state r") (simp_all only: approval_state.case, (intro moves_rules)+)
  then show ?thesis unfolding poll_def poll_found_def by (intro moves_rules)
qed

lemma runs_to_created:
  assumes "map_of rows k = None" "row_check k (stored_json r)" "ar_state r = AppPending"
  shows "runs_to h rows (rows @ [(k, stored_json r)])"
  unfolding runs_to_def
  using row_steps_one [OF row_step.created [OF assms]] by (intro exI [of _ "[Created k]"]) simp

lemma moves_insert [moves_rules]:
  "ar_state r = AppPending \<Longrightarrow> ar_approvalId r = k \<Longrightarrow> moves h (insert_row env k (stored_json r))"
  unfolding insert_row_def
  by (rule moves_andthen [OF moves_basic(5)]) (auto simp: moves_def runs_to_created)

lemma moves_create [moves_rules]: "moves h (create_request h env p)"
  unfolding create_request_def Let_def
  by (intro moves_rules) (simp_all add: new_request_def approval_params.defs)

text \<open>The health probe leaves no trace.\<close>

lemma ends_insert:
  assumes "map_of rows k = None \<Longrightarrow> ends (rows @ [(k, v)]) (f ()) Q"
  shows "ends rows (andthen (insert_row env k v) f) Q"
  unfolding insert_row_def andthen_assoc
  by (rule ends_andthen_same [OF same_db_access])
    (use assms in \<open>auto simp: triple_def andthen_def split: prod.splits sum.splits\<close>)

lemma ends_delete:
  assumes "\<And>n. ends (filter (\<lambda>(l, x). l \<noteq> k) rows) (f n) Q"
  shows "ends rows (andthen (delete_row env k) f) Q"
  unfolding delete_row_def andthen_assoc
  by (rule ends_andthen_same [OF same_db_access])
    (use assms in \<open>auto simp: triple_def andthen_def split: prod.splits sum.splits\<close>)

lemma health_ends: "ends rows (checkHealth_body h env) (\<lambda>_ rows'. rows' = rows)"
proof -
  have filter: "filter (\<lambda>(l, x). l \<noteq> k) (rows @ [(k, v)]) = rows" if "map_of rows k = None" for k v
    using that by (auto simp: map_of_eq_None_iff filter_id_conv image_iff)
  show ?thesis
    unfolding checkHealth_body_def Let_def
    apply (intro ends_andthen_same [OF same_on_world] ends_andthen_same [OF keeps_lift_exn] ends_insert
        ends_andthen_same [OF same_get_request])
    apply (rule triple_if_same)
     apply (rule ends_throw)
    apply (rule ends_delete)
    apply (rule triple_if_same)
     apply (rule ends_throw)
    apply (intro ends_andthen_same [OF same_get_request] triple_if_same ends_throw)
    apply (rule ends_ret)
    apply (erule filter)
    done
qed

lemma transaction_same:
  fixes m :: "('w adb, 'a) eff"
  assumes "\<And>rows. ends rows m (\<lambda>_ rows'. rows' = rows)"
  shows "keeps (\<lambda>s. fst s = rows) (transaction env m)"
  unfolding keeps_iff
proof (intro allI impI)
  fix s :: "'w adb" assume "fst s = rows"
  then obtain w r rows' w' where s: "s = (rows, w)" "transaction env m (rows, w) = (r, (rows', w'))"
    by (metis prod.collapse)
  from transaction_ends [OF assms s(2)] s show "fst (snd (transaction env m s)) = rows"
    by (simp split: sum.splits)
qed

lemma moves_health [moves_rules]: "moves h (approval_checkHealth h' env)"
  unfolding approval_checkHealth_def
  by (rule moves_keeps) (intro keeps_rules transaction_same [OF health_ends])

text \<open>Every operation is a run of steps; only \<open>delete\<close> deletes.\<close>

lemma operation_runs:
  assumes "rows_wf (fst s)"
  shows "\<exists>evs. row_steps h evs (fst s) (fst (approval_perform h env x s)) \<and>
    (\<forall>k. Deleted k \<in> set evs \<longrightarrow> x = AppDelete k)"
proof (cases "\<exists>k. x = AppDelete k")
  case True
  then obtain k where x: "x = AppDelete k" by blast
  have "fst (approval_perform h env x s) \<in> {fst s, filter (\<lambda>(l, y). l \<noteq> k) (fst s)}"
    unfolding x by (cases s) (auto simp: delete_request_def delete_row_def db_access_def on_world_def eff_defs
        split: prod.splits sum.splits)
  then show ?thesis
    using row_steps_one [OF row_step.deleted [of h k "fst s"]] row_steps_nil [of h "fst s"]
    by (auto simp: x intro: exI [of _ "[]"] exI [of _ "[Deleted k]"])
next
  case False
  have "runs_to h (fst s) (fst (approval_perform h env x s))"
  proof (cases x)
    case (AppDelete k)
    with False show ?thesis by blast
  qed (simp_all only: approval_perform.simps, (rule movesD [OF _ assms], intro moves_rules)+)
  then show ?thesis unfolding runs_to_def by blast
qed

subsection \<open>Consumption\<close>

lemma ends_save_some:
  assumes "Q (Some r) (set_row (ar_approvalId r) (stored_json r) rows)"
  shows "ends rows (andthen (save_request env r) (\<lambda>x. ret (Some x))) Q"
proof (rule triple_andthen)
  show "ends rows (save_request env r) (\<lambda>x. Q (Some x))"
    by (rule ends_save) (simp add: assms)
  show "triple (\<lambda>s. Q (Some x) (fst s)) (ret (Some x)) (\<lambda>x s. Q x (fst s)) (\<lambda>_ _. True)" for x
    by (rule triple_ret)
qed

text \<open>The instant at which an operation inside a transaction decides: \<open>Date.now\<close> after \<open>BEGIN\<close> and
  after the row is read.\<close>

definition decision_instant :: "'w approval_env \<Rightarrow> 'w \<Rightarrow> int \<Rightarrow> bool" where
  "decision_instant env w now \<longleftrightarrow> (\<exists>begun read after. av_io env w = (Inr (), begun) \<and>
     av_io env begun = (Inr (), read) \<and> av_now env read = (Inr now, after))"

lemma in_transaction:
  assumes "transaction env (andthen (get_request h env k) f) (rows, w) = (Inr x, (rows', w'))"
  obtains begun read found u where "av_io env w = (Inr (), begun)" "av_io env begun = (Inr (), read)"
    "found = None \<or> (\<exists>v r. map_of rows k = Some v \<and> parse_approval h v = Some r \<and> found = Some r)"
    "f found (rows, read) = (Inr x, (rows', u))" "av_io env u = (Inr (), w')"
proof -
  obtain b1 begun where io1: "av_io env w = (b1, begun)" by (cases "av_io env w")
  obtain b2 read where io2: "av_io env begun = (b2, read)" by (cases "av_io env begun")
  have "b1 = Inr () \<and> b2 = Inr () \<and> (\<exists>found u. (found = None \<or>
      (\<exists>v r. map_of rows k = Some v \<and> parse_approval h v = Some r \<and> found = Some r)) \<and>
      f found (rows, read) = (Inr x, (rows', u)) \<and> av_io env u = (Inr (), w'))"
    using assms io1 io2
    by (cases b1; cases b2)
      (auto simp: transaction_def get_request_def db_access_def on_world_def eff_defs parse_row_def
        split: option.splits prod.splits sum.splits)
  with io1 io2 that show thesis by metis
qed

lemma consumed_request:
  assumes "rows_wf rows" "consumeOneTime h env k (rows, w) = (Inr (Some r), (rows', w'))"
  shows "\<exists>v r0 t b now. map_of rows k = Some v \<and> parse_approval h v = Some r0 \<and>
    ar_state r0 = AppApproved t b \<and> ap_approvalType r0 = OneTime \<and>
    decision_instant env w now \<and> \<not> num_le (date_parse h (ar_timeoutAt r0)) (num_of_int now) \<and>
    r = r0\<lparr>ar_state := AppConsumed t b\<rparr> \<and> map_of rows' k = Some (stored_json r)"
proof -
  obtain begun read found u where io: "av_io env w = (Inr (), begun)" "av_io env begun = (Inr (), read)"
    and found: "found = None \<or> (\<exists>v r. map_of rows k = Some v \<and> parse_approval h v = Some r \<and> found = Some r)"
    and run: "(case found of None \<Rightarrow> ret None
      | Some r \<Rightarrow> (case ar_state r of
          AppApproved t b \<Rightarrow>
            if ap_approvalType r \<noteq> OneTime then ret None
            else andthen (on_world (av_now env)) (\<lambda>now.
              if num_le (date_parse h (ar_timeoutAt r)) (num_of_int now) then ret None
              else andthen (save_request env (r\<lparr>ar_state := AppConsumed t b\<rparr>)) (\<lambda>x. ret (Some x)))
        | _ \<Rightarrow> ret None)) (rows, read) = (Inr (Some r), (rows', u))"
    by (rule in_transaction [OF assms(2) [unfolded consumeOneTime_def]]) (rule that)
  from found run obtain v r0 where v: "map_of rows k = Some v" "parse_approval h v = Some r0" "found = Some r0"
    by (auto simp: ret_def)
  from run v(3) obtain t b where st: "ar_state r0 = AppApproved t b" "ap_approvalType r0 = OneTime"
    by (auto simp: ret_def split: approval_state.splits if_splits)
  obtain y after where now: "av_now env read = (y, after)" by (cases "av_now env read")
  from run v(3) st now obtain n where n: "y = Inr n" "\<not> num_le (date_parse h (ar_timeoutAt r0)) (num_of_int n)"
      "andthen (save_request env (r0\<lparr>ar_state := AppConsumed t b\<rparr>)) (\<lambda>x. ret (Some x)) (rows, after) =
        (Inr (Some r), (rows', u))"
    by (cases y) (auto simp: on_world_def andthen_def ret_def split: if_splits)
  have "r = r0\<lparr>ar_state := AppConsumed t b\<rparr> \<and> rows' = set_row (ar_approvalId r0) (stored_json r) rows"
    using tripleD_val [OF ends_save_some [of "\<lambda>y rows'. y = Some (r0\<lparr>ar_state := AppConsumed t b\<rparr>) \<and>
      rows' = set_row (ar_approvalId r0) (stored_json (r0\<lparr>ar_state := AppConsumed t b\<rparr>)) rows"
      "r0\<lparr>ar_state := AppConsumed t b\<rparr>" rows env] _ n(3)] by simp
  then have "r = r0\<lparr>ar_state := AppConsumed t b\<rparr>" "map_of rows' k = Some (stored_json r)"
    using v row_id [OF assms(1) v(1,2)] by simp_all
  moreover have "decision_instant env w n"
    using io now n(1) unfolding decision_instant_def by metis
  ultimately show ?thesis using v(1,2) st n(2) by metis
qed

lemma operations_final:
  assumes "rows_wf (fst s)" "map_of (fst s) k = Some v" "final_row v" "AppDelete k \<notin> set ops"
  shows "map_of (fst (fold (approval_perform h env) ops s)) k = Some v \<and>
    rows_wf (fst (fold (approval_perform h env) ops s))"
  using assms
proof (induction ops arbitrary: s)
  case (Cons x ops)
  obtain evs where evs: "row_steps h evs (fst s) (fst (approval_perform h env x s))"
    "\<forall>k. Deleted k \<in> set evs \<longrightarrow> x = AppDelete k"
    using operation_runs [OF Cons.prems(1)] by blast
  have "Deleted k \<notin> set evs" using evs(2) Cons.prems(4) by auto
  from row_steps_final [OF evs(1) Cons.prems(2,3) this] row_steps_wf [OF evs(1) Cons.prems(1)] Cons
  show ?case by simp
qed simp

subsection \<open>Properties\<close>

text \<open>C13. The store implements the state machine of approvals: whatever fails in between, every
  operation moves the table by creations of pending requests, decisions along pending to approved,
  denied or timed out and approved to consumed, and by deletions, which only \<open>delete\<close> makes; the
  rows stay well formed.\<close>

theorem approval_state_machine:
  assumes "rows_wf (fst s)"
  shows "\<exists>evs. row_steps h evs (fst s) (fst (approval_perform h env x s)) \<and>
    (\<forall>k. Deleted k \<in> set evs \<longrightarrow> x = AppDelete k) \<and> rows_wf (fst (approval_perform h env x s))"
  using operation_runs [OF assms] row_steps_wf [OF _ assms] by blast

text \<open>A decision is final: once a request is denied, timed out or consumed, its row is the same
  after any sequence of operations of any processes that does not delete it.\<close>

theorem approval_final_states_stay:
  assumes "rows_wf rows" "map_of rows k = Some v" "final_row v" "AppDelete k \<notin> set ops"
  shows "map_of (fst (fold (approval_perform h env) ops (rows, w))) k = Some v"
  using operations_final [of "(rows, w)"] assms by simp

text \<open>C14. A one-time approval is consumed at most once, and only an approved one that has not
  reached its timeout at the instant \<open>Date.now\<close> gives after the row is read: after a successful
  \<open>consumeOneTime\<close> no later one succeeds for the same approval, however other operations are
  interleaved, unless the request is deleted.\<close>

theorem approval_consumed_once:
  assumes "rows_wf rows" "consumeOneTime h env k (rows, w) = (Inr (Some r), s1)"
    and "AppDelete k \<notin> set ops"
  shows "(\<exists>v r0 t b begun read now after. map_of rows k = Some v \<and> parse_approval h v = Some r0 \<and>
      ar_state r0 = AppApproved t b \<and> ap_approvalType r0 = OneTime \<and>
      av_io env w = (Inr (), begun) \<and> av_io env begun = (Inr (), read) \<and> av_now env read = (Inr now, after) \<and>
      \<not> num_le (date_parse h (ar_timeoutAt r0)) (num_of_int now) \<and>
      r = r0\<lparr>ar_state := AppConsumed t b\<rparr> \<and> map_of (fst s1) k = Some (stored_json r)) \<and>
    (\<forall>r' s2. consumeOneTime h env k (fold (approval_perform h env) ops s1) \<noteq> (Inr (Some r'), s2))"
proof -
  obtain rows1 w1 where s1: "s1 = (rows1, w1)" by (cases s1)
  note c = consumed_request [OF assms(1) assms(2) [unfolded s1]]
  then obtain r0 t b where r: "r = r0\<lparr>ar_state := AppConsumed t b\<rparr>" "map_of rows1 k = Some (stored_json r)"
    by blast
  have wf: "rows_wf (fst s1)"
    using runs_to_wf [OF movesD [OF moves_decisions(3), of "(rows, w)" h env k]] assms(1,2) by simp
  have final: "final_row (stored_json r)" using r(1) by (simp add: final_row_def)
  let ?s = "fold (approval_perform h env) ops s1"
  have s: "map_of (fst ?s) k = Some (stored_json r)" "rows_wf (fst ?s)"
    using operations_final [OF wf _ final assms(3)] r(2) s1 by simp_all
  have "consumeOneTime h env k ?s \<noteq> (Inr (Some r'), s2)" for r' s2
  proof
    assume again: "consumeOneTime h env k ?s = (Inr (Some r'), s2)"
    obtain rs u rs' u' where eq: "?s = (rs, u)" "s2 = (rs', u')" by (metis prod.collapse)
    from consumed_request [OF s(2) [unfolded eq fst_conv] again [unfolded eq]] s(1)
    obtain r2 t2 b2 where "parse_approval h (stored_json r) = Some r2" "ar_state r2 = AppApproved t2 b2"
      by (auto simp: eq)
    with parse_approval_fields(2) [of h "stored_json r" r2] r(1) show False by simp
  qed
  with c show ?thesis unfolding decision_instant_def s1 fst_conv by blast
qed

text \<open>The clock of the process, read by \<open>Date.now\<close>.\<close>

definition clocked :: "'w approval_env \<Rightarrow> ('w \<Rightarrow> int) \<Rightarrow> bool" where
  "clocked env clock \<longleftrightarrow> av_now env = (\<lambda>w. (Inr (clock w), w)) \<and>
     (\<forall>w. clock w \<le> clock (snd (av_io env w)))"

lemma clocked_now: "clocked env clock \<Longrightarrow> on_world (av_now env) s = (Inr (clock (snd s)), s)"
  by (cases s) (simp add: clocked_def on_world_def)

lemma get_clock:
  assumes "clocked env clock" "get_request h env k s = (r, t)"
  shows "clock (snd s) \<le> clock (snd t)"
proof -
  obtain rows w where s: "s = (rows, w)" by (cases s)
  obtain x w' where io: "av_io env w = (x, w')" by (cases "av_io env w")
  have "clock w \<le> clock w'" using assms(1) io unfolding clocked_def by (metis snd_conv)
  moreover have "snd t = w'"
    using assms(2) io
    by (cases x) (auto simp: s get_request_def db_access_def on_world_def eff_defs parse_row_def
        split: option.splits)
  ultimately show ?thesis by (simp add: s)
qed

lemma poll_none:
  assumes "clocked env clock" "poll h env k deadline s = (Inr None, t)"
  shows "clock (snd s) \<le> clock (snd t) \<and> \<not> num_le deadline (num_of_int (clock (snd t)))"
proof -
  obtain f u where get: "get_request h env k s = (f, u)" by (cases "get_request h env k s")
  with assms(2) obtain r where f: "f = Inr (Some r)" "poll_found h env k deadline r u = (Inr None, t)"
    by (cases f) (auto simp: poll_def eff_defs split: option.splits)
  have p: "poll_state env k deadline r u = (Inr None, t)"
    using f(2) unfolding poll_found_def andthen_def clocked_now [OF assms(1)]
    by (auto simp: eff_defs split: if_splits prod.splits sum.splits)
  then have "t = u \<and> \<not> num_le deadline (num_of_int (clock (snd u)))"
    using clocked_now [OF assms(1), of u]
    by (cases "ar_state r") (auto simp: poll_state_def eff_defs split: if_splits)
  with get_clock [OF assms(1) get] show ?thesis by simp
qed

lemma poll_loop_none:
  assumes "clocked env clock" "\<And>s. clock (snd s) + 1 \<le> clock (snd (sleep s))"
  shows "poll_loop n h env sleep k (num_of_int D) s = (Inr None, t) \<Longrightarrow> 0 < n \<Longrightarrow>
    clock (snd s) + int n - 1 < D"
proof (induction n arbitrary: s)
  case (Suc n)
  obtain r u where p: "poll h env k (num_of_int D) s = (r, u)" by (cases "poll h env k (num_of_int D) s")
  with Suc.prems(1) have r: "r = Inr None"
    by (auto simp: eff_defs split: sum.splits option.splits)
  note u = poll_none [OF assms(1) p [unfolded r]]
  then have "clock (snd u) < D" by simp
  moreover have "poll_loop n h env sleep k (num_of_int D) (sleep u) = (Inr None, t)"
    using Suc.prems(1) p r by (simp add: eff_defs)
  with Suc.IH have "0 < n \<Longrightarrow> clock (snd (sleep u)) + int n - 1 < D" by blast
  ultimately show ?case using u assms(2) [of u] by (cases n) auto
qed simp

text \<open>C15. Waiting for an approval ends: if the clock advances by a millisecond or more between two
  polls, the promise of \<open>waitForApproval\<close> is settled after at most one poll per millisecond of the
  timeout and one more, whatever other processes do to the table and the file system does.\<close>

theorem waiting_ends:
  assumes "clocked env clock" "\<And>s. clock (snd s) + 1 \<le> clock (snd (sleep s))"
    and "\<bar>clock (snd s) + T\<bar> \<le> 2 ^ 53" "T < int n" "0 < n"
  shows "fst (waitForApproval n h env sleep k (num_of_int T) s) \<noteq> Inr None"
proof
  assume none: "fst (waitForApproval n h env sleep k (num_of_int T) s) = Inr None"
  have "num_add (num_of_int (clock (snd s))) (num_of_int T) = num_of_int (clock (snd s) + T)"
    using is_double_int [OF assms(3)] by (simp add: is_double_def)
  then obtain t where "poll_loop n h env sleep k (num_of_int (clock (snd s) + T)) s = (Inr None, t)"
    using none clocked_now [OF assms(1), of s]
    by (cases "poll_loop n h env sleep k (num_of_int (clock (snd s) + T)) s")
      (simp add: waitForApproval_def eff_defs)
  from poll_loop_none [OF assms(1,2) this assms(5)] assms(4) show False by simp
qed

subsection \<open>Witnesses\<close>

lemma sample_rows_wf: "rows_wf (sample_rows st)"
  by (simp add: rows_wf_def sample_rows_def)

lemma sample_consume:
  "consumeOneTime sample_host sample_env ''u1'' (sample_rows (AppApproved t b), (5, [])) =
     (Inr (Some (sample_request (AppConsumed t b))), (sample_rows (AppConsumed t b), (5, [])))"
  by (simp add: consumeOneTime_def transaction_def get_request_def db_access_def on_world_def eff_defs
      parse_row_def save_request_def update_row_def sample_env_def sample_rows_def)

theorem approval_state_machine_witness:
  "\<exists>evs. row_steps sample_host evs (sample_rows (AppApproved ''d1'' ''ann'')) (sample_rows (AppConsumed ''d1'' ''ann''))"
proof -
  have "rows_wf (fst (sample_rows (AppApproved ''d1'' ''ann''), (5 :: int, [] :: audit_event list)))"
    by (simp add: sample_rows_wf)
  from approval_state_machine [OF this, of sample_host sample_env "AppConsume ''u1''"] show ?thesis
    by (auto simp: sample_consume)
qed

theorem approval_final_states_stay_witness:
  "map_of (fst (fold (approval_perform sample_host sample_env)
     [AppApprove ''u1'' ''ann'', AppCheckTimeouts] (sample_rows (AppDenied ''d1'' ''ann''), (5, [])))) ''u1'' =
   Some (stored_json (sample_request (AppDenied ''d1'' ''ann'')))"
  by (rule approval_final_states_stay [OF sample_rows_wf]) (simp_all add: final_row_def)

theorem approval_consumed_once_witness:
  "\<forall>r s. consumeOneTime sample_host sample_env ''u1''
     (fold (approval_perform sample_host sample_env) [AppApprove ''u1'' ''ann'']
       (sample_rows (AppConsumed ''d1'' ''ann''), (5, []))) \<noteq> (Inr (Some r), s)"
  using approval_consumed_once [OF sample_rows_wf sample_consume, of "[AppApprove ''u1'' ''ann'']"]
  by simp

theorem waiting_ends_witness:
  "fst (waitForApproval 4 sample_host sample_env (\<lambda>(rows, (t, es)). (rows, (t + 1, es))) ''u1''
     (num_of_int 3) (sample_rows AppPending, (2, []))) \<noteq> Inr None"
proof (rule waiting_ends [where clock = fst])
  show "clocked sample_env fst" by (simp add: clocked_def sample_env_def ret_def)
qed (auto split: prod.splits)

end
