(* ===== verification/Onboarding.thy ===== *)
theory Onboarding
  imports ApprovalSafety
begin

text \<open>
  Approvals that onboard an allowlist entry: the file of \<open>packages/approval/src/allowlist-store.ts\<close>
  and what \<open>approve\<close> relies on, the locale \<open>allowlist_laws\<close>, interpreted on that file. Then the
  audit trail of a decision.
\<close>

declare ret_run [simp del] throw_run [simp del]

subsection \<open>The allowlist file\<close>

text \<open>The file is missing, blank, not JSON, or holds a serialised value.\<close>

datatype allow_file = AllowMissing | AllowBlank | AllowMalformed | AllowJson jsval

fun ja_readEntries :: "allow_file \<Rightarrow> exn + jsval list" where
  "ja_readEntries AllowMissing = Inr []"
| "ja_readEntries AllowBlank = Inr []"
| "ja_readEntries AllowMalformed = Inl (GenericError ''Unexpected token in JSON'')"
| "ja_readEntries (AllowJson v) = (case through_json v of
     JArr es \<Rightarrow> Inr es
   | _ \<Rightarrow> Inl (GenericError ''Allowlist onboarding file must contain a JSON array.''))"

definition ja_writeEntries :: "jsval list \<Rightarrow> allow_file \<Rightarrow> allow_file" where
  "ja_writeEntries es f = AllowJson (through_json (JArr es))"

text \<open>The file is the first component of the world. Each call of the file system (\<open>io\<close>) may throw, and
  leaves the file as it is then: the entries are written to a temporary file that \<open>renameSync\<close> puts in
  place.\<close>

definition ja_write :: "('v, unit) eff \<Rightarrow> jsval list \<Rightarrow> (allow_file \<times> 'v, unit) eff" where
  "ja_write io es =
     andthen (on_world io) (\<lambda>_.
     andthen (on_world io) (\<lambda>_.
     modify_state (\<lambda>(f, v). (ja_writeEntries es f, v))))"

text \<open>A missing file is not read.\<close>

definition ja_add ::
  "('v, unit) eff \<Rightarrow> allow_entry \<Rightarrow> (allow_file \<times> 'v, (allow_file \<times> 'v, unit) eff) eff" where
  "ja_add io e =
     andthen (read_state fst) (\<lambda>f.
     andthen (if f = AllowMissing then ret () else on_world io) (\<lambda>_.
     andthen (lift_exn (ja_readEntries f)) (\<lambda>previous.
     andthen (ja_write io (previous @ [allow_entry_json e])) (\<lambda>_.
     ret (ja_write io previous)))))"

definition ja_entries :: "allow_file \<Rightarrow> jsval list" where
  "ja_entries f = (case ja_readEntries f of Inr es \<Rightarrow> es | Inl e \<Rightarrow> [])"

subsection \<open>What approving relies on\<close>

text \<open>An undo either restores the entries or fails: it then leaves what it finds, and the world it
  ends in is \<open>broken\<close> by its exception.\<close>

locale allowlist_laws =
  fixes entries :: "'w \<Rightarrow> jsval list"
    and add :: "allow_entry \<Rightarrow> ('w, ('w, unit) eff) eff"
    and stored :: "allow_entry \<Rightarrow> jsval"
    and broken :: "exn \<Rightarrow> 'w \<Rightarrow> bool"
  assumes add_failed: "add e w = (Inl x, w') \<Longrightarrow> entries w' = entries w"
    and add_done: "add e w = (Inr undo, w') \<Longrightarrow> entries w' = entries w @ [stored e]"
    and undo_done: "add e w = (Inr undo, w') \<Longrightarrow> undo u = (Inr (), u') \<Longrightarrow> entries u' = entries w"
    and undo_failed: "add e w = (Inr undo, w') \<Longrightarrow> undo u = (Inl x, u') \<Longrightarrow>
      entries u' = entries u \<and> broken x u'"
begin

text \<open>The rest of the environment leaves the entries alone.\<close>

definition quiet :: "'w approval_env \<Rightarrow> 'w onboarding \<Rightarrow> bool" where
  "quiet env ob \<longleftrightarrow> av_onboarding env = Some ob \<and> ob_add ob = add \<and>
     (\<forall>w. entries (snd (av_io env w)) = entries w) \<and>
     (\<forall>w. entries (snd (av_now env w)) = entries w) \<and>
     (\<forall>e w. entries (snd (ob_write ob e w)) = entries w) \<and>
     (\<forall>write e w. decision_writer env = Some write \<longrightarrow> entries (snd (write e w)) = entries w)"

abbreviation has :: "jsval list \<Rightarrow> 'b \<times> 'w \<Rightarrow> bool" where
  "has A s \<equiv> entries (snd s) = A"

text \<open>The entries are \<open>B\<close> because the exception \<open>e\<close> broke the undo, or \<open>A\<close>.\<close>

definition left :: "jsval list \<Rightarrow> jsval list \<Rightarrow> exn \<Rightarrow> 'b \<times> 'w \<Rightarrow> bool" where
  "left A B e s \<longleftrightarrow> has A s \<or> (has B s \<and> broken e (snd s))"

definition undoes :: "jsval list \<Rightarrow> ('w, unit) eff \<Rightarrow> bool" where
  "undoes A undo \<longleftrightarrow> (\<forall>u u'. undo u = (Inr (), u') \<longrightarrow> entries u' = A) \<and>
     (\<forall>u x u'. undo u = (Inl x, u') \<longrightarrow> entries u' = entries u \<and> broken x u')"

lemma keeps_world: "(\<And>w. entries (snd (m w)) = entries w) \<Longrightarrow> keeps (has A) (on_world m)"
  by (auto simp: keeps_iff on_world_def split: prod.split) (metis snd_conv)

lemma keeps_db:
  assumes "quiet env ob"
  shows "keeps (has A) (db_access env)" "keeps (has A) (get_request h env k)"
    "keeps (has A) (save_request env r)" "keeps (has A) (now_iso h env)"
    "keeps (has A) (writeDecisionAudit env r ty who t st)"
    "keeps (has A) (writeAllowlistRollbackAudit env r by t e)"
proof -
  from assms have q: "av_onboarding env = Some ob" "\<And>w. entries (snd (av_io env w)) = entries w"
    "\<And>w. entries (snd (av_now env w)) = entries w"
    "\<And>e w. entries (snd (ob_write ob e w)) = entries w"
    "\<And>write e w. decision_writer env = Some write \<Longrightarrow> entries (snd (write e w)) = entries w"
    unfolding quiet_def by blast+
  show db: "keeps (has A) (db_access env)"
    unfolding db_access_def by (rule keeps_world) (rule q(2))
  show "keeps (has A) (get_request h env k)"
    unfolding get_request_def by (intro keeps_rules db)
  have "keeps (has A) (\<lambda>(rows, w). if map_of rows k \<noteq> None \<and> \<not> row_check k v
      then (Inl (GenericError ''CHECK constraint failed''), (rows, w))
      else (Inr (), (set_row k v rows, w)))" for k v
    by (auto simp: keeps_iff)
  then show "keeps (has A) (save_request env r)"
    unfolding save_request_def update_row_def by (intro keeps_rules db)
  show "keeps (has A) (now_iso h env)"
    unfolding now_iso_def by (intro keeps_rules keeps_world q(3))
  show "keeps (has A) (writeDecisionAudit env r ty who t st)"
    unfolding writeDecisionAudit_def by (intro keeps_rules keeps_world q(5))
  show "keeps (has A) (writeAllowlistRollbackAudit env r by t e)"
    unfolding writeAllowlistRollbackAudit_def q(1) option.case by (intro keeps_world q(4))
qed

definition added :: "approval_request \<Rightarrow> jsval list" where
  "added r = (if ap_approvalType r = AllowlistOnboarding then [stored (buildAllowlistEntry r)] else [])"

lemma undo_restores:
  fixes B :: "jsval list"
  assumes "undoes A undo"
  shows "triple (has B :: 'b \<times> 'w \<Rightarrow> bool) (on_world undo) (\<lambda>_. has A) (\<lambda>e. left A B e)"
proof (rule tripleI)
  fix s t :: "'b \<times> 'w" and x
  assume "on_world undo s = (Inr x, t)"
  with assms show "has A t" by (cases s) (auto simp: on_world_def undoes_def split: prod.splits)
next
  fix s t :: "'b \<times> 'w" and e
  assume "has B s" "on_world undo s = (Inl e, t)"
  with assms show "left A B e t" by (cases s) (auto simp: on_world_def undoes_def left_def split: prod.splits)
qed

lemma apply_onboarding:
  assumes "quiet env ob"
  shows "triple (has A) (applyAllowlistOnboarding env r by t)
    (\<lambda>x s. has (A @ [stored (buildAllowlistEntry r)]) s \<and> undoes A (fst x))
    (left A (A @ [stored (buildAllowlistEntry r)]))"
proof -
  from assms have q: "av_onboarding env = Some ob" "ob_add ob = add"
    "\<And>e w. entries (snd (ob_write ob e w)) = entries w"
    unfolding quiet_def by blast+
  let ?B = "A @ [stored (buildAllowlistEntry r)]"
  have add: "triple (has A :: 'w adb \<Rightarrow> bool) (on_world (ob_add ob (buildAllowlistEntry r)))
      (\<lambda>undo s. has ?B s \<and> undoes A undo) (left A ?B)"
  proof (rule tripleI)
    fix s t :: "'w adb" and undo :: "('w, unit) eff"
    assume "has A s" "on_world (ob_add ob (buildAllowlistEntry r)) s = (Inr undo, t)"
    then obtain w where "add (buildAllowlistEntry r) (snd s) = (Inr undo, w)" "snd t = w"
      by (cases s) (auto simp: on_world_def q(2) split: prod.splits)
    with add_done undo_done undo_failed \<open>has A s\<close>
    show "has ?B t \<and> undoes A undo" unfolding undoes_def by metis
  next
    fix s t :: "'w adb" and e
    assume "has A s" "on_world (ob_add ob (buildAllowlistEntry r)) s = (Inl e, t)"
    then show "left A ?B e t"
      by (cases s) (auto simp: on_world_def q(2) left_def split: prod.splits dest: add_failed)
  qed
  show ?thesis
    unfolding applyAllowlistOnboarding_def q(1) option.case Let_def
  proof (rule triple_andthen [OF add])
    fix undo :: "('w, unit) eff"
    let ?P = "\<lambda>s :: 'w adb. has ?B s \<and> undoes A undo"
    show "triple ?P (andthen (try_catch (on_world (ob_write ob (allowlist_event r by t
          (buildAllowlistEntry r) False))) (\<lambda>err. andthen (on_world undo) (\<lambda>_. throw err)))
        (\<lambda>_. ret (undo, buildAllowlistEntry r)))
      (\<lambda>x s. has ?B s \<and> undoes A (fst x)) (left A ?B)"
    proof (rule triple_andthen [where R = "\<lambda>_. ?P"])
      have "triple ?P (andthen (on_world undo) (\<lambda>_. throw err)) (\<lambda>_. ?P) (left A ?B)" for err
      proof (cases "undoes A undo")
        case True
        have "triple ?P (on_world undo) (\<lambda>_. has A) (left A ?B)"
          by (rule triple_pre [OF undo_restores [OF True]]) simp
        then show ?thesis
          by (rule triple_andthen) (rule triple_pre [OF triple_throw], simp add: left_def)
      qed (auto simp: triple_def)
      moreover have "triple ?P (on_world (ob_write ob (allowlist_event r by t
          (buildAllowlistEntry r) False))) (\<lambda>_. ?P) (\<lambda>_. ?P)"
        using q(3) by (auto simp: triple_def on_world_def split: prod.splits sum.splits)
          (metis snd_conv)+
      ultimately show "triple ?P (try_catch (on_world (ob_write ob (allowlist_event r by t
          (buildAllowlistEntry r) False))) (\<lambda>err. andthen (on_world undo) (\<lambda>_. throw err)))
          (\<lambda>_. ?P) (left A ?B)"
        by (rule triple_try_catch [rotated])
    qed (rule triple_pre [OF triple_ret], simp)
  qed
qed

lemma added_entry: "ap_approvalType r = AllowlistOnboarding \<Longrightarrow> added r = [stored (buildAllowlistEntry r)]"
  by (simp add: added_def)

lemma approve_body_entries:
  assumes "quiet env ob"
  shows "triple (has A) (approve_body env by r t) (\<lambda>_. has (A @ added r)) (left A (A @ added r))"
proof -
  let ?B = "A @ added r"
  let ?undone = "\<lambda>x. undoes A (fst x)"
  define R :: "(('w, unit) eff \<times> allow_entry) option \<Rightarrow> 'w adb \<Rightarrow> bool" where
    "R ob s \<longleftrightarrow> has ?B s \<and> (case ob of None \<Rightarrow> added r = [] | Some x \<Rightarrow> ?undone x)" for ob s
  have start: "triple (has A) (if ap_approvalType r = AllowlistOnboarding
       then andthen (applyAllowlistOnboarding env r by t) (\<lambda>x. ret (Some x)) else ret None) R
       (left A ?B)"
  proof (cases "ap_approvalType r = AllowlistOnboarding")
    case True
    have "triple (has A) (andthen (applyAllowlistOnboarding env r by t) (\<lambda>x. ret (Some x))) R (left A ?B)"
      by (rule triple_andthen [OF apply_onboarding [OF assms, where A = A and r = r, folded added_entry [OF True]]],
          rule triple_pre [OF triple_ret]) (simp add: R_def added_def True)
    with True show ?thesis by simp
  next
    case False
    have "triple (has A) (ret None) R (left A ?B)"
      by (rule triple_pre [OF triple_ret]) (simp add: R_def added_def False)
    with False show ?thesis by simp
  qed
  show ?thesis
    unfolding approve_body_def
  proof (rule triple_andthen [OF start], rule triple_try_catch [where R = "\<lambda>_. R x" for x])
    fix x
    have "keeps (R x) (andthen (writeDecisionAudit env r ''approval.approved'' (JStr by) t ''approved'')
        (\<lambda>_. save_request env (r\<lparr>ar_state := AppApproved t by\<rparr>)))"
      (is "keeps _ ?m")
    proof (cases "case x of None \<Rightarrow> added r = [] | Some x \<Rightarrow> ?undone x")
      case True
      have "keeps (has ?B) ?m" by (intro keeps_rules keeps_db [OF assms])
      with True show ?thesis by (simp add: R_def [abs_def])
    qed (simp add: R_def keeps_iff)
    then show "triple (R x) ?m (\<lambda>_. has ?B) (\<lambda>_. R x)"
      unfolding keeps_def by (rule triple_post) (auto simp: R_def)
  next
    fix x e
    show "triple (R x) (case x of None \<Rightarrow> throw e
        | Some (rollback, entry) \<Rightarrow>
            andthen (on_world rollback) (\<lambda>_.
            andthen (writeAllowlistRollbackAudit env r by t entry) (\<lambda>_. throw e)))
      (\<lambda>_. has ?B) (left A ?B)"
    proof (cases x)
      case None
      then show ?thesis by (auto intro!: triple_pre [OF triple_throw] simp: R_def left_def)
    next
      case (Some y)
      obtain rollback entry where y: "y = (rollback, entry)" by (cases y)
      show ?thesis
      proof (cases "?undone y")
        case True
        have audit: "triple (has A) (writeAllowlistRollbackAudit env r by t entry) (\<lambda>_. has A) (left A ?B)"
          using keeps_db(6) [OF assms] unfolding keeps_def by (rule triple_post) (simp_all add: left_def)
        have undo: "triple (R x) (on_world rollback) (\<lambda>_. has A) (left A ?B)"
          by (rule triple_pre [OF undo_restores]) (use True y in \<open>auto simp: R_def\<close>)
        have "triple (has A) (throw e) (\<lambda>_. has ?B) (left A ?B)"
          by (rule triple_pre [OF triple_throw]) (simp add: left_def)
        from triple_andthen [OF undo triple_andthen [OF audit this]] show ?thesis by (simp add: Some y)
      next
        case False
        then have "\<not> R x s" for s by (simp add: Some R_def)
        then show ?thesis by (simp add: triple_def)
      qed
    qed
  qed
qed

lemma get_keeps:
  assumes "quiet env ob"
  shows "triple (\<lambda>s. fst s = rows \<and> has A s) (get_request h env k) (\<lambda>found s. has A s \<and>
    (\<forall>r. found = Some r \<longrightarrow> (\<exists>v. map_of rows k = Some v \<and> parse_approval h v = Some r))) (\<lambda>_. has A)"
proof (rule tripleI)
  note get = keeps_db(2) [OF assms, unfolded keeps_def]
  fix s t :: "'w adb" and x
  assume s: "fst s = rows \<and> has A s" "get_request h env k s = (Inr x, t)"
  have "\<exists>v. map_of rows k = Some v \<and> parse_approval h v = Some r" if "x = Some r" for r
    using s that by (cases s) (auto simp: get_request_def db_access_def on_world_def eff_defs parse_row_def
        split: option.splits prod.splits sum.splits)
  then show "has A t \<and> (\<forall>r. x = Some r \<longrightarrow> (\<exists>v. map_of rows k = Some v \<and> parse_approval h v = Some r))"
    using tripleD_val [OF get _ s(2)] s(1) by blast
qed (use tripleD_exn [OF keeps_db(2) [OF assms, unfolded keeps_def]] in blast)

text \<open>Approving is all or nothing for the allowlist, unless the undo or the commit fails.\<close>

lemma approve_entries:
  assumes "quiet env ob" "approve h env k by (rows, w) = (x, (rows', w'))"
  shows "case x of Inl e \<Rightarrow> rows' = rows \<and> (entries w' = entries w \<or>
      (\<exists>v r. map_of rows k = Some v \<and> parse_approval h v = Some r \<and>
        entries w' = entries w @ added r \<and> (broken e w' \<or> (\<exists>u. av_io env u = (Inl e, w')))))
    | Inr None \<Rightarrow> entries w' = entries w
    | Inr (Some r) \<Rightarrow> entries w' = entries w @ added r"
proof -
  let ?A = "entries w"
  define known where "known r \<longleftrightarrow> (\<exists>v. map_of rows k = Some v \<and> parse_approval h v = Some r)" for r
  define Q :: "approval_request option \<Rightarrow> 'w adb \<Rightarrow> bool" where
    "Q x s \<longleftrightarrow> (case x of None \<Rightarrow> has ?A s
       | Some r \<Rightarrow> has (?A @ added r) s \<and> (\<exists>r0. known r0 \<and> added r0 = added r))" for x s
  define E :: "exn \<Rightarrow> 'w adb \<Rightarrow> bool" where
    "E e s \<longleftrightarrow> has ?A s \<or> (\<exists>r. known r \<and> has (?A @ added r) s \<and> broken e (snd s))" for e s
  have body: "triple (has ?A) (andthen (approve_body env by r t) (\<lambda>x. ret (Some x))) Q E" if "known r" for r t
  proof (rule triple_andthen)
    have saved: "triple (\<lambda>_. True) (approve_body env by r t)
        (\<lambda>x _. x = r\<lparr>ar_state := AppApproved t by\<rparr>) (\<lambda>_ _. True)"
      by (auto simp: triple_def approve_body_def save_request_def eff_defs
          split: prod.splits sum.splits option.splits)
    note entries = approve_body_entries [OF assms(1), where A = ?A and r = r and t = t]
    show "triple (has ?A) (approve_body env by r t) (\<lambda>x s. has (?A @ added x) s \<and> added x = added r) E"
    proof (rule tripleI)
      fix s t' :: "'w adb" and x
      assume s: "has ?A s" "approve_body env by r t s = (Inr x, t')"
      have "x = r\<lparr>ar_state := AppApproved t by\<rparr>" by (rule tripleD_val [OF saved TrueI s(2)])
      then have "added x = added r" by (simp add: added_def buildAllowlistEntry_def buildAllowlistCondition_def)
      with tripleD_val [OF entries s] show "has (?A @ added x) t' \<and> added x = added r" by simp
    next
      fix s t' :: "'w adb" and e
      assume "has ?A s" "approve_body env by r t s = (Inl e, t')"
      from tripleD_exn [OF entries this] that show "E e t'" unfolding left_def E_def by blast
    qed
    show "triple (\<lambda>s. has (?A @ added x) s \<and> added x = added r) (ret (Some x)) Q E" for x
      by (rule triple_pre [OF triple_ret]) (use that in \<open>auto simp: Q_def\<close>)
  qed
  have same: "triple (has ?A) m (\<lambda>_. has ?A) E" if "keeps (has ?A) m" for m :: "('w adb, 'b) eff"
    using that unfolding keeps_def by (rule triple_post) (simp_all add: E_def)
  have none: "triple (has ?A) (ret None) Q E"
    by (rule triple_pre [OF triple_ret]) (simp add: Q_def)
  have timeout: "triple (has ?A) (andthen (timeout_request env r t) (\<lambda>_. ret None)) Q E" for r t
    unfolding timeout_request_def andthen_assoc
    by (rule triple_andthen [OF same [OF keeps_db(5) [OF assms(1)]]],
        rule triple_andthen [OF same [OF keeps_db(3) [OF assms(1)]]], rule none)
  have found: "triple (\<lambda>s. has ?A s \<and> (\<forall>r. found = Some r \<longrightarrow> known r)) (case found of None \<Rightarrow> ret None
      | Some r \<Rightarrow>
          if ar_state r \<noteq> AppPending then ret None
          else andthen (now_iso h env) (\<lambda>decidedAt.
            if ar_timeoutAt r \<le> decidedAt
            then andthen (timeout_request env r decidedAt) (\<lambda>_. ret None)
            else andthen (approve_body env by r decidedAt) (\<lambda>x. ret (Some x)))) Q E" for found
  proof (cases "\<forall>r. found = Some r \<longrightarrow> known r")
    case True
    then show ?thesis
      by (cases found) (auto intro: none timeout body triple_andthen [OF same [OF keeps_db(4) [OF assms(1)]]] triple_if_same)
  qed (auto simp: triple_def)
  have get: "triple (\<lambda>s. fst s = rows \<and> has ?A s) (get_request h env k)
      (\<lambda>found s. has ?A s \<and> (\<forall>r. found = Some r \<longrightarrow> known r)) E"
    by (rule triple_post [OF get_keeps [OF assms(1), where rows = rows and A = ?A]]) (auto simp: known_def E_def)
  note decide = triple_andthen [OF get found]
  let ?m = "andthen (get_request h env k) (\<lambda>found. case found of None \<Rightarrow> ret None
      | Some r \<Rightarrow>
          if ar_state r \<noteq> AppPending then ret None
          else andthen (now_iso h env) (\<lambda>decidedAt.
            if ar_timeoutAt r \<le> decidedAt
            then andthen (timeout_request env r decidedAt) (\<lambda>_. ret None)
            else andthen (approve_body env by r decidedAt) (\<lambda>x. ret (Some x))))"
  have io: "db_access env (rs, u) = (fst (av_io env u), (rs, snd (av_io env u)))"
    "entries (snd (av_io env u)) = entries u" for rs u
    using assms(1) by (auto simp: quiet_def db_access_def on_world_def split: prod.split)
  show ?thesis
  proof (cases "fst (av_io env w)")
    case (Inl e)
    then have "x = Inl e \<and> rows' = rows \<and> w' = snd (av_io env w)"
      using assms(2) by (simp add: approve_def decide_def transaction_def andthen_def [of "db_access env"] io(1))
    then show ?thesis using io(2) by simp
  next
    case (Inr _)
    let ?w = "snd (av_io env w)"
    obtain y s2 where m: "?m (rows, ?w) = (y, s2)" by (cases "?m (rows, ?w)")
    obtain rows2 w2 where s2: "s2 = (rows2, w2)" by (cases s2)
    have pre: "fst (rows, ?w) = rows \<and> has ?A (rows, ?w)" using io(2) by simp
    have run: "approve h env k by (rows, w) = (case andthen ?m (\<lambda>x. andthen (db_access env) (\<lambda>_. ret x)) (rows, ?w) of
        (Inl e, (rows', w')) \<Rightarrow> (Inl e, (rows, w')) | (Inr x, (rows', w')) \<Rightarrow> (Inr x, (rows', w')))"
      using Inr by (simp add: approve_def decide_def transaction_def andthen_def [of "db_access env"] io(1))
    show ?thesis
    proof (cases y)
      case (Inl e)
      from tripleD_exn [OF decide pre m [unfolded Inl]] have "E e (rows2, w2)" by (simp add: s2)
      moreover have "x = Inl e \<and> rows' = rows \<and> w' = w2"
        using assms(2) unfolding run by (auto simp: andthen_def [of ?m] m Inl s2)
      ultimately show ?thesis by (auto simp: E_def known_def)
    next
      case (Inr z)
      from tripleD_val [OF decide pre m [unfolded Inr]] have Q: "Q z (rows2, w2)" by (simp add: s2)
      obtain c w3 where c: "av_io env w2 = (c, w3)" by (cases "av_io env w2")
      then have same: "entries w3 = entries w2" using io(2) by (metis snd_conv)
      show ?thesis
      proof (cases c)
        case (Inl e)
        have "x = Inl e \<and> rows' = rows \<and> w' = w3"
          using assms(2) unfolding run
          by (auto simp: andthen_def [of ?m] m Inr s2 andthen_def [of "db_access env"] io(1) c Inl)
        then show ?thesis using Q same c Inl unfolding Q_def known_def by (cases z) auto
      next
        case (Inr u)
        have "x = Inr z \<and> w' = w3"
          using assms(2) \<open>y = Inr z\<close> unfolding run
          by (auto simp: andthen_def [of ?m] m s2 andthen_def [of "db_access env"] io(1) c Inr ret_def)
        then show ?thesis using Q same unfolding Q_def by (cases z) auto
      qed
    qed
  qed
qed

end

subsection \<open>The file meets the laws\<close>

lemma ja_readEntries_stored: "ja_readEntries f = Inr es \<Longrightarrow> map through_json es = es"
proof (cases f)
  case (AllowJson v)
  assume "ja_readEntries f = Inr es"
  then have "through_json v = JArr es" by (simp add: AllowJson split: jsval.splits)
  then have "through_json (JArr es) = JArr es" by (metis through_json_idem)
  then show ?thesis by simp
qed auto

lemma ja_entries_written: "ja_readEntries f = Inr es \<Longrightarrow>
    ja_entries (ja_writeEntries (es @ xs) f') = es @ map through_json xs"
  using ja_readEntries_stored [of f es] by (simp add: ja_entries_def ja_writeEntries_def)

lemma ja_write_cases:
  assumes "ja_write io es w = (x, w')"
  obtains "x = Inr ()" "fst w' = ja_writeEntries es (fst w)"
  | e v where "x = Inl e" "fst w' = fst w" "io v = (Inl e, snd w')"
proof -
  obtain f u where w: "w = (f, u)" by (cases w)
  obtain y1 u1 where io1: "io u = (y1, u1)" by (cases "io u")
  obtain y2 u2 where io2: "io u1 = (y2, u2)" by (cases "io u1")
  show thesis
    using assms that io1 io2
    by (cases y1; cases y2) (auto simp: w ja_write_def on_world_def andthen_def modify_state_def)
qed

lemma ja_add_cases:
  assumes "ja_add io e w = (x, w')"
  obtains d where "x = Inl d" "fst w' = fst w"
  | es where "ja_readEntries (fst w) = Inr es" "x = Inr (ja_write io es)"
      "fst w' = ja_writeEntries (es @ [allow_entry_json e]) (fst w)"
proof -
  obtain f u where w: "w = (f, u)" by (cases w)
  obtain y w1 where y: "(if f = AllowMissing then ret () else on_world io) w = (y, w1)"
    by (cases "(if f = AllowMissing then ret () else on_world io) w")
  then have w1: "fst w1 = f" by (auto simp: w on_world_def ret_def split: if_splits prod.splits)
  have run: "ja_add io e w = andthen (\<lambda>_. (y, w1)) (\<lambda>_. andthen (lift_exn (ja_readEntries f))
      (\<lambda>es. andthen (ja_write io (es @ [allow_entry_json e])) (\<lambda>_. ret (ja_write io es)))) w"
    using y by (simp add: ja_add_def read_state_def andthen_def w)
  show thesis
  proof (cases "y = Inr () \<and> (\<exists>es. ja_readEntries f = Inr es)")
    case True
    then obtain es where es: "y = Inr ()" "ja_readEntries f = Inr es" by blast
    obtain z w2 where z: "ja_write io (es @ [allow_entry_json e]) w1 = (z, w2)"
      by (cases "ja_write io (es @ [allow_entry_json e]) w1")
    have "ja_add io e w = (case z of Inl d \<Rightarrow> (Inl d, w2) | Inr _ \<Rightarrow> (Inr (ja_write io es), w2))"
      unfolding run by (simp add: andthen_def es lift_exn_def ret_def z split: sum.split)
    with z show thesis
      using assms es(2) w1 that by (elim ja_write_cases) (auto simp: w)
  next
    case False
    then show thesis
      using assms w1 that(1) unfolding run
      by (cases y; cases "ja_readEntries f") (auto simp: andthen_def lift_exn_def throw_def w)
  qed
qed

text \<open>An undo of the file is broken by an exception of the file system.\<close>

interpretation json: allowlist_laws "\<lambda>w. ja_entries (fst w)" "ja_add io"
  "\<lambda>e. through_json (allow_entry_json e)" "\<lambda>e w. \<exists>v. io v = (Inl e, snd w)" for io :: "('v, unit) eff"
proof
  fix e x undo and w w' u u' :: "allow_file \<times> 'v"
  show "ja_entries (fst w') = ja_entries (fst w)" if "ja_add io e w = (Inl x, w')"
    using that by (rule ja_add_cases) simp_all
  assume add: "ja_add io e w = (Inr undo, w')"
  then obtain es where es: "ja_readEntries (fst w) = Inr es" "undo = ja_write io es"
    "fst w' = ja_writeEntries (es @ [allow_entry_json e]) (fst w)"
    by (rule ja_add_cases) simp_all
  then show "ja_entries (fst w') = ja_entries (fst w) @ [through_json (allow_entry_json e)]"
    using ja_entries_written [OF es(1)] by (simp add: ja_entries_def)
  show "ja_entries (fst u') = ja_entries (fst w)" if "undo u = (Inr (), u')"
    using that unfolding es(2)
    by (rule ja_write_cases) (use ja_entries_written [OF es(1), of "[]"] es(1) in \<open>simp_all add: ja_entries_def\<close>)
  show "ja_entries (fst u') = ja_entries (fst u) \<and> (\<exists>v. io v = (Inl x, snd u'))" if "undo u = (Inl x, u')"
    using that unfolding es(2) by (rule ja_write_cases) auto
qed

subsection \<open>The audit trail of a decision\<close>

definition grows :: "('w \<Rightarrow> audit_event list) \<Rightarrow> ('w, 'a) eff \<Rightarrow> bool" where
  "grows trail m \<longleftrightarrow> (\<forall>w. set (trail w) \<subseteq> set (trail (snd (m w))))"

text \<open>An audit writer, where one is configured, records what it is given or throws; the database does
  not undo the log.\<close>

definition recording :: "'w approval_env \<Rightarrow> ('w \<Rightarrow> audit_event list) \<Rightarrow> bool" where
  "recording env trail \<longleftrightarrow> grows trail (av_io env) \<and>
     (\<forall>write e w. decision_writer env = Some write \<longrightarrow> fst (write e w) = Inr () \<longrightarrow>
       e \<in> set (trail (snd (write e w))))"

lemma approve_body_logged:
  fixes env :: "'w approval_env"
  assumes "recording env trail"
  shows "triple (\<lambda>s. fst s = rows) (approve_body env by r t)
    (\<lambda>x s. x = r\<lparr>ar_state := AppApproved t by\<rparr> \<and> fst s = set_row (ar_approvalId r) (stored_json x) rows \<and>
      (decision_writer env = None \<or>
       decision_event r ''approval.approved'' (JStr by) t ''approved'' \<in> set (trail (snd s))))
    (\<lambda>_ _. True)"
proof -
  let ?ev = "decision_event r ''approval.approved'' (JStr by) t ''approved''"
  let ?r = "r\<lparr>ar_state := AppApproved t by\<rparr>"
  define logged where "logged w \<longleftrightarrow> decision_writer env = None \<or> ?ev \<in> set (trail w)" for w
  let ?Q = "\<lambda>x s :: 'w adb. x = ?r \<and> fst s = set_row (ar_approvalId r) (stored_json x) rows \<and> logged (snd s)"
  have audit: "triple (\<lambda>s :: 'w adb. fst s = rows) (writeDecisionAudit env r ''approval.approved''
      (JStr by) t ''approved'') (\<lambda>_ s. fst s = rows \<and> logged (snd s)) (\<lambda>_ _. True)"
  proof (rule tripleI)
    fix s s' :: "'w adb" and x
    assume s: "fst s = rows" "writeDecisionAudit env r ''approval.approved'' (JStr by) t ''approved'' s = (Inr x, s')"
    show "fst s' = rows \<and> logged (snd s')"
    proof (cases "decision_writer env")
      case None
      with s show ?thesis by (simp add: writeDecisionAudit_def ret_def logged_def)
    next
      case (Some wr)
      obtain w where w: "s = (rows, w)" using s(1) by (cases s) simp
      obtain y w' where y: "wr ?ev w = (y, w')" by (cases "wr ?ev w")
      with s(2) w have "y = Inr ()" "s' = (rows, w')"
        by (simp_all add: writeDecisionAudit_def Some on_world_def)
      moreover have "fst (wr ?ev w) = Inr () \<Longrightarrow> ?ev \<in> set (trail (snd (wr ?ev w)))"
        using assms Some unfolding recording_def by blast
      ultimately show ?thesis using y by (simp add: logged_def)
    qed
  qed simp
  have db: "triple (\<lambda>s :: 'w adb. fst s = rows \<and> logged (snd s)) (db_access env)
      (\<lambda>_ s. fst s = rows \<and> logged (snd s)) (\<lambda>_ _. True)"
  proof (rule tripleI)
    fix s s' :: "'w adb" and x
    assume s: "fst s = rows \<and> logged (snd s)" "db_access env s = (Inr x, s')"
    then have "s' = (rows, snd (av_io env (snd s)))"
      by (cases s) (auto simp: db_access_def on_world_def split: prod.splits)
    moreover have "set (trail (snd s)) \<subseteq> set (trail (snd (av_io env (snd s))))"
      using assms unfolding recording_def grows_def by blast
    ultimately show "fst s' = rows \<and> logged (snd s')" using s(1) by (auto simp: logged_def)
  qed simp
  have save: "triple (\<lambda>s :: 'w adb. fst s = rows \<and> logged (snd s)) (save_request env ?r) ?Q
      (\<lambda>_ _. True)"
    unfolding save_request_def update_row_def andthen_assoc
    by (rule triple_andthen [OF db]) (auto simp: triple_def eff_defs)
  show ?thesis
    unfolding approve_body_def logged_def [symmetric]
  proof (rule triple_andthen [OF ends_same], intro keeps_rules)
    fix ob
    have "triple (\<lambda>s :: 'w adb. fst s = rows) (try_catch (andthen (writeDecisionAudit env r ''approval.approved''
        (JStr by) t ''approved'') (\<lambda>_. save_request env ?r))
      (\<lambda>err. case ob of None \<Rightarrow> throw err | Some (rollback, entry) \<Rightarrow>
        andthen (on_world rollback) (\<lambda>_.
        andthen (writeAllowlistRollbackAudit env r by t entry) (\<lambda>_. throw err)))) ?Q (\<lambda>_ _. True)"
      by (rule triple_try_catch [OF triple_andthen [OF audit save]])
        (auto simp: triple_def eff_defs split: option.splits prod.splits sum.splits)
    then show "triple (\<lambda>s :: 'w adb. fst s = rows) (try_catch (andthen (writeDecisionAudit env r
        ''approval.approved'' (JStr by) t ''approved'') (\<lambda>_. save_request env ?r))
      (\<lambda>err. case ob of None \<Rightarrow> throw err | Some (rollback, entry) \<Rightarrow>
        andthen (on_world rollback) (\<lambda>_.
        andthen (writeAllowlistRollbackAudit env r by t entry) (\<lambda>_. throw err)))) ?Q (\<lambda>_ _. True)" .
  qed
qed

text \<open>What is known of a request that \<open>approve\<close> returned.\<close>

lemma approve_logged:
  fixes env :: "'w approval_env"
  assumes "recording env trail" "approve h env k by (rows, w) = (Inr (Some r), (rows', w'))"
  shows "\<exists>v r0 now. map_of rows k = Some v \<and> parse_approval h v = Some r0 \<and>
    ar_state r0 = AppPending \<and> decision_instant env w now \<and> iso_string h now < ar_timeoutAt r0 \<and>
    r = r0\<lparr>ar_state := AppApproved (iso_string h now) by\<rparr> \<and>
    rows' = set_row (ar_approvalId r0) (stored_json r) rows \<and>
    (decision_writer env = None \<or>
     decision_event r0 ''approval.approved'' (JStr by) (iso_string h now) ''approved'' \<in> set (trail w'))"
proof -
  obtain begun read found u where io: "av_io env w = (Inr (), begun)" "av_io env begun = (Inr (), read)"
    and found: "found = None \<or> (\<exists>v r. map_of rows k = Some v \<and> parse_approval h v = Some r \<and> found = Some r)"
    and run: "(case found of None \<Rightarrow> ret None
      | Some r \<Rightarrow>
          if ar_state r \<noteq> AppPending then ret None
          else andthen (now_iso h env) (\<lambda>decidedAt.
            if ar_timeoutAt r \<le> decidedAt
            then andthen (timeout_request env r decidedAt) (\<lambda>_. ret None)
            else andthen (approve_body env by r decidedAt) (\<lambda>x. ret (Some x)))) (rows, read) =
        (Inr (Some r), (rows', u))"
    and commit: "av_io env u = (Inr (), w')"
    by (rule in_transaction [OF assms(2) [unfolded approve_def decide_def]]) (rule that)
  from found run obtain v r0 where v: "map_of rows k = Some v" "parse_approval h v = Some r0" "found = Some r0"
    by (auto simp: ret_def)
  from run v(3) have pending: "ar_state r0 = AppPending" by (auto simp: ret_def split: if_splits)
  obtain y after where now: "av_now env read = (y, after)" by (cases "av_now env read")
  have iso: "now_iso h env (rows, read) = (map_sum id (iso_string h) y, (rows, after))"
    by (cases y) (simp_all add: now_iso_def on_world_def andthen_def now ret_def)
  from run v(3) pending obtain n where n: "y = Inr n"
    by (cases y) (auto simp: andthen_def iso)
  let ?t = "iso_string h n"
  have never: "andthen (timeout_request env r0 ?t) (\<lambda>_. ret None) s \<noteq> (Inr (Some r), s')" for s s'
    by (auto simp: andthen_def ret_def split: prod.split sum.split)
  have body: "\<not> ar_timeoutAt r0 \<le> ?t"
      "andthen (approve_body env by r0 ?t) (\<lambda>x. ret (Some x)) (rows, after) = (Inr (Some r), (rows', u))"
    using run v(3) pending never [of "(rows, after)" "(rows', u)"]
    by (auto simp: andthen_def [of "now_iso h env"] iso n split: if_splits)
  then have "approve_body env by r0 ?t (rows, after) = (Inr r, (rows', u))"
    by (auto simp: andthen_def ret_def split: prod.splits sum.splits)
  from tripleD_val [OF approve_body_logged [OF assms(1), where rows = rows] _ this]
  have r: "r = r0\<lparr>ar_state := AppApproved ?t by\<rparr>" "rows' = set_row (ar_approvalId r0) (stored_json r) rows"
    "decision_writer env = None \<or>
     decision_event r0 ''approval.approved'' (JStr by) ?t ''approved'' \<in> set (trail u)"
    by simp_all
  have "set (trail u) \<subseteq> set (trail w')"
    using assms(1) commit unfolding recording_def grows_def by (metis snd_conv)
  moreover have "decision_instant env w n" using io now n unfolding decision_instant_def by metis
  moreover from calculation(1) r(3) have "decision_writer env = None \<or>
     decision_event r0 ''approval.approved'' (JStr by) ?t ''approved'' \<in> set (trail w')" by blast
  moreover have "?t < ar_timeoutAt r0" using body(1) by (simp add: not_le)
  ultimately show ?thesis using v(1,2) pending r(1,2)
    by (intro exI [of _ v] exI [of _ r0] exI [of _ n]) blast
qed

subsection \<open>Properties\<close>

text \<open>C16. Nothing is approved late or, where an audit writer is configured, without its audit record: when
  \<open>approve\<close> returns a request, the stored request was pending and is now the returned one, it was
  decided before its timeout, at the instant \<open>Date.now\<close> gives after the row is read, and the log holds
  the \<open>approval.approved\<close> event with the same approver and instant. Without an audit writer the rest holds.\<close>

theorem approval_decision_audited:
  assumes "recording env trail" "approve h env k by (rows, w) = (Inr (Some r), (rows', w'))"
  shows "\<exists>v r0 begun read now after. map_of rows k = Some v \<and> parse_approval h v = Some r0 \<and>
    ar_state r0 = AppPending \<and>
    av_io env w = (Inr (), begun) \<and> av_io env begun = (Inr (), read) \<and> av_now env read = (Inr now, after) \<and>
    iso_string h now < ar_timeoutAt r0 \<and> r = r0\<lparr>ar_state := AppApproved (iso_string h now) by\<rparr> \<and>
    rows' = set_row (ar_approvalId r0) (stored_json r) rows \<and>
    (decision_writer env \<noteq> None \<longrightarrow>
      decision_event r0 ''approval.approved'' (JStr by) (iso_string h now) ''approved'' \<in> set (trail w'))"
  using approve_logged [OF assms] unfolding decision_instant_def by blast

text \<open>C17. Onboarding through an approval is all or nothing: over the JSON allowlist, whatever calls of the
  database, the audit writer and the file system fail, \<open>approve\<close> adds exactly the entry built from the
  request when it returns it, and when it throws it leaves the table as it was, and the allowlist too
  unless the commit of the transaction or the file system in the undo itself threw the exception; what
  is left then is the entry of the stored request. The audit writer, the clock and the database do not
  write the allowlist file.\<close>

theorem approval_onboarding_atomic:
  fixes env :: "(allow_file \<times> 'v) approval_env" and io :: "('v, unit) eff"
  assumes "av_onboarding env = Some ob" "ob_add ob = ja_add io"
    and "\<And>w. fst (snd (av_io env w)) = fst w" "\<And>w. fst (snd (av_now env w)) = fst w"
    and "\<And>e w. fst (snd (ob_write ob e w)) = fst w"
    and "\<forall>wr e w. decision_writer env = Some wr \<longrightarrow> fst (snd (wr e w)) = fst w"
    and "approve h env k by (rows, w) = (x, (rows', w'))"
  shows "case x of
      Inl e \<Rightarrow> rows' = rows \<and> (ja_entries (fst w') = ja_entries (fst w) \<or>
        (\<exists>v r. map_of rows k = Some v \<and> parse_approval h v = Some r \<and> ap_approvalType r = AllowlistOnboarding \<and>
          ja_entries (fst w') = ja_entries (fst w) @ [through_json (allow_entry_json (buildAllowlistEntry r))] \<and>
          ((\<exists>u. io u = (Inl e, snd w')) \<or> (\<exists>u. av_io env u = (Inl e, w')))))
    | Inr None \<Rightarrow> ja_entries (fst w') = ja_entries (fst w)
    | Inr (Some r) \<Rightarrow> ja_entries (fst w') = ja_entries (fst w) @
        (if ap_approvalType r = AllowlistOnboarding
         then [through_json (allow_entry_json (buildAllowlistEntry r))] else [])"
proof -
  have "json.quiet io env ob"
    unfolding json.quiet_def using assms(1-6) by simp
  from json.approve_entries [OF this assms(7)] show ?thesis
    by (auto simp: json.added_def split: sum.splits option.splits if_splits)
qed

theorem approval_decision_audited_witness:
  "\<exists>r w'. approve sample_host sample_env ''u1'' ''ann'' (sample_rows AppPending, (5, [])) = (Inr (Some r), w') \<and>
     decision_event (sample_request AppPending) ''approval.approved'' (JStr ''ann'') (sample_date 5)
       ''approved'' \<in> set (snd (snd w'))"
proof -
  have before: "\<not> sample_date 9 \<le> sample_date 5"
    by (simp add: sample_date_def eval_nat_numeral)
  obtain rows' w' where a: "approve sample_host sample_env ''u1'' ''ann'' (sample_rows AppPending, (5, [])) =
      (Inr (Some (sample_request (AppApproved (sample_date 5) ''ann''))), (rows', w'))"
    by (simp add: approve_def decide_def approve_body_def transaction_def get_request_def
        db_access_def on_world_def eff_defs parse_row_def now_iso_def writeDecisionAudit_def
        decision_writer_def save_request_def update_row_def sample_env_def sample_rows_def before)
  have rec: "recording sample_env snd" and writer: "decision_writer sample_env \<noteq> None"
    by (auto simp: recording_def grows_def sample_env_def decision_writer_def ret_def)
  from approval_decision_audited [OF rec a] writer obtain t where
    "sample_request (AppApproved (sample_date 5) ''ann'') = sample_request (AppApproved t ''ann'')"
    "decision_event (sample_request AppPending) ''approval.approved'' (JStr ''ann'') t ''approved''
      \<in> set (snd w')"
    by auto
  moreover from this(1) have "t = sample_date 5" by (metis approval_state.inject(1) sample_request_simps(1))
  ultimately show ?thesis using a by auto
qed

text \<open>An onboarding request, whose audit writer fails at the event of the decision.\<close>

definition onboarding_env :: "(allow_file \<times> int) approval_env" where
  "onboarding_env =
     \<lparr>av_now = (\<lambda>w. (Inr (snd w), w)), av_uuid = (\<lambda>w. (Inr ''u1'', w)), av_io = ret (),
      av_misuse = (\<lambda>_. False), av_explicit = True, av_timeoutSeconds = Fin 1,
      av_audit = Some (\<lambda>e. throw (GenericError ''full'')),
      av_onboarding = Some \<lparr>ob_add = ja_add (ret ()), ob_write = (\<lambda>e. ret ())\<rparr>\<rparr>"

definition onboarding_request :: approval_request where
  "onboarding_request = (sample_request AppPending)\<lparr>ap_approvalType := AllowlistOnboarding\<rparr>"

theorem approval_onboarding_atomic_witness:
  "\<exists>e w'. approve sample_host onboarding_env ''u1'' ''ann''
      ([(''u1'', stored_json onboarding_request)], (AllowMissing, 5)) = (Inl e, w') \<and>
    fst w' = [(''u1'', stored_json onboarding_request)] \<and> ja_entries (fst (snd w')) = []"
proof -
  have before: "\<not> sample_date 9 \<le> sample_date 5"
    by (simp add: sample_date_def eval_nat_numeral)
  have parse: "parse_approval sample_host (stored_json onboarding_request) = Some onboarding_request"
    using parse_stored [of onboarding_request sample_host]
    by (simp add: onboarding_request_def request_ok_def sample_request_def approval_params.defs)
  have fields: "ar_state onboarding_request = AppPending" "ar_timeoutAt onboarding_request = sample_date 9"
    "ap_approvalType onboarding_request = AllowlistOnboarding"
    by (simp_all add: onboarding_request_def)
  obtain rows' w' where a: "approve sample_host onboarding_env ''u1'' ''ann''
      ([(''u1'', stored_json onboarding_request)], (AllowMissing, 5)) =
      (Inl (GenericError ''full''), (rows', w'))"
    by (simp add: approve_def decide_def approve_body_def transaction_def get_request_def
        db_access_def on_world_def eff_defs parse_row_def now_iso_def writeDecisionAudit_def
        decision_writer_def onboarding_env_def before parse fields applyAllowlistOnboarding_def
        ja_add_def ja_write_def lift_exn_def writeAllowlistRollbackAudit_def Let_def)
  define ob where "ob = (\<lparr>ob_add = ja_add (ret ()), ob_write = (\<lambda>e. ret ())\<rparr> :: (allow_file \<times> int) onboarding)"
  have frame: "av_onboarding onboarding_env = Some ob" "ob_add ob = ja_add (ret ())"
    "\<And>w. fst (snd (av_io onboarding_env w)) = fst w" "\<And>w. fst (snd (av_now onboarding_env w)) = fst w"
    "\<And>e w. fst (snd (ob_write ob e w)) = fst w"
    "\<forall>wr e w. decision_writer onboarding_env = Some wr \<longrightarrow> fst (snd (wr e w)) = fst w"
    by (auto simp: onboarding_env_def ob_def decision_writer_def ret_def throw_def)
  have "rows' = [(''u1'', stored_json onboarding_request)] \<and> ja_entries (fst w') = ja_entries AllowMissing"
    using approval_onboarding_atomic [OF frame a] by (simp add: onboarding_env_def ret_def)
  with a show ?thesis by (simp add: ja_entries_def)
qed

end
