(* ===== verification/DryRun.thy ===== *)
theory DryRun
  imports IdempotencyStore KillSwitch
begin

text \<open>
  The dry-run authorisation of \<open>packages/broker/src/dry-run.ts\<close>: a MAC over the hash of an intent
  and the instant of the dry run, accepted while it is fresh. A hexadecimal digest has 64 lower-case
  digits, so comparing the decoded bytes of two of them is comparing the digits.
\<close>

definition default_dry_run_age_ms :: jsnum where
  "default_dry_run_age_ms = Fin 300000"

record dry_run_authorization =
  da_checkedAt :: string
  da_token :: string

record dry_run_result =
  dr_intentId :: string
  dr_correlationId :: string
  dr_checkedAt :: string
  dr_passed :: bool
  dr_requiresHumanApproval :: bool
  dr_checks :: "preflight_check list"
  dr_authorization :: "dry_run_authorization option"

definition dryRunIsFresh :: "host \<Rightarrow> string \<Rightarrow> string \<Rightarrow> jsnum option \<Rightarrow> bool" where
  "dryRunIsFresh h checkedAt now maxAge =
     (let age = num_sub (date_parse h now) (date_parse h checkedAt);
          limit = (case maxAge of Some m \<Rightarrow> m | None \<Rightarrow> default_dry_run_age_ms)
      in is_finite age \<and> num_le (Fin 0) age \<and> num_le age limit)"

definition dry_run_message :: "host \<Rightarrow> trading_intent \<Rightarrow> string \<Rightarrow> string" where
  "dry_run_message h i checkedAt =
     ''broker-dry-run:'' @ hashIntentPayload h i @ '':'' @ checkedAt"

definition createDryRunAuthorization ::
  "host \<Rightarrow> string \<Rightarrow> trading_intent \<Rightarrow> string \<Rightarrow> dry_run_authorization" where
  "createDryRunAuthorization h secret i checkedAt =
     \<lparr>da_checkedAt = checkedAt,
      da_token = hmac_sha256_hex h secret (dry_run_message h i checkedAt)\<rparr>"

definition dryRunAuthorizationMatches ::
  "host \<Rightarrow> dry_run_authorization option \<Rightarrow> string \<Rightarrow> trading_intent \<Rightarrow> string \<Rightarrow> jsnum option \<Rightarrow> bool"
  where
  "dryRunAuthorizationMatches h auth secret i now maxAge =
     (case auth of None \<Rightarrow> False
      | Some a \<Rightarrow>
          if \<not> lower_hex64 (da_token a) \<or> \<not> dryRunIsFresh h (da_checkedAt a) now maxAge then False
          else da_token a = da_token (createDryRunAuthorization h secret i (da_checkedAt a)))"

lemma dry_run_message_inj:
  assumes "lower_hex64 (hashIntentPayload h i)" "lower_hex64 (hashIntentPayload h j)"
    and "dry_run_message h i t = dry_run_message h j u"
  shows "hashIntentPayload h i = hashIntentPayload h j \<and> t = u"
  using assms by (simp add: dry_run_message_def lower_hex64_def)

text \<open>C12. A dry-run authorisation is bound to its intent and to its time: whatever authorisation
  is accepted is the one the broker itself would issue for this intent at the instant it names, that
  instant is not in the future and at most the age limit ago, and an authorisation issued for an
  intent that was stored with another payload hash is refused, as long as the MAC does not collide on
  the two messages.\<close>

theorem dry_run_authorization_bound:
  assumes "dryRunAuthorizationMatches h (Some a) secret i now maxAge"
    and "lower_hex64 (hashIntentPayload h i)" "lower_hex64 (hashIntentPayload h j)"
    and "inj_on (hmac_sha256_hex h secret) {dry_run_message h i (da_checkedAt a), dry_run_message h j t}"
  shows "a = createDryRunAuthorization h secret i (da_checkedAt a) \<and>
    dryRunIsFresh h (da_checkedAt a) now maxAge \<and>
    (a = createDryRunAuthorization h secret j t \<longrightarrow> hashIntentPayload h j = hashIntentPayload h i)"
proof -
  have a: "da_token a = hmac_sha256_hex h secret (dry_run_message h i (da_checkedAt a))"
    "dryRunIsFresh h (da_checkedAt a) now maxAge"
    using assms(1) by (auto simp: dryRunAuthorizationMatches_def createDryRunAuthorization_def
        split: if_splits)
  have "dry_run_message h i (da_checkedAt a) = dry_run_message h j t"
    if "a = createDryRunAuthorization h secret j t"
    by (rule inj_onD [OF assms(4)])
      (use a(1) that in \<open>simp_all add: createDryRunAuthorization_def\<close>)
  then have "hashIntentPayload h j = hashIntentPayload h i"
    if "a = createDryRunAuthorization h secret j t"
    using dry_run_message_inj [OF assms(2,3)] that by metis
  moreover have "a = createDryRunAuthorization h secret i (da_checkedAt a)"
    using a(1) by (cases a) (simp add: createDryRunAuthorization_def)
  ultimately show ?thesis using a(2) by blast
qed

text \<open>A host whose MAC is a digest.\<close>

definition hex_host :: host where
  "hex_host = sample_host\<lparr>hmac_sha256_hex := (\<lambda>k m. replicate 64 CHR ''b'')\<rparr>"

lemma hex_host_simps [simp]:
  "sha256_hex hex_host s = replicate 64 CHR ''a''"
  "hmac_sha256_hex hex_host k m = replicate 64 CHR ''b''"
  "date_parse hex_host = date_parse sample_host" "iso_string hex_host = sample_date"
  "is_uuid hex_host s" "is_datetime hex_host s" "redact_secrets hex_host s = s"
  by (simp_all add: hex_host_def)

lemma hex_digests [simp]:
  "lower_hex64 (replicate 64 CHR ''a'')" "lower_hex64 (replicate 64 CHR ''b'')"
  by (simp_all add: lower_hex64_def list_all_iff is_lower_hex_def)

theorem dry_run_authorization_bound_witness:
  "let a = createDryRunAuthorization hex_host ''k'' sample_intent (sample_date 1) in
   dryRunAuthorizationMatches hex_host (Some a) ''k'' sample_intent (sample_date 2) None \<and>
   dryRunIsFresh hex_host (da_checkedAt a) (sample_date 2) None"
proof -
  let ?a = "createDryRunAuthorization hex_host ''k'' sample_intent (sample_date 1)"
  have m: "dryRunAuthorizationMatches hex_host (Some ?a) ''k'' sample_intent (sample_date 2) None"
    by (simp add: dryRunAuthorizationMatches_def createDryRunAuthorization_def dryRunIsFresh_def
        default_dry_run_age_ms_def num_sub_def)
  have hash: "lower_hex64 (hashIntentPayload hex_host sample_intent)"
    by (simp add: hashIntentPayload_def)
  from dry_run_authorization_bound [OF m hash hash, of "sample_date 1"] m show ?thesis
    by (simp add: createDryRunAuthorization_def)
qed

end
