(* ===== verification/Broker.thy ===== *)
theory Broker
  imports Onboarding DryRun
begin

text \<open>
  The execution broker of \<open>packages/broker/src/broker.ts\<close>. The broker keeps no state of its own:
  its collaborators (clock, connector, kill switch, audit writer, idempotency store, approval store)
  act on a world, and the local flags of one execution are a record beside it. The connector is a
  tree of its actions, which may call the \<open>beforeSideEffect\<close> callback and react to its outcome.
\<close>

subsection \<open>Collaborators\<close>

record evidence =
  ev_orderId :: "string option"
  ev_transactionHash :: "string option"
  ev_orderStatus :: "order_status option"
  ev_reconciliation :: "reconciliation option"
  ev_simulationEvidence :: "sim_evidence option"

text \<open>
  \<open>CDone\<close> returns or throws, \<open>CAct\<close> acts on the world, \<open>CCheck\<close> calls the callback and goes on with
  what it threw, if it threw.
\<close>

datatype 'w conn_run =
    CDone "exn + evidence"
  | CAct "'w \<Rightarrow> 'w" "'w \<Rightarrow> 'w conn_run"
  | CCheck "exn option \<Rightarrow> 'w conn_run"

primrec run_conn :: "('w, unit) eff \<Rightarrow> 'w conn_run \<Rightarrow> ('w, evidence) eff" where
  "run_conn check (CDone r) = (\<lambda>w. (r, w))"
| "run_conn check (CAct f k) = (\<lambda>w. run_conn check (k w) (f w))"
| "run_conn check (CCheck k) = (\<lambda>w. case check w of
       (Inl e, w') \<Rightarrow> run_conn check (k (Some e)) w'
     | (Inr _, w') \<Rightarrow> run_conn check (k None) w')"

record 'w connector =
  cn_execute :: "trading_intent \<Rightarrow> 'w conn_run"
  cn_revalidate :: "trading_intent \<Rightarrow> ('w, bool \<times> string option) eff"

record 'w reserved_ops =
  ro_complete :: "exec_result \<Rightarrow> audit_event option \<Rightarrow> ('w, unit) eff"
  ro_completeAudit :: "('w, unit) eff"
  ro_failAudit :: "exn \<Rightarrow> ('w, unit) eff"
  ro_abort :: "exn \<Rightarrow> ('w, unit) eff"

datatype 'w reservation =
    ReservedOps "'w reserved_ops"
  | CachedResult exec_result "audit_event option" "('w, unit) eff"
  | PendingResult promise

record 'w approvals =
  as_get :: "string \<Rightarrow> ('w, approval_request option) eff"
  as_list :: "('w, approval_request list) eff"
  as_consume :: "string \<Rightarrow> ('w, approval_request option) eff"

record broker_config =
  bc_environment :: environment
  bc_canaryLiveEnabled :: bool
  bc_secret :: string
  bc_decisionMaxAgeMs :: "jsnum option"
  bc_vaultAddr :: "string option"

record 'w broker =
  br_config :: broker_config
  br_now :: "('w, int) eff"
  br_connector :: "'w connector"
  br_isActive :: "scope \<Rightarrow> ('w, jsval) eff"
  br_audit :: "'w audit_writer"
  br_begin :: "string \<Rightarrow> trading_intent \<Rightarrow> ('w, 'w reservation) eff"
  br_approvals :: "'w approvals"
  br_live :: "'w live_store option"

text \<open>
  A decision of the guardrail service. \<open>gp_approvalId\<close> and \<open>gp_dryRun\<close> are \<open>None\<close> when the property is
  absent; the intent is whatever the caller passed.
\<close>

record guardrail_approval =
  gp_intentId :: string
  gp_correlationId :: string
  gp_outcome :: string
  gp_intent :: jsval
  gp_decidedAt :: string
  gp_decisionToken :: string
  gp_approvalId :: "jsval option"
  gp_dryRun :: "jsval option"

text \<open>What \<open>execute\<close> resolves to: a result, or the promise of the execution it waits for.\<close>

datatype outcome = Settled exec_result | Later promise

subsection \<open>Construction\<close>

definition assertDecisionSecret :: "environment \<Rightarrow> string \<Rightarrow> exn + unit" where
  "assertDecisionSecret envr secret =
     (if secret = [] then Inl (GenericError ''Guardrail decision verification secret is required.'')
      else if envr \<noteq> Dev \<and> secret = ''dev-decision-secret''
      then Inl (GenericError
        ''Default guardrail decision verification secret cannot be used outside dev.'')
      else if envr \<noteq> Dev \<and> length secret < 32
      then Inl (GenericError
        ''Guardrail decision verification secret must be at least 32 characters outside dev.'')
      else Inr ())"

text \<open>\<open>/^[a-z][a-z0-9+.-]*:\/\//i\<close>\<close>

definition is_letter :: "char \<Rightarrow> bool" where
  "is_letter c \<longleftrightarrow> 97 \<le> code (lower_char c) \<and> code (lower_char c) \<le> 122"

definition has_scheme :: "string \<Rightarrow> bool" where
  "has_scheme s \<longleftrightarrow> (case s of [] \<Rightarrow> False | c # cs \<Rightarrow> is_letter c \<and>
     take 3 (dropWhile (\<lambda>x. is_letter x \<or> is_digit x \<or> x \<in> set ''+.-'') cs) = ''://'')"

text \<open>\<open>url_protocol\<close> is the protocol that the URL parser of the host finds, if the text is a URL.\<close>

definition assertNotVaultDevInProduction ::
  "(string \<Rightarrow> string option) \<Rightarrow> environment \<Rightarrow> string \<Rightarrow> exn + unit" where
  "assertNotVaultDevInProduction url_protocol envr addr =
     (if envr \<noteq> CanaryLive \<and> envr \<noteq> Production then Inr ()
      else case url_protocol (if has_scheme addr then addr else ''http://'' @ addr) of
        None \<Rightarrow> Inl (GenericError (''Vault address ('' @ addr @ '') is not a valid URL.''))
      | Some protocol \<Rightarrow>
          if protocol \<noteq> ''https:''
          then Inl (GenericError (''Vault address ('' @ addr @ '') must use HTTPS in '' @
            environment_name envr @ '' environment.''))
          else Inr ())"

definition new_broker :: "(string \<Rightarrow> string option) \<Rightarrow> broker_config \<Rightarrow> exn + unit" where
  "new_broker url_protocol c =
     (case assertDecisionSecret (bc_environment c) (bc_secret c) of
        Inl e \<Rightarrow> Inl e
      | Inr _ \<Rightarrow>
          if \<not> pred_option (\<lambda>m. is_finite m \<and> num_less (Fin 0) m) (bc_decisionMaxAgeMs c)
          then Inl (GenericError ''Decision max age must be a positive finite number of milliseconds.'')
          else (case bc_vaultAddr c of
              None \<Rightarrow> Inr ()
            | Some a \<Rightarrow> if a = [] then Inr ()
                else assertNotVaultDevInProduction url_protocol (bc_environment c) a))"

subsection \<open>Decisions\<close>

definition token_payload ::
  "trading_intent \<Rightarrow> string \<Rightarrow> string \<Rightarrow> string \<Rightarrow> jsval \<Rightarrow> bool \<Rightarrow> jsval" where
  "token_payload i outcome cid decidedAt approvalId dryRun = JObj
     ([(''intent'', intent_json i), (''outcome'', JStr outcome), (''correlationId'', JStr cid),
       (''decidedAt'', JStr decidedAt),
       (''approvalId'', if approvalId = JUndef then JNull else approvalId)] @
      (if dryRun then [(''dryRun'', JBool True)] else []))"

definition createGuardrailDecisionToken ::
  "host \<Rightarrow> string \<Rightarrow> trading_intent \<Rightarrow> string \<Rightarrow> string \<Rightarrow> string \<Rightarrow> jsval \<Rightarrow> bool \<Rightarrow> string" where
  "createGuardrailDecisionToken h secret i outcome cid decidedAt approvalId dryRun =
     hmac_sha256_hex h secret (stable_json h (token_payload i outcome cid decidedAt approvalId dryRun))"

text \<open>A hexadecimal digest decodes to the bytes of its digits, in either case.\<close>

definition decisionTokenMatches ::
  "host \<Rightarrow> broker_config \<Rightarrow> guardrail_approval \<Rightarrow> trading_intent \<Rightarrow> bool" where
  "decisionTokenMatches h c ap i \<longleftrightarrow>
     hex64 (gp_decisionToken ap) \<and>
     to_lower (gp_decisionToken ap) = createGuardrailDecisionToken h (bc_secret c) i (gp_outcome ap)
       (gp_correlationId ap) (gp_decidedAt ap)
       (case gp_approvalId ap of Some v \<Rightarrow> v | None \<Rightarrow> JUndef)
       (case gp_dryRun ap of Some v \<Rightarrow> truthy v | None \<Rightarrow> False)"

definition decisionIsStale :: "host \<Rightarrow> broker_config \<Rightarrow> string \<Rightarrow> string \<Rightarrow> bool" where
  "decisionIsStale h c decidedAt now =
     (let maxAge = (case bc_decisionMaxAgeMs c of Some m \<Rightarrow> m | None \<Rightarrow> Fin 172800000);
          decidedMs = date_parse h decidedAt;
          nowMs = date_parse h now
      in \<not> is_finite decidedMs \<or> num_less (num_add nowMs (Fin 60000)) decidedMs \<or>
         num_less maxAge (num_sub nowMs decidedMs))"

text \<open>The decision gates of \<open>execute\<close>, in their order: the rule and message of the first that fails.\<close>

definition decision_failure ::
  "host \<Rightarrow> broker_config \<Rightarrow> guardrail_approval \<Rightarrow> trading_intent \<Rightarrow> string \<Rightarrow> (string \<times> string) option" where
  "decision_failure h c ap i now =
     (if gp_dryRun ap \<noteq> None
      then Some (''dry_run_only'', ''A dry-run decision cannot execute.'')
      else if gp_outcome ap \<noteq> ''allow'' \<and> gp_outcome ap \<noteq> ''needs_human''
      then Some (''broker_rejected'', ''Only approved decisions can be executed.'')
      else if \<not> decisionTokenMatches h c ap i
      then Some (''decision_token_invalid'', ''Guardrail decision token is invalid.'')
      else if decisionIsStale h c (gp_decidedAt ap) now
      then Some (''decision_stale'', ''Guardrail decision is stale.'')
      else if bc_environment c = Production
      then Some (''production_not_supported'', ''Production execution is not yet supported.'')
      else if in_environment i \<noteq> bc_environment c
      then Some (''environment_mismatch'', ''Intent environment does not match broker environment.'')
      else if gp_intentId ap \<noteq> in_intentId i
      then Some (''approval_mismatch'', ''Approved decision does not match the execution intent.'')
      else None)"

subsection \<open>Rejecting\<close>

definition nonEmptyReason :: "host \<Rightarrow> string option \<Rightarrow> string \<Rightarrow> string" where
  "nonEmptyReason h value fallback = redact_secrets h (case value of
     Some s \<Rightarrow> if trim s \<noteq> [] then trim s else fallback | None \<Rightarrow> fallback)"

definition failure_result ::
  "exec_status \<Rightarrow> bool \<Rightarrow> string \<Rightarrow> string \<Rightarrow> string \<Rightarrow> string \<Rightarrow> exec_result" where
  "failure_result status revalidated iid key reason now =
     \<lparr>xr_intentId = iid, xr_idempotencyKey = key, xr_status = status, xr_executionKind = None,
      xr_revalidationPassed = revalidated, xr_executedAt = now, xr_orderId = None,
      xr_transactionHash = None, xr_orderStatus = None, xr_reconciliation = None,
      xr_simulationEvidence = None, xr_rejectionReason = Some reason\<rparr>"

definition broker_event ::
  "broker_config \<Rightarrow> string \<Rightarrow> string \<Rightarrow> string \<Rightarrow> string \<Rightarrow> (string \<times> jsval) list \<Rightarrow> audit_event" where
  "broker_event c eventType iid prin cid data =
     \<lparr>ae_eventId = None, ae_eventType = eventType, ae_environment = bc_environment c,
      ae_intentId = Some iid, ae_principal = Some prin, ae_correlationId = cid,
      ae_data = JObj data, ae_extra = []\<rparr>"

text \<open>\<open>reject\<close>, on the three members of the intent that it reads.\<close>

definition reject_as ::
  "host \<Rightarrow> 'w broker \<Rightarrow> string \<Rightarrow> string \<Rightarrow> string \<Rightarrow> string \<Rightarrow> string \<Rightarrow> string \<times> string \<Rightarrow>
    ('w, exec_result) eff" where
  "reject_as h b iid key prin now cid why =
     (let reason = nonEmptyReason h (Some (snd why)) ''Broker rejected execution.'' in
      andthen (aw_write (br_audit b) (broker_event (br_config b) ''broker.failed'' iid prin cid
        [(''rule'', JStr (fst why)), (''message'', JStr reason)])) (\<lambda>_.
      ret (failure_result Rejected False iid key reason now)))"

definition reject ::
  "host \<Rightarrow> 'w broker \<Rightarrow> trading_intent \<Rightarrow> string \<Rightarrow> string \<Rightarrow> string \<times> string \<Rightarrow> ('w, exec_result) eff"
  where
  "reject h b i now cid why =
     reject_as h b (in_intentId i) (in_idempotencyKey i) (in_principal i) now cid why"

subsection \<open>Gates before the reservation\<close>

definition br_preflight ::
  "'w broker \<Rightarrow> trading_intent \<Rightarrow> string \<Rightarrow> ('w, bool \<times> preflight_check list) eff" where
  "br_preflight b i cid = run_preflight
     \<lparr>pp_audit = br_audit b, pp_isActive = br_isActive b, pp_store = br_live b,
      pp_environment = bc_environment (br_config b), pp_intent = i, pp_correlationId = cid\<rparr>"

definition live_failure ::
  "'w broker \<Rightarrow> trading_intent \<Rightarrow> string \<Rightarrow> ('w, (string \<times> string) option) eff" where
  "live_failure b i cid =
     (if bc_environment (br_config b) \<noteq> CanaryLive then ret None
      else if \<not> bc_canaryLiveEnabled (br_config b)
      then ret (Some (''canary_live_disabled'', ''Canary-live execution is not enabled.''))
      else andthen (br_preflight b i cid) (\<lambda>(passed, checks). ret
        (if passed then None else Some (''live_preflight_failed'', ''Live-mode preflight failed.''))))"

definition approvalMatchesIntent ::
  "host \<Rightarrow> approval_request \<Rightarrow> trading_intent \<Rightarrow> string option \<Rightarrow> bool" where
  "approvalMatchesIntent h r i cid \<longleftrightarrow>
     ap_intentId r = in_intentId i \<and> ap_principal r = in_principal i \<and>
     ap_action r = action_name (intent_action i) \<and> ap_resource r = in_resource i \<and>
     ap_environment r = in_environment i \<and>
     (cid = None \<or> cid = Some (ap_correlationId r)) \<and>
     stable_json h (ap_intentData r) = stable_json h (intent_json i)"

definition findApprovalForIntent ::
  "host \<Rightarrow> 'w broker \<Rightarrow> trading_intent \<Rightarrow> ('w, approval_request option) eff" where
  "findApprovalForIntent h b i = andthen (as_list (br_approvals b)) (\<lambda>rs.
     ret (List.find (\<lambda>r. approvalMatchesIntent h r i None) rs))"

text \<open>The approval identifier of a decision, when it is a non-empty string.\<close>

definition approval_id :: "guardrail_approval \<Rightarrow> string option" where
  "approval_id ap = (case gp_approvalId ap of Some (JStr s) \<Rightarrow> if s = [] then None else Some s | _ \<Rightarrow> None)"

definition approval_failure ::
  "host \<Rightarrow> 'w broker \<Rightarrow> guardrail_approval \<Rightarrow> trading_intent \<Rightarrow> ('w, (string \<times> string) option) eff" where
  "approval_failure h b ap i =
     andthen (findApprovalForIntent h b i) (\<lambda>matching. ret
       (if gp_approvalId ap \<noteq> None \<and> approval_id ap = None
        then Some (''approval_missing'', ''Human approval is required before execution.'')
        else if (gp_outcome ap = ''needs_human'' \<or> matching \<noteq> None) \<and> approval_id ap = None
        then Some (''approval_missing'', ''Human approval is required before execution.'')
        else None))"

subsection \<open>The frame of a reserved execution\<close>

text \<open>\<open>reservationCompleted\<close> and \<open>terminalPersistenceStarted\<close>.\<close>

record flags =
  fl_completed :: bool
  fl_persisting :: bool

type_synonym 'w frame = "flags \<times> 'w"

definition mark_completed :: "('w frame, unit) eff" where
  "mark_completed = modify_state (\<lambda>(fl, w). (fl\<lparr>fl_completed := True\<rparr>, w))"

definition mark_persisting :: "('w frame, unit) eff" where
  "mark_persisting = modify_state (\<lambda>(fl, w). (fl\<lparr>fl_persisting := True\<rparr>, w))"

definition finish :: "'w reserved_ops \<Rightarrow> exec_result \<Rightarrow> ('w frame, exec_result) eff" where
  "finish ops r =
     andthen (on_world (ro_complete ops r None)) (\<lambda>_.
     andthen mark_completed (\<lambda>_. ret r))"

text \<open>The two ways of refusing: storing the rejection, or giving the reservation back.\<close>

definition reject_finish ::
  "host \<Rightarrow> 'w broker \<Rightarrow> 'w reserved_ops \<Rightarrow> trading_intent \<Rightarrow> string \<Rightarrow> string \<Rightarrow> string \<times> string \<Rightarrow>
    ('w frame, exec_result option) eff" where
  "reject_finish h b ops i now cid why =
     andthen (on_world (reject h b i now cid why)) (\<lambda>r.
     andthen (finish ops r) (\<lambda>r. ret (Some r)))"

definition reject_abort ::
  "host \<Rightarrow> 'w broker \<Rightarrow> 'w reserved_ops \<Rightarrow> trading_intent \<Rightarrow> string \<Rightarrow> string \<Rightarrow> string \<times> string \<Rightarrow>
    ('w frame, exec_result option) eff" where
  "reject_abort h b ops i now cid why =
     andthen (on_world (reject h b i now cid why)) (\<lambda>r.
     andthen (on_world (ro_abort ops (GenericError
       (case xr_rejectionReason r of Some m \<Rightarrow> m | None \<Rightarrow> ''undefined'')))) (\<lambda>_.
     andthen mark_completed (\<lambda>_. ret (Some r))))"

text \<open>\<open>try { m } catch (err) { if (!reservationCompleted && !terminalPersistenceStarted)
  reservation.abort(err); throw err; }\<close>\<close>

definition guarded :: "'w reserved_ops \<Rightarrow> ('w frame, 'a) eff \<Rightarrow> ('w frame, 'a) eff" where
  "guarded ops m = try_catch m (\<lambda>err.
     andthen (read_state fst) (\<lambda>fl.
     if \<not> fl_completed fl \<and> \<not> fl_persisting fl
     then andthen (on_world (ro_abort ops err)) (\<lambda>_. throw err)
     else throw err))"

text \<open>What one execution is about: the intent, the decision, the instant, the dry run.\<close>

record execution =
  ex_intent :: trading_intent
  ex_approval :: guardrail_approval
  ex_now :: string
  ex_dryRun :: "dry_run_authorization option"

definition canary_order :: "'w broker \<Rightarrow> execution \<Rightarrow> bool" where
  "canary_order b x \<longleftrightarrow> bc_environment (br_config b) = CanaryLive \<and>
     intent_action (ex_intent x) = PlaceOrder"

abbreviation ex_cid :: "execution \<Rightarrow> string" where
  "ex_cid x \<equiv> gp_correlationId (ex_approval x)"

definition check_approved ::
  "host \<Rightarrow> 'w broker \<Rightarrow> 'w reserved_ops \<Rightarrow> execution \<Rightarrow> approval_request option \<Rightarrow>
    ('w frame, exec_result option) eff" where
  "check_approved h b ops x found =
     (let fin = reject_finish h b ops (ex_intent x) (ex_now x) (ex_cid x);
          missing = reject_abort h b ops (ex_intent x) (ex_now x) (ex_cid x)
            (''approval_missing'', ''Human approval is required before execution.'') in
      case found of None \<Rightarrow> missing
      | Some r \<Rightarrow> (case ar_state r of
          AppConsumed t by \<Rightarrow>
            fin (''approval_consumed'', ''Human approval has already been used.'')
        | AppApproved t by \<Rightarrow>
            andthen (on_world (br_now b)) (\<lambda>t.
            if num_less (date_parse h (ar_timeoutAt r)) (num_of_int t)
            then fin (''approval_expired'', ''Human approval has expired.'')
            else if ap_approvalType r \<noteq> OneTime \<or>
              \<not> approvalMatchesIntent h r (ex_intent x) (Some (ex_cid x))
            then fin (''approval_mismatch'', ''Human approval does not match the execution intent.'')
            else ret None)
        | _ \<Rightarrow> missing))"

definition approval_checks ::
  "host \<Rightarrow> 'w broker \<Rightarrow> 'w reserved_ops \<Rightarrow> execution \<Rightarrow> ('w frame, exec_result option) eff" where
  "approval_checks h b ops x =
     (if canary_order b x \<and> \<not> dryRunAuthorizationMatches h (ex_dryRun x) (bc_secret (br_config b))
        (ex_intent x) (ex_now x) (bc_decisionMaxAgeMs (br_config b))
      then reject_abort h b ops (ex_intent x) (ex_now x) (ex_cid x) (''dry_run_required'',
        ''A fresh successful dry-run report is required for this live order.'')
      else (case approval_id (ex_approval x) of
          None \<Rightarrow> ret None
        | Some k \<Rightarrow> andthen (on_world (as_get (br_approvals b) k)) (check_approved h b ops x)))"

subsection \<open>The side effect\<close>

definition intent_event ::
  "'w broker \<Rightarrow> execution \<Rightarrow> string \<Rightarrow> (string \<times> jsval) list \<Rightarrow> audit_event" where
  "intent_event b x eventType data = broker_event (br_config b) eventType (in_intentId (ex_intent x))
     (in_principal (ex_intent x)) (ex_cid x) data"

definition scopes_of :: "execution \<Rightarrow> scope list" where
  "scopes_of x = getKillSwitchScopes (ex_intent x)"

definition kill_switch_stop ::
  "host \<Rightarrow> 'w broker \<Rightarrow> 'w reserved_ops \<Rightarrow> execution \<Rightarrow> ('w frame, exec_result option) eff" where
  "kill_switch_stop h b ops x =
     andthen (on_world (blocking_scope (br_isActive b) (ex_intent x) (scopes_of x))) (\<lambda>blocked.
     case blocked of None \<Rightarrow> ret None
     | Some sc \<Rightarrow>
         andthen (on_world (aw_write (br_audit b)
           (intent_event b x ''killswitch.blocked'' [(''scope'', scope_json sc)]))) (\<lambda>_.
         reject_finish h b ops (ex_intent x) (ex_now x) (ex_cid x)
           (''killswitch_active'', ''Kill switch is active.'')))"

definition revalidation_stop ::
  "host \<Rightarrow> 'w broker \<Rightarrow> 'w reserved_ops \<Rightarrow> execution \<Rightarrow> ('w frame, exec_result option) eff" where
  "revalidation_stop h b ops x =
     andthen (on_world (cn_revalidate (br_connector b) (ex_intent x))) (\<lambda>(passed, reason).
     andthen (on_world (aw_write (br_audit b) (intent_event b x ''broker.revalidated''
       [(''passed'', JBool passed),
        (''reason'', case reason of
           Some s \<Rightarrow> if s = [] then JUndef else JStr (redact_secrets h s) | None \<Rightarrow> JUndef)]))) (\<lambda>_.
     if passed then ret None
     else (let m = nonEmptyReason h reason ''Broker-side revalidation failed.'' in
       andthen (on_world (aw_write (br_audit b)
         (intent_event b x ''broker.failed'' [(''reason'', JStr m)]))) (\<lambda>_.
       reject_finish h b ops (ex_intent x) (ex_now x) (ex_cid x) (''revalidation_failed'', m)))))"

text \<open>\<open>dryRunCheckedAt ?? ""\<close> is still fresh now.\<close>

definition dry_run_still_fresh :: "host \<Rightarrow> 'w broker \<Rightarrow> execution \<Rightarrow> ('w, bool) eff" where
  "dry_run_still_fresh h b x =
     (if \<not> canary_order b x then ret True
      else andthen (br_now b) (\<lambda>t. ret (dryRunIsFresh h
        (case ex_dryRun x of Some a \<Rightarrow> da_checkedAt a | None \<Rightarrow> [])
        (iso_string h t) (bc_decisionMaxAgeMs (br_config b)))))"

definition late_dry_run_stop ::
  "host \<Rightarrow> 'w broker \<Rightarrow> 'w reserved_ops \<Rightarrow> execution \<Rightarrow> ('w frame, exec_result option) eff" where
  "late_dry_run_stop h b ops x =
     andthen (on_world (dry_run_still_fresh h b x)) (\<lambda>fresh.
     if fresh then ret None
     else reject_abort h b ops (ex_intent x) (ex_now x) (ex_cid x)
       (''dry_run_expired'', ''Dry-run report expired during broker revalidation.''))"

definition consume_stop ::
  "host \<Rightarrow> 'w broker \<Rightarrow> 'w reserved_ops \<Rightarrow> execution \<Rightarrow> ('w frame, exec_result option) eff" where
  "consume_stop h b ops x =
     (case approval_id (ex_approval x) of None \<Rightarrow> ret None
      | Some k \<Rightarrow>
          andthen (on_world (as_consume (br_approvals b) k)) (\<lambda>r.
          if r \<noteq> None then ret None
          else reject_finish h b ops (ex_intent x) (ex_now x) (ex_cid x)
            (''approval_consumed'', ''Human approval has already been used.'')))"

text \<open>The \<open>beforeSideEffect\<close> callback.\<close>

definition assertKillSwitchAllowsExecution :: "'w broker \<Rightarrow> execution \<Rightarrow> ('w, unit) eff" where
  "assertKillSwitchAllowsExecution b x = for_each (\<lambda>sc.
     andthen (try_catch (readKillSwitchBlocking (br_isActive b) sc (ex_intent x))
       (\<lambda>_. throw (ConnectorRevalidationError ''Kill switch is not reachable.''))) (\<lambda>blocked.
     if blocked
     then andthen (aw_write (br_audit b)
         (intent_event b x ''killswitch.blocked'' [(''scope'', scope_json sc)])) (\<lambda>_.
       throw (ConnectorRevalidationError ''Kill switch is active.''))
     else ret ())) (scopes_of x)"

definition before_side_effect :: "host \<Rightarrow> 'w broker \<Rightarrow> execution \<Rightarrow> ('w, unit) eff" where
  "before_side_effect h b x =
     andthen (assertKillSwitchAllowsExecution b x) (\<lambda>_.
     andthen (dry_run_still_fresh h b x) (\<lambda>fresh.
     if fresh then ret ()
     else throw (ConnectorRevalidationError ''Dry-run report expired before submission.'')))"

subsection \<open>Evidence\<close>

definition evidence_failure :: "trading_intent \<Rightarrow> evidence \<Rightarrow> string option" where
  "evidence_failure i ev =
     (let differs = (\<lambda>oid. \<exists>s. ev_orderId ev = Some s \<and> s \<noteq> [] \<and> s \<noteq> oid) in
      case i of
        CexCancelIntent e x \<Rightarrow>
          if ev_orderId ev \<noteq> Some (ref_orderId x)
          then Some ''Connector execution evidence orderId does not match intent.'' else None
      | CexOrderStatusIntent e x \<Rightarrow>
          if differs (ref_orderId x)
          then Some ''Connector execution evidence orderId does not match intent.''
          else (case ev_orderStatus ev of
              None \<Rightarrow> Some ''Connector order status evidence is missing.''
            | Some s \<Rightarrow>
                if os_orderId s \<noteq> ref_orderId x
                then Some ''Connector order status orderId does not match intent.''
                else if os_symbol s \<noteq> ref_symbol x
                then Some ''Connector order status symbol does not match intent.''
                else None)
      | CexOrderIntent e x \<Rightarrow>
          (case ev_orderStatus ev of
              None \<Rightarrow> None
            | Some s \<Rightarrow>
                if os_symbol s \<noteq> ord_symbol x
                then Some ''Connector order status symbol does not match intent.''
                else if to_lower (os_side s) \<noteq> side_name (ord_side x)
                then Some ''Connector order status side does not match intent.''
                else if differs (os_orderId s)
                then Some ''Connector order status orderId does not match execution evidence.''
                else None)
      | _ \<Rightarrow> None)"

definition evidence_result :: "trading_intent \<Rightarrow> evidence \<Rightarrow> string \<Rightarrow> exec_result" where
  "evidence_result i ev now =
     \<lparr>xr_intentId = in_intentId i, xr_idempotencyKey = in_idempotencyKey i, xr_status = Executed,
      xr_executionKind = Some (executionKindForIntent i), xr_revalidationPassed = True,
      xr_executedAt = now, xr_orderId = ev_orderId ev, xr_transactionHash = ev_transactionHash ev,
      xr_orderStatus = ev_orderStatus ev, xr_reconciliation = ev_reconciliation ev,
      xr_simulationEvidence = ev_simulationEvidence ev, xr_rejectionReason = None\<rparr>"

definition executedResult :: "host \<Rightarrow> trading_intent \<Rightarrow> evidence \<Rightarrow> string \<Rightarrow> exn + exec_result" where
  "executedResult h i ev now =
     (case evidence_failure i ev of
        Some m \<Rightarrow> Inl (GenericError m)
      | None \<Rightarrow> (case parse_result h (result_json (evidence_result i ev now)) of
          None \<Rightarrow> Inl (GenericError ''ZodError'') | Some r \<Rightarrow> Inr r))"

text \<open>A member of a literal object: present with the value \<open>undefined\<close> when there is none.\<close>

definition member :: "string \<Rightarrow> ('a \<Rightarrow> jsval) \<Rightarrow> 'a option \<Rightarrow> string \<times> jsval" where
  "member k f v = (k, case v of None \<Rightarrow> JUndef | Some y \<Rightarrow> f y)"

definition terminal_event ::
  "host \<Rightarrow> 'w broker \<Rightarrow> execution \<Rightarrow> string \<Rightarrow> (string \<times> jsval) list \<Rightarrow> audit_event" where
  "terminal_event h b x eventType data = (intent_event b x eventType data)\<lparr>ae_eventId :=
     Some (terminalAuditEventId h (ex_intent x) (ex_cid x) eventType)\<rparr>"

definition call_failed ::
  "host \<Rightarrow> 'w broker \<Rightarrow> execution \<Rightarrow> exn \<Rightarrow> exec_result \<times> audit_event" where
  "call_failed h b x err =
     (let revalidation = (case err of ConnectorRevalidationError m \<Rightarrow> True | _ \<Rightarrow> False);
          reason = (if revalidation then ''Connector revalidation failed.'' else ''Execution failed.'')
      in (failure_result Failed (\<not> revalidation) (in_intentId (ex_intent x))
            (in_idempotencyKey (ex_intent x)) reason (ex_now x),
          terminal_event h b x ''broker.failed''
            [(''status'', JStr ''failed''), (''rejectionReason'', JStr reason),
             (''error'', JStr (redact_secrets h (exn_string err)))]))"

definition evidence_failed ::
  "host \<Rightarrow> 'w broker \<Rightarrow> execution \<Rightarrow> exn \<Rightarrow> exec_result \<times> audit_event" where
  "evidence_failed h b x err =
     (let reason = ''Execution evidence validation failed.''
      in (failure_result Failed True (in_intentId (ex_intent x)) (in_idempotencyKey (ex_intent x))
            reason (ex_now x),
          terminal_event h b x ''broker.failed''
            [(''status'', JStr ''failed''), (''rejectionReason'', JStr reason),
             (''reason'', JStr reason), (''error'', JStr (redact_secrets h (exn_string err)))]))"

definition executed_event :: "host \<Rightarrow> 'w broker \<Rightarrow> execution \<Rightarrow> evidence \<Rightarrow> audit_event" where
  "executed_event h b x ev = terminal_event h b x ''broker.executed''
     [(''status'', JStr ''executed''), member ''orderId'' JStr (ev_orderId ev),
      member ''transactionHash'' JStr (ev_transactionHash ev),
      member ''orderStatus'' order_status_json (ev_orderStatus ev),
      member ''reconciliation'' reconciliation_json (ev_reconciliation ev),
      member ''simulationEvidence'' sim_evidence_json (ev_simulationEvidence ev)]"

text \<open>The result and the terminal event, from what the connector did.\<close>

definition terminal ::
  "host \<Rightarrow> 'w broker \<Rightarrow> execution \<Rightarrow> exn + evidence \<Rightarrow> exec_result \<times> audit_event" where
  "terminal h b x called =
     (case called of
        Inl err \<Rightarrow> call_failed h b x err
      | Inr ev \<Rightarrow> (case executedResult h (ex_intent x) ev (ex_now x) of
          Inl err \<Rightarrow> evidence_failed h b x err
        | Inr r \<Rightarrow> (r, executed_event h b x ev)))"

subsection \<open>execute\<close>

definition finishExecutionWithAudit ::
  "'w broker \<Rightarrow> 'w reserved_ops \<Rightarrow> exec_result \<times> audit_event \<Rightarrow> ('w frame, exec_result) eff" where
  "finishExecutionWithAudit b ops t =
     andthen (attempt (on_world (ro_complete ops (fst t) (Some (snd t))))) (\<lambda>completion.
     andthen mark_completed (\<lambda>_.
     andthen (try_catch (on_world (aw_write (br_audit b) (snd t)))
       (\<lambda>err. andthen (on_world (ro_failAudit ops err)) (\<lambda>_. throw err))) (\<lambda>_.
     case completion of Inl e \<Rightarrow> throw e
     | Inr _ \<Rightarrow> andthen (on_world (ro_completeAudit ops)) (\<lambda>_. ret (fst t)))))"

definition flushPendingTerminalAudit ::
  "'w broker \<Rightarrow> audit_event option \<Rightarrow> ('w, unit) eff \<Rightarrow> ('w, unit) eff" where
  "flushPendingTerminalAudit b pending completeAudit =
     (case pending of None \<Rightarrow> ret ()
      | Some a \<Rightarrow> andthen (aw_write (br_audit b) a) (\<lambda>_. completeAudit))"

text \<open>A stage that may settle the execution, and the rest of it.\<close>

definition unless_settled ::
  "('s, exec_result option) eff \<Rightarrow> ('s, exec_result) eff \<Rightarrow> ('s, exec_result) eff" where
  "unless_settled m rest = andthen m (\<lambda>r. case r of Some x \<Rightarrow> ret x | None \<Rightarrow> rest)"

definition call_connector ::
  "host \<Rightarrow> 'w broker \<Rightarrow> 'w reserved_ops \<Rightarrow> execution \<Rightarrow> ('w frame, exec_result) eff" where
  "call_connector h b ops x =
     andthen (attempt (on_world (run_conn (before_side_effect h b x)
       (cn_execute (br_connector b) (ex_intent x))))) (\<lambda>called.
     andthen mark_persisting (\<lambda>_.
     finishExecutionWithAudit b ops (terminal h b x called)))"

definition perform_execution ::
  "host \<Rightarrow> 'w broker \<Rightarrow> 'w reserved_ops \<Rightarrow> execution \<Rightarrow> ('w frame, exec_result) eff" where
  "perform_execution h b ops x =
     unless_settled (kill_switch_stop h b ops x)
     (unless_settled (revalidation_stop h b ops x)
     (unless_settled (kill_switch_stop h b ops x)
     (unless_settled (late_dry_run_stop h b ops x)
     (unless_settled (consume_stop h b ops x)
     (call_connector h b ops x)))))"

definition execute_reserved ::
  "host \<Rightarrow> 'w broker \<Rightarrow> 'w reserved_ops \<Rightarrow> execution \<Rightarrow> ('w frame, exec_result) eff" where
  "execute_reserved h b ops x =
     unless_settled (guarded ops (approval_checks h b ops x)) (guarded ops (perform_execution h b ops x))"

text \<open>The frame of an execution starts with both flags down and is dropped at its end.\<close>

definition in_frame :: "('w frame, 'a) eff \<Rightarrow> ('w, 'a) eff" where
  "in_frame m = (\<lambda>w. case m (\<lparr>fl_completed = False, fl_persisting = False\<rparr>, w) of
     (r, (fl, w')) \<Rightarrow> (r, w'))"

definition begin_reservation ::
  "host \<Rightarrow> 'w broker \<Rightarrow> execution \<Rightarrow> ('w, outcome) eff" where
  "begin_reservation h b x =
     andthen (attempt (br_begin b (in_idempotencyKey (ex_intent x)) (ex_intent x))) (\<lambda>begun.
     case begun of
       Inl (IdempotencyConflictError key) \<Rightarrow>
         andthen (reject h b (ex_intent x) (ex_now x) (ex_cid x)
           (''idempotency_conflict'', exn_message (IdempotencyConflictError key))) (\<lambda>r. ret (Settled r))
     | Inl e \<Rightarrow> throw e
     | Inr (CachedResult r pending completeAudit) \<Rightarrow>
         andthen (flushPendingTerminalAudit b pending completeAudit) (\<lambda>_. ret (Settled r))
     | Inr (PendingResult p) \<Rightarrow> ret (Later p)
     | Inr (ReservedOps ops) \<Rightarrow>
         andthen (in_frame (execute_reserved h b ops x)) (\<lambda>r. ret (Settled r)))"

text \<open>A gate that rejects, and the rest of the execution.\<close>

definition gate ::
  "host \<Rightarrow> 'w broker \<Rightarrow> execution \<Rightarrow> ('w, (string \<times> string) option) eff \<Rightarrow> ('w, outcome) eff \<Rightarrow>
    ('w, outcome) eff" where
  "gate h b x m rest = andthen m (\<lambda>failure. case failure of
     Some why \<Rightarrow> andthen (reject h b (ex_intent x) (ex_now x) (ex_cid x) why) (\<lambda>r. ret (Settled r))
   | None \<Rightarrow> rest)"

definition execute ::
  "host \<Rightarrow> 'w broker \<Rightarrow> guardrail_approval \<Rightarrow> dry_run_authorization option \<Rightarrow> ('w, outcome) eff" where
  "execute h b ap dry =
     andthen (br_now b) (\<lambda>t.
     let now = iso_string h t in
     case parse_intent h (gp_intent ap) of
       None \<Rightarrow> andthen (reject_as h b (gp_intentId ap) ''invalid-approval-intent'' ''unknown'' now
           (gp_correlationId ap) (''schema_validation'', ''Approval intent is malformed.''))
         (\<lambda>r. ret (Settled r))
     | Some i \<Rightarrow>
         (let x = \<lparr>ex_intent = i, ex_approval = ap, ex_now = now, ex_dryRun = dry\<rparr> in
          gate h b x (ret (decision_failure h (br_config b) ap i now))
          (gate h b x (live_failure b i (gp_correlationId ap))
          (gate h b x (approval_failure h b ap i)
          (begin_reservation h b x)))))"

subsection \<open>dryRun\<close>

definition report_check :: "string \<Rightarrow> bool \<Rightarrow> string \<Rightarrow> preflight_check" where
  "report_check c passed m = (if passed then passed_check c else failed_check c m)"

definition dry_run_report ::
  "guardrail_approval \<Rightarrow> string \<Rightarrow> bool \<Rightarrow> preflight_check list \<Rightarrow> dry_run_authorization option \<Rightarrow>
    dry_run_result" where
  "dry_run_report ap checkedAt passed checks auth =
     \<lparr>dr_intentId = gp_intentId ap, dr_correlationId = gp_correlationId ap, dr_checkedAt = checkedAt,
      dr_passed = passed, dr_requiresHumanApproval = (gp_outcome ap = ''needs_human''),
      dr_checks = checks, dr_authorization = auth\<rparr>"

definition dry_run_event ::
  "'w broker \<Rightarrow> guardrail_approval \<Rightarrow> trading_intent option \<Rightarrow> dry_run_result \<Rightarrow> audit_event" where
  "dry_run_event b ap i r =
     \<lparr>ae_eventId = None, ae_eventType = ''broker.dry_run'',
      ae_environment = bc_environment (br_config b), ae_intentId = map_option in_intentId i,
      ae_principal = map_option in_principal i, ae_correlationId = gp_correlationId ap,
      ae_data = JObj [(''dryRun'', JBool True), (''intentId'', JStr (dr_intentId r)),
        (''correlationId'', JStr (dr_correlationId r)), (''checkedAt'', JStr (dr_checkedAt r)),
        (''passed'', JBool (dr_passed r)),
        (''requiresHumanApproval'', JBool (dr_requiresHumanApproval r)),
        (''checks'', JArr (map preflight_check_json (dr_checks r)))], ae_extra = []\<rparr>"

text \<open>The local \<open>finish\<close> of \<open>dryRun\<close>.\<close>

definition dry_run_finish ::
  "host \<Rightarrow> 'w broker \<Rightarrow> guardrail_approval \<Rightarrow> trading_intent option \<Rightarrow> preflight_check list \<Rightarrow>
    ('w, dry_run_result) eff" where
  "dry_run_finish h b ap i checks =
     andthen (br_now b) (\<lambda>t.
     let checkedAt = iso_string h t;
         passed = all_passed checks;
         fresh = dryRunIsFresh h (gp_decidedAt ap) checkedAt (bc_decisionMaxAgeMs (br_config b));
         checks1 = (if passed \<and> \<not> fresh then checks @ [failed_check ''decision_freshness''
           ''Dry-run decision expired during broker revalidation.''] else checks);
         passed1 = (passed \<and> fresh) in
     andthen (attempt (aw_write (br_audit b)
       (dry_run_event b ap i (dry_run_report ap checkedAt passed1 checks1 None)))) (\<lambda>written.
     let passed2 = (passed1 \<and> written = Inr ());
         checks2 = (case written of Inr _ \<Rightarrow> checks1
           | Inl _ \<Rightarrow> checks1 @ [failed_check ''audit'' ''Dry-run audit could not be written.'']) in
     ret (dry_run_report ap checkedAt passed2 checks2
       (case i of Some j \<Rightarrow> if passed2
            then Some (createDryRunAuthorization h (bc_secret (br_config b)) j checkedAt) else None
        | None \<Rightarrow> None))))"

definition dry_run_decision ::
  "host \<Rightarrow> broker_config \<Rightarrow> guardrail_approval \<Rightarrow> trading_intent option \<Rightarrow> string \<Rightarrow> bool" where
  "dry_run_decision h c ap i now = (case i of None \<Rightarrow> False
     | Some j \<Rightarrow> gp_dryRun ap = Some (JBool True) \<and> gp_intentId ap = in_intentId j \<and>
         (gp_outcome ap = ''allow'' \<or> gp_outcome ap = ''needs_human'') \<and>
         dryRunIsFresh h (gp_decidedAt ap) now (bc_decisionMaxAgeMs c) \<and> decisionTokenMatches h c ap j)"

definition dry_run_environment :: "broker_config \<Rightarrow> trading_intent \<Rightarrow> bool" where
  "dry_run_environment c i \<longleftrightarrow> in_environment i = bc_environment c \<and> bc_environment c \<noteq> Production \<and>
     (bc_environment c \<noteq> CanaryLive \<or> bc_canaryLiveEnabled c)"

definition broken_revalidation :: preflight_check where
  "broken_revalidation = failed_check ''broker_revalidation''
     ''Broker revalidation or kill-switch reachability failed.''"

definition dry_run_revalidation ::
  "host \<Rightarrow> 'w broker \<Rightarrow> trading_intent \<Rightarrow> ('w, preflight_check list) eff" where
  "dry_run_revalidation h b i =
     andthen (attempt (cn_revalidate (br_connector b) i)) (\<lambda>v.
     case v of Inl _ \<Rightarrow> ret [broken_revalidation]
     | Inr (passed, reason) \<Rightarrow>
         (let connector = report_check ''connector'' passed
            (nonEmptyReason h reason ''Connector revalidation failed.'') in
          andthen (attempt (blocking_scope (br_isActive b) i (getKillSwitchScopes i))) (\<lambda>k. ret
          (case k of Inl _ \<Rightarrow> [connector, broken_revalidation]
           | Inr blocked \<Rightarrow> [connector,
               report_check ''late_kill_switch'' (blocked = None) ''Kill switch is active.'']))))"

definition dryRun :: "host \<Rightarrow> 'w broker \<Rightarrow> guardrail_approval \<Rightarrow> ('w, dry_run_result) eff" where
  "dryRun h b ap =
     andthen (br_now b) (\<lambda>t.
     let parsed = parse_intent h (gp_intent ap);
         valid = dry_run_decision h (br_config b) ap parsed (iso_string h t);
         decision = report_check ''decision'' valid
           ''A fresh, authentic dry-run decision is required.'' in
     case parsed of None \<Rightarrow> dry_run_finish h b ap parsed [decision]
     | Some i \<Rightarrow>
         if \<not> valid then dry_run_finish h b ap parsed [decision]
         else (let matches = dry_run_environment (br_config b) i;
             checks = [decision, report_check ''environment'' matches
               ''Broker environment is mismatched or execution is disabled.''] in
           if \<not> matches then dry_run_finish h b ap parsed checks
           else andthen (if bc_environment (br_config b) = CanaryLive
             then br_preflight b i (gp_correlationId ap) else ret (True, [])) (\<lambda>(passed, more).
           if \<not> passed then dry_run_finish h b ap parsed (checks @ more)
           else andthen (dry_run_revalidation h b i) (\<lambda>last.
           dry_run_finish h b ap parsed (checks @ more @ last)))))"

subsection \<open>The paper connector\<close>

definition paper_uuid :: "('w \<Rightarrow> string \<times> 'w) \<Rightarrow> (string \<Rightarrow> evidence) \<Rightarrow> 'w conn_run" where
  "paper_uuid uuid f = CAct (\<lambda>w. snd (uuid w)) (\<lambda>w. CDone (Inr (f (fst (uuid w)))))"

definition no_evidence :: evidence where
  "no_evidence = \<lparr>ev_orderId = None, ev_transactionHash = None, ev_orderStatus = None,
     ev_reconciliation = None, ev_simulationEvidence = None\<rparr>"

definition after_check :: "'w conn_run \<Rightarrow> 'w conn_run" where
  "after_check k = CCheck (\<lambda>e. case e of Some err \<Rightarrow> CDone (Inl err) | None \<Rightarrow> k)"

fun paper_execute :: "('w \<Rightarrow> string \<times> 'w) \<Rightarrow> trading_intent \<Rightarrow> 'w conn_run" where
  "paper_execute uuid (CexOrderIntent e x) = after_check (paper_uuid uuid
     (\<lambda>u. no_evidence\<lparr>ev_orderId := Some (''paper-'' @ take 8 u)\<rparr>))"
| "paper_execute uuid (CexCancelIntent e x) = after_check
     (CDone (Inr (no_evidence\<lparr>ev_orderId := Some (ref_orderId x)\<rparr>)))"
| "paper_execute uuid (OnchainSigningIntent e x) = after_check (paper_uuid uuid
     (\<lambda>u. no_evidence\<lparr>ev_transactionHash :=
       Some (''0xpaper'' @ take 56 (filter (\<lambda>c. c \<noteq> CHR ''-'') u))\<rparr>))"
| "paper_execute uuid i = CDone (Inl (GenericError
     (''Paper connector does not execute '' @ action_name (intent_action i) @ ''.'')))"

definition paper_revalidate :: "trading_intent \<Rightarrow> ('w, bool \<times> string option) eff" where
  "paper_revalidate i =
     (if intent_action i \<in> {PlaceOrder, CancelOrder, RequestSignature} then ret (True, None)
      else ret (False, Some (''Paper connector does not execute '' @ action_name (intent_action i) @ ''.'')))"

definition paper_connector :: "('w \<Rightarrow> string \<times> 'w) \<Rightarrow> 'w connector" where
  "paper_connector uuid = \<lparr>cn_execute = paper_execute uuid, cn_revalidate = paper_revalidate\<rparr>"

end
