(* ===== verification/BrokerSamples.thy ===== *)
theory BrokerSamples
  imports Broker
begin

text \<open>
  Concrete values at which the theorems on the broker are applied: a host that prints numbers
  injectively, a decision with its token, and a broker whose collaborators do nothing. Nothing here
  models code.
\<close>

subsection \<open>A number format\<close>

definition ones :: "int \<Rightarrow> string" where
  "ones n = replicate (nat n) CHR ''1''"

text \<open>Numerator and denominator in unary.\<close>

fun unary_number :: "jsnum \<Rightarrow> string" where
  "unary_number (Fin x) = (case quotient_of x of (p, q) \<Rightarrow> ones (- p) @ ''-'' @ ones p @ ''.'' @ ones q)"
| "unary_number _ = ''0''"

lemma ones_split: "c \<noteq> CHR ''1'' \<Longrightarrow> ones m @ c # r = ones n @ c # s \<Longrightarrow> nat m = nat n \<and> r = s"
proof -
  assume c: "c \<noteq> CHR ''1''" and eq: "ones m @ c # r = ones n @ c # s"
  have "length (takeWhile (\<lambda>x. x = CHR ''1'') (ones k @ c # t)) = nat k" for k t
    using c by (subst takeWhile_append2) (auto simp: ones_def)
  with eq have "nat m = nat n" by metis
  with eq show ?thesis by (simp add: ones_def)
qed

lemma unary_inj: "unary_number (Fin x) = unary_number (Fin y) \<Longrightarrow> x = y"
proof -
  assume eq: "unary_number (Fin x) = unary_number (Fin y)"
  obtain p q p' q' where qs: "quotient_of x = (p, q)" "quotient_of y = (p', q')" by (meson surj_pair)
  have first: "nat (- p) = nat (- p')" "ones p @ CHR ''.'' # ones q = ones p' @ CHR ''.'' # ones q'"
    using ones_split [of "CHR ''-''" "- p" _ "- p'"] eq by (auto simp: qs)
  have second: "nat p = nat p'" "ones q = ones q'"
    using ones_split [OF _ first(2)] by auto
  have "nat q = nat q'"
    using arg_cong [OF second(2), of length] by (simp add: ones_def)
  with second(1) first(1) quotient_of_denom_pos [OF qs(1)] quotient_of_denom_pos [OF qs(2)]
  have "p = p'" "q = q'" by linarith+
  then have "quotient_of x = quotient_of y" using qs by simp
  then show "x = y" by (metis quotient_of_inject)
qed

lemma unary_number_format: "number_format unary_number"
proof -
  have "unary_number x \<noteq> [] \<and> set (unary_number x) \<subseteq> number_chars" if "is_finite x" for x
    using that by (cases x) (auto simp: number_chars_def ones_def split: prod.splits)
  moreover have "x = y" if "is_finite x" "is_finite y" "unary_number x = unary_number y" for x y
    using that unary_inj by (cases x; cases y) (auto simp del: unary_number.simps)
  ultimately show ?thesis unfolding number_format_def by blast
qed

subsection \<open>A host, a decision and a broker\<close>

definition digit_host :: host where
  "digit_host = hex_host\<lparr>number_to_string := unary_number\<rparr>"

lemma digit_host_simps [simp]:
  "sha256_hex digit_host s = replicate 64 CHR ''a''"
  "hmac_sha256_hex digit_host k m = replicate 64 CHR ''b''"
  "date_parse digit_host = date_parse sample_host" "iso_string digit_host = sample_date"
  "is_uuid digit_host s" "is_datetime digit_host s" "redact_secrets digit_host s = s"
  "number_to_string digit_host = unary_number"
  by (simp_all add: digit_host_def)

lemma digit_host_intents [simp]:
  "intent_ok digit_host sample_intent" "intent_ok digit_host sample_cancel"
  by (simp_all add: envelope_ok_def sample_envelope_def max_evidence_items_def cex_order_ok_def
      sample_order_def positive_def nonnegative_def cex_ref_ok_def sample_ref_def)

definition sample_decision :: "trading_intent \<Rightarrow> guardrail_approval" where
  "sample_decision i =
     \<lparr>gp_intentId = in_intentId i, gp_correlationId = ''c1'', gp_outcome = ''allow'',
      gp_intent = intent_json i, gp_decidedAt = sample_date 1,
      gp_decisionToken = replicate 64 CHR ''b'', gp_approvalId = None, gp_dryRun = None\<rparr>"

definition sample_config :: broker_config where
  "sample_config =
     \<lparr>bc_environment = Testnet, bc_canaryLiveEnabled = False, bc_secret = replicate 32 CHR ''s'',
      bc_decisionMaxAgeMs = None, bc_vaultAddr = None\<rparr>"

definition silent_ops :: "'w reserved_ops" where
  "silent_ops = \<lparr>ro_complete = (\<lambda>r a. ret ()), ro_completeAudit = ret (), ro_failAudit = (\<lambda>e. ret ()),
     ro_abort = (\<lambda>e. ret ())\<rparr>"

definition sample_broker :: "'w broker" where
  "sample_broker =
     \<lparr>br_config = sample_config, br_now = ret 2,
      br_connector = paper_connector (\<lambda>w. (''12345678'', w)), br_isActive = (\<lambda>sc. ret (JBool False)),
      br_audit = \<lparr>aw_write = (\<lambda>e. ret ()), aw_checkHealth = None\<rparr>,
      br_begin = (\<lambda>k i. ret (ReservedOps silent_ops)),
      br_approvals = \<lparr>as_get = (\<lambda>k. ret None), as_list = ret [], as_consume = (\<lambda>k. ret None)\<rparr>,
      br_live = None\<rparr>"

lemma token_lower [simp]:
  "to_lower (replicate 64 CHR ''b'') = replicate 64 CHR ''b''" "hex64 (replicate 64 CHR ''b'')"
  by (simp_all add: hex64_def list_all_iff to_lower_def lower_char_def is_hex_def is_lower_hex_def)

lemma sample_token: "decisionTokenMatches digit_host sample_config (sample_decision i) i"
  by (simp add: decisionTokenMatches_def sample_decision_def createGuardrailDecisionToken_def)

end
