(* ===== verification/BrokerTrace.thy ===== *)
theory BrokerTrace
  imports BrokerSamples
begin

text \<open>
  A broker that leaves a trace: \<open>traced b\<close> is \<open>b\<close> with every call of a collaborator recorded beside
  the world, and erasing the trace gives back the execution of \<open>b\<close>. On traces the order of the
  calls can be stated: which checks come before the connector is called, and what becomes of a
  reservation.
\<close>

declare ret_run [simp del] throw_run [simp del]

subsection \<open>Events\<close>

datatype event =
    EvNow int
  | EvSwitch scope bool
  | EvWrite audit_event bool
  | EvAuditHealth bool
  | EvLive bool
  | EvStoreHealth bool
  | EvList "approval_request list"
  | EvGet string "approval_request option"
  | EvConsume string bool
  | EvBegin string trading_intent bool
  | EvRevalidate trading_intent bool
  | EvCall trading_intent
  | EvAct
  | EvComplete exec_result bool
  | EvAbort bool
  | EvCompleteAudit
  | EvFailAudit
  | EvFlushed

text \<open>Recording what a computation did, from its outcome.\<close>

definition noting :: "(exn + 'a \<Rightarrow> event list) \<Rightarrow> ('w, 'a) eff \<Rightarrow> ('w \<times> event list, 'a) eff" where
  "noting f m = (\<lambda>(w, tr). case m w of (r, w') \<Rightarrow> (r, (w', tr @ f r)))"

definition succeeded :: "exn + 'a \<Rightarrow> bool" where
  "succeeded r \<longleftrightarrow> (case r of Inl e \<Rightarrow> False | Inr x \<Rightarrow> True)"

definition traced_ops :: "'w reserved_ops \<Rightarrow> ('w \<times> event list) reserved_ops" where
  "traced_ops ops =
     \<lparr>ro_complete = (\<lambda>r a. noting (\<lambda>x. [EvComplete r (succeeded x)]) (ro_complete ops r a)),
      ro_completeAudit = noting (\<lambda>x. [EvCompleteAudit]) (ro_completeAudit ops),
      ro_failAudit = (\<lambda>e. noting (\<lambda>x. [EvFailAudit]) (ro_failAudit ops e)),
      ro_abort = (\<lambda>e. noting (\<lambda>x. [EvAbort (succeeded x)]) (ro_abort ops e))\<rparr>"

fun traced_reservation :: "'w reservation \<Rightarrow> ('w \<times> event list) reservation" where
  "traced_reservation (ReservedOps ops) = ReservedOps (traced_ops ops)"
| "traced_reservation (CachedResult r a m) = CachedResult r a (noting (\<lambda>x. [EvFlushed]) m)"
| "traced_reservation (PendingResult p) = PendingResult p"

definition is_reserved :: "'w reservation \<Rightarrow> bool" where
  "is_reserved r \<longleftrightarrow> (case r of ReservedOps ops \<Rightarrow> True | _ \<Rightarrow> False)"

definition traced_begin ::
  "'w broker \<Rightarrow> string \<Rightarrow> trading_intent \<Rightarrow> ('w \<times> event list, ('w \<times> event list) reservation) eff" where
  "traced_begin b k i = (\<lambda>(w, tr). case br_begin b k i w of
     (Inl e, w') \<Rightarrow> (Inl e, (w', tr @ [EvBegin k i False]))
   | (Inr r, w') \<Rightarrow> (Inr (traced_reservation r), (w', tr @ [EvBegin k i (is_reserved r)])))"

primrec traced_run :: "'w conn_run \<Rightarrow> ('w \<times> event list) conn_run" where
  "traced_run (CDone r) = CDone r"
| "traced_run (CAct f k) =
     CAct (\<lambda>(w, tr). (f w, tr @ [EvAct])) (\<lambda>s. traced_run (k (fst s)))"
| "traced_run (CCheck k) = CCheck (\<lambda>e. traced_run (k e))"

definition traced :: "'w broker \<Rightarrow> ('w \<times> event list) broker" where
  "traced b =
     \<lparr>br_config = br_config b,
      br_now = noting (\<lambda>r. case r of Inr t \<Rightarrow> [EvNow t] | Inl e \<Rightarrow> []) (br_now b),
      br_connector =
        \<lparr>cn_execute = (\<lambda>i. CAct (\<lambda>(w, tr). (w, tr @ [EvCall i]))
           (\<lambda>s. traced_run (cn_execute (br_connector b) i))),
         cn_revalidate = (\<lambda>i. noting (\<lambda>r. case r of Inr (passed, m) \<Rightarrow> [EvRevalidate i passed] | Inl e \<Rightarrow> [])
           (cn_revalidate (br_connector b) i))\<rparr>,
      br_isActive = (\<lambda>sc. noting (\<lambda>r. case r of Inr (JBool a) \<Rightarrow> [EvSwitch sc a] | _ \<Rightarrow> []) (br_isActive b sc)),
      br_audit =
        \<lparr>aw_write = (\<lambda>e. noting (\<lambda>r. [EvWrite e (succeeded r)]) (aw_write (br_audit b) e)),
         aw_checkHealth = map_option (noting (\<lambda>r. [EvAuditHealth (succeeded r)])) (aw_checkHealth (br_audit b))\<rparr>,
      br_begin = traced_begin b,
      br_approvals =
        \<lparr>as_get = (\<lambda>k. noting (\<lambda>r. case r of Inr x \<Rightarrow> [EvGet k x] | Inl e \<Rightarrow> []) (as_get (br_approvals b) k)),
         as_list = noting (\<lambda>r. case r of Inr xs \<Rightarrow> [EvList xs] | Inl e \<Rightarrow> []) (as_list (br_approvals b)),
         as_consume = (\<lambda>k. noting (\<lambda>r. case r of Inr x \<Rightarrow> [EvConsume k (x \<noteq> None)] | Inl e \<Rightarrow> [])
           (as_consume (br_approvals b) k))\<rparr>,
      br_live = map_option (\<lambda>l.
        \<lparr>ls_liveConfigured = map_option (noting (\<lambda>r. [EvLive (r = Inr (JBool True))])) (ls_liveConfigured l),
         ls_checkHealth = map_option (noting (\<lambda>r. [EvStoreHealth (succeeded r)])) (ls_checkHealth l)\<rparr>) (br_live b)\<rparr>"

text \<open>The members of the traced broker, without looking into how they are recorded.\<close>

lemma traced_config [simp]: "br_config (traced b) = br_config b"
  by (simp add: traced_def)

lemma canary_order_traced [simp]: "canary_order (traced b) x = canary_order b x"
  by (simp add: canary_order_def)

subsection \<open>Erasing the trace\<close>

text \<open>Two computations on related states that return the same, or throw the same, in related states.\<close>

definition follows :: "('t \<Rightarrow> 's \<Rightarrow> bool) \<Rightarrow> ('t, 'a) eff \<Rightarrow> ('s, 'a) eff \<Rightarrow> bool" where
  "follows R m n \<longleftrightarrow> (\<forall>t s. R t s \<longrightarrow> fst (m t) = fst (n s) \<and> R (snd (m t)) (snd (n s)))"

named_theorems follows_rules \<open>computations that follow each other\<close>

lemma followsE:
  assumes "follows R m n" "R t s"
  obtains r t' s' where "m t = (r, t')" "n s = (r, s')" "R t' s'"
  using assms by (cases "m t"; cases "n s") (fastforce simp: follows_def)

lemma follows_basic [follows_rules]:
  "follows R (ret x) (ret x)" "follows R (throw e) (throw e)"
  by (simp_all add: follows_def ret_def throw_def)

lemma follows_andthen [follows_rules]:
  assumes "follows R m n" "\<And>x. follows R (f x) (g x)"
  shows "follows R (andthen m f) (andthen n g)"
  unfolding follows_def
proof (intro allI impI)
  fix t s assume "R t s"
  from followsE [OF assms(1) this] obtain r t' s' where "m t = (r, t')" "n s = (r, s')" "R t' s'" .
  then show "fst (andthen m f t) = fst (andthen n g s) \<and> R (snd (andthen m f t)) (snd (andthen n g s))"
    using assms(2) by (cases r) (auto simp: andthen_def follows_def)
qed

lemma follows_try_catch [follows_rules]:
  assumes "follows R m n" "\<And>e. follows R (f e) (g e)"
  shows "follows R (try_catch m f) (try_catch n g)"
  unfolding follows_def
proof (intro allI impI)
  fix t s assume "R t s"
  from followsE [OF assms(1) this] obtain r t' s' where "m t = (r, t')" "n s = (r, s')" "R t' s'" .
  then show "fst (try_catch m f t) = fst (try_catch n g s) \<and>
      R (snd (try_catch m f t)) (snd (try_catch n g s))"
    using assms(2) by (cases r) (auto simp: try_catch_def follows_def)
qed

lemma follows_attempt [follows_rules]: "follows R m n \<Longrightarrow> follows R (attempt m) (attempt n)"
  by (fastforce simp: follows_def attempt_def split: prod.splits)

lemma follows_if [follows_rules]:
  "(b \<Longrightarrow> follows R m n) \<Longrightarrow> (\<not> b \<Longrightarrow> follows R m' n') \<Longrightarrow>
   follows R (if b then m else m') (if b then n else n')"
  by simp

lemma follows_option [follows_rules]:
  "(x = None \<Longrightarrow> follows R m n) \<Longrightarrow> (\<And>y. x = Some y \<Longrightarrow> follows R (f y) (g y)) \<Longrightarrow>
   follows R (case x of None \<Rightarrow> m | Some y \<Rightarrow> f y) (case x of None \<Rightarrow> n | Some y \<Rightarrow> g y)"
  by (cases x) auto

lemma follows_sum [follows_rules]:
  "(\<And>y. x = Inl y \<Longrightarrow> follows R (f y) (g y)) \<Longrightarrow> (\<And>y. x = Inr y \<Longrightarrow> follows R (f' y) (g' y)) \<Longrightarrow>
   follows R (case x of Inl y \<Rightarrow> f y | Inr y \<Rightarrow> f' y) (case x of Inl y \<Rightarrow> g y | Inr y \<Rightarrow> g' y)"
  by (cases x) auto

lemma follows_pair [follows_rules]:
  "(\<And>y z. x = (y, z) \<Longrightarrow> follows R (f y z) (g y z)) \<Longrightarrow>
   follows R (case x of (y, z) \<Rightarrow> f y z) (case x of (y, z) \<Rightarrow> g y z)"
  by (cases x) auto

lemma follows_for_each [follows_rules]:
  "(\<And>x. follows R (f x) (g x)) \<Longrightarrow> follows R (for_each f xs) (for_each g xs)"
  by (induction xs) (auto intro!: follows_rules)

lemma follows_find_effect [follows_rules]:
  "(\<And>x. follows R (f x) (g x)) \<Longrightarrow> follows R (find_effect f xs) (find_effect g xs)"
  by (induction xs) (auto intro!: follows_rules)

text \<open>Forgetting the trace, beside the world and below the flags of an execution.\<close>

definition forget :: "'w \<times> event list \<Rightarrow> 'w \<Rightarrow> bool" where
  "forget t w \<longleftrightarrow> fst t = w"

definition forget_frame :: "('w \<times> event list) frame \<Rightarrow> 'w frame \<Rightarrow> bool" where
  "forget_frame t s \<longleftrightarrow> fst t = fst s \<and> forget (snd t) (snd s)"

lemma follows_noting [follows_rules]: "follows forget (noting f m) m"
  by (auto simp: follows_def forget_def noting_def split: prod.split)

lemma follows_on_world [follows_rules]:
  "follows forget m n \<Longrightarrow> follows forget_frame (on_world m) (on_world n)"
  by (fastforce simp: follows_def forget_frame_def on_world_def split: prod.splits)

lemma follows_flags [follows_rules]:
  "follows forget_frame mark_completed mark_completed" "follows forget_frame mark_persisting mark_persisting"
  "follows forget_frame (read_state fst) (read_state fst)"
  by (auto simp: follows_def forget_frame_def mark_completed_def mark_persisting_def modify_state_def
      read_state_def)

lemma follows_in_frame [follows_rules]:
  assumes "follows forget_frame m n"
  shows "follows forget (in_frame m) (in_frame n)"
  unfolding follows_def
proof (intro allI impI)
  fix t :: "'a \<times> event list" and w :: 'a
  let ?fl = "\<lparr>fl_completed = False, fl_persisting = False\<rparr>"
  assume "forget t w"
  then have "forget_frame (?fl, t) (?fl, w)" by (simp add: forget_frame_def)
  from followsE [OF assms this] obtain r t' s' where
    "m (?fl, t) = (r, t')" "n (?fl, w) = (r, s')" "forget_frame t' s'" .
  then show "fst (in_frame m t) = fst (in_frame n w) \<and> forget (snd (in_frame m t)) (snd (in_frame n w))"
    by (cases t'; cases s') (simp add: in_frame_def forget_frame_def)
qed

lemma follows_run_conn [follows_rules]:
  assumes "follows forget m n"
  shows "follows forget (run_conn m (traced_run c)) (run_conn n c)"
proof (induction c)
  case (CAct f k)
  then show ?case by (auto simp: follows_def forget_def split: prod.splits)
next
  case (CCheck k)
  show ?case
    unfolding follows_def
  proof (intro allI impI)
    fix t :: "'a \<times> event list" and w :: 'a
    assume "forget t w"
    from followsE [OF assms this] obtain r t' w' where run: "m t = (r, t')" "n w = (r, w')" "forget t' w'" .
    have IH: "fst (run_conn m (traced_run (k e)) t') = fst (run_conn n (k e) w') \<and>
        forget (snd (run_conn m (traced_run (k e)) t')) (snd (run_conn n (k e) w'))" for e
      using CCheck [of "k e"] run(3) unfolding follows_def by blast
    then show "fst (run_conn m (traced_run (CCheck k)) t) = fst (run_conn n (CCheck k) w) \<and>
        forget (snd (run_conn m (traced_run (CCheck k)) t)) (snd (run_conn n (CCheck k) w))"
      by (cases r) (simp_all add: run)
  qed
qed (simp add: follows_def forget_def)

lemma follows_collaborators [follows_rules]:
  "follows forget (br_now (traced b)) (br_now b)"
  "follows forget (br_isActive (traced b) sc) (br_isActive b sc)"
  "follows forget (aw_write (br_audit (traced b)) e) (aw_write (br_audit b) e)"
  "follows forget (as_get (br_approvals (traced b)) k) (as_get (br_approvals b) k)"
  "follows forget (as_list (br_approvals (traced b))) (as_list (br_approvals b))"
  "follows forget (as_consume (br_approvals (traced b)) k) (as_consume (br_approvals b) k)"
  "follows forget (cn_revalidate (br_connector (traced b)) i) (cn_revalidate (br_connector b) i)"
  by (simp_all add: traced_def follows_noting)

lemma follows_ops [follows_rules]:
  "follows forget (ro_complete (traced_ops ops) r a) (ro_complete ops r a)"
  "follows forget (ro_completeAudit (traced_ops ops)) (ro_completeAudit ops)"
  "follows forget (ro_failAudit (traced_ops ops) e) (ro_failAudit ops e)"
  "follows forget (ro_abort (traced_ops ops) e) (ro_abort ops e)"
  by (simp_all add: traced_ops_def follows_noting)

lemma follows_execute_connector [follows_rules]:
  assumes "follows forget m n"
  shows "follows forget (run_conn m (cn_execute (br_connector (traced b)) i))
    (run_conn n (cn_execute (br_connector b) i))"
  using follows_run_conn [OF assms, of "cn_execute (br_connector b) i"]
  by (auto simp: traced_def follows_def forget_def)

lemma follows_reading [follows_rules]:
  "(\<And>sc. follows R (f sc) (g sc)) \<Longrightarrow>
   follows R (readKillSwitchBlocking f sc i) (readKillSwitchBlocking g sc i)"
  unfolding readKillSwitchBlocking_def
  by (rule follows_andthen, rule follows_try_catch, assumption, rule follows_basic)
    (auto split: jsval.split intro: follows_basic)

lemma follows_blocking_scope [follows_rules]:
  "(\<And>sc. follows R (f sc) (g sc)) \<Longrightarrow> follows R (blocking_scope f i scs) (blocking_scope g i scs)"
  unfolding blocking_scope_def by (intro follows_rules)

lemma follows_health:
  "follows forget (case map_option (noting e) x of None \<Rightarrow> ret c | Some m \<Rightarrow> f m)
     (case x of None \<Rightarrow> ret c | Some m \<Rightarrow> g m)"
  if "\<And>m. follows forget (f (noting e m)) (g m)"
  by (cases x) (auto intro: follows_rules that)

lemma traced_health:
  "aw_checkHealth (br_audit (traced b)) =
     map_option (noting (\<lambda>r. [EvAuditHealth (succeeded r)])) (aw_checkHealth (br_audit b))"
  "Option.bind (br_live (traced b)) ls_checkHealth =
     map_option (noting (\<lambda>r. [EvStoreHealth (succeeded r)])) (Option.bind (br_live b) ls_checkHealth)"
  "Option.bind (br_live (traced b)) ls_liveConfigured =
     map_option (noting (\<lambda>r. [EvLive (r = Inr (JBool True))])) (Option.bind (br_live b) ls_liveConfigured)"
  by (cases "br_live b"; simp add: traced_def)+

lemma follows_preflight [follows_rules]:
  "follows forget (br_preflight (traced b) i cid) (br_preflight b i cid)"
  unfolding br_preflight_def run_preflight_def checkKillSwitch_def checkAudit_def checkApproval_def
    writeSummary_def Let_def preflight_params.simps traced_config traced_health
  by (intro follows_rules follows_health)

lemma follows_reject [follows_rules]:
  "follows forget (reject h (traced b) i now cid why) (reject h b i now cid why)"
  unfolding reject_def reject_as_def Let_def traced_config by (intro follows_rules)

lemma follows_reject_as [follows_rules]:
  "follows forget (reject_as h (traced b) iid key p now cid why) (reject_as h b iid key p now cid why)"
  unfolding reject_as_def Let_def traced_config by (intro follows_rules)

lemma follows_live_failure [follows_rules]:
  "follows forget (live_failure (traced b) i cid) (live_failure b i cid)"
  unfolding live_failure_def traced_config by (intro follows_rules)

lemma follows_approval_failure [follows_rules]:
  "follows forget (approval_failure h (traced b) ap i) (approval_failure h b ap i)"
  unfolding approval_failure_def findApprovalForIntent_def by (intro follows_rules)

lemma follows_finish [follows_rules]:
  "follows forget_frame (finish (traced_ops ops) r) (finish ops r)"
  unfolding finish_def by (intro follows_rules)

lemma follows_reject_finish [follows_rules]:
  "follows forget_frame (reject_finish h (traced b) (traced_ops ops) i now cid why) (reject_finish h b ops i now cid why)"
  unfolding reject_finish_def by (intro follows_rules)

lemma follows_reject_abort [follows_rules]:
  "follows forget_frame (reject_abort h (traced b) (traced_ops ops) i now cid why) (reject_abort h b ops i now cid why)"
  unfolding reject_abort_def by (intro follows_rules)

lemma follows_guarded [follows_rules]:
  "follows forget_frame m n \<Longrightarrow> follows forget_frame (guarded (traced_ops ops) m) (guarded ops n)"
  unfolding guarded_def by (intro follows_rules)

lemma follows_check_approved [follows_rules]:
  "follows forget_frame (check_approved h (traced b) (traced_ops ops) x r) (check_approved h b ops x r)"
proof (cases r)
  case (Some y)
  then show ?thesis
    by (cases "ar_state y") (simp_all add: check_approved_def Let_def follows_rules)
qed (simp add: check_approved_def follows_rules)

lemma follows_approval_checks [follows_rules]:
  "follows forget_frame (approval_checks h (traced b) (traced_ops ops) x) (approval_checks h b ops x)"
  unfolding approval_checks_def canary_order_traced traced_config by (intro follows_rules)

lemma follows_kill_switch_stop [follows_rules]:
  "follows forget_frame (kill_switch_stop h (traced b) (traced_ops ops) x) (kill_switch_stop h b ops x)"
  unfolding kill_switch_stop_def intent_event_def traced_config by (intro follows_rules)

lemma follows_revalidation_stop [follows_rules]:
  "follows forget_frame (revalidation_stop h (traced b) (traced_ops ops) x) (revalidation_stop h b ops x)"
  unfolding revalidation_stop_def intent_event_def traced_config Let_def by (intro follows_rules)

lemma follows_still_fresh [follows_rules]:
  "follows forget (dry_run_still_fresh h (traced b) x) (dry_run_still_fresh h b x)"
  unfolding dry_run_still_fresh_def canary_order_traced traced_config by (intro follows_rules)

lemma follows_late_dry_run_stop [follows_rules]:
  "follows forget_frame (late_dry_run_stop h (traced b) (traced_ops ops) x) (late_dry_run_stop h b ops x)"
  unfolding late_dry_run_stop_def by (intro follows_rules)

lemma follows_consume_stop [follows_rules]:
  "follows forget_frame (consume_stop h (traced b) (traced_ops ops) x) (consume_stop h b ops x)"
  unfolding consume_stop_def by (intro follows_rules)

lemma follows_before_side_effect [follows_rules]:
  "follows forget (before_side_effect h (traced b) x) (before_side_effect h b x)"
  unfolding before_side_effect_def assertKillSwitchAllowsExecution_def intent_event_def traced_config by (intro follows_rules)

lemma terminal_traced [simp]: "terminal h (traced b) x c = terminal h b x c"
  by (simp add: terminal_def call_failed_def evidence_failed_def executed_event_def terminal_event_def
      intent_event_def Let_def split: sum.split)

lemma follows_finish_audit [follows_rules]:
  "follows forget_frame (finishExecutionWithAudit (traced b) (traced_ops ops) t) (finishExecutionWithAudit b ops t)"
  unfolding finishExecutionWithAudit_def by (intro follows_rules)

lemma follows_unless_settled [follows_rules]:
  "follows R m n \<Longrightarrow> follows R m' n' \<Longrightarrow> follows R (unless_settled m m') (unless_settled n n')"
  unfolding unless_settled_def by (intro follows_rules)

lemma follows_call_connector [follows_rules]:
  "follows forget_frame (call_connector h (traced b) (traced_ops ops) x) (call_connector h b ops x)"
  unfolding call_connector_def terminal_traced by (intro follows_rules)

lemma follows_perform_execution [follows_rules]:
  "follows forget_frame (perform_execution h (traced b) (traced_ops ops) x) (perform_execution h b ops x)"
  unfolding perform_execution_def by (intro follows_rules)

lemma follows_execute_reserved [follows_rules]:
  "follows forget_frame (execute_reserved h (traced b) (traced_ops ops) x) (execute_reserved h b ops x)"
  unfolding execute_reserved_def by (intro follows_rules)

lemma follows_gate [follows_rules]:
  "follows forget m n \<Longrightarrow> follows forget m' n' \<Longrightarrow> follows forget (gate h (traced b) x m m') (gate h b x n n')"
  unfolding gate_def by (intro follows_rules)

lemma follows_flush [follows_rules]:
  "follows forget (flushPendingTerminalAudit (traced b) a (noting f m)) (flushPendingTerminalAudit b a m)"
  unfolding flushPendingTerminalAudit_def by (intro follows_rules)

text \<open>The reservations of the two brokers are made for different worlds; the rest is the same.\<close>

lemma begin_reservation_cases:
  "begin_reservation h b x w = (case br_begin b (in_idempotencyKey (ex_intent x)) (ex_intent x) w of
     (Inl e, w') \<Rightarrow> (case e of
         IdempotencyConflictError key \<Rightarrow> andthen (reject h b (ex_intent x) (ex_now x) (ex_cid x)
           (''idempotency_conflict'', exn_message (IdempotencyConflictError key))) (\<lambda>r. ret (Settled r)) w'
       | _ \<Rightarrow> throw e w')
   | (Inr (CachedResult r pending completeAudit), w') \<Rightarrow>
       andthen (flushPendingTerminalAudit b pending completeAudit) (\<lambda>_. ret (Settled r)) w'
   | (Inr (PendingResult p), w') \<Rightarrow> ret (Later p) w'
   | (Inr (ReservedOps ops), w') \<Rightarrow>
       andthen (in_frame (execute_reserved h b ops x)) (\<lambda>r. ret (Settled r)) w')"
  by (auto simp: begin_reservation_def andthen_def attempt_def split: prod.split sum.split exn.split
      reservation.split)

lemma follows_begin_reservation [follows_rules]:
  "follows forget (begin_reservation h (traced b) x) (begin_reservation h b x)"
proof -
  have same: "fst (m t) = fst (n w) \<and> forget (snd (m t)) (snd (n w))"
    if "follows forget m n" "forget t w" for m n t and w :: 'a
    using that unfolding follows_def by blast
  show ?thesis
    unfolding follows_def
  proof (intro allI impI)
    fix t :: "'a \<times> event list" and w :: 'a
    assume "forget t w"
    then obtain tr where t: "t = (w, tr)" by (cases t) (simp add: forget_def)
    let ?i = "ex_intent x"
    have begin_traced: "br_begin (traced b) k i = traced_begin b k i" for k i by (simp add: traced_def)
    obtain r w' where run: "br_begin b (in_idempotencyKey ?i) ?i w = (r, w')" by (meson surj_pair)
    have "forget (w', tr') w'" for tr' by (simp add: forget_def)
    note rule = same [OF _ this]
    show "fst (begin_reservation h (traced b) x t) = fst (begin_reservation h b x w) \<and>
        forget (snd (begin_reservation h (traced b) x t)) (snd (begin_reservation h b x w))"
    proof (cases r)
      case (Inl e)
      then show ?thesis
        unfolding begin_reservation_cases t begin_traced traced_begin_def
        by (cases e) (auto simp: run intro!: rule follows_rules)
    next
      case (Inr res)
      then show ?thesis
        unfolding begin_reservation_cases t begin_traced traced_begin_def
        by (cases res) (auto simp: run intro!: rule follows_rules)
    qed
  qed
qed

lemma follows_execute: "follows forget (execute h (traced b) ap dry) (execute h b ap dry)"
  unfolding execute_def Let_def traced_config by (intro follows_rules)

text \<open>Recording does not change an execution: the traced broker returns or throws exactly what the
  broker does and leaves the same world, so what is proved of the traces of \<open>traced b\<close> holds of the
  calls that \<open>b\<close> makes.\<close>

theorem traced_execution_same:
  "map_prod id fst (execute h (traced b) ap dry (w, tr)) = execute h b ap dry w"
  using follows_execute [of h b ap dry]
  by (auto simp: follows_def forget_def prod_eq_iff map_prod_def split_beta)

end
