(* ===== verification/ExecutionProtocol.thy ===== *)
theory ExecutionProtocol
  imports BrokerTrace
begin

text \<open>
  What the trace of an execution looks like: a reservation that was granted is completed or given
  back exactly once, whatever fails on the way, and the connector is called only after every gate,
  on the side of the decision, the approval, the dry run and the kill switch, has let the execution
  pass.
\<close>

declare ret_run [simp del] throw_run [simp del]

subsection \<open>Events that computations add\<close>

definition adds :: "('s \<Rightarrow> event list) \<Rightarrow> event set \<Rightarrow> ('s, 'a) eff \<Rightarrow> bool" where
  "adds g S m \<longleftrightarrow> (\<forall>s. \<exists>evs. g (snd (m s)) = g s @ evs \<and> set evs \<subseteq> S)"

named_theorems adds_rules \<open>events that computations add\<close>

lemma addsE:
  assumes "adds g S m" "m s = (r, t)"
  obtains evs where "g t = g s @ evs" "set evs \<subseteq> S"
  using assms by (metis adds_def snd_conv)

lemma addsI: "(\<And>s r t. m s = (r, t) \<Longrightarrow> \<exists>evs. g t = g s @ evs \<and> set evs \<subseteq> S) \<Longrightarrow> adds g S m"
  unfolding adds_def by (metis surjective_pairing)

lemma adds_mono: "adds g S m \<Longrightarrow> S \<subseteq> T \<Longrightarrow> adds g T m"
  unfolding adds_def by (meson order_trans)

lemma adds_basic [adds_rules]: "adds g S (ret x)" "adds g S (throw e)" "adds g S (read_state f)"
  by (auto simp: adds_def ret_def throw_def read_state_def)

lemma adds_andthen [adds_rules]:
  assumes "adds g S m" "\<And>x. adds g S (f x)"
  shows "adds g S (andthen m f)"
proof (rule addsI)
  fix s r t assume run: "andthen m f s = (r, t)"
  obtain v u where m: "m s = (v, u)" by (meson surj_pair)
  obtain evs where evs: "g u = g s @ evs" "set evs \<subseteq> S" by (rule addsE [OF assms(1) m])
  show "\<exists>evs. g t = g s @ evs \<and> set evs \<subseteq> S"
  proof (cases v)
    case (Inl e)
    then show ?thesis using run m evs by (auto simp: andthen_def)
  next
    case (Inr x)
    then have "f x u = (r, t)" using run m by (simp add: andthen_def)
    from addsE [OF assms(2) this] obtain more where "g t = g u @ more" "set more \<subseteq> S" .
    then show ?thesis using evs by auto
  qed
qed

lemma adds_try_catch [adds_rules]:
  assumes "adds g S m" "\<And>e. adds g S (f e)"
  shows "adds g S (try_catch m f)"
proof (rule addsI)
  fix s r t assume run: "try_catch m f s = (r, t)"
  obtain v u where m: "m s = (v, u)" by (meson surj_pair)
  obtain evs where evs: "g u = g s @ evs" "set evs \<subseteq> S" by (rule addsE [OF assms(1) m])
  show "\<exists>evs. g t = g s @ evs \<and> set evs \<subseteq> S"
  proof (cases v)
    case (Inr e)
    then show ?thesis using run m evs by (auto simp: try_catch_def)
  next
    case (Inl e)
    then have "f e u = (r, t)" using run m by (simp add: try_catch_def)
    from addsE [OF assms(2) this] obtain more where "g t = g u @ more" "set more \<subseteq> S" .
    then show ?thesis using evs by auto
  qed
qed

lemma adds_attempt [adds_rules]: "adds g S m \<Longrightarrow> adds g S (attempt m)"
  by (auto simp: adds_def attempt_def split_beta)

lemma adds_if [adds_rules]:
  "(b \<Longrightarrow> adds g S m) \<Longrightarrow> (\<not> b \<Longrightarrow> adds g S n) \<Longrightarrow> adds g S (if b then m else n)"
  by simp

lemma adds_option [adds_rules]:
  "(x = None \<Longrightarrow> adds g S m) \<Longrightarrow> (\<And>y. x = Some y \<Longrightarrow> adds g S (f y)) \<Longrightarrow>
   adds g S (case x of None \<Rightarrow> m | Some y \<Rightarrow> f y)"
  by (cases x) auto

lemma adds_pair [adds_rules]:
  "(\<And>y z. x = (y, z) \<Longrightarrow> adds g S (f y z)) \<Longrightarrow> adds g S (case x of (y, z) \<Rightarrow> f y z)"
  by (cases x) auto

lemma adds_for_each [adds_rules]: "(\<And>x. adds g S (f x)) \<Longrightarrow> adds g S (for_each f xs)"
  by (induction xs) (auto intro!: adds_rules)

lemma adds_find_effect [adds_rules]: "(\<And>x. adds g S (f x)) \<Longrightarrow> adds g S (find_effect f xs)"
  by (induction xs) (auto intro!: adds_rules)

lemma adds_noting: "(\<And>r. set (f r) \<subseteq> S) \<Longrightarrow> adds snd S (noting f m)"
  by (auto simp: adds_def noting_def split: prod.split)

text \<open>Of a frame, the trace is the second component of its world.\<close>

abbreviation frame_trace :: "('w \<times> event list) frame \<Rightarrow> event list" where
  "frame_trace s \<equiv> snd (snd s)"

lemma adds_on_world [adds_rules]: "adds snd S m \<Longrightarrow> adds frame_trace S (on_world m)"
  unfolding adds_def on_world_def by (auto simp: split_beta)

subsection \<open>Events that settle nothing\<close>

fun settling :: "event \<Rightarrow> bool" where
  "settling (EvBegin k i g) = True"
| "settling (EvCall i) = True"
| "settling (EvComplete r ok) = True"
| "settling (EvAbort ok) = True"
| "settling EvCompleteAudit = True"
| "settling EvFailAudit = True"
| "settling e = False"

definition quiet :: "event set" where
  "quiet = {e. \<not> settling e}"

lemma quiet_collaborators [adds_rules]:
  "adds snd quiet (br_now (traced b))"
  "adds snd quiet (br_isActive (traced b) sc)"
  "adds snd quiet (aw_write (br_audit (traced b)) e)"
  "adds snd quiet (as_get (br_approvals (traced b)) k)"
  "adds snd quiet (as_list (br_approvals (traced b)))"
  "adds snd quiet (as_consume (br_approvals (traced b)) k)"
  "adds snd quiet (cn_revalidate (br_connector (traced b)) i)"
  by (auto simp: traced_def quiet_def intro!: adds_noting split: sum.splits jsval.splits)

lemma adds_health:
  "(\<And>m. adds snd S (f (noting e m))) \<Longrightarrow>
   adds snd S (case map_option (noting e) x of None \<Rightarrow> ret c | Some m \<Rightarrow> f m)"
  by (cases x) (auto intro: adds_rules)

lemma quiet_health [adds_rules]:
  "adds snd quiet (noting (\<lambda>r. [EvAuditHealth (g r)]) m)" "adds snd quiet (noting (\<lambda>r. [EvStoreHealth (g r)]) m)"
  "adds snd quiet (noting (\<lambda>r. [EvLive (g' r)]) m')"
  by (rule adds_noting; simp add: quiet_def)+

lemma quiet_flushed [adds_rules]: "adds snd quiet (noting (\<lambda>r. [EvFlushed]) m)"
  by (rule adds_noting) (simp add: quiet_def)

lemma quiet_flush [adds_rules]:
  "adds snd quiet (flushPendingTerminalAudit (traced b) p (noting (\<lambda>r. [EvFlushed]) m))"
  unfolding flushPendingTerminalAudit_def by (intro adds_rules)

lemma adds_reading [adds_rules]:
  "(\<And>sc. adds g S (f sc)) \<Longrightarrow> adds g S (readKillSwitchBlocking f sc i)"
  unfolding readKillSwitchBlocking_def
  by (rule adds_andthen, rule adds_try_catch, assumption, rule adds_basic)
    (auto split: jsval.split intro: adds_basic)

lemma adds_blocking_scope [adds_rules]:
  "(\<And>sc. adds g S (f sc)) \<Longrightarrow> adds g S (blocking_scope f i scs)"
  unfolding blocking_scope_def by (intro adds_rules)

lemma quiet_preflight [adds_rules]: "adds snd quiet (br_preflight (traced b) i cid)"
  unfolding br_preflight_def run_preflight_def checkKillSwitch_def checkAudit_def checkApproval_def
    writeSummary_def Let_def preflight_params.simps traced_health
  by (intro adds_rules adds_health)

lemma quiet_reject [adds_rules]:
  "adds snd quiet (reject_as h (traced b) iid key p now cid why)"
  "adds snd quiet (reject h (traced b) i now cid why)"
  unfolding reject_def reject_as_def Let_def by (intro adds_rules)+

lemma quiet_live_failure [adds_rules]: "adds snd quiet (live_failure (traced b) i cid)"
  unfolding live_failure_def by (intro adds_rules)

lemma quiet_approval_failure [adds_rules]: "adds snd quiet (approval_failure h (traced b) ap i)"
  unfolding approval_failure_def findApprovalForIntent_def by (intro adds_rules)

lemma quiet_still_fresh [adds_rules]: "adds snd quiet (dry_run_still_fresh h (traced b) x)"
  unfolding dry_run_still_fresh_def by (intro adds_rules)

lemma quiet_before_side_effect [adds_rules]: "adds snd quiet (before_side_effect h (traced b) x)"
  unfolding before_side_effect_def assertKillSwitchAllowsExecution_def by (intro adds_rules)

lemma quiet_run [adds_rules]:
  assumes "adds snd quiet m"
  shows "adds snd quiet (run_conn m (traced_run c))"
proof (induction c)
  case (CDone r)
  then show ?case by (auto simp: adds_def)
next
  case (CAct f k)
  show ?case
  proof (rule addsI)
    fix s r and t :: "'a \<times> event list"
    assume run: "run_conn m (traced_run (CAct f k)) s = (r, t)"
    then have "run_conn m (traced_run (k (fst s))) (f (fst s), snd s @ [EvAct]) = (r, t)"
      by (simp add: split_beta)
    then obtain evs where "snd t = (snd s @ [EvAct]) @ evs" "set evs \<subseteq> quiet"
      using addsE [OF CAct [of "k (fst s)"]] by (metis rangeI snd_conv)
    then show "\<exists>evs. snd t = snd s @ evs \<and> set evs \<subseteq> quiet"
      by (intro exI [of _ "EvAct # evs"]) (simp add: quiet_def)
  qed
next
  case (CCheck k)
  have "adds snd quiet (run_conn m (traced_run (k e)))" for e using CCheck by simp
  then have "adds snd quiet (andthen (attempt m) (\<lambda>r. run_conn m (traced_run
      (k (case r of Inl e \<Rightarrow> Some e | Inr u \<Rightarrow> None)))))"
    by (intro adds_rules assms)
  moreover have "andthen (attempt m) (\<lambda>r. run_conn m (traced_run
      (k (case r of Inl e \<Rightarrow> Some e | Inr u \<Rightarrow> None)))) = run_conn m (traced_run (CCheck k))"
    by (auto simp: fun_eq_iff andthen_def attempt_def split: prod.split sum.split)
  ultimately show ?case by simp
qed

subsection \<open>The life of a reservation\<close>

text \<open>
  \<open>Unstored\<close> and \<open>Unaborted\<close>: the store threw when the result was to be stored, or when the
  reservation was to be given back. \<open>Lost\<close>: it threw on the result of an execution that has happened.
\<close>

datatype phase = Idle | Held | Called | Done | Unstored | Unaborted | Lost | Bad

fun phase_step :: "phase \<Rightarrow> event \<Rightarrow> phase" where
  "phase_step p (EvBegin k i g) = (if \<not> g then p else if p = Idle then Held else Bad)"
| "phase_step p (EvCall i) = (if p = Held then Called else Bad)"
| "phase_step p (EvComplete r ok) =
     (if p = Held then if ok then Done else Unstored
      else if p = Called then if ok then Done else Lost else Bad)"
| "phase_step p (EvAbort ok) =
     (if p \<in> {Held, Unstored, Unaborted} then if ok then Done else Unaborted else Bad)"
| "phase_step p EvCompleteAudit = (if p = Done then Done else Bad)"
| "phase_step p EvFailAudit = (if p \<in> {Done, Lost} then p else Bad)"
| "phase_step p e = p"

definition phase_of :: "event list \<Rightarrow> phase" where
  "phase_of evs = foldl phase_step Idle evs"

lemma phase_of_simps [simp]: "phase_of [] = Idle" "phase_of (evs @ [e]) = phase_step (phase_of evs) e"
  by (simp_all add: phase_of_def)

lemma phase_quiet: "set evs \<subseteq> quiet \<Longrightarrow> phase_of (tr @ evs) = phase_of tr"
proof (induction evs arbitrary: tr)
  case (Cons e evs)
  then have "phase_step (phase_of tr) e = phase_of tr" by (cases e) (auto simp: quiet_def)
  with Cons.IH [of "tr @ [e]"] Cons.prems show ?case by simp
qed simp

text \<open>Assertions about the flags of an execution and the phase of its reservation.\<close>

definition phased :: "(flags \<Rightarrow> phase \<Rightarrow> bool) \<Rightarrow> ('w \<times> event list) frame \<Rightarrow> bool" where
  "phased P s \<longleftrightarrow> P (fst s) (phase_of (frame_trace s))"

lemma phased_quiet [triples]:
  assumes "adds snd quiet m"
  shows "triple (phased P) (on_world m) (\<lambda>_. phased P) (\<lambda>_. phased P)"
proof (rule tripleI)
  show "phased P t" if "phased P s" "on_world m s = (Inr x, t)" for s x t
    using that addsE [OF assms] phase_quiet
    by (auto simp: phased_def on_world_def split: prod.splits) metis
  show "phased P t" if "phased P s" "on_world m s = (Inl e, t)" for s e t
    using that addsE [OF assms] phase_quiet
    by (auto simp: phased_def on_world_def split: prod.splits) metis
qed

lemma phased_noting:
  assumes "\<And>fl p x. P fl p \<Longrightarrow> Q x fl (foldl phase_step p (f (Inr x)))"
    and "\<And>fl p e. P fl p \<Longrightarrow> E e fl (foldl phase_step p (f (Inl e)))"
  shows "triple (phased P) (on_world (noting f n)) (\<lambda>x. phased (Q x)) (\<lambda>e. phased (E e))"
  using assms by (auto simp: triple_def phased_def on_world_def noting_def phase_of_def split: prod.splits sum.split)

lemma phased_mark:
  "(\<And>fl p. P fl p \<Longrightarrow> Q (fl\<lparr>fl_completed := True\<rparr>) p) \<Longrightarrow>
     triple (phased P) mark_completed (\<lambda>_. phased Q) E"
  "(\<And>fl p. P fl p \<Longrightarrow> Q (fl\<lparr>fl_persisting := True\<rparr>) p) \<Longrightarrow>
     triple (phased P) mark_persisting (\<lambda>_. phased Q) E"
  by (auto simp: triple_def phased_def mark_completed_def mark_persisting_def modify_state_def)

definition down :: "flags \<Rightarrow> bool" where
  "down fl \<longleftrightarrow> \<not> fl_completed fl \<and> \<not> fl_persisting fl"

definition held :: "flags \<Rightarrow> phase \<Rightarrow> bool" where
  "held fl p \<longleftrightarrow> down fl \<and> p = Held"

definition ended :: "flags \<Rightarrow> phase \<Rightarrow> bool" where
  "ended fl p \<longleftrightarrow> \<not> down fl \<and> p = Done"

definition thrown :: "flags \<Rightarrow> phase \<Rightarrow> bool" where
  "thrown fl p \<longleftrightarrow> (if down fl then p \<in> {Held, Unstored, Unaborted} else p \<in> {Done, Lost})"

text \<open>A stage keeps the reservation held, or settles the execution, or throws.\<close>

abbreviation stage_post :: "'a option \<Rightarrow> ('w \<times> event list) frame \<Rightarrow> bool" where
  "stage_post r \<equiv> phased (if r = None then held else ended)"

definition stage :: "(('w \<times> event list) frame, 'a option) eff \<Rightarrow> bool" where
  "stage m \<longleftrightarrow> triple (phased held) m stage_post (\<lambda>_. phased thrown)"

lemma held_thrown: "held fl p \<Longrightarrow> thrown fl p"
  by (simp add: held_def thrown_def)

lemma phased_mono: "phased P s \<Longrightarrow> (\<And>fl p. P fl p \<Longrightarrow> Q fl p) \<Longrightarrow> phased Q s"
  by (simp add: phased_def)

lemma stage_quiet:
  assumes "adds snd quiet m" "\<And>x. stage (f x)"
  shows "stage (andthen (on_world m) f)"
  unfolding stage_def
proof (rule triple_andthen)
  show "triple (phased held) (on_world m) (\<lambda>_. phased held) (\<lambda>_. phased thrown)"
    by (rule triple_post [OF phased_quiet [OF assms(1)]]) (auto intro: phased_mono held_thrown)
qed (use assms(2) in \<open>simp add: stage_def\<close>)

lemma stage_none: "stage (ret None)"
  by (simp add: stage_def triple_def ret_def)

lemma traced_ops_noting:
  "ro_complete (traced_ops ops) r a = noting (\<lambda>x. [EvComplete r (succeeded x)]) (ro_complete ops r a)"
  "ro_abort (traced_ops ops) e = noting (\<lambda>x. [EvAbort (succeeded x)]) (ro_abort ops e)"
  "ro_completeAudit (traced_ops ops) = noting (\<lambda>x. [EvCompleteAudit]) (ro_completeAudit ops)"
  "ro_failAudit (traced_ops ops) e = noting (\<lambda>x. [EvFailAudit]) (ro_failAudit ops e)"
  by (simp_all add: traced_ops_def)

lemma succeeded_simps [simp]: "succeeded (Inl e) = False" "succeeded (Inr x) = True"
  by (simp_all add: succeeded_def)

lemma phased_reject:
  "triple (phased held) (on_world (reject h (traced b) i now cid why)) (\<lambda>_. phased held) (\<lambda>_. phased thrown)"
  by (rule triple_post [OF phased_quiet]) (auto intro: adds_rules phased_mono held_thrown)

definition stored :: "flags \<Rightarrow> phase \<Rightarrow> bool" where
  "stored fl p \<longleftrightarrow> down fl \<and> p = Done"

lemma stored_ended: "triple (phased stored) (andthen mark_completed (\<lambda>_. ret x))
    (\<lambda>y s. y = x \<and> phased ended s) E"
  by (rule triple_andthen [OF phased_mark(1) [where Q = ended]])
    (auto simp: stored_def ended_def down_def triple_def ret_def)

lemma phased_settle:
  "triple (phased held) (on_world (ro_complete (traced_ops ops) r a)) (\<lambda>_. phased stored) (\<lambda>_. phased thrown)"
  "triple (phased held) (on_world (ro_abort (traced_ops ops) e)) (\<lambda>_. phased stored) (\<lambda>_. phased thrown)"
  unfolding traced_ops_noting
  by (rule phased_noting; simp add: held_def stored_def thrown_def)+

lemma reject_finish_stage: "stage (reject_finish h (traced b) (traced_ops ops) i now cid why)"
  unfolding stage_def reject_finish_def finish_def andthen_assoc andthen_ret
  by (intro triple_andthen [OF phased_reject] triple_andthen [OF phased_settle(1)]
      triple_post [OF stored_ended]) auto

lemma reject_abort_stage: "stage (reject_abort h (traced b) (traced_ops ops) i now cid why)"
  unfolding stage_def reject_abort_def
  by (intro triple_andthen [OF phased_reject] triple_andthen [OF phased_settle(2)]
      triple_post [OF stored_ended]) auto

lemma check_approved_stage: "stage (check_approved h (traced b) (traced_ops ops) x r)"
proof (cases r)
  case (Some y)
  show ?thesis
    unfolding check_approved_def Let_def Some
    by (cases "ar_state y")
      (auto simp: reject_finish_stage reject_abort_stage stage_none intro!: stage_quiet adds_rules)
qed (simp add: check_approved_def reject_abort_stage)

lemma stage_option:
  "(x = None \<Longrightarrow> stage m) \<Longrightarrow> (\<And>y. x = Some y \<Longrightarrow> stage (f y)) \<Longrightarrow>
   stage (case x of None \<Rightarrow> m | Some y \<Rightarrow> f y)"
  by (cases x) auto

lemma stage_if: "(c \<Longrightarrow> stage m) \<Longrightarrow> (\<not> c \<Longrightarrow> stage n) \<Longrightarrow> stage (if c then m else n)"
  by simp

lemma stage_pair: "(\<And>y z. stage (f y z)) \<Longrightarrow> stage (case x of (y, z) \<Rightarrow> f y z)"
  by (cases x) simp

lemmas stage_rules = stage_none stage_quiet stage_option stage_if stage_pair reject_finish_stage
  reject_abort_stage check_approved_stage

lemma stages:
  "stage (approval_checks h (traced b) (traced_ops ops) x)"
  "stage (kill_switch_stop h (traced b) (traced_ops ops) x)"
  "stage (revalidation_stop h (traced b) (traced_ops ops) x)"
  "stage (late_dry_run_stop h (traced b) (traced_ops ops) x)"
  "stage (consume_stop h (traced b) (traced_ops ops) x)"
  unfolding approval_checks_def kill_switch_stop_def revalidation_stop_def late_dry_run_stop_def
    consume_stop_def Let_def
  by (intro stage_rules adds_rules)+

text \<open>The connector is called from a held reservation; its outcome is stored before anything else.\<close>

definition calling :: "flags \<Rightarrow> phase \<Rightarrow> bool" where
  "calling fl p \<longleftrightarrow> down fl \<and> p = Called"

lemma traced_call: "run_conn m (cn_execute (br_connector (traced b)) i) =
    andthen (modify_state (\<lambda>(w, tr). (w, tr @ [EvCall i])))
      (\<lambda>_. run_conn m (traced_run (cn_execute (br_connector b) i)))"
  by (simp add: traced_def fun_eq_iff andthen_def modify_state_def)

lemma on_world_andthen: "on_world (andthen m f) = andthen (on_world m) (\<lambda>x. on_world (f x))"
  by (auto simp: fun_eq_iff on_world_def andthen_def split: prod.split sum.split)

lemma connector_called:
  assumes "adds snd quiet m"
  shows "triple (phased held) (on_world (run_conn m (cn_execute (br_connector (traced b)) i)))
    (\<lambda>_. phased calling) (\<lambda>_. phased calling)"
  unfolding traced_call on_world_andthen
proof (rule triple_andthen [OF _ phased_quiet [OF quiet_run [OF assms]]])
  show "triple (phased held) (on_world (modify_state (\<lambda>(w, tr). (w, tr @ [EvCall i]))))
      (\<lambda>_. phased calling) (\<lambda>_. phased calling)"
    by (auto simp: triple_def phased_def on_world_def modify_state_def held_def calling_def)
qed

definition finishing :: "exn + unit \<Rightarrow> flags \<Rightarrow> phase \<Rightarrow> bool" where
  "finishing r fl p \<longleftrightarrow> fl_persisting fl \<and> p = (if succeeded r then Done else Lost)"

lemma finishing_thrown: "finishing r fl p \<Longrightarrow> thrown fl p"
  by (simp add: finishing_def thrown_def down_def)

lemma completion_attempted:
  "triple (phased (\<lambda>fl p. fl_persisting fl \<and> p = Called)) (attempt (on_world (ro_complete (traced_ops ops) r a)))
     (\<lambda>x. phased (finishing x)) E"
  unfolding traced_ops_noting
  by (rule triple_attempt, rule phased_noting) (simp_all add: finishing_def)

lemma audit_attempted:
  "triple (phased (finishing r)) (try_catch (on_world (aw_write (br_audit (traced b)) ev))
     (\<lambda>err. andthen (on_world (ro_failAudit (traced_ops ops) err)) (\<lambda>_. throw err)))
     (\<lambda>_. phased (finishing r)) (\<lambda>_. phased thrown)"
proof (rule triple_try_catch [OF phased_quiet])
  show "triple (phased (finishing r)) (andthen (on_world (ro_failAudit (traced_ops ops) err)) (\<lambda>_. throw err))
      (\<lambda>_. phased (finishing r)) (\<lambda>_. phased thrown)" for err
    unfolding traced_ops_noting
    by (rule triple_andthen [OF phased_noting [where Q = "\<lambda>_. thrown"]])
      (auto simp: finishing_def thrown_def down_def triple_def throw_def)
qed (intro adds_rules)

lemma audit_completed:
  "triple (phased (finishing r)) (case r of Inl e \<Rightarrow> throw e
     | Inr _ \<Rightarrow> andthen (on_world (ro_completeAudit (traced_ops ops))) (\<lambda>_. ret x))
     (\<lambda>_. phased ended) (\<lambda>_. phased thrown)"
proof (cases r)
  case (Inl e)
  then show ?thesis by (auto simp: triple_def throw_def intro: phased_mono finishing_thrown)
next
  case (Inr u)
  have "triple (phased (finishing r)) (on_world (ro_completeAudit (traced_ops ops)))
      (\<lambda>_. phased ended) (\<lambda>_. phased thrown)"
    unfolding traced_ops_noting
    by (rule phased_noting) (simp_all add: finishing_def ended_def thrown_def down_def Inr)
  then show ?thesis
    unfolding Inr sum.case by (rule triple_andthen) (simp add: triple_def ret_def)
qed

lemma marked_finishing:
  "triple (phased (finishing r)) m Q E \<Longrightarrow> triple (phased (finishing r)) (andthen mark_completed (\<lambda>_. m)) Q E"
  by (rule triple_andthen [OF phased_mark(1)]) (simp_all add: finishing_def)

lemma finish_with_audit:
  "triple (phased (\<lambda>fl p. fl_persisting fl \<and> p = Called))
     (finishExecutionWithAudit (traced b) (traced_ops ops) t) (\<lambda>_. phased ended) (\<lambda>_. phased thrown)"
  unfolding finishExecutionWithAudit_def
  by (intro triple_andthen [OF completion_attempted] marked_finishing triple_andthen [OF audit_attempted]
      audit_completed)

lemma call_connector_ends:
  "triple (phased held) (call_connector h (traced b) (traced_ops ops) x) (\<lambda>_. phased ended) (\<lambda>_. phased thrown)"
  unfolding call_connector_def
proof (intro triple_andthen)
  show "triple (phased held) (attempt (on_world (run_conn (before_side_effect h (traced b) x)
      (cn_execute (br_connector (traced b)) (ex_intent x))))) (\<lambda>_. phased calling) (\<lambda>_. phased thrown)"
    by (rule triple_attempt [OF connector_called]) (intro adds_rules)
  show "triple (phased calling) mark_persisting (\<lambda>_. phased (\<lambda>fl p. fl_persisting fl \<and> p = Called))
      (\<lambda>_. phased thrown)"
    by (rule phased_mark(2)) (simp add: calling_def)
  show "triple (phased (\<lambda>fl p. fl_persisting fl \<and> p = Called))
      (finishExecutionWithAudit (traced b) (traced_ops ops) t) (\<lambda>_. phased ended) (\<lambda>_. phased thrown)" for t
    by (rule finish_with_audit)
qed

lemma unless_settled_ends:
  assumes "stage m" "triple (phased held) n (\<lambda>_. phased ended) (\<lambda>_. phased thrown)"
  shows "triple (phased held) (unless_settled m n) (\<lambda>_. phased ended) (\<lambda>_. phased thrown)"
  unfolding unless_settled_def
proof (rule triple_andthen)
  show "triple (phased held) m stage_post (\<lambda>_. phased thrown)" using assms(1) by (simp add: stage_def)
  show "triple (stage_post r) (case r of Some x \<Rightarrow> ret x | None \<Rightarrow> n) (\<lambda>_. phased ended) (\<lambda>_. phased thrown)" for r
    using assms(2) by (cases r) (simp_all add: triple_def ret_def)
qed

text \<open>What \<open>guarded\<close> throws has been settled.\<close>

definition given_up :: "flags \<Rightarrow> phase \<Rightarrow> bool" where
  "given_up fl p \<longleftrightarrow> p \<in> {Done, Unaborted, Lost}"

lemma guarded_gives_up:
  assumes "triple P m Q (\<lambda>_. phased thrown)"
  shows "triple P (guarded (traced_ops ops) m) Q (\<lambda>_. phased given_up)"
  unfolding guarded_def
proof (rule triple_try_catch [OF assms])
  fix err
  have abort: "triple (phased (\<lambda>fl p. down fl \<and> thrown fl p)) (andthen (on_world (ro_abort (traced_ops ops) err))
      (\<lambda>_. throw err)) Q (\<lambda>_. phased given_up)"
    unfolding traced_ops_noting
    by (rule triple_andthen [OF phased_noting [where Q = "\<lambda>_. given_up"]])
      (auto simp: thrown_def given_up_def triple_def throw_def)
  show "triple (phased thrown) (andthen (read_state fst) (\<lambda>fl. if \<not> fl_completed fl \<and> \<not> fl_persisting fl
      then andthen (on_world (ro_abort (traced_ops ops) err)) (\<lambda>_. throw err) else throw err))
      Q (\<lambda>_. phased given_up)"
  proof (rule triple_andthen)
    show "triple (phased thrown) (read_state fst) (\<lambda>fl s. fl = fst s \<and> phased thrown s) (\<lambda>_. phased given_up)"
      by (simp add: triple_def read_state_def)
    show "triple (\<lambda>s. fl = fst s \<and> phased thrown s) (if \<not> fl_completed fl \<and> \<not> fl_persisting fl
        then andthen (on_world (ro_abort (traced_ops ops) err)) (\<lambda>_. throw err) else throw err)
        Q (\<lambda>_. phased given_up)" for fl
    proof (rule triple_if_same)
      show "triple (\<lambda>s. fl = fst s \<and> phased thrown s) (andthen (on_world (ro_abort (traced_ops ops) err))
          (\<lambda>_. throw err)) Q (\<lambda>_. phased given_up)" if "\<not> fl_completed fl \<and> \<not> fl_persisting fl"
        by (rule triple_pre [OF abort]) (use that in \<open>auto simp: phased_def down_def\<close>)
    qed (auto simp: phased_def down_def triple_def throw_def thrown_def given_up_def)
  qed
qed

lemma execute_reserved_ends:
  "triple (phased held) (execute_reserved h (traced b) (traced_ops ops) x)
     (\<lambda>_. phased given_up) (\<lambda>_. phased given_up)"
proof -
  have perform: "triple (phased held) (perform_execution h (traced b) (traced_ops ops) x)
      (\<lambda>_. phased ended) (\<lambda>_. phased thrown)"
    unfolding perform_execution_def by (intro unless_settled_ends stages call_connector_ends)
  show ?thesis
    unfolding execute_reserved_def unless_settled_def
  proof (rule triple_andthen)
    show "triple (phased held) (guarded (traced_ops ops) (approval_checks h (traced b) (traced_ops ops) x))
        stage_post (\<lambda>_. phased given_up)"
      by (rule guarded_gives_up) (use stages(1) in \<open>simp add: stage_def\<close>)
    show "triple (stage_post r) (case r of Some x \<Rightarrow> ret x
        | None \<Rightarrow> guarded (traced_ops ops) (perform_execution h (traced b) (traced_ops ops) x))
        (\<lambda>_. phased given_up) (\<lambda>_. phased given_up)" for r
    proof (cases r)
      case None
      then show ?thesis
        by (simp, intro triple_post [OF guarded_gives_up [OF perform]])
          (auto simp: ended_def given_up_def intro: phased_mono)
    qed (auto simp: triple_def ret_def ended_def given_up_def intro: phased_mono)
  qed
qed

text \<open>The whole execution: the reservation is free, or settled.\<close>

abbreviation free_world :: "'w \<times> event list \<Rightarrow> bool" where
  "free_world s \<equiv> phase_of (snd s) = Idle"

definition settled_world :: "'w \<times> event list \<Rightarrow> bool" where
  "settled_world s \<longleftrightarrow> phase_of (snd s) \<in> {Idle, Done, Unaborted, Lost}"

definition settles :: "('w \<times> event list, 'a) eff \<Rightarrow> bool" where
  "settles m \<longleftrightarrow> triple free_world m (\<lambda>_. settled_world) (\<lambda>_. settled_world)"

lemma triple_always:
  assumes "triple P m (\<lambda>_. R) (\<lambda>_. R)" "P s"
  shows "R (snd (m s))"
proof -
  obtain r t where run: "m s = (r, t)" by (meson surj_pair)
  then show ?thesis
    using tripleD_val [OF assms] tripleD_exn [OF assms] by (cases r) auto
qed

lemma settlesD: "settles m \<Longrightarrow> phase_of (snd s) = Idle \<Longrightarrow> settled_world (snd (m s))"
  unfolding settles_def by (rule triple_always)

lemma settlesI: "(\<And>s. phase_of (snd s) = Idle \<Longrightarrow> settled_world (snd (m s))) \<Longrightarrow> settles m"
  unfolding settles_def by (rule tripleI) (metis snd_conv)+

lemma free_quiet:
  assumes "adds snd quiet m"
  shows "triple free_world m (\<lambda>_. free_world) (\<lambda>_. settled_world)"
proof (rule tripleI)
  show "free_world t" if "free_world s" "m s = (Inr x, t)" for s x t
    using that addsE [OF assms that(2)] phase_quiet by metis
  show "settled_world t" if "free_world s" "m s = (Inl e, t)" for s e t
    using that addsE [OF assms that(2)] phase_quiet by (metis insertI1 settled_world_def)
qed

lemma settles_quiet: "adds snd quiet m \<Longrightarrow> (\<And>x. settles (f x)) \<Longrightarrow> settles (andthen m f)"
  unfolding settles_def by (rule triple_andthen [OF free_quiet])

lemma settles_ret: "settles (ret x)"
  by (simp add: settles_def settled_world_def triple_def ret_def)

lemma settles_gate:
  assumes "adds snd quiet m" "settles rest"
  shows "settles (gate h (traced b) x m rest)"
  unfolding gate_def
  by (rule settles_quiet [OF assms(1)])
    (auto intro!: settles_quiet adds_rules settles_ret assms(2) split: option.split)

lemma settles_in_frame:
  "triple (\<lambda>s. phase_of (snd s) = Held) (in_frame (execute_reserved h (traced b) (traced_ops ops) x))
     (\<lambda>_. settled_world) (\<lambda>_. settled_world)"
proof -
  let ?fl = "\<lparr>fl_completed = False, fl_persisting = False\<rparr>"
  have "settled_world t'" if "phase_of (snd t) = Held"
    "execute_reserved h (traced b) (traced_ops ops) x (?fl, t) = (r, (fl, t'))" for t t' r fl
  proof -
    have held: "phased held (?fl, t)" using that(1) by (simp add: phased_def held_def down_def)
    have "phased given_up (fl, t')"
      using tripleD_val [OF execute_reserved_ends held] tripleD_exn [OF execute_reserved_ends held] that(2)
      by (cases r) auto
    then show ?thesis by (auto simp: phased_def given_up_def settled_world_def)
  qed
  then show ?thesis by (fastforce simp: triple_def in_frame_def split: prod.splits sum.splits)
qed

lemma settles_begin: "settles (begin_reservation h (traced b) x)"
proof -
  have "settled_world (snd (begin_reservation h (traced b) x (w, tr)))" if "phase_of tr = Idle" for w :: 'a and tr
  proof -
    let ?i = "ex_intent x"
    obtain r w' where run: "br_begin b (in_idempotencyKey ?i) ?i w = (r, w')" by (meson surj_pair)
    have begin_traced: "br_begin (traced b) k i = traced_begin b k i" for k i by (simp add: traced_def)
    have frame: "settled_world (snd (andthen (in_frame (execute_reserved h (traced b) (traced_ops ops) x))
        (\<lambda>r. ret (Settled r)) s))" if "phase_of (snd s) = Held" for ops and s :: "'a \<times> event list"
    proof -
      have "triple (\<lambda>s. phase_of (snd s) = Held) (andthen (in_frame (execute_reserved h (traced b)
          (traced_ops ops) x)) (\<lambda>r. ret (Settled r))) (\<lambda>_. settled_world) (\<lambda>_. settled_world)"
        by (rule triple_andthen [OF settles_in_frame]) (simp add: triple_def ret_def)
      from triple_always [OF this that] show ?thesis .
    qed
    show ?thesis
    proof (cases r)
      case (Inl e)
      then show ?thesis
        using that unfolding begin_reservation_cases begin_traced traced_begin_def
        by (cases e) (auto simp: run throw_def settled_world_def [of "(w', tr @ e)" for e]
            intro!: settlesD settles_quiet settles_ret adds_rules)
    next
      case (Inr res)
      show ?thesis
        using that unfolding begin_reservation_cases begin_traced traced_begin_def
        by (cases res) (auto simp: run Inr is_reserved_def ret_def settled_world_def [of "(w', tr @ e)" for e]
            intro!: settlesD settles_quiet settles_ret adds_rules frame)
    qed
  qed
  then show ?thesis by (intro settlesI) auto
qed

lemma settles_execute: "settles (execute h (traced b) ap dry)"
  unfolding execute_def Let_def
  by (rule settles_quiet)
    (auto intro!: adds_rules settles_quiet settles_ret settles_gate settles_begin split: option.split)

text \<open>C21. A reservation is always settled: at the end of an execution, whether it returned or threw,
  whatever the collaborators did, the idempotency reservation was never granted, or was completed or
  aborted exactly once; or the store itself threw, when the reservation was to be given back
  (\<open>Unaborted\<close>) or on the result of a call that has been made (\<open>Lost\<close>). In particular a connector
  call is never followed by an abort, and never left without an attempt to store its result.\<close>

theorem reservation_always_settled:
  "phase_of (snd (snd (execute h (traced b) ap dry (w, [])))) \<in> {Idle, Done, Unaborted, Lost}"
  using settlesD [OF settles_execute, of "(w, [])"] by (simp add: settled_world_def)

end
