(* ===== verification/BrokerSafety.thy ===== *)
theory BrokerSafety
  imports BrokerSamples
begin

text \<open>
  What the broker guarantees: which decisions it refuses, how executions treat their reservation,
  when the connector can have an effect, and that the results and terminal events it stores are the
  ones the idempotency store accepts.
\<close>

declare ret_run [simp del] throw_run [simp del]

subsection \<open>Refused decisions\<close>

lemma run_now: "br_now b w = (Inr t, w1) \<Longrightarrow> andthen (br_now b) f w = f t w1"
  by (simp add: andthen_def)

abbreviation given :: "jsval option \<Rightarrow> jsval" where
  "given a \<equiv> (case a of Some v \<Rightarrow> v | None \<Rightarrow> JUndef)"

abbreviation set_flag :: "jsval option \<Rightarrow> bool" where
  "set_flag d \<equiv> (case d of Some v \<Rightarrow> truthy v | None \<Rightarrow> False)"

text \<open>What the token of a decision signs.\<close>

definition token_message :: "host \<Rightarrow> guardrail_approval \<Rightarrow> trading_intent \<Rightarrow> string" where
  "token_message h ap i = stable_json h (token_payload i (gp_outcome ap) (gp_correlationId ap)
     (gp_decidedAt ap) (given (gp_approvalId ap)) (set_flag (gp_dryRun ap)))"

text \<open>What an acceptable decision must satisfy, each requirement under the rule its violation is
  rejected with, in the order in which they are tried.\<close>

definition decision_requirements ::
  "host \<Rightarrow> broker_config \<Rightarrow> guardrail_approval \<Rightarrow> trading_intent \<Rightarrow> string \<Rightarrow> (string \<times> bool) list" where
  "decision_requirements h c ap i now =
     (let decided = date_parse h (gp_decidedAt ap); present = date_parse h now in
      [(''dry_run_only'', gp_dryRun ap = None),
       (''broker_rejected'', gp_outcome ap \<in> {''allow'', ''needs_human''}),
       (''decision_token_invalid'', hex64 (gp_decisionToken ap) \<and>
          to_lower (gp_decisionToken ap) = hmac_sha256_hex h (bc_secret c) (token_message h ap i)),
       (''decision_stale'', is_finite decided \<and> \<not> num_less (num_add present (Fin 60000)) decided \<and>
          \<not> num_less (case bc_decisionMaxAgeMs c of Some m \<Rightarrow> m | None \<Rightarrow> Fin 172800000) (num_sub present decided)),
       (''production_not_supported'', bc_environment c \<noteq> Production),
       (''environment_mismatch'', in_environment i = bc_environment c),
       (''approval_mismatch'', gp_intentId ap = in_intentId i),
       (''canary_live_disabled'', bc_environment c = CanaryLive \<longrightarrow> bc_canaryLiveEnabled c)])"

lemma requirement_fails:
  assumes "List.find (\<lambda>g. \<not> snd g) (decision_requirements h c ap i now) = Some (rule, False)"
  shows "(\<exists>m. decision_failure h c ap i now = Some (rule, m)) \<or>
    (decision_failure h c ap i now = None \<and> rule = ''canary_live_disabled'' \<and>
     bc_environment c = CanaryLive \<and> \<not> bc_canaryLiveEnabled c)"
proof -
  have token: "decisionTokenMatches h c ap i \<longleftrightarrow> hex64 (gp_decisionToken ap) \<and>
      to_lower (gp_decisionToken ap) = hmac_sha256_hex h (bc_secret c) (token_message h ap i)"
    by (simp add: decisionTokenMatches_def createGuardrailDecisionToken_def token_message_def)
  show ?thesis
    using assms unfolding decision_failure_def token decisionIsStale_def decision_requirements_def Let_def
    by (simp split: if_splits) (auto simp: disj_commute)
qed

text \<open>A rejection outside a reservation is one write of the audit log.\<close>

lemma reject_as_run:
  "andthen (reject_as h b iid key prin now cid why) (\<lambda>r. ret (Settled r)) w =
     (let m = nonEmptyReason h (Some (snd why)) ''Broker rejected execution.'' in
      case aw_write (br_audit b) (broker_event (br_config b) ''broker.failed'' iid prin cid
          [(''rule'', JStr (fst why)), (''message'', JStr m)]) w of
        (Inl e, w') \<Rightarrow> (Inl e, w')
      | (Inr _, w') \<Rightarrow> (Inr (Settled (failure_result Rejected False iid key m now)), w'))"
  by (auto simp: reject_as_def andthen_def ret_def Let_def split: prod.split sum.split)

text \<open>C18. A decision that is not acceptable is only rejected. If the intent of the decision is malformed,
  or the decision misses a requirement (it is a dry run, has another outcome, is unauthentic or stale, the
  broker is a production broker or has another environment, the decision names another intent, or the
  canary-live broker is not enabled), then all that \<open>execute\<close> does after reading the clock is to write one
  \<open>broker.failed\<close> event, with the rule of the first requirement that is missed, and return the rejection,
  or throw what that write throws: no store, kill switch, health check or connector is touched.\<close>

theorem refused_decision_only_rejects:
  assumes "br_now b w = (Inr t, w1)"
    and "case parse_intent h (gp_intent ap) of None \<Rightarrow> rule = ''schema_validation''
      | Some i \<Rightarrow> List.find (\<lambda>g. \<not> snd g) (decision_requirements h (br_config b) ap i (iso_string h t)) =
          Some (rule, False)"
  shows "\<exists>ev r. execute h b ap dry w = (case aw_write (br_audit b) ev w1 of
        (Inl e, w') \<Rightarrow> (Inl e, w') | (Inr _, w') \<Rightarrow> (Inr (Settled r), w')) \<and>
    ae_eventType ev = ''broker.failed'' \<and> js_get (ae_data ev) ''rule'' = JStr rule \<and>
    ae_correlationId ev = gp_correlationId ap \<and> ae_intentId ev = Some (xr_intentId r) \<and>
    xr_intentId r = (case parse_intent h (gp_intent ap) of None \<Rightarrow> gp_intentId ap | Some i \<Rightarrow> in_intentId i) \<and>
    xr_status r = Rejected \<and> \<not> xr_revalidationPassed r \<and> xr_executedAt r = iso_string h t"
proof -
  let ?now = "iso_string h t"
  have only: "\<exists>ev r. andthen (reject_as h b iid key prin ?now (gp_correlationId ap) why) (\<lambda>r. ret (Settled r)) w1 =
      (case aw_write (br_audit b) ev w1 of (Inl e, w') \<Rightarrow> (Inl e, w') | (Inr _, w') \<Rightarrow> (Inr (Settled r), w')) \<and>
      ae_eventType ev = ''broker.failed'' \<and> js_get (ae_data ev) ''rule'' = JStr (fst why) \<and>
      ae_correlationId ev = gp_correlationId ap \<and> ae_intentId ev = Some (xr_intentId r) \<and> xr_intentId r = iid \<and>
      xr_status r = Rejected \<and> \<not> xr_revalidationPassed r \<and> xr_executedAt r = ?now" for iid key prin why
    unfolding reject_as_run Let_def
    by (intro exI conjI, rule refl) (simp_all add: broker_event_def failure_result_def js_get_def)
  show ?thesis
  proof (cases "parse_intent h (gp_intent ap)")
    case None
    then show ?thesis
      using only [of "gp_intentId ap" _ _ "(''schema_validation'', ''Approval intent is malformed.'')"] assms(2)
      by (simp add: execute_def run_now [OF assms(1)] Let_def)
  next
    case (Some i)
    have run: "execute h b ap dry w =
        andthen (reject_as h b (in_intentId i) (in_idempotencyKey i) (in_principal i) ?now (gp_correlationId ap) why)
          (\<lambda>r. ret (Settled r)) w1"
      if "decision_failure h (br_config b) ap i ?now = Some why \<or> decision_failure h (br_config b) ap i ?now = None \<and>
        bc_environment (br_config b) = CanaryLive \<and> \<not> bc_canaryLiveEnabled (br_config b) \<and>
        why = (''canary_live_disabled'', ''Canary-live execution is not enabled.'')" for why
      using that by (auto simp: execute_def run_now [OF assms(1)] Some Let_def gate_def live_failure_def reject_def)
    have "\<exists>why. fst why = rule \<and> (decision_failure h (br_config b) ap i ?now = Some why \<or>
        decision_failure h (br_config b) ap i ?now = None \<and>
        bc_environment (br_config b) = CanaryLive \<and> \<not> bc_canaryLiveEnabled (br_config b) \<and>
        why = (''canary_live_disabled'', ''Canary-live execution is not enabled.''))"
      using requirement_fails [of h "br_config b" ap i ?now rule] assms(2) Some by auto
    then obtain why where why: "fst why = rule" and "execute h b ap dry w =
        andthen (reject_as h b (in_intentId i) (in_idempotencyKey i) (in_principal i) ?now (gp_correlationId ap) why)
          (\<lambda>r. ret (Settled r)) w1"
      using run by blast
    then show ?thesis
      using only [of "in_intentId i" "in_idempotencyKey i" "in_principal i" why] unfolding why Some option.case by simp
  qed
qed

theorem refused_decision_only_rejects_witness:
  "\<exists>r. execute digit_host sample_broker (sample_decision sample_intent\<lparr>gp_outcome := ''deny''\<rparr>) None () =
     (Inr (Settled r), ()) \<and> xr_status r = Rejected"
proof -
  let ?ap = "sample_decision sample_intent\<lparr>gp_outcome := ''deny''\<rparr>"
  let ?b = "sample_broker :: unit broker"
  have 1: "br_now ?b () = (Inr 2, ())" by (simp add: sample_broker_def ret_def)
  have 2: "parse_intent digit_host (gp_intent ?ap) = Some sample_intent"
    using parse_intent_json [OF digit_host_intents(1)] by (simp add: sample_decision_def)
  have 3: "List.find (\<lambda>g. \<not> snd g) (decision_requirements digit_host (br_config ?b) ?ap sample_intent
      (iso_string digit_host 2)) = Some (''broker_rejected'', False)"
    by (simp add: decision_requirements_def sample_decision_def)
  have "aw_write (br_audit ?b) ev () = (Inr (), ())" for ev
    by (simp add: sample_broker_def ret_def)
  then show ?thesis
    using refused_decision_only_rejects [where h = digit_host and ap = ?ap and rule = "''broker_rejected''", OF 1] 2 3 by auto
qed

subsection \<open>The decision token\<close>

lemma token_payload_get:
  "map_of (members (token_payload i oc cid t a d)) ''intent'' = Some (intent_json i)"
  "map_of (members (token_payload i oc cid t a d)) ''outcome'' = Some (JStr oc)"
  "map_of (members (token_payload i oc cid t a d)) ''correlationId'' = Some (JStr cid)"
  "map_of (members (token_payload i oc cid t a d)) ''decidedAt'' = Some (JStr t)"
  "map_of (members (token_payload i oc cid t a d)) ''approvalId'' =
     Some (if a = JUndef then JNull else a)"
  "map_of (members (token_payload i oc cid t a d)) ''dryRun'' = (if d then Some (JBool True) else None)"
  by (simp_all add: token_payload_def)

lemma token_payload_object: "token_payload i oc cid t a d = JObj (members (token_payload i oc cid t a d))"
  by (simp add: token_payload_def)

lemma token_payload_value:
  "json_value (intent_json i) \<Longrightarrow> a = JUndef \<or> json_value a \<Longrightarrow>
   json_value (JObj (members (token_payload i oc cid t a d)))"
  by (auto simp: token_payload_def)

lemma canon_str: "canon_by le (if v = JUndef then JNull else v) = JStr s \<longleftrightarrow> v = JStr s"
  by (cases v) auto

lemma approval_id_iff: "approval_id ap = Some s \<longleftrightarrow> s \<noteq> [] \<and>
    (case gp_approvalId ap of Some v \<Rightarrow> v | None \<Rightarrow> JUndef) = JStr s"
  by (auto simp: approval_id_def split: option.splits jsval.splits)

lemma option_eqI: "(\<And>s. x = Some s \<longleftrightarrow> y = Some s) \<Longrightarrow> x = y"
  by (cases x; cases y) auto

text \<open>C19. A decision token is bound to everything that was decided: two decisions with one token,
  each accepted for its intent, have the same intent up to the order of its members, outcome,
  correlation, instant, approval and dry-run flag, as long as the MAC does not collide on the two
  messages; so a token of one decision cannot authorise another one.\<close>

theorem decision_token_binds:
  assumes "decisionTokenMatches h c ap i" "decisionTokenMatches h c ap' j"
    and "gp_decisionToken ap = gp_decisionToken ap'"
    and "inj_on (hmac_sha256_hex h (bc_secret c)) {token_message h ap i, token_message h ap' j}"
    and "number_format (number_to_string h)" "intent_ok h i" "intent_ok h j"
    and "json_value (intent_json i)" "json_value (intent_json j)"
    and "given (gp_approvalId ap) = JUndef \<or> json_value (given (gp_approvalId ap))"
    and "given (gp_approvalId ap') = JUndef \<or> json_value (given (gp_approvalId ap'))"
  shows "canon_intent (\<lambda>a b. locale_compare h a b \<le> 0) i = canon_intent (\<lambda>a b. locale_compare h a b \<le> 0) j \<and>
    gp_outcome ap = gp_outcome ap' \<and> gp_correlationId ap = gp_correlationId ap' \<and>
    gp_decidedAt ap = gp_decidedAt ap' \<and> approval_id ap = approval_id ap' \<and>
    set_flag (gp_dryRun ap) = set_flag (gp_dryRun ap')"
proof -
  let ?le = "\<lambda>a b. locale_compare h a b \<le> 0"
  let ?p = "\<lambda>ap i. token_payload i (gp_outcome ap) (gp_correlationId ap) (gp_decidedAt ap)
    (given (gp_approvalId ap)) (set_flag (gp_dryRun ap))"
  have "token_message h ap i = token_message h ap' j"
    by (rule inj_onD [OF assms(4)]) (use assms(1-3) in \<open>simp_all add: decisionTokenMatches_def
        createGuardrailDecisionToken_def token_message_def\<close>)
  then have "canon_by ?le (?p ap i) = canon_by ?le (?p ap' j)"
    unfolding token_message_def stable_json_eq_iff [OF assms(5)] canon_def .
  then have eq: "map_option (canon_by ?le) (map_of (members (?p ap i)) k) =
      map_option (canon_by ?le) (map_of (members (?p ap' j)) k)" for k
    using canon_members_eq [of ?le "members (?p ap i)" "members (?p ap' j)" k]
      token_payload_value [OF assms(8,10)] token_payload_value [OF assms(9,11)]
    by (simp add: token_payload_object [symmetric])
  have "canon_by ?le (intent_json i) = canon_by ?le (intent_json j)"
    using eq [of "''intent''"] by (simp add: token_payload_get)
  then have "canon_intent ?le i = canon_intent ?le j"
    by (rule canon_eq_intent [OF assms(6-9)])
  moreover
  have same: "canon_by ?le (if given (gp_approvalId ap) = JUndef then JNull else given (gp_approvalId ap)) =
      canon_by ?le (if given (gp_approvalId ap') = JUndef then JNull else given (gp_approvalId ap'))"
    using eq [of "''approvalId''"] by (simp only: token_payload_get option.map option.inject)
  have approval: "given (gp_approvalId ap) = JStr s \<longleftrightarrow> given (gp_approvalId ap') = JStr s" for s
    by (rule box_equals [OF arg_cong [OF same, of "\<lambda>x. x = JStr s"] canon_str canon_str])
  then have "approval_id ap = approval_id ap'"
    by (intro option_eqI) (unfold approval_id_iff, simp only: approval)
  moreover have "set_flag (gp_dryRun ap) = set_flag (gp_dryRun ap')"
    using eq [of "''dryRun''"] by (simp only: token_payload_get split: if_splits) auto
  ultimately show ?thesis
    using eq [of "''outcome''"] eq [of "''correlationId''"] eq [of "''decidedAt''"]
    by (simp add: token_payload_get)
qed

theorem decision_token_binds_witness:
  "approval_id (sample_decision sample_intent) = approval_id (sample_decision sample_intent) \<and>
   decisionTokenMatches digit_host sample_config (sample_decision sample_intent) sample_intent"
  using decision_token_binds [OF sample_token [of sample_intent] sample_token [of sample_intent] refl]
    sample_token [of sample_intent]
  by (simp add: unary_number_format sample_decision_def)

subsection \<open>Results\<close>

lemma executedResult_Inr:
  "executedResult h i ev now = Inr r \<longleftrightarrow>
     evidence_failure i ev = None \<and> r = evidence_result i ev now \<and> result_ok h r"
  by (auto simp: executedResult_def parse_result_json split: option.splits if_splits)

lemma executed_order_id: "result_ok h (evidence_result i ev now) \<Longrightarrow> ev_orderId ev = Some s \<Longrightarrow> s \<noteq> []"
  by (auto simp: result_ok_iff fields_ok_def evidence_result_def)

lemma executed_evidence_accepted:
  assumes "executedResult h i ev now = Inr r"
  shows "validateCachedResultEvidenceForIntent key r i = Inr ()"
proof -
  have ok: "evidence_failure i ev = None"
    and fields: "xr_executionKind r = Some (executionKindForIntent i)" "xr_orderId r = ev_orderId ev"
      "xr_orderStatus r = ev_orderStatus ev"
    and oid: "ev_orderId ev \<noteq> Some []"
    using assms executed_order_id [of h i ev now "[]"] by (auto simp: executedResult_Inr evidence_result_def)
  show ?thesis
    using ok oid unfolding validateCachedResultEvidenceForIntent_def fields
    by (cases i; cases "ev_orderId ev"; cases "ev_orderStatus ev")
      (simp_all add: evidence_failure_def Let_def split: if_splits)
qed

text \<open>C20. An executed result is evidence for its intent: whatever the connector returned, a result the
  broker calls executed satisfies the result schema, names the intent and its idempotency key, has
  the execution kind of its action, and passes the check that the idempotency store makes before it
  replays it.\<close>

theorem executed_result_is_evidence:
  assumes "executedResult h i ev now = Inr r"
  shows "result_ok h r \<and> xr_status r = Executed \<and> xr_intentId r = in_intentId i \<and>
    xr_idempotencyKey r = in_idempotencyKey i \<and> xr_executionKind r = Some (executionKindForIntent i) \<and>
    validateCachedResultEvidenceForIntent key r i = Inr ()"
  using assms executed_evidence_accepted [OF assms] by (auto simp: executedResult_Inr evidence_result_def)

theorem executed_result_is_evidence_witness:
  "\<exists>r. executedResult digit_host sample_intent (no_evidence\<lparr>ev_orderId := Some ''paper-1''\<rparr>) (sample_date 2) =
     Inr r \<and> xr_executionKind r = Some CexOrderKind"
proof -
  let ?ev = "no_evidence\<lparr>ev_orderId := Some ''paper-1''\<rparr>"
  have run: "executedResult digit_host sample_intent ?ev (sample_date 2) =
      Inr (evidence_result sample_intent ?ev (sample_date 2))"
    by (simp add: executedResult_Inr evidence_failure_def evidence_result_def no_evidence_def result_ok_def
        fits_def result_variants_def present_def sample_envelope_def)
  from executed_result_is_evidence [OF run] run show ?thesis by simp
qed

subsection \<open>Terminal events and the file\<close>

lemma no_holes_through [simp]: "no_holes (through_json v)"
  by (induction v rule: through_json.induct) (auto simp: list_all_iff)

lemma canon_through: "canon_by le (through_json v) = canon_by le v"
proof (induction v rule: through_json.induct)
  case (4 kvs)
  have "filter (\<lambda>(k, v). v \<noteq> JUndef) (map (\<lambda>(k, v). (k, through_json v)) xs) =
      map (\<lambda>(k, v). (k, through_json v)) xs" for xs :: "(string \<times> jsval) list"
    by (auto simp: filter_id_conv)
  moreover have "map (\<lambda>(k, v). (k, canon_by le v)) (map (\<lambda>(k, v). (k, through_json v))
      (filter (\<lambda>(k, v). v \<noteq> JUndef) kvs)) = map (\<lambda>(k, v). (k, canon_by le v))
      (filter (\<lambda>(k, v). v \<noteq> JUndef) kvs)"
    using 4 unfolding map_map by (intro map_cong) auto
  ultimately show ?case by (simp del: map_map)
qed (auto simp: o_def)

lemma stringify_through: "no_holes v \<Longrightarrow> stable_stringify h (through_json v) = stable_stringify h v"
  by (simp add: stable_stringify_def stable_stringify_by_render canon_through)

lemma map_of_through_json:
  "distinct (map fst kvs) \<Longrightarrow> map_of (members (through_json (JObj kvs))) k =
     (case map_of kvs k of None \<Rightarrow> None | Some v \<Rightarrow> if v = JUndef then None else Some (through_json v))"
proof (induction kvs)
  case (Cons y kvs)
  obtain l v where y: "y = (l, v)" by (cases y)
  have "l \<notin> fst ` set kvs" using Cons.prems y by auto
  then have "map_of kvs l = None" by (simp add: map_of_eq_None_iff)
  with Cons y show ?case by (auto split: option.splits)
qed simp

lemma get_through:
  "distinct (map fst kvs) \<Longrightarrow> js_get (through_json (JObj kvs)) k =
     (case map_of kvs k of None \<Rightarrow> JUndef | Some v \<Rightarrow> if v = JUndef then JUndef else through_json v)"
  unfolding js_get_def map_of_through_json by (auto split: option.split)

end
