(* ===== verification/SideEffects.thy ===== *)
theory SideEffects
  imports ExecutionProtocol BrokerSafety
begin

text \<open>
  When the connector is called: the trace of an execution has at most one call, and everything that
  the code checks before it is in the trace before it.
\<close>

declare ret_run [simp del] throw_run [simp del]

subsection \<open>What a call rests on\<close>

definition is_call :: "event \<Rightarrow> bool" where
  "is_call e \<longleftrightarrow> (case e of EvCall i \<Rightarrow> True | _ \<Rightarrow> False)"

definition calm :: "event set" where
  "calm = {e. \<not> is_call e}"

definition uncalled :: "event list \<Rightarrow> bool" where
  "uncalled tr \<longleftrightarrow> set tr \<subseteq> calm"

text \<open>The decision met every requirement at the instant the execution started with, and came with the
  dry run that a live order needs.\<close>

definition decided :: "host \<Rightarrow> 'w broker \<Rightarrow> guardrail_approval \<Rightarrow> dry_run_authorization option \<Rightarrow>
    trading_intent \<Rightarrow> event list \<Rightarrow> bool" where
  "decided h b ap dry i tr \<longleftrightarrow> parse_intent h (gp_intent ap) = Some i \<and>
     (\<exists>t rest. tr = EvNow t # rest \<and> list_all snd (decision_requirements h (br_config b) ap i (iso_string h t)) \<and>
       (bc_environment (br_config b) = CanaryLive \<and> intent_action i = PlaceOrder \<longrightarrow>
         dryRunAuthorizationMatches h dry (bc_secret (br_config b)) i (iso_string h t) (bc_decisionMaxAgeMs (br_config b))))"

text \<open>Every scope of a list was read as not stopped.\<close>

definition switch_clear :: "trading_intent \<Rightarrow> scope list \<Rightarrow> event list \<Rightarrow> bool" where
  "switch_clear i scs evs \<longleftrightarrow>
     (\<forall>sc \<in> set scs. \<exists>v. EvSwitch sc v \<in> set evs \<and> (v \<longrightarrow> intent_action i = CancelOrder))"

text \<open>The live preflight passed: the switch was clear, the audit log and the approval store were healthy,
  the store said that it is configured for live trading, and the passing summary was written.\<close>

definition preflight_summary :: "'w broker \<Rightarrow> trading_intent \<Rightarrow> string \<Rightarrow> audit_event" where
  "preflight_summary b i cid = broker_event (br_config b) ''broker.preflight'' (in_intentId i) (in_principal i) cid
     [(''passed'', JBool True), (''checks'', JArr (map preflight_check_json
        [passed_check ''kill_switch'', passed_check ''audit'', passed_check ''approval'']))]"

definition preflighted :: "'w broker \<Rightarrow> trading_intent \<Rightarrow> string \<Rightarrow> event list \<Rightarrow> bool" where
  "preflighted b i cid evs \<longleftrightarrow> cid \<noteq> [] \<and> switch_clear i (getKillSwitchScopes i) evs \<and> EvAuditHealth True \<in> set evs \<and>
     EvLive True \<in> set evs \<and> EvStoreHealth True \<in> set evs \<and> EvWrite (preflight_summary b i cid) True \<in> set evs"

text \<open>The stored approvals were listed, and the decision names an approval if it says that one is needed,
  has the member at all, or if one of the listed requests is for this intent.\<close>

definition human_asked :: "host \<Rightarrow> guardrail_approval \<Rightarrow> trading_intent \<Rightarrow> event list \<Rightarrow> bool" where
  "human_asked h ap i evs \<longleftrightarrow> (\<exists>rs. EvList rs \<in> set evs \<and>
     (gp_outcome ap = ''needs_human'' \<or> gp_approvalId ap \<noteq> None \<or> (\<exists>r \<in> set rs. approvalMatchesIntent h r i None) \<longrightarrow>
       approval_id ap \<noteq> None))"

text \<open>The reservation was granted, after the gates that come before it.\<close>

definition reserved_after :: "(event list \<Rightarrow> bool) \<Rightarrow> trading_intent \<Rightarrow> event list \<Rightarrow> bool" where
  "reserved_after P i tr \<longleftrightarrow> (\<exists>before after. tr = before @ EvBegin (in_idempotencyKey i) i True # after \<and> P before)"

definition gates_passed :: "host \<Rightarrow> 'w broker \<Rightarrow> guardrail_approval \<Rightarrow> trading_intent \<Rightarrow> event list \<Rightarrow> bool" where
  "gates_passed h b ap i evs \<longleftrightarrow>
     (bc_environment (br_config b) = CanaryLive \<longrightarrow> preflighted b i (gp_correlationId ap) evs) \<and> human_asked h ap i evs"

text \<open>The human approval that the decision names was found approved, one-time, for this intent and not
  past its timeout by the clock read afterwards; and it has been consumed.\<close>

definition approved_by :: "host \<Rightarrow> guardrail_approval \<Rightarrow> trading_intent \<Rightarrow> string \<Rightarrow> event list \<Rightarrow> bool" where
  "approved_by h ap i k tr \<longleftrightarrow> (\<exists>before after r t by now. tr = before @ EvGet k (Some r) # after \<and> EvNow now \<in> set after \<and>
     ar_state r = AppApproved t by \<and> \<not> num_less (date_parse h (ar_timeoutAt r)) (num_of_int now) \<and>
     ap_approvalType r = OneTime \<and> approvalMatchesIntent h r i (Some (gp_correlationId ap)))"

definition authorised :: "host \<Rightarrow> guardrail_approval \<Rightarrow> trading_intent \<Rightarrow> event list \<Rightarrow> bool" where
  "authorised h ap i tr \<longleftrightarrow> (\<forall>k. approval_id ap = Some k \<longrightarrow> approved_by h ap i k tr)"

definition consumed :: "guardrail_approval \<Rightarrow> event list \<Rightarrow> bool" where
  "consumed ap tr \<longleftrightarrow> (\<forall>k. approval_id ap = Some k \<longrightarrow> EvConsume k True \<in> set tr)"

text \<open>After the connector had revalidated the intent, every scope was read as not stopped, and the dry run
  of a live order was still fresh by a clock read after that.\<close>

definition dry_run_fresh :: "host \<Rightarrow> 'w broker \<Rightarrow> dry_run_authorization option \<Rightarrow> trading_intent \<Rightarrow> event list \<Rightarrow> bool" where
  "dry_run_fresh h b dry i evs \<longleftrightarrow> (bc_environment (br_config b) = CanaryLive \<and> intent_action i = PlaceOrder \<longrightarrow>
     (\<exists>t. EvNow t \<in> set evs \<and> dryRunIsFresh h (case dry of Some a \<Rightarrow> da_checkedAt a | None \<Rightarrow> [])
       (iso_string h t) (bc_decisionMaxAgeMs (br_config b))))"

definition revalidated_then :: "(event list \<Rightarrow> bool) \<Rightarrow> trading_intent \<Rightarrow> event list \<Rightarrow> bool" where
  "revalidated_then Q i tr \<longleftrightarrow> (\<exists>before after. tr = before @ EvRevalidate i True # after \<and> Q after)"

abbreviation revalidated :: "trading_intent \<Rightarrow> event list \<Rightarrow> bool" where
  "revalidated \<equiv> revalidated_then (\<lambda>_. True)"

abbreviation revalidated_clear :: "trading_intent \<Rightarrow> event list \<Rightarrow> bool" where
  "revalidated_clear i \<equiv> revalidated_then (switch_clear i (getKillSwitchScopes i)) i"

definition last_checks :: "host \<Rightarrow> 'w broker \<Rightarrow> dry_run_authorization option \<Rightarrow> trading_intent \<Rightarrow> event list \<Rightarrow> bool" where
  "last_checks h b dry i evs \<longleftrightarrow> switch_clear i (getKillSwitchScopes i) evs \<and> dry_run_fresh h b dry i evs"

definition cleared :: "host \<Rightarrow> 'w broker \<Rightarrow> guardrail_approval \<Rightarrow> dry_run_authorization option \<Rightarrow>
    trading_intent \<Rightarrow> event list \<Rightarrow> bool" where
  "cleared h b ap dry i tr \<longleftrightarrow> decided h b ap dry i tr \<and> reserved_after (gates_passed h b ap i) i tr \<and>
     authorised h ap i tr \<and> revalidated_then (last_checks h b dry i) i tr \<and> consumed ap tr"

subsection \<open>Facts that stay\<close>

definition stays :: "(event list \<Rightarrow> bool) \<Rightarrow> bool" where
  "stays P \<longleftrightarrow> (\<forall>tr evs. P tr \<longrightarrow> P (tr @ evs))"

named_theorems stays_rules \<open>facts on traces that stay when events are added\<close>

lemma stays_basic [stays_rules]: "stays (\<lambda>tr. Q)" "stays (\<lambda>tr. e \<in> set tr)" "stays (\<lambda>tr. \<exists>rest. tr = e # rest)"
  by (auto simp: stays_def)

lemma stays_split:
  assumes "\<And>before after evs. Q before after \<Longrightarrow> Q before (after @ evs)"
  shows "stays (\<lambda>tr. \<exists>before after. tr = before @ e # after \<and> Q before after)"
  unfolding stays_def
proof (intro allI impI, elim exE conjE)
  fix tr evs before after
  assume "tr = before @ e # after" "Q before after"
  then show "\<exists>before after. tr @ evs = before @ e # after \<and> Q before after"
    by (intro exI [of _ before] exI [of _ "after @ evs"]) (simp add: assms)
qed

lemma stays_reserved [stays_rules]: "stays (reserved_after P i)"
  unfolding reserved_after_def by (rule stays_split)

lemma stays_revalidated [stays_rules]: "stays Q \<Longrightarrow> stays (revalidated_then Q i)"
  unfolding revalidated_then_def by (rule stays_split) (simp add: stays_def)

lemma stays_conj [stays_rules]: "stays P \<Longrightarrow> stays Q \<Longrightarrow> stays (\<lambda>tr. P tr \<and> Q tr)"
  by (simp add: stays_def)

lemma stays_all [stays_rules]: "(\<And>x. stays (P x)) \<Longrightarrow> stays (\<lambda>tr. \<forall>x. P x tr)"
  by (simp add: stays_def)

lemma stays_imp [stays_rules]: "stays P \<Longrightarrow> stays (\<lambda>tr. Q \<longrightarrow> P tr)"
  by (simp add: stays_def)

lemma stays_ex [stays_rules]: "(\<And>x. stays (P x)) \<Longrightarrow> stays (\<lambda>tr. \<exists>x. P x tr)"
  unfolding stays_def by blast

lemma stays_switch [stays_rules]: "stays (switch_clear i scs)" "stays (dry_run_fresh h b dry i)"
  "stays (last_checks h b dry i)" "stays (preflighted b i cid)" "stays (human_asked h ap i)"
  unfolding last_checks_def preflighted_def human_asked_def
  by (auto simp: stays_def switch_clear_def dry_run_fresh_def)

lemma stays_approved [stays_rules]: "stays (approved_by h ap i k)"
  unfolding stays_def approved_by_def
proof (intro allI impI, elim exE conjE)
  fix tr evs before after r t "by" now
  assume "tr = before @ EvGet k (Some r) # after" "EvNow now \<in> set after" "ar_state r = AppApproved t by"
    "\<not> num_less (date_parse h (ar_timeoutAt r)) (num_of_int now)" "ap_approvalType r = OneTime"
    "approvalMatchesIntent h r i (Some (gp_correlationId ap))"
  then show "\<exists>before after r t by now. tr @ evs = before @ EvGet k (Some r) # after \<and> EvNow now \<in> set after \<and>
      ar_state r = AppApproved t by \<and> \<not> num_less (date_parse h (ar_timeoutAt r)) (num_of_int now) \<and>
      ap_approvalType r = OneTime \<and> approvalMatchesIntent h r i (Some (gp_correlationId ap))"
    by (intro exI [of _ before] exI [of _ "after @ evs"] exI [of _ r] exI [of _ t] exI [of _ "by"] exI [of _ now]) simp
qed

lemma stays_authorised [stays_rules]: "stays (authorised h ap i)" "stays (consumed ap)"
  unfolding authorised_def consumed_def by (intro stays_rules)+

subsection \<open>Computations that do not call\<close>

definition known :: "(event list \<Rightarrow> bool) \<Rightarrow> 'w \<times> event list \<Rightarrow> bool" where
  "known P s \<longleftrightarrow> uncalled (snd s) \<and> P (snd s)"

lemma quiet_calm: "quiet \<subseteq> calm"
  by (auto simp: quiet_def calm_def is_call_def split: event.splits)

lemma calm_quiet: "adds g quiet m \<Longrightarrow> adds g calm m"
  using adds_mono quiet_calm by blast

lemmas calm_collaborators [adds_rules] = quiet_collaborators [THEN calm_quiet] quiet_reject [THEN calm_quiet]
  quiet_live_failure [THEN calm_quiet] quiet_approval_failure [THEN calm_quiet]
  quiet_still_fresh [THEN calm_quiet] quiet_flush [THEN calm_quiet]

lemma calm_ops [adds_rules]:
  "adds snd calm (ro_complete (traced_ops ops) r a)" "adds snd calm (ro_abort (traced_ops ops) e)"
  "adds snd calm (ro_completeAudit (traced_ops ops))" "adds snd calm (ro_failAudit (traced_ops ops) e)"
  unfolding traced_ops_noting by (rule adds_noting; simp add: calm_def is_call_def)+

lemma known_add: "stays P \<Longrightarrow> set evs \<subseteq> calm \<Longrightarrow> known P (w, tr) \<Longrightarrow> known P (w', tr @ evs)"
  by (auto simp: known_def uncalled_def stays_def)

lemma known_calm:
  assumes "adds snd calm m" "stays P"
  shows "triple (known P) m (\<lambda>_. known P) (\<lambda>_. known P)"
proof (rule tripleI)
  show "known P t" if "known P s" "m s = (Inr x, t)" for s x t
    using addsE [OF assms(1) that(2)] known_add [OF assms(2)] that(1) by (metis prod.collapse)
  show "known P t" if "known P s" "m s = (Inl e, t)" for s e t
    using addsE [OF assms(1) that(2)] known_add [OF assms(2)] that(1) by (metis prod.collapse)
qed

lemma known_kept: "adds snd calm m \<Longrightarrow> stays P \<Longrightarrow> known P s \<Longrightarrow> m s = (Inr x, t) \<Longrightarrow> P (snd t)"
  using tripleD_val [OF known_calm, of m P s x t] unfolding known_def by blast

lemma calm_frame:
  "adds frame_trace calm m \<Longrightarrow> stays P \<Longrightarrow>
   triple (\<lambda>s. known P (snd s)) m (\<lambda>_ s. known P (snd s)) (\<lambda>_ s. known P (snd s))"
proof (rule tripleI)
  assume m: "adds frame_trace calm m" and P: "stays P"
  show "known P (snd t)" if "known P (snd s)" "m s = (Inr x, t)" for s x t
    using addsE [OF m that(2)] known_add [OF P] that(1) by (metis prod.collapse)
  show "known P (snd t)" if "known P (snd s)" "m s = (Inl e, t)" for s e t
    using addsE [OF m that(2)] known_add [OF P] that(1) by (metis prod.collapse)
qed

lemma calm_mark [adds_rules]:
  "adds frame_trace S mark_completed" "adds frame_trace S mark_persisting"
  by (auto simp: adds_def mark_completed_def mark_persisting_def modify_state_def)

lemma calm_reject_finish [adds_rules]:
  "adds frame_trace calm (reject_finish h (traced b) (traced_ops ops) i now cid why)"
  unfolding reject_finish_def finish_def by (intro adds_rules)

lemma calm_reject_abort [adds_rules]:
  "adds frame_trace calm (reject_abort h (traced b) (traced_ops ops) i now cid why)"
  unfolding reject_abort_def by (intro adds_rules)

lemma calm_check_approved [adds_rules]:
  "adds frame_trace calm (check_approved h (traced b) (traced_ops ops) x r)"
proof (cases r)
  case (Some y)
  show ?thesis
    unfolding check_approved_def Let_def Some
    by (cases "ar_state y") (auto intro!: adds_rules)
qed (auto simp: check_approved_def intro!: adds_rules)

lemma calm_stages [adds_rules]:
  "adds frame_trace calm (approval_checks h (traced b) (traced_ops ops) x)"
  "adds frame_trace calm (kill_switch_stop h (traced b) (traced_ops ops) x)"
  "adds frame_trace calm (revalidation_stop h (traced b) (traced_ops ops) x)"
  "adds frame_trace calm (late_dry_run_stop h (traced b) (traced_ops ops) x)"
  "adds frame_trace calm (consume_stop h (traced b) (traced_ops ops) x)"
  unfolding approval_checks_def kill_switch_stop_def revalidation_stop_def late_dry_run_stop_def
    consume_stop_def Let_def
  by (intro adds_rules)+

lemma calm_finish [adds_rules]:
  "adds frame_trace calm (finishExecutionWithAudit (traced b) (traced_ops ops) t)"
proof -
  have "adds frame_trace calm (case r of Inl e \<Rightarrow> throw e
      | Inr u \<Rightarrow> andthen (on_world (ro_completeAudit (traced_ops ops))) (\<lambda>u. ret (fst t)))" for r
    by (cases r) (auto intro!: adds_rules)
  then show ?thesis unfolding finishExecutionWithAudit_def by (intro adds_rules)
qed

subsection \<open>What a stage lets through\<close>

text \<open>A stage that returns \<open>None\<close> adds a fact; otherwise nothing is called.\<close>

definition passes :: "(event list \<Rightarrow> bool) \<Rightarrow> (('w \<times> event list) frame, 'a option) eff \<Rightarrow>
    (event list \<Rightarrow> bool) \<Rightarrow> bool" where
  "passes P m Q \<longleftrightarrow> triple (\<lambda>s. known P (snd s)) m
     (\<lambda>r s. uncalled (frame_trace s) \<and> (r = None \<longrightarrow> known Q (snd s))) (\<lambda>_ s. uncalled (frame_trace s))"

lemma known_uncalled: "known P s \<Longrightarrow> uncalled (snd s)"
  by (simp add: known_def)

lemma passes_calm: "adds frame_trace calm m \<Longrightarrow> stays P \<Longrightarrow> passes P m P"
  unfolding passes_def
  by (rule triple_post [OF calm_frame]) (auto simp: known_def)

text \<open>A stage that asks a collaborator and goes on.\<close>

lemma passes_andthen:
  assumes "triple (\<lambda>s. known P (snd s)) m (\<lambda>x s. known (R x) (snd s)) (\<lambda>_ s. uncalled (frame_trace s))"
    and "\<And>x. passes (R x) (f x) Q"
  shows "passes P (andthen m f) Q"
  unfolding passes_def
  by (rule triple_andthen [OF assms(1)]) (use assms(2) in \<open>simp add: passes_def\<close>)

lemma passes_none: "(\<And>tr. P tr \<Longrightarrow> Q tr) \<Longrightarrow> passes P (ret None) Q"
  by (auto simp: passes_def triple_def ret_def known_def)

lemma passes_refuse:
  assumes "adds frame_trace calm m" "stays P" "\<And>s r t. m s = (Inr r, t) \<Longrightarrow> r \<noteq> None"
  shows "passes P m Q"
  unfolding passes_def
proof (rule tripleI)
  show "uncalled (frame_trace t) \<and> (r = None \<longrightarrow> known Q (snd t))" if "known P (snd s)" "m s = (Inr r, t)" for s r t
    using assms(3) [OF that(2)] tripleD_val [OF calm_frame [OF assms(1,2)] that] by (auto simp: known_def)
  show "uncalled (frame_trace t)" if "known P (snd s)" "m s = (Inl e, t)" for s e t
    using tripleD_exn [OF calm_frame [OF assms(1,2)] that] by (simp add: known_def)
qed

lemma andthen_Inr: "andthen m f s = (Inr r, t) \<Longrightarrow> \<exists>x u. f x u = (Inr r, t)"
  by (auto simp: andthen_def split: prod.splits sum.splits)

lemma reject_finish_some: "reject_finish h b ops i now cid why s = (Inr r, t) \<Longrightarrow> r \<noteq> None"
  unfolding reject_finish_def by (auto dest!: andthen_Inr simp: ret_def)

lemma reject_abort_some: "reject_abort h b ops i now cid why s = (Inr r, t) \<Longrightarrow> r \<noteq> None"
  unfolding reject_abort_def by (auto dest!: andthen_Inr simp: ret_def)

lemma passes_finish: "stays P \<Longrightarrow> passes P (reject_finish h (traced b) (traced_ops ops) i now cid why) Q"
  by (rule passes_refuse [OF calm_reject_finish]) (assumption | erule reject_finish_some)+

lemma passes_abort: "stays P \<Longrightarrow> passes P (reject_abort h (traced b) (traced_ops ops) i now cid why) Q"
  by (rule passes_refuse [OF calm_reject_abort]) (assumption | erule reject_abort_some)+

lemmas passes_rejected = passes_finish passes_abort

text \<open>Collaborators that are recorded: what the record says of the value they returned.\<close>

lemma known_noting:
  assumes "stays P" "\<And>r. set (f r) \<subseteq> calm" "\<And>tr x. P tr \<Longrightarrow> Q x (tr @ f (Inr x))"
  shows "triple (\<lambda>s. known P (snd s)) (on_world (noting f n)) (\<lambda>x s. known (Q x) (snd s))
    (\<lambda>_ s. uncalled (frame_trace s))"
  using assms
  by (auto simp: triple_def known_def on_world_def noting_def uncalled_def split: prod.splits sum.split)

lemma known_world:
  assumes "stays P" "adds snd calm m"
  shows "triple (\<lambda>s. known P (snd s)) (on_world m) (\<lambda>_ s. known P (snd s)) (\<lambda>_ s. uncalled (frame_trace s))"
  by (rule triple_post [OF calm_frame [OF adds_on_world [OF assms(2)] assms(1)]]) (auto simp: known_def)

lemma passes_known:
  "stays P \<Longrightarrow> adds snd calm m \<Longrightarrow> (\<And>x. passes P (f x) Q) \<Longrightarrow> passes P (andthen (on_world m) f) Q"
  by (rule passes_andthen [OF known_world])

lemma passes_if: "(c \<Longrightarrow> passes P m Q) \<Longrightarrow> (\<not> c \<Longrightarrow> passes P n Q) \<Longrightarrow> passes P (if c then m else n) Q"
  by simp

lemma traced_get: "as_get (br_approvals (traced b)) k =
    noting (\<lambda>r. case r of Inr x \<Rightarrow> [EvGet k x] | Inl e \<Rightarrow> []) (as_get (br_approvals b) k)"
  and traced_consume: "as_consume (br_approvals (traced b)) k =
    noting (\<lambda>r. case r of Inr x \<Rightarrow> [EvConsume k (x \<noteq> None)] | Inl e \<Rightarrow> []) (as_consume (br_approvals b) k)"
  and traced_revalidate: "cn_revalidate (br_connector (traced b)) i =
    noting (\<lambda>r. case r of Inr (passed, m) \<Rightarrow> [EvRevalidate i passed] | Inl e \<Rightarrow> [])
      (cn_revalidate (br_connector b) i)"
  by (simp_all only: traced_def broker.simps approvals.simps connector.simps)

lemma traced_now: "br_now (traced b) = noting (\<lambda>r. case r of Inr t \<Rightarrow> [EvNow t] | Inl e \<Rightarrow> []) (br_now b)"
  by (simp only: traced_def broker.simps)

lemma check_approved_passes:
  fixes b :: "'w broker"
  assumes P: "stays P"
  shows "passes (\<lambda>tr. P tr \<and> EvGet k r \<in> set tr) (check_approved h (traced b) (traced_ops ops) x r)
    (\<lambda>tr. P tr \<and> approved_by h (ex_approval x) (ex_intent x) k tr)"
proof -
  have stay: "stays (\<lambda>tr. P tr \<and> EvGet k r \<in> set tr)" by (intro stays_rules P)
  note refused = passes_rejected [OF stay]
  show ?thesis
  proof (cases r)
    case (Some y)
    show ?thesis
    proof (cases "ar_state y")
      case (AppApproved t u)
      let ?R = "\<lambda>now tr. P tr \<and> (\<exists>before after. tr = before @ EvGet k (Some y) # after \<and> EvNow now \<in> set after)"
      have later: "stays (?R now)" for now
        by (intro stays_conj P stays_split) simp
      have clock: "triple (\<lambda>s. known (\<lambda>tr. P tr \<and> EvGet k (Some y) \<in> set tr) (snd s)) (on_world (br_now (traced b)))
          (\<lambda>now s. known (?R now) (snd s)) (\<lambda>_ s. uncalled (frame_trace s))"
        unfolding traced_now
      proof (rule known_noting [OF stay [unfolded Some]])
        fix tr now
        assume "P tr \<and> EvGet k (Some y) \<in> set tr"
        then obtain before after where tr: "P tr" "tr = before @ EvGet k (Some y) # after" by (meson split_list)
        have "P (tr @ [EvNow now])" using P tr(1) by (simp add: stays_def)
        moreover have "tr @ [EvNow now] = before @ EvGet k (Some y) # (after @ [EvNow now])" by (simp add: tr(2))
        ultimately show "?R now (tr @ (case Inr now of Inr t \<Rightarrow> [EvNow t] | Inl e \<Rightarrow> []))"
          unfolding sum.case by (metis in_set_conv_decomp)
      qed (auto simp: calm_def is_call_def split: sum.splits)
      have "passes (?R now) (ret None) (\<lambda>tr. P tr \<and> approved_by h (ex_approval x) (ex_intent x) k tr)"
        if "ap_approvalType y = OneTime" "approvalMatchesIntent h y (ex_intent x) (Some (ex_cid x))"
          "\<not> num_less (date_parse h (ar_timeoutAt y)) (num_of_int now)" for now
        by (rule passes_none) (use AppApproved that in \<open>unfold approved_by_def, blast\<close>)
      then show ?thesis
        unfolding check_approved_def Let_def Some option.case AppApproved approval_state.case
        using passes_rejected [OF later]
        by (intro passes_andthen [OF clock] passes_if) auto
    qed (use refused in \<open>simp_all add: check_approved_def Let_def Some\<close>)
  qed (use refused in \<open>simp add: check_approved_def\<close>)
qed

lemma approval_checks_passes:
  assumes P: "stays P"
  shows "passes P (approval_checks h (traced b) (traced_ops ops) x)
    (\<lambda>tr. P tr \<and> authorised h (ex_approval x) (ex_intent x) tr \<and>
      (canary_order b x \<longrightarrow> dryRunAuthorizationMatches h (ex_dryRun x) (bc_secret (br_config b))
        (ex_intent x) (ex_now x) (bc_decisionMaxAgeMs (br_config b))))"
proof -
  let ?dry = "canary_order b x \<longrightarrow> dryRunAuthorizationMatches h (ex_dryRun x) (bc_secret (br_config b))
    (ex_intent x) (ex_now x) (bc_decisionMaxAgeMs (br_config b))"
  have "passes P (andthen (on_world (as_get (br_approvals (traced b)) k))
      (check_approved h (traced b) (traced_ops ops) x))
      (\<lambda>tr. P tr \<and> approved_by h (ex_approval x) (ex_intent x) k tr)" for k
    unfolding traced_get
    by (rule passes_andthen [OF known_noting check_approved_passes])
      (use P in \<open>auto simp: calm_def is_call_def stays_def split: sum.splits\<close>)
  then have "passes P (case approval_id (ex_approval x) of None \<Rightarrow> ret None
      | Some k \<Rightarrow> andthen (on_world (as_get (br_approvals (traced b)) k))
          (check_approved h (traced b) (traced_ops ops) x))
      (\<lambda>tr. P tr \<and> authorised h (ex_approval x) (ex_intent x) tr)"
    by (cases "approval_id (ex_approval x)") (auto simp: authorised_def intro: passes_none)
  then show ?thesis
    unfolding approval_checks_def
    using passes_rejected [OF P] by (cases ?dry) auto
qed

subsection \<open>The kill switch and the revalidation\<close>

lemma reading_recorded:
  assumes "readKillSwitchBlocking (br_isActive (traced b)) sc i s = (Inr False, t)"
  shows "\<exists>v. snd t = snd s @ [EvSwitch sc v] \<and> (v \<longrightarrow> intent_action i = CancelOrder)"
proof -
  obtain r w where run: "br_isActive b sc (fst s) = (r, w)" by (meson surj_pair)
  have traced: "br_isActive (traced b) sc s =
      (r, (w, snd s @ (case r of Inr (JBool a) \<Rightarrow> [EvSwitch sc a] | _ \<Rightarrow> [])))"
    by (simp add: traced_def noting_def run split_beta)
  show ?thesis
    using assms unfolding readKillSwitchBlocking_def
    by (auto simp: andthen_def try_catch_def traced throw_def ret_def split: sum.splits jsval.splits)
qed

lemma blocking_scope_recorded:
  "blocking_scope (br_isActive (traced b)) i scs s = (Inr None, t) \<Longrightarrow>
   \<exists>evs. snd t = snd s @ evs \<and> switch_clear i scs evs"
proof (induction scs arbitrary: s)
  case Nil
  then show ?case by (simp add: blocking_scope_def switch_clear_def ret_def)
next
  case (Cons sc scs)
  let ?read = "readKillSwitchBlocking (br_isActive (traced b)) sc i s"
  from Cons.prems obtain u where u: "?read = (Inr False, u)"
    and rest: "blocking_scope (br_isActive (traced b)) i scs u = (Inr None, t)"
    by (auto simp: blocking_scope_def andthen_assoc andthen_def ret_def split: prod.splits sum.splits if_splits)
  from reading_recorded [OF u] obtain v where
    v: "snd u = snd s @ [EvSwitch sc v]" "v \<longrightarrow> intent_action i = CancelOrder" by blast
  from Cons.IH [OF rest] obtain evs where evs: "snd t = snd u @ evs" "switch_clear i scs evs" by blast
  show ?case
    by (rule exI [of _ "EvSwitch sc v # evs"]) (use v evs in \<open>auto simp: switch_clear_def\<close>)
qed

lemma calm_blocking: "adds snd calm (blocking_scope (br_isActive (traced b)) i scs)"
  by (intro adds_rules)

lemma kill_switch_passes:
  fixes b :: "'w broker"
  assumes P: "stays P"
  shows "passes (\<lambda>tr. P tr \<and> revalidated (ex_intent x) tr) (kill_switch_stop h (traced b) (traced_ops ops) x)
    (\<lambda>tr. P tr \<and> revalidated_clear (ex_intent x) tr)"
  unfolding kill_switch_stop_def
proof (rule passes_andthen)
  let ?i = "ex_intent x"
  let ?P = "\<lambda>tr. P tr \<and> revalidated ?i tr"
  have stay: "stays ?P" by (intro stays_rules P)
  note kept = calm_frame [OF adds_on_world [OF calm_blocking] stay]
  have clear: "revalidated_clear ?i (tr @ evs)" if "revalidated ?i tr"
    "switch_clear ?i (getKillSwitchScopes ?i) evs" for tr evs
  proof -
    from that(1) obtain a c where "tr = a @ EvRevalidate ?i True # c" by (auto simp: revalidated_then_def)
    then show ?thesis
      unfolding revalidated_then_def
      by (intro exI [of _ a] exI [of _ "c @ evs"]) (use that(2) in \<open>auto simp: switch_clear_def\<close>)
  qed
  show "triple (\<lambda>s. known ?P (snd s)) (on_world (blocking_scope (br_isActive (traced b)) ?i (scopes_of x)))
      (\<lambda>r s. known (\<lambda>tr. ?P tr \<and> (r = None \<longrightarrow> revalidated_clear ?i tr)) (snd s))
      (\<lambda>_ s. uncalled (frame_trace s))"
  proof (rule tripleI)
    fix s t :: "('w \<times> event list) frame" and r
    assume s: "known ?P (snd s)" and run: "on_world (blocking_scope (br_isActive (traced b)) ?i (scopes_of x)) s = (Inr r, t)"
    have "known ?P (snd t)" by (rule tripleD_val [OF kept s run])
    moreover have "revalidated_clear ?i (frame_trace t)" if "r = None"
    proof -
      have "blocking_scope (br_isActive (traced b)) ?i (scopes_of x) (snd s) = (Inr None, snd t)"
        using run that by (auto simp: on_world_def split: prod.splits)
      from blocking_scope_recorded [OF this] obtain evs where
        "frame_trace t = frame_trace s @ evs" "switch_clear ?i (getKillSwitchScopes ?i) evs"
        by (auto simp: scopes_of_def)
      with clear s show ?thesis by (simp add: known_def)
    qed
    ultimately show "known (\<lambda>tr. ?P tr \<and> (r = None \<longrightarrow> revalidated_clear ?i tr)) (snd t)"
      by (simp add: known_def)
  qed (rule known_uncalled, erule (1) tripleD_exn [OF kept])
  show "passes (\<lambda>tr. ?P tr \<and> (r = None \<longrightarrow> revalidated_clear ?i tr)) (case r of None \<Rightarrow> ret None
      | Some sc \<Rightarrow> andthen (on_world (aw_write (br_audit (traced b))
          (intent_event (traced b) x ''killswitch.blocked'' [(''scope'', scope_json sc)]))) (\<lambda>_.
        reject_finish h (traced b) (traced_ops ops) ?i (ex_now x) (ex_cid x)
          (''killswitch_active'', ''Kill switch is active.'')))
      (\<lambda>tr. P tr \<and> revalidated_clear ?i tr)" for r
  proof (cases r)
    case (Some sc)
    have "stays (\<lambda>tr. ?P tr \<and> (r = None \<longrightarrow> revalidated_clear ?i tr))" by (intro stays_rules P)
    then show ?thesis
      unfolding Some option.case by (intro passes_known passes_finish) (auto intro: adds_rules)
  qed (auto intro: passes_none)
qed

lemma revalidation_passes:
  assumes P: "stays P"
  shows "passes P (revalidation_stop h (traced b) (traced_ops ops) x)
    (\<lambda>tr. P tr \<and> revalidated (ex_intent x) tr)"
  unfolding revalidation_stop_def traced_revalidate
proof (rule passes_andthen)
  let ?i = "ex_intent x"
  let ?Q = "\<lambda>v tr. P tr \<and> (fst v \<longrightarrow> revalidated ?i tr)"
  show "triple (\<lambda>s. known P (snd s)) (on_world (noting (\<lambda>r. case r of Inr (passed, m) \<Rightarrow> [EvRevalidate ?i passed]
      | Inl e \<Rightarrow> []) (cn_revalidate (br_connector b) ?i))) (\<lambda>v s. known (?Q v) (snd s))
      (\<lambda>_ s. uncalled (frame_trace s))"
  proof (rule known_noting [OF P])
    show "?Q v (tr @ (case Inr v of Inr (passed, m) \<Rightarrow> [EvRevalidate ?i passed] | Inl e \<Rightarrow> []))" if "P tr" for tr v
      using that P by (cases v) (auto simp: stays_def revalidated_then_def)
  qed (auto simp: calm_def is_call_def split: sum.splits)
  have stay: "stays (?Q v)" for v by (intro stays_rules P)
  show "passes (?Q v) (case v of (passed, reason) \<Rightarrow>
      andthen (on_world (aw_write (br_audit (traced b)) (intent_event (traced b) x ''broker.revalidated''
       [(''passed'', JBool passed),
        (''reason'', case reason of
           Some s \<Rightarrow> if s = [] then JUndef else JStr (redact_secrets h s) | None \<Rightarrow> JUndef)]))) (\<lambda>_.
     if passed then ret None
     else (let m = nonEmptyReason h reason ''Broker-side revalidation failed.'' in
       andthen (on_world (aw_write (br_audit (traced b))
         (intent_event (traced b) x ''broker.failed'' [(''reason'', JStr m)]))) (\<lambda>_.
       reject_finish h (traced b) (traced_ops ops) ?i (ex_now x) (ex_cid x)
         (''revalidation_failed'', m)))))
      (\<lambda>tr. P tr \<and> revalidated ?i tr)" for v
    using stay [of v] unfolding Let_def
    by (cases v; simp only: prod.case fst_conv)
      (intro passes_known passes_if passes_finish passes_none adds_rules; assumption?; simp)
qed

lemma still_fresh_recorded:
  assumes "dry_run_still_fresh h (traced b) x s = (Inr True, t)"
  shows "\<exists>evs. snd t = snd s @ evs \<and> dry_run_fresh h b (ex_dryRun x) (ex_intent x) evs"
proof (cases "canary_order b x")
  case True
  obtain r w where run: "br_now b (fst s) = (r, w)" by (meson surj_pair)
  show ?thesis
    using assms True run unfolding dry_run_still_fresh_def traced_now
    by (cases r) (auto simp: andthen_def noting_def ret_def dry_run_fresh_def split_beta)
next
  case False
  then show ?thesis
    using assms by (intro exI [of _ "[]"]) (auto simp: dry_run_still_fresh_def ret_def dry_run_fresh_def canary_order_def)
qed

lemma late_dry_run_passes:
  fixes b :: "'w broker"
  assumes P: "stays P"
  shows "passes (\<lambda>tr. P tr \<and> revalidated_clear (ex_intent x) tr) (late_dry_run_stop h (traced b) (traced_ops ops) x)
    (\<lambda>tr. P tr \<and> revalidated_then (last_checks h b (ex_dryRun x) (ex_intent x)) (ex_intent x) tr)"
  unfolding late_dry_run_stop_def
proof (rule passes_andthen)
  let ?i = "ex_intent x"
  let ?P = "\<lambda>tr. P tr \<and> revalidated_clear ?i tr"
  let ?Q = "\<lambda>fr tr. ?P tr \<and> (fr \<longrightarrow> revalidated_then (last_checks h b (ex_dryRun x) ?i) ?i tr)"
  have stay: "stays ?P" by (intro stays_rules P)
  note kept = calm_frame [OF adds_on_world [OF quiet_still_fresh [THEN calm_quiet]] stay]
  have after: "revalidated_then (last_checks h b (ex_dryRun x) ?i) ?i (tr @ evs)"
    if "revalidated_clear ?i tr" "dry_run_fresh h b (ex_dryRun x) ?i evs" for tr evs
  proof -
    from that(1) obtain a c where "tr = a @ EvRevalidate ?i True # c" "switch_clear ?i (getKillSwitchScopes ?i) c"
      by (auto simp: revalidated_then_def)
    then show ?thesis
      unfolding revalidated_then_def last_checks_def
      by (intro exI [of _ a] exI [of _ "c @ evs"]) (use that(2) in \<open>auto simp: switch_clear_def dry_run_fresh_def\<close>)
  qed
  show "triple (\<lambda>s. known ?P (snd s)) (on_world (dry_run_still_fresh h (traced b) x))
      (\<lambda>fr s. known (?Q fr) (snd s)) (\<lambda>_ s. uncalled (frame_trace s))"
  proof (rule tripleI)
    fix s t :: "('w \<times> event list) frame" and fr
    assume s: "known ?P (snd s)" and run: "on_world (dry_run_still_fresh h (traced b) x) s = (Inr fr, t)"
    have "known ?P (snd t)" by (rule tripleD_val [OF kept s run])
    moreover have "revalidated_then (last_checks h b (ex_dryRun x) ?i) ?i (frame_trace t)" if "fr"
    proof -
      have "dry_run_still_fresh h (traced b) x (snd s) = (Inr True, snd t)"
        using run that by (auto simp: on_world_def split: prod.splits)
      from still_fresh_recorded [OF this] after s show ?thesis by (auto simp: known_def)
    qed
    ultimately show "known (?Q fr) (snd t)" by (simp add: known_def)
  qed (rule known_uncalled, erule (1) tripleD_exn [OF kept])
  show "passes (?Q fr) (if fr then ret None
      else reject_abort h (traced b) (traced_ops ops) ?i (ex_now x) (ex_cid x)
        (''dry_run_expired'', ''Dry-run report expired during broker revalidation.''))
      (\<lambda>tr. P tr \<and> revalidated_then (last_checks h b (ex_dryRun x) ?i) ?i tr)" for fr
  proof (cases fr)
    case True
    then show ?thesis by (auto intro: passes_none)
  next
    case False
    have "passes (?Q False) (reject_abort h (traced b) (traced_ops ops) ?i (ex_now x) (ex_cid x)
        (''dry_run_expired'', ''Dry-run report expired during broker revalidation.''))
        (\<lambda>tr. P tr \<and> revalidated_then (last_checks h b (ex_dryRun x) ?i) ?i tr)"
      by (rule passes_abort) (intro stays_rules P)
    with False show ?thesis by simp
  qed
qed

lemma consume_passes:
  assumes P: "stays P"
  shows "passes P (consume_stop h (traced b) (traced_ops ops) x) (\<lambda>tr. P tr \<and> consumed (ex_approval x) tr)"
proof (cases "approval_id (ex_approval x)")
  case None
  then show ?thesis by (auto simp: consume_stop_def consumed_def intro: passes_none)
next
  case (Some k)
  let ?Q = "\<lambda>r tr. P tr \<and> EvConsume k (r \<noteq> None) \<in> set tr"
  show ?thesis
    unfolding consume_stop_def Some option.case traced_consume
  proof (rule passes_andthen)
    show "triple (\<lambda>s. known P (snd s)) (on_world (noting (\<lambda>r. case r of Inr x \<Rightarrow> [EvConsume k (x \<noteq> None)]
        | Inl e \<Rightarrow> []) (as_consume (br_approvals b) k))) (\<lambda>r s. known (?Q r) (snd s))
        (\<lambda>_ s. uncalled (frame_trace s))"
      by (rule known_noting [OF P]) (use P in \<open>auto simp: calm_def is_call_def stays_def split: sum.splits\<close>)
    have stay: "stays (?Q r)" for r :: "approval_request option" by (intro stays_rules P)
    show "passes (?Q r) (if r \<noteq> None then ret None else reject_finish h (traced b) (traced_ops ops)
        (ex_intent x) (ex_now x) (ex_cid x) (''approval_consumed'', ''Human approval has already been used.''))
        (\<lambda>tr. P tr \<and> consumed (ex_approval x) tr)" for r :: "approval_request option"
      using passes_finish [OF stay [of r]] by (cases r) (auto simp: consumed_def Some intro: passes_none)
  qed
qed

subsection \<open>The call\<close>

definition called_once :: "(trading_intent \<Rightarrow> event list \<Rightarrow> bool) \<Rightarrow> event list \<Rightarrow> bool" where
  "called_once C tr \<longleftrightarrow> uncalled tr \<or> (\<exists>i before after. tr = before @ EvCall i # after \<and>
     uncalled before \<and> uncalled after \<and> C i before)"

abbreviation guards :: "(event list \<Rightarrow> bool) \<Rightarrow> (('w \<times> event list) frame, 'a) eff \<Rightarrow>
    (trading_intent \<Rightarrow> event list \<Rightarrow> bool) \<Rightarrow> bool" where
  "guards P m C \<equiv> triple (\<lambda>s. known P (snd s)) m (\<lambda>_ s. called_once C (frame_trace s))
     (\<lambda>_ s. called_once C (frame_trace s))"

lemma called_once_add: "called_once C tr \<Longrightarrow> set evs \<subseteq> calm \<Longrightarrow> called_once C (tr @ evs)"
  unfolding called_once_def uncalled_def
proof (elim disjE exE conjE)
  fix i before after
  assume tr: "tr = before @ EvCall i # after" "set before \<subseteq> calm" "set after \<subseteq> calm" "C i before"
    and "set evs \<subseteq> calm"
  then show "set (tr @ evs) \<subseteq> calm \<or> (\<exists>i before after. tr @ evs = before @ EvCall i # after \<and>
      set before \<subseteq> calm \<and> set after \<subseteq> calm \<and> C i before)"
    by (intro disjI2 exI [of _ i] exI [of _ before] exI [of _ "after @ evs"]) simp
qed simp

lemma called_once_calm:
  assumes "adds frame_trace calm m"
  shows "triple (\<lambda>s. called_once C (frame_trace s)) m (\<lambda>_ s. called_once C (frame_trace s))
    (\<lambda>_ s. called_once C (frame_trace s))"
proof (rule tripleI)
  show "called_once C (frame_trace t)" if "called_once C (frame_trace s)" "m s = (Inr r, t)" for s r t
    using addsE [OF assms that(2)] called_once_add that(1) by metis
  show "called_once C (frame_trace t)" if "called_once C (frame_trace s)" "m s = (Inl e, t)" for s e t
    using addsE [OF assms that(2)] called_once_add that(1) by metis
qed

lemma guards_unless_settled:
  assumes "passes P m Q" "guards Q n C"
  shows "guards P (unless_settled m n) C"
  unfolding unless_settled_def
proof (rule triple_andthen)
  show "triple (\<lambda>s. known P (snd s)) m (\<lambda>r s. uncalled (frame_trace s) \<and> (r = None \<longrightarrow> known Q (snd s)))
      (\<lambda>_ s. called_once C (frame_trace s))"
    by (rule triple_post [OF assms(1) [unfolded passes_def]]) (auto simp: called_once_def)
  show "triple (\<lambda>s. uncalled (frame_trace s) \<and> (r = None \<longrightarrow> known Q (snd s)))
      (case r of Some x \<Rightarrow> ret x | None \<Rightarrow> n) (\<lambda>_ s. called_once C (frame_trace s))
      (\<lambda>_ s. called_once C (frame_trace s))" for r
    using assms(2) by (cases r) (auto simp: triple_def ret_def called_once_def)
qed

lemma call_guards:
  fixes b :: "'w broker"
  assumes "\<And>tr. P tr \<Longrightarrow> C i tr" "adds snd quiet m"
  shows "guards P (on_world (run_conn m (cn_execute (br_connector (traced b)) i))) C"
  unfolding traced_call on_world_andthen
proof (rule triple_andthen)
  show "triple (\<lambda>s :: ('w \<times> event list) frame. known P (snd s))
      (on_world (modify_state (\<lambda>(w, tr). (w, tr @ [EvCall i]))))
      (\<lambda>_ s. called_once C (frame_trace s)) (\<lambda>_ s. called_once C (frame_trace s))"
  proof (rule tripleI)
    fix s t :: "('w \<times> event list) frame" and u :: unit
    assume s: "known P (snd s)"
      and "on_world (modify_state (\<lambda>(w, tr). (w, tr @ [EvCall i]))) s = (Inr u, t)"
    then have t: "frame_trace t = frame_trace s @ EvCall i # []"
      by (auto simp: on_world_def modify_state_def split: prod.splits)
    show "called_once C (frame_trace t)"
      unfolding called_once_def t
      by (intro disjI2 exI [of _ i] exI [of _ "frame_trace s"] exI [of _ "[]"])
        (use s assms in \<open>simp add: known_def uncalled_def\<close>)
  qed (auto simp: on_world_def modify_state_def split: prod.splits)
  show "triple (\<lambda>s. called_once C (frame_trace s))
      (on_world (run_conn m (traced_run (cn_execute (br_connector b) i))))
      (\<lambda>_ s. called_once C (frame_trace s)) (\<lambda>_ s. called_once C (frame_trace s))"
    by (intro called_once_calm adds_on_world calm_quiet adds_rules assms(2))
qed

lemma call_connector_guards:
  assumes "\<And>tr. P tr \<Longrightarrow> C (ex_intent x) tr"
  shows "guards P (call_connector h (traced b) (traced_ops ops) x) C"
  unfolding call_connector_def
proof (rule triple_andthen)
  show "triple (\<lambda>s. known P (snd s)) (attempt (on_world (run_conn (before_side_effect h (traced b) x)
      (cn_execute (br_connector (traced b)) (ex_intent x))))) (\<lambda>_ s. called_once C (frame_trace s))
      (\<lambda>_ s. called_once C (frame_trace s))"
    by (rule triple_attempt, rule call_guards [where C = C]) (auto intro: assms adds_rules)
  show "triple (\<lambda>s. called_once C (frame_trace s)) (andthen mark_persisting
      (\<lambda>_. finishExecutionWithAudit (traced b) (traced_ops ops) (terminal h (traced b) x r)))
      (\<lambda>_ s. called_once C (frame_trace s)) (\<lambda>_ s. called_once C (frame_trace s))" for r
    by (intro called_once_calm adds_rules)
qed

lemma guarded_guards:
  assumes "triple P m Q (\<lambda>_ s. called_once C (frame_trace s))"
  shows "triple P (guarded (traced_ops ops) m) Q (\<lambda>_ s. called_once C (frame_trace s))"
  unfolding guarded_def
proof (rule triple_try_catch [OF assms])
  fix err
  let ?handler = "andthen (read_state fst) (\<lambda>fl. if \<not> fl_completed fl \<and> \<not> fl_persisting fl
    then andthen (on_world (ro_abort (traced_ops ops) err)) (\<lambda>_. throw err) else throw err)"
  have "adds frame_trace calm ?handler" by (intro adds_rules)
  moreover have "?handler s \<noteq> (Inr r, t)" for s r t
    by (auto simp: andthen_def throw_def read_state_def split: prod.splits sum.splits)
  ultimately show "triple (\<lambda>s. called_once C (frame_trace s)) ?handler Q (\<lambda>_ s. called_once C (frame_trace s))"
    using called_once_calm tripleD_exn by (intro tripleI) (fastforce, blast)
qed

text \<open>The execution of a reservation, from what is known when it was granted.\<close>

lemma execute_reserved_guards:
  assumes P: "stays P"
    and C: "\<And>tr. P tr \<Longrightarrow> authorised h (ex_approval x) (ex_intent x) tr \<Longrightarrow>
      (canary_order b x \<longrightarrow> dryRunAuthorizationMatches h (ex_dryRun x) (bc_secret (br_config b))
        (ex_intent x) (ex_now x) (bc_decisionMaxAgeMs (br_config b))) \<Longrightarrow>
      revalidated_then (last_checks h b (ex_dryRun x) (ex_intent x)) (ex_intent x) tr \<Longrightarrow>
      consumed (ex_approval x) tr \<Longrightarrow> C (ex_intent x) tr"
  shows "guards P (execute_reserved h (traced b) (traced_ops ops) x) C"
proof -
  let ?i = "ex_intent x"
  let ?Q = "\<lambda>tr. P tr \<and> authorised h (ex_approval x) ?i tr \<and>
    (canary_order b x \<longrightarrow> dryRunAuthorizationMatches h (ex_dryRun x) (bc_secret (br_config b))
      ?i (ex_now x) (bc_decisionMaxAgeMs (br_config b)))"
  have Q: "stays ?Q" by (intro stays_rules P)
  have R: "stays (\<lambda>tr. ?Q tr \<and> revalidated_then (last_checks h b (ex_dryRun x) ?i) ?i tr)" by (intro stays_rules P)
  have "guards ?Q (perform_execution h (traced b) (traced_ops ops) x) C"
    unfolding perform_execution_def
    by (rule guards_unless_settled [OF passes_calm [OF _ Q]] guards_unless_settled [OF revalidation_passes [OF Q]]
        guards_unless_settled [OF kill_switch_passes [OF Q]] guards_unless_settled [OF late_dry_run_passes [OF Q]]
        guards_unless_settled [OF consume_passes [OF R]] call_connector_guards adds_rules
        | (elim conjE, rule C; assumption))+
  then have perform: "guards ?Q (guarded (traced_ops ops) (perform_execution h (traced b) (traced_ops ops) x)) C"
    by (rule guarded_guards)
  have "passes P (guarded (traced_ops ops) (approval_checks h (traced b) (traced_ops ops) x)) ?Q"
    unfolding passes_def
    by (rule guarded_guards [where C = "\<lambda>i tr. False", unfolded called_once_def simp_thms ex_simps])
      (rule approval_checks_passes [OF P, unfolded passes_def])
  then show ?thesis
    unfolding execute_reserved_def by (rule guards_unless_settled [OF _ perform])
qed

subsection \<open>The whole execution\<close>

abbreviation reaches :: "(event list \<Rightarrow> bool) \<Rightarrow> ('w \<times> event list, 'a) eff \<Rightarrow>
    (trading_intent \<Rightarrow> event list \<Rightarrow> bool) \<Rightarrow> bool" where
  "reaches P m C \<equiv> triple (known P) m (\<lambda>_ s. called_once C (snd s)) (\<lambda>_ s. called_once C (snd s))"

lemma known_called: "known P s \<Longrightarrow> called_once C (snd s)"
  by (simp add: known_def called_once_def)

lemma reaches_ret: "reaches P (ret x) C"
  by (simp add: triple_def ret_def known_called)

lemma reaches_calm:
  assumes "stays P" "adds snd calm m" "\<And>x. reaches P (f x) C"
  shows "reaches P (andthen m f) C"
  by (rule triple_andthen [OF triple_post [OF known_calm [OF assms(2,1)]] assms(3)])
    (auto simp: known_called)

lemma reaches_in_frame:
  fixes b :: "'w broker"
  assumes "guards P (execute_reserved h (traced b) (traced_ops ops) x) C"
  shows "reaches P (andthen (in_frame (execute_reserved h (traced b) (traced_ops ops) x)) (\<lambda>r. ret (Settled r))) C"
proof (rule triple_andthen)
  let ?m = "execute_reserved h (traced b) (traced_ops ops) x"
  show "reaches P (in_frame ?m) C"
  proof -
    have "called_once C (snd t')" if "known P s" "in_frame ?m s = (r, t')" for s t' :: "'w \<times> event list" and r
      using that triple_always [OF assms, of "(\<lparr>fl_completed = False, fl_persisting = False\<rparr>, s)"]
      by (auto simp: in_frame_def split: prod.splits)
    then show ?thesis by (intro tripleI)
  qed
qed (simp add: triple_def ret_def)

lemma begin_reaches:
  fixes b :: "'w broker"
  assumes P: "stays P"
    and C: "\<And>tr. P tr \<Longrightarrow> reserved_after P (ex_intent x) tr \<Longrightarrow>
      authorised h (ex_approval x) (ex_intent x) tr \<Longrightarrow>
      (canary_order b x \<longrightarrow> dryRunAuthorizationMatches h (ex_dryRun x) (bc_secret (br_config b))
        (ex_intent x) (ex_now x) (bc_decisionMaxAgeMs (br_config b))) \<Longrightarrow>
      revalidated_then (last_checks h b (ex_dryRun x) (ex_intent x)) (ex_intent x) tr \<Longrightarrow> consumed (ex_approval x) tr \<Longrightarrow> C (ex_intent x) tr"
  shows "reaches P (begin_reservation h (traced b) x) C"
proof -
  let ?i = "ex_intent x" and ?begun = "EvBegin (in_idempotencyKey (ex_intent x)) (ex_intent x)"
  have begin_traced: "br_begin (traced b) k i = traced_begin b k i" for k i by (simp add: traced_def)
  have "called_once C (snd (snd (begin_reservation h (traced b) x (w, tr))))" if s: "known P (w, tr)" for w tr
  proof -
    obtain r w' where run: "br_begin b (in_idempotencyKey ?i) ?i w = (r, w')" by (meson surj_pair)
    have begun: "known (\<lambda>tr. P tr \<and> (g \<longrightarrow> reserved_after P ?i tr)) (w', tr @ [?begun g])" for g
      using s P unfolding reserved_after_def by (auto simp: known_def uncalled_def calm_def is_call_def stays_def)
    have stay: "stays (\<lambda>tr. P tr \<and> (g \<longrightarrow> reserved_after P ?i tr))" for g by (intro stays_rules P)
    have go: "called_once C (snd (snd (m (w', tr @ [?begun g]))))"
      if "reaches (\<lambda>tr. P tr \<and> (g \<longrightarrow> reserved_after P ?i tr)) m C" for m :: "('w \<times> event list, outcome) eff" and g
      by (rule triple_always [OF that begun])
    have reserved: "reaches (\<lambda>tr. P tr \<and> (True \<longrightarrow> reserved_after P ?i tr))
        (andthen (in_frame (execute_reserved h (traced b) (traced_ops ops) x)) (\<lambda>r. ret (Settled r))) C" for ops
      by (rule reaches_in_frame [OF execute_reserved_guards [OF stay]]) (blast intro: C)
    show ?thesis
    proof (cases r)
      case (Inl e)
      then show ?thesis
        unfolding begin_reservation_cases begin_traced traced_begin_def
        using begun [of False, THEN known_called]
        by (cases e) (auto simp: run throw_def intro!: go reaches_calm [OF stay] reaches_ret adds_rules)
    next
      case (Inr res)
      show ?thesis
        unfolding begin_reservation_cases begin_traced traced_begin_def
        using begun [of False, THEN known_called] go [OF reserved]
        by (cases res) (auto simp: run Inr is_reserved_def ret_def [of "Later p" for p]
            intro!: go reaches_calm [OF stay] reaches_ret adds_rules)
    qed
  qed
  then show ?thesis by (intro tripleI) (metis prod.collapse snd_conv)+
qed

text \<open>A gate that lets the execution pass establishes a fact of the trace.\<close>

lemma gate_reaches:
  assumes "stays P" "adds snd calm m" "\<And>s t. known P s \<Longrightarrow> m s = (Inr None, t) \<Longrightarrow> Q (snd t)" "reaches Q rest C"
  shows "reaches P (gate h (traced b) x m rest) C"
  unfolding gate_def
proof (rule triple_andthen)
  show "triple (known P) m (\<lambda>r s. known P s \<and> (r = None \<longrightarrow> Q (snd s))) (\<lambda>_ s. called_once C (snd s))"
  proof (rule tripleI)
    show "known P t \<and> (r = None \<longrightarrow> Q (snd t))" if "known P s" "m s = (Inr r, t)" for s r t
      using assms(3) [OF that(1)] tripleD_val [OF known_calm [OF assms(2,1)] that] that(2) by blast
    show "called_once C (snd t)" if "known P s" "m s = (Inl e, t)" for s e t
      by (rule known_called, rule tripleD_exn [OF known_calm [OF assms(2,1)] that])
  qed
  show "triple (\<lambda>s. known P s \<and> (r = None \<longrightarrow> Q (snd s))) (case r of Some why \<Rightarrow> andthen
      (reject h (traced b) (ex_intent x) (ex_now x) (ex_cid x) why) (\<lambda>r. ret (Settled r)) | None \<Rightarrow> rest)
      (\<lambda>_ s. called_once C (snd s)) (\<lambda>_ s. called_once C (snd s))" for r
  proof (cases r)
    case None
    have "triple (\<lambda>s. known P s \<and> Q (snd s)) rest (\<lambda>_ s. called_once C (snd s)) (\<lambda>_ s. called_once C (snd s))"
      by (rule triple_pre [OF assms(4)]) (simp add: known_def)
    then show ?thesis by (simp add: None)
  next
    case (Some why)
    have "reaches P (andthen (reject h (traced b) (ex_intent x) (ex_now x) (ex_cid x) why)
        (\<lambda>r. ret (Settled r))) C" by (intro reaches_calm [OF assms(1)] reaches_ret adds_rules)
    then show ?thesis by (simp add: Some)
  qed
qed

subsection \<open>What the gates before the reservation record\<close>

lemma preflight_recorded:
  assumes "br_preflight (traced b) i cid s = (Inr (True, cs), t)"
  shows "\<exists>evs. snd t = snd s @ evs \<and> preflighted b i cid evs"
proof -
  let ?p = "\<lparr>pp_audit = br_audit (traced b), pp_isActive = br_isActive (traced b), pp_store = br_live (traced b),
    pp_environment = bc_environment (br_config b), pp_intent = i, pp_correlationId = cid\<rparr>"
  from preflight_passes_iff [of ?p s] assms obtain w1 w2 w3 where
    k: "checkKillSwitch ?p s = (Inr (passed_check ''kill_switch''), w1)"
    and a: "checkAudit ?p w1 = (Inr (passed_check ''audit''), w2)"
    and l: "checkApproval ?p w2 = (Inr (passed_check ''approval''), w3)"
    and w: "writeSummary ?p True [passed_check ''kill_switch'', passed_check ''audit'', passed_check ''approval''] w3 =
      (Inr True, t)" and cid: "cid \<noteq> []"
    by (auto simp: br_preflight_def)
  have "blocking_scope (br_isActive (traced b)) i (getKillSwitchScopes i) s = (Inr None, w1)"
    using k by (auto simp: checkKillSwitch_def try_catch_def andthen_def ret_def passed_check_def failed_check_def
        split: prod.splits sum.splits option.splits)
  from blocking_scope_recorded [OF this] obtain e1 where e1: "snd w1 = snd s @ e1"
    "switch_clear i (getKillSwitchScopes i) e1" by blast
  have e2: "snd w2 = snd w1 @ [EvAuditHealth True]"
    using a unfolding checkAudit_def preflight_params.simps traced_health
    by (cases "aw_checkHealth (br_audit b)")
      (auto simp: try_catch_def andthen_def ret_def noting_def succeeded_def passed_check_def failed_check_def
        split: prod.splits sum.splits)
  have e3: "snd w3 = snd w2 @ [EvLive True, EvStoreHealth True]"
    using l unfolding checkApproval_def preflight_params.simps traced_health
    by (cases "Option.bind (br_live b) ls_checkHealth"; cases "Option.bind (br_live b) ls_liveConfigured")
      (auto simp: try_catch_def andthen_def ret_def noting_def succeeded_def passed_check_def failed_check_def
        split: prod.splits sum.splits if_splits)
  have e4: "snd t = snd w3 @ [EvWrite (preflight_summary b i cid) True]"
    using w cid by (auto simp: writeSummary_def traced_def try_catch_def andthen_def ret_def noting_def succeeded_def
        preflight_summary_def broker_event_def split: prod.splits sum.splits)
  have "switch_clear i (getKillSwitchScopes i) (e1 @ [EvAuditHealth True, EvLive True, EvStoreHealth True,
      EvWrite (preflight_summary b i cid) True])"
    using stays_switch(1) e1(2) unfolding stays_def by blast
  then show ?thesis
    by (intro exI [of _ "e1 @ [EvAuditHealth True, EvLive True, EvStoreHealth True,
        EvWrite (preflight_summary b i cid) True]"]) (simp add: preflighted_def e1 e2 e3 e4 cid)
qed

lemma live_failure_recorded:
  assumes "live_failure (traced b) i cid s = (Inr None, t)" "bc_environment (br_config b) = CanaryLive"
  shows "bc_canaryLiveEnabled (br_config b) \<and> preflighted b i cid (snd t)"
proof -
  obtain r u where run: "br_preflight (traced b) i cid s = (r, u)" by (meson surj_pair)
  have "bc_canaryLiveEnabled (br_config b)" and pass: "\<exists>cs. r = Inr (True, cs)" "u = t"
    using assms by (auto simp: live_failure_def andthen_def run ret_def split: if_splits sum.splits)
  then obtain evs where "snd t = snd s @ evs" "preflighted b i cid evs"
    using preflight_recorded run by blast
  then have "preflighted b i cid (snd t)"
    by (auto simp: preflighted_def switch_clear_def)
  with \<open>bc_canaryLiveEnabled (br_config b)\<close> show ?thesis by simp
qed

lemma approval_failure_recorded:
  assumes "approval_failure h (traced b) ap i s = (Inr None, t)"
  shows "human_asked h ap i (snd t)"
proof -
  have list: "as_list (br_approvals (traced b)) =
      noting (\<lambda>r. case r of Inr xs \<Rightarrow> [EvList xs] | Inl e \<Rightarrow> []) (as_list (br_approvals b))"
    by (simp only: traced_def broker.simps approvals.simps)
  obtain r w where run: "as_list (br_approvals b) (fst s) = (r, w)" by (meson surj_pair)
  obtain rs where rs: "r = Inr rs" and t: "snd t = snd s @ [EvList rs]"
    and needed: "\<not> (gp_approvalId ap \<noteq> None \<and> approval_id ap = None)"
      "\<not> ((gp_outcome ap = ''needs_human'' \<or> List.find (\<lambda>r. approvalMatchesIntent h r i None) rs \<noteq> None) \<and>
        approval_id ap = None)"
    using assms unfolding approval_failure_def findApprovalForIntent_def list
    by (cases r) (auto simp: andthen_def noting_def ret_def run split_beta split: if_splits)
  have "(\<exists>r \<in> set rs. approvalMatchesIntent h r i None) \<longrightarrow> approval_id ap \<noteq> None"
    using needed(2) by (auto simp: find_None_iff)
  then show ?thesis
    unfolding human_asked_def t using needed by (intro exI [of _ rs]) auto
qed

lemma requirements_met:
  assumes "decision_failure h c ap i now = None" "bc_environment c = CanaryLive \<longrightarrow> bc_canaryLiveEnabled c"
  shows "list_all snd (decision_requirements h c ap i now)"
  using assms
  by (auto simp: decision_failure_def decision_requirements_def decisionTokenMatches_def decisionIsStale_def
      createGuardrailDecisionToken_def token_message_def Let_def split: if_splits)

lemma execute_reaches:
  fixes b :: "'w broker"
  shows "reaches (\<lambda>tr. tr = []) (execute h (traced b) ap dry) (cleared h b ap dry)"
  unfolding execute_def Let_def traced_config
proof (rule triple_andthen)
  let ?C = "cleared h b ap dry"
  show "triple (known (\<lambda>tr. tr = [])) (br_now (traced b)) (\<lambda>t. known (\<lambda>tr. \<exists>rest. tr = EvNow t # rest))
      (\<lambda>_ s. called_once ?C (snd s))"
    by (auto simp: triple_def traced_def noting_def known_def called_once_def uncalled_def calm_def is_call_def
        split: prod.splits sum.splits)
  fix t
  let ?P = "\<lambda>tr. \<exists>rest. tr = EvNow t # rest"
  have P: "stays ?P" by (intro stays_rules)
  show "reaches ?P (case parse_intent h (gp_intent ap) of
      None \<Rightarrow> andthen (reject_as h (traced b) (gp_intentId ap) ''invalid-approval-intent'' ''unknown''
        (iso_string h t) (gp_correlationId ap) (''schema_validation'', ''Approval intent is malformed.''))
        (\<lambda>r. ret (Settled r))
    | Some i \<Rightarrow>
        gate h (traced b) \<lparr>ex_intent = i, ex_approval = ap, ex_now = iso_string h t, ex_dryRun = dry\<rparr>
          (ret (decision_failure h (br_config b) ap i (iso_string h t)))
        (gate h (traced b) \<lparr>ex_intent = i, ex_approval = ap, ex_now = iso_string h t, ex_dryRun = dry\<rparr>
          (live_failure (traced b) i (gp_correlationId ap))
        (gate h (traced b) \<lparr>ex_intent = i, ex_approval = ap, ex_now = iso_string h t, ex_dryRun = dry\<rparr>
          (approval_failure h (traced b) ap i)
        (begin_reservation h (traced b)
          \<lparr>ex_intent = i, ex_approval = ap, ex_now = iso_string h t, ex_dryRun = dry\<rparr>)))) ?C"
  proof (cases "parse_intent h (gp_intent ap)")
    case (Some i)
    let ?x = "\<lparr>ex_intent = i, ex_approval = ap, ex_now = iso_string h t, ex_dryRun = dry\<rparr>"
    let ?ok = "decision_failure h (br_config b) ap i (iso_string h t) = None"
    let ?live = "bc_environment (br_config b) = CanaryLive"
    let ?P1 = "\<lambda>tr. ?P tr \<and> ?ok"
    let ?P2 = "\<lambda>tr. ?P1 tr \<and> (?live \<longrightarrow> bc_canaryLiveEnabled (br_config b) \<and> preflighted b i (gp_correlationId ap) tr)"
    let ?P3 = "\<lambda>tr. ?P2 tr \<and> human_asked h ap i tr"
    have stays: "stays ?P1" "stays ?P2" "stays ?P3" by (intro stays_rules)+
    have "reaches ?P3 (begin_reservation h (traced b) ?x) ?C"
    proof (rule begin_reaches [OF stays(3)])
      fix tr
      assume facts: "?P3 tr" "reserved_after ?P3 (ex_intent ?x) tr" "authorised h (ex_approval ?x) (ex_intent ?x) tr"
        "canary_order b ?x \<longrightarrow> dryRunAuthorizationMatches h (ex_dryRun ?x) (bc_secret (br_config b)) (ex_intent ?x)
          (ex_now ?x) (bc_decisionMaxAgeMs (br_config b))"
        "revalidated_then (last_checks h b (ex_dryRun ?x) (ex_intent ?x)) (ex_intent ?x) tr" "consumed (ex_approval ?x) tr"
      have "reserved_after (gates_passed h b ap i) i tr"
        using facts(2) unfolding reserved_after_def gates_passed_def by fastforce
      moreover have "decided h b ap dry i tr"
        using facts(1,4) Some requirements_met [of h "br_config b" ap i "iso_string h t"]
        by (auto simp: decided_def canary_order_def)
      ultimately show "?C (ex_intent ?x) tr"
        using facts(3,5,6) by (simp add: cleared_def)
    qed
    then have "reaches ?P2 (gate h (traced b) ?x (approval_failure h (traced b) ap i) (begin_reservation h (traced b) ?x)) ?C"
      by (rule gate_reaches [OF stays(2) quiet_approval_failure [THEN calm_quiet], rotated])
        (use known_kept [OF quiet_approval_failure [THEN calm_quiet] stays(2)] approval_failure_recorded in blast)
    then have "reaches ?P1 (gate h (traced b) ?x (live_failure (traced b) i (gp_correlationId ap)) (gate h (traced b) ?x
        (approval_failure h (traced b) ap i) (begin_reservation h (traced b) ?x))) ?C"
      by (rule gate_reaches [OF stays(1) quiet_live_failure [THEN calm_quiet], rotated])
        (use known_kept [OF quiet_live_failure [THEN calm_quiet] stays(1)] live_failure_recorded in blast)
    then show ?thesis
      unfolding Some option.case
      by (rule gate_reaches [OF P, rotated 2]) (auto simp: ret_def known_def intro: adds_rules)
  qed (auto intro!: reaches_calm [OF P] reaches_ret adds_rules)
qed

subsection \<open>The check handed to the connector\<close>

lemma assert_recorded:
  fixes b :: "'w broker" and ev :: "scope \<Rightarrow> audit_event" and i :: trading_intent
  defines "check \<equiv> \<lambda>sc. andthen (try_catch (readKillSwitchBlocking (br_isActive (traced b)) sc i)
       (\<lambda>_. throw (ConnectorRevalidationError ''Kill switch is not reachable.''))) (\<lambda>blocked.
     if blocked then andthen (aw_write (br_audit (traced b)) (ev sc)) (\<lambda>_.
       throw (ConnectorRevalidationError ''Kill switch is active.''))
     else ret ())"
  shows "for_each check scs s = (Inr (), t) \<Longrightarrow> \<exists>evs. snd t = snd s @ evs \<and> switch_clear i scs evs"
proof (induction scs arbitrary: s)
  case Nil
  then show ?case by (simp add: switch_clear_def ret_def)
next
  case (Cons sc scs)
  have one: "readKillSwitchBlocking (br_isActive (traced b)) sc i s = (Inr False, u)" if "check sc s = (Inr x, u)" for x u
    using that by (auto simp: check_def andthen_def try_catch_def throw_def ret_def split: sum.splits prod.splits if_splits)
  obtain r u where u: "check sc s = (r, u)" by (meson surj_pair)
  with Cons.prems obtain x where r: "r = Inr x" and rest: "for_each check scs u = (Inr (), t)"
    by (auto simp: andthen_def split: sum.splits)
  from reading_recorded [OF one [OF u [unfolded r]]] obtain v where
    v: "snd u = snd s @ [EvSwitch sc v]" "v \<longrightarrow> intent_action i = CancelOrder" by blast
  from Cons.IH [OF rest] obtain evs where evs: "snd t = snd u @ evs" "switch_clear i scs evs" by blast
  show ?case
    by (rule exI [of _ "EvSwitch sc v # evs"]) (use v evs in \<open>auto simp: switch_clear_def\<close>)
qed

lemma before_side_effect_recorded:
  assumes "before_side_effect h (traced b) x s = (Inr (), t)"
  shows "\<exists>evs. snd t = snd s @ evs \<and> last_checks h b (ex_dryRun x) (ex_intent x) evs"
proof -
  obtain r u where u: "assertKillSwitchAllowsExecution (traced b) x s = (r, u)" by (meson surj_pair)
  then have r: "r = Inr ()" and fresh: "dry_run_still_fresh h (traced b) x u = (Inr True, t)"
    using assms by (auto simp: before_side_effect_def andthen_def ret_def throw_def
        split: sum.splits prod.splits if_splits)
  from assert_recorded [OF u [unfolded r assertKillSwitchAllowsExecution_def]] obtain e1 where
    "snd u = snd s @ e1" "switch_clear (ex_intent x) (getKillSwitchScopes (ex_intent x)) e1"
    by (auto simp: scopes_of_def)
  moreover from still_fresh_recorded [OF fresh] obtain e2 where
    "snd t = snd u @ e2" "dry_run_fresh h b (ex_dryRun x) (ex_intent x) e2" by blast
  ultimately show ?thesis
    by (intro exI [of _ "e1 @ e2"]) (auto simp: last_checks_def switch_clear_def dry_run_fresh_def)
qed

text \<open>C22. The connector is called at most once, and only when everything has been checked. Before the
  call, the decision met every requirement (outcome, token, age, environments, intent) at the instant the
  execution started with, with the dry run that a live order needs; the idempotency reservation was
  granted after the live preflight of a canary-live broker had passed and after the stored approvals were
  listed, the decision naming an approval wherever one is asked for or matches the intent; that approval
  was found approved, one-time, for this very intent and not past its timeout, and has been consumed; and
  after the connector had revalidated the intent every kill-switch scope was read as not stopped and the
  dry run of a live order was still fresh. Each time the check that the connector is given for its side
  effect returns, it has read all scopes and that freshness again.\<close>

theorem connector_called_when_cleared:
  "called_once (cleared h b ap dry) (snd (snd (execute h (traced b) ap dry (w, [])))) \<and>
   (\<forall>x s t. before_side_effect h (traced b) x s = (Inr (), t) \<longrightarrow>
      (\<exists>evs. snd t = snd s @ evs \<and> last_checks h b (ex_dryRun x) (ex_intent x) evs))"
proof (intro conjI allI impI)
  show "called_once (cleared h b ap dry) (snd (snd (execute h (traced b) ap dry (w, []))))"
    by (rule triple_always [OF execute_reaches]) (simp add: known_def uncalled_def)
qed (rule before_side_effect_recorded)

end
