(* ===== verification/BrokerResults.thy ===== *)
theory BrokerResults
  imports SideEffects BrokerSafety
begin

text \<open>
  What \<open>execute\<close> returns: a result of the schema, with a record of it in the audit log, or the
  stored result of an earlier execution.
\<close>

declare ret_run [simp del] throw_run [simp del]

subsection \<open>Recorded and well-typed results\<close>

definition recorded :: "exec_result \<Rightarrow> event list \<Rightarrow> bool" where
  "recorded r tr \<longleftrightarrow> (\<exists>e. EvWrite e True \<in> set tr \<and> ae_intentId e = Some (xr_intentId r) \<and>
     ae_eventType e = (if xr_status r = Executed then ''broker.executed'' else ''broker.failed''))"

lemma stays_recorded [stays_rules]: "stays (recorded r)"
  by (auto simp: stays_def recorded_def)

lemma failure_result_typed:
  assumes "intent_ok h i" "is_datetime h now" "reason \<noteq> []" "st \<noteq> Executed"
  shows "result_ok h (failure_result st p (in_intentId i) (in_idempotencyKey i) reason now)"
  using assms
  by (cases st; cases i)
    (simp_all add: result_ok_def failure_result_def fits_def result_variants_def present_def envelope_ok_def)

text \<open>The texts of a host that redaction does not make empty.\<close>

definition texts_ok :: "host \<Rightarrow> bool" where
  "texts_ok h \<longleftrightarrow> (\<forall>t. is_datetime h (iso_string h t)) \<and> (\<forall>s. s \<noteq> [] \<longrightarrow> redact_secrets h s \<noteq> [])"

lemma nonEmptyReason_nonempty: "texts_ok h \<Longrightarrow> f \<noteq> [] \<Longrightarrow> nonEmptyReason h v f \<noteq> []"
  by (simp add: texts_ok_def nonEmptyReason_def split: option.split)

definition well_typed :: "host \<Rightarrow> trading_intent \<Rightarrow> string \<Rightarrow> exec_result \<Rightarrow> bool" where
  "well_typed h i now r \<longleftrightarrow> (intent_ok h i \<and> is_datetime h now \<and> texts_ok h \<longrightarrow> result_ok h r)"

definition proper :: "host \<Rightarrow> trading_intent \<Rightarrow> string \<Rightarrow> exec_result \<Rightarrow> event list \<Rightarrow> bool" where
  "proper h i now r tr \<longleftrightarrow> recorded r tr \<and> well_typed h i now r \<and> xr_intentId r = in_intentId i"

lemma stays_proper [stays_rules]: "stays (proper h i now r)"
  unfolding proper_def by (intro stays_rules)

subsection \<open>Rejections\<close>

lemma written:
  "triple (\<lambda>_. True) (aw_write (br_audit (traced b)) e) (\<lambda>_ s. EvWrite e True \<in> set (snd s)) (\<lambda>_ _. True)"
  by (auto simp: triple_def traced_def noting_def split: prod.splits sum.splits)

lemma reject_proper:
  "triple (\<lambda>_. True) (reject h (traced b) i now cid why) (\<lambda>r s. proper h i now r (snd s)) (\<lambda>_ _. True)"
proof -
  let ?r = "\<lambda>reason. failure_result Rejected False (in_intentId i) (in_idempotencyKey i) reason now"
  have typed: "well_typed h i now (?r (nonEmptyReason h v ''Broker rejected execution.''))" for v
    by (simp add: well_typed_def failure_result_typed nonEmptyReason_nonempty)
  have recorded: "recorded (?r reason) tr"
    if "EvWrite (broker_event c ''broker.failed'' (in_intentId i) p cid data) True \<in> set tr" for reason tr c p data
    unfolding recorded_def using that
    by (intro exI conjI, assumption) (simp_all add: broker_event_def failure_result_def)
  show ?thesis
    unfolding reject_def reject_as_def Let_def
    by (rule triple_andthen [OF written])
      (simp add: triple_def ret_def proper_def typed recorded, simp add: failure_result_def)
qed

text \<open>A computation in a frame whose result is proper.\<close>

definition yields :: "host \<Rightarrow> trading_intent \<Rightarrow> string \<Rightarrow>
    (('w \<times> event list) frame, exec_result option) eff \<Rightarrow> bool" where
  "yields h i now m \<longleftrightarrow> triple (\<lambda>_. True) m (\<lambda>r s. \<forall>x. r = Some x \<longrightarrow> proper h i now x (frame_trace s)) (\<lambda>_ _. True)"

lemma yields_none: "yields h i now (ret None)"
  by (simp add: yields_def triple_def ret_def)

lemma yields_andthen: "(\<And>x. yields h i now (f x)) \<Longrightarrow> yields h i now (andthen m f)"
  unfolding yields_def by (rule triple_andthen [where R = "\<lambda>_ _. True"]) (simp_all add: triple_def split_beta split: sum.split)

lemma yields_if: "(c \<Longrightarrow> yields h i now m) \<Longrightarrow> (\<not> c \<Longrightarrow> yields h i now n) \<Longrightarrow> yields h i now (if c then m else n)"
  by simp

lemma yields_option:
  "(x = None \<Longrightarrow> yields h i now m) \<Longrightarrow> (\<And>y. x = Some y \<Longrightarrow> yields h i now (f y)) \<Longrightarrow>
   yields h i now (case x of None \<Rightarrow> m | Some y \<Rightarrow> f y)"
  by (cases x) auto

lemma yields_pair: "(\<And>y z. yields h i now (f y z)) \<Longrightarrow> yields h i now (case x of (y, z) \<Rightarrow> f y z)"
  by (cases x) simp

lemma proper_kept:
  assumes "adds frame_trace S m"
  shows "triple (\<lambda>s. proper h i now r (frame_trace s)) m (\<lambda>_ s. proper h i now r (frame_trace s)) (\<lambda>_ _. True)"
proof (rule tripleI)
  show "proper h i now r (frame_trace t)" if "proper h i now r (frame_trace s)" "m s = (Inr x, t)" for s x t
    using addsE [OF assms that(2)] stays_proper that(1) unfolding stays_def by metis
qed simp

lemma on_world_proper:
  "triple (\<lambda>_. True) (on_world (reject h (traced b) i now cid why)) (\<lambda>r s. proper h i now r (frame_trace s)) (\<lambda>_ _. True)"
  using reject_proper [of h b i now cid why]
  by (auto simp: triple_def on_world_def split: prod.splits sum.splits)

lemma yields_reject:
  "yields h i now (reject_finish h (traced b) (traced_ops ops) i now cid why)"
  "yields h i now (reject_abort h (traced b) (traced_ops ops) i now cid why)"
proof -
  have done_: "triple (\<lambda>s. proper h i now r (frame_trace s)) (andthen m (\<lambda>_. andthen mark_completed (\<lambda>_. ret (Some r))))
      (\<lambda>r s. \<forall>x. r = Some x \<longrightarrow> proper h i now x (frame_trace s)) (\<lambda>_ _. True)"
    if "adds frame_trace calm m" for r and m :: "(('w \<times> event list) frame, unit) eff"
    by (rule triple_andthen [OF proper_kept [OF that]], rule triple_andthen [OF proper_kept [OF calm_mark(1)]])
      (simp add: triple_def ret_def)
  show "yields h i now (reject_finish h (traced b) (traced_ops ops) i now cid why)"
    unfolding yields_def reject_finish_def finish_def andthen_assoc andthen_ret
    by (rule triple_andthen [OF on_world_proper done_]) (intro adds_rules)
  show "yields h i now (reject_abort h (traced b) (traced_ops ops) i now cid why)"
    unfolding yields_def reject_abort_def
    by (rule triple_andthen [OF on_world_proper done_]) (intro adds_rules)
qed

lemmas yields_rules = yields_none yields_reject yields_andthen yields_if yields_option yields_pair

subsection \<open>Stages and the call\<close>

abbreviation of_execution :: "host \<Rightarrow> execution \<Rightarrow> (('w \<times> event list) frame, exec_result option) eff \<Rightarrow> bool" where
  "of_execution h x m \<equiv> yields h (ex_intent x) (ex_now x) m"

lemma yields_check_approved: "of_execution h x (check_approved h (traced b) (traced_ops ops) x r)"
proof (cases r)
  case (Some y)
  show ?thesis
    unfolding check_approved_def Let_def Some by (cases "ar_state y") (auto intro!: yields_rules)
qed (simp add: check_approved_def yields_reject)

lemma yields_stages:
  "of_execution h x (approval_checks h (traced b) (traced_ops ops) x)"
  "of_execution h x (kill_switch_stop h (traced b) (traced_ops ops) x)"
  "of_execution h x (revalidation_stop h (traced b) (traced_ops ops) x)"
  "of_execution h x (late_dry_run_stop h (traced b) (traced_ops ops) x)"
  "of_execution h x (consume_stop h (traced b) (traced_ops ops) x)"
  unfolding approval_checks_def kill_switch_stop_def revalidation_stop_def late_dry_run_stop_def
    consume_stop_def Let_def
  by (intro yields_rules yields_check_approved)+

lemma terminal_proper:
  assumes "EvWrite (snd (terminal h b x r)) True \<in> set tr"
  shows "proper h (ex_intent x) (ex_now x) (fst (terminal h b x r)) tr"
proof -
  let ?i = "ex_intent x"
  have fields: "ae_intentId (terminal_event h b x ty d) = Some (in_intentId ?i)"
    "ae_eventType (terminal_event h b x ty d) = ty" for ty d
    by (simp_all add: terminal_event_def intent_event_def broker_event_def)
  have failed: "well_typed h ?i (ex_now x) (failure_result Failed p (in_intentId ?i) (in_idempotencyKey ?i) m (ex_now x))"
    if "m \<noteq> []" for p m
    using that by (simp add: well_typed_def failure_result_typed)
  have event: "ae_intentId (snd (terminal h b x r)) = Some (in_intentId ?i) \<and>
      xr_intentId (fst (terminal h b x r)) = in_intentId ?i \<and> ae_eventType (snd (terminal h b x r)) =
      (if xr_status (fst (terminal h b x r)) = Executed then ''broker.executed'' else ''broker.failed'') \<and>
      well_typed h ?i (ex_now x) (fst (terminal h b x r))"
  proof (cases r)
    case (Inl e)
    show ?thesis
      unfolding Inl terminal_def call_failed_def Let_def sum.case
      using failed [of "''Connector revalidation failed.''"] failed [of "''Execution failed.''"]
      by (simp add: fields failure_result_def)
  next
    case (Inr ev)
    show ?thesis
    proof (cases "executedResult h ?i ev (ex_now x)")
      case (Inl e)
      show ?thesis
        unfolding Inr terminal_def sum.case Inl evidence_failed_def Let_def
        using failed [of "''Execution evidence validation failed.''"] by (simp add: fields failure_result_def)
    next
      case (Inr y)
      have y: "y = evidence_result ?i ev (ex_now x)" and ok: "result_ok h (evidence_result ?i ev (ex_now x))"
        using Inr by (auto simp: executedResult_Inr)
      show ?thesis
        unfolding \<open>r = Inr ev\<close> terminal_def sum.case Inr y using ok
        by (simp add: fields executed_event_def evidence_result_def well_typed_def)
    qed
  qed
  then show ?thesis unfolding proper_def recorded_def using assms by metis
qed

lemma triple_true: "triple P m (\<lambda>_ _. True) (\<lambda>_ _. True)"
  by (simp add: triple_def split_beta split: sum.split)

lemma finish_yields:
  "triple (\<lambda>_. True) (finishExecutionWithAudit (traced b) (traced_ops ops) t)
     (\<lambda>r s. r = fst t \<and> EvWrite (snd t) True \<in> set (frame_trace s)) (\<lambda>_ _. True)"
proof -
  have audited: "triple (\<lambda>_. True) (try_catch (on_world (aw_write (br_audit (traced b)) (snd t)))
      (\<lambda>err. andthen (on_world (ro_failAudit (traced_ops ops) err)) (\<lambda>_. throw err)))
      (\<lambda>_ s. EvWrite (snd t) True \<in> set (frame_trace s)) (\<lambda>_ _. True)"
    using written [of b "snd t"]
    by (auto simp: triple_def try_catch_def on_world_def andthen_def throw_def split: prod.splits sum.splits)
  have ending: "triple (\<lambda>s. EvWrite (snd t) True \<in> set (frame_trace s))
      (case c of Inl e \<Rightarrow> throw e | Inr u \<Rightarrow> andthen (on_world (ro_completeAudit (traced_ops ops))) (\<lambda>u. ret (fst t)))
      (\<lambda>r s. r = fst t \<and> EvWrite (snd t) True \<in> set (frame_trace s)) (\<lambda>_ _. True)" for c
    by (cases c) (auto simp: triple_def throw_def andthen_def on_world_def traced_ops_def noting_def ret_def
        split: prod.splits sum.splits)
  show ?thesis
    unfolding finishExecutionWithAudit_def
    by (rule triple_andthen [OF triple_true], rule triple_andthen [OF triple_true], rule triple_andthen [OF audited ending])
qed

lemma yields_settled:
  assumes "of_execution h x m"
    and "triple (\<lambda>_. True) n (\<lambda>r s. proper h (ex_intent x) (ex_now x) r (frame_trace s)) (\<lambda>_ _. True)"
  shows "triple (\<lambda>_. True) (unless_settled m n)
    (\<lambda>r s. proper h (ex_intent x) (ex_now x) r (frame_trace s)) (\<lambda>_ _. True)"
  unfolding unless_settled_def
proof (rule triple_andthen [OF assms(1) [unfolded yields_def]])
  show "triple (\<lambda>s. \<forall>y. r = Some y \<longrightarrow> proper h (ex_intent x) (ex_now x) y (frame_trace s))
      (case r of Some y \<Rightarrow> ret y | None \<Rightarrow> n)
      (\<lambda>r s. proper h (ex_intent x) (ex_now x) r (frame_trace s)) (\<lambda>_ _. True)" for r
    using assms(2) by (cases r) (auto simp: triple_def ret_def)
qed

lemma yields_guarded:
  assumes "triple (\<lambda>_. True) m Q (\<lambda>_ _. True)"
  shows "triple (\<lambda>_. True) (guarded ops m) Q (\<lambda>_ _. True)"
  unfolding guarded_def
proof (rule triple_try_catch [OF assms])
  show "triple (\<lambda>_. True) (andthen (read_state fst) (\<lambda>fl. if \<not> fl_completed fl \<and> \<not> fl_persisting fl
      then andthen (on_world (ro_abort ops err)) (\<lambda>_. throw err) else throw err)) Q (\<lambda>_ _. True)" for err
    by (auto simp: triple_def andthen_def throw_def read_state_def split: prod.splits sum.splits)
qed

lemma reserved_proper:
  "triple (\<lambda>_. True) (execute_reserved h (traced b) (traced_ops ops) x)
     (\<lambda>r s. proper h (ex_intent x) (ex_now x) r (frame_trace s)) (\<lambda>_ _. True)"
proof -
  have call: "triple (\<lambda>_. True) (call_connector h (traced b) (traced_ops ops) x)
      (\<lambda>r s. proper h (ex_intent x) (ex_now x) r (frame_trace s)) (\<lambda>_ _. True)"
    unfolding call_connector_def
    by (rule triple_andthen [OF triple_true], rule triple_andthen [OF triple_true],
        rule triple_post [OF finish_yields]) (auto intro: terminal_proper)
  have "triple (\<lambda>_. True) (perform_execution h (traced b) (traced_ops ops) x)
      (\<lambda>r s. proper h (ex_intent x) (ex_now x) r (frame_trace s)) (\<lambda>_ _. True)"
    unfolding perform_execution_def by (intro yields_settled yields_stages call)
  then show ?thesis
    unfolding execute_reserved_def
    by (intro yields_settled yields_guarded yields_stages(1) [unfolded yields_def, THEN yields_guarded, folded yields_def])
qed

subsection \<open>The result of an execution\<close>

text \<open>The result was stored by an earlier execution; an event that was still owed for it is written.\<close>

definition replayed :: "'w broker \<Rightarrow> trading_intent \<Rightarrow> exec_result \<Rightarrow> event list \<Rightarrow> bool" where
  "replayed b i r tr \<longleftrightarrow> (\<exists>w w' pending m. br_begin b (in_idempotencyKey i) i w = (Inr (CachedResult r pending m), w') \<and>
     (\<forall>a. pending = Some a \<longrightarrow> EvWrite a True \<in> set tr))"

definition accounted :: "host \<Rightarrow> 'w broker \<Rightarrow> trading_intent \<Rightarrow> string \<Rightarrow> outcome \<Rightarrow> event list \<Rightarrow> bool" where
  "accounted h b i now out tr \<longleftrightarrow> (\<forall>r. out = Settled r \<longrightarrow> replayed b i r tr \<or> proper h i now r tr)"

abbreviation accounts :: "host \<Rightarrow> 'w broker \<Rightarrow> trading_intent \<Rightarrow> string \<Rightarrow> ('w \<times> event list, outcome) eff \<Rightarrow> bool" where
  "accounts h b i now m \<equiv> triple (\<lambda>_. True) m (\<lambda>out s. accounted h b i now out (snd s)) (\<lambda>_ _. True)"

lemma accounts_reject:
  "accounts h b i now (andthen (reject h (traced b) i now cid why) (\<lambda>r. ret (Settled r)))"
  by (rule triple_andthen [OF reject_proper]) (simp add: triple_def ret_def accounted_def)

lemma flush_written:
  "flushPendingTerminalAudit (traced b) (Some a) m s = (Inr u, t) \<Longrightarrow>
   \<exists>s'. EvWrite a True \<in> set (snd s') \<and> m s' = (Inr u, t)"
  by (auto simp: flushPendingTerminalAudit_def andthen_def traced_def noting_def split: prod.splits sum.splits)
    (metis in_set_conv_decomp snd_conv succeeded_simps(2))

lemma accounts_begin:
  fixes b :: "'w broker"
  shows "accounts h b (ex_intent x) (ex_now x) (begin_reservation h (traced b) x)"
proof (rule tripleI)
  let ?i = "ex_intent x"
  fix s t :: "'w \<times> event list" and out
  obtain w tr where s: "s = (w, tr)" by (cases s)
  assume run: "begin_reservation h (traced b) x s = (Inr out, t)"
  have begin_traced: "br_begin (traced b) k i = traced_begin b k i" for k i by (simp add: traced_def)
  obtain r w' where begun: "br_begin b (in_idempotencyKey ?i) ?i w = (r, w')" by (meson surj_pair)
  note unfolded = run [unfolded begin_reservation_cases s begin_traced traced_begin_def]
  show "accounted h b ?i (ex_now x) out (snd t)"
  proof (cases r)
    case (Inl e)
    then show ?thesis
      using unfolded tripleD_val [OF accounts_reject [where h = h and b = b and i = "?i" and now = "ex_now x"]]
      by (cases e) (auto simp: throw_def begun)
  next
    case (Inr res)
    show ?thesis
    proof (cases res)
      case (ReservedOps ops)
      have "accounts h b ?i (ex_now x) (andthen (in_frame (execute_reserved h (traced b) (traced_ops ops) x))
          (\<lambda>r. ret (Settled r)))"
      proof (rule triple_andthen)
        show "triple (\<lambda>_. True) (in_frame (execute_reserved h (traced b) (traced_ops ops) x))
            (\<lambda>r s. proper h ?i (ex_now x) r (snd s)) (\<lambda>_ _. True)"
          using reserved_proper [of h b ops x]
          by (auto simp: triple_def in_frame_def split: prod.splits sum.splits)
      qed (simp add: triple_def ret_def accounted_def)
      from tripleD_val [OF this] show ?thesis using unfolded by (auto simp: begun Inr ReservedOps)
    next
      case (CachedResult y pending m)
      have "out = Settled y \<and> (\<forall>a. pending = Some a \<longrightarrow> EvWrite a True \<in> set (snd t))"
      proof (cases pending)
        case (Some a)
        from unfolded obtain u where "flushPendingTerminalAudit (traced b) (Some a) (noting (\<lambda>x. [EvFlushed]) m)
            (w', tr @ [EvBegin (in_idempotencyKey ?i) ?i (is_reserved res)]) = (Inr u, t)" and out: "out = Settled y"
          by (auto simp: begun Inr CachedResult Some andthen_def ret_def split: prod.splits sum.splits)
        from flush_written [OF this(1)] obtain s' where "EvWrite a True \<in> set (snd s')"
          "noting (\<lambda>x. [EvFlushed]) m s' = (Inr u, t)" by blast
        then show ?thesis using out by (auto simp: Some noting_def split: prod.splits)
      qed (use unfolded in \<open>auto simp: begun Inr CachedResult flushPendingTerminalAudit_def andthen_def ret_def\<close>)
      then show ?thesis
        using begun unfolding accounted_def replayed_def Inr CachedResult by blast
    qed (use unfolded in \<open>auto simp: begun Inr accounted_def ret_def\<close>)
  qed
qed simp

lemma accounts_gate:
  assumes "accounts h b (ex_intent x) (ex_now x) rest"
  shows "accounts h b (ex_intent x) (ex_now x) (gate h (traced b) x m rest)"
  unfolding gate_def
  by (rule triple_andthen [OF triple_true])
    (use assms in \<open>auto intro!: triple_pre [OF accounts_reject] triple_pre [OF assms] split: option.split\<close>)

lemma accounts_execute:
  assumes "parse_intent h (gp_intent ap) = Some i"
  shows "triple (\<lambda>_. True) (execute h (traced b) ap dry)
    (\<lambda>out s. \<exists>t. accounted h b i (iso_string h t) out (snd s)) (\<lambda>_ _. True)"
  unfolding execute_def Let_def assms option.case
proof (rule triple_andthen [OF triple_true])
  fix t
  let ?x = "\<lparr>ex_intent = i, ex_approval = ap, ex_now = iso_string h t, ex_dryRun = dry\<rparr>"
  have "accounts h b (ex_intent ?x) (ex_now ?x) (gate h (traced b) ?x m (gate h (traced b) ?x m' (gate h (traced b) ?x m''
      (begin_reservation h (traced b) ?x))))" for m m' m''
    by (intro accounts_gate accounts_begin)
  then show "triple (\<lambda>_. True)
      (gate h (traced b) ?x (ret (decision_failure h (br_config (traced b)) ap i (iso_string h t)))
      (gate h (traced b) ?x (live_failure (traced b) i (gp_correlationId ap))
      (gate h (traced b) ?x (approval_failure h (traced b) ap i) (begin_reservation h (traced b) ?x))))
      (\<lambda>out s. \<exists>t. accounted h b i (iso_string h t) out (snd s)) (\<lambda>_ _. True)"
    by (rule triple_post) auto
qed

text \<open>The rejection of a decision whose intent is malformed, and its event.\<close>

definition malformed_reason :: "host \<Rightarrow> string" where
  "malformed_reason h = nonEmptyReason h (Some ''Approval intent is malformed.'') ''Broker rejected execution.''"

lemma execute_malformed:
  assumes "parse_intent h (gp_intent ap) = None"
  shows "triple (\<lambda>_. True) (execute h (traced b) ap dry) (\<lambda>out s. \<exists>t. out = Settled (failure_result Rejected False
      (gp_intentId ap) ''invalid-approval-intent'' (malformed_reason h) (iso_string h t)) \<and>
    EvWrite (broker_event (br_config b) ''broker.failed'' (gp_intentId ap) ''unknown'' (gp_correlationId ap)
      [(''rule'', JStr ''schema_validation''), (''message'', JStr (malformed_reason h))]) True \<in> set (snd s)) (\<lambda>_ _. True)"
  unfolding execute_def Let_def assms option.case reject_as_def traced_config malformed_reason_def fst_conv snd_conv
    andthen_assoc andthen_ret
  by (rule triple_andthen [OF triple_true], rule triple_andthen [OF written]) (auto simp: triple_def ret_def)

text \<open>C23. No result without a record: whatever \<open>execute\<close> settles a valid intent with is either the
  stored result of an earlier execution, with the event that was still owed for it now written, or a
  result for which this execution has written a \<open>broker.executed\<close> or \<open>broker.failed\<close> event, the one
  that its status says, under its intent. A decision with a malformed intent is settled with a rejection
  under the decision's own \<open>intentId\<close>, and its \<open>broker.failed\<close> event is written too.\<close>

theorem execute_result_recorded:
  assumes "execute h (traced b) ap dry (w, []) = (Inr (Settled r), (w', tr))"
  shows "case parse_intent h (gp_intent ap) of
      Some i \<Rightarrow> replayed b i r tr \<or> (recorded r tr \<and> xr_intentId r = in_intentId i)
    | None \<Rightarrow> xr_status r = Rejected \<and> xr_intentId r = gp_intentId ap \<and>
        EvWrite (broker_event (br_config b) ''broker.failed'' (gp_intentId ap) ''unknown'' (gp_correlationId ap)
          [(''rule'', JStr ''schema_validation''), (''message'', JStr (malformed_reason h))]) True \<in> set tr"
proof (cases "parse_intent h (gp_intent ap)")
  case None
  from tripleD_val [OF execute_malformed [OF None] _ assms] show ?thesis
    by (auto simp: None failure_result_def)
next
  case (Some i)
  from tripleD_val [OF accounts_execute [OF Some] _ assms] show ?thesis
    by (auto simp: Some accounted_def proper_def)
qed

text \<open>C24. \<open>execute\<close> returns values of its type for every valid intent: if the texts of the host are not
  empty after redaction and the idempotency store gives back results of the schema only, the result
  satisfies the schema of execution results on all paths, the rejections and failures included. For a
  malformed intent the result carries the unvalidated \<open>intentId\<close> of the decision, and satisfies the
  schema exactly when that is a UUID.\<close>

theorem execute_result_typed:
  assumes "texts_ok h"
    and "\<And>k j w r pending m w'. br_begin b k j w = (Inr (CachedResult r pending m), w') \<Longrightarrow> result_ok h r"
    and "execute h b ap dry w = (Inr (Settled r), w')"
  shows "if parse_intent h (gp_intent ap) = None then result_ok h r = is_uuid h (gp_intentId ap) else result_ok h r"
proof -
  have "forget (w, []) w" by (simp add: forget_def)
  from followsE [OF follows_execute this, of h b ap dry] assms(3) obtain s where
    run: "execute h (traced b) ap dry (w, []) = (Inr (Settled r), s)" by (metis prod.inject)
  show ?thesis
  proof (cases "parse_intent h (gp_intent ap)")
    case None
    from tripleD_val [OF execute_malformed [OF None] _ run] obtain t where
      "r = failure_result Rejected False (gp_intentId ap) ''invalid-approval-intent'' (malformed_reason h) (iso_string h t)"
      by auto
    moreover have "malformed_reason h \<noteq> []"
      unfolding malformed_reason_def by (rule nonEmptyReason_nonempty [OF assms(1)]) simp
    ultimately show ?thesis
      using assms(1) by (simp add: None result_ok_def failure_result_def fits_def result_variants_def present_def texts_ok_def)
  next
    case (Some i)
    from tripleD_val [OF accounts_execute [OF Some] _ run] obtain t where
      "accounted h b i (iso_string h t) (Settled r) (snd s)" by blast
    moreover have "intent_ok h i" using parse_intent_ok Some by blast
    ultimately show ?thesis
      using assms(1,2) by (auto simp: Some accounted_def replayed_def proper_def well_typed_def texts_ok_def)
  qed
qed

subsection \<open>A run\<close>

lemma sample_decided:
  "decision_failure digit_host sample_config (sample_decision sample_intent) sample_intent (sample_date 2) = None"
proof -
  have "decisionTokenMatches digit_host sample_config (sample_decision sample_intent) sample_intent"
    by (rule sample_token)
  moreover have "\<not> decisionIsStale digit_host sample_config (sample_date 1) (sample_date 2)"
    by (simp add: decisionIsStale_def sample_config_def Let_def num_sub_def)
  ultimately show ?thesis
    by (simp add: decision_failure_def sample_decision_def sample_config_def sample_envelope_def)
qed

lemma sample_members:
  "br_config sample_broker = sample_config" "br_now sample_broker = ret 2"
  "br_isActive sample_broker = (\<lambda>sc. ret (JBool False))" "aw_write (br_audit sample_broker) e = ret ()"
  "br_connector sample_broker = paper_connector (\<lambda>w. (''12345678'', w))"
  "br_begin sample_broker k i = ret (ReservedOps silent_ops)" "as_list (br_approvals sample_broker) = ret []"
  by (simp_all add: sample_broker_def)

lemma sample_read: "readKillSwitchBlocking (\<lambda>sc. ret (JBool False)) sc i = ret False"
  by (simp add: readKillSwitchBlocking_def try_catch_def ret_def andthen_def fun_eq_iff)

lemma sample_clear: "blocking_scope (\<lambda>sc. ret (JBool False)) i scs = ret None"
  by (induction scs) (simp_all add: blocking_scope_def sample_read)

lemma try_catch_ret: "try_catch (ret x) f = ret x"
  by (simp add: fun_eq_iff try_catch_def ret_def)

lemma attempt_ret: "attempt (ret x) = ret (Inr x)"
  by (simp add: fun_eq_iff attempt_def ret_def)

lemma for_each_ret: "for_each (\<lambda>x. ret ()) xs = ret ()"
  by (induction xs) simp_all

lemma on_world_ret: "on_world (ret x) = ret x"
  by (simp add: fun_eq_iff on_world_def ret_def)

lemma guarded_ret: "guarded ops (ret x) = ret x"
  by (simp add: guarded_def try_catch_def ret_def fun_eq_iff)

lemma sample_stages:
  assumes "ex_intent x = sample_intent" "ex_approval x = sample_decision sample_intent"
  shows "approval_checks h sample_broker ops x = ret None" "kill_switch_stop h sample_broker ops x = ret None"
    "revalidation_stop h sample_broker ops x = ret None" "late_dry_run_stop h sample_broker ops x = ret None"
    "consume_stop h sample_broker ops x = ret None"
  by (simp_all add: approval_checks_def kill_switch_stop_def revalidation_stop_def late_dry_run_stop_def
      consume_stop_def canary_order_def sample_members sample_config_def approval_id_def sample_decision_def
      sample_clear paper_connector_def paper_revalidate_def assms dry_run_still_fresh_def on_world_ret)

abbreviation sample_run :: execution where
  "sample_run \<equiv> \<lparr>ex_intent = sample_intent, ex_approval = sample_decision sample_intent, ex_now = sample_date 2,
    ex_dryRun = None\<rparr>"

lemma sample_before: "before_side_effect digit_host (sample_broker :: 'w broker) sample_run = ret ()"
  by (simp add: before_side_effect_def assertKillSwitchAllowsExecution_def sample_members sample_read
      try_catch_ret for_each_ret dry_run_still_fresh_def canary_order_def sample_config_def)

lemma sample_execution:
  fixes w :: 'w
  shows "\<exists>r. execute digit_host sample_broker (sample_decision sample_intent) None w = (Inr (Settled r), w) \<and>
     xr_status r = Executed"
proof -
  let ?x = sample_run
  let ?ev = "no_evidence\<lparr>ev_orderId := Some ''paper-12345678''\<rparr>"
  note check = sample_before
  have run: "executedResult digit_host sample_intent ?ev (sample_date 2) =
      Inr (evidence_result sample_intent ?ev (sample_date 2))"
    by (simp add: executedResult_Inr evidence_failure_def evidence_result_def no_evidence_def result_ok_def
        fits_def result_variants_def present_def sample_envelope_def)
  have called: "call_connector digit_host (sample_broker :: 'w broker) silent_ops ?x =
      andthen mark_persisting (\<lambda>_. andthen mark_completed (\<lambda>_. ret (evidence_result sample_intent ?ev (sample_date 2))))"
  proof -
    have "run_conn (ret ()) (paper_execute (\<lambda>w :: 'w. (''12345678'', w)) sample_intent) = ret ?ev"
      by (simp add: fun_eq_iff after_check_def paper_uuid_def ret_def)
    then show ?thesis
      by (simp add: call_connector_def check sample_members paper_connector_def on_world_ret attempt_ret
          terminal_def run finishExecutionWithAudit_def silent_ops_def try_catch_ret
          del: paper_execute.simps)
  qed
  have parsed: "parse_intent digit_host (gp_intent (sample_decision sample_intent)) = Some sample_intent"
    using parse_intent_json [OF digit_host_intents(1)] by (simp add: sample_decision_def)
  have reserved: "in_frame (execute_reserved digit_host (sample_broker :: 'w broker) silent_ops ?x) =
      ret (evidence_result sample_intent ?ev (sample_date 2))"
    by (simp add: execute_reserved_def perform_execution_def unless_settled_def sample_stages guarded_ret called)
      (simp add: fun_eq_iff in_frame_def guarded_def try_catch_def andthen_def mark_persisting_def mark_completed_def
        modify_state_def ret_def)
  have "execute digit_host (sample_broker :: 'w broker) (sample_decision sample_intent) None =
      ret (Settled (evidence_result sample_intent ?ev (sample_date 2)))"
    unfolding execute_def Let_def gate_def sample_members andthen_ret digit_host_simps parsed option.case sample_decided
    by (simp add: live_failure_def approval_failure_def findApprovalForIntent_def sample_members sample_config_def
        begin_reservation_def attempt_ret reserved) (simp add: sample_decision_def approval_id_def)
  then show ?thesis by (simp add: ret_def evidence_result_def)
qed

text \<open>The trace of the sample run, and the check its connector is given.\<close>

theorem connector_called_when_cleared_witness:
  "\<exists>r s t evs. execute digit_host (traced sample_broker) (sample_decision sample_intent) None ((), []) = (Inr (Settled r), s) \<and>
     xr_status r = Executed \<and>
     called_once (cleared digit_host (sample_broker :: unit broker) (sample_decision sample_intent) None) (snd s) \<and>
     before_side_effect digit_host (traced sample_broker) sample_run ((), []) = (Inr (), t) \<and> snd t = evs \<and>
     last_checks digit_host (sample_broker :: unit broker) None sample_intent evs"
proof -
  obtain r where run: "execute digit_host sample_broker (sample_decision sample_intent) None () = (Inr (Settled r), ())"
    "xr_status r = Executed" using sample_execution [of "()"] by blast
  have start: "forget ((), []) ()" by (simp add: forget_def)
  from followsE [OF follows_execute start, of digit_host sample_broker "sample_decision sample_intent" None] run(1)
  obtain s where s: "execute digit_host (traced sample_broker) (sample_decision sample_intent) None ((), []) =
      (Inr (Settled r), s)" by (metis prod.inject)
  have "before_side_effect digit_host (sample_broker :: unit broker) sample_run () = (Inr (), ())"
    by (simp add: sample_before ret_def)
  with followsE [OF follows_before_side_effect start, of digit_host sample_broker sample_run]
  obtain t where t: "before_side_effect digit_host (traced sample_broker) sample_run ((), []) = (Inr (), t)"
    by (metis prod.inject)
  note cleared = connector_called_when_cleared [of digit_host "sample_broker :: unit broker"
      "sample_decision sample_intent" None "()"]
  have "called_once (cleared digit_host (sample_broker :: unit broker) (sample_decision sample_intent) None) (snd s)"
    using conjunct1 [OF cleared] by (simp add: s)
  moreover have "last_checks digit_host (sample_broker :: unit broker) None sample_intent (snd t)"
    using conjunct2 [OF cleared] t by fastforce
  ultimately show ?thesis using s run(2) t by blast
qed

theorem execute_result_recorded_witness:
  "\<exists>r tr. execute digit_host (traced sample_broker) (sample_decision sample_intent) None ((), []) =
     (Inr (Settled r), ((), tr)) \<and> (replayed (sample_broker :: unit broker) sample_intent r tr \<or> recorded r tr)"
proof -
  have parsed: "parse_intent digit_host (gp_intent (sample_decision sample_intent)) = Some sample_intent"
    using parse_intent_json [OF digit_host_intents(1)] by (simp add: sample_decision_def)
  obtain r where run: "execute digit_host sample_broker (sample_decision sample_intent) None () = (Inr (Settled r), ())"
    using sample_execution [of "()"] by blast
  have "forget ((), []) ()" by (simp add: forget_def)
  from followsE [OF follows_execute this, of digit_host sample_broker "sample_decision sample_intent" None] run
  obtain s where run': "execute digit_host (traced sample_broker) (sample_decision sample_intent) None ((), []) =
      (Inr (Settled r), s)" by (metis prod.inject)
  then have "execute digit_host (traced sample_broker) (sample_decision sample_intent) None ((), []) =
      (Inr (Settled r), ((), snd s))" by (cases s) simp
  from execute_result_recorded [OF this] this parsed show ?thesis by auto
qed

theorem execute_result_typed_witness:
  "\<exists>r. execute digit_host sample_broker (sample_decision sample_intent) None () = (Inr (Settled r), ()) \<and>
     result_ok digit_host r"
proof -
  have parsed: "parse_intent digit_host (gp_intent (sample_decision sample_intent)) = Some sample_intent"
    using parse_intent_json [OF digit_host_intents(1)] by (simp add: sample_decision_def)
  obtain r where run: "execute digit_host sample_broker (sample_decision sample_intent) None () = (Inr (Settled r), ())"
    using sample_execution [of "()"] by blast
  have "result_ok digit_host r"
    using execute_result_typed [OF _ _ run] parsed by (simp add: texts_ok_def sample_members ret_def)
  with run show ?thesis by blast
qed

end
