(* ===== verification/AuditWriter.thy ===== *)
theory AuditWriter
  imports FileStore
begin

text \<open>
  The audit writer of \<open>packages/audit/src/writer.ts\<close>: a table of events in the order of their
  identifiers, each sealed by a MAC over the hash before it, and an anchor file with the last hash.
  A writer remembers the last hash it recovered and the hash whose anchor it failed to write; the
  table and the anchor are on disk. Every database statement, the reading of the anchor and its
  writing can fail. Creating and migrating the table is not modelled.
\<close>

subsection \<open>Data\<close>

text \<open>\<open>AuditEventInput\<close>: the events of the broker, and three references the other writers add.\<close>

record audit_input = audit_event +
  ai_promptId :: "string option"
  ai_sessionId :: "string option"
  ai_inputRef :: "string option"

text \<open>A row; \<open>rw_eventHash\<close> is \<open>None\<close> for \<open>NULL\<close>, in tables from before the hashes.\<close>

record audit_row =
  rw_eventId :: string
  rw_eventType :: string
  rw_timestamp :: string
  rw_correlationId :: string
  rw_environment :: string
  rw_intentId :: "string option"
  rw_principal :: "string option"
  rw_promptId :: "string option"
  rw_sessionId :: "string option"
  rw_inputRef :: "string option"
  rw_data :: string
  rw_previousHash :: string
  rw_eventHash :: "string option"

record writer_mem =
  wm_lastHash :: string
  wm_pendingRepair :: "string option"

record audit_disk =
  dk_rows :: "audit_row list"
  dk_anchor :: "string option"

type_synonym 'w audit_world = "writer_mem \<times> audit_disk \<times> 'w"

text \<open>How writing the anchor ends: renamed into place, failed before that, or failed after it.\<close>

datatype anchor_outcome = AnchorWritten | AnchorFailed exn | AnchorUnsynced exn

record 'w audit_env =
  an_environment :: environment
  an_secret :: string
  an_anchored :: bool
  an_now :: "('w, int) eff"
  an_uuid :: "('w, string) eff"
  an_io :: "('w, unit) eff"
  an_read :: "('w, unit) eff"
  an_anchor :: "('w, anchor_outcome) eff"
  an_redact :: "string \<Rightarrow> string"

definition zero_hash :: string where
  "zero_hash = replicate 64 CHR ''0''"

subsection \<open>Redaction\<close>

text \<open>\<open>String.prototype.includes\<close>\<close>

fun str_includes :: "string \<Rightarrow> string \<Rightarrow> bool" where
  "str_includes [] t \<longleftrightarrow> t = []"
| "str_includes (c # s) t \<longleftrightarrow> take (length t) (c # s) = t \<or> str_includes s t"

definition ends_with :: "string \<Rightarrow> string \<Rightarrow> bool" where
  "ends_with s t \<longleftrightarrow> take (length t) (rev s) = rev t"

definition isSecretKey :: "string \<Rightarrow> bool" where
  "isSecretKey key = (let n = filter (\<lambda>c. c \<noteq> CHR ''_'' \<and> c \<noteq> CHR ''-'') (to_lower key) in
     str_includes n ''secret'' \<or> str_includes n ''private'' \<or> str_includes n ''mnemonic'' \<or> str_includes n ''seed'' \<or>
     n = ''token'' \<or>
     list_ex (ends_with n) [''vaulttoken'', ''accesstoken'', ''refreshtoken'', ''authtoken'', ''bearertoken''] \<or>
     n = ''authorization'' \<or> ends_with n ''apikey'' \<or> ends_with n ''apisecret'')"

text \<open>\<open>redactSecrets\<close> of the audit package is a parameter: what it does to one text.\<close>

fun redactObject :: "(string \<Rightarrow> string) \<Rightarrow> jsval \<Rightarrow> jsval" where
  "redactObject rs (JStr s) = JStr (rs s)"
| "redactObject rs (JArr xs) = JArr (map (redactObject rs) xs)"
| "redactObject rs (JObj kvs) =
     JObj (map (\<lambda>(k, v). (k, if isSecretKey k then JStr ''[REDACTED]'' else redactObject rs v)) kvs)"
| "redactObject rs v = v"

subsection \<open>The hash chain\<close>

definition null_or :: "string option \<Rightarrow> jsval" where
  "null_or x = (case x of None \<Rightarrow> JNull | Some s \<Rightarrow> JStr s)"

definition row_content :: "audit_row \<Rightarrow> jsval" where
  "row_content r = JObj
     [(''eventId'', JStr (rw_eventId r)), (''eventType'', JStr (rw_eventType r)),
      (''timestamp'', JStr (rw_timestamp r)), (''correlationId'', JStr (rw_correlationId r)),
      (''environment'', JStr (rw_environment r)), (''intentId'', null_or (rw_intentId r)),
      (''principal'', null_or (rw_principal r)), (''promptId'', null_or (rw_promptId r)),
      (''sessionId'', null_or (rw_sessionId r)), (''inputRef'', null_or (rw_inputRef r)),
      (''data'', JStr (rw_data r))]"

text \<open>\<open>JSON.stringify\<close>\<close>

definition json_stringify :: "host \<Rightarrow> jsval \<Rightarrow> string" where
  "json_stringify h v = render (number_to_string h) (through_json v)"

definition computeHash :: "host \<Rightarrow> 'w audit_env \<Rightarrow> string \<Rightarrow> string \<Rightarrow> string" where
  "computeHash h env previousHash content = hmac_sha256_hex h (an_secret env) (previousHash @ content)"

definition computeEventHash :: "host \<Rightarrow> 'w audit_env \<Rightarrow> audit_row \<Rightarrow> string" where
  "computeEventHash h env r = computeHash h env (rw_previousHash r) (json_stringify h (row_content r))"

text \<open>The loop of \<open>recoverLastHash\<close>: the hash at the end of a sound chain.\<close>

fun chain_end :: "host \<Rightarrow> 'w audit_env \<Rightarrow> string \<Rightarrow> audit_row list \<Rightarrow> exn + string" where
  "chain_end h env previousHash [] = Inr previousHash"
| "chain_end h env previousHash (r # rs) =
     (if rw_previousHash r \<noteq> previousHash then Inl (GenericError ''Audit hash chain is broken.'')
      else if rw_eventHash r = None \<or> rw_eventHash r = Some []
      then Inl (GenericError ''Audit event hash is missing.'')
      else if rw_eventHash r \<noteq> Some (computeEventHash h env r)
      then Inl (GenericError ''Audit event hash mismatch.'')
      else chain_end h env (computeEventHash h env r) rs)"

subsection \<open>Access to memory and disk\<close>

definition an_effect :: "('w, 'a) eff \<Rightarrow> ('w audit_world, 'a) eff" where
  "an_effect m = (\<lambda>(mem, dk, w). case m w of (r, w') \<Rightarrow> (r, (mem, dk, w')))"

definition get_mem :: "('w audit_world, writer_mem) eff" where
  "get_mem = read_state fst"

definition get_rows :: "('w audit_world, audit_row list) eff" where
  "get_rows = read_state (\<lambda>s. dk_rows (fst (snd s)))"

definition set_lastHash :: "string \<Rightarrow> ('w audit_world, unit) eff" where
  "set_lastHash x = modify_state (\<lambda>(mem, dk, w). (mem\<lparr>wm_lastHash := x\<rparr>, dk, w))"

definition set_pending :: "string option \<Rightarrow> ('w audit_world, unit) eff" where
  "set_pending x = modify_state (\<lambda>(mem, dk, w). (mem\<lparr>wm_pendingRepair := x\<rparr>, dk, w))"

definition set_rows :: "(audit_row list \<Rightarrow> audit_row list) \<Rightarrow> ('w audit_world, unit) eff" where
  "set_rows f = modify_state (\<lambda>(mem, dk, w). (mem, dk\<lparr>dk_rows := f (dk_rows dk)\<rparr>, w))"

definition set_anchor :: "string \<Rightarrow> ('w audit_world, unit) eff" where
  "set_anchor x = modify_state (\<lambda>(mem, dk, w). (mem, dk\<lparr>dk_anchor := Some x\<rparr>, w))"

text \<open>\<open>sqlite.transaction(m).immediate()\<close>: an exception rolls the table back, not the memory.\<close>

definition an_transaction :: "'w audit_env \<Rightarrow> ('w audit_world, 'a) eff \<Rightarrow> ('w audit_world, 'a) eff" where
  "an_transaction env m = (\<lambda>s.
     case andthen (an_effect (an_io env)) (\<lambda>_. andthen m (\<lambda>x. andthen (an_effect (an_io env)) (\<lambda>_. ret x))) s of
       (Inl e, (mem, dk, w)) \<Rightarrow> (Inl e, (mem, dk\<lparr>dk_rows := dk_rows (fst (snd s))\<rparr>, w))
     | (Inr x, t) \<Rightarrow> (Inr x, t))"

subsection \<open>The anchor\<close>

definition writeAnchoredHash :: "'w audit_env \<Rightarrow> string option \<Rightarrow> ('w audit_world, unit) eff" where
  "writeAnchoredHash env hash =
     (case hash of None \<Rightarrow> ret ()
      | Some x \<Rightarrow> if \<not> an_anchored env \<or> x = [] then ret ()
          else andthen (an_effect (an_anchor env)) (\<lambda>out. case out of
              AnchorWritten \<Rightarrow> set_anchor (x @ [CHR 0x0A])
            | AnchorFailed e \<Rightarrow> throw e
            | AnchorUnsynced e \<Rightarrow> andthen (set_anchor (x @ [CHR 0x0A])) (\<lambda>_. throw e)))"

definition verifyAnchoredHash :: "'w audit_env \<Rightarrow> bool \<Rightarrow> ('w audit_world, unit) eff" where
  "verifyAnchoredHash env repair =
     (if \<not> an_anchored env then ret ()
      else andthen get_mem (\<lambda>mem.
        let last = wm_lastHash mem in
        andthen (read_state (\<lambda>s. dk_anchor (fst (snd s)))) (\<lambda>anchor.
        case anchor of
          None \<Rightarrow> if last = zero_hash then ret ()
            else if repair then writeAnchoredHash env (Some last)
            else throw (GenericError ''Audit hash anchor is missing for a non-empty hash chain.'')
        | Some content \<Rightarrow>
            andthen (an_effect (an_read env)) (\<lambda>_.
            if trim content = last then ret ()
            else if repair then writeAnchoredHash env (Some last)
            else throw (GenericError ''Audit hash anchor does not match the recovered hash chain.'')))))"

subsection \<open>Writing\<close>

definition recoverLastHash :: "host \<Rightarrow> 'w audit_env \<Rightarrow> ('w audit_world, unit) eff" where
  "recoverLastHash h env =
     andthen (an_effect (an_io env)) (\<lambda>_.
     andthen get_rows (\<lambda>rows.
     case chain_end h env zero_hash rows of Inl e \<Rightarrow> throw e | Inr x \<Rightarrow> set_lastHash x))"

text \<open>The row of a redacted event.\<close>

definition event_row ::
  "host \<Rightarrow> 'w audit_env \<Rightarrow> audit_input \<Rightarrow> string \<Rightarrow> string \<Rightarrow> string \<Rightarrow> audit_row" where
  "event_row h env ev eventId timestamp previousHash =
     (let rs = an_redact env in
      \<lparr>rw_eventId = eventId, rw_eventType = rs (ae_eventType ev), rw_timestamp = timestamp,
       rw_correlationId = rs (ae_correlationId ev),
       rw_environment = rs (environment_name (ae_environment ev)),
       rw_intentId = map_option rs (ae_intentId ev), rw_principal = map_option rs (ae_principal ev),
       rw_promptId = map_option rs (ai_promptId ev), rw_sessionId = map_option rs (ai_sessionId ev),
       rw_inputRef = map_option rs (ai_inputRef ev),
       rw_data = json_stringify h (redactObject rs (ae_data ev)),
       rw_previousHash = previousHash, rw_eventHash = None\<rparr>)"

text \<open>The content that a row with the same identifier must have.\<close>

definition same_content :: "audit_row \<Rightarrow> audit_row \<Rightarrow> bool" where
  "same_content r r' \<longleftrightarrow> rw_eventType r = rw_eventType r' \<and> rw_correlationId r = rw_correlationId r' \<and>
     rw_environment r = rw_environment r' \<and> rw_intentId r = rw_intentId r' \<and>
     rw_principal r = rw_principal r' \<and> rw_promptId r = rw_promptId r' \<and>
     rw_sessionId r = rw_sessionId r' \<and> rw_inputRef r = rw_inputRef r' \<and> rw_data r = rw_data r'"

definition insert_event :: "host \<Rightarrow> 'w audit_env \<Rightarrow> audit_row \<Rightarrow> ('w audit_world, string option) eff" where
  "insert_event h env row =
     (let eventHash = computeEventHash h env row in
      andthen (an_effect (an_io env)) (\<lambda>_.
      andthen (set_rows (\<lambda>rows. rows @ [row\<lparr>rw_eventHash := Some eventHash\<rparr>])) (\<lambda>_.
      andthen (set_lastHash eventHash) (\<lambda>_.
      ret (Some eventHash)))))"

text \<open>The body of the transaction; its value is \<open>committedHash\<close>.\<close>

definition write_body :: "host \<Rightarrow> 'w audit_env \<Rightarrow> audit_input \<Rightarrow> ('w audit_world, string option) eff" where
  "write_body h env ev =
     andthen (recoverLastHash h env) (\<lambda>_.
     andthen (case ae_eventId ev of Some k \<Rightarrow> ret k | None \<Rightarrow> an_effect (an_uuid env)) (\<lambda>eventId.
     andthen (an_effect (an_now env)) (\<lambda>t.
     andthen (an_effect (an_io env)) (\<lambda>_.
     andthen get_rows (\<lambda>rows.
     andthen get_mem (\<lambda>mem.
     let last = wm_lastHash mem;
         row = event_row h env ev eventId (iso_string h t) last in
     case List.find (\<lambda>r. rw_eventId r = eventId) rows of
       Some existing \<Rightarrow>
         if \<not> same_content existing row
         then throw (GenericError ''Audit event id already exists with different content.'')
         else if rw_eventHash existing \<noteq> Some last \<or> wm_pendingRepair mem \<noteq> Some last
         then andthen (verifyAnchoredHash env False) (\<lambda>_. ret None)
         else ret (Some last)
     | None \<Rightarrow> andthen (verifyAnchoredHash env False) (\<lambda>_. insert_event h env row)))))))"

definition audit_write :: "host \<Rightarrow> 'w audit_env \<Rightarrow> audit_input \<Rightarrow> ('w audit_world, unit) eff" where
  "audit_write h env ev =
     andthen (an_transaction env (write_body h env ev)) (\<lambda>committed.
     try_catch
       (andthen (writeAnchoredHash env committed) (\<lambda>_.
        andthen get_mem (\<lambda>mem.
        if committed \<noteq> None \<and> committed \<noteq> Some [] \<and> wm_pendingRepair mem = committed
        then set_pending None else ret ())))
       (\<lambda>err.
        andthen (if committed \<noteq> None \<and> committed \<noteq> Some [] then set_pending committed else ret ()) (\<lambda>_.
        throw err)))"

subsection \<open>Health\<close>

definition health_data :: jsval where
  "health_data = JObj [(''healthProbe'', JBool True)]"

definition audit_checkHealth :: "host \<Rightarrow> 'w audit_env \<Rightarrow> ('w audit_world, unit) eff" where
  "audit_checkHealth h env =
     andthen (an_effect (an_uuid env)) (\<lambda>eventId.
     andthen (an_effect (an_uuid env)) (\<lambda>correlationId.
     andthen (audit_write h env
       \<lparr>ae_eventId = Some eventId, ae_eventType = ''broker.preflight'', ae_environment = an_environment env,
        ae_intentId = None, ae_principal = None, ae_correlationId = correlationId,
        ae_data = health_data, ae_extra = [], ai_promptId = None, ai_sessionId = None, ai_inputRef = None\<rparr>) (\<lambda>_.
     andthen (an_effect (an_io env)) (\<lambda>_.
     andthen get_rows (\<lambda>rows.
     andthen get_mem (\<lambda>mem.
     case List.find (\<lambda>r. rw_eventId r = eventId) rows of
       None \<Rightarrow> throw (GenericError ''Audit health probe did not persist a verifiable event.'')
     | Some r \<Rightarrow>
         if rw_eventType r \<noteq> ''broker.preflight'' \<or> rw_correlationId r \<noteq> correlationId \<or>
            rw_environment r \<noteq> environment_name (an_environment env) \<or> rw_data r \<noteq> json_stringify h health_data \<or>
            rw_eventHash r \<noteq> Some (computeEventHash h env r) \<or> rw_eventHash r \<noteq> Some (wm_lastHash mem)
         then throw (GenericError ''Audit health probe did not persist a verifiable event.'')
         else verifyAnchoredHash env False))))))"

subsection \<open>Opening\<close>

definition assertAuditHashSecret :: "string \<Rightarrow> string \<Rightarrow> exn + unit" where
  "assertAuditHashSecret envr secret =
     (if envr = ''dev'' \<or> envr = ''test'' then Inr ()
      else if secret = ''dev-audit-hash-secret'' \<or> length secret < 32
      then Inl (GenericError
        ''Audit hash secret must be configured with at least 32 characters outside dev.'')
      else Inr ())"

definition assertAuditHashAnchor :: "string \<Rightarrow> bool \<Rightarrow> exn + unit" where
  "assertAuditHashAnchor envr anchored =
     (if envr = ''dev'' \<or> envr = ''test'' then Inr ()
      else if \<not> anchored
      then Inl (GenericError ''Audit hash anchor path must be configured outside dev.'')
      else Inr ())"

text \<open>The loop of the backfill, from row \<open>n\<close>; the updates are not in a transaction.\<close>

fun backfill_from ::
  "host \<Rightarrow> 'w audit_env \<Rightarrow> string \<Rightarrow> nat \<Rightarrow> audit_row list \<Rightarrow> ('w audit_world, unit) eff" where
  "backfill_from h env previousHash n [] = ret ()"
| "backfill_from h env previousHash n (r # rs) =
     (let sealed = r\<lparr>rw_previousHash := previousHash\<rparr>;
          eventHash = computeEventHash h env sealed in
      andthen (an_effect (an_io env)) (\<lambda>_.
      andthen (set_rows (\<lambda>rows. rows[n := sealed\<lparr>rw_eventHash := Some eventHash\<rparr>])) (\<lambda>_.
      backfill_from h env eventHash (Suc n) rs)))"

definition backfillLegacyEventHashes :: "host \<Rightarrow> 'w audit_env \<Rightarrow> ('w audit_world, unit) eff" where
  "backfillLegacyEventHashes h env =
     andthen (an_effect (an_io env)) (\<lambda>_.
     andthen get_rows (\<lambda>rows.
     if list_all (\<lambda>r. rw_eventHash r \<noteq> None) rows then ret ()
     else if list_ex (\<lambda>r. rw_eventHash r \<noteq> None) rows
     then throw (GenericError ''Audit event hash chain cannot mix legacy and sealed rows.'')
     else backfill_from h env zero_hash 0 rows))"

definition new_audit_writer :: "host \<Rightarrow> 'w audit_env \<Rightarrow> bool \<Rightarrow> ('w audit_world, unit) eff" where
  "new_audit_writer h env repair =
     (case assertAuditHashSecret (environment_name (an_environment env)) (an_secret env) of
        Inl e \<Rightarrow> throw e
      | Inr _ \<Rightarrow> (case assertAuditHashAnchor (environment_name (an_environment env)) (an_anchored env) of
          Inl e \<Rightarrow> throw e
        | Inr _ \<Rightarrow>
            andthen (modify_state (\<lambda>(mem, dk, w). (\<lparr>wm_lastHash = zero_hash, wm_pendingRepair = None\<rparr>, dk, w))) (\<lambda>_.
            andthen (backfillLegacyEventHashes h env) (\<lambda>_.
            andthen (recoverLastHash h env) (\<lambda>_.
            verifyAnchoredHash env repair)))))"

end
