(* ===== verification/AuditSamples.thy ===== *)
theory AuditSamples
  imports AuditWriter BrokerSamples
begin

text \<open>
  Concrete values at which the theorems on the audit writer are applied: a host whose MAC tells the
  first row of a table from the others, and writers whose collaborators work or fail. Nothing here
  models code.
\<close>

definition chain_host :: host where
  "chain_host = digit_host\<lparr>hmac_sha256_hex := (\<lambda>k m.
     if take 1 m = ''0'' then replicate 64 CHR ''b'' else replicate 64 CHR ''c'')\<rparr>"

lemma chain_host_simps [simp]:
  "number_to_string chain_host = unary_number"
  "hmac_sha256_hex chain_host k (zero_hash @ m) = replicate 64 CHR ''b''"
  "hmac_sha256_hex chain_host k (replicate 64 CHR ''b'' @ m) = replicate 64 CHR ''c''"
  "replicate 64 CHR ''b'' \<noteq> zero_hash" "replicate 64 CHR ''c'' \<noteq> zero_hash"
  "lower_hex64 (replicate 64 CHR ''b'')" "lower_hex64 (replicate 64 CHR ''c'')"
  by (simp_all add: chain_host_def digit_host_def zero_hash_def numeral_eq_Suc lower_hex64_def list_all_iff
      is_lower_hex_def is_digit_def)

text \<open>Every collaborator works; no event is redacted.\<close>

definition sample_audit_env :: "unit audit_env" where
  "sample_audit_env =
     \<lparr>an_environment = Testnet, an_secret = replicate 32 CHR ''s'', an_anchored = True, an_now = ret 1,
      an_uuid = ret ''u1'', an_io = ret (), an_read = ret (), an_anchor = ret AnchorWritten,
      an_redact = (\<lambda>s. s)\<rparr>"

lemma sample_audit_env_simps:
  "an_environment sample_audit_env = Testnet" "an_secret sample_audit_env = replicate 32 CHR ''s''"
  "an_anchored sample_audit_env" "an_now sample_audit_env = ret 1" "an_uuid sample_audit_env = ret ''u1''"
  "an_io sample_audit_env = ret ()" "an_read sample_audit_env = ret ()"
  "an_anchor sample_audit_env = ret AnchorWritten" "an_redact sample_audit_env = (\<lambda>s. s)"
  by (simp_all add: sample_audit_env_def)

lemma sample_secret [simp]: "replicate 32 CHR ''s'' \<noteq> ''dev-audit-hash-secret''"
  by (auto dest: arg_cong [of _ _ length])

definition sample_event :: "string \<Rightarrow> audit_input" where
  "sample_event k =
     \<lparr>ae_eventId = Some k, ae_eventType = ''broker.executed'', ae_environment = Testnet, ae_intentId = None,
      ae_principal = None, ae_correlationId = ''c1'', ae_data = JObj [], ae_extra = [], ai_promptId = None,
      ai_sessionId = None, ai_inputRef = None\<rparr>"

definition new_mem :: writer_mem where
  "new_mem = \<lparr>wm_lastHash = zero_hash, wm_pendingRepair = None\<rparr>"

definition empty_disk :: audit_disk where
  "empty_disk = \<lparr>dk_rows = [], dk_anchor = None\<rparr>"

definition first_row :: audit_row where
  "first_row = (event_row chain_host sample_audit_env (sample_event ''e1'') ''e1'' ''t1'' zero_hash)
     \<lparr>rw_eventHash := Some (replicate 64 CHR ''b'')\<rparr>"

definition second_row :: audit_row where
  "second_row = (event_row chain_host sample_audit_env (sample_event ''e2'') ''e2'' ''t2'' (replicate 64 CHR ''b''))
     \<lparr>rw_eventHash := Some (replicate 64 CHR ''c'')\<rparr>"

end
