(* ===== verification/AuditSafety.thy ===== *)
theory AuditSafety
  imports AuditSamples
begin

text \<open>
  What the audit writer guarantees: the table is a hash chain that only grows, a write that succeeds
  has its event in the table and the anchor at its end, a table that was changed is detected, and a
  failure to write the anchor is repaired by writing the same event again.
\<close>

declare ret_run [simp del] throw_run [simp del]

subsection \<open>Memory and disk\<close>

text \<open>An assertion about the memory of the writer and the disk.\<close>

definition sees :: "(writer_mem \<Rightarrow> audit_disk \<Rightarrow> bool) \<Rightarrow> 'w audit_world \<Rightarrow> bool" where
  "sees P s \<longleftrightarrow> P (fst s) (fst (snd s))"

lemma sees_effect [triples]: "triple (sees P) (an_effect m) (\<lambda>_. sees P) (\<lambda>_. sees P)"
  by (auto simp: triple_def sees_def an_effect_def split: prod.splits sum.splits)

lemma sees_read:
  "triple (sees P) get_mem (\<lambda>mem. sees (\<lambda>m d. m = mem \<and> P m d)) E"
  "triple (sees P) get_rows (\<lambda>rows. sees (\<lambda>m d. dk_rows d = rows \<and> P m d)) E"
  "triple (sees P) (read_state (\<lambda>s. dk_anchor (fst (snd s)))) (\<lambda>a. sees (\<lambda>m d. dk_anchor d = a \<and> P m d)) E"
  by (simp_all add: triple_def sees_def get_mem_def get_rows_def read_state_def)

lemma sees_set:
  "triple (sees (\<lambda>m d. P (m\<lparr>wm_lastHash := x\<rparr>) d)) (set_lastHash x) (\<lambda>_. sees P) E"
  "triple (sees (\<lambda>m d. P (m\<lparr>wm_pendingRepair := y\<rparr>) d)) (set_pending y) (\<lambda>_. sees P) E"
  "triple (sees (\<lambda>m d. P m (d\<lparr>dk_rows := f (dk_rows d)\<rparr>))) (set_rows f) (\<lambda>_. sees P) E"
  "triple (sees (\<lambda>m d. P m (d\<lparr>dk_anchor := Some z\<rparr>))) (set_anchor z) (\<lambda>_. sees P) E"
  by (auto simp: triple_def sees_def set_lastHash_def set_pending_def set_rows_def set_anchor_def
      modify_state_def)

lemma sees_ret: "(\<And>m d. P m d \<Longrightarrow> Q x m d) \<Longrightarrow> triple (sees P) (ret x) (\<lambda>x. sees (Q x)) E"
  by (simp add: triple_def sees_def ret_def)

lemma sees_throw: "(\<And>m d. P m d \<Longrightarrow> R m d) \<Longrightarrow> triple (sees P) (throw e) Q (\<lambda>_. sees R)"
  by (simp add: triple_def sees_def throw_def)

lemma sees_mono: "triple (sees P) n Q E \<Longrightarrow> (\<And>m d. P' m d \<Longrightarrow> P m d) \<Longrightarrow> triple (sees P') n Q E"
  by (erule triple_pre) (simp add: sees_def)

text \<open>A computation that changes neither.\<close>

definition looks :: "('w audit_world, 'a) eff \<Rightarrow> (writer_mem \<Rightarrow> audit_disk \<Rightarrow> 'a \<Rightarrow> bool) \<Rightarrow> bool" where
  "looks m K \<longleftrightarrow> (\<forall>M D. triple (sees (\<lambda>m d. m = M \<and> d = D)) m
     (\<lambda>x. sees (\<lambda>m d. m = M \<and> d = D \<and> K M D x)) (\<lambda>_. sees (\<lambda>m d. m = M \<and> d = D)))"

text \<open>The anchor agrees with the last hash.\<close>

definition anchor_ok :: "'w audit_env \<Rightarrow> writer_mem \<Rightarrow> audit_disk \<Rightarrow> bool" where
  "anchor_ok env m d \<longleftrightarrow> (an_anchored env \<longrightarrow> (case dk_anchor d of
     None \<Rightarrow> wm_lastHash m = zero_hash | Some c \<Rightarrow> trim c = wm_lastHash m))"

lemma verify_looks: "looks (verifyAnchoredHash env False) (\<lambda>m d x. anchor_ok env m d)"
  unfolding looks_def
proof (intro allI)
  fix M D
  show "triple (sees (\<lambda>m d. m = M \<and> d = D)) (verifyAnchoredHash env False)
      (\<lambda>x. sees (\<lambda>m d. m = M \<and> d = D \<and> anchor_ok env M D)) (\<lambda>_. sees (\<lambda>m d. m = M \<and> d = D))"
    by (auto simp: triple_def sees_def verifyAnchoredHash_def Let_def get_mem_def andthen_def read_state_def
        an_effect_def ret_def throw_def anchor_ok_def split: prod.splits sum.splits option.splits if_splits)
qed

subsection \<open>The chain\<close>

abbreviation chain :: "host \<Rightarrow> 'w audit_env \<Rightarrow> audit_row list \<Rightarrow> exn + string" where
  "chain h env rows \<equiv> chain_end h env zero_hash rows"

lemma chain_end_append:
  "chain_end h env p (xs @ ys) = (case chain_end h env p xs of Inl e \<Rightarrow> Inl e | Inr q \<Rightarrow> chain_end h env q ys)"
  by (induction xs arbitrary: p) auto

text \<open>A row that continues a chain.\<close>

definition sealed :: "host \<Rightarrow> 'w audit_env \<Rightarrow> audit_row \<Rightarrow> audit_row" where
  "sealed h env r = r\<lparr>rw_eventHash := Some (computeEventHash h env r)\<rparr>"

lemma hash_of_sealed [simp]: "computeEventHash h env (r\<lparr>rw_eventHash := x\<rparr>) = computeEventHash h env r"
  by (simp add: computeEventHash_def row_content_def)

text \<open>A MAC is printed as 64 hexadecimal digits.\<close>

definition digests :: "host \<Rightarrow> bool" where
  "digests h \<longleftrightarrow> (\<forall>k m. lower_hex64 (hmac_sha256_hex h k m))"

lemma hash_hex: "digests h \<Longrightarrow> lower_hex64 (computeEventHash h env r)"
  by (simp add: digests_def computeEventHash_def computeHash_def)

lemma hash_length: "digests h \<Longrightarrow> length (computeEventHash h env r) = 64"
  using hash_hex [of h env r] by (simp add: lower_hex64_def)

lemma chain_sealed:
  assumes "digests h" "chain h env rows = Inr tip" "rw_previousHash r = tip"
  shows "chain h env (rows @ [sealed h env r]) = Inr (computeEventHash h env r)"
  using assms hash_length [OF assms(1), of env r] by (auto simp: chain_end_append sealed_def)

lemma recover_chain:
  "triple (sees (\<lambda>m d. m = M \<and> d = D)) (recoverLastHash h env)
     (\<lambda>_. sees (\<lambda>m d. d = D \<and> (\<exists>tip. chain h env (dk_rows D) = Inr tip \<and> m = M\<lparr>wm_lastHash := tip\<rparr>)))
     (\<lambda>_. sees (\<lambda>m d. m = M \<and> d = D))"
  by (auto simp: triple_def sees_def recoverLastHash_def andthen_def an_effect_def get_rows_def read_state_def
      set_lastHash_def modify_state_def throw_def split: prod.splits sum.splits)

subsection \<open>What a write does\<close>

text \<open>The event is there already, with the same content, under the identifier of the event.\<close>

definition names :: "audit_input \<Rightarrow> string \<Rightarrow> bool" where
  "names ev k \<longleftrightarrow> (case ae_eventId ev of Some l \<Rightarrow> k = l | None \<Rightarrow> True)"

definition found :: "host \<Rightarrow> 'w audit_env \<Rightarrow> audit_input \<Rightarrow> audit_row list \<Rightarrow> bool" where
  "found h env ev rows \<longleftrightarrow> (\<exists>k t p r. names ev k \<and> List.find (\<lambda>r. rw_eventId r = k) rows = Some r \<and>
     same_content r (event_row h env ev k t p))"

text \<open>Moreover its row carries the hash \<open>tip\<close>.\<close>

definition found_last :: "host \<Rightarrow> 'w audit_env \<Rightarrow> audit_input \<Rightarrow> audit_row list \<Rightarrow> string \<Rightarrow> bool" where
  "found_last h env ev rows tip \<longleftrightarrow> (\<exists>k t p r. names ev k \<and> List.find (\<lambda>r. rw_eventId r = k) rows = Some r \<and>
     same_content r (event_row h env ev k t p) \<and> rw_eventHash r = Some tip)"

text \<open>What the transaction commits: nothing for an event that is there, or the new row.\<close>

definition commits :: "host \<Rightarrow> 'w audit_env \<Rightarrow> audit_input \<Rightarrow> writer_mem \<Rightarrow> audit_disk \<Rightarrow>
    string option \<Rightarrow> writer_mem \<Rightarrow> audit_disk \<Rightarrow> bool" where
  "commits h env ev M D c m d \<longleftrightarrow> (\<exists>tip. chain h env (dk_rows D) = Inr tip \<and>
     (d = D \<and> m = M\<lparr>wm_lastHash := tip\<rparr> \<and> found h env ev (dk_rows D) \<and>
        (c = None \<and> anchor_ok env m d \<or>
         c = Some tip \<and> wm_pendingRepair M = Some tip \<and> found_last h env ev (dk_rows D) tip) \<or>
      (\<exists>k t. names ev k \<and> List.find (\<lambda>r. rw_eventId r = k) (dk_rows D) = None \<and>
        anchor_ok env (M\<lparr>wm_lastHash := tip\<rparr>) D \<and>
        c = Some (computeEventHash h env (event_row h env ev k t tip)) \<and>
        d = D\<lparr>dk_rows := dk_rows D @ [sealed h env (event_row h env ev k t tip)]\<rparr> \<and>
        m = M\<lparr>wm_lastHash := computeEventHash h env (event_row h env ev k t tip)\<rparr>)))"

text \<open>What survives a failure inside the transaction, before the table is rolled back.\<close>

definition untouched :: "writer_mem \<Rightarrow> audit_disk \<Rightarrow> writer_mem \<Rightarrow> audit_disk \<Rightarrow> bool" where
  "untouched M D m d \<longleftrightarrow> wm_pendingRepair m = wm_pendingRepair M \<and> dk_anchor d = dk_anchor D"

lemma insert_commits:
  assumes "chain h env (dk_rows D) = Inr tip" "names ev k"
    and "List.find (\<lambda>r. rw_eventId r = k) (dk_rows D) = None"
  shows "triple (sees (\<lambda>m d. (m = M\<lparr>wm_lastHash := tip\<rparr> \<and> d = D) \<and> anchor_ok env (M\<lparr>wm_lastHash := tip\<rparr>) D))
    (insert_event h env (event_row h env ev k t tip)) (\<lambda>c. sees (commits h env ev M D c)) (\<lambda>_. sees (untouched M D))"
proof -
  have "commits h env ev M D (Some (computeEventHash h env (event_row h env ev k t tip)))
      (M\<lparr>wm_lastHash := computeEventHash h env (event_row h env ev k t tip)\<rparr>)
      (D\<lparr>dk_rows := dk_rows D @ [sealed h env (event_row h env ev k t tip)]\<rparr>)"
    if "anchor_ok env (M\<lparr>wm_lastHash := tip\<rparr>) D"
    unfolding commits_def using assms that by blast
  then show ?thesis
    by (auto simp: triple_def sees_def insert_event_def Let_def andthen_def an_effect_def set_rows_def
        set_lastHash_def modify_state_def ret_def untouched_def sealed_def split: prod.splits sum.splits)
qed

lemma untouched_effect:
  assumes "\<And>m d. P m d \<Longrightarrow> untouched M D m d"
  shows "triple (sees P) (an_effect n) (\<lambda>_. sees P) (\<lambda>_. sees (untouched M D))"
  by (rule triple_post [OF sees_effect]) (auto simp: sees_def dest!: assms)

lemma write_body_commits:
  fixes env :: "'w audit_env"
  shows "triple (sees (\<lambda>m d. m = M \<and> d = D)) (write_body h env ev) (\<lambda>c. sees (commits h env ev M D c))
     (\<lambda>_. sees (untouched M D))"
proof -
  let ?at = "\<lambda>tip m d. m = M\<lparr>wm_lastHash := tip\<rparr> \<and> d = D"
  let ?some = "\<lambda>m d. \<exists>tip. ?at tip m d \<and> chain h env (dk_rows D) = Inr tip"
  let ?E = "\<lambda>_ :: exn. sees (untouched M D)"
  have start: "triple (sees (\<lambda>m d. m = M \<and> d = D)) (recoverLastHash h env) (\<lambda>_. sees ?some) ?E"
    by (rule triple_post [OF recover_chain]) (auto simp: sees_def untouched_def)
  have some: "untouched M D m d" if "?some m d" for m d using that by (auto simp: untouched_def)
  have verify: "triple (sees (?at tip)) (verifyAnchoredHash env False)
      (\<lambda>_. sees (\<lambda>m d. ?at tip m d \<and> anchor_ok env (M\<lparr>wm_lastHash := tip\<rparr>) D)) ?E" for tip
    by (rule triple_post [OF sees_mono [OF verify_looks [unfolded looks_def, rule_format,
            where M = "M\<lparr>wm_lastHash := tip\<rparr>" and D = D]]])
      (auto simp: sees_def untouched_def)
  have ident: "triple (sees ?some) (case ae_eventId ev of Some k \<Rightarrow> ret k | None \<Rightarrow> an_effect (an_uuid env))
      (\<lambda>k. sees (\<lambda>m d. ?some m d \<and> names ev k)) ?E"
  proof (cases "ae_eventId ev")
    case None
    then show ?thesis using untouched_effect [of ?some, OF some] by (simp add: names_def)
  next
    case (Some k)
    then show ?thesis by (auto simp: triple_def sees_def ret_def names_def)
  qed
  have decide: "triple (sees (?at tip)) (case List.find (\<lambda>r. rw_eventId r = k) (dk_rows D) of
       Some existing \<Rightarrow>
         if \<not> same_content existing (event_row h env ev k t tip)
         then throw (GenericError ''Audit event id already exists with different content.'')
         else if rw_eventHash existing \<noteq> Some tip \<or> wm_pendingRepair M \<noteq> Some tip
         then andthen (verifyAnchoredHash env False) (\<lambda>_. ret None)
         else ret (Some tip)
     | None \<Rightarrow> andthen (verifyAnchoredHash env False) (\<lambda>_. insert_event h env (event_row h env ev k t tip)))
     (\<lambda>c. sees (commits h env ev M D c)) ?E"
    if chain: "chain h env (dk_rows D) = Inr tip" and k: "names ev k" for tip k t
  proof (cases "List.find (\<lambda>r. rw_eventId r = k) (dk_rows D)")
    case None
    then show ?thesis
      using triple_andthen [OF verify insert_commits [OF chain k None]] by simp
  next
    case (Some r)
    show ?thesis
    proof (cases "same_content r (event_row h env ev k t tip)")
      case True
      have there: "found h env ev (dk_rows D)" unfolding found_def using k Some True by blast
      then have "commits h env ev M D None (M\<lparr>wm_lastHash := tip\<rparr>) D" if "anchor_ok env (M\<lparr>wm_lastHash := tip\<rparr>) D"
        using that chain unfolding commits_def by blast
      then have look: "triple (sees (?at tip)) (andthen (verifyAnchoredHash env False) (\<lambda>_. ret None))
          (\<lambda>c. sees (commits h env ev M D c)) ?E"
        by (intro triple_andthen [OF verify] sees_ret) auto
      have "found_last h env ev (dk_rows D) tip" if "rw_eventHash r = Some tip"
        unfolding found_last_def using that k Some True by blast
      then have "commits h env ev M D (Some tip) (M\<lparr>wm_lastHash := tip\<rparr>) D"
        if "wm_pendingRepair M = Some tip" "rw_eventHash r = Some tip"
        using that there chain unfolding commits_def by blast
      then have again: "triple (sees (?at tip)) (ret (Some tip) :: ('w audit_world, string option) eff) (\<lambda>c. sees (commits h env ev M D c)) ?E"
        if "wm_pendingRepair M = Some tip" "rw_eventHash r = Some tip"
        using that by (intro sees_ret) auto
      show ?thesis using look again by (simp add: Some True)
    qed (auto simp: Some triple_def throw_def sees_def untouched_def)
  qed
  show ?thesis
    unfolding write_body_def Let_def
  proof (intro triple_andthen [OF start] triple_andthen [OF ident] triple_andthen [OF untouched_effect]
      triple_andthen [OF sees_read(2)] triple_andthen [OF sees_read(1)])
    fix k t rows mem
    show "triple (sees (\<lambda>m d. m = mem \<and> dk_rows d = rows \<and> ?some m d \<and> names ev k))
        (case List.find (\<lambda>r. rw_eventId r = k) rows of
       Some existing \<Rightarrow>
         if \<not> same_content existing (event_row h env ev k (iso_string h t) (wm_lastHash mem))
         then throw (GenericError ''Audit event id already exists with different content.'')
         else if rw_eventHash existing \<noteq> Some (wm_lastHash mem) \<or> wm_pendingRepair mem \<noteq> Some (wm_lastHash mem)
         then andthen (verifyAnchoredHash env False) (\<lambda>_. ret None)
         else ret (Some (wm_lastHash mem))
     | None \<Rightarrow> andthen (verifyAnchoredHash env False)
         (\<lambda>_. insert_event h env (event_row h env ev k (iso_string h t) (wm_lastHash mem))))
     (\<lambda>c. sees (commits h env ev M D c)) ?E"
    proof (cases "\<exists>tip. mem = M\<lparr>wm_lastHash := tip\<rparr> \<and> rows = dk_rows D \<and> chain h env (dk_rows D) = Inr tip \<and> names ev k")
      case True
      then obtain tip where mem: "mem = M\<lparr>wm_lastHash := tip\<rparr>" and rows: "rows = dk_rows D"
        and chain: "chain h env (dk_rows D) = Inr tip" and k: "names ev k" by blast
      have sel: "wm_lastHash mem = tip" "wm_pendingRepair mem = wm_pendingRepair M" by (simp_all add: mem)
      show ?thesis
        unfolding sel unfolding rows by (rule sees_mono [OF decide [OF chain k]]) (auto simp: mem)
    next
      case False
      then show ?thesis by (auto simp: triple_def sees_def)
    qed
  qed (use some in blast)+
qed

lemma commits_untouched: "commits h env ev M D c m d \<Longrightarrow> untouched M D m d"
  by (auto simp: commits_def untouched_def)

lemma disk_eqI: "dk_anchor d = dk_anchor D \<Longrightarrow> d\<lparr>dk_rows := dk_rows D\<rparr> = (D :: audit_disk)"
  by (cases d; cases D) simp

lemma untouched_refl [simp]: "untouched M D M D"
  by (simp add: untouched_def)

text \<open>A failure in the transaction leaves the disk as it was.\<close>

lemma transaction_commits:
  assumes "an_transaction env (write_body h env ev) (M, D, w) = (r, (m, d, w'))"
  shows "case r of Inl e \<Rightarrow> d = D \<and> wm_pendingRepair m = wm_pendingRepair M | Inr c \<Rightarrow> commits h env ev M D c m d"
proof -
  let ?m = "andthen (an_effect (an_io env)) (\<lambda>_. andthen (write_body h env ev)
    (\<lambda>x. andthen (an_effect (an_io env)) (\<lambda>_. ret x)))"
  have "triple (sees (\<lambda>m d. m = M \<and> d = D)) ?m (\<lambda>c. sees (commits h env ev M D c)) (\<lambda>_. sees (untouched M D))"
    by (intro triple_andthen [OF untouched_effect] triple_andthen [OF write_body_commits])
      (auto simp: triple_def sees_def ret_def intro: commits_untouched)
  note returns = tripleD_val [OF this] and fails = tripleD_exn [OF this]
  obtain q s where run: "?m (M, D, w) = (q, s)" by (meson surj_pair)
  have start: "sees (\<lambda>m d. m = M \<and> d = D) (M, D, w)" by (simp add: sees_def)
  show ?thesis
  proof (cases q)
    case (Inl e)
    have "untouched M D (fst s) (fst (snd s))" using fails [OF start] run Inl by (simp add: sees_def)
    then show ?thesis
      using assms run Inl by (auto simp: an_transaction_def untouched_def disk_eqI split: prod.splits)
  next
    case (Inr c)
    have "commits h env ev M D c (fst s) (fst (snd s))" using returns [OF start] run Inr by (simp add: sees_def)
    then show ?thesis using assms run Inr by (auto simp: an_transaction_def split: prod.splits)
  qed
qed

text \<open>How the anchor is left, for a hash that was committed.\<close>

definition anchors :: "'w audit_env \<Rightarrow> string \<Rightarrow> writer_mem \<Rightarrow> audit_disk \<Rightarrow> exn + unit \<Rightarrow> writer_mem \<Rightarrow>
    audit_disk \<Rightarrow> bool" where
  "anchors env x m d r m' d' \<longleftrightarrow> dk_rows d' = dk_rows d \<and> wm_lastHash m' = wm_lastHash m \<and>
     (case r of
        Inr u \<Rightarrow> wm_pendingRepair m' = (if wm_pendingRepair m = Some x then None else wm_pendingRepair m) \<and>
          dk_anchor d' = (if an_anchored env then Some (x @ [CHR 0x0A]) else dk_anchor d)
      | Inl e \<Rightarrow> an_anchored env \<and> wm_pendingRepair m' = Some x \<and>
          dk_anchor d' \<in> {dk_anchor d, Some (x @ [CHR 0x0A])})"

lemma anchor_written:
  assumes "x \<noteq> []"
    and "try_catch (andthen (writeAnchoredHash env (Some x)) (\<lambda>_. andthen get_mem (\<lambda>mem.
        if Some x \<noteq> None \<and> Some x \<noteq> Some [] \<and> wm_pendingRepair mem = Some x then set_pending None else ret ())))
      (\<lambda>err. andthen (if Some x \<noteq> None \<and> Some x \<noteq> Some [] then set_pending (Some x) else ret ()) (\<lambda>_. throw err))
      (m, d, w) = (r, (m', d', w'))"
  shows "anchors env x m d r m' d'"
proof (cases "an_anchored env")
  case False
  then show ?thesis
    using assms
    by (auto simp: anchors_def writeAnchoredHash_def try_catch_def andthen_def set_pending_def get_mem_def
        modify_state_def read_state_def ret_def split: if_splits)
next
  case True
  obtain q w1 where q: "an_anchor env w = (q, w1)" by (meson surj_pair)
  note unfolds = anchors_def writeAnchoredHash_def try_catch_def andthen_def an_effect_def set_anchor_def
    set_pending_def get_mem_def modify_state_def read_state_def ret_def throw_def
  show ?thesis
  proof (cases q)
    case (Inl e)
    then show ?thesis using assms True q by (auto simp: unfolds)
  next
    case (Inr out)
    then show ?thesis using assms True q by (cases out) (auto simp: unfolds split: if_splits)
  qed
qed

lemma chain_end_hex:
  "digests h \<Longrightarrow> lower_hex64 p \<Longrightarrow> chain_end h env p rows = Inr tip \<Longrightarrow> lower_hex64 tip"
proof (induction rows arbitrary: p)
  case (Cons r rows)
  then show ?case using Cons.IH [of "computeEventHash h env r"] by (simp add: hash_hex split: if_splits)
qed simp

lemma zero_hash_hex [simp]: "lower_hex64 zero_hash"
  by (simp add: lower_hex64_def zero_hash_def list_all_iff is_lower_hex_def is_digit_def)

lemma commits_hex: "digests h \<Longrightarrow> commits h env ev M D (Some x) m d \<Longrightarrow> lower_hex64 x"
  using chain_end_hex [of h zero_hash env "dk_rows D"] by (auto simp: commits_def hash_hex)

text \<open>What is read from the anchor is what was written.\<close>

lemma trim_line:
  assumes "lower_hex64 x"
  shows "trim (x @ [CHR 0x0A]) = x"
proof -
  have "\<forall>c \<in> set x. \<not> is_space c"
    using assms by (auto simp: lower_hex64_def list_all_iff is_lower_hex_def is_digit_def is_space_def)
  then have keep: "dropWhile is_space (rev x) = rev x" "dropWhile is_space x = x"
    by (auto simp: dropWhile_eq_self_iff hd_rev)
  obtain c where "c \<in> set x" using assms by (cases x) (auto simp: lower_hex64_def)
  then have "dropWhile is_space (x @ [CHR 0x0A]) = x @ [CHR 0x0A]"
    using dropWhile_append1 [of c x is_space] \<open>\<forall>c \<in> set x. \<not> is_space c\<close> keep(2) by simp
  moreover have "is_space CHR 0x0A" by (simp add: is_space_def)
  ultimately show ?thesis using keep(1) by (simp add: trim_def)
qed

text \<open>A write: it failed and changed nothing on disk, or it committed and then wrote the anchor.\<close>

lemma write_cases:
  assumes "digests h" "audit_write h env ev (M, D, w) = (r, (m', d', w'))"
  obtains (failed) e where "r = Inl e" "d' = D" "wm_pendingRepair m' = wm_pendingRepair M"
  | (there) "r = Inr ()" "commits h env ev M D None m' d'"
  | (committed) x m d where "commits h env ev M D (Some x) m d" "anchors env x m d r m' d'"
proof -
  obtain q m d u where tx: "an_transaction env (write_body h env ev) (M, D, w) = (q, (m, d, u))"
    by (metis prod_cases3)
  note committed_fact = transaction_commits [OF tx]
  show thesis
  proof (cases q)
    case (Inl e)
    then show thesis
      using failed committed_fact assms(2) tx by (auto simp: audit_write_def andthen_def)
  next
    case (Inr c)
    show thesis
    proof (cases c)
      case None
      then show thesis
        using there committed_fact assms(2) tx Inr
        by (auto simp: audit_write_def andthen_def try_catch_def writeAnchoredHash_def ret_def get_mem_def read_state_def)
    next
      case (Some x)
      have "commits h env ev M D (Some x) m d" using committed_fact Inr Some by simp
      moreover have x: "x \<noteq> []"
        using commits_hex [OF assms(1) calculation] by (auto simp: lower_hex64_def)
      moreover have "anchors env x m d r m' d'"
        by (rule anchor_written [OF x, of env m d u]) (use assms(2) tx Inr Some in \<open>simp add: audit_write_def andthen_def\<close>)
      ultimately show thesis by (intro committed)
    qed
  qed
qed

lemma commits_found: "commits h env ev M D c m d \<Longrightarrow> found h env ev (dk_rows d)"
proof -
  assume c: "commits h env ev M D c m d"
  have "found h env ev (dk_rows D @ [sealed h env (event_row h env ev k t tip)])"
    if "names ev k" "List.find (\<lambda>r. rw_eventId r = k) (dk_rows D) = None" for k t tip
    unfolding found_def
  proof (intro exI conjI)
    show "names ev k" by (rule that(1))
    show "List.find (\<lambda>r. rw_eventId r = k) (dk_rows D @ [sealed h env (event_row h env ev k t tip)]) =
        Some (sealed h env (event_row h env ev k t tip))"
      using that(2) by (auto simp: find_None_iff find_Some_iff nth_append sealed_def event_row_def Let_def
          intro!: exI [of _ "length (dk_rows D)"])
    show "same_content (sealed h env (event_row h env ev k t tip)) (event_row h env ev k t tip)"
      by (simp add: same_content_def sealed_def)
  qed
  with c show ?thesis by (auto simp: commits_def)
qed

lemma event_row_previous [simp]: "rw_previousHash (event_row h env ev k t p) = p"
  by (simp add: event_row_def Let_def)

lemma commits_chain:
  "digests h \<Longrightarrow> commits h env ev M D c m d \<Longrightarrow> chain h env (dk_rows d) = Inr (wm_lastHash m)"
  by (auto simp: commits_def intro!: chain_sealed)

text \<open>The event of a successful write is in the table.\<close>

lemma write_found:
  assumes "digests h" "audit_write h env ev (M, D, w) = (Inr (), (m, d, w'))"
  shows "found h env ev (dk_rows d)"
proof (rule write_cases [OF assms])
  fix x m1 d1
  assume "commits h env ev M D (Some x) m1 d1" "anchors env x m1 d1 (Inr ()) m d"
  then show ?thesis using commits_found by (fastforce simp: anchors_def)
qed (use commits_found in auto)

text \<open>A write that returns leaves a sound chain and an anchor that matches it.\<close>

lemma write_anchored:
  assumes "digests h" "audit_write h env ev (M, D, w) = (Inr (), (m, d, w'))"
  shows "chain h env (dk_rows d) = Inr (wm_lastHash m)" "anchor_ok env m d"
proof -
  have "chain h env (dk_rows d) = Inr (wm_lastHash m) \<and> anchor_ok env m d"
  proof (rule write_cases [OF assms])
    assume "commits h env ev M D None m d"
    then show ?thesis using commits_chain [OF assms(1)] by (auto simp: commits_def)
  next
    fix x m1 d1
    assume c: "commits h env ev M D (Some x) m1 d1" and a: "anchors env x m1 d1 (Inr ()) m d"
    have x: "wm_lastHash m1 = x" using c by (auto simp: commits_def)
    have "dk_rows d = dk_rows d1" "wm_lastHash m = wm_lastHash m1"
      "an_anchored env \<Longrightarrow> dk_anchor d = Some (x @ [CHR 0x0A])"
      using a by (auto simp: anchors_def)
    then show ?thesis
      using commits_chain [OF assms(1) c] trim_line [OF commits_hex [OF assms(1) c]] x
      by (auto simp: anchor_ok_def)
  qed simp
  then show "chain h env (dk_rows d) = Inr (wm_lastHash m)" "anchor_ok env m d" by simp_all
qed

text \<open>What a run of the writer evaluates to, for concrete collaborators.\<close>

lemmas writer_runs = audit_write_def write_body_def insert_event_def recoverLastHash_def verifyAnchoredHash_def
  writeAnchoredHash_def an_transaction_def andthen_def try_catch_def an_effect_def ret_def throw_def
  get_mem_def get_rows_def read_state_def modify_state_def set_lastHash_def set_pending_def set_rows_def
  set_anchor_def Let_def

lemmas writer_values = sample_audit_env_def sample_event_def new_mem_def empty_disk_def computeEventHash_def
  computeHash_def sealed_def event_row_def

lemma chain_host_digests: "digests chain_host"
  by (auto simp: digests_def chain_host_def)

text \<open>C25. A successful write is recorded: if \<open>write\<close> returns, the event is in the table under its
  identifier with its redacted content, the table is a sound hash chain that ends in the hash the
  writer remembers, and the anchor, where one is configured, holds that hash.\<close>

theorem audit_write_recorded:
  assumes "digests h" "audit_write h env ev (M, D, w) = (Inr (), (m, d, w'))"
  shows "found h env ev (dk_rows d) \<and> chain h env (dk_rows d) = Inr (wm_lastHash m) \<and> anchor_ok env m d"
  using write_found [OF assms] write_anchored [OF assms] by blast

text \<open>A first event on an empty table.\<close>

lemma sample_write:
  "\<exists>m d. audit_write chain_host sample_audit_env (sample_event ''e1'') (new_mem, empty_disk, ()) = (Inr (), (m, d, ())) \<and>
     length (dk_rows d) = 1 \<and> dk_anchor d = Some (replicate 64 CHR ''b'' @ [CHR 0x0A])"
  by (simp add: writer_runs writer_values)

theorem audit_write_recorded_witness:
  "\<exists>m d. audit_write chain_host sample_audit_env (sample_event ''e1'') (new_mem, empty_disk, ()) = (Inr (), (m, d, ())) \<and>
     length (dk_rows d) = 1 \<and> dk_anchor d = Some (replicate 64 CHR ''b'' @ [CHR 0x0A]) \<and>
     found chain_host sample_audit_env (sample_event ''e1'') (dk_rows d) \<and>
     chain chain_host sample_audit_env (dk_rows d) = Inr (wm_lastHash m) \<and> anchor_ok sample_audit_env m d"
proof -
  obtain m d where
    run: "audit_write chain_host sample_audit_env (sample_event ''e1'') (new_mem, empty_disk, ()) = (Inr (), (m, d, ()))"
      "length (dk_rows d) = 1" "dk_anchor d = Some (replicate 64 CHR ''b'' @ [CHR 0x0A])"
    using sample_write by blast
  show ?thesis using audit_write_recorded [OF chain_host_digests run(1)] run by blast
qed

end
