(* ===== verification/AuditLog.thy ===== *)
theory AuditLog
  imports AuditSafety
begin

text \<open>
  The table of the audit writer as an append-only log, over any sequence of writes, health checks and
  openings: the interface \<open>event_log\<close>, its interpretation on the writer, and the properties of the
  log, its anchor and the backfill.
\<close>

declare ret_run [simp del] throw_run [simp del]

subsection \<open>Append-only logs\<close>

text \<open>
  A log that only grows while \<open>inv\<close> holds, and operations that leave a lasting trace in it when they
  return.
\<close>

locale event_log =
  fixes inv :: "'s \<Rightarrow> bool"
    and entries :: "'s \<Rightarrow> 'e list"
    and step :: "'o \<Rightarrow> 's \<Rightarrow> (exn + unit) \<times> 's"
    and tells :: "'o \<Rightarrow> 'e list \<Rightarrow> bool"
  assumes grows: "inv s \<Longrightarrow> step q s = (r, t) \<Longrightarrow> inv t \<and> prefix (entries s) (entries t)"
    and told: "inv s \<Longrightarrow> step q s = (Inr (), t) \<Longrightarrow> tells q (entries t)"
    and tells_more: "tells q xs \<Longrightarrow> prefix xs ys \<Longrightarrow> tells q ys"
begin

definition steps :: "'o list \<Rightarrow> 's \<Rightarrow> 's" where
  "steps qs s = foldl (\<lambda>s q. snd (step q s)) s qs"

lemma history_kept: "inv s \<Longrightarrow> inv (steps qs s) \<and> prefix (entries s) (entries (steps qs s))"
proof (induction qs arbitrary: s)
  case (Cons q qs)
  obtain r t where run: "step q s = (r, t)" by (meson surj_pair)
  show ?case
    using Cons.IH [of t] grows [OF Cons.prems run] run by (auto simp: steps_def intro: prefix_order.trans)
qed (simp add: steps_def)

lemma told_for_ever:
  assumes "inv s" "step q s = (Inr (), t)"
  shows "tells q (entries (steps qs t)) \<and> prefix (entries s) (entries (steps qs t))"
proof -
  have "inv t" "prefix (entries s) (entries t)" using grows assms by blast+
  then show ?thesis
    using history_kept [of t qs] told [OF assms] tells_more prefix_order.trans by blast
qed

end

subsection \<open>The operations of a writer on its table\<close>

datatype log_op = LogWrite audit_input | LogHealth | LogOpen bool

fun log_step :: "host \<Rightarrow> 'w audit_env \<Rightarrow> log_op \<Rightarrow> ('w audit_world, unit) eff" where
  "log_step h env (LogWrite ev) = audit_write h env ev"
| "log_step h env LogHealth = audit_checkHealth h env"
| "log_step h env (LogOpen repair) = new_audit_writer h env repair"

abbreviation log_rows :: "'w audit_world \<Rightarrow> audit_row list" where
  "log_rows s \<equiv> dk_rows (fst (snd s))"

definition sound_log :: "host \<Rightarrow> 'w audit_env \<Rightarrow> audit_row list \<Rightarrow> bool" where
  "sound_log h env rows \<longleftrightarrow> digests h \<and> (\<exists>tip. chain h env rows = Inr tip)"

definition log_tells :: "host \<Rightarrow> 'w audit_env \<Rightarrow> log_op \<Rightarrow> audit_row list \<Rightarrow> bool" where
  "log_tells h env q rows \<longleftrightarrow> (case q of LogWrite ev \<Rightarrow> found h env ev rows | _ \<Rightarrow> True)"

lemma find_prefix: "List.find P xs = Some x \<Longrightarrow> prefix xs ys \<Longrightarrow> List.find P ys = Some x"
proof (erule prefixE)
  show "List.find P ys = Some x" if "List.find P xs = Some x" "ys = xs @ zs" for zs
    using that by (induction xs arbitrary: ys) (auto split: if_splits)
qed

lemma found_more: "found h env ev xs \<Longrightarrow> prefix xs ys \<Longrightarrow> found h env ev ys"
  unfolding found_def by (elim exE conjE) (intro exI conjI; (assumption | erule (1) find_prefix))

text \<open>The table after a log operation: sound, and the table \<open>R\<close> with rows added.\<close>

definition on_rows :: "(audit_row list \<Rightarrow> bool) \<Rightarrow> 'w audit_world \<Rightarrow> bool" where
  "on_rows P s \<longleftrightarrow> P (log_rows s)"

abbreviation extends :: "host \<Rightarrow> 'w audit_env \<Rightarrow> audit_row list \<Rightarrow> 'w audit_world \<Rightarrow> bool" where
  "extends h env R \<equiv> on_rows (\<lambda>rows. sound_log h env rows \<and> prefix R rows)"

lemma commits_rows:
  "commits h env ev M D c m d \<Longrightarrow> prefix (dk_rows D) (dk_rows d) \<and> (c = None \<longrightarrow> dk_rows d = dk_rows D)"
  by (auto simp: commits_def)

lemma write_extends:
  fixes env :: "'w audit_env"
  shows "keeps (extends h env R) (audit_write h env ev)"
  unfolding keeps_iff
proof (intro allI impI)
  fix s :: "'w audit_world"
  assume ext: "extends h env R s"
  obtain M D w where s: "s = (M, D, w)" by (metis prod_cases3)
  obtain r m d w' where run: "audit_write h env ev (M, D, w) = (r, (m, d, w'))" by (metis prod_cases4)
  have dig: "digests h" using ext by (simp add: on_rows_def sound_log_def)
  have "sound_log h env (dk_rows d) \<and> prefix (dk_rows D) (dk_rows d)"
  proof (rule write_cases [OF dig run])
    assume c: "commits h env ev M D None m d"
    show ?thesis using commits_chain [OF dig c] commits_rows [OF c] dig by (simp add: sound_log_def)
  next
    fix x m1 d1
    assume c: "commits h env ev M D (Some x) m1 d1" and "anchors env x m1 d1 r m d"
    then show ?thesis
      using commits_chain [OF dig c] commits_rows [OF c] dig by (auto simp: sound_log_def anchors_def)
  qed (use ext s in \<open>simp add: on_rows_def\<close>)
  then show "extends h env R (snd (audit_write h env ev s))"
    using ext by (auto simp: s run on_rows_def intro: prefix_order.trans)
qed

named_theorems log_rules \<open>operations that keep the table\<close>

lemma looks_rows [log_rules]:
  "keeps (on_rows P) (an_effect m)" "keeps (on_rows P) get_mem"
  "keeps (on_rows P) get_rows" "keeps (on_rows P) (set_lastHash x)"
  "keeps (on_rows P) (set_anchor x)" "keeps (on_rows P) (read_state f)"
  by (auto simp: keeps_iff on_rows_def an_effect_def get_mem_def get_rows_def read_state_def
      set_lastHash_def set_anchor_def modify_state_def split: prod.splits)

lemma verify_rows [log_rules]: "keeps (on_rows P) (verifyAnchoredHash env repair)"
  unfolding verifyAnchoredHash_def writeAnchoredHash_def Let_def
  by (auto intro!: keeps_rules log_rules split: option.splits anchor_outcome.splits)

lemma recover_rows [log_rules]: "keeps (on_rows P) (recoverLastHash h env)"
  unfolding recoverLastHash_def by (auto intro!: keeps_rules log_rules split: sum.splits)

lemma chain_all_sealed: "chain_end h env p rows = Inr tip \<Longrightarrow> list_all (\<lambda>r. rw_eventHash r \<noteq> None) rows"
  by (induction rows arbitrary: p) (auto split: if_splits)

lemma backfill_extends [log_rules]: "keeps (extends h env R) (backfillLegacyEventHashes h env)"
  using chain_all_sealed
  by (fastforce simp: keeps_iff on_rows_def sound_log_def backfillLegacyEventHashes_def andthen_def an_effect_def
      get_rows_def read_state_def ret_def split: prod.splits sum.splits)

lemma open_extends: "keeps (extends h env R) (new_audit_writer h env repair)"
proof -
  have start: "keeps (extends h env R) (modify_state (\<lambda>(mem, y). (m, y)))" for m
    by (auto simp: keeps_iff on_rows_def modify_state_def)
  show ?thesis
    unfolding new_audit_writer_def by (auto intro!: keeps_rules log_rules start split: sum.splits)
qed

lemma health_extends: "keeps (extends h env R) (audit_checkHealth h env)"
  unfolding audit_checkHealth_def
  by (auto intro!: keeps_rules log_rules write_extends split: option.splits)

lemma step_extends: "keeps (extends h env R) (log_step h env q)"
  using write_extends health_extends open_extends by (cases q) auto

interpretation audit: event_log "\<lambda>s. sound_log h env (log_rows s)" log_rows "log_step h env" "log_tells h env"
proof unfold_locales
  fix s t :: "'a audit_world" and q r
  assume s: "sound_log h env (log_rows s)"
  show "sound_log h env (log_rows t) \<and> prefix (log_rows s) (log_rows t)" if "log_step h env q s = (r, t)"
    using keepsD [OF step_extends [of h env "log_rows s"] _ that] s by (simp add: on_rows_def)
  show "log_tells h env q (log_rows t)" if run: "log_step h env q s = (Inr (), t)"
  proof (cases q)
    case (LogWrite ev)
    obtain M D w m d w' where "s = (M, D, w)" "t = (m, d, w')" by (metis prod_cases3)
    then have "audit_write h env ev (M, D, w) = (Inr (), (m, d, w'))" using run LogWrite by simp
    with s show ?thesis
      by (auto simp: \<open>t = _\<close> log_tells_def LogWrite sound_log_def intro: write_found)
  qed (simp_all add: log_tells_def)
qed (auto simp: log_tells_def found_more split: log_op.splits)

subsection \<open>The history of the table\<close>

definition log_run :: "host \<Rightarrow> 'w audit_env \<Rightarrow> log_op list \<Rightarrow> 'w audit_world \<Rightarrow> 'w audit_world" where
  "log_run h env qs s = foldl (\<lambda>s q. snd (log_step h env q s)) s qs"

text \<open>C26. The audit log is append-only: whatever writes, health checks and openings follow a write
  that returned, and however they end, the table keeps every row it had before and after that write,
  in place, the event of the write stays in it, and it stays a sound hash chain.\<close>

theorem audit_log_history:
  assumes "digests h" "chain h env (log_rows s) = Inr q" "audit_write h env ev s = (Inr (), t)"
  shows "prefix (log_rows s) (log_rows (log_run h env qs t)) \<and> prefix (log_rows t) (log_rows (log_run h env qs t)) \<and>
    found h env ev (log_rows (log_run h env qs t)) \<and> (\<exists>tip. chain h env (log_rows (log_run h env qs t)) = Inr tip)"
proof -
  have inv: "sound_log h env (log_rows s)" using assms(1,2) by (simp add: sound_log_def)
  have run: "log_step h env (LogWrite ev) s = (Inr (), t)" using assms(3) by simp
  have u: "log_run h env qs t = audit.steps h env qs t" by (simp add: log_run_def audit.steps_def)
  have inv': "sound_log h env (log_rows t)" using audit.grows [OF inv run] by simp
  show ?thesis
    using audit.told_for_ever [OF inv run, of qs] audit.history_kept [OF inv', of qs]
    by (simp add: u log_tells_def sound_log_def)
qed

theorem audit_log_history_witness:
  "\<exists>t. audit_write chain_host sample_audit_env (sample_event ''e1'') (new_mem, empty_disk, ()) = (Inr (), t) \<and>
     found chain_host sample_audit_env (sample_event ''e1'') (log_rows
       (log_run chain_host sample_audit_env [LogWrite (sample_event ''e2''), LogHealth, LogOpen False] t))"
proof -
  obtain t where run: "audit_write chain_host sample_audit_env (sample_event ''e1'') (new_mem, empty_disk, ()) = (Inr (), t)"
    using sample_write by blast
  have "chain chain_host sample_audit_env (log_rows (new_mem, empty_disk, ())) = Inr zero_hash"
    by (simp add: empty_disk_def)
  with run show ?thesis using audit_log_history [OF chain_host_digests _ run] by blast
qed

subsection \<open>Writing an event again\<close>

text \<open>An event identifier is written once: once a row carries the identifier, a later write
  of an event with that identifier never changes the table, and it returns only if the redacted
  content is that of the row.\<close>

theorem audit_event_id_once:
  assumes "digests h" "ae_eventId ev = Some k" "List.find (\<lambda>r. rw_eventId r = k) (dk_rows D) = Some x"
    and "audit_write h env ev (M, D, w) = (r, (m, d, w'))"
  shows "dk_rows d = dk_rows D \<and> (r = Inr () \<longrightarrow> same_content x (event_row h env ev k [] []))"
proof -
  have same: "dk_rows d' = dk_rows D \<and> same_content x (event_row h env ev k [] [])"
    if "commits h env ev M D c m' d'" for c m' d'
    using that assms(2,3) by (auto simp: commits_def found_def names_def same_content_def event_row_def Let_def)
  show ?thesis
    by (rule write_cases [OF assms(1,4)]) (use same in \<open>fastforce simp: anchors_def\<close>)+
qed

text \<open>The same identifier with another event type.\<close>

definition other_event :: audit_input where
  "other_event = (sample_event ''e1'')\<lparr>ae_eventType := ''broker.rejected''\<rparr>"

theorem audit_event_id_once_witness:
  "\<exists>e s. audit_write chain_host sample_audit_env other_event (new_mem, \<lparr>dk_rows = [first_row], dk_anchor = None\<rparr>, ()) =
     (Inl e, s) \<and> log_rows s = [first_row]"
proof -
  obtain r m d w' where run: "audit_write chain_host sample_audit_env other_event
      (new_mem, \<lparr>dk_rows = [first_row], dk_anchor = None\<rparr>, ()) = (r, (m, d, w'))" by (metis prod_cases4)
  have "List.find (\<lambda>r. rw_eventId r = ''e1'') (dk_rows \<lparr>dk_rows = [first_row], dk_anchor = None\<rparr>) = Some first_row"
    by (simp add: first_row_def event_row_def Let_def)
  moreover have "ae_eventId other_event = Some ''e1''" by (simp add: other_event_def sample_event_def)
  ultimately have "dk_rows d = [first_row]"
    and "r = Inr () \<longrightarrow> same_content first_row (event_row chain_host sample_audit_env other_event ''e1'' [] [])"
    using audit_event_id_once [OF chain_host_digests _ _ run] by auto
  moreover have "\<not> same_content first_row (event_row chain_host sample_audit_env other_event ''e1'' [] [])"
    by (simp add: same_content_def first_row_def other_event_def event_row_def sample_event_def Let_def
        sample_audit_env_def)
  ultimately show ?thesis using run by (cases r) auto
qed

end
