(* ===== verification/AuditAnchor.thy ===== *)
theory AuditAnchor
  imports AuditLog
begin

text \<open>
  What the hash chain and its anchor protect: a table that opens with its anchor is the table the
  anchor was written for, a failed anchor write is repaired by writing the same event again and by
  nothing else, and an interrupted backfill leaves a table that never opens again.
\<close>

declare ret_run [simp del] throw_run [simp del]

subsection \<open>Chains with the same end\<close>

text \<open>The texts that are sealed, and what is asked of the MAC on them.\<close>

definition sealed_text :: "host \<Rightarrow> audit_row \<Rightarrow> string" where
  "sealed_text h r = rw_previousHash r @ json_stringify h (row_content r)"

definition no_collision :: "host \<Rightarrow> 'w audit_env \<Rightarrow> audit_row set \<Rightarrow> bool" where
  "no_collision h env R \<longleftrightarrow> inj_on (hmac_sha256_hex h (an_secret env)) (sealed_text h ` R) \<and>
     (\<forall>r \<in> R. computeEventHash h env r \<noteq> zero_hash)"

lemma event_hash_text: "computeEventHash h env r = hmac_sha256_hex h (an_secret env) (sealed_text h r)"
  by (simp add: computeEventHash_def computeHash_def sealed_text_def)

lemma through_null_or [simp]: "through_json (null_or x) = null_or x" "null_or x \<noteq> JUndef" "clean (null_or x)"
  "null_or x = null_or y \<longleftrightarrow> x = y"
  by (auto simp: null_or_def split: option.splits)

lemma row_text_inj:
  assumes "number_format (number_to_string h)"
    and "json_stringify h (row_content r) = json_stringify h (row_content r')"
  shows "row_content r = row_content r'"
proof -
  have "through_json (row_content x) = row_content x" "clean (row_content x)" for x
    by (simp_all add: row_content_def)
  then show ?thesis using assms(2) by (simp add: json_stringify_def render_inj [OF assms(1)])
qed

lemma row_eqI:
  "row_content r = row_content r' \<Longrightarrow> rw_previousHash r = rw_previousHash r' \<Longrightarrow> rw_eventHash r = rw_eventHash r' \<Longrightarrow>
   r = (r' :: audit_row)"
  by (cases r; cases r') (simp add: row_content_def)

text \<open>The end of a chain that has rows.\<close>

lemma chain_snoc:
  assumes "digests h" "chain h env (rows @ [r]) = Inr tip"
  shows "chain h env rows = Inr (rw_previousHash r)" "rw_eventHash r = Some tip"
    "tip = computeEventHash h env r" "length (rw_previousHash r) = 64"
proof -
  show c: "chain h env rows = Inr (rw_previousHash r)" and "rw_eventHash r = Some tip"
    "tip = computeEventHash h env r"
    using assms(2) by (auto simp: chain_end_append split: sum.splits if_splits)
  show "length (rw_previousHash r) = 64"
    using chain_end_hex [OF assms(1) zero_hash_hex c] by (simp add: lower_hex64_def)
qed

text \<open>A chain is determined by the hash at its end.\<close>

lemma chain_unique:
  assumes "digests h" "number_format (number_to_string h)"
    and "chain h env rows = Inr tip" "chain h env rows' = Inr tip" "no_collision h env (set rows \<union> set rows')"
  shows "rows' = rows"
  using assms(3-5)
proof (induction rows arbitrary: rows' tip rule: rev_induct)
  case Nil
  then show ?case
    by (cases rows' rule: rev_cases) (auto simp: no_collision_def dest!: chain_snoc(3) [OF assms(1)])
next
  case (snoc r rows)
  note r = chain_snoc [OF assms(1) snoc.prems(1)]
  from snoc.prems obtain xs r' where rows': "rows' = xs @ [r']"
    using r(3) by (cases rows' rule: rev_cases) (auto simp: no_collision_def)
  note r' = chain_snoc [OF assms(1) snoc.prems(2) [unfolded rows']]
  have "sealed_text h r = sealed_text h r'"
    using snoc.prems(3) r(3) r'(3) by (auto simp: no_collision_def rows' event_hash_text dest: inj_onD)
  then have same: "rw_previousHash r = rw_previousHash r'" "row_content r = row_content r'"
    using r(4) r'(4) row_text_inj [OF assms(2)] by (auto simp: sealed_text_def)
  have "no_collision h env (set rows \<union> set xs)"
    using snoc.prems(3) by (auto simp: no_collision_def rows' intro: inj_on_subset)
  then have "xs = rows" using snoc.IH r(1) r'(1) same(1) by simp
  then show ?case using row_eqI [OF same(2,1)] r(2) r'(2) rows' by simp
qed

subsection \<open>Opening a table with its anchor\<close>

lemma backfill_anchor:
  fixes env :: "'w audit_env"
  shows "keeps (\<lambda>s. dk_anchor (fst (snd s)) = a) (backfillLegacyEventHashes h env)"
proof -
  have io: "keeps (\<lambda>s. dk_anchor (fst (snd s)) = a) (an_effect m)" for m :: "('w, 'a) eff"
    by (auto simp: keeps_iff an_effect_def split: prod.splits)
  have rows: "keeps (\<lambda>s. dk_anchor (fst (snd s)) = a) (set_rows f)" for f
    by (auto simp: keeps_iff set_rows_def modify_state_def)
  have "keeps (\<lambda>s. dk_anchor (fst (snd s)) = a) (backfill_from h env p n rs)" for p n rs
    by (induction rs arbitrary: p n) (auto simp: Let_def intro!: keeps_rules io rows)
  then show ?thesis
    unfolding backfillLegacyEventHashes_def get_rows_def by (intro keeps_rules io)
qed

text \<open>An opening that returns: the table is a sound chain and the anchor is at its end.\<close>

lemma open_returns:
  assumes "new_audit_writer h env False (M, D, w) = (Inr (), (m, d, w'))"
  shows "chain h env (dk_rows d) = Inr (wm_lastHash m) \<and> anchor_ok env m d \<and> dk_anchor d = dk_anchor D"
proof -
  let ?m0 = "\<lparr>wm_lastHash = zero_hash, wm_pendingRepair = None\<rparr>"
  have body: "andthen (backfillLegacyEventHashes h env) (\<lambda>_. andthen (recoverLastHash h env) (\<lambda>_.
      verifyAnchoredHash env False)) (?m0, D, w) = (Inr (), (m, d, w'))"
    using assms by (simp add: new_audit_writer_def andthen_def modify_state_def throw_def split: sum.splits)
  obtain s1 where one: "backfillLegacyEventHashes h env (?m0, D, w) = (Inr (), s1)"
    and rest: "andthen (recoverLastHash h env) (\<lambda>_. verifyAnchoredHash env False) s1 = (Inr (), (m, d, w'))"
    using body by (auto simp: andthen_def split: prod.splits sum.splits)
  obtain m1 d1 w1 where s1: "s1 = (m1, d1, w1)" by (metis prod_cases3)
  have anchor: "dk_anchor d1 = dk_anchor D"
    using keepsD [OF backfill_anchor [of "dk_anchor D"] _ one] s1 by simp
  obtain m2 d2 w2 where two: "recoverLastHash h env (m1, d1, w1) = (Inr (), (m2, d2, w2))"
    and three: "verifyAnchoredHash env False (m2, d2, w2) = (Inr (), (m, d, w'))"
    using rest s1 by (auto simp: andthen_def split: prod.splits sum.splits)
  have "d2 = d1 \<and> (\<exists>tip. chain h env (dk_rows d1) = Inr tip \<and> m2 = m1\<lparr>wm_lastHash := tip\<rparr>)"
    using tripleD_val [OF recover_chain _ two, of m1 d1] by (simp add: sees_def)
  moreover have "m = m2 \<and> d = d2 \<and> anchor_ok env m2 d2"
    using tripleD_val [OF verify_looks [unfolded looks_def, rule_format] _ three, of m2 d2] by (simp add: sees_def)
  ultimately show ?thesis using anchor by auto
qed

text \<open>C27. Tampering is evident: when the anchor of a table holds the hash of its last row, then,
  whatever was done to the table (rows edited, deleted, inserted, reordered, their hashes removed), an
  opening that returns has exactly the original table in front of it, unless the MAC collides.\<close>

theorem audit_tamper_evident:
  assumes "digests h" "number_format (number_to_string h)" "an_anchored env"
    and "chain h env rows = Inr tip" "dk_anchor D = Some a" "trim a = tip"
    and "new_audit_writer h env False (M, D, w) = (Inr (), (m, d, w'))"
    and "no_collision h env (set rows \<union> set (dk_rows d))"
  shows "dk_rows d = rows"
proof -
  have "chain h env (dk_rows d) = Inr tip"
    using open_returns [OF assms(7)] assms(3,5,6) by (auto simp: anchor_ok_def)
  then show ?thesis by (rule chain_unique [OF assms(1,2,4) _ assms(8)])
qed

text \<open>The hashes of two rows were removed; the opening seals them again.\<close>

definition stripped :: "audit_row \<Rightarrow> audit_row" where
  "stripped r = r\<lparr>rw_previousHash := [], rw_eventHash := None\<rparr>"

definition stripped_disk :: audit_disk where
  "stripped_disk = \<lparr>dk_rows = [stripped first_row, stripped second_row],
     dk_anchor = Some (replicate 64 CHR ''c'' @ [CHR 0x0A])\<rparr>"

lemma stripped_keys [simp]: "rw_eventHash (stripped r) = None"
  by (simp add: stripped_def)

theorem audit_tamper_evident_witness:
  "\<exists>m d. new_audit_writer chain_host sample_audit_env False (new_mem, stripped_disk, ()) = (Inr (), (m, d, ())) \<and>
     dk_rows stripped_disk \<noteq> [first_row, second_row] \<and> dk_rows d = [first_row, second_row]"
proof -
  have hash: "computeEventHash chain_host sample_audit_env r = replicate 64 CHR ''b''" if "rw_previousHash r = zero_hash" for r
    using that by (simp add: computeEventHash_def computeHash_def)
  have hash': "computeEventHash chain_host sample_audit_env r = replicate 64 CHR ''c''"
    if "rw_previousHash r = replicate 64 CHR ''b''" for r
    using that by (simp add: computeEventHash_def computeHash_def)
  have prev: "rw_previousHash first_row = zero_hash" "rw_previousHash second_row = replicate 64 CHR ''b''"
    and seal: "rw_eventHash first_row = Some (replicate 64 CHR ''b'')" "rw_eventHash second_row = Some (replicate 64 CHR ''c'')"
    by (simp_all add: first_row_def second_row_def)
  have tip: "trim (replicate 64 CHR ''c'' @ [CHR 0x0A]) = replicate 64 CHR ''c''"
    by (rule trim_line) simp
  have chain: "chain chain_host sample_audit_env [first_row, second_row] = Inr (replicate 64 CHR ''c'')"
    by (simp add: hash hash' prev seal)
  have restored: "(stripped first_row)\<lparr>rw_previousHash := zero_hash, rw_eventHash := Some (replicate 64 CHR ''b'')\<rparr> = first_row"
    "(stripped second_row)\<lparr>rw_previousHash := replicate 64 CHR ''b'', rw_eventHash := Some (replicate 64 CHR ''c'')\<rparr> = second_row"
    by (simp_all add: stripped_def first_row_def second_row_def event_row_def Let_def)
  let ?m = "\<lparr>wm_lastHash = replicate 64 CHR ''c'', wm_pendingRepair = None\<rparr>"
  let ?d = "\<lparr>dk_rows = [first_row, second_row], dk_anchor = Some (replicate 64 CHR ''c'' @ [CHR 0x0A])\<rparr>"
  have run: "new_audit_writer chain_host sample_audit_env False (new_mem, stripped_disk, ()) = (Inr (), (?m, ?d, ()))"
    by (simp add: new_audit_writer_def backfillLegacyEventHashes_def writer_runs sample_audit_env_simps
        assertAuditHashSecret_def assertAuditHashAnchor_def stripped_disk_def stripped_keys hash hash' restored prev seal tip)
  have collide: "no_collision chain_host sample_audit_env (set [first_row, second_row] \<union> set (dk_rows ?d))"
    by (auto simp: no_collision_def hash hash' prev event_hash_text [symmetric])
  have "dk_rows ?d = [first_row, second_row]"
    by (rule audit_tamper_evident [OF chain_host_digests _ _ chain _ tip run collide])
      (simp_all add: unary_number_format sample_audit_env_def stripped_disk_def)
  moreover have "dk_rows stripped_disk \<noteq> [first_row, second_row]"
    using seal by (auto simp: stripped_disk_def stripped_def dest: arg_cong [where f = rw_eventHash])
  ultimately show ?thesis using run by blast
qed

subsection \<open>Repairing the anchor\<close>

text \<open>A writer whose last write committed the hash at the end of the table but left an older anchor.\<close>

definition behind :: "host \<Rightarrow> 'w audit_env \<Rightarrow> writer_mem \<Rightarrow> audit_disk \<Rightarrow> string \<Rightarrow> bool" where
  "behind h env M D tip \<longleftrightarrow> an_anchored env \<and> chain h env (dk_rows D) = Inr tip \<and>
     wm_pendingRepair M = Some tip \<and> \<not> anchor_ok env (M\<lparr>wm_lastHash := tip\<rparr>) D"

text \<open>Collaborators that do not fail.\<close>

definition reliable :: "'w audit_env \<Rightarrow> bool" where
  "reliable env \<longleftrightarrow> (\<forall>w. fst (an_io env w) = Inr () \<and> fst (an_anchor env w) = Inr AnchorWritten \<and>
     (\<exists>t. fst (an_now env w) = Inr t))"

lemma reliable_run:
  assumes "reliable env"
  shows "an_effect (an_io env) (m, d, w) = (Inr (), (m, d, snd (an_io env w)))"
    "an_effect (an_anchor env) (m, d, w) = (Inr AnchorWritten, (m, d, snd (an_anchor env w)))"
    "an_effect (an_now env) (m, d, w) = (Inr (projr (fst (an_now env w))), (m, d, snd (an_now env w)))"
proof -
  have "fst (an_io env w) = Inr ()" "fst (an_anchor env w) = Inr AnchorWritten"
    "fst (an_now env w) = Inr (projr (fst (an_now env w)))"
    using assms by (auto simp: reliable_def) (metis sum.sel(2))
  then show "an_effect (an_io env) (m, d, w) = (Inr (), (m, d, snd (an_io env w)))"
    "an_effect (an_anchor env) (m, d, w) = (Inr AnchorWritten, (m, d, snd (an_anchor env w)))"
    "an_effect (an_now env) (m, d, w) = (Inr (projr (fst (an_now env w))), (m, d, snd (an_now env w)))"
    by (simp_all add: an_effect_def prod_eq_iff split: prod.splits)
qed

lemmas writer_steps = audit_write_def write_body_def recoverLastHash_def writeAnchoredHash_def an_transaction_def
  andthen_def try_catch_def ret_def get_mem_def get_rows_def read_state_def modify_state_def set_lastHash_def
  set_pending_def set_anchor_def Let_def

text \<open>Writing the event of the last row again.\<close>

lemma repair_write:
  assumes behind: "behind h env M D tip" and "reliable env" and "tip \<noteq> []"
    and "ae_eventId ev = Some k" and x: "List.find (\<lambda>r. rw_eventId r = k) (dk_rows D) = Some x"
    and "rw_eventHash x = Some tip" and same: "same_content x (event_row h env ev k [] [])"
  shows "\<exists>m d w'. audit_write h env ev (M, D, w) = (Inr (), (m, d, w')) \<and> wm_pendingRepair m = None \<and>
    wm_lastHash m = tip \<and> dk_anchor d = Some (tip @ [CHR 0x0A]) \<and> dk_rows d = dk_rows D"
proof -
  have same': "same_content x (event_row h env ev k t p)" for t p
    using same by (simp add: same_content_def event_row_def Let_def)
  have "an_anchored env" "chain h env (dk_rows D) = Inr tip" "wm_pendingRepair M = Some tip"
    using behind by (simp_all add: behind_def)
  then show ?thesis
    using assms(3,4,6) x same' by (simp add: writer_steps reliable_run [OF assms(2)])
qed

text \<open>C28. A failed anchor write is repaired by the same event and by nothing else: while the anchor
  is behind the table, a write returns only for the event of the last row, that is one whose row has its
  redacted content and carries the hash in which the chain ends; it adds no row, clears the pending
  repair and brings the anchor up to date, so every other event is refused. Writing the event of the
  last row again, with collaborators that work, does return.\<close>

theorem audit_anchor_repair:
  assumes "digests h" "behind h env M D tip"
  shows "(audit_write h env ev (M, D, w) = (Inr (), (m, d, w')) \<longrightarrow>
      (\<exists>k x. (ae_eventId ev = None \<or> ae_eventId ev = Some k) \<and>
        List.find (\<lambda>r. rw_eventId r = k) (dk_rows D) = Some x \<and>
        rw_eventHash x = Some tip \<and> same_content x (event_row h env ev k [] [])) \<and>
      dk_rows d = dk_rows D \<and> wm_pendingRepair m = None \<and> anchor_ok env m d) \<and>
    (reliable env \<and> ae_eventId ev = Some k \<and> List.find (\<lambda>r. rw_eventId r = k) (dk_rows D) = Some x \<and>
      rw_eventHash x = Some tip \<and> same_content x (event_row h env ev k [] []) \<longrightarrow>
      (\<exists>m d w'. audit_write h env ev (M, D, w) = (Inr (), (m, d, w')) \<and> dk_rows d = dk_rows D \<and>
        wm_pendingRepair m = None \<and> anchor_ok env m d))"
proof (rule conjI; intro impI)
  have refused: "\<not> anchor_ok env (M\<lparr>wm_lastHash := tip\<rparr>) D" "chain h env (dk_rows D) = Inr tip"
    "wm_pendingRepair M = Some tip"
    using assms(2) by (simp_all add: behind_def)
  assume run: "audit_write h env ev (M, D, w) = (Inr (), (m, d, w'))"
  show "(\<exists>k x. (ae_eventId ev = None \<or> ae_eventId ev = Some k) \<and>
        List.find (\<lambda>r. rw_eventId r = k) (dk_rows D) = Some x \<and>
        rw_eventHash x = Some tip \<and> same_content x (event_row h env ev k [] [])) \<and>
      dk_rows d = dk_rows D \<and> wm_pendingRepair m = None \<and> anchor_ok env m d"
  proof (rule write_cases [OF assms(1) run])
    assume "commits h env ev M D None m d"
    then show ?thesis using refused by (auto simp: commits_def)
  next
    fix c m1 d1
    assume "commits h env ev M D (Some c) m1 d1" and a: "anchors env c m1 d1 (Inr ()) m d"
    then have c: "c = tip" "d1 = D" "m1 = M\<lparr>wm_lastHash := tip\<rparr>" "found_last h env ev (dk_rows D) tip"
      using refused by (auto simp: commits_def)
    from c(4) obtain k x t p where x: "names ev k" "List.find (\<lambda>r. rw_eventId r = k) (dk_rows D) = Some x"
      "rw_eventHash x = Some tip" "same_content x (event_row h env ev k t p)"
      unfolding found_last_def by blast
    have "ae_eventId ev = None \<or> ae_eventId ev = Some k"
      using x(1) by (auto simp: names_def split: option.splits)
    moreover have "same_content x (event_row h env ev k [] [])"
      using x(4) by (simp add: same_content_def event_row_def Let_def)
    moreover have "anchor_ok env m d"
      by (rule write_anchored(2) [OF assms(1) run])
    ultimately show ?thesis
      using a x(2,3) refused(3) unfolding c(1-3) by (auto simp: anchors_def)
  qed simp
next
  assume *: "reliable env \<and> ae_eventId ev = Some k \<and> List.find (\<lambda>r. rw_eventId r = k) (dk_rows D) = Some x \<and>
    rw_eventHash x = Some tip \<and> same_content x (event_row h env ev k [] [])"
  have hex: "lower_hex64 tip"
    using chain_end_hex [OF assms(1) zero_hash_hex] assms(2) by (auto simp: behind_def)
  then have "tip \<noteq> []" by (auto simp: lower_hex64_def)
  with * repair_write [OF assms(2)] obtain m d w' where
    "audit_write h env ev (M, D, w) = (Inr (), (m, d, w'))" "wm_pendingRepair m = None"
    "wm_lastHash m = tip" "dk_anchor d = Some (tip @ [CHR 0x0A])" "dk_rows d = dk_rows D" by blast
  then show "\<exists>m d w'. audit_write h env ev (M, D, w) = (Inr (), (m, d, w')) \<and> dk_rows d = dk_rows D \<and>
      wm_pendingRepair m = None \<and> anchor_ok env m d"
    using trim_line [OF hex] by (auto simp: anchor_ok_def)
qed

definition behind_mem :: writer_mem where
  "behind_mem = \<lparr>wm_lastHash = replicate 64 CHR ''b'', wm_pendingRepair = Some (replicate 64 CHR ''b'')\<rparr>"

definition behind_disk :: audit_disk where
  "behind_disk = \<lparr>dk_rows = [first_row], dk_anchor = None\<rparr>"

lemma behind_sample: "behind chain_host sample_audit_env behind_mem behind_disk (replicate 64 CHR ''b'')"
  by (auto simp: behind_def behind_mem_def behind_disk_def sample_audit_env_simps anchor_ok_def first_row_def
      computeEventHash_def computeHash_def)

theorem audit_anchor_repair_witness:
  "(\<exists>m d w'. audit_write chain_host sample_audit_env (sample_event ''e1'') (behind_mem, behind_disk, ()) = (Inr (), (m, d, w')) \<and>
     wm_pendingRepair m = None \<and> anchor_ok sample_audit_env m d) \<and>
   fst (audit_write chain_host sample_audit_env (sample_event ''e2'') (behind_mem, behind_disk, ())) \<noteq> Inr ()"
proof
  have "reliable sample_audit_env" by (simp add: reliable_def sample_audit_env_simps ret_def)
  moreover have "ae_eventId (sample_event ''e1'') = Some ''e1''" by (simp add: sample_event_def)
  moreover have "List.find (\<lambda>r. rw_eventId r = ''e1'') (dk_rows behind_disk) = Some first_row"
    "rw_eventHash first_row = Some (replicate 64 CHR ''b'')"
    "same_content first_row (event_row chain_host sample_audit_env (sample_event ''e1'') ''e1'' [] [])"
    by (simp_all add: behind_disk_def first_row_def event_row_def same_content_def Let_def)
  ultimately show "\<exists>m d w'. audit_write chain_host sample_audit_env (sample_event ''e1'') (behind_mem, behind_disk, ()) =
      (Inr (), (m, d, w')) \<and> wm_pendingRepair m = None \<and> anchor_ok sample_audit_env m d"
    using audit_anchor_repair [OF chain_host_digests behind_sample] by blast
next
  have "List.find (\<lambda>r. rw_eventId r = ''e2'') (dk_rows behind_disk) = None"
    by (simp add: behind_disk_def first_row_def event_row_def Let_def)
  moreover have "ae_eventId (sample_event ''e2'') = Some ''e2''" by (simp add: sample_event_def)
  ultimately show "fst (audit_write chain_host sample_audit_env (sample_event ''e2'') (behind_mem, behind_disk, ())) \<noteq> Inr ()"
    using audit_anchor_repair [OF chain_host_digests behind_sample, of "sample_event ''e2''" "()"]
    by (metis option.distinct(1) option.inject prod.collapse)
qed

subsection \<open>An interrupted backfill\<close>

definition legacy :: "audit_row list \<Rightarrow> bool" where
  "legacy rows \<longleftrightarrow> list_all (\<lambda>r. rw_eventHash r = None) rows"

definition mixed :: "audit_row list \<Rightarrow> bool" where
  "mixed rows \<longleftrightarrow> list_ex (\<lambda>r. rw_eventHash r = None) rows \<and> list_ex (\<lambda>r. rw_eventHash r \<noteq> None) rows"

text \<open>The table while the backfill is at work: sealed up to a row, as it was from there on.\<close>

definition sealed_to :: "host \<Rightarrow> 'w audit_env \<Rightarrow> nat \<Rightarrow> string \<Rightarrow> audit_row list \<Rightarrow> 'w audit_world \<Rightarrow> bool" where
  "sealed_to h env n p rest s \<longleftrightarrow> (\<exists>xs. log_rows s = xs @ rest \<and> length xs = n \<and> chain h env xs = Inr p)"

lemma backfill_from_sealed:
  assumes "digests h"
  shows "triple (sealed_to h env n p rest) (backfill_from h env p n rest)
    (\<lambda>_ s. \<exists>q. sealed_to h env (n + length rest) q [] s)
    (\<lambda>_ s. \<exists>i q. i < length rest \<and> sealed_to h env (n + i) q (drop i rest) s)"
proof (induction rest arbitrary: n p)
  case Nil
  then show ?case by (auto simp: triple_def ret_def)
next
  case (Cons r rs)
  let ?r = "r\<lparr>rw_previousHash := p\<rparr>"
  let ?E = "\<lambda>_ s. \<exists>i q. i < length (r # rs) \<and> sealed_to h env (n + i) q (drop i (r # rs)) s"
  have io: "triple (sealed_to h env n p (r # rs)) (an_effect (an_io env)) (\<lambda>_. sealed_to h env n p (r # rs)) ?E"
    by (fastforce simp: triple_def an_effect_def sealed_to_def split: prod.splits sum.splits intro: exI [of _ 0])
  have seal: "triple (sealed_to h env n p (r # rs)) (set_rows (\<lambda>rows. rows[n := sealed h env ?r]))
      (\<lambda>_. sealed_to h env (Suc n) (computeEventHash h env ?r) rs) ?E"
  proof -
    have "chain h env (xs @ [sealed h env ?r]) = Inr (computeEventHash h env ?r)" if "chain h env xs = Inr p" for xs
      by (rule chain_sealed [OF assms that]) simp
    then show ?thesis
      by (fastforce simp: triple_def set_rows_def modify_state_def sealed_to_def list_update_append
          intro: exI [of _ "_ @ [sealed h env ?r]"])
  qed
  have rest: "triple (sealed_to h env (Suc n) (computeEventHash h env ?r) rs)
      (backfill_from h env (computeEventHash h env ?r) (Suc n) rs)
      (\<lambda>_ s. \<exists>q. sealed_to h env (n + length (r # rs)) q [] s) ?E"
  proof (rule triple_post [OF Cons.IH])
    fix s
    assume "\<exists>i q. i < length rs \<and> sealed_to h env (Suc n + i) q (drop i rs) s"
    then obtain i q where "i < length rs" "sealed_to h env (Suc n + i) q (drop i rs) s" by blast
    then show "\<exists>i q. i < length (r # rs) \<and> sealed_to h env (n + i) q (drop i (r # rs)) s"
      by (intro exI [of _ "Suc i"]) auto
  qed simp
  show ?case
    using triple_andthen [OF io triple_andthen [OF seal rest]] by (simp add: Let_def sealed_def)
qed

text \<open>How an opening of an unsealed table leaves the table.\<close>

definition half_sealed :: "host \<Rightarrow> 'w audit_env \<Rightarrow> audit_row list \<Rightarrow> audit_row list \<Rightarrow> bool" where
  "half_sealed h env old rows \<longleftrightarrow> rows = old \<or> (\<exists>tip. chain h env rows = Inr tip) \<or> mixed rows"

lemma sealed_to_half:
  assumes "legacy old" "i < length old" "sealed_to h env i q (drop i old) s"
  shows "half_sealed h env old (log_rows s)"
proof -
  obtain xs where xs: "log_rows s = xs @ drop i old" "length xs = i" "chain h env xs = Inr q"
    using assms(3) by (auto simp: sealed_to_def)
  show ?thesis
  proof (cases i)
    case 0
    with xs show ?thesis by (simp add: half_sealed_def)
  next
    case (Suc j)
    obtain x ys where "xs = x # ys" using xs(2) Suc by (cases xs) auto
    moreover have "rw_eventHash (old ! i) = None" using assms(1,2) by (simp add: legacy_def list_all_length)
    moreover have "drop i old = old ! i # drop (Suc i) old" using assms(2) by (simp add: Cons_nth_drop_Suc)
    ultimately show ?thesis
      using xs(1) chain_all_sealed [OF xs(3)] by (simp add: half_sealed_def mixed_def)
  qed
qed

lemma backfill_half:
  fixes env :: "'w audit_env"
  assumes "digests h" "legacy old"
  shows "triple (\<lambda>s. log_rows s = old) (backfillLegacyEventHashes h env) (\<lambda>_. on_rows (half_sealed h env old))
    (\<lambda>_. on_rows (half_sealed h env old))"
proof -
  have io: "triple (\<lambda>s. log_rows s = old) (an_effect (an_io env)) (\<lambda>_ s. log_rows s = old)
      (\<lambda>_. on_rows (half_sealed h env old))"
    by (auto simp: triple_def an_effect_def half_sealed_def on_rows_def split: prod.splits sum.splits)
  have rows: "triple (\<lambda>s. log_rows s = old) get_rows (\<lambda>rows s. rows = old \<and> log_rows s = old) E" for E
    by (simp add: triple_def get_rows_def read_state_def)
  have loop: "triple (\<lambda>s. rows = old \<and> log_rows s = old) (backfill_from h env zero_hash 0 rows)
      (\<lambda>_. on_rows (half_sealed h env old)) (\<lambda>_. on_rows (half_sealed h env old))" for rows
  proof (cases "rows = old")
    case True
    have all: "on_rows (half_sealed h env old) s" if "\<exists>q. sealed_to h env (0 + length old) q [] s" for s
      using that by (auto simp: sealed_to_def half_sealed_def on_rows_def)
    have some: "on_rows (half_sealed h env old) s"
      if some: "\<exists>i q. i < length old \<and> sealed_to h env (0 + i) q (drop i old) s" for s
    proof -
      obtain i q where "i < length old" "sealed_to h env i q (drop i old) s" using some by auto
      then show ?thesis unfolding on_rows_def by (rule sealed_to_half [OF assms(2)])
    qed
    have "triple (sealed_to h env 0 zero_hash old) (backfill_from h env zero_hash 0 old)
      (\<lambda>_. on_rows (half_sealed h env old)) (\<lambda>_. on_rows (half_sealed h env old))"
      by (rule triple_post [OF backfill_from_sealed [OF assms(1)]]) (erule all, erule some)
    then show ?thesis unfolding True by (rule triple_pre) (simp add: sealed_to_def)
  qed (simp add: triple_def)
  show ?thesis
    unfolding backfillLegacyEventHashes_def
    by (intro triple_andthen [OF io] triple_andthen [OF rows])
      (use loop in \<open>auto simp: triple_def ret_def throw_def half_sealed_def on_rows_def split: if_splits\<close>)
qed

text \<open>A table of sealed and unsealed rows is refused, whoever opens it.\<close>

lemma mixed_refused:
  assumes "mixed (dk_rows d)"
  shows "\<exists>e m w'. new_audit_writer h env repair (M, d, w) = (Inl e, (m, d, w'))"
proof -
  obtain r s where io: "an_io env w = (r, s)" by (meson surj_pair)
  have "\<not> list_all (\<lambda>r. rw_eventHash r \<noteq> None) (dk_rows d)" "list_ex (\<lambda>r. rw_eventHash r \<noteq> None) (dk_rows d)"
    using assms by (auto simp: mixed_def list_ex_iff list_all_iff)
  then show ?thesis
    using io by (cases r) (auto simp: new_audit_writer_def backfillLegacyEventHashes_def andthen_def an_effect_def
        modify_state_def get_rows_def read_state_def throw_def split: sum.splits)
qed

text \<open>C29. The backfill is not atomic: opening a table from before the hashes leaves it as it was, or
  a sound chain, or, when an update in the middle of it fails, a mix of sealed and unsealed rows; and
  a mix is refused by every later opening, with any collaborators and any repair flag, which leaves
  it as it is.\<close>

theorem audit_backfill_interrupted:
  assumes "digests h" "legacy (dk_rows D)" "new_audit_writer h env repair (M, D, w) = (r, (m, d, w'))"
  shows "dk_rows d = dk_rows D \<or> (\<exists>tip. chain h env (dk_rows d) = Inr tip) \<or>
    mixed (dk_rows d) \<and> (\<forall>(env' :: 'v audit_env) repair' M' u.
      \<exists>e m' u'. new_audit_writer h env' repair' (M', d, u) = (Inl e, (m', d, u')))"
proof -
  let ?h = "half_sealed h env (dk_rows D)"
  have rest: "triple (on_rows ?h) (andthen (recoverLastHash h env) (\<lambda>_. verifyAnchoredHash env repair))
      (\<lambda>_. on_rows ?h) (\<lambda>_. on_rows ?h)"
    by (fold keeps_def) (intro keeps_rules log_rules)
  have start: "triple (\<lambda>s. log_rows s = dk_rows D) (modify_state (\<lambda>(mem, y). (m0, y)))
      (\<lambda>_ s. log_rows s = dk_rows D) (\<lambda>_. on_rows ?h)" for m0
    by (auto simp: triple_def modify_state_def)
  have stop: "triple (\<lambda>s. log_rows s = dk_rows D) (throw e) (\<lambda>_. on_rows ?h) (\<lambda>_. on_rows ?h)" for e
    by (auto simp: triple_def throw_def on_rows_def half_sealed_def)
  have "triple (\<lambda>s. log_rows s = dk_rows D) (new_audit_writer h env repair) (\<lambda>_. on_rows ?h) (\<lambda>_. on_rows ?h)"
    unfolding new_audit_writer_def
    by (auto intro!: stop triple_andthen [OF start triple_andthen [OF backfill_half [OF assms(1,2)] rest]]
        split: sum.splits)
  note returns = tripleD_val [OF this, of "(M, D, w)" _ "(m, d, w')"]
    and fails = tripleD_exn [OF this, of "(M, D, w)" _ "(m, d, w')"]
  have "?h (dk_rows d)"
    using returns fails assms(3) by (cases r) (simp_all add: on_rows_def)
  then show ?thesis
    unfolding half_sealed_def
  proof (elim disjE)
    assume "mixed (dk_rows d)"
    then show ?thesis by (intro disjI2 conjI allI mixed_refused)
  qed simp_all
qed

text \<open>A disk that fails once, at the second row.\<close>

definition failing_env :: "nat audit_env" where
  "failing_env =
     \<lparr>an_environment = Testnet, an_secret = replicate 32 CHR ''s'', an_anchored = True, an_now = ret 1,
      an_uuid = ret ''u1'', an_io = (\<lambda>n. (if n = 2 then Inl (GenericError ''disk full'') else Inr (), Suc n)),
      an_read = ret (), an_anchor = ret AnchorWritten, an_redact = (\<lambda>s. s)\<rparr>"

theorem audit_backfill_interrupted_witness:
  "\<exists>e m d w'. new_audit_writer chain_host failing_env False (new_mem, stripped_disk, 0) = (Inl e, (m, d, w')) \<and>
     (\<forall>repair. \<exists>e' s. new_audit_writer chain_host sample_audit_env repair (new_mem, d, ()) = (Inl e', s))"
proof -
  let ?d = "\<lparr>dk_rows = [sealed chain_host failing_env ((stripped first_row)\<lparr>rw_previousHash := zero_hash\<rparr>), stripped second_row],
    dk_anchor = dk_anchor stripped_disk\<rparr>"
  have run: "new_audit_writer chain_host failing_env False (new_mem, stripped_disk, 0) =
      (Inl (GenericError ''disk full''), (new_mem, ?d, 3))"
    by (simp add: new_audit_writer_def backfillLegacyEventHashes_def writer_runs failing_env_def sealed_def
        computeEventHash_def computeHash_def
        assertAuditHashSecret_def assertAuditHashAnchor_def stripped_disk_def new_mem_def)
  have "legacy (dk_rows stripped_disk)" by (simp add: legacy_def stripped_disk_def)
  note * = audit_backfill_interrupted [where ?'v = unit, OF chain_host_digests this run]
  have "dk_rows ?d \<noteq> dk_rows stripped_disk"
    by (auto simp: sealed_def stripped_disk_def dest: arg_cong [where f = rw_eventHash])
  moreover have "\<nexists>tip. chain chain_host failing_env (dk_rows ?d) = Inr tip"
    by (auto simp: stripped_def split: if_splits)
  ultimately have "\<forall>(env' :: unit audit_env) repair' M' u.
      \<exists>e m' u'. new_audit_writer chain_host env' repair' (M', ?d, u) = (Inl e, (m', ?d, u'))"
    using * by blast
  then show ?thesis using run by blast
qed

end
