(* ===== verification/PolicyOutput.thy ===== *)
theory PolicyOutput
  imports RiskChecks
begin

text \<open>
  The output of the policy engine: the schema \<open>PolicyOutput\<close> of \<open>packages/schemas/src/policy.ts\<close>
  and \<open>transformOpaOutput\<close> of \<open>packages/guardrail-service/src/opa-transform.ts\<close>, which turns what
  OPA answered into a value of that schema or throws. The lemmas say what evidence a decision has
  that got through.
\<close>

subsection \<open>Data\<close>

datatype decision_outcome = Allow | Deny | NeedsHuman

fun outcome_name :: "decision_outcome \<Rightarrow> string" where
  "outcome_name Allow = ''allow''"
| "outcome_name Deny = ''deny''"
| "outcome_name NeedsHuman = ''needs_human''"

definition outcome_table :: "(string \<times> decision_outcome) list" where
  "outcome_table = map (\<lambda>d. (outcome_name d, d)) [Allow, Deny, NeedsHuman]"

text \<open>A reason: its rule and its message.\<close>

type_synonym reason = "string \<times> string"

record policy_output =
  po_decision :: decision_outcome
  po_reasons :: "reason list"
  po_requiresHumanApproval :: bool
  po_matchedAllowRules :: "string list"
  po_matchedDenyRules :: "string list"
  po_evaluatedAt :: string

definition reason_json :: "reason \<Rightarrow> jsval" where
  "reason_json r = JObj [(''rule'', JStr (fst r)), (''message'', JStr (snd r))]"

definition policy_output_json :: "policy_output \<Rightarrow> jsval" where
  "policy_output_json p = JObj
     [(''decision'', JStr (outcome_name (po_decision p))),
      (''reasons'', JArr (map reason_json (po_reasons p))),
      (''requiresHumanApproval'', JBool (po_requiresHumanApproval p)),
      (''matchedAllowRules'', JArr (map JStr (po_matchedAllowRules p))),
      (''matchedDenyRules'', JArr (map JStr (po_matchedDenyRules p))),
      (''evaluatedAt'', JStr (po_evaluatedAt p))]"

subsection \<open>The schema\<close>

fun z_boolean :: "jsval \<Rightarrow> bool option" where
  "z_boolean (JBool b) = Some b"
| "z_boolean _ = None"

text \<open>\<open>z.array(d)\<close> without bounds\<close>

fun z_list :: "(jsval \<Rightarrow> 'a option) \<Rightarrow> jsval \<Rightarrow> 'a list option" where
  "z_list d (JArr xs) = all_some d xs"
| "z_list d _ = None"

definition parse_reason :: "jsval \<Rightarrow> reason option" where
  "parse_reason v = (let m = map_of (members v) in
     if \<not> is_object v \<or> \<not> strict [''rule'', ''message''] (members v) then None
     else do {
       r \<leftarrow> required m ''rule'' (z_string nonempty);
       t \<leftarrow> required m ''message'' (z_string nonempty);
       Some (r, t) })"

text \<open>The refinements of the schema.\<close>

definition policy_output_ok :: "policy_output \<Rightarrow> bool" where
  "policy_output_ok p \<longleftrightarrow>
     \<not> (po_decision p = Allow \<and> po_requiresHumanApproval p) \<and>
     (po_decision p \<noteq> Allow \<or> po_reasons p \<noteq> []) \<and>
     \<not> (po_decision p = Deny \<and> po_requiresHumanApproval p) \<and>
     (po_decision p \<noteq> NeedsHuman \<or> po_requiresHumanApproval p) \<and>
     (po_decision p \<noteq> NeedsHuman \<or> po_reasons p \<noteq> [])"

definition policy_output_keys :: "string list" where
  "policy_output_keys = [''decision'', ''reasons'', ''requiresHumanApproval'', ''matchedAllowRules'',
     ''matchedDenyRules'', ''evaluatedAt'']"

definition parse_policy_output :: "host \<Rightarrow> jsval \<Rightarrow> policy_output option" where
  "parse_policy_output h v = (let m = map_of (members v) in
     if \<not> is_object v \<or> \<not> strict policy_output_keys (members v) then None
     else do {
       d \<leftarrow> required m ''decision'' (z_enum outcome_table);
       rs \<leftarrow> required m ''reasons'' (z_list parse_reason);
       rh \<leftarrow> required m ''requiresHumanApproval'' z_boolean;
       al \<leftarrow> required m ''matchedAllowRules'' (z_list (z_string any_string));
       de \<leftarrow> required m ''matchedDenyRules'' (z_list (z_string any_string));
       at' \<leftarrow> required m ''evaluatedAt'' (z_string (is_datetime h));
       let p = \<lparr>po_decision = d, po_reasons = rs, po_requiresHumanApproval = rh,
         po_matchedAllowRules = al, po_matchedDenyRules = de, po_evaluatedAt = at'\<rparr>;
       if policy_output_ok p then Some p else None })"

subsection \<open>transformOpaOutput\<close>

text \<open>One reason of OPA: a string, or an object with string rule and message.\<close>

fun normalizeReason :: "jsval \<Rightarrow> reason option" where
  "normalizeReason (JStr s) = Some (s, s)"
| "normalizeReason v =
     (case (js_get v ''rule'', js_get v ''message'') of (JStr r, JStr t) \<Rightarrow> Some (r, t) | _ \<Rightarrow> None)"

fun normalizeReasons :: "jsval \<Rightarrow> reason list option" where
  "normalizeReasons (JArr xs) = all_some normalizeReason xs"
| "normalizeReasons _ = None"

definition normalizeOptionalReasons :: "jsval \<Rightarrow> reason list option" where
  "normalizeOptionalReasons v = (if v = JUndef then Some [] else normalizeReasons v)"

definition normalizeStringArray :: "jsval \<Rightarrow> string list option" where
  "normalizeStringArray v = z_list (z_string any_string) v"

definition requiredField :: "jsval \<Rightarrow> string \<Rightarrow> string \<Rightarrow> jsval option" where
  "requiredField raw camel snake =
     (if has_key raw camel then Some (js_get raw camel)
      else if has_key raw snake then Some (js_get raw snake) else None)"

definition allReasonsMatchRules :: "reason list \<Rightarrow> string list \<Rightarrow> bool" where
  "allReasonsMatchRules rs rules \<longleftrightarrow> list_all (\<lambda>r. fst r \<in> set rules) rs"

definition reasonRulesExactlyMatch :: "reason list \<Rightarrow> string list \<Rightarrow> bool" where
  "reasonRulesExactlyMatch rs rules \<longleftrightarrow> sort (map fst rs) = sort rules"

text \<open>The checks after the schema, of the direct reasons and of OPA's own evidence.\<close>

definition evidence_consistent :: "policy_output \<Rightarrow> reason list \<Rightarrow> reason list \<Rightarrow> bool" where
  "evidence_consistent p hard esc \<longleftrightarrow>
     (po_decision p \<noteq> Deny \<longrightarrow> hard = [] \<and> po_matchedDenyRules p = []) \<and>
     (po_decision p = Allow \<longrightarrow> \<not> po_requiresHumanApproval p \<and> po_matchedAllowRules p \<noteq> [] \<and>
        po_reasons p \<noteq> [] \<and> esc = [] \<and> allReasonsMatchRules (po_reasons p) (po_matchedAllowRules p)) \<and>
     (po_decision p = Deny \<longrightarrow> po_reasons p \<noteq> [] \<and>
        (hard \<noteq> [] \<longrightarrow> reasonRulesExactlyMatch (po_reasons p) (map fst hard))) \<and>
     (po_decision p = NeedsHuman \<longrightarrow> po_requiresHumanApproval p \<and>
        (esc \<noteq> [] \<longrightarrow> reasonRulesExactlyMatch (po_reasons p) (map fst esc)))"

text \<open>
  \<open>None\<close> where the source throws; \<open>now\<close> is the time of the clock. \<open>raw\<close> is an object, as OPA
  answers one; \<open>k in raw\<close> of anything else throws.
\<close>

definition transformOpaOutput :: "host \<Rightarrow> string \<Rightarrow> jsval \<Rightarrow> policy_output option" where
  "transformOpaOutput h now raw =
     (if \<not> is_object raw \<or> \<not> has_key raw ''decision'' then None
      else let direct = has_key raw ''reasons'';
               mapped = has_key raw ''hard_deny_reasons'' \<or> has_key raw ''escalation_reasons'' in
        if \<not> direct \<and> \<not> mapped then None
        else do {
          ds \<leftarrow> (if direct then normalizeReasons (js_get raw ''reasons'') else Some []);
          hard \<leftarrow> normalizeOptionalReasons (js_get raw ''hard_deny_reasons'');
          esc \<leftarrow> normalizeOptionalReasons (js_get raw ''escalation_reasons'');
          rh \<leftarrow> requiredField raw ''requiresHumanApproval'' ''requires_human_approval'';
          fa \<leftarrow> requiredField raw ''matchedAllowRules'' ''matched_allow_rules'';
          al \<leftarrow> normalizeStringArray fa;
          fd \<leftarrow> requiredField raw ''matchedDenyRules'' ''matched_deny_rules'';
          de \<leftarrow> normalizeStringArray fd;
          p \<leftarrow> parse_policy_output h (JObj
            [(''decision'', js_get raw ''decision''),
             (''reasons'', JArr (map reason_json (if direct then ds else hard @ esc))),
             (''requiresHumanApproval'', rh), (''matchedAllowRules'', JArr (map JStr al)),
             (''matchedDenyRules'', JArr (map JStr de)),
             (''evaluatedAt'', if js_get raw ''evaluatedAt'' \<in> {JUndef, JNull} then JStr now
                else js_get raw ''evaluatedAt'')]);
          if evidence_consistent p hard esc then Some p else None })"

text \<open>What an output that passed has behind it.\<close>

definition policy_evidence :: "policy_output \<Rightarrow> bool" where
  "policy_evidence p \<longleftrightarrow> po_reasons p \<noteq> [] \<and>
     (po_decision p = Allow \<longrightarrow> \<not> po_requiresHumanApproval p \<and> po_matchedAllowRules p \<noteq> [] \<and>
        po_matchedDenyRules p = [] \<and> (\<forall>r \<in> set (po_reasons p). fst r \<in> set (po_matchedAllowRules p))) \<and>
     (po_decision p = NeedsHuman \<longrightarrow> po_requiresHumanApproval p \<and> po_matchedDenyRules p = []) \<and>
     (po_decision p = Deny \<longrightarrow> \<not> po_requiresHumanApproval p)"

lemma transform_checked:
  assumes "transformOpaOutput h now raw = Some p"
  shows "policy_output_ok p \<and> (\<exists>hard esc. evidence_consistent p hard esc)"
proof -
  have "policy_output_ok p" if "parse_policy_output h v = Some p" for v
    using that by (auto simp: parse_policy_output_def Let_def bind_eq_Some_conv split: if_splits)
  with assms show ?thesis
    by (auto simp: transformOpaOutput_def Let_def bind_eq_Some_conv split: if_splits)
qed

lemma transform_evidence: "transformOpaOutput h now raw = Some p \<Longrightarrow> policy_evidence p"
  using transform_checked [of h now raw p]
  by (cases "po_decision p")
    (auto simp: policy_output_ok_def evidence_consistent_def policy_evidence_def allReasonsMatchRules_def list_all_iff)

end
