(* ===== verification/SolanaParser.thy ===== *)
theory SolanaParser
  imports Schemas
begin

text \<open>
  The Solana instructions of an intent: \<open>parser.ts\<close> and \<open>validation.ts\<close> of
  \<open>packages/solana-connector/src\<close>. Raw instruction data is decoded from hexadecimal or canonical
  base64 and recognised as a system transfer or a checked token transfer; anything else is refused.
  The base58 codec of \<open>PublicKey\<close> is a parameter. The last lemmas say what decoded data cannot hide.
\<close>

subsection \<open>Strings of values\<close>

text \<open>
  \<open>String(v)\<close>; \<open>None\<close> when an own \<open>toString\<close> that is no function makes it throw. An array
  joins its elements, \<open>null\<close> and \<open>undefined\<close> as empty strings.
\<close>

fun js_string :: "(jsnum \<Rightarrow> string) \<Rightarrow> jsval \<Rightarrow> string option" where
  "js_string fmt JUndef = Some ''undefined''"
| "js_string fmt JNull = Some ''null''"
| "js_string fmt (JBool b) = Some (if b then ''true'' else ''false'')"
| "js_string fmt (JNum x) = Some (fmt x)"
| "js_string fmt (JStr s) = Some s"
| "js_string fmt (JArr xs) = map_option (join '','') (those (map (\<lambda>x.
     case x of JUndef \<Rightarrow> Some [] | JNull \<Rightarrow> Some [] | y \<Rightarrow> js_string fmt y) xs))"
| "js_string fmt (JObj kvs) = (if map_of kvs ''toString'' = None then Some ''[object Object]'' else None)"

subsection \<open>Bytes\<close>

definition hex_value :: "char \<Rightarrow> nat" where
  "hex_value c = (if is_digit c then code c - 48 else if 97 \<le> code c then code c - 87 else code c - 55)"

text \<open>\<open>/^(?:[0-9a-fA-F]{2})*$/\<close> and the bytes it stands for\<close>

fun hex_bytes :: "string \<Rightarrow> nat list option" where
  "hex_bytes [] = Some []"
| "hex_bytes [c] = None"
| "hex_bytes (c # d # s) = (if is_hex c \<and> is_hex d
     then map_option (\<lambda>bs. (16 * hex_value c + hex_value d) # bs) (hex_bytes s) else None)"

definition base64_alphabet :: string where
  "base64_alphabet = ''ABCDEFGHIJKLMNOPQRSTUVWXYZabcdefghijklmnopqrstuvwxyz0123456789+/''"

definition base64_digit :: "nat \<Rightarrow> char" where
  "base64_digit n = base64_alphabet ! n"

definition base64_value :: "char \<Rightarrow> nat option" where
  "base64_value c = map_of (zip base64_alphabet [0..<64]) c"

fun base64_encode :: "nat list \<Rightarrow> string" where
  "base64_encode [] = []"
| "base64_encode [a] = [base64_digit (a div 4), base64_digit (a mod 4 * 16), CHR ''='', CHR ''='']"
| "base64_encode [a, b] = [base64_digit (a div 4), base64_digit (a mod 4 * 16 + b div 16),
     base64_digit (b mod 16 * 4), CHR ''='']"
| "base64_encode (a # b # c # bs) = [base64_digit (a div 4), base64_digit (a mod 4 * 16 + b div 16),
     base64_digit (b mod 16 * 4 + c div 64), base64_digit (c mod 64)] @ base64_encode bs"

fun base64_decode :: "string \<Rightarrow> nat list option" where
  "base64_decode [] = Some []"
| "base64_decode (p # q # r # s # rest) =
     (case (base64_value p, base64_value q) of
        (Some x, Some y) \<Rightarrow>
          if r = CHR ''='' \<and> s = CHR ''='' \<and> rest = [] then Some [x * 4 + y div 16]
          else (case base64_value r of None \<Rightarrow> None
            | Some z \<Rightarrow> if s = CHR ''='' \<and> rest = [] then Some [x * 4 + y div 16, y mod 16 * 16 + z div 4]
                else (case base64_value s of None \<Rightarrow> None
                  | Some u \<Rightarrow> map_option (\<lambda>bs. [x * 4 + y div 16, y mod 16 * 16 + z div 4, z mod 4 * 64 + u] @ bs)
                      (base64_decode rest)))
      | _ \<Rightarrow> None)"
| "base64_decode _ = None"

text \<open>
  \<open>Buffer.from(value, "base64")\<close> skips what is no digit, so that only a text that is encoded back
  to itself is accepted: the canonical ones.
\<close>

definition decodeInstructionData :: "jsval \<Rightarrow> nat list option" where
  "decodeInstructionData v = (case v of
     JStr s \<Rightarrow> if take 2 s = ''0x'' then hex_bytes (drop 2 s)
       else (case base64_decode s of None \<Rightarrow> None
         | Some bs \<Rightarrow> if base64_encode bs = s then Some bs else None)
   | _ \<Rightarrow> None)"

text \<open>\<open>readUInt32LE\<close> and \<open>readBigUInt64LE\<close> read \<open>n\<close> bytes, the lowest first.\<close>

fun little_endian :: "nat list \<Rightarrow> nat" where
  "little_endian [] = 0"
| "little_endian (b # bs) = b + 256 * little_endian bs"

definition read_le :: "nat \<Rightarrow> nat \<Rightarrow> nat list \<Rightarrow> nat" where
  "read_le from n bs = little_endian (take n (drop from bs))"

fun decimal_string :: "nat \<Rightarrow> string" where
  "decimal_string n = (if n < 10 then [char_of (48 + n)] else decimal_string (n div 10) @ [char_of (48 + n mod 10)])"

declare decimal_string.simps [simp del]

subsection \<open>Instructions\<close>

record parsed_instruction =
  pi_programId :: string
  pi_type :: "string option"
  pi_data :: jsval

record account_key =
  ak_pubkey :: string
  ak_isSigner :: bool
  ak_isWritable :: bool

definition SYSTEM_PROGRAM_ID :: string where
  "SYSTEM_PROGRAM_ID = ''11111111111111111111111111111111''"
definition TOKEN_PROGRAM_ID :: string where
  "TOKEN_PROGRAM_ID = ''TokenkegQfeZyiNwAJbNbGKPFXCWuBvf9Ss623VQ5DA''"
definition TOKEN_2022_PROGRAM_ID :: string where
  "TOKEN_2022_PROGRAM_ID = ''TokenzQdBNbLqP5VEhdkAS6EPFLC1PHnBqCXEpPxuEb''"

definition account_key_json :: "account_key \<Rightarrow> jsval" where
  "account_key_json k = JObj [(''pubkey'', JStr (ak_pubkey k)), (''isSigner'', JBool (ak_isSigner k)),
     (''isWritable'', JBool (ak_isWritable k))]"

text \<open>\<open>base58\<close> is \<open>new PublicKey(s).toBase58()\<close>, \<open>None\<close> when the constructor throws.\<close>

definition parse_key :: "(string \<Rightarrow> string option) \<Rightarrow> jsval \<Rightarrow> account_key option" where
  "parse_key base58 v =
     (case (js_get v ''pubkey'', js_get v ''isSigner'', js_get v ''isWritable'') of
        (JStr s, JBool sg, JBool wr) \<Rightarrow>
          map_option (\<lambda>k. \<lparr>ak_pubkey = k, ak_isSigner = sg, ak_isWritable = wr\<rparr>) (base58 s)
      | _ \<Rightarrow> None)"

text \<open>\<open>data[k] = v\<close>: a property keeps its place, a new one comes last.\<close>

fun set_member :: "string \<Rightarrow> jsval \<Rightarrow> (string \<times> jsval) list \<Rightarrow> (string \<times> jsval) list" where
  "set_member k v [] = [(k, v)]"
| "set_member k v ((k', v') # kvs) = (if k = k' then (k, v) # kvs else (k', v') # set_member k v kvs)"

definition set_members :: "(string \<times> jsval) list \<Rightarrow> (string \<times> jsval) list \<Rightarrow> (string \<times> jsval) list" where
  "set_members new kvs = foldl (\<lambda>kvs (k, v). set_member k v kvs) kvs new"

definition system_transfer :: "string \<Rightarrow> nat list \<Rightarrow> account_key list \<Rightarrow> bool" where
  "system_transfer programId bytes accounts \<longleftrightarrow> programId = SYSTEM_PROGRAM_ID \<and> length bytes = 12 \<and>
     read_le 0 4 bytes = 2 \<and> length accounts = 2 \<and> ak_isSigner (accounts ! 0) \<and>
     ak_isWritable (accounts ! 0) \<and> ak_isWritable (accounts ! 1)"

definition checked_transfer :: "string \<Rightarrow> nat list \<Rightarrow> account_key list \<Rightarrow> bool" where
  "checked_transfer programId bytes accounts \<longleftrightarrow>
     (programId = TOKEN_PROGRAM_ID \<or> programId = TOKEN_2022_PROGRAM_ID) \<and> length bytes = 10 \<and>
     bytes ! 0 = 12 \<and> 4 \<le> length accounts \<and> ak_isWritable (accounts ! 0) \<and> ak_isWritable (accounts ! 2)"

definition parse_raw ::
  "string \<Rightarrow> (string \<times> jsval) list \<Rightarrow> nat list \<Rightarrow> account_key list \<Rightarrow> parsed_instruction option" where
  "parse_raw programId kvs bytes accounts =
     (let data = set_member ''keys'' (JArr (map account_key_json accounts)) kvs;
          pk = (\<lambda>n. JStr (ak_pubkey (accounts ! n))) in
      if system_transfer programId bytes accounts
      then Some \<lparr>pi_programId = programId, pi_type = Some ''transfer'',
        pi_data = JObj (set_members [(''source'', pk 0), (''destination'', pk 1),
          (''amount'', JStr (decimal_string (read_le 4 8 bytes)))] data)\<rparr>
      else if checked_transfer programId bytes accounts
      then Some \<lparr>pi_programId = programId, pi_type = Some ''transferChecked'',
        pi_data = JObj (set_members [(''source'', pk 0), (''mint'', pk 1), (''tokenMint'', pk 1),
          (''destination'', pk 2), (''owner'', pk 3),
          (''amount'', JStr (decimal_string (read_le 1 8 bytes))),
          (''decimals'', JNum (num_of_int (int (bytes ! 9))))] data)\<rparr>
      else None)"

text \<open>One instruction, an object; \<open>None\<close> where the source throws.\<close>

definition parseInstruction ::
  "(jsnum \<Rightarrow> string) \<Rightarrow> (string \<Rightarrow> string option) \<Rightarrow> jsval \<Rightarrow> parsed_instruction option" where
  "parseInstruction fmt base58 v =
     do {
       programId \<leftarrow> (if nullish (js_get v ''programId'') then Some [] else js_string fmt (js_get v ''programId''));
       if nullish (js_get v ''data'')
       then (if nullish (js_get v ''type'') then Some \<lparr>pi_programId = programId, pi_type = None, pi_data = v\<rparr>
             else do { t \<leftarrow> js_string fmt (js_get v ''type'');
                    Some \<lparr>pi_programId = programId, pi_type = Some t, pi_data = v\<rparr> })
       else if \<not> nullish (js_get v ''type'') then None
       else do {
         bytes \<leftarrow> decodeInstructionData (js_get v ''data'');
         accounts \<leftarrow> (case js_get v ''keys'' of JArr ks \<Rightarrow> all_some (parse_key base58) ks | _ \<Rightarrow> None);
         parse_raw programId (members v) bytes accounts } }"

definition parseInstructions ::
  "(jsnum \<Rightarrow> string) \<Rightarrow> (string \<Rightarrow> string option) \<Rightarrow> jsval list \<Rightarrow> parsed_instruction list option" where
  "parseInstructions fmt base58 raw = all_some (parseInstruction fmt base58) raw"

definition hasAuthorityChange :: "parsed_instruction list \<Rightarrow> bool" where
  "hasAuthorityChange ixs \<longleftrightarrow> list_ex (\<lambda>ix. pi_type ix = Some ''authority_change'' \<or>
     pi_type ix = Some ''setAuthority'' \<or> pi_type ix = Some ''SetAuthority'') ixs"

definition getUniquePrograms :: "parsed_instruction list \<Rightarrow> string list" where
  "getUniquePrograms ixs = rev (remdups (rev (map pi_programId ixs)))"

subsection \<open>Validation\<close>

record solana_config =
  so_chainEnvironment :: chain_environment
  so_allowedPrograms :: "string list"
  so_allowedTokenMints :: "string list"
  so_allowedAccounts :: "string list"

text \<open>The reason of a refusal; \<open>None\<close> for valid.\<close>

definition not_listed :: "string \<Rightarrow> string \<Rightarrow> string" where
  "not_listed what s = what @ '' '' @ s @ '' is not in the allowlist.''"

definition validatePrograms :: "parsed_instruction list \<Rightarrow> solana_config \<Rightarrow> string option" where
  "validatePrograms ixs c = map_option (not_listed ''Program'')
     (List.find (\<lambda>p. p \<notin> set (so_allowedPrograms c)) (getUniquePrograms ixs))"

definition validateAuthorityChange :: "parsed_instruction list \<Rightarrow> string option" where
  "validateAuthorityChange ixs = (if hasAuthorityChange ixs then Some ''Authority changes are not permitted.'' else None)"

text \<open>A value that is set must be on the list; \<open>None\<close> outside for an exception of \<open>String\<close>.\<close>

definition listed ::
  "(jsnum \<Rightarrow> string) \<Rightarrow> string list \<Rightarrow> string \<Rightarrow> jsval \<Rightarrow> string option option" where
  "listed fmt allowed what v =
     (if \<not> truthy v then Some None
      else map_option (\<lambda>s. if s \<in> set allowed then None else Some (not_listed what s)) (js_string fmt v))"

text \<open>The loops return at the first refusal.\<close>

fun first_refusal :: "('a \<Rightarrow> string option option) \<Rightarrow> 'a list \<Rightarrow> string option option" where
  "first_refusal f [] = Some None"
| "first_refusal f (x # xs) =
     (case f x of None \<Rightarrow> None | Some None \<Rightarrow> first_refusal f xs | Some (Some r) \<Rightarrow> Some (Some r))"

definition validateTokenMints ::
  "(jsnum \<Rightarrow> string) \<Rightarrow> parsed_instruction list \<Rightarrow> solana_config \<Rightarrow> string option option" where
  "validateTokenMints fmt ixs c = first_refusal (\<lambda>ix.
     let mint = js_get (pi_data ix) ''mint'';
         v = (if nullish mint then js_get (pi_data ix) ''tokenMint'' else mint) in
     listed fmt (so_allowedTokenMints c) ''Token mint'' v) ixs"

text \<open>The accounts an instruction names, and those its keys mark as writable.\<close>

definition instruction_accounts :: "parsed_instruction \<Rightarrow> jsval list" where
  "instruction_accounts ix =
     map (js_get (pi_data ix)) [''destination'', ''recipient'', ''source'', ''authority'', ''owner''] @
     (case js_get (pi_data ix) ''keys'' of
        JArr ks \<Rightarrow> map (\<lambda>k. js_get k ''pubkey'') (filter (\<lambda>k. js_get k ''isWritable'' = JBool True) ks)
      | _ \<Rightarrow> [])"

definition validateAccounts ::
  "(jsnum \<Rightarrow> string) \<Rightarrow> parsed_instruction list \<Rightarrow> solana_config \<Rightarrow> string option option" where
  "validateAccounts fmt ixs c = first_refusal (\<lambda>ix.
     first_refusal (listed fmt (so_allowedAccounts c) ''Account'') (instruction_accounts ix)) ixs"

subsection \<open>What decoded data cannot hide\<close>

lemma parse_raw_type:
  "parse_raw p kvs bytes ks = Some ix \<Longrightarrow> pi_type ix = Some ''transfer'' \<or> pi_type ix = Some ''transferChecked''"
  by (auto simp: parse_raw_def Let_def split: if_splits)

text \<open>An instruction with raw data is a transfer of one of the two kinds, whatever else it says.\<close>

lemma raw_instruction_type:
  assumes "parseInstruction fmt base58 v = Some ix" "\<not> nullish (js_get v ''data'')"
  shows "pi_type ix = Some ''transfer'' \<or> pi_type ix = Some ''transferChecked''"
  using assms by (auto simp: parseInstruction_def bind_eq_Some_conv dest!: parse_raw_type split: if_splits)

lemma raw_no_authority_change:
  assumes "parseInstructions fmt base58 raw = Some ixs" "\<forall>v \<in> set raw. \<not> nullish (js_get v ''data'')"
  shows "\<not> hasAuthorityChange ixs"
  using assms
proof (induction raw arbitrary: ixs)
  case (Cons v raw)
  then obtain ix rest where "ixs = ix # rest" "parseInstruction fmt base58 v = Some ix"
    "parseInstructions fmt base58 raw = Some rest"
    by (auto simp: parseInstructions_def bind_eq_Some_conv)
  with Cons raw_instruction_type [of fmt base58 v ix] show ?case by (auto simp: hasAuthorityChange_def)
qed (simp add: parseInstructions_def hasAuthorityChange_def)

end
