(* ===== verification/GuardrailFacts.thy ===== *)
theory GuardrailFacts
  imports PolicyOutput SolanaParser IntentSchema AuditWriter
begin

text \<open>
  The pure parts of \<open>packages/guardrail-service/src/service.ts\<close>: the screening of the text of an
  intent, its canonical resource, the facts about token approvals, the answers of the reviewer and
  of the risk engine as their schemas let them through, and the input of the policy engine.
\<close>

declare map_of_append [simp del]

subsection \<open>Regular expressions\<close>

text \<open>
  The regular expressions of the screening are sequences of texts, \<open>\s+\<close>, \<open>\s*\<close>, \<open>.{0,n}\<close>
  and one alternation of texts.
\<close>

datatype pattern = PText string | PSpaces | PMaySpaces | PGap nat | POneOf "string list"

definition line_end :: "char \<Rightarrow> bool" where
  "line_end c \<longleftrightarrow> code c = 10 \<or> code c = 13"

text \<open>A match at the start of the text.\<close>

function pmatch :: "pattern list \<Rightarrow> string \<Rightarrow> bool" where
  "pmatch [] s = True"
| "pmatch (PText t # ps) s = (take (length t) s = t \<and> pmatch ps (drop (length t) s))"
| "pmatch (POneOf ts # ps) s = list_ex (\<lambda>t. take (length t) s = t \<and> pmatch ps (drop (length t) s)) ts"
| "pmatch (PSpaces # ps) s = (case s of [] \<Rightarrow> False | c # s' \<Rightarrow> is_space c \<and> (pmatch ps s' \<or> pmatch (PSpaces # ps) s'))"
| "pmatch (PMaySpaces # ps) s = (pmatch ps s \<or>
     (case s of [] \<Rightarrow> False | c # s' \<Rightarrow> is_space c \<and> pmatch (PMaySpaces # ps) s'))"
| "pmatch (PGap n # ps) s = (pmatch ps s \<or>
     (case s of [] \<Rightarrow> False | c # s' \<Rightarrow> n \<noteq> 0 \<and> \<not> line_end c \<and> pmatch (PGap (n - 1) # ps) s'))"
  by pat_completeness auto

termination by (relation "measure (\<lambda>(ps, s). length ps + length s)") auto

text \<open>\<open>RegExp.prototype.test\<close>: a match anywhere.\<close>

fun pattern_test :: "pattern list \<Rightarrow> string \<Rightarrow> bool" where
  "pattern_test ps [] = pmatch ps []"
| "pattern_test ps (c # s) = (pmatch ps (c # s) \<or> pattern_test ps s)"

definition injection_patterns :: "pattern list list" where
  "injection_patterns =
     [[PText ''ignore'', PSpaces, PText ''all'', PSpaces, PText ''previous'', PSpaces, PText ''instructions''],
      [PText ''system'', PSpaces, PText ''override'', PMaySpaces, PText '':''],
      [PText ''execute'', PSpaces, PText ''cex.withdraw''],
      [PText ''secretly'', PSpaces, PText ''calls'', PSpaces, PText ''cex.withdraw''],
      [PText ''transfer'', PSpaces, PText ''all'', PSpaces, PText ''funds'', PSpaces, PText ''to''],
      [PText ''log'', PSpaces, PText ''all'', PSpaces, PText ''environment'', PSpaces, PText ''variables'', PSpaces,
       PText ''including'', PSpaces, PText ''secrets'']]"

definition hallucination_patterns :: "pattern list list" where
  "hallucination_patterns =
     [[POneOf [''price'', ''balance'', ''position''], PGap 120, PText ''no snapshot reference''],
      [PText ''account'', PSpaces, PText ''has'', PGap 120, PText ''available'', PGap 120, PText ''no portfolio snapshot''],
      [PText ''current'', PSpaces, PText ''position'', PSpaces, PText ''is'', PGap 120, PText ''long'', PGap 120,
       PText ''evidence:'', PMaySpaces, PText ''none'']]"

definition unsafe_text :: "string \<Rightarrow> reason option" where
  "unsafe_text content =
     (if list_ex (\<lambda>ps. pattern_test ps content) injection_patterns
      then Some (''prompt_injection_detected'',
        ''Intent rationale or evidence contains prompt injection instructions.'')
      else if list_ex (\<lambda>ps. pattern_test ps content) hallucination_patterns
      then Some (''hallucinated_data_detected'',
        ''Intent rationale or evidence contains unsupported market or portfolio claims.'')
      else None)"

definition detectUnsafeContent :: "trading_intent \<Rightarrow> reason option" where
  "detectUnsafeContent i = unsafe_text
     (to_lower (join [CHR 0x0A] (env_rationale (intent_envelope i) # in_evidence i)))"

subsection \<open>Resources and scopes\<close>

fun intent_call :: "trading_intent \<Rightarrow> onchain_call option" where
  "intent_call (OnchainSimulationIntent e x) = Some x"
| "intent_call (OnchainSigningIntent e x) = Some (onchain_call.truncate x)"
| "intent_call _ = None"

definition canonicalResource :: "trading_intent \<Rightarrow> string" where
  "canonicalResource i =
     (case (intent_exchange i, intent_account i, intent_symbol i) of
        (Some ex, Some ac, Some sy) \<Rightarrow> ''cex:'' @ ex @ '':'' @ ac @ '':'' @ sy
      | _ \<Rightarrow> (case intent_call i of
          Some x \<Rightarrow> ''onchain:'' @ chain_name (oc_chain x) @ '':'' @
            chain_environment_name (oc_chainEnvironment x) @ '':'' @ oc_to x
        | None \<Rightarrow> []))"

definition idempotencyScope :: "host \<Rightarrow> trading_intent \<Rightarrow> string" where
  "idempotencyScope h i = stable_json h (JObj
     [(''key'', JStr (in_idempotencyKey i)), (''principal'', JStr (in_principal i)),
      (''action'', JStr (action_name (intent_action i))), (''resource'', JStr (in_resource i))])"

definition hashPayload :: "host \<Rightarrow> jsval \<Rightarrow> string" where
  "hashPayload h payload = stable_json h payload"

fun projectedDailyNotionalUsd :: "trading_intent \<Rightarrow> daily_stats option \<Rightarrow> jsval" where
  "projectedDailyNotionalUsd (CexOrderIntent e x) (Some st) =
     JNum (num_add (ds_totalNotionalUsd st) (ord_maxNotionalUsd x))"
| "projectedDailyNotionalUsd _ _ = JUndef"

subsection \<open>Token approvals\<close>

definition ERC20_APPROVE_SELECTOR :: string where
  "ERC20_APPROVE_SELECTOR = ''0x095ea7b3''"

definition unbounded_aliases :: "string list" where
  "unbounded_aliases = [''unlimited'', ''max'', ''uint256.max'', ''maxuint256'']"

definition starts_with :: "string \<Rightarrow> string \<Rightarrow> bool" where
  "starts_with s t \<longleftrightarrow> take (length t) s = t"

text \<open>\<open>BigInt\<close> of hexadecimal and of decimal digits.\<close>

definition hex_number :: "string \<Rightarrow> nat" where
  "hex_number s = foldl (\<lambda>n c. 16 * n + hex_value c) 0 s"

definition decimal_number :: "string \<Rightarrow> nat" where
  "decimal_number s = foldl (\<lambda>n c. 10 * n + (code c - 48)) 0 s"

definition extractErc20ApprovalAmount :: "string \<Rightarrow> nat option" where
  "extractErc20ApprovalAmount data =
     (if \<not> (starts_with data ''0x'' \<and> list_all is_lower_hex (drop 2 data)) \<or> length data \<noteq> 138 then None
      else Some (hex_number (drop 74 data)))"

definition parseApprovalMetadata :: "string option \<Rightarrow> nat option" where
  "parseApprovalMetadata v =
     (case v of None \<Rightarrow> None
      | Some s \<Rightarrow>
          if to_lower s \<in> set unbounded_aliases then Some (decimal_number uint256_max_decimal)
          else if \<not> natural_string s then None
          else if length s > length uint256_max_decimal then None
          else if length s = length uint256_max_decimal \<and> uint256_max_decimal < s then None
          else Some (decimal_number s))"

text \<open>\<open>null\<close> for an environment outside the enumeration, which an intent cannot have.\<close>

fun approvalCapForEnvironment :: "environment \<Rightarrow> nat" where
  "approvalCapForEnvironment Dev = 1000000000000"
| "approvalCapForEnvironment Paper = 1000000000000"
| "approvalCapForEnvironment Testnet = 1000000000000"
| "approvalCapForEnvironment CanaryLive = 100000000"
| "approvalCapForEnvironment Production = 1000000000"

record approval_facts =
  af_isTokenApproval :: bool
  af_tokenApprovalAmount :: "nat option"
  af_tokenApprovalAmountMissing :: bool
  af_tokenApprovalUnlimited :: bool
  af_tokenApprovalAmountExceedsCap :: bool

definition no_approval :: approval_facts where
  "no_approval = \<lparr>af_isTokenApproval = False, af_tokenApprovalAmount = None, af_tokenApprovalAmountMissing = False,
     af_tokenApprovalUnlimited = False, af_tokenApprovalAmountExceedsCap = False\<rparr>"

fun tokenApprovalFacts :: "trading_intent \<Rightarrow> approval_facts" where
  "tokenApprovalFacts (OnchainSigningIntent e x) =
     (if oc_chain x \<noteq> Ethereum then no_approval
      else let data = (case oc_data x of Some d \<Rightarrow> to_lower d | None \<Rightarrow> []);
               selector = starts_with data ERC20_APPROVE_SELECTOR;
               metadata = parseApprovalMetadata (sc_maxTokenApprovalAmount x) in
        if \<not> selector \<and> metadata = None then no_approval
        else let calldata = (if selector then extractErc20ApprovalAmount data else None);
                 effective = (if calldata \<noteq> None then calldata else metadata);
                 unlimited = (\<lambda>a. case a of None \<Rightarrow> False | Some n \<Rightarrow> decimal_string n = uint256_max_decimal) in
          \<lparr>af_isTokenApproval = True, af_tokenApprovalAmount = effective,
           af_tokenApprovalAmountMissing = (metadata = None \<or> selector \<and> calldata = None),
           af_tokenApprovalUnlimited = (unlimited calldata \<or> unlimited metadata),
           af_tokenApprovalAmountExceedsCap = (case effective of None \<Rightarrow> False
             | Some n \<Rightarrow> n > approvalCapForEnvironment (env_environment e))\<rparr>)"
| "tokenApprovalFacts _ = no_approval"

subsection \<open>The answers of the reviewer and the risk engine\<close>

fun tier_name :: "risk_tier \<Rightarrow> string" where
  "tier_name LowRisk = ''low''"
| "tier_name MediumRisk = ''medium''"
| "tier_name HighRisk = ''high''"
| "tier_name CriticalRisk = ''critical''"

definition tier_table :: "(string \<times> risk_tier) list" where
  "tier_table = map (\<lambda>t. (tier_name t, t)) [LowRisk, MediumRisk, HighRisk, CriticalRisk]"

fun verdict_name :: "verdict \<Rightarrow> string" where
  "verdict_name Approve = ''approve''"
| "verdict_name Reject = ''reject''"
| "verdict_name NeedsHumanReview = ''needs_human''"

definition verdict_table :: "(string \<times> verdict) list" where
  "verdict_table = map (\<lambda>v. (verdict_name v, v)) [Approve, Reject, NeedsHumanReview]"

fun issue_name :: "detected_issue \<Rightarrow> string" where
  "issue_name PromptInjection = ''prompt_injection''"
| "issue_name UnsupportedClaim = ''unsupported_claim''"
| "issue_name EvidenceActionMismatch = ''evidence_action_mismatch''"
| "issue_name SuspiciousToolBehavior = ''suspicious_tool_behavior''"
| "issue_name HallucinatedData = ''hallucinated_data''"
| "issue_name ExcessiveRisk = ''excessive_risk''"

definition issue_table :: "(string \<times> detected_issue) list" where
  "issue_table = map (\<lambda>i. (issue_name i, i)) [PromptInjection, UnsupportedClaim, EvidenceActionMismatch,
     SuspiciousToolBehavior, HallucinatedData, ExcessiveRisk]"

text \<open>\<open>z.array(d).min(1)\<close>\<close>

fun z_nonempty_list :: "(jsval \<Rightarrow> 'a option) \<Rightarrow> jsval \<Rightarrow> 'a list option" where
  "z_nonempty_list d (JArr xs) = (if xs = [] then None else all_some d xs)"
| "z_nonempty_list d _ = None"

definition verdict_keys :: "string list" where
  "verdict_keys = [''intentId'', ''verdict'', ''riskLevel'', ''reasons'', ''detectedIssues'',
     ''requiredPolicyTags'', ''reviewerModel'', ''reviewerProvider'', ''reviewedAt'']"

definition parse_verdict :: "host \<Rightarrow> jsval \<Rightarrow> reviewer_verdict option" where
  "parse_verdict h v = (let m = map_of (members v) in
     if \<not> is_object v \<or> \<not> strict verdict_keys (members v) then None
     else do {
       iid \<leftarrow> required m ''intentId'' (z_string (is_uuid h));
       ve \<leftarrow> required m ''verdict'' (z_enum verdict_table);
       rl \<leftarrow> required m ''riskLevel'' (z_enum tier_table);
       rs \<leftarrow> required m ''reasons'' (z_nonempty_list (z_string nonempty));
       di \<leftarrow> required m ''detectedIssues'' (z_list (z_enum issue_table));
       tg \<leftarrow> required m ''requiredPolicyTags'' (z_list (z_string nonempty));
       mo \<leftarrow> required m ''reviewerModel'' (z_string nonempty);
       pv \<leftarrow> required m ''reviewerProvider'' (z_string nonempty);
       ra \<leftarrow> required m ''reviewedAt'' (z_string (is_datetime h));
       Some \<lparr>rv_intentId = iid, rv_verdict = ve, rv_riskLevel = rl, rv_reasons = rs, rv_detectedIssues = di,
         rv_requiredPolicyTags = tg, rv_reviewerModel = mo, rv_reviewerProvider = pv, rv_reviewedAt = ra\<rparr> })"

definition verdict_json :: "reviewer_verdict \<Rightarrow> jsval" where
  "verdict_json v = JObj
     [(''intentId'', JStr (rv_intentId v)), (''verdict'', JStr (verdict_name (rv_verdict v))),
      (''riskLevel'', JStr (tier_name (rv_riskLevel v))), (''reasons'', JArr (map JStr (rv_reasons v))),
      (''detectedIssues'', JArr (map (\<lambda>i. JStr (issue_name i)) (rv_detectedIssues v))),
      (''requiredPolicyTags'', JArr (map JStr (rv_requiredPolicyTags v))),
      (''reviewerModel'', JStr (rv_reviewerModel v)), (''reviewerProvider'', JStr (rv_reviewerProvider v)),
      (''reviewedAt'', JStr (rv_reviewedAt v))]"

text \<open>A risk check as the service reads it; values and thresholds are unknown to it.\<close>

fun check_status_name :: "check_status \<Rightarrow> string" where
  "check_status_name Pass = ''pass''"
| "check_status_name Fail = ''fail''"
| "check_status_name Unavailable = ''unavailable''"

definition check_status_table :: "(string \<times> check_status) list" where
  "check_status_table = map (\<lambda>s. (check_status_name s, s)) [Pass, Fail, Unavailable]"

record risk_answer_check =
  rk_check :: string
  rk_status :: check_status
  rk_value :: "jsval option"
  rk_threshold :: "jsval option"
  rk_message :: "string option"

record risk_answer =
  ra_intentId :: string
  ra_passed :: bool
  ra_checks :: "risk_answer_check list"
  ra_dailyStats :: "daily_stats option"
  ra_evaluatedAt :: string

definition parse_risk_check :: "jsval \<Rightarrow> risk_answer_check option" where
  "parse_risk_check v = (let m = map_of (members v) in
     if \<not> is_object v \<or> \<not> strict [''check'', ''status'', ''value'', ''threshold'', ''message''] (members v) then None
     else do {
       ck \<leftarrow> required m ''check'' (z_string nonempty);
       st \<leftarrow> required m ''status'' (z_enum check_status_table);
       msg \<leftarrow> optional m ''message'' (z_string any_string);
       Some \<lparr>rk_check = ck, rk_status = st, rk_value = m ''value'', rk_threshold = m ''threshold'', rk_message = msg\<rparr> })"

definition parse_daily_stats :: "jsval \<Rightarrow> daily_stats option" where
  "parse_daily_stats v = (let m = map_of (members v) in
     if \<not> is_object v \<or>
        \<not> strict [''account'', ''date'', ''totalNotionalUsd'', ''realizedLossUsd'', ''orderCount''] (members v) then None
     else do {
       ac \<leftarrow> required m ''account'' (z_string nonempty);
       da \<leftarrow> required m ''date'' (z_string nonempty);
       tn \<leftarrow> required m ''totalNotionalUsd'' (z_number nonnegative);
       rl \<leftarrow> required m ''realizedLossUsd'' (z_number nonnegative);
       oc \<leftarrow> required m ''orderCount'' (z_number (\<lambda>x. safe_integer x \<and> nonnegative x));
       Some \<lparr>ds_account = ac, ds_date = da, ds_totalNotionalUsd = tn, ds_realizedLossUsd = rl, ds_orderCount = oc\<rparr> })"

definition parse_risk_answer :: "host \<Rightarrow> jsval \<Rightarrow> risk_answer option" where
  "parse_risk_answer h v = (let m = map_of (members v) in
     if \<not> is_object v \<or> \<not> strict [''intentId'', ''passed'', ''checks'', ''dailyStats'', ''evaluatedAt''] (members v)
     then None
     else do {
       iid \<leftarrow> required m ''intentId'' (z_string (is_uuid h));
       pa \<leftarrow> required m ''passed'' z_boolean;
       cs \<leftarrow> required m ''checks'' (z_nonempty_list parse_risk_check);
       ds \<leftarrow> optional m ''dailyStats'' parse_daily_stats;
       ev \<leftarrow> required m ''evaluatedAt'' (z_string (is_datetime h));
       if pa = list_all (\<lambda>c. rk_status c = Pass) cs
       then Some \<lparr>ra_intentId = iid, ra_passed = pa, ra_checks = cs, ra_dailyStats = ds, ra_evaluatedAt = ev\<rparr>
       else None })"

definition risk_check_json :: "risk_answer_check \<Rightarrow> jsval" where
  "risk_check_json c = JObj
     ([(''check'', JStr (rk_check c)), (''status'', JStr (check_status_name (rk_status c)))] @
      opt_field ''value'' (\<lambda>v. v) (rk_value c) @ opt_field ''threshold'' (\<lambda>v. v) (rk_threshold c) @
      opt_field ''message'' JStr (rk_message c))"

definition daily_stats_json :: "daily_stats \<Rightarrow> jsval" where
  "daily_stats_json s = JObj
     [(''account'', JStr (ds_account s)), (''date'', JStr (ds_date s)),
      (''totalNotionalUsd'', JNum (ds_totalNotionalUsd s)), (''realizedLossUsd'', JNum (ds_realizedLossUsd s)),
      (''orderCount'', JNum (ds_orderCount s))]"

definition risk_answer_json :: "risk_answer \<Rightarrow> jsval" where
  "risk_answer_json r = JObj
     ([(''intentId'', JStr (ra_intentId r)), (''passed'', JBool (ra_passed r)),
       (''checks'', JArr (map risk_check_json (ra_checks r)))] @
      opt_field ''dailyStats'' daily_stats_json (ra_dailyStats r) @
      [(''evaluatedAt'', JStr (ra_evaluatedAt r))])"

subsection \<open>The input of the policy engine\<close>

fun extractSolanaInstructionType ::
  "(jsnum \<Rightarrow> string) \<Rightarrow> (string \<Rightarrow> string option) \<Rightarrow> trading_intent \<Rightarrow> string option" where
  "extractSolanaInstructionType fmt base58 (OnchainSigningIntent e x) =
     (if oc_chain x \<noteq> Solana then None
      else case oc_instructions x of
        None \<Rightarrow> Some ''unknown''
      | Some raw \<Rightarrow> if raw = [] then Some ''unknown''
          else (case parseInstructions fmt base58 raw of
              None \<Rightarrow> Some ''unknown''
            | Some ixs \<Rightarrow>
                if hasAuthorityChange ixs then Some ''setAuthority''
                else if list_all (\<lambda>ix. pi_type ix = Some ''transfer'' \<or> pi_type ix = Some ''transferChecked'') ixs
                then Some ''transfer'' else Some ''unknown''))"
| "extractSolanaInstructionType fmt base58 _ = None"

fun intent_order :: "trading_intent \<Rightarrow> cex_order option" where
  "intent_order (CexOrderIntent e x) = Some x"
| "intent_order _ = None"

fun intent_approval_amount :: "trading_intent \<Rightarrow> string option" where
  "intent_approval_amount (OnchainSigningIntent e x) = sc_maxTokenApprovalAmount x"
| "intent_approval_amount _ = None"

definition approval_facts_fields :: "approval_facts \<Rightarrow> (string \<times> jsval) list" where
  "approval_facts_fields f =
     [(''isTokenApproval'', JBool (af_isTokenApproval f)),
      (''tokenApprovalAmount'', case af_tokenApprovalAmount f of None \<Rightarrow> JNull | Some n \<Rightarrow> JStr (decimal_string n)),
      (''tokenApprovalAmountMissing'', JBool (af_tokenApprovalAmountMissing f)),
      (''tokenApprovalUnlimited'', JBool (af_tokenApprovalUnlimited f)),
      (''tokenApprovalAmountExceedsCap'', JBool (af_tokenApprovalAmountExceedsCap f))]"

definition policyInput ::
  "(jsnum \<Rightarrow> string) \<Rightarrow> (string \<Rightarrow> string option) \<Rightarrow> trading_intent \<Rightarrow> reviewer_verdict \<Rightarrow> risk_answer \<Rightarrow> jsval" where
  "policyInput fmt base58 i v r =
     (let stat = (\<lambda>f. case ra_dailyStats r of Some st \<Rightarrow> JNum (f st) | None \<Rightarrow> JUndef) in
      JObj
     ([(''intentId'', JStr (in_intentId i)), (''principal'', JStr (in_principal i)),
       (''action'', JStr (action_name (intent_action i))), (''resource'', JStr (canonicalResource i)),
       (''environment'', JStr (environment_name (in_environment i))),
       (''reviewerVerdict'', JStr (verdict_name (rv_verdict v))),
       (''reviewerRiskLevel'', JStr (tier_name (rv_riskLevel v))),
       (''reviewerDetectedIssues'', JArr (map (\<lambda>d. JStr (issue_name d)) (rv_detectedIssues v))),
       (''dailyNotionalUsd'', stat ds_totalNotionalUsd),
       (''projectedDailyNotionalUsd'', projectedDailyNotionalUsd i (ra_dailyStats r)),
       (''dailyRealizedLossUsd'', stat ds_realizedLossUsd)] @
      opt_field ''exchange'' JStr (intent_exchange i) @
      opt_field ''accountMode'' (\<lambda>x. JStr (account_mode_name (ord_accountMode x))) (intent_order i) @
      opt_field ''marginType'' (\<lambda>t. JStr (margin_type_name t)) (Option.bind (intent_order i) ord_marginType) @
      opt_field ''symbol'' JStr (intent_symbol i) @
      opt_field ''chain'' (\<lambda>c. JStr (chain_name c)) (intent_chain i) @
      opt_field ''chainEnvironment'' (\<lambda>x. JStr (chain_environment_name (oc_chainEnvironment x))) (intent_call i) @
      opt_field ''contractAddress'' JStr
        (case intent_call i of Some x \<Rightarrow> if oc_chain x = Ethereum then Some (oc_to x) else None | None \<Rightarrow> None) @
      opt_field ''programId'' JStr
        (case intent_call i of Some x \<Rightarrow> if oc_programId x = Some [] then None else oc_programId x | None \<Rightarrow> None) @
      opt_field ''instructionType'' JStr (extractSolanaInstructionType fmt base58 i) @
      opt_field ''maxNotionalUsd'' (\<lambda>x. JNum (ord_maxNotionalUsd x)) (intent_order i) @
      opt_field ''leverage'' JNum (Option.bind (intent_order i) ord_leverage) @
      opt_field ''maxTokenApprovalAmount'' JStr (intent_approval_amount i) @
      approval_facts_fields (tokenApprovalFacts i)))"

lemma parse_risk_answer_passed:
  "parse_risk_answer h v = Some r \<Longrightarrow> ra_passed r \<longleftrightarrow> (\<forall>c \<in> set (ra_checks r). rk_status c = Pass)"
  by (auto simp: parse_risk_answer_def Let_def bind_eq_Some_conv list_all_iff split: if_splits)

end
