(* ===== verification/Guardrail.thy ===== *)
theory Guardrail
  imports GuardrailFacts ApprovalStore
begin

text \<open>
  The guardrail service: \<open>evaluate\<close> of \<open>packages/guardrail-service/src/service.ts\<close> with the
  decisions it signs and audits, and the store of \<open>idempotency.ts\<close> it keeps them in. A service
  acts on its store beside the world. The clock, the identifiers, the audit writer and the approval
  store act on the world; the reviewer, the risk engine, the policy engine and the waiting for
  another evaluation are awaited, so that they act on store and world together, as whatever runs
  meanwhile does. Every one of them can throw.
\<close>

subsection \<open>Decisions\<close>

record guardrail_decision =
  gd_intentId :: string
  gd_correlationId :: string
  gd_outcome :: decision_outcome
  gd_reasons :: "reason list"
  gd_requiresHumanApproval :: bool
  gd_approvalId :: "string option"
  gd_reviewerVerdict :: "reviewer_verdict option"
  gd_policyOutput :: "policy_output option"
  gd_riskResult :: "risk_answer option"
  gd_decidedAt :: string
  gd_decisionToken :: "string option"
  gd_dryRun :: bool

definition or_null :: "('a \<Rightarrow> jsval) \<Rightarrow> 'a option \<Rightarrow> jsval" where
  "or_null f x = (case x of None \<Rightarrow> JNull | Some y \<Rightarrow> f y)"

text \<open>The members of a decision before it is signed, in their order.\<close>

definition decision_fields :: "guardrail_decision \<Rightarrow> (string \<times> jsval) list" where
  "decision_fields d =
     [(''intentId'', JStr (gd_intentId d)), (''correlationId'', JStr (gd_correlationId d)),
      (''outcome'', JStr (outcome_name (gd_outcome d))), (''reasons'', JArr (map reason_json (gd_reasons d))),
      (''requiresHumanApproval'', JBool (gd_requiresHumanApproval d)),
      (''reviewerVerdict'', or_null verdict_json (gd_reviewerVerdict d)),
      (''policyOutput'', or_null policy_output_json (gd_policyOutput d)),
      (''riskResult'', or_null risk_answer_json (gd_riskResult d)), (''decidedAt'', JStr (gd_decidedAt d))] @
     opt_field ''approvalId'' JStr (gd_approvalId d)"

definition dry_run_field :: "bool \<Rightarrow> (string \<times> jsval) list" where
  "dry_run_field dry = (if dry then [(''dryRun'', JBool True)] else [])"

subsection \<open>The store of decisions\<close>

text \<open>A promise is an identifier; how it was settled is kept beside the entries.\<close>

datatype decision_entry = DecComplete string guardrail_decision | DecPending string nat

record decision_store =
  dec_entries :: "string \<Rightarrow> decision_entry option"
  dec_settled :: "nat \<Rightarrow> (exn + guardrail_decision) option"
  dec_next :: nat

datatype decision_lookup = Absent | Conflict | Ready guardrail_decision | Awaiting nat

definition new_decision_store :: decision_store where
  "new_decision_store = \<lparr>dec_entries = (\<lambda>k. None), dec_settled = (\<lambda>n. None), dec_next = 0\<rparr>"

definition dec_has :: "string \<Rightarrow> decision_store \<Rightarrow> bool" where
  "dec_has k st \<longleftrightarrow> dec_entries st k \<noteq> None"

definition dec_get :: "string \<Rightarrow> string \<Rightarrow> decision_store \<Rightarrow> decision_lookup" where
  "dec_get k payloadHash st = (case dec_entries st k of
     None \<Rightarrow> Absent
   | Some (DecComplete p d) \<Rightarrow> if p \<noteq> payloadHash then Conflict else Ready d
   | Some (DecPending p n) \<Rightarrow> if p \<noteq> payloadHash then Conflict else Awaiting n)"

definition dec_reserve :: "string \<Rightarrow> string \<Rightarrow> decision_store \<Rightarrow> decision_store" where
  "dec_reserve k payloadHash st =
     (if dec_has k st then st
      else st\<lparr>dec_entries := (dec_entries st)(k \<mapsto> DecPending payloadHash (dec_next st)), dec_next := Suc (dec_next st)\<rparr>)"

definition dec_settle :: "nat \<Rightarrow> exn + guardrail_decision \<Rightarrow> decision_store \<Rightarrow> decision_store" where
  "dec_settle n r st = (if dec_settled st n = None then st\<lparr>dec_settled := (dec_settled st)(n \<mapsto> r)\<rparr> else st)"

definition dec_set :: "string \<Rightarrow> string \<Rightarrow> guardrail_decision \<Rightarrow> decision_store \<Rightarrow> decision_store" where
  "dec_set k payloadHash d st =
     (let st' = st\<lparr>dec_entries := (dec_entries st)(k \<mapsto> DecComplete payloadHash d)\<rparr> in
      case dec_entries st k of
        Some (DecPending p n) \<Rightarrow> if p = payloadHash then dec_settle n (Inr d) st' else st'
      | _ \<Rightarrow> st')"

definition dec_abort :: "string \<Rightarrow> string \<Rightarrow> exn \<Rightarrow> decision_store \<Rightarrow> decision_store" where
  "dec_abort k payloadHash e st =
     (case dec_entries st k of
        Some (DecPending p n) \<Rightarrow>
          if p \<noteq> payloadHash then st
          else dec_settle n (Inl e) (st\<lparr>dec_entries := (dec_entries st)(k := None)\<rparr>)
      | _ \<Rightarrow> st)"

subsection \<open>The service\<close>

text \<open>\<open>EvaluationOptions\<close>\<close>

record audit_context =
  ax_promptId :: "string option"
  ax_sessionId :: "string option"
  ax_inputRef :: "string option"
  ax_correlationId :: "string option"
  ax_dryRun :: bool

type_synonym 'w service_world = "decision_store \<times> 'w"

text \<open>
  What the service is built from: its configuration, the issues \<open>zod\<close> reports of a value that is
  no intent, the base58 codec, and its collaborators.
\<close>

record 'w service =
  sv_environment :: environment
  sv_secret :: string
  sv_issues :: "jsval \<Rightarrow> reason list"
  sv_base58 :: "string \<Rightarrow> string option"
  sv_now :: "('w, int) eff"
  sv_uuid :: "('w, string) eff"
  sv_audit :: "audit_input \<Rightarrow> ('w, unit) eff"
  sv_create :: "approval_params \<Rightarrow> ('w, approval_request) eff"
  sv_delete :: "string \<Rightarrow> ('w, bool) eff"
  sv_healthy :: "('w service_world, bool) eff"
  sv_review :: "trading_intent \<Rightarrow> ('w service_world, jsval) eff"
  sv_risk :: "trading_intent \<Rightarrow> reviewer_verdict \<Rightarrow> ('w service_world, jsval) eff"
  sv_policy :: "jsval \<Rightarrow> ('w service_world, jsval) eff"
  sv_await :: "nat \<Rightarrow> ('w service_world, guardrail_decision) eff"

definition assertServiceSecret :: "environment \<Rightarrow> string \<Rightarrow> exn + unit" where
  "assertServiceSecret envr secret =
     (if secret = [] then Inl (GenericError ''Guardrail decision signing secret is required.'')
      else if envr \<noteq> Dev \<and> secret = ''dev-decision-secret''
      then Inl (GenericError ''Default guardrail decision signing secret cannot be used outside dev.'')
      else if envr \<noteq> Dev \<and> length secret < 32
      then Inl (GenericError ''Guardrail decision signing secret must be at least 32 characters outside dev.'')
      else Inr ())"

text \<open>\<open>redactObject\<close> of the secrets package\<close>

definition redact_object :: "host \<Rightarrow> jsval \<Rightarrow> jsval" where
  "redact_object h v = redactObject (redact_secrets h) v"

definition writeAudit :: "host \<Rightarrow> 'w service \<Rightarrow> audit_input \<Rightarrow> ('w service_world, unit) eff" where
  "writeAudit h sv ev = on_world (sv_audit sv (ev\<lparr>ae_data := redact_object h (ae_data ev)\<rparr>))"

definition service_event ::
  "audit_context \<Rightarrow> string \<Rightarrow> environment \<Rightarrow> string \<Rightarrow> trading_intent option \<Rightarrow> string option \<Rightarrow> jsval \<Rightarrow> audit_input" where
  "service_event ax eventType envr cid i inputRef data =
     \<lparr>ae_eventId = None, ae_eventType = eventType, ae_environment = envr, ae_intentId = map_option in_intentId i,
      ae_principal = map_option in_principal i, ae_correlationId = cid, ae_data = data, ae_extra = [],
      ai_promptId = ax_promptId ax, ai_sessionId = ax_sessionId ax, ai_inputRef = inputRef\<rparr>"

definition decision_type :: "audit_context \<Rightarrow> string" where
  "decision_type ax = (if ax_dryRun ax then ''decision.dry_run'' else ''decision.final'')"

definition decision_data :: "guardrail_decision \<Rightarrow> jsval \<Rightarrow> jsval" where
  "decision_data d shown = JObj
     [(''outcome'', JStr (outcome_name (gd_outcome d))), (''reasons'', JArr (map reason_json (gd_reasons d))),
      (''requiresHumanApproval'', JBool (gd_requiresHumanApproval d)), (''decision'', shown)]"

definition finalizeInvalidDecision ::
  "host \<Rightarrow> 'w service \<Rightarrow> audit_context \<Rightarrow> guardrail_decision \<Rightarrow> ('w service_world, guardrail_decision) eff" where
  "finalizeInvalidDecision h sv ax d =
     (let audited = (if ax_dryRun ax then d\<lparr>gd_dryRun := True\<rparr> else d) in
      andthen (writeAudit h sv (service_event ax (decision_type ax) (sv_environment sv) (gd_correlationId d) None
        (ax_inputRef ax) (decision_data d (JObj (decision_fields d @ dry_run_field (ax_dryRun ax)))))) (\<lambda>_.
      ret audited))"

definition createDecisionToken ::
  "host \<Rightarrow> 'w service \<Rightarrow> trading_intent \<Rightarrow> guardrail_decision \<Rightarrow> string \<Rightarrow> bool \<Rightarrow> string option" where
  "createDecisionToken h sv i d cid dry =
     (if gd_outcome d \<noteq> Allow \<and> gd_outcome d \<noteq> NeedsHuman then None
      else Some (hmac_sha256_hex h (sv_secret sv) (stable_json h (JObj
        ([(''intent'', intent_json i), (''outcome'', JStr (outcome_name (gd_outcome d))),
          (''correlationId'', JStr cid), (''decidedAt'', JStr (gd_decidedAt d)),
          (''approvalId'', or_null JStr (gd_approvalId d))] @ dry_run_field dry)))))"

definition hashString :: "host \<Rightarrow> string \<Rightarrow> string" where
  "hashString h v = hmac_sha256_hex h ''audit-token-fingerprint'' v"

text \<open>The decision as it is signed, and as it is shown to the audit: with a fingerprint of the token.\<close>

definition signed_decision ::
  "host \<Rightarrow> 'w service \<Rightarrow> trading_intent \<Rightarrow> guardrail_decision \<Rightarrow> string \<Rightarrow> bool \<Rightarrow> guardrail_decision" where
  "signed_decision h sv i d cid dry = d\<lparr>gd_correlationId := cid,
     gd_decisionToken := createDecisionToken h sv i d cid dry, gd_dryRun := gd_dryRun d \<or> dry\<rparr>"

definition audited_decision :: "host \<Rightarrow> guardrail_decision \<Rightarrow> jsval" where
  "audited_decision h d = JObj (decision_fields d @
     [(''decisionToken'', case gd_decisionToken d of
         None \<Rightarrow> JUndef
       | Some t \<Rightarrow> if t = [] then JStr [] else JStr (''[sha256:'' @ hashString h t @ '']''))] @
     dry_run_field (gd_dryRun d))"

definition final_event ::
  "host \<Rightarrow> audit_context \<Rightarrow> trading_intent \<Rightarrow> guardrail_decision \<Rightarrow> audit_input" where
  "final_event h ax i d = service_event ax (decision_type ax) (in_environment i) (gd_correlationId d) (Some i)
     (ax_inputRef ax) (decision_data d (audited_decision h d))"

definition finalizeDecision ::
  "host \<Rightarrow> 'w service \<Rightarrow> audit_context \<Rightarrow> trading_intent \<Rightarrow> guardrail_decision \<Rightarrow> string \<Rightarrow>
    ('w service_world, guardrail_decision) eff" where
  "finalizeDecision h sv ax i d cid =
     (let f = signed_decision h sv i d cid (ax_dryRun ax) in
      andthen (writeAudit h sv (final_event h ax i f)) (\<lambda>_. ret f))"

definition requestHumanApproval ::
  "host \<Rightarrow> 'w service \<Rightarrow> audit_context \<Rightarrow> trading_intent \<Rightarrow> guardrail_decision \<Rightarrow>
    ('w service_world, guardrail_decision) eff" where
  "requestHumanApproval h sv ax i d =
     andthen (on_world (sv_create sv
       \<lparr>ap_intentId = in_intentId i, ap_correlationId = gd_correlationId d, ap_principal = in_principal i,
        ap_action = action_name (intent_action i), ap_resource = in_resource i, ap_environment = in_environment i,
        ap_escalationReason = (case gd_reasons d of r # rs \<Rightarrow> snd r | [] \<Rightarrow> ''Policy requires human approval.''),
        ap_approvalType = OneTime, ap_intentData = intent_json i\<rparr>)) (\<lambda>request.
     andthen (try_catch
       (writeAudit h sv (service_event ax ''approval.requested'' (in_environment i) (gd_correlationId d) (Some i)
         (ax_inputRef ax) (JObj [(''approvalRequest'', approval_json request)])))
       (\<lambda>e. andthen (on_world (sv_delete sv (ar_approvalId request))) (\<lambda>_. throw e))) (\<lambda>_.
     ret (d\<lparr>gd_approvalId := Some (ar_approvalId request)\<rparr>)))"

definition service_health :: "'w service \<Rightarrow> ('w service_world, bool) eff" where
  "service_health sv = try_catch (sv_healthy sv) (\<lambda>_. ret False)"

subsection \<open>An evaluation\<close>

text \<open>What one evaluation works on.\<close>

record evaluation =
  el_context :: audit_context
  el_intent :: trading_intent
  el_cid :: string
  el_now :: string
  el_scope :: string
  el_hash :: string

definition el_dry :: "evaluation \<Rightarrow> bool" where
  "el_dry x = ax_dryRun (el_context x)"

definition deny_decision ::
  "string \<Rightarrow> string \<Rightarrow> string \<Rightarrow> reason list \<Rightarrow> guardrail_decision" where
  "deny_decision iid cid now reasons =
     \<lparr>gd_intentId = iid, gd_correlationId = cid, gd_outcome = Deny, gd_reasons = reasons,
      gd_requiresHumanApproval = False, gd_approvalId = None, gd_reviewerVerdict = None, gd_policyOutput = None,
      gd_riskResult = None, gd_decidedAt = now, gd_decisionToken = None, gd_dryRun = False\<rparr>"

abbreviation denied :: "evaluation \<Rightarrow> reason list \<Rightarrow> guardrail_decision" where
  "denied x reasons \<equiv> deny_decision (in_intentId (el_intent x)) (el_cid x) (el_now x) reasons"

definition on_store :: "(decision_store \<Rightarrow> decision_store) \<Rightarrow> ('w service_world, unit) eff" where
  "on_store f = modify_state (\<lambda>(st, w). (f st, w))"

definition remember :: "evaluation \<Rightarrow> guardrail_decision \<Rightarrow> ('w service_world, unit) eff" where
  "remember x d = (if el_dry x then ret () else on_store (dec_set (el_scope x) (el_hash x) d))"

definition forget_pending :: "evaluation \<Rightarrow> exn \<Rightarrow> ('w service_world, unit) eff" where
  "forget_pending x e = (if el_dry x then ret () else on_store (dec_abort (el_scope x) (el_hash x) e))"

text \<open>\<open>finalizeDecision\<close> and \<open>idempotency.set\<close>, as every refusal ends.\<close>

definition conclude ::
  "host \<Rightarrow> 'w service \<Rightarrow> evaluation \<Rightarrow> guardrail_decision \<Rightarrow> ('w service_world, guardrail_decision) eff" where
  "conclude h sv x d =
     andthen (finalizeDecision h sv (el_context x) (el_intent x) d (gd_correlationId d)) (\<lambda>f.
     andthen (remember x f) (\<lambda>_. ret f))"

definition stage_audit ::
  "host \<Rightarrow> 'w service \<Rightarrow> evaluation \<Rightarrow> string \<Rightarrow> (string \<times> jsval) list \<Rightarrow> ('w service_world, unit) eff" where
  "stage_audit h sv x eventType data = writeAudit h sv
     (service_event (el_context x) eventType (in_environment (el_intent x)) (el_cid x) (Some (el_intent x))
       (ax_inputRef (el_context x)) (JObj (data @ dry_run_field (el_dry x))))"

text \<open>The end of an evaluation that reached the policy engine.\<close>

definition decide_policy ::
  "host \<Rightarrow> 'w service \<Rightarrow> evaluation \<Rightarrow> reviewer_verdict \<Rightarrow> risk_answer \<Rightarrow> policy_output \<Rightarrow>
    ('w service_world, guardrail_decision) eff" where
  "decide_policy h sv x v r p =
     (let d = \<lparr>gd_intentId = in_intentId (el_intent x), gd_correlationId = el_cid x, gd_outcome = po_decision p,
            gd_reasons = po_reasons p, gd_requiresHumanApproval = po_requiresHumanApproval p, gd_approvalId = None,
            gd_reviewerVerdict = Some v, gd_policyOutput = Some p, gd_riskResult = Some r, gd_decidedAt = el_now x,
            gd_decisionToken = None, gd_dryRun = False\<rparr> in
      andthen (if gd_outcome d = NeedsHuman \<and> \<not> el_dry x
        then requestHumanApproval h sv (el_context x) (el_intent x) d else ret d) (\<lambda>d'.
      andthen (try_catch
        (finalizeDecision h sv (el_context x) (el_intent x) d' (gd_correlationId d'))
        (\<lambda>e. andthen (case gd_approvalId d' of
              Some k \<Rightarrow> if k = [] then ret () else andthen (on_world (sv_delete sv k)) (\<lambda>_. ret ())
            | None \<Rightarrow> ret ()) (\<lambda>_.
          andthen (forget_pending x e) (\<lambda>_. throw e)))) (\<lambda>f.
      andthen (remember x f) (\<lambda>_. ret f))))"

definition ask_policy ::
  "host \<Rightarrow> 'w service \<Rightarrow> jsval \<Rightarrow> ('w service_world, policy_output) eff" where
  "ask_policy h sv input =
     andthen (sv_policy sv input) (\<lambda>raw.
     andthen (if nullish (js_get raw ''evaluatedAt'') then on_world (sv_now sv) else ret 0) (\<lambda>t.
     case transformOpaOutput h (iso_string h t) raw of
       None \<Rightarrow> throw (GenericError ''OPA output is invalid.'')
     | Some p \<Rightarrow> ret p))"

definition policy_stage ::
  "host \<Rightarrow> 'w service \<Rightarrow> evaluation \<Rightarrow> reviewer_verdict \<Rightarrow> risk_answer \<Rightarrow> ('w service_world, guardrail_decision) eff" where
  "policy_stage h sv x v r =
     (let input = policyInput (number_to_string h) (sv_base58 sv) (el_intent x) v r in
      andthen (attempt (ask_policy h sv input)) (\<lambda>out. case out of
        Inl e \<Rightarrow> conclude h sv x ((denied x [(''policy_evaluation_failed'', ''Policy evaluation failed.'')])
          \<lparr>gd_reviewerVerdict := Some v, gd_riskResult := Some r\<rparr>)
      | Inr p \<Rightarrow>
          andthen (stage_audit h sv x ''policy.evaluated''
            [(''policyInput'', input), (''opaInput'', input), (''policyOutput'', policy_output_json p)]) (\<lambda>_.
          decide_policy h sv x v r p)))"

definition risk_reasons :: "risk_answer \<Rightarrow> reason list" where
  "risk_reasons r = map (\<lambda>c. (''risk_'' @ rk_check c,
     case rk_message c of Some m \<Rightarrow> m | None \<Rightarrow> ''Risk check '' @ rk_check c @ '' failed.''))
     (filter (\<lambda>c. rk_status c \<noteq> Pass) (ra_checks r))"

definition ask_risk ::
  "host \<Rightarrow> 'w service \<Rightarrow> trading_intent \<Rightarrow> reviewer_verdict \<Rightarrow> ('w service_world, risk_answer) eff" where
  "ask_risk h sv i v =
     andthen (sv_risk sv i v) (\<lambda>raw. case parse_risk_answer h raw of
       None \<Rightarrow> throw (GenericError ''Risk result is invalid.'') | Some r \<Rightarrow> ret r)"

definition risk_stage ::
  "host \<Rightarrow> 'w service \<Rightarrow> evaluation \<Rightarrow> reviewer_verdict \<Rightarrow> ('w service_world, guardrail_decision) eff" where
  "risk_stage h sv x v =
     andthen (attempt (ask_risk h sv (el_intent x) v)) (\<lambda>out. case out of
       Inl e \<Rightarrow> conclude h sv x ((denied x [(''risk_check_unavailable'', ''Required risk facts are unavailable.'')])
         \<lparr>gd_reviewerVerdict := Some v\<rparr>)
     | Inr r \<Rightarrow>
         andthen (stage_audit h sv x ''risk.evaluated''
           [(''riskResult'', risk_answer_json r), (''riskChecks'', JArr (map risk_check_json (ra_checks r)))]) (\<lambda>_.
         if \<not> ra_passed r
         then conclude h sv x ((denied x (risk_reasons r))\<lparr>gd_reviewerVerdict := Some v, gd_riskResult := Some r\<rparr>)
         else policy_stage h sv x v r))"

definition ask_reviewer :: "host \<Rightarrow> 'w service \<Rightarrow> trading_intent \<Rightarrow> ('w service_world, reviewer_verdict) eff" where
  "ask_reviewer h sv i =
     andthen (sv_review sv i) (\<lambda>raw. case parse_verdict h raw of
       None \<Rightarrow> throw (GenericError ''Reviewer verdict is invalid.'') | Some v \<Rightarrow> ret v)"

text \<open>The body of the \<open>try\<close>.\<close>

definition assess :: "host \<Rightarrow> 'w service \<Rightarrow> evaluation \<Rightarrow> ('w service_world, guardrail_decision) eff" where
  "assess h sv x =
     (case detectUnsafeContent (el_intent x) of
        Some rejection \<Rightarrow> conclude h sv x (denied x [rejection])
      | None \<Rightarrow>
          andthen (service_health sv) (\<lambda>healthy.
          if \<not> healthy
          then conclude h sv x (denied x [(''opa_unavailable'', ''Policy engine is unavailable.'')])
          else andthen (attempt (ask_reviewer h sv (el_intent x))) (\<lambda>out. case out of
              Inl e \<Rightarrow> conclude h sv x (denied x [(''reviewer_unavailable'', ''Reviewer agent is unavailable.'')])
            | Inr v \<Rightarrow>
                andthen (stage_audit h sv x ''reviewer.completed'' [(''reviewerVerdict'', verdict_json v)]) (\<lambda>_.
                risk_stage h sv x v))))"

text \<open>A decision from the store, or of the evaluation that was awaited, is signed again.\<close>

definition reuse ::
  "host \<Rightarrow> 'w service \<Rightarrow> evaluation \<Rightarrow> guardrail_decision \<Rightarrow> ('w service_world, guardrail_decision) eff" where
  "reuse h sv x d = finalizeDecision h sv (el_context x) (el_intent x) d
     (if gd_outcome d = NeedsHuman then gd_correlationId d else el_cid x)"

definition evaluate_intent ::
  "host \<Rightarrow> 'w service \<Rightarrow> evaluation \<Rightarrow> ('w service_world, guardrail_decision) eff" where
  "evaluate_intent h sv x =
     andthen (if el_dry x then ret Absent else read_state (\<lambda>(st, w). dec_get (el_scope x) (el_hash x) st)) (\<lambda>cached.
     case cached of
       Conflict \<Rightarrow> finalizeDecision h sv (el_context x) (el_intent x)
         (denied x [(''idempotency_conflict'', ''Idempotency key reused with different payload.'')]) (el_cid x)
     | Ready d \<Rightarrow> reuse h sv x d
     | Awaiting n \<Rightarrow> andthen (sv_await sv n) (\<lambda>d. reuse h sv x d)
     | Absent \<Rightarrow>
         andthen (if el_dry x then ret () else on_store (dec_reserve (el_scope x) (el_hash x))) (\<lambda>_.
         try_catch (assess h sv x) (\<lambda>e. andthen (forget_pending x e) (\<lambda>_. throw e))))"

text \<open>From the validation of the value to the idempotency key.\<close>

definition admit ::
  "host \<Rightarrow> 'w service \<Rightarrow> audit_context \<Rightarrow> jsval \<Rightarrow> string \<Rightarrow> string \<Rightarrow>
    ('w service_world, guardrail_decision) eff" where
  "admit h sv ax raw cid now =
     (case parse_intent h raw of
       None \<Rightarrow> finalizeInvalidDecision h sv ax (deny_decision [] cid now (sv_issues sv raw))
     | Some i \<Rightarrow>
         if canonicalResource i \<noteq> [] \<and> in_resource i \<noteq> canonicalResource i
         then finalizeInvalidDecision h sv ax (deny_decision (in_intentId i) cid now
           [(''resource_mismatch'', ''Intent resource does not match intent fields.'')])
         else if in_environment i \<noteq> sv_environment sv
         then finalizeInvalidDecision h sv ax (deny_decision (in_intentId i) cid now
           [(''environment_mismatch'', ''Intent environment does not match guardrail service environment.'')])
         else
           andthen (writeAudit h sv (service_event ax ''intent.received'' (in_environment i) cid (Some i)
             (case ax_inputRef ax of Some r \<Rightarrow> Some r
              | None \<Rightarrow> (case in_evidence i of e # es \<Rightarrow> Some e | [] \<Rightarrow> None))
             (JObj ([(''intent'', intent_json i), (''correlationId'', JStr cid)] @ dry_run_field (ax_dryRun ax))))) (\<lambda>_.
           evaluate_intent h sv
             \<lparr>el_context = ax, el_intent = i, el_cid = cid, el_now = now, el_scope = idempotencyScope h i,
              el_hash = hashPayload h raw\<rparr>))"

definition evaluate ::
  "host \<Rightarrow> 'w service \<Rightarrow> audit_context \<Rightarrow> jsval \<Rightarrow> ('w service_world, guardrail_decision) eff" where
  "evaluate h sv ax raw =
     andthen (case ax_correlationId ax of Some c \<Rightarrow> ret c | None \<Rightarrow> on_world (sv_uuid sv)) (\<lambda>cid.
     andthen (on_world (sv_now sv)) (\<lambda>t.
     admit h sv ax raw cid (iso_string h t)))"

end
