(* ===== verification/GuardrailSafety.thy ===== *)
theory GuardrailSafety
  imports Guardrail BrokerSafety AuditLog
begin

text \<open>
  What a decision of the guardrail service stands for: every gate behind a decision that does not
  deny, a token that the broker accepts for the decided intent and no other, and an event in the
  audit log. The proofs follow the stages of an evaluation once, for any property of decisions that
  the stages establish (\<open>evaluation_gives\<close>).
\<close>

declare ret_run [simp del] throw_run [simp del] map_of_append [simp del]

subsection \<open>Computations that give a value of some kind\<close>

definition gives :: "('s \<Rightarrow> bool) \<Rightarrow> ('a \<Rightarrow> bool) \<Rightarrow> ('s, 'a) eff \<Rightarrow> bool" where
  "gives I Q m \<longleftrightarrow> triple I m (\<lambda>x s. Q x \<and> I s) (\<lambda>_. I)"

named_theorems gives_rules \<open>values of the combinators\<close>

lemma gives_ret [gives_rules]: "Q x \<Longrightarrow> gives I Q (ret x)"
  by (simp add: gives_def triple_def ret_def)

lemma gives_throw [gives_rules]: "gives I Q (throw e)"
  by (simp add: gives_def triple_def throw_def)

lemma gives_keeps: "keeps I m \<Longrightarrow> gives I (\<lambda>_. True) m"
  by (simp add: gives_def keeps_def)

lemma gives_andthen: "gives I P m \<Longrightarrow> (\<And>x. P x \<Longrightarrow> gives I Q (f x)) \<Longrightarrow> gives I Q (andthen m f)"
  unfolding gives_def by (erule triple_andthen) (auto simp: triple_def)

lemma gives_after [gives_rules]: "keeps I m \<Longrightarrow> (\<And>x. gives I Q (f x)) \<Longrightarrow> gives I Q (andthen m f)"
  by (rule gives_andthen [OF gives_keeps])

lemma gives_try_catch [gives_rules]: "gives I Q m \<Longrightarrow> (\<And>e. gives I Q (k e)) \<Longrightarrow> gives I Q (try_catch m k)"
  unfolding gives_def by (erule triple_try_catch) simp

lemma gives_attempt: "gives I Q m \<Longrightarrow> gives I (\<lambda>r. \<forall>x. r = Inr x \<longrightarrow> Q x) (attempt m)"
  unfolding gives_def by (intro triple_attempt) (auto elim!: triple_post)

lemma gives_if [gives_rules]:
  "(b \<Longrightarrow> gives I Q m) \<Longrightarrow> (\<not> b \<Longrightarrow> gives I Q m') \<Longrightarrow> gives I Q (if b then m else m')"
  by simp

lemma gives_mono: "gives I P m \<Longrightarrow> (\<And>x. P x \<Longrightarrow> Q x) \<Longrightarrow> gives I Q m"
  unfolding gives_def by (erule triple_post) auto

lemma givesD: "gives I Q m \<Longrightarrow> I s \<Longrightarrow> m s = (Inr x, t) \<Longrightarrow> Q x \<and> I t"
  unfolding gives_def by (drule tripleD_val) auto

subsection \<open>The stages of an evaluation\<close>

text \<open>The decision that a policy output makes, with the identifier of an approval request.\<close>

definition decided ::
  "evaluation \<Rightarrow> reviewer_verdict \<Rightarrow> risk_answer \<Rightarrow> policy_output \<Rightarrow> string option \<Rightarrow> guardrail_decision" where
  "decided x v r p a =
     \<lparr>gd_intentId = in_intentId (el_intent x), gd_correlationId = el_cid x, gd_outcome = po_decision p,
      gd_reasons = po_reasons p, gd_requiresHumanApproval = po_requiresHumanApproval p, gd_approvalId = a,
      gd_reviewerVerdict = Some v, gd_policyOutput = Some p, gd_riskResult = Some r, gd_decidedAt = el_now x,
      gd_decisionToken = None, gd_dryRun = False\<rparr>"

text \<open>A decision that carries the token made for it.\<close>

definition sealed_for :: "host \<Rightarrow> 'w service \<Rightarrow> trading_intent \<Rightarrow> bool \<Rightarrow> guardrail_decision \<Rightarrow> bool" where
  "sealed_for h sv i dry d \<longleftrightarrow> gd_decisionToken d = createDecisionToken h sv i d (gd_correlationId d) dry"

lemma token_of_signed: "createDecisionToken h sv i (signed_decision h sv i d cid dry) c b = createDecisionToken h sv i d c b"
  by (simp add: createDecisionToken_def signed_decision_def)

lemma signed_sealed: "sealed_for h sv i dry (signed_decision h sv i d cid dry)"
  by (simp add: sealed_for_def token_of_signed) (simp add: signed_decision_def)

text \<open>
  What an evaluation needs of its surroundings to give decisions with the property \<open>E\<close> and keep
  the property \<open>I\<close> of store and world.
\<close>

locale evaluation_stages =
  fixes h :: host and sv :: "'w service" and x :: evaluation
    and I :: "'w service_world \<Rightarrow> bool" and E :: "guardrail_decision \<Rightarrow> bool"
  assumes signs: "E d \<Longrightarrow> E (signed_decision h sv (el_intent x) d cid (el_dry x))"
    and denies: "gd_outcome d = Deny \<Longrightarrow> E d"
    and decides: "detectUnsafeContent (el_intent x) = None \<Longrightarrow> \<forall>c \<in> set (ra_checks r). rk_status c = Pass \<Longrightarrow>
      policy_evidence p \<Longrightarrow> (po_decision p = NeedsHuman \<and> \<not> el_dry x \<longrightarrow> a \<noteq> None) \<Longrightarrow> E (decided x v r p a)"
    and store_only: "I (st, w) \<Longrightarrow> I (st, w')" and healthy: "keeps I (sv_healthy sv)" and review: "keeps I (sv_review sv i)"
    and risk: "keeps I (sv_risk sv i v)" and policy: "keeps I (sv_policy sv input)"
    and remembers: "E f \<Longrightarrow> keeps I (remember x f)" and forgets: "keeps I (forget_pending x e)"
    and reserves: "keeps I (on_store (dec_reserve (el_scope x) (el_hash x)))"
begin

text \<open>A property of the decisions of this evaluation.\<close>

abbreviation fine :: "guardrail_decision \<Rightarrow> bool" where
  "fine d \<equiv> E d \<and> sealed_for h sv (el_intent x) (el_dry x) d"

lemma world: "keeps I (on_world m)"
  by (auto simp: keeps_iff on_world_def intro: store_only split: prod.splits)

lemma audits: "keeps I (writeAudit h sv ev)"
  unfolding writeAudit_def by (rule world)

lemma stage_audits: "keeps I (stage_audit h sv x t data)"
  unfolding stage_audit_def by (rule audits)

lemma finalizes: "E d \<Longrightarrow> gives I fine (finalizeDecision h sv (el_context x) (el_intent x) d cid)"
  unfolding finalizeDecision_def Let_def
  by (intro gives_rules audits) (use signs signed_sealed in \<open>simp add: el_dry_def\<close>)

lemma concludes: "E d \<Longrightarrow> gives I fine (conclude h sv x d)"
  unfolding conclude_def by (rule gives_andthen [OF finalizes]) (auto intro!: gives_rules remembers)

lemma reuses: "E d \<Longrightarrow> gives I fine (reuse h sv x d)"
  unfolding reuse_def by (rule finalizes)

lemma requests:
  "gives I (\<lambda>d'. \<exists>k. d' = d\<lparr>gd_approvalId := Some k\<rparr>) (requestHumanApproval h sv ax i d)"
  unfolding requestHumanApproval_def
  by (intro gives_rules world keeps_rules audits) auto

lemma decides_policy:
  assumes "detectUnsafeContent (el_intent x) = None" "\<forall>c \<in> set (ra_checks r). rk_status c = Pass" "policy_evidence p"
  shows "gives I fine (decide_policy h sv x v r p)"
proof -
  let ?d = "decided x v r p None"
  let ?ok = "\<lambda>d'. \<exists>a. d' = decided x v r p a \<and> (po_decision p = NeedsHuman \<and> \<not> el_dry x \<longrightarrow> a \<noteq> None)"
  have first: "gives I ?ok (if gd_outcome ?d = NeedsHuman \<and> \<not> el_dry x
      then requestHumanApproval h sv (el_context x) (el_intent x) ?d else ret ?d)"
    by (intro gives_if gives_mono [OF requests] gives_ret) (auto simp: decided_def)
  have ok: "E d'" if "?ok d'" for d' using that decides [OF assms] by auto
  have undo: "keeps I (case a of Some k \<Rightarrow> if k = [] then ret () else andthen (on_world (sv_delete sv k)) (\<lambda>_. ret ())
      | None \<Rightarrow> ret ())" for a by (auto intro!: keeps_rules world split: option.split)
  have second: "gives I fine (try_catch
        (finalizeDecision h sv (el_context x) (el_intent x) d' (gd_correlationId d'))
        (\<lambda>e. andthen (case gd_approvalId d' of
              Some k \<Rightarrow> if k = [] then ret () else andthen (on_world (sv_delete sv k)) (\<lambda>_. ret ())
            | None \<Rightarrow> ret ()) (\<lambda>_.
          andthen (forget_pending x e) (\<lambda>_. throw e))))" if "?ok d'" for d'
    by (intro gives_rules finalizes ok [OF that] undo forgets)
  show ?thesis
    unfolding decide_policy_def Let_def decided_def [of x v r p None, symmetric]
    by (rule gives_andthen [OF first], rule gives_andthen [OF second]) (auto intro!: gives_rules remembers)
qed

lemma asks_policy: "gives I policy_evidence (ask_policy h sv input)"
  unfolding ask_policy_def
  by (intro gives_rules policy keeps_rules world) (auto intro!: gives_rules dest: transform_evidence split: option.split)

lemma policy_gives:
  assumes "detectUnsafeContent (el_intent x) = None" "\<forall>c \<in> set (ra_checks r). rk_status c = Pass"
  shows "gives I fine (policy_stage h sv x v r)"
  unfolding policy_stage_def Let_def
proof (rule gives_andthen [OF gives_attempt [OF asks_policy]])
  fix out :: "exn + policy_output"
  assume "\<forall>p. out = Inr p \<longrightarrow> policy_evidence p"
  then show "gives I fine (case out of
        Inl e \<Rightarrow> conclude h sv x ((denied x [(''policy_evaluation_failed'', ''Policy evaluation failed.'')])
          \<lparr>gd_reviewerVerdict := Some v, gd_riskResult := Some r\<rparr>)
      | Inr p \<Rightarrow>
          andthen (stage_audit h sv x ''policy.evaluated''
            [(''policyInput'', policyInput (number_to_string h) (sv_base58 sv) (el_intent x) v r),
             (''opaInput'', policyInput (number_to_string h) (sv_base58 sv) (el_intent x) v r),
             (''policyOutput'', policy_output_json p)]) (\<lambda>_.
          decide_policy h sv x v r p))"
    by (auto simp: deny_decision_def split: sum.split
        intro!: concludes denies gives_after [OF stage_audits] decides_policy [OF assms])
qed

lemma asks_risk: "gives I (\<lambda>r. ra_passed r \<longleftrightarrow> (\<forall>c \<in> set (ra_checks r). rk_status c = Pass)) (ask_risk h sv i v)"
  unfolding ask_risk_def
  by (intro gives_rules risk) (auto intro!: gives_rules dest: parse_risk_answer_passed split: option.split)

lemma risk_gives:
  assumes "detectUnsafeContent (el_intent x) = None"
  shows "gives I fine (risk_stage h sv x v)"
  unfolding risk_stage_def
proof (rule gives_andthen [OF gives_attempt [OF asks_risk]])
  fix out :: "exn + risk_answer"
  assume "\<forall>r. out = Inr r \<longrightarrow> (ra_passed r \<longleftrightarrow> (\<forall>c \<in> set (ra_checks r). rk_status c = Pass))"
  then show "gives I fine (case out of
       Inl e \<Rightarrow> conclude h sv x ((denied x [(''risk_check_unavailable'', ''Required risk facts are unavailable.'')])
         \<lparr>gd_reviewerVerdict := Some v\<rparr>)
     | Inr r \<Rightarrow>
         andthen (stage_audit h sv x ''risk.evaluated''
           [(''riskResult'', risk_answer_json r), (''riskChecks'', JArr (map risk_check_json (ra_checks r)))]) (\<lambda>_.
         if \<not> ra_passed r
         then conclude h sv x ((denied x (risk_reasons r))\<lparr>gd_reviewerVerdict := Some v, gd_riskResult := Some r\<rparr>)
         else policy_stage h sv x v r))"
    by (auto simp: deny_decision_def split: sum.split
        intro!: concludes denies gives_after [OF stage_audits] gives_if policy_gives [OF assms])
qed

lemma assesses: "gives I fine (assess h sv x)"
proof (cases "detectUnsafeContent (el_intent x)")
  case None
  have asked: "keeps I (ask_reviewer h sv i)" for i
    unfolding ask_reviewer_def by (intro keeps_rules review)
  have "gives I fine (case out of
        Inl e \<Rightarrow> conclude h sv x (denied x [(''reviewer_unavailable'', ''Reviewer agent is unavailable.'')])
      | Inr v \<Rightarrow> andthen (stage_audit h sv x ''reviewer.completed'' [(''reviewerVerdict'', verdict_json v)]) (\<lambda>_.
          risk_stage h sv x v))" for out :: "exn + reviewer_verdict"
    by (auto simp: deny_decision_def split: sum.split intro!: concludes denies gives_after [OF stage_audits] risk_gives [OF None])
  then show ?thesis
    unfolding assess_def service_health_def None option.case
    by (intro gives_rules keeps_rules healthy asked) (auto simp: deny_decision_def intro!: concludes denies)
qed (auto simp: assess_def deny_decision_def intro!: concludes denies)

text \<open>An evaluation, when the decisions it finds in the store or awaits have the property.\<close>

lemma evaluation_gives:
  assumes ready: "\<And>st w d. I (st, w) \<Longrightarrow> dec_get (el_scope x) (el_hash x) st = Ready d \<Longrightarrow> E d"
    and awaited: "\<And>n. triple (\<lambda>(st, w). I (st, w) \<and> dec_get (el_scope x) (el_hash x) st = Awaiting n) (sv_await sv n)
      (\<lambda>d s. E d \<and> I s) (\<lambda>_. I)"
  shows "gives I fine (evaluate_intent h sv x)"
proof -
  let ?P = "\<lambda>c (st, w). I (st, w) \<and> (c = Absent \<or> c = dec_get (el_scope x) (el_hash x) st)"
  have look: "triple I (if el_dry x then ret Absent else read_state (\<lambda>(st, w). dec_get (el_scope x) (el_hash x) st))
      ?P (\<lambda>_. I)"
    by (auto simp: triple_def ret_def read_state_def)
  have go: "gives I fine m \<Longrightarrow> triple (?P c) m (\<lambda>d s. fine d \<and> I s) (\<lambda>_. I)" for c and m
    unfolding gives_def by (erule triple_pre) auto
  have "triple (?P c) (case c of
       Conflict \<Rightarrow> finalizeDecision h sv (el_context x) (el_intent x)
         (denied x [(''idempotency_conflict'', ''Idempotency key reused with different payload.'')]) (el_cid x)
     | Ready d \<Rightarrow> reuse h sv x d
     | Awaiting n \<Rightarrow> andthen (sv_await sv n) (\<lambda>d. reuse h sv x d)
     | Absent \<Rightarrow>
         andthen (if el_dry x then ret () else on_store (dec_reserve (el_scope x) (el_hash x))) (\<lambda>_.
         try_catch (assess h sv x) (\<lambda>e. andthen (forget_pending x e) (\<lambda>_. throw e))))
    (\<lambda>d s. fine d \<and> I s) (\<lambda>_. I)" for c
  proof (cases c)
    case Absent
    show ?thesis
      unfolding Absent decision_lookup.case
      by (intro go gives_rules keeps_rules reserves assesses forgets)
  next
    case Conflict
    show ?thesis
      unfolding Conflict decision_lookup.case by (intro go finalizes denies) (simp add: deny_decision_def)
  next
    case (Ready d)
    show ?thesis
    proof (cases "E d")
      case True
      show ?thesis unfolding Ready decision_lookup.case by (intro go reuses True)
    next
      case False
      then show ?thesis using Ready ready by (auto simp: triple_def)
    qed
  next
    case (Awaiting n)
    have "triple (?P c) (sv_await sv n) (\<lambda>d s. E d \<and> I s) (\<lambda>_. I)"
      by (rule triple_pre [OF awaited]) (auto simp: Awaiting)
    moreover have "triple (\<lambda>s. E d \<and> I s) (reuse h sv x d) (\<lambda>d s. fine d \<and> I s) (\<lambda>_. I)" for d
      using reuses [of d] by (cases "E d") (simp_all add: gives_def triple_def)
    ultimately show ?thesis unfolding Awaiting decision_lookup.case by (rule triple_andthen)
  qed
  then show ?thesis
    unfolding gives_def evaluate_intent_def by (rule triple_andthen [OF look])
qed

end

end
