(* ===== verification/GuardrailSamples.thy ===== *)
theory GuardrailSamples
  imports Guardrail BrokerSamples
begin

text \<open>
  Concrete values at which the theorems on the guardrail service are applied: an order, a service
  whose reviewer, risk engine and policy engine let it pass, and its evaluation. Nothing here models
  code.
\<close>

declare ret_run [simp del] throw_run [simp del]

definition service_intent :: trading_intent where
  "service_intent = CexOrderIntent (sample_envelope\<lparr>env_resource := ''cex:binance:acct:BTCUSDT''\<rparr>) sample_order"

definition sample_raw :: jsval where
  "sample_raw = intent_json service_intent"

definition sample_context :: audit_context where
  "sample_context = \<lparr>ax_promptId = None, ax_sessionId = None, ax_inputRef = None, ax_correlationId = Some ''c1'',
     ax_dryRun = False\<rparr>"

definition sample_verdict :: reviewer_verdict where
  "sample_verdict = \<lparr>rv_intentId = ''i1'', rv_verdict = Approve, rv_riskLevel = LowRisk, rv_reasons = [''fine''],
     rv_detectedIssues = [], rv_requiredPolicyTags = [], rv_reviewerModel = ''m'', rv_reviewerProvider = ''p'',
     rv_reviewedAt = sample_date 1\<rparr>"

definition sample_answer :: risk_answer where
  "sample_answer = \<lparr>ra_intentId = ''i1'', ra_passed = True,
     ra_checks = [\<lparr>rk_check = ''slippage'', rk_status = Pass, rk_value = None, rk_threshold = None, rk_message = None\<rparr>],
     ra_dailyStats = None, ra_evaluatedAt = sample_date 1\<rparr>"

definition sample_output :: policy_output where
  "sample_output = \<lparr>po_decision = Allow, po_reasons = [(''orders'', ''allowed'')], po_requiresHumanApproval = False,
     po_matchedAllowRules = [''orders''], po_matchedDenyRules = [], po_evaluatedAt = sample_date 1\<rparr>"

definition sample_service :: "unit service" where
  "sample_service =
     \<lparr>sv_environment = Testnet, sv_secret = replicate 32 CHR ''s'', sv_issues = (\<lambda>v. []), sv_base58 = (\<lambda>s. None),
      sv_now = ret 1, sv_uuid = ret ''u1'', sv_audit = (\<lambda>ev. ret ()),
      sv_create = (\<lambda>p. throw (GenericError ''closed'')), sv_delete = (\<lambda>k. ret True), sv_healthy = ret True,
      sv_review = (\<lambda>i. ret (verdict_json sample_verdict)), sv_risk = (\<lambda>i v. ret (risk_answer_json sample_answer)),
      sv_policy = (\<lambda>input. ret (policy_output_json sample_output)),
      sv_await = (\<lambda>n. throw (GenericError ''nobody''))\<rparr>"

lemma service_intent_ok: "intent_ok digit_host service_intent"
  using digit_host_intents(1) by (simp add: service_intent_def envelope_ok_def)

lemma sample_raw_parses: "parse_intent digit_host sample_raw = Some service_intent"
  unfolding sample_raw_def by (rule parse_intent_json) (rule service_intent_ok)

lemma sample_frame: "in_environment service_intent = Testnet" "in_resource service_intent = canonicalResource service_intent"
  by (simp_all add: service_intent_def sample_envelope_def sample_order_def canonicalResource_def)

lemma sample_text: "detectUnsafeContent service_intent = None"
  by (simp add: detectUnsafeContent_def unsafe_text_def service_intent_def sample_envelope_def injection_patterns_def
      hallucination_patterns_def to_lower_def lower_char_def)

lemma sample_verdict_parses: "parse_verdict digit_host (verdict_json sample_verdict) = Some sample_verdict"
  by (simp add: parse_verdict_def verdict_json_def sample_verdict_def strict_def verdict_keys_def required_def
      verdict_table_def tier_table_def)

lemma sample_answer_parses: "parse_risk_answer digit_host (risk_answer_json sample_answer) = Some sample_answer"
  by (simp add: parse_risk_answer_def risk_answer_json_def sample_answer_def strict_def required_def optional_def
      opt_field_def parse_risk_check_def risk_check_json_def check_status_table_def)

lemma sample_output_transforms:
  "transformOpaOutput digit_host now (policy_output_json sample_output) = Some sample_output"
  by (simp add: transformOpaOutput_def policy_output_json_def sample_output_def has_key_def js_get_def
      normalizeOptionalReasons_def requiredField_def normalizeStringArray_def reason_json_def parse_policy_output_def
      strict_def policy_output_keys_def required_def outcome_table_def parse_reason_def policy_output_ok_def
      evidence_consistent_def allReasonsMatchRules_def)

lemma world_ret [simp]: "on_world (ret x) = ret x"
  by (simp add: on_world_def ret_def fun_eq_iff)

lemma world_audit [simp]: "writeAudit h sample_service ev = ret ()" "stage_audit h sample_service x t data = ret ()"
  by (simp_all add: writeAudit_def stage_audit_def sample_service_def)

lemma sample_finalize [simp]:
  "finalizeDecision h sample_service ax i d cid = ret (signed_decision h sample_service i d cid (ax_dryRun ax))"
  by (simp add: finalizeDecision_def Let_def)

definition sample_evaluation :: evaluation where
  "sample_evaluation = \<lparr>el_context = sample_context, el_intent = service_intent, el_cid = ''c1'',
     el_now = sample_date 1, el_scope = idempotencyScope digit_host service_intent, el_hash = hashPayload digit_host sample_raw\<rparr>"

definition sample_allowed :: guardrail_decision where
  "sample_allowed = signed_decision digit_host sample_service service_intent
     \<lparr>gd_intentId = ''i1'', gd_correlationId = ''c1'', gd_outcome = Allow, gd_reasons = [(''orders'', ''allowed'')],
      gd_requiresHumanApproval = False, gd_approvalId = None, gd_reviewerVerdict = Some sample_verdict,
      gd_policyOutput = Some sample_output, gd_riskResult = Some sample_answer, gd_decidedAt = sample_date 1,
      gd_decisionToken = None, gd_dryRun = False\<rparr> ''c1'' False"

lemma sample_asks:
  "ask_reviewer digit_host sample_service service_intent = ret sample_verdict"
  "ask_risk digit_host sample_service service_intent v = ret sample_answer"
  "ask_policy digit_host sample_service input = ret sample_output"
  by (simp_all add: ask_reviewer_def ask_risk_def ask_policy_def sample_service_def sample_verdict_parses
      sample_answer_parses sample_output_transforms if_distrib [where f = "\<lambda>m. andthen m _"])

lemma attempt_returns: "attempt (ret x) = ret (Inr x)"
  by (simp add: attempt_def ret_def fun_eq_iff)

lemma try_catch_returns: "try_catch (ret x) k = ret x"
  by (simp add: try_catch_def ret_def fun_eq_iff)

lemma sample_decides:
  "decide_policy digit_host sample_service sample_evaluation sample_verdict sample_answer sample_output =
     andthen (remember sample_evaluation sample_allowed) (\<lambda>_. ret sample_allowed)"
proof -
  have "po_decision sample_output = Allow" "po_reasons sample_output = [(''orders'', ''allowed'')]"
    "po_requiresHumanApproval sample_output = False" by (simp_all add: sample_output_def)
  then show ?thesis
    by (simp add: decide_policy_def Let_def sample_allowed_def sample_evaluation_def sample_context_def
        try_catch_returns service_intent_def sample_envelope_def)
qed

lemma sample_assesses:
  "assess digit_host sample_service sample_evaluation = andthen (remember sample_evaluation sample_allowed) (\<lambda>_. ret sample_allowed)"
proof -
  have "ra_passed sample_answer" "service_health sample_service = ret True" "el_intent sample_evaluation = service_intent"
    by (simp_all add: sample_answer_def service_health_def sample_service_def try_catch_returns sample_evaluation_def)
  then show ?thesis
    by (simp add: assess_def risk_stage_def policy_stage_def Let_def sample_text sample_asks attempt_returns sample_decides)
qed

lemma sample_dry: "\<not> el_dry sample_evaluation"
  by (simp add: el_dry_def sample_evaluation_def sample_context_def)

lemma sample_admitted:
  "evaluate digit_host sample_service sample_context sample_raw =
     evaluate_intent digit_host sample_service sample_evaluation"
  using sample_frame
  by (simp add: evaluate_def admit_def sample_raw_parses sample_service_def [THEN arg_cong [where f = sv_environment]]
      sample_service_def [THEN arg_cong [where f = sv_now]] sample_context_def sample_evaluation_def)

text \<open>The whole evaluation, on an empty store.\<close>

lemma sample_evaluates:
  "evaluate digit_host sample_service sample_context sample_raw (new_decision_store, ()) =
     (Inr sample_allowed, (dec_set (el_scope sample_evaluation) (el_hash sample_evaluation) sample_allowed
       (dec_reserve (el_scope sample_evaluation) (el_hash sample_evaluation) new_decision_store), ()))"
  unfolding sample_admitted evaluate_intent_def
  by (simp add: sample_dry sample_assesses andthen_def read_state_def new_decision_store_def dec_get_def on_store_def
      modify_state_def remember_def ret_def try_catch_def)

text \<open>And once more, on the store it leaves.\<close>

lemma dec_get_set: "dec_get k p (dec_set k p d st) = Ready d"
  by (simp add: dec_get_def dec_set_def dec_settle_def Let_def split: option.split decision_entry.split)

lemma sample_replays:
  "\<exists>d t. evaluate digit_host sample_service sample_context sample_raw
     (dec_set (el_scope sample_evaluation) (el_hash sample_evaluation) sample_allowed st, ()) = (Inr d, t)"
  unfolding sample_admitted evaluate_intent_def
  by (simp add: sample_dry andthen_def read_state_def dec_get_set reuse_def) (simp add: ret_def)

end
