(* ===== verification/GuardrailDecisions.thy ===== *)
theory GuardrailDecisions
  imports GuardrailSafety GuardrailSamples
begin

text \<open>
  The properties of the guardrail service: a decision that does not deny has every gate behind it
  and a token the broker accepts, a decision that is returned is in the audit log, and a decision
  that was stored answers the later evaluations of its key.
\<close>

declare ret_run [simp del] throw_run [simp del] map_of_append [simp del]

subsection \<open>The token\<close>

text \<open>The decision and its intent as the broker receives them.\<close>

definition approval_of :: "trading_intent \<Rightarrow> guardrail_decision \<Rightarrow> guardrail_approval" where
  "approval_of i d =
     \<lparr>gp_intentId = gd_intentId d, gp_correlationId = gd_correlationId d, gp_outcome = outcome_name (gd_outcome d),
      gp_intent = intent_json i, gp_decidedAt = gd_decidedAt d,
      gp_decisionToken = (case gd_decisionToken d of Some t \<Rightarrow> t | None \<Rightarrow> []),
      gp_approvalId = map_option JStr (gd_approvalId d), gp_dryRun = None\<rparr>"

lemma lower_hex_same: "is_lower_hex c \<Longrightarrow> lower_char c = c \<and> is_hex c"
  by (auto simp: is_lower_hex_def is_hex_def is_digit_def lower_char_def)

lemma lower_hex64_same: "lower_hex64 s \<Longrightarrow> to_lower s = s \<and> hex64 s"
  using lower_hex_same by (auto simp: lower_hex64_def hex64_def to_lower_def list_all_iff intro: map_idI)

text \<open>The service signs what the broker checks.\<close>

lemma service_token:
  "gd_outcome d \<noteq> Deny \<Longrightarrow> createDecisionToken h sv i d cid dry =
    Some (createGuardrailDecisionToken h (sv_secret sv) i (outcome_name (gd_outcome d)) cid (gd_decidedAt d)
      (case map_option JStr (gd_approvalId d) of Some v \<Rightarrow> v | None \<Rightarrow> JUndef) dry)"
  by (cases "gd_outcome d"; cases "gd_approvalId d")
    (simp_all add: createDecisionToken_def createGuardrailDecisionToken_def token_payload_def or_null_def dry_run_field_def)

lemma sealed_accepted:
  assumes "digests h" "sealed_for h sv i False d" "gd_outcome d \<noteq> Deny" "bc_secret c = sv_secret sv"
  shows "decisionTokenMatches h c (approval_of i d) i"
proof -
  let ?t = "createGuardrailDecisionToken h (sv_secret sv) i (outcome_name (gd_outcome d)) (gd_correlationId d)
    (gd_decidedAt d) (case map_option JStr (gd_approvalId d) of Some v \<Rightarrow> v | None \<Rightarrow> JUndef) False"
  have "gd_decisionToken d = Some ?t"
    using assms(2) service_token [OF assms(3)] by (simp add: sealed_for_def)
  moreover have "lower_hex64 ?t" using assms(1) by (simp add: digests_def createGuardrailDecisionToken_def)
  ultimately show ?thesis
    using lower_hex64_same assms(4) by (simp add: decisionTokenMatches_def approval_of_def)
qed

interpretation any_decision: evaluation_stages h sv x "\<lambda>_. True" "\<lambda>_. True"
  by unfold_locales (auto simp: keeps_iff)

text \<open>An evaluation either ends before its intent is accepted, with a denial, or is one of \<open>evaluate_intent\<close>.\<close>

lemma on_world_store: "on_world m u = (r, v) \<Longrightarrow> fst v = fst u"
  by (auto simp: on_world_def split: prod.splits)

lemma finalize_invalid_outcome:
  "finalizeInvalidDecision h sv ax d u = (Inr f, t) \<Longrightarrow> gd_outcome f = gd_outcome d"
  by (auto simp: finalizeInvalidDecision_def Let_def ret_def elim!: andthenE)

lemma evaluate_start:
  assumes "evaluate h sv ax raw s = (Inr d, t)"
  obtains cid n u where "fst u = fst s" "admit h sv ax raw cid (iso_string h n) u = (Inr d, t)"
proof -
  obtain cid s1 n u where one: "(case ax_correlationId ax of Some c \<Rightarrow> ret c | None \<Rightarrow> on_world (sv_uuid sv)) s = (Inr cid, s1)"
    and two: "on_world (sv_now sv) s1 = (Inr n, u)" and rest: "admit h sv ax raw cid (iso_string h n) u = (Inr d, t)"
    using assms unfolding evaluate_def by (elim andthenE) blast
  have "fst s1 = fst s" using one by (auto simp: ret_def dest: on_world_store split: option.splits)
  with on_world_store [OF two] rest show thesis by (intro that) auto
qed

lemma evaluate_admitted:
  assumes "evaluate h sv ax raw s = (Inr d, t)" "parse_intent h raw = Some i" "in_environment i = sv_environment sv"
    and "canonicalResource i \<noteq> [] \<longrightarrow> in_resource i = canonicalResource i"
  obtains cid now u where "fst u = fst s" "evaluate_intent h sv \<lparr>el_context = ax, el_intent = i, el_cid = cid,
      el_now = now, el_scope = idempotencyScope h i, el_hash = hashPayload h raw\<rparr> u = (Inr d, t)"
proof -
  obtain cid n v where v: "fst v = fst s" "admit h sv ax raw cid (iso_string h n) v = (Inr d, t)"
    using assms(1) by (rule evaluate_start)
  then obtain z u where received: "writeAudit h sv z v = (Inr (), u)"
    and go: "evaluate_intent h sv \<lparr>el_context = ax, el_intent = i, el_cid = cid, el_now = iso_string h n,
      el_scope = idempotencyScope h i, el_hash = hashPayload h raw\<rparr> u = (Inr d, t)"
    using assms(2-4) by (auto simp: admit_def elim!: andthenE)
  have "fst u = fst s" using on_world_store [OF received [unfolded writeAudit_def]] v by simp
  then show thesis using go by (rule that)
qed

lemma evaluate_cases:
  assumes "evaluate h sv ax raw s = (Inr d, t)"
  obtains (invalid) "gd_outcome d = Deny"
  | (accepted) i cid now u where "parse_intent h raw = Some i" "in_environment i = sv_environment sv"
      "canonicalResource i \<noteq> [] \<Longrightarrow> in_resource i = canonicalResource i" "fst u = fst s"
      "evaluate_intent h sv \<lparr>el_context = ax, el_intent = i, el_cid = cid, el_now = now,
         el_scope = idempotencyScope h i, el_hash = hashPayload h raw\<rparr> u = (Inr d, t)"
proof (cases "\<exists>i. parse_intent h raw = Some i \<and> in_environment i = sv_environment sv \<and>
    (canonicalResource i \<noteq> [] \<longrightarrow> in_resource i = canonicalResource i)")
  case True
  then show thesis using evaluate_admitted [OF assms] accepted by metis
next
  case False
  from assms show thesis
  proof (rule evaluate_start)
    fix cid n u
    assume "admit h sv ax raw cid (iso_string h n) u = (Inr d, t)"
    then show thesis
      using False
      by (intro invalid) (auto simp: admit_def deny_decision_def dest!: finalize_invalid_outcome split: option.splits if_splits)
  qed
qed

text \<open>C33. The broker accepts what the service signs: the token of a decision that does not deny, from
  any evaluation outside a dry run, whatever the collaborators answer and whatever the store holds,
  passes the token check of a broker with the same secret, for the intent that was evaluated; and the
  intent is of the environment of the service and names its own resource.\<close>

theorem decision_accepted_by_broker:
  assumes "digests h" "evaluate h sv ax raw s = (Inr d, t)" "gd_outcome d \<noteq> Deny" "\<not> ax_dryRun ax"
    and "bc_secret c = sv_secret sv"
  shows "\<exists>i. parse_intent h raw = Some i \<and> decisionTokenMatches h c (approval_of i d) i \<and>
    in_environment i = sv_environment sv \<and> (canonicalResource i \<noteq> [] \<longrightarrow> in_resource i = canonicalResource i)"
  using assms(2)
proof (cases rule: evaluate_cases)
  case (accepted i cid now u)
  let ?x = "\<lparr>el_context = ax, el_intent = i, el_cid = cid, el_now = now, el_scope = idempotencyScope h i,
    el_hash = hashPayload h raw\<rparr>"
  have "triple (\<lambda>(st, w). True \<and> dec_get (el_scope ?x) (el_hash ?x) st = Awaiting n) (sv_await sv n)
      (\<lambda>d s. True \<and> True) (\<lambda>_ _. True)" for n
    by (auto simp: triple_def split: prod.splits sum.splits)
  then have gives: "gives (\<lambda>_. True) (\<lambda>d. True \<and> sealed_for h sv (el_intent ?x) (el_dry ?x) d) (evaluate_intent h sv ?x)"
    by (intro any_decision.evaluation_gives) auto
  have "sealed_for h sv i False d"
    using givesD [OF gives TrueI accepted(5)] assms(4) by (simp add: el_dry_def)
  then have "decisionTokenMatches h c (approval_of i d) i"
    by (rule sealed_accepted [OF assms(1) _ assms(3,5)])
  with accepted show ?thesis by blast
qed (use assms(3) in simp)

lemma digit_host_digests: "digests digit_host"
  by (simp add: digests_def lower_hex64_def list_all_iff is_lower_hex_def is_digit_def)

lemma sample_allowed_simps [simp]:
  "gd_outcome sample_allowed = Allow" "gd_approvalId sample_allowed = None"
  by (simp_all add: sample_allowed_def signed_decision_def)

theorem decision_accepted_by_broker_witness:
  "decisionTokenMatches digit_host sample_config (approval_of service_intent sample_allowed) service_intent"
proof -
  have "gd_outcome sample_allowed \<noteq> Deny" "\<not> ax_dryRun sample_context" "bc_secret sample_config = sv_secret sample_service"
    by (simp_all add: sample_context_def sample_config_def sample_service_def)
  from decision_accepted_by_broker [OF digit_host_digests sample_evaluates this]
  show ?thesis by (simp add: sample_raw_parses)
qed

subsection \<open>The gates\<close>

text \<open>
  What is behind a decision that does not deny: a text that passed the screening, the verdict of the
  reviewer, risk checks that all passed, and a policy output with the decision, its reasons and the
  evidence for them; outside a dry run a decision that asks for a human names the approval request.
\<close>

definition earned :: "bool \<Rightarrow> trading_intent \<Rightarrow> guardrail_decision \<Rightarrow> bool" where
  "earned dry i d \<longleftrightarrow> (gd_outcome d \<noteq> Deny \<longrightarrow> detectUnsafeContent i = None \<and> gd_reviewerVerdict d \<noteq> None \<and>
     (\<exists>r. gd_riskResult d = Some r \<and> (\<forall>c \<in> set (ra_checks r). rk_status c = Pass)) \<and>
     (\<exists>p. gd_policyOutput d = Some p \<and> policy_evidence p \<and> po_decision p = gd_outcome d \<and> gd_reasons d = po_reasons p) \<and>
     (gd_outcome d = NeedsHuman \<and> \<not> dry \<longrightarrow> gd_approvalId d \<noteq> None))"

text \<open>A decision stored for a payload hash has all this for every intent of that payload.\<close>

definition fits :: "host \<Rightarrow> string \<Rightarrow> guardrail_decision \<Rightarrow> bool" where
  "fits h p d \<longleftrightarrow> (\<forall>raw i. json_value raw \<and> parse_intent h raw = Some i \<and> hashPayload h raw = p \<longrightarrow> earned False i d)"

definition store_fits :: "host \<Rightarrow> 'w service_world \<Rightarrow> bool" where
  "store_fits h s \<longleftrightarrow> (\<forall>k p d. dec_entries (fst s) k = Some (DecComplete p d) \<longrightarrow> fits h p d)"

text \<open>
  What runs while the service waits, other evaluations included, keeps the store so, and an
  evaluation that is awaited gives a decision that fits the hash it was reserved for.
\<close>

definition peers_keep :: "host \<Rightarrow> 'w service \<Rightarrow> bool" where
  "peers_keep h sv \<longleftrightarrow> keeps (store_fits h) (sv_healthy sv) \<and> (\<forall>i. keeps (store_fits h) (sv_review sv i)) \<and>
     (\<forall>i v. keeps (store_fits h) (sv_risk sv i v)) \<and> (\<forall>input. keeps (store_fits h) (sv_policy sv input)) \<and>
     (\<forall>n k p. triple (\<lambda>s. store_fits h s \<and> dec_entries (fst s) k = Some (DecPending p n)) (sv_await sv n)
        (\<lambda>d s. fits h p d \<and> store_fits h s) (\<lambda>_. store_fits h))"

lemma same_payload:
  assumes "number_format (number_to_string h)" "json_value raw" "json_value raw'"
    and "parse_intent h raw = Some i" "parse_intent h raw' = Some i'" "hashPayload h raw = hashPayload h raw'"
  shows "intent_envelope i = intent_envelope i'"
proof -
  let ?le = "\<lambda>a b. locale_compare h a b \<le> 0"
  have "canon_by ?le raw = canon_by ?le raw'"
    using assms(6) unfolding hashPayload_def stable_json_eq_iff [OF assms(1)] canon_def .
  then have "canon_intent ?le i = canon_intent ?le i'"
    using parse_intent_canon [OF assms(2), of h ?le] parse_intent_canon [OF assms(3), of h ?le] assms(4,5) by simp
  then show ?thesis by (metis canon_intent_frame(1))
qed

lemma earned_fits:
  assumes "number_format (number_to_string h)" "json_value raw" "parse_intent h raw = Some i" "earned False i d"
  shows "fits h (hashPayload h raw) d"
  unfolding fits_def
proof (intro allI impI)
  fix raw' i'
  assume "json_value raw' \<and> parse_intent h raw' = Some i' \<and> hashPayload h raw' = hashPayload h raw"
  then have "intent_envelope i' = intent_envelope i"
    using same_payload [OF assms(1) _ assms(2) _ assms(3)] by blast
  then show "earned False i' d"
    using assms(4) by (simp add: earned_def detectUnsafeContent_def)
qed

lemma store_rules:
  "store_fits h (st, w) \<Longrightarrow> store_fits h (st, w')"
  "fits h p d \<Longrightarrow> store_fits h (st, w) \<Longrightarrow> store_fits h (dec_set k p d st, w)"
  "store_fits h (st, w) \<Longrightarrow> store_fits h (dec_abort k p e st, w)"
  "store_fits h (st, w) \<Longrightarrow> store_fits h (dec_reserve k p st, w)"
  by (auto simp: store_fits_def dec_set_def dec_abort_def dec_reserve_def dec_settle_def Let_def
      split: option.splits decision_entry.splits if_splits)

text \<open>An evaluation of the payload \<open>raw\<close> works with these properties.\<close>

lemma gated_stages:
  fixes sv :: "'w service"
  assumes "number_format (number_to_string h)" "json_value raw" "parse_intent h raw = Some i" "peers_keep h sv"
    and x: "el_intent x = i" "el_hash x = hashPayload h raw"
  shows "evaluation_stages h sv x (store_fits h) (earned (el_dry x) i)"
proof
  have store: "keeps (store_fits h) (on_store f :: ('w service_world, unit) eff)"
    if "\<And>st w. store_fits h (st, w :: 'w) \<Longrightarrow> store_fits h (f st, w)" for f
    using that by (auto simp: keeps_iff on_store_def modify_state_def)
  show "keeps (store_fits h) (remember x f :: ('w service_world, unit) eff)" if "earned (el_dry x) i f" for f
  proof (cases "el_dry x")
    case False
    then have "fits h (hashPayload h raw) f" using that earned_fits [OF assms(1-3), of f] by simp
    then show ?thesis unfolding remember_def x(2) by (intro keeps_rules store store_rules(2))
  qed (simp add: remember_def keeps_rules)
  show "keeps (store_fits h) (forget_pending x e :: ('w service_world, unit) eff)" for e
    unfolding forget_pending_def by (intro keeps_rules store store_rules(3))
  show "keeps (store_fits h) (on_store (dec_reserve (el_scope x) (el_hash x)) :: ('w service_world, unit) eff)"
    by (intro store store_rules(4))
  show "store_fits h (st, w')" if "store_fits h (st, w)" for st and w w' :: 'w
    using that by (rule store_rules(1))
  show "earned (el_dry x) i (decided x v r p a)"
    if "detectUnsafeContent (el_intent x) = None" "\<forall>c \<in> set (ra_checks r). rk_status c = Pass" "policy_evidence p"
      "po_decision p = NeedsHuman \<and> \<not> el_dry x \<longrightarrow> a \<noteq> None" for r p a v
    using that by (simp add: earned_def decided_def x)
  show "earned (el_dry x) i (signed_decision h sv (el_intent x) d cid (el_dry x))" if "earned (el_dry x) i d" for d cid
    using that by (simp add: earned_def signed_decision_def)
qed (use assms(4) in \<open>simp_all add: earned_def peers_keep_def\<close>)

lemma gated_evaluation:
  assumes "number_format (number_to_string h)" "json_value raw" "parse_intent h raw = Some i" "peers_keep h sv"
    and x: "el_intent x = i" "el_hash x = hashPayload h raw"
  shows "gives (store_fits h) (earned (el_dry x) i) (evaluate_intent h sv x)"
proof -
  have weaken: "earned (el_dry x) i d" if "fits h (el_hash x) d" for d
    using that assms(2,3) by (auto simp: fits_def earned_def x)
  have "triple (\<lambda>(st, w). store_fits h (st, w) \<and> dec_get (el_scope x) (el_hash x) st = Awaiting n) (sv_await sv n)
      (\<lambda>d s. earned (el_dry x) i d \<and> store_fits h s) (\<lambda>_. store_fits h)" for n
  proof (rule triple_post)
    have "triple (\<lambda>s. store_fits h s \<and> dec_entries (fst s) (el_scope x) = Some (DecPending (el_hash x) n)) (sv_await sv n)
        (\<lambda>d s. fits h (el_hash x) d \<and> store_fits h s) (\<lambda>_. store_fits h)"
      using assms(4) by (simp add: peers_keep_def)
    then show "triple (\<lambda>(st, w). store_fits h (st, w) \<and> dec_get (el_scope x) (el_hash x) st = Awaiting n) (sv_await sv n)
        (\<lambda>d s. fits h (el_hash x) d \<and> store_fits h s) (\<lambda>_. store_fits h)"
      by (rule triple_pre) (auto simp: dec_get_def split: option.splits decision_entry.splits if_splits)
  qed (use weaken in auto)
  then have "gives (store_fits h) (\<lambda>d. earned (el_dry x) i d \<and> sealed_for h sv (el_intent x) (el_dry x) d)
      (evaluate_intent h sv x)"
    by (intro evaluation_stages.evaluation_gives [OF gated_stages [OF assms]])
      (auto simp: dec_get_def store_fits_def intro!: weaken split: option.splits decision_entry.splits if_splits)
  then show ?thesis by (rule gives_mono) simp
qed

text \<open>Whatever is admitted is evaluated, anything else is denied.\<close>

lemma evaluate_gives:
  assumes store_only: "\<And>st w w'. I (st, w) \<Longrightarrow> I (st, w')" and "\<And>d. gd_outcome d = Deny \<Longrightarrow> Q d"
    and "\<And>i cid now. parse_intent h raw = Some i \<Longrightarrow> in_environment i = sv_environment sv \<Longrightarrow>
      (canonicalResource i \<noteq> [] \<longrightarrow> in_resource i = canonicalResource i) \<Longrightarrow>
      gives I Q (evaluate_intent h sv \<lparr>el_context = ax, el_intent = i, el_cid = cid, el_now = now,
        el_scope = idempotencyScope h i, el_hash = hashPayload h raw\<rparr>)"
  shows "gives I Q (evaluate h sv ax raw)"
proof -
  have world: "keeps I (on_world m)" for m :: "('a, 'b) eff"
    by (auto simp: keeps_iff on_world_def intro: store_only split: prod.splits)
  have audit: "keeps I (writeAudit h sv ev)" for ev
    by (auto simp: keeps_iff writeAudit_def on_world_def intro: store_only split: prod.splits)
  have invalid: "gives I Q (finalizeInvalidDecision h sv ax d)" if "gd_outcome d = Deny" for d
    unfolding finalizeInvalidDecision_def Let_def using that assms(2) by (intro gives_rules audit) simp
  have "gives I Q (admit h sv ax raw cid now)" for cid now
    by (auto simp: admit_def deny_decision_def split: option.split
        intro!: invalid gives_if gives_after [OF audit] assms(3))
  moreover have "keeps I (case ax_correlationId ax of Some c \<Rightarrow> ret c | None \<Rightarrow> on_world (sv_uuid sv))"
    "keeps I (on_world (sv_now sv))"
    by (auto simp: keeps_iff on_world_def ret_def intro: store_only split: prod.splits option.splits)
  ultimately show ?thesis unfolding evaluate_def by (intro gives_after)
qed

text \<open>C32. No approval without every gate: an evaluation that returns a decision other than a denial
  had an intent that satisfies the schema, names its own resource, is of the environment of the
  service and passed the screening of its text; the decision carries the verdict of the reviewer, a
  risk result whose checks all passed, and a policy output with that decision and the evidence for
  it; outside a dry run a decision that asks for a human names its approval request. The store of
  decisions keeps this for the decisions it replays, however the evaluation ends.\<close>

theorem approval_needs_every_gate:
  assumes "number_format (number_to_string h)" "json_value raw" "peers_keep h sv"
    and "store_fits h s" "evaluate h sv ax raw s = (r, t)"
  shows "store_fits h t \<and> (\<forall>d. r = Inr d \<and> gd_outcome d \<noteq> Deny \<longrightarrow>
    (\<exists>i. parse_intent h raw = Some i \<and> in_environment i = sv_environment sv \<and>
      (canonicalResource i \<noteq> [] \<longrightarrow> in_resource i = canonicalResource i) \<and> earned (ax_dryRun ax) i d))"
proof -
  let ?Q = "\<lambda>d. gd_outcome d \<noteq> Deny \<longrightarrow> (\<exists>i. parse_intent h raw = Some i \<and> in_environment i = sv_environment sv \<and>
      (canonicalResource i \<noteq> [] \<longrightarrow> in_resource i = canonicalResource i) \<and> earned (ax_dryRun ax) i d)"
  have "gives (store_fits h) ?Q (evaluate_intent h sv \<lparr>el_context = ax, el_intent = i, el_cid = cid, el_now = now,
        el_scope = idempotencyScope h i, el_hash = hashPayload h raw\<rparr>)"
    if "parse_intent h raw = Some i" "in_environment i = sv_environment sv"
      "canonicalResource i \<noteq> [] \<longrightarrow> in_resource i = canonicalResource i" for i cid now
    by (rule gives_mono [OF gated_evaluation [OF assms(1,2) that(1) assms(3)]]) (use that in \<open>simp_all add: el_dry_def\<close>)
  then have "gives (store_fits h) ?Q (evaluate h sv ax raw)"
    by (intro evaluate_gives) (auto intro: store_rules)
  from this [unfolded gives_def] assms(4,5) show ?thesis
    by (cases r) (auto dest: tripleD_val tripleD_exn)
qed

lemma sample_peers_keep: "peers_keep digit_host sample_service"
  by (auto simp: peers_keep_def sample_service_def triple_def throw_def intro!: keeps_rules)

theorem approval_needs_every_gate_witness:
  "gd_outcome sample_allowed = Allow \<and> earned False service_intent sample_allowed \<and>
   in_resource service_intent = canonicalResource service_intent"
proof -
  have "json_value sample_raw"
    by (simp add: sample_raw_def service_intent_def sample_envelope_def sample_order_def envelope_fields_def
        cex_order_fields_def opt_field_def)
  moreover have "store_fits digit_host (new_decision_store, ())"
    by (simp add: store_fits_def new_decision_store_def)
  moreover have "number_format (number_to_string digit_host)" by (simp add: unary_number_format)
  moreover have "\<not> ax_dryRun sample_context" by (simp add: sample_context_def)
  ultimately show ?thesis
    using approval_needs_every_gate [OF _ _ sample_peers_keep _ sample_evaluates] sample_frame
    by (auto simp: sample_raw_parses)
qed

subsection \<open>The audit log\<close>

text \<open>The event of a decision is in the table of the audit writer.\<close>

definition decision_logged ::
  "host \<Rightarrow> 'w audit_env \<Rightarrow> audit_context \<Rightarrow> guardrail_decision \<Rightarrow> audit_row list \<Rightarrow> bool" where
  "decision_logged h env ax d rows \<longleftrightarrow> (\<exists>ev shown. found h env ev rows \<and> ae_eventType ev = decision_type ax \<and>
     ae_correlationId ev = gd_correlationId d \<and> ae_data ev = redact_object h (decision_data d shown))"

text \<open>A computation that logs the decision it returns.\<close>

definition logs ::
  "host \<Rightarrow> 'w audit_env \<Rightarrow> audit_context \<Rightarrow> ('w audit_world service_world, guardrail_decision) eff \<Rightarrow> bool" where
  "logs h env ax m \<longleftrightarrow> (\<forall>s d t. m s = (Inr d, t) \<longrightarrow> decision_logged h env ax d (log_rows (snd t)))"

lemma logsD: "logs h env ax m \<Longrightarrow> m s = (Inr d, t) \<Longrightarrow> decision_logged h env ax d (log_rows (snd t))"
  unfolding logs_def by blast

named_theorems logs_rules \<open>computations that log what they return\<close>

lemma logs_after [logs_rules]: "(\<And>x. logs h env ax (f x)) \<Longrightarrow> logs h env ax (andthen m f)"
  unfolding logs_def by (metis andthenE)

lemma logs_throw [logs_rules]: "logs h env ax (throw e)"
  by (simp add: logs_def throw_def)

lemma logs_try_catch [logs_rules]:
  assumes "logs h env ax m" "\<And>e. logs h env ax (k e)"
  shows "logs h env ax (try_catch m k)"
  unfolding logs_def
proof (intro allI impI)
  fix s d t
  assume run: "try_catch m k s = (Inr d, t)"
  obtain r u where "m s = (r, u)" by (meson surj_pair)
  then show "decision_logged h env ax d (log_rows (snd t))"
    using run logsD [OF assms(1)] logsD [OF assms(2)] by (cases r) (simp_all add: try_catch_def)
qed

lemma logs_if [logs_rules]: "(b \<Longrightarrow> logs h env ax m) \<Longrightarrow> (\<not> b \<Longrightarrow> logs h env ax m') \<Longrightarrow> logs h env ax (if b then m else m')"
  by simp

lemma logs_cases [logs_rules]:
  "(\<And>e. r = Inl e \<Longrightarrow> logs h env ax (f e)) \<Longrightarrow> (\<And>y. r = Inr y \<Longrightarrow> logs h env ax (g y)) \<Longrightarrow>
   logs h env ax (case r of Inl e \<Rightarrow> f e | Inr y \<Rightarrow> g y)"
  "logs h env ax m \<Longrightarrow> (\<And>y. o' = Some y \<Longrightarrow> logs h env ax (k y)) \<Longrightarrow>
   logs h env ax (case o' of None \<Rightarrow> m | Some y \<Rightarrow> k y)"
  by (cases r; simp) (cases o'; simp)

text \<open>What follows the audit changes the store only.\<close>

lemma logs_then:
  assumes "logs h env ax m"
  shows "logs h env ax (andthen m (\<lambda>f. andthen (remember x f) (\<lambda>_. ret f)))"
  unfolding logs_def
proof (intro allI impI)
  fix s d t
  assume "andthen m (\<lambda>f. andthen (remember x f) (\<lambda>_. ret f)) s = (Inr d, t)"
  then obtain u where "m s = (Inr d, u)" "snd t = snd u"
    by (elim andthenE) (auto simp: remember_def on_store_def modify_state_def ret_def split: if_splits prod.splits)
  then show "decision_logged h env ax d (log_rows (snd t))"
    using assms unfolding logs_def by metis
qed

lemma logs_write:
  assumes "digests h" "sv_audit sv = audit_write h env"
    and "ae_eventType ev = decision_type ax" "ae_correlationId ev = gd_correlationId f" "\<exists>shown. ae_data ev = decision_data f shown"
  shows "logs h env ax (andthen (writeAudit h sv ev) (\<lambda>_. ret f))"
  unfolding logs_def
proof (intro allI impI)
  fix s d t
  assume "andthen (writeAudit h sv ev) (\<lambda>_. ret f) s = (Inr d, t)"
  then have w: "writeAudit h sv ev s = (Inr (), t)" and d: "d = f"
    by (auto simp: ret_def elim!: andthenE)
  obtain st M D v where s: "s = (st, M, D, v)" by (metis prod_cases4)
  obtain st' m dk v' where t: "t = (st', m, dk, v')" by (metis prod_cases4)
  let ?ev = "ev\<lparr>ae_data := redact_object h (ae_data ev)\<rparr>"
  have "audit_write h env ?ev (M, D, v) = (Inr (), (m, dk, v'))"
    using w assms(2) by (auto simp: writeAudit_def on_world_def s t split: prod.splits)
  then have "found h env ?ev (dk_rows dk)" by (rule write_found [OF assms(1)])
  then show "decision_logged h env ax d (log_rows (snd t))"
    unfolding decision_logged_def d t using assms(3-5)
    by (intro exI [of _ ?ev]) auto
qed

lemma logs_finalize:
  assumes "digests h" "sv_audit sv = audit_write h env"
  shows "logs h env ax (finalizeDecision h sv ax i d cid)" "logs h env ax (finalizeInvalidDecision h sv ax d)"
  unfolding finalizeDecision_def finalizeInvalidDecision_def Let_def
  by (cases "ax_dryRun ax"; rule logs_write [OF assms]; simp add: final_event_def service_event_def decision_data_def)+

lemma logs_evaluation:
  assumes "digests h" "sv_audit sv = audit_write h env"
  shows "logs h env (el_context x) (evaluate_intent h sv x)"
proof -
  note finalize = logs_finalize [OF assms]
  have conclude: "logs h env (el_context x) (conclude h sv x d)" for d
    unfolding conclude_def by (intro logs_then finalize)
  have policy: "logs h env (el_context x) (policy_stage h sv x v r)" for v r
    unfolding policy_stage_def decide_policy_def Let_def
    by (intro logs_rules logs_then conclude finalize)
  have risk: "logs h env (el_context x) (risk_stage h sv x v)" for v
    unfolding risk_stage_def by (intro logs_rules conclude policy)
  have "logs h env (el_context x) (assess h sv x)"
    unfolding assess_def by (intro logs_rules conclude risk)
  then show ?thesis
    unfolding evaluate_intent_def reuse_def
    by (auto split: decision_lookup.split intro!: logs_rules finalize)
qed

text \<open>C31. Every decision is in the audit log: when the service writes to the audit writer, a decision
  that \<open>evaluate\<close> returns, a denial included and outside the store or from it, has its event in the
  table of the writer, with the outcome, the reasons and the decision itself.\<close>

theorem decision_in_audit_log:
  assumes "digests h" "sv_audit sv = audit_write h env" "evaluate h sv ax raw s = (Inr d, t)"
  shows "decision_logged h env ax d (log_rows (snd t))"
proof -
  have "logs h env ax (evaluate h sv ax raw)"
    unfolding evaluate_def admit_def
    using logs_evaluation [OF assms(1,2), of "\<lparr>el_context = ax, el_intent = i, el_cid = cid, el_now = now,
      el_scope = k, el_hash = p\<rparr>" for i cid now k p]
    by (intro logs_rules logs_finalize [OF assms(1,2)]) auto
  then show ?thesis using assms(3) by (rule logsD)
qed

text \<open>A service over the writer of the samples, on an empty table, refuses a value that is no intent.\<close>

definition logged_service :: "unit audit_world service" where
  "logged_service =
     \<lparr>sv_environment = Testnet, sv_secret = replicate 32 CHR ''s'',
      sv_issues = (\<lambda>v. [(''invalid_intent'', ''Expected object.'')]), sv_base58 = (\<lambda>s. None),
      sv_now = ret 1, sv_uuid = ret ''u1'', sv_audit = audit_write chain_host sample_audit_env,
      sv_create = (\<lambda>p. throw (GenericError ''closed'')), sv_delete = (\<lambda>k. ret True), sv_healthy = ret True,
      sv_review = (\<lambda>i. throw (GenericError ''closed'')), sv_risk = (\<lambda>i v. throw (GenericError ''closed'')),
      sv_policy = (\<lambda>input. throw (GenericError ''closed'')),
      sv_await = (\<lambda>n. throw (GenericError ''nobody''))\<rparr>"

lemma first_write:
  "\<exists>m d. audit_write chain_host sample_audit_env ev (new_mem, empty_disk, ()) = (Inr (), (m, d, ()))"
  by (cases "ae_eventId ev") (simp_all add: writer_runs writer_values)

lemma logged_run:
  "\<exists>d t. evaluate chain_host logged_service sample_context JNull (new_decision_store, new_mem, empty_disk, ()) = (Inr d, t) \<and>
     gd_outcome d = Deny \<and> gd_correlationId d = ''c1''"
proof -
  let ?d = "deny_decision [] ''c1'' (iso_string chain_host 1) [(''invalid_intent'', ''Expected object.'')]"
  let ?ev = "service_event sample_context (decision_type sample_context) Testnet ''c1'' None None
    (decision_data ?d (JObj (decision_fields ?d @ dry_run_field False)))"
  obtain m d where "audit_write chain_host sample_audit_env (?ev\<lparr>ae_data := redact_object chain_host (ae_data ?ev)\<rparr>)
      (new_mem, empty_disk, ()) = (Inr (), (m, d, ()))"
    using first_write by blast
  then have "writeAudit chain_host logged_service ?ev (new_decision_store, new_mem, empty_disk, ()) =
      (Inr (), (new_decision_store, m, d, ()))"
    by (simp add: writeAudit_def on_world_def logged_service_def)
  then show ?thesis
    by (simp add: evaluate_def admit_def parse_intent_def finalizeInvalidDecision_def Let_def andthen_def on_world_def
        sample_context_def logged_service_def ret_def deny_decision_def)
qed

theorem decision_in_audit_log_witness:
  "\<exists>d t. evaluate chain_host logged_service sample_context JNull (new_decision_store, new_mem, empty_disk, ()) = (Inr d, t) \<and>
     gd_outcome d = Deny \<and> decision_logged chain_host sample_audit_env sample_context d (log_rows (snd t))"
proof -
  obtain d t where run: "evaluate chain_host logged_service sample_context JNull
      (new_decision_store, new_mem, empty_disk, ()) = (Inr d, t)" "gd_outcome d = Deny"
    using logged_run by blast
  have "sv_audit logged_service = audit_write chain_host sample_audit_env" by (simp add: logged_service_def)
  from decision_in_audit_log [OF chain_host_digests this run(1)] show ?thesis
    using run by blast
qed

subsection \<open>Replay\<close>

definition stores :: "evaluation \<Rightarrow> ('w service_world, guardrail_decision) eff \<Rightarrow> bool" where
  "stores x m \<longleftrightarrow> (\<forall>s d t. m s = (Inr d, t) \<longrightarrow> dec_entries (fst t) (el_scope x) = Some (DecComplete (el_hash x) d))"

lemma storesD: "stores x m \<Longrightarrow> m s = (Inr d, t) \<Longrightarrow> dec_entries (fst t) (el_scope x) = Some (DecComplete (el_hash x) d)"
  unfolding stores_def by blast

named_theorems stores_rules \<open>computations that store what they return\<close>

lemma stores_after [stores_rules]: "(\<And>y. stores x (f y)) \<Longrightarrow> stores x (andthen m f)"
  unfolding stores_def by (metis andthenE)

lemma stores_throw [stores_rules]: "stores x (throw e)"
  by (simp add: stores_def throw_def)

lemma stores_cases [stores_rules]:
  "(\<And>e. stores x (f e)) \<Longrightarrow> (\<And>y. stores x (g y)) \<Longrightarrow> stores x (case r of Inl e \<Rightarrow> f e | Inr y \<Rightarrow> g y)"
  "stores x m \<Longrightarrow> (\<And>y. stores x (k y)) \<Longrightarrow> stores x (case o' of None \<Rightarrow> m | Some y \<Rightarrow> k y)"
  "stores x m \<Longrightarrow> stores x m' \<Longrightarrow> stores x (if b then m else m')"
  by ((cases r; simp), (cases o'; simp), simp)

lemma stores_try_catch:
  assumes "stores x m"
  shows "stores x (try_catch m (\<lambda>e. andthen (k e) (\<lambda>_. throw e)))"
  unfolding stores_def
proof (intro allI impI)
  fix s d t
  assume run: "try_catch m (\<lambda>e. andthen (k e) (\<lambda>_. throw e)) s = (Inr d, t)"
  obtain r u where "m s = (r, u)" by (meson surj_pair)
  then show "dec_entries (fst t) (el_scope x) = Some (DecComplete (el_hash x) d)"
    using run storesD [OF assms] by (cases r) (auto simp: try_catch_def throw_def elim!: andthenE)
qed

lemma stores_remember: "\<not> el_dry x \<Longrightarrow> stores x (andthen (remember x f) (\<lambda>_. ret f))"
  by (auto simp: stores_def remember_def on_store_def modify_state_def andthen_def ret_def dec_set_def dec_settle_def Let_def
      split: option.splits decision_entry.splits)

lemma assess_stores:
  assumes "\<not> el_dry x"
  shows "stores x (assess h sv x)"
proof -
  have conclude: "stores x (conclude h sv x d)" for d
    unfolding conclude_def by (intro stores_after stores_remember assms)
  have policy: "stores x (policy_stage h sv x v r)" for v r
    unfolding policy_stage_def decide_policy_def Let_def
    by (intro stores_remember [OF assms] stores_rules conclude)
  have risk: "stores x (risk_stage h sv x v)" for v
    unfolding risk_stage_def by (intro stores_rules conclude policy)
  show ?thesis
    unfolding assess_def by (intro stores_rules conclude risk)
qed

text \<open>The first evaluation of a key stores its decision.\<close>

lemma evaluation_stored:
  assumes "\<not> el_dry x" "dec_get (el_scope x) (el_hash x) (fst s) = Absent" "evaluate_intent h sv x s = (Inr d, t)"
  shows "dec_entries (fst t) (el_scope x) = Some (DecComplete (el_hash x) d)"
proof -
  obtain st w where s: "s = (st, w)" by (meson surj_pair)
  have "andthen (on_store (dec_reserve (el_scope x) (el_hash x))) (\<lambda>_.
      try_catch (assess h sv x) (\<lambda>e. andthen (forget_pending x e) (\<lambda>_. throw e))) s = (Inr d, t)"
    using assms by (simp add: evaluate_intent_def andthen_def read_state_def s)
  then show ?thesis
    by (rule storesD [rotated]) (intro stores_after stores_try_catch assess_stores assms)
qed

text \<open>A later one finds it.\<close>

lemma evaluation_found:
  assumes "\<not> el_dry x" "dec_entries (fst s) (el_scope x) = Some (DecComplete p d0)"
    and "evaluate_intent h sv x s = (Inr d, t)"
  shows "fst t = fst s" "p = el_hash x \<Longrightarrow> \<exists>cid. d = signed_decision h sv (el_intent x) d0 cid False"
    "p \<noteq> el_hash x \<Longrightarrow> gd_outcome d = Deny"
proof -
  obtain st w where s: "s = (st, w)" by (meson surj_pair)
  let ?d = "if p = el_hash x then d0
    else denied x [(''idempotency_conflict'', ''Idempotency key reused with different payload.'')]"
  have "\<exists>cid. finalizeDecision h sv (el_context x) (el_intent x) ?d cid s = (Inr d, t)"
    using assms by (cases "p = el_hash x") (auto simp: evaluate_intent_def andthen_def read_state_def s dec_get_def reuse_def)
  then obtain cid where "finalizeDecision h sv (el_context x) (el_intent x) ?d cid s = (Inr d, t)" ..
  then have "fst t = fst s \<and> d = signed_decision h sv (el_intent x) ?d cid False"
    using assms(1)
    by (auto simp: finalizeDecision_def Let_def writeAudit_def ret_def el_dry_def dest: on_world_store elim!: andthenE)
  then show "fst t = fst s" "p = el_hash x \<Longrightarrow> \<exists>cid. d = signed_decision h sv (el_intent x) d0 cid False"
    "p \<noteq> el_hash x \<Longrightarrow> gd_outcome d = Deny"
    by (auto simp: signed_decision_def deny_decision_def)
qed

text \<open>C30. A key has one decision: the first evaluation of an idempotency key stores what it returns;
  as long as the entry is not touched, every later evaluation of the key, by any service with the
  same store, whatever its reviewer, its risk engine and its policy engine would say, leaves the
  store as it is and returns that decision, signed again, for the same payload, and a denial for
  another payload.\<close>

theorem decision_replayed:
  assumes first: "evaluate h sv ax raw s = (Inr d, t)" "parse_intent h raw = Some i" "\<not> ax_dryRun ax"
      "in_environment i = sv_environment sv" "canonicalResource i \<noteq> [] \<longrightarrow> in_resource i = canonicalResource i"
      "dec_get (idempotencyScope h i) (hashPayload h raw) (fst s) = Absent"
    and later: "evaluate h sv' ax' raw' s' = (Inr d', t')" "parse_intent h raw' = Some i'" "\<not> ax_dryRun ax'"
      "in_environment i' = sv_environment sv'" "canonicalResource i' \<noteq> [] \<longrightarrow> in_resource i' = canonicalResource i'"
      "idempotencyScope h i' = idempotencyScope h i"
      "dec_entries (fst s') (idempotencyScope h i) = dec_entries (fst t) (idempotencyScope h i)"
  shows "fst t' = fst s' \<and> (if hashPayload h raw' = hashPayload h raw
    then \<exists>cid. d' = signed_decision h sv' i' d cid False else gd_outcome d' = Deny)"
proof -
  obtain cid now u where u: "fst u = fst s" "evaluate_intent h sv \<lparr>el_context = ax, el_intent = i, el_cid = cid,
      el_now = now, el_scope = idempotencyScope h i, el_hash = hashPayload h raw\<rparr> u = (Inr d, t)"
    using evaluate_admitted [OF first(1,2,4,5)] by metis
  have entry: "dec_entries (fst s') (idempotencyScope h i) = Some (DecComplete (hashPayload h raw) d)"
    using evaluation_stored [OF _ _ u(2)] first(3,6) later(7) u(1) by (simp add: el_dry_def)
  obtain cid' now' u' where u': "fst u' = fst s'" "evaluate_intent h sv' \<lparr>el_context = ax', el_intent = i', el_cid = cid',
      el_now = now', el_scope = idempotencyScope h i', el_hash = hashPayload h raw'\<rparr> u' = (Inr d', t')"
    using evaluate_admitted [OF later(1,2,4,5)] by metis
  show ?thesis
    using evaluation_found [OF _ _ u'(2)] entry later(3,6) u'(1) by (auto simp: el_dry_def)
qed

theorem decision_replayed_witness:
  "\<exists>cid. fst (evaluate digit_host sample_service sample_context sample_raw
      (fst (snd (evaluate digit_host sample_service sample_context sample_raw (new_decision_store, ()))), ())) =
    Inr (signed_decision digit_host sample_service service_intent sample_allowed cid False)"
proof -
  let ?run = "evaluate digit_host sample_service sample_context sample_raw"
  let ?t = "dec_set (el_scope sample_evaluation) (el_hash sample_evaluation) sample_allowed
       (dec_reserve (el_scope sample_evaluation) (el_hash sample_evaluation) new_decision_store)"
  have env: "in_environment service_intent = sv_environment sample_service"
    "canonicalResource service_intent \<noteq> [] \<longrightarrow> in_resource service_intent = canonicalResource service_intent"
    "\<not> ax_dryRun sample_context"
    by (simp_all add: sample_frame sample_service_def sample_context_def)
  have free: "dec_get k p (fst (new_decision_store, ())) = Absent" for k p
    by (simp add: dec_get_def new_decision_store_def)
  obtain d' t' where again: "?run (?t, ()) = (Inr d', t')"
    using sample_replays by blast
  have "\<exists>cid. d' = signed_decision digit_host sample_service service_intent sample_allowed cid False"
    using decision_replayed [OF sample_evaluates sample_raw_parses env(3,1,2) free again sample_raw_parses env(3,1,2) refl]
    by simp
  then show ?thesis using again by (auto simp: sample_evaluates)
qed

end
