(* ===== verification/BalanceDeltas.thy ===== *)
theory BalanceDeltas
  imports GuardrailFacts
begin

text \<open>
  The comparison of simulated with expected balance changes: \<open>balance-delta.ts\<close> of
  \<open>packages/evm-connector/src\<close> and of \<open>packages/solana-connector/src\<close>, and the check of the expected
  deltas in their \<open>connector.ts\<close>. The two files differ in the name of the owner and in that Ethereum
  compares texts without regard to case, so that one definition over the chain stands for both.
  \<open>balance_deltas_passed_iff\<close> says what a comparison that passes means.
\<close>

declare map_of_append [simp del]

subsection \<open>Integers in decimal\<close>

text \<open>\<open>BigInt(s)\<close> of an integer string, and \<open>toString\<close>.\<close>

definition int_value :: "string \<Rightarrow> int" where
  "int_value s = (case s of [] \<Rightarrow> 0
     | c # cs \<Rightarrow> if c = CHR ''-'' then - int (decimal_number cs) else int (decimal_number s))"

definition int_string :: "int \<Rightarrow> string" where
  "int_string n = (if n < 0 then CHR ''-'' # decimal_string (nat (- n)) else decimal_string (nat n))"

definition parseDelta :: "jsval \<Rightarrow> int option" where
  "parseDelta v = (case v of JStr s \<Rightarrow> if integer_string s then Some (int_value s) else None | _ \<Rightarrow> None)"

lemma digit_char:
  assumes "n < 10"
  shows "is_digit (char_of (48 + n))" "code (char_of (48 + n)) = 48 + n" "char_of (48 + n) \<noteq> CHR ''-''"
proof -
  show c: "code (char_of (48 + n)) = 48 + n" using assms by simp
  then show "is_digit (char_of (48 + n))" using assms by (simp add: is_digit_def)
  show "char_of (48 + n) \<noteq> CHR ''-''"
  proof
    assume "char_of (48 + n) = CHR ''-''"
    then have "code (char_of (48 + n)) = code (CHR ''-'')" by argo
    then show False unfolding c by simp
  qed
qed

lemma decimal_string_digits:
  "decimal_string n \<noteq> [] \<and> list_all is_digit (decimal_string n) \<and> decimal_number (decimal_string n) = n"
proof (induction n rule: decimal_string.induct)
  case (1 n)
  show ?case
  proof (cases "n < 10")
    case True
    then show ?thesis
      using digit_char [OF True] by (subst (1 2 3) decimal_string.simps) (simp add: decimal_number_def)
  next
    case False
    then have ih: "list_all is_digit (decimal_string (n div 10))" "decimal_number (decimal_string (n div 10)) = n div 10"
      using 1 by simp_all
    have "decimal_string n = decimal_string (n div 10) @ [char_of (48 + n mod 10)]"
      using False by (subst decimal_string.simps) simp
    then show ?thesis
      using ih digit_char [of "n mod 10"] by (simp add: decimal_number_def)
  qed
qed

lemma parseDelta_int [simp]: "parseDelta (JStr (int_string n)) = Some n"
proof (cases "n < 0")
  case True
  then show ?thesis
    using decimal_string_digits [of "nat (- n)"]
    by (simp add: parseDelta_def int_string_def integer_string_def int_value_def)
next
  case False
  obtain c cs where s: "decimal_string (nat n) = c # cs"
    using decimal_string_digits [of "nat n"] by (cases "decimal_string (nat n)") auto
  then have c: "c \<noteq> CHR ''-''"
    using decimal_string_digits [of "nat n"] by (auto simp: is_digit_def)
  show ?thesis
    using decimal_string_digits [of "nat n"] False c
    by (simp add: parseDelta_def int_string_def integer_string_def int_value_def s)
qed

subsection \<open>The comparison\<close>

record delta_mismatch =
  dm_owner :: string
  dm_asset :: string
  dm_reason :: string

text \<open>Addresses and assets of Ethereum are compared in lower case.\<close>

fun delta_text :: "chain \<Rightarrow> string \<Rightarrow> string" where
  "delta_text Ethereum s = to_lower s"
| "delta_text Solana s = s"

fun text_of :: "jsval \<Rightarrow> string" where
  "text_of (JStr s) = s"
| "text_of _ = []"

definition is_balance_change :: "chain \<Rightarrow> jsval \<Rightarrow> bool" where
  "is_balance_change c v \<longleftrightarrow> is_string (js_get v (owner_key c)) \<and> text_of (js_get v (owner_key c)) \<noteq> [] \<and>
     is_string (js_get v ''asset'') \<and> text_of (js_get v ''asset'') \<noteq> []"

definition change_matches :: "chain \<Rightarrow> jsval \<Rightarrow> expected_delta \<Rightarrow> bool" where
  "change_matches c v d \<longleftrightarrow> delta_text c (ed_owner d) = delta_text c (text_of (js_get v (owner_key c))) \<and>
     delta_text c (ed_asset d) = delta_text c (text_of (js_get v ''asset''))"

definition change_delta :: "jsval \<Rightarrow> int option" where
  "change_delta v = parseDelta (js_get v ''delta'')"

text \<open>The first loop: a change that nobody expects.\<close>

definition unexpected_change :: "chain \<Rightarrow> expected_delta list \<Rightarrow> jsval \<Rightarrow> delta_mismatch list" where
  "unexpected_change c deltas v =
     (if \<not> is_balance_change c v
      then [\<lparr>dm_owner = [], dm_asset = [], dm_reason =
        ''Simulation balance change entries must use '' @ owner_key c @ ''-based integer entries.''\<rparr>]
      else if \<not> list_ex (change_matches c v) deltas \<and> change_delta v \<noteq> Some 0
      then [\<lparr>dm_owner = text_of (js_get v (owner_key c)), dm_asset = text_of (js_get v ''asset''),
        dm_reason = ''Simulation included an unexpected balance change.''\<rparr>]
      else [])"

text \<open>The second loop: an expected delta whose changes are missing or out of range.\<close>

definition expected_mismatch :: "chain \<Rightarrow> jsval list \<Rightarrow> expected_delta \<Rightarrow> delta_mismatch list" where
  "expected_mismatch c changes d =
     (let matching = filter (\<lambda>v. is_balance_change c v \<and> change_matches c v d) changes;
          mismatch = (\<lambda>r. [\<lparr>dm_owner = ed_owner d, dm_asset = ed_asset d, dm_reason = r\<rparr>]) in
      if matching = [] then mismatch ''Expected balance change was not present in simulation result.''
      else case (those (map change_delta matching), parseDelta (JStr (ed_minDelta d)), parseDelta (JStr (ed_maxDelta d))) of
          (Some actual, Some lo, Some hi) \<Rightarrow>
            let total = sum_list actual in
            if total < lo \<or> hi < total
            then mismatch (''Delta '' @ int_string total @ '' is outside expected range '' @ ed_minDelta d @ ''..'' @
              ed_maxDelta d @ ''.'')
            else []
        | _ \<Rightarrow> mismatch ''Balance delta values must be integer strings.'')"

definition compare_balance_deltas :: "chain \<Rightarrow> jsval list \<Rightarrow> expected_delta list \<Rightarrow> delta_mismatch list" where
  "compare_balance_deltas c changes deltas =
     concat (map (unexpected_change c deltas) changes) @ concat (map (expected_mismatch c changes) deltas)"

text \<open>The reasons; the comparison passes when there are none.\<close>

definition compareEvmBalanceDeltas :: "jsval list \<Rightarrow> expected_delta list \<Rightarrow> delta_mismatch list" where
  "compareEvmBalanceDeltas changes deltas = compare_balance_deltas Ethereum changes deltas"

definition compareSolanaBalanceDeltas :: "jsval list \<Rightarrow> expected_delta list \<Rightarrow> delta_mismatch list" where
  "compareSolanaBalanceDeltas changes deltas = compare_balance_deltas Solana changes deltas"

subsection \<open>The expected deltas of an intent\<close>

fun chain_label :: "chain \<Rightarrow> string" where
  "chain_label Ethereum = ''Ethereum''"
| "chain_label Solana = ''Solana''"

definition hasExactKeys :: "jsval \<Rightarrow> string list \<Rightarrow> bool" where
  "hasExactKeys v ks \<longleftrightarrow> length (members v) = length ks \<and> list_all (has_key v) ks"

definition is_expected_delta :: "chain \<Rightarrow> jsval \<Rightarrow> bool" where
  "is_expected_delta c v \<longleftrightarrow> hasExactKeys v (delta_keys c) \<and>
     list_all (\<lambda>k. is_string (js_get v k)) (delta_keys c) \<and>
     text_of (js_get v (owner_key c)) \<noteq> [] \<and> text_of (js_get v ''asset'') \<noteq> [] \<and>
     integer_string (text_of (js_get v ''minDelta'')) \<and> integer_string (text_of (js_get v ''maxDelta''))"

text \<open>An intent holds a list, so that \<open>must be an array\<close> is never thrown.\<close>

definition expectedDeltas :: "chain \<Rightarrow> 'a onchain_call_scheme \<Rightarrow> exn + expected_delta list" where
  "expectedDeltas c x = (case oc_expectedDeltas x of
     None \<Rightarrow> Inr []
   | Some ds \<Rightarrow>
       if \<not> list_all (\<lambda>d. is_expected_delta c (delta_json (oc_chain x) d)) ds
       then Inl (GenericError (chain_label c @ '' expected balance deltas must use '' @ owner_key c @
         ''-based integer entries.''))
       else Inr ds)"

text \<open>What a failed comparison throws.\<close>

definition deltas_failed :: "delta_mismatch list \<Rightarrow> exn" where
  "deltas_failed reasons = GenericError (''Balance delta check failed: '' @
     join ''; '' (map (\<lambda>r. dm_owner r @ '' '' @ dm_asset r @ '': '' @ dm_reason r) reasons))"

definition unreliable_changes :: exn where
  "unreliable_changes = GenericError
     ''Balance delta check failed: simulation provider did not return reliable balance changes.''"

subsection \<open>What a comparison says\<close>

text \<open>
  The simulated changes respect the expected deltas: every entry names an owner and an asset, what
  is not expected does not change, and for every expected delta the changes of its owner and asset
  are there and add up to a value in its range.
\<close>

definition deltas_respected :: "chain \<Rightarrow> jsval list \<Rightarrow> expected_delta list \<Rightarrow> bool" where
  "deltas_respected c changes deltas \<longleftrightarrow>
     (\<forall>v \<in> set changes. is_balance_change c v \<and>
        ((\<exists>d \<in> set deltas. change_matches c v d) \<or> change_delta v = Some 0)) \<and>
     (\<forall>d \<in> set deltas. \<exists>ns lo hi. ns \<noteq> [] \<and> those (map change_delta (filter (\<lambda>v. change_matches c v d) changes)) = Some ns \<and>
        parseDelta (JStr (ed_minDelta d)) = Some lo \<and> parseDelta (JStr (ed_maxDelta d)) = Some hi \<and>
        lo \<le> sum_list ns \<and> sum_list ns \<le> hi)"

lemma unexpected_change_iff:
  "unexpected_change c deltas v = [] \<longleftrightarrow>
     is_balance_change c v \<and> ((\<exists>d \<in> set deltas. change_matches c v d) \<or> change_delta v = Some 0)"
  by (auto simp: unexpected_change_def list_ex_iff)

lemma those_empty: "those xs = Some [] \<longleftrightarrow> xs = []"
  by (cases xs) (auto split: option.splits)

lemma expected_mismatch_iff:
  "expected_mismatch c changes d = [] \<longleftrightarrow>
     (\<exists>ns lo hi. ns \<noteq> [] \<and>
        those (map change_delta (filter (\<lambda>v. is_balance_change c v \<and> change_matches c v d) changes)) = Some ns \<and>
        parseDelta (JStr (ed_minDelta d)) = Some lo \<and> parseDelta (JStr (ed_maxDelta d)) = Some hi \<and>
        lo \<le> sum_list ns \<and> sum_list ns \<le> hi)"
  by (auto simp: expected_mismatch_def Let_def those_empty not_less split: option.splits)

lemma balance_deltas_passed:
  "compare_balance_deltas c changes deltas = [] \<longleftrightarrow> deltas_respected c changes deltas"
proof (cases "\<forall>v \<in> set changes. is_balance_change c v")
  case True
  then have "filter (\<lambda>v. is_balance_change c v \<and> change_matches c v d) changes =
      filter (\<lambda>v. change_matches c v d) changes" for d
    by (intro filter_cong) auto
  then show ?thesis
    by (simp add: compare_balance_deltas_def deltas_respected_def unexpected_change_iff expected_mismatch_iff)
next
  case False
  then show ?thesis
    by (auto simp: compare_balance_deltas_def deltas_respected_def unexpected_change_iff)
qed

text \<open>The deltas of a validated intent of the chain are as the connector wants them.\<close>

lemma delta_json_expected:
  "is_expected_delta c (delta_json c d) \<longleftrightarrow> delta_ok d"
  by (cases c)
    (auto simp: is_expected_delta_def delta_json_def hasExactKeys_def delta_keys_def js_get_def has_key_def delta_ok_def)

lemma expectedDeltas_ok:
  assumes "onchain_ok x" "oc_chain x = c"
  shows "expectedDeltas c x = Inr (case oc_expectedDeltas x of None \<Rightarrow> [] | Some ds \<Rightarrow> ds)"
  using assms by (auto simp: expectedDeltas_def onchain_ok_def delta_json_expected split: option.split)

end
