(* ===== verification/ConnectorRuns.thy ===== *)
theory ConnectorRuns
  imports Broker BalanceDeltas
begin

text \<open>
  What the connectors to the exchange and to the chains share: the sequencing of the actions of a
  connector (\<open>conn_run\<close> of the broker), and collaborators that leave a log beside the world, so that
  properties can speak of what was called, with what and in which order.
\<close>

declare ret_run [simp del] throw_run [simp del]

subsection \<open>Sequencing\<close>

text \<open>Awaiting a collaborator, with and without a \<open>catch\<close>.\<close>

definition conn_do :: "('w, 'a) eff \<Rightarrow> (exn + 'a \<Rightarrow> 'w conn_run) \<Rightarrow> 'w conn_run" where
  "conn_do m k = CAct (\<lambda>w. snd (m w)) (\<lambda>w. k (fst (m w)))"

definition conn_call :: "('w, 'a) eff \<Rightarrow> ('a \<Rightarrow> 'w conn_run) \<Rightarrow> 'w conn_run" where
  "conn_call m k = conn_do m (\<lambda>r. case r of Inl e \<Rightarrow> CDone (Inl e) | Inr x \<Rightarrow> k x)"

text \<open>A pure step that may throw.\<close>

definition conn_try :: "exn + 'a \<Rightarrow> ('a \<Rightarrow> 'w conn_run) \<Rightarrow> 'w conn_run" where
  "conn_try r k = (case r of Inl e \<Rightarrow> CDone (Inl e) | Inr x \<Rightarrow> k x)"

definition conn_throw :: "string \<Rightarrow> 'w conn_run" where
  "conn_throw m = CDone (Inl (GenericError m))"

lemma run_do [simp]: "run_conn check (conn_do m k) w = run_conn check (k (fst (m w))) (snd (m w))"
  by (simp add: conn_do_def)

lemma run_call [simp]:
  "run_conn check (conn_call m k) w =
     (case m w of (Inl e, t) \<Rightarrow> (Inl e, t) | (Inr x, t) \<Rightarrow> run_conn check (k x) t)"
  by (simp add: conn_call_def split: prod.split sum.split)

lemma run_try [simp]:
  "run_conn check (conn_try r k) w = (case r of Inl e \<Rightarrow> (Inl e, w) | Inr x \<Rightarrow> run_conn check (k x) w)"
  by (simp add: conn_try_def split: sum.split)

lemma run_throw [simp]: "run_conn check (conn_throw m) w = (Inl (GenericError m), w)"
  by (simp add: conn_throw_def)

lemma run_check [simp]:
  "run_conn check (after_check k) w =
     (case check w of (Inl e, t) \<Rightarrow> (Inl e, t) | (Inr _, t) \<Rightarrow> run_conn check k t)"
  by (simp add: after_check_def split: prod.split sum.split)

text \<open>The first reason of a sequence of checks, each of which may return early with one.\<close>

fun first_reason :: "string option list \<Rightarrow> string option" where
  "first_reason [] = None"
| "first_reason (None # rs) = first_reason rs"
| "first_reason (Some r # rs) = Some r"

lemma first_reason_None: "first_reason rs = None \<longleftrightarrow> (\<forall>r \<in> set rs. r = None)"
  by (induction rs rule: first_reason.induct) auto

subsection \<open>Logged collaborators\<close>

definition logged :: "(exn + 'a \<Rightarrow> 'e) \<Rightarrow> ('w, 'a) eff \<Rightarrow> ('w \<times> 'e list, 'a) eff" where
  "logged f m = (\<lambda>(w, l). case m w of (r, t) \<Rightarrow> (r, (t, l @ [f r])))"

lemma run_logged [simp]: "logged f m (w, l) = (fst (m w), (snd (m w), l @ [f (fst (m w))]))"
  by (simp add: logged_def split: prod.split)

end
