(* ===== verification/EvmConnector.thy ===== *)
theory EvmConnector
  imports ConnectorRuns
begin

text \<open>
  The Ethereum connector: \<open>decoder.ts\<close>, \<open>validation.ts\<close> and \<open>connector.ts\<close> of
  \<open>packages/evm-connector/src\<close>. The RPC provider and the signer are collaborators that act on the
  world and can throw. \<open>evm_signs_cleared\<close> says what a transaction that is signed went through.
\<close>

declare map_of_append [simp del]

subsection \<open>The configuration and the collaborators\<close>

record evm_config =
  ec_chainId :: jsnum
  ec_chainEnvironment :: chain_environment
  ec_allowedContracts :: "string list"
  ec_allowedFunctions :: "string list"
  ec_allowedTokens :: "string list"
  ec_allowedSpenders :: "string list"
  ec_allowedRecipients :: "string list option"
  ec_fromAddress :: "string option"
  ec_observedAccounts :: "string list option"

record evm_transaction =
  et_to :: string
  et_data :: "string option"
  et_value :: "string option"

record evm_request = evm_transaction +
  eq_from :: "string option"
  eq_observedAddresses :: "string list"

record evm_simulation =
  es_success :: bool
  es_gasUsed :: jsnum
  es_balanceChanges :: "jsval list"
  es_balanceChangesReliable :: bool
  es_error :: "string option"

record 'w evm_signer =
  eg_address :: string
  eg_sign :: "evm_transaction \<Rightarrow> ('w, string) eff"

record 'w evm =
  em_config :: evm_config
  em_simulate :: "evm_request \<Rightarrow> ('w, evm_simulation) eff"
  em_signer :: "'w evm_signer option"

text \<open>The constructor.\<close>

definition new_evm_connector :: "evm_config \<Rightarrow> exn + unit" where
  "new_evm_connector c =
     (let expected = (case ec_chainEnvironment c of
        Mainnet \<Rightarrow> Some (Fin 1) | Sepolia \<Rightarrow> Some (Fin 11155111) | Devnet \<Rightarrow> None) in
      if expected = None \<or> Some (ec_chainId c) \<noteq> expected
      then Inl (GenericError ''Ethereum chain ID does not match the configured network.'') else Inr ())"

subsection \<open>decoder.ts\<close>

record decoded_transaction =
  dt_to :: string
  dt_value :: string
  dt_functionSelector :: "string option"
  dt_functionName :: "string option"
  dt_isApproval :: bool
  dt_approvalAmount :: "string option"
  dt_spender :: "string option"
  dt_recipient :: "string option"
  dt_token :: "string option"

definition ERC20_TRANSFER_SELECTOR :: string where
  "ERC20_TRANSFER_SELECTOR = ''0xa9059cbb''"

definition UINT256_MAX :: string where
  "UINT256_MAX = ''0x'' @ replicate 64 CHR ''f''"

definition isAbiCallData :: "string \<Rightarrow> bool" where
  "isAbiCallData data \<longleftrightarrow> length data = 138"

definition decodeTransaction :: "string \<Rightarrow> string option \<Rightarrow> string option \<Rightarrow> decoded_transaction" where
  "decodeTransaction target data val =
     (let selector = (case data of None \<Rightarrow> None
            | Some s \<Rightarrow> if 10 \<le> length s then Some (to_lower (slice 0 10 s)) else None);
          text = (case data of None \<Rightarrow> [] | Some s \<Rightarrow> s);
          plain = \<lparr>dt_to = target, dt_value = (case val of None \<Rightarrow> ''0'' | Some v \<Rightarrow> v),
            dt_functionSelector = selector, dt_functionName = None, dt_isApproval = False, dt_approvalAmount = None,
            dt_spender = None, dt_recipient = None, dt_token = None\<rparr> in
      if selector = Some ERC20_APPROVE_SELECTOR \<and> isAbiCallData text
      then plain\<lparr>dt_functionName := Some ''approve'', dt_isApproval := True, dt_token := Some target,
        dt_spender := Some (''0x'' @ slice 34 74 text), dt_approvalAmount := Some (''0x'' @ slice 74 138 text)\<rparr>
      else if selector = Some ERC20_TRANSFER_SELECTOR \<and> isAbiCallData text
      then plain\<lparr>dt_functionName := Some ''transfer'', dt_token := Some target,
        dt_recipient := Some (''0x'' @ slice 34 74 text)\<rparr>
      else plain)"

definition isUnlimitedApproval :: "decoded_transaction \<Rightarrow> bool" where
  "isUnlimitedApproval d \<longleftrightarrow> dt_isApproval d \<and>
     (case dt_approvalAmount d of None \<Rightarrow> False | Some a \<Rightarrow> a \<noteq> [] \<and> to_lower a = UINT256_MAX)"

subsection \<open>validation.ts\<close>

text \<open>A reason, or \<open>None\<close> for valid. Addresses are compared in lower case.\<close>

definition address_in :: "string \<Rightarrow> string list \<Rightarrow> bool" where
  "address_in a listing \<longleftrightarrow> list_ex (\<lambda>b. to_lower b = to_lower a) listing"

definition validateContract :: "decoded_transaction \<Rightarrow> evm_config \<Rightarrow> string option" where
  "validateContract d c = (if address_in (dt_to d) (ec_allowedContracts c) then None
     else Some (not_listed ''Contract'' (dt_to d)))"

definition validateFunction :: "decoded_transaction \<Rightarrow> evm_config \<Rightarrow> bool \<Rightarrow> string option" where
  "validateFunction d c requireFunction =
     (case dt_functionSelector d of
        None \<Rightarrow> if requireFunction then Some ''Ethereum signing requires calldata for an allowed function.'' else None
      | Some s \<Rightarrow> (case dt_functionName d of
          None \<Rightarrow> Some (''Function '' @ s @ '' calldata is malformed.'')
        | Some f \<Rightarrow>
            if f \<in> set (ec_allowedFunctions c) then None
            else if s \<in> set (ec_allowedFunctions c) then None
            else Some (not_listed ''Function'' s)))"

definition validateToken :: "decoded_transaction \<Rightarrow> evm_config \<Rightarrow> string option" where
  "validateToken d c = (case dt_token d of None \<Rightarrow> None
     | Some t \<Rightarrow> if t = [] \<or> address_in t (ec_allowedTokens c) then None else Some (not_listed ''Token'' t))"

definition validateSpender :: "decoded_transaction \<Rightarrow> evm_config \<Rightarrow> string option" where
  "validateSpender d c = (case dt_spender d of None \<Rightarrow> None
     | Some s \<Rightarrow> if s = [] \<or> address_in s (ec_allowedSpenders c) then None else Some (not_listed ''Spender'' s))"

subsection \<open>Amounts\<close>

text \<open>
  \<open>BigInt(s)\<close> of a text: spaces around it are dropped, nothing is zero, digits may be decimal with a
  sign, hexadecimal, octal or binary; anything else throws.
\<close>

definition radix_number :: "nat \<Rightarrow> string \<Rightarrow> int option" where
  "radix_number b s = (if s \<noteq> [] \<and> list_all (\<lambda>c. is_hex c \<and> hex_value c < b) s
     then Some (int (foldl (\<lambda>n c. b * n + hex_value c) 0 s)) else None)"

definition big_int :: "string \<Rightarrow> int option" where
  "big_int text = (let s = trim text; prefix = to_lower (take 2 s) in
     if s = [] then Some 0
     else if prefix = ''0x'' then radix_number 16 (drop 2 s)
     else if prefix = ''0o'' then radix_number 8 (drop 2 s)
     else if prefix = ''0b'' then radix_number 2 (drop 2 s)
     else if take 1 s = ''-'' then map_option uminus (radix_number 10 (drop 1 s))
     else if take 1 s = ''+'' then radix_number 10 (drop 1 s)
     else radix_number 10 s)"

definition validateApprovalAmount :: "string option \<Rightarrow> trading_intent \<Rightarrow> string option" where
  "validateApprovalAmount amount i =
     (case amount of None \<Rightarrow> None
      | Some a \<Rightarrow>
          if a = [] then None
          else (case intent_approval_amount i of
              None \<Rightarrow> Some ''ERC-20 approvals require maxTokenApprovalAmount.''
            | Some m \<Rightarrow> (case (big_int a, big_int m) of
                (Some x, Some y) \<Rightarrow> if y < x then Some ''Approval amount exceeds maxTokenApprovalAmount.'' else None
              | _ \<Rightarrow> Some ''Approval amount must be an integer.'')))"

definition validateRecipient :: "evm_config \<Rightarrow> string option \<Rightarrow> onchain_call \<Rightarrow> string option" where
  "validateRecipient c recipient x =
     (case recipient of None \<Rightarrow> None
      | Some r \<Rightarrow>
          if r = [] then None
          else if oc_expectedDeltas x = None
          then Some ''ERC-20 transfer recipient requires expected deltas.''
          else if \<not> (case ec_allowedRecipients c of None \<Rightarrow> False | Some rs \<Rightarrow> address_in r rs)
          then Some (not_listed ''Transfer recipient'' r)
          else if \<not> (case expectedDeltas Ethereum x of Inl e \<Rightarrow> False | Inr ds \<Rightarrow> address_in r (map ed_owner ds))
          then Some (''Transfer recipient '' @ r @ '' is not covered by expected deltas.'')
          else None)"

subsection \<open>revalidate\<close>

text \<open>The reason of a refusal; the expected deltas are checked before they are used.\<close>

definition evm_revalidation :: "evm_config \<Rightarrow> trading_intent \<Rightarrow> string option" where
  "evm_revalidation c i =
     (case intent_call i of None \<Rightarrow> Some ''Unsupported Ethereum connector action.''
      | Some x \<Rightarrow>
          if oc_chain x \<noteq> Ethereum then Some ''Intent is not for Ethereum.''
          else if oc_chainEnvironment x \<noteq> ec_chainEnvironment c
          then Some ''Intent Ethereum environment does not match connector.''
          else if intent_action i = RequestSignature \<and> oc_chainEnvironment x = Mainnet \<and>
            in_environment i \<noteq> CanaryLive \<and> in_environment i \<noteq> Production
          then Some ''Mainnet signing requires a live environment.''
          else
            let d = decodeTransaction (oc_to x) (oc_data x) (oc_value x) in
            first_reason
              [if isUnlimitedApproval d then Some ''Unlimited token approvals are not permitted.'' else None,
               validateContract d c,
               validateFunction d c (intent_action i = RequestSignature),
               validateToken d c,
               validateSpender d c,
               (case expectedDeltas Ethereum x of
                  Inl e \<Rightarrow> Some (exn_message e)
                | Inr ds \<Rightarrow> if intent_action i = RequestSignature \<and> ds = []
                    then Some ''Ethereum expected balance deltas are required.'' else None),
               validateRecipient c (dt_recipient d) x,
               validateApprovalAmount (dt_approvalAmount d) i])"

definition evm_revalidate :: "'w evm \<Rightarrow> trading_intent \<Rightarrow> ('w, bool \<times> string option) eff" where
  "evm_revalidate v i = (case evm_revalidation (em_config v) i of
     None \<Rightarrow> ret (True, None) | Some r \<Rightarrow> ret (False, Some r))"

subsection \<open>execute\<close>

definition observedAddresses :: "evm_config \<Rightarrow> expected_delta list \<Rightarrow> string list" where
  "observedAddresses c ds = map ed_owner ds @ (case ec_observedAccounts c of None \<Rightarrow> [] | Some a \<Rightarrow> a) @
     (case ec_allowedRecipients c of None \<Rightarrow> [] | Some a \<Rightarrow> a) @ ec_allowedSpenders c"

definition assertExpectedEvmDeltas :: "evm_simulation \<Rightarrow> onchain_call \<Rightarrow> exn + unit" where
  "assertExpectedEvmDeltas r x =
     (if oc_expectedDeltas x = None then Inr ()
      else if \<not> es_balanceChangesReliable r then Inl unreliable_changes
      else (case expectedDeltas Ethereum x of Inl e \<Rightarrow> Inl e
        | Inr ds \<Rightarrow> let reasons = compareEvmBalanceDeltas (es_balanceChanges r) ds in
            if reasons \<noteq> [] then Inl (deltas_failed reasons) else Inr ()))"

text \<open>The simulation that both actions start with, and its checks.\<close>

definition evm_simulated ::
  "'w evm \<Rightarrow> onchain_call \<Rightarrow> string option \<Rightarrow> expected_delta list \<Rightarrow> 'w conn_run \<Rightarrow> 'w conn_run" where
  "evm_simulated v x sender ds k =
     conn_call (em_simulate v
       \<lparr>et_to = oc_to x, et_data = oc_data x, et_value = oc_value x, eq_from = sender,
        eq_observedAddresses = observedAddresses (em_config v) ds\<rparr>) (\<lambda>r.
     if \<not> es_success r
     then conn_throw (''Simulation failed: '' @ (case es_error r of None \<Rightarrow> ''null'' | Some m \<Rightarrow> m))
     else conn_try (assertExpectedEvmDeltas r x) (\<lambda>_. k))"

definition evm_sign :: "'w evm_signer \<Rightarrow> onchain_call \<Rightarrow> 'w conn_run" where
  "evm_sign s x = after_check (conn_call (eg_sign s \<lparr>et_to = oc_to x, et_data = oc_data x, et_value = oc_value x\<rparr>)
     (\<lambda>hash. CDone (Inr (no_evidence\<lparr>ev_transactionHash := Some hash\<rparr>))))"

definition evm_execute :: "'w evm \<Rightarrow> trading_intent \<Rightarrow> 'w conn_run" where
  "evm_execute v i =
     (case (evm_revalidation (em_config v) i, intent_call i) of
        (None, Some x) \<Rightarrow>
          if intent_action i = SimulateTransaction
          then conn_try (expectedDeltas Ethereum x) (\<lambda>ds.
            evm_simulated v x (case em_signer v of Some s \<Rightarrow> Some (eg_address s) | None \<Rightarrow> ec_fromAddress (em_config v)) ds
              (CDone (Inr (no_evidence\<lparr>ev_simulationEvidence := Some \<lparr>se_simulationId = None,
                 se_provider = ''ethereum:'' @ chain_environment_name (ec_chainEnvironment (em_config v))\<rparr>\<rparr>))))
          else (case em_signer v of
              None \<Rightarrow> conn_throw ''Signer not configured.''
            | Some s \<Rightarrow> conn_try (expectedDeltas Ethereum x) (\<lambda>ds.
                if ds = [] then conn_throw ''Ethereum expected balance deltas are required.''
                else evm_simulated v x (Some (eg_address s)) ds (evm_sign s x)))
      | (Some reason, _) \<Rightarrow> CDone (Inl (ConnectorRevalidationError reason))
      | (None, None) \<Rightarrow> conn_throw (''Ethereum connector does not execute '' @ action_name (intent_action i) @ ''.''))"

definition evm_connector :: "'w evm \<Rightarrow> 'w connector" where
  "evm_connector v = \<lparr>cn_execute = evm_execute v, cn_revalidate = evm_revalidate v\<rparr>"

subsection \<open>What is signed\<close>

text \<open>The connector over collaborators that leave a log.\<close>

datatype evm_event =
    EvmSimulated evm_request "exn + evm_simulation"
  | EvmChecked "exn + unit"
  | EvmSigned evm_transaction "exn + string"

definition logged_evm :: "'w evm \<Rightarrow> ('w \<times> evm_event list) evm" where
  "logged_evm v = \<lparr>em_config = em_config v, em_simulate = (\<lambda>q. logged (EvmSimulated q) (em_simulate v q)),
     em_signer = map_option (\<lambda>s. \<lparr>eg_address = eg_address s, eg_sign = (\<lambda>t. logged (EvmSigned t) (eg_sign s t))\<rparr>)
       (em_signer v)\<rparr>"

lemma logged_evm_simps [simp]:
  "em_config (logged_evm v) = em_config v"
  "em_simulate (logged_evm v) q = logged (EvmSimulated q) (em_simulate v q)"
  by (simp_all add: logged_evm_def)

text \<open>The two calls of a token contract that the connector lets pass.\<close>

definition erc20_approval :: "evm_config \<Rightarrow> signing_call \<Rightarrow> string \<Rightarrow> bool" where
  "erc20_approval c x data \<longleftrightarrow> to_lower (slice 0 10 data) = ERC20_APPROVE_SELECTOR \<and>
     (''approve'' \<in> set (ec_allowedFunctions c) \<or> ERC20_APPROVE_SELECTOR \<in> set (ec_allowedFunctions c)) \<and>
     address_in (''0x'' @ slice 34 74 data) (ec_allowedSpenders c) \<and>
     to_lower (''0x'' @ slice 74 138 data) \<noteq> UINT256_MAX \<and>
     (\<exists>m n y. sc_maxTokenApprovalAmount x = Some m \<and> big_int (''0x'' @ slice 74 138 data) = Some n \<and>
        big_int m = Some y \<and> n \<le> y)"

definition erc20_transfer :: "evm_config \<Rightarrow> signing_call \<Rightarrow> string \<Rightarrow> expected_delta list \<Rightarrow> bool" where
  "erc20_transfer c x data ds \<longleftrightarrow> to_lower (slice 0 10 data) = ERC20_TRANSFER_SELECTOR \<and>
     (''transfer'' \<in> set (ec_allowedFunctions c) \<or> ERC20_TRANSFER_SELECTOR \<in> set (ec_allowedFunctions c)) \<and>
     (\<exists>rs. ec_allowedRecipients c = Some rs \<and> address_in (''0x'' @ slice 34 74 data) rs) \<and>
     address_in (''0x'' @ slice 34 74 data) (map ed_owner ds)"

definition evm_cleared :: "evm_config \<Rightarrow> environment \<Rightarrow> signing_call \<Rightarrow> expected_delta list \<Rightarrow> bool" where
  "evm_cleared c envr x ds \<longleftrightarrow> oc_chain x = Ethereum \<and> oc_chainEnvironment x = ec_chainEnvironment c \<and>
     (oc_chainEnvironment x = Mainnet \<longrightarrow> envr = CanaryLive \<or> envr = Production) \<and>
     oc_expectedDeltas x = Some ds \<and> ds \<noteq> [] \<and> address_in (oc_to x) (ec_allowedContracts c) \<and>
     (oc_to x \<noteq> [] \<longrightarrow> address_in (oc_to x) (ec_allowedTokens c)) \<and>
     (\<exists>data. oc_data x = Some data \<and> length data = 138 \<and> (erc20_approval c x data \<or> erc20_transfer c x data ds))"

text \<open>A call that the decoder does not know by name is refused.\<close>

lemma decoded_function:
  assumes "dt_functionName (decodeTransaction target data val) = Some f"
  shows "\<exists>s. data = Some s \<and> length s = 138 \<and> dt_token (decodeTransaction target data val) = Some target \<and>
    (f = ''approve'' \<and> to_lower (slice 0 10 s) = ERC20_APPROVE_SELECTOR \<or>
     f = ''transfer'' \<and> to_lower (slice 0 10 s) = ERC20_TRANSFER_SELECTOR)"
  using assms
  by (auto simp: decodeTransaction_def Let_def isAbiCallData_def split: if_splits option.splits)

lemma selectors_differ: "ERC20_APPROVE_SELECTOR \<noteq> ERC20_TRANSFER_SELECTOR"
  by (simp add: ERC20_APPROVE_SELECTOR_def ERC20_TRANSFER_SELECTOR_def)

lemma expectedDeltas_value: "expectedDeltas c x = Inr ds \<Longrightarrow> ds = (case oc_expectedDeltas x of None \<Rightarrow> [] | Some es \<Rightarrow> es)"
  by (auto simp: expectedDeltas_def split: option.splits if_splits)

lemma evm_signing_revalidated:
  assumes "evm_revalidation c (OnchainSigningIntent e x) = None"
  shows "\<exists>ds. expectedDeltas Ethereum (onchain_call.truncate x) = Inr ds \<and> evm_cleared c (env_environment e) x ds"
proof -
  let ?d = "decodeTransaction (oc_to x) (oc_data x) (oc_value x)" and ?x = "onchain_call.truncate x"
  have frame: "oc_chain x = Ethereum" "oc_chainEnvironment x = ec_chainEnvironment c"
    "oc_chainEnvironment x = Mainnet \<longrightarrow> env_environment e = CanaryLive \<or> env_environment e = Production"
    and checks: "\<not> isUnlimitedApproval ?d" "validateContract ?d c = None" "validateFunction ?d c True = None"
      "validateToken ?d c = None" "validateSpender ?d c = None" "validateRecipient c (dt_recipient ?d) ?x = None"
      "validateApprovalAmount (dt_approvalAmount ?d) (OnchainSigningIntent e x) = None"
    and deltas: "\<exists>ds. expectedDeltas Ethereum ?x = Inr ds \<and> ds \<noteq> []"
    using assms
    by (auto simp: evm_revalidation_def Let_def first_reason_None onchain_call.defs split: if_splits sum.splits)
  obtain ds where ds: "expectedDeltas Ethereum ?x = Inr ds" "ds \<noteq> []" using deltas by blast
  then have some: "oc_expectedDeltas x = Some ds"
    by (auto dest!: expectedDeltas_value simp: onchain_call.defs split: option.splits)
  have to: "dt_to ?d = oc_to x" by (simp add: decodeTransaction_def Let_def)
  obtain f s where f: "dt_functionName ?d = Some f" "dt_functionSelector ?d = Some s"
    using checks(3) by (auto simp: validateFunction_def split: option.splits)
  then obtain data where data: "oc_data x = Some data" "length data = 138" "dt_token ?d = Some (oc_to x)"
    "f = ''approve'' \<and> to_lower (slice 0 10 data) = ERC20_APPROVE_SELECTOR \<or>
     f = ''transfer'' \<and> to_lower (slice 0 10 data) = ERC20_TRANSFER_SELECTOR"
    using decoded_function by blast
  have s: "s = to_lower (slice 0 10 data)"
    using f(2) data(1,2) by (auto simp: decodeTransaction_def Let_def split: if_splits)
  have allowed: "f \<in> set (ec_allowedFunctions c) \<or> s \<in> set (ec_allowedFunctions c)"
    using checks(3) f by (auto simp: validateFunction_def split: if_splits)
  from data(4) have "erc20_approval c x data \<or> erc20_transfer c x data ds"
  proof
    assume a: "f = ''approve'' \<and> to_lower (slice 0 10 data) = ERC20_APPROVE_SELECTOR"
    then have "dt_spender ?d = Some (''0x'' @ slice 34 74 data)" "dt_approvalAmount ?d = Some (''0x'' @ slice 74 138 data)"
      "dt_isApproval ?d"
      using data(1,2) by (simp_all add: decodeTransaction_def Let_def isAbiCallData_def)
    with checks(1,5,7) a allowed s show ?thesis
      by (auto simp: erc20_approval_def isUnlimitedApproval_def validateSpender_def validateApprovalAmount_def
          split: if_splits option.splits)
  next
    assume a: "f = ''transfer'' \<and> to_lower (slice 0 10 data) = ERC20_TRANSFER_SELECTOR"
    then have "dt_recipient ?d = Some (''0x'' @ slice 34 74 data)"
      using data(1,2) selectors_differ by (simp add: decodeTransaction_def Let_def isAbiCallData_def)
    with checks(6) a allowed s ds some show ?thesis
      by (auto simp: erc20_transfer_def validateRecipient_def onchain_call.defs split: if_splits option.splits)
  qed
  moreover have "address_in (oc_to x) (ec_allowedContracts c)" "oc_to x \<noteq> [] \<longrightarrow> address_in (oc_to x) (ec_allowedTokens c)"
    using checks(2,4) data(3) to by (auto simp: validateContract_def validateToken_def split: if_splits)
  ultimately show ?thesis
    using ds some frame data(1,2) by (auto simp: evm_cleared_def)
qed

lemma evm_simulated_deltas:
  assumes "assertExpectedEvmDeltas r x = Inr ()" "expectedDeltas Ethereum x = Inr ds" "ds \<noteq> []"
  shows "es_balanceChangesReliable r" "deltas_respected Ethereum (es_balanceChanges r) ds"
  using assms balance_deltas_passed [of Ethereum "es_balanceChanges r" ds]
  by (auto simp: assertExpectedEvmDeltas_def compareEvmBalanceDeltas_def Let_def dest!: expectedDeltas_value split: if_splits option.splits)

text \<open>The runs of the connector that reach the signer.\<close>

lemma evm_runs:
  assumes "run_conn (logged EvmChecked check) (evm_execute (logged_evm v) i) (w, []) = (r, (t, events))"
    and "EvmSigned tx out \<in> set events"
  shows "\<exists>e x s ds q sim. i = OnchainSigningIntent e x \<and> em_signer v = Some s \<and>
    evm_cleared (em_config v) (env_environment e) x ds \<and>
    events = [EvmSimulated q (Inr sim), EvmChecked (Inr ()), EvmSigned tx out] \<and>
    tx = \<lparr>et_to = oc_to x, et_data = oc_data x, et_value = oc_value x\<rparr> \<and> evm_transaction.truncate q = tx \<and>
    eq_from q = Some (eg_address s) \<and> es_success sim \<and> es_balanceChangesReliable sim \<and>
    deltas_respected Ethereum (es_balanceChanges sim) ds"
proof (cases i)
  case (OnchainSigningIntent e x)
  let ?x = "onchain_call.truncate x"
  show ?thesis
  proof (cases "evm_revalidation (em_config v) i")
    case None
    then obtain ds where ds: "expectedDeltas Ethereum ?x = Inr ds" "evm_cleared (em_config v) (env_environment e) x ds"
      using evm_signing_revalidated OnchainSigningIntent by blast
    then have ne: "ds \<noteq> []" by (simp add: evm_cleared_def)
    obtain s where s: "em_signer v = Some s"
      using assms None OnchainSigningIntent by (cases "em_signer v") (auto simp: evm_execute_def logged_evm_def)
    show ?thesis
      using assms None ds ne
      by (auto simp: evm_execute_def OnchainSigningIntent s logged_evm_def evm_simulated_def evm_sign_def
          onchain_call.defs evm_transaction.defs evm_simulated_deltas split: if_splits sum.splits prod.splits)
  next
    case (Some reason)
    then show ?thesis using assms by (simp add: evm_execute_def)
  qed
next
  case (OnchainSimulationIntent e x)
  then show ?thesis
    using assms
    by (auto simp: evm_execute_def logged_evm_def evm_simulated_def split: if_splits sum.splits prod.splits option.splits)
qed (use assms in \<open>auto simp: evm_execute_def split: option.splits\<close>)

text \<open>C36. A transaction is signed only when it is cleared: if the Ethereum connector calls the signer,
  the intent asks for a signature of an approval or a transfer of a token, on the network of the
  connector and, on the main network, in a live environment; contract, token, function, spender or
  recipient are allowed and an approval is within the approved amount; that very transaction was
  simulated before, successfully and with reliable balance changes that respect the expected deltas;
  and the check before the side effect came between the two. Nothing else is called.\<close>

theorem evm_signs_cleared:
  assumes "run_conn (logged EvmChecked check) (evm_execute (logged_evm v) i) (w, []) = (r, (t, events))"
    and "EvmSigned tx out \<in> set events"
  shows "\<exists>e x s ds q sim. i = OnchainSigningIntent e x \<and> em_signer v = Some s \<and>
    evm_cleared (em_config v) (env_environment e) x ds \<and>
    events = [EvmSimulated q (Inr sim), EvmChecked (Inr ()), EvmSigned tx out] \<and>
    tx = \<lparr>et_to = oc_to x, et_data = oc_data x, et_value = oc_value x\<rparr> \<and> evm_transaction.truncate q = tx \<and>
    eq_from q = Some (eg_address s) \<and> es_success sim \<and> es_balanceChangesReliable sim \<and>
    deltas_respected Ethereum (es_balanceChanges sim) ds"
  using assms by (rule evm_runs)

lemma evm_simulated_event:
  assumes "run_conn (logged EvmChecked check) (evm_execute (logged_evm v) i) (w, []) = (r, (t, events))"
    and "EvmSimulated q out \<in> set events"
  shows "\<exists>w'. fst (em_simulate v q w') = out"
  using assms
  by (auto simp: evm_execute_def evm_simulated_def evm_sign_def logged_evm_def
      split: if_splits sum.splits prod.splits option.splits)

text \<open>A transfer of nothing, on a test network.\<close>

definition null_address :: string where
  "null_address = ''0x'' @ replicate 40 CHR ''0''"

definition sample_evm_config :: evm_config where
  "sample_evm_config = \<lparr>ec_chainId = Fin 11155111, ec_chainEnvironment = Sepolia, ec_allowedContracts = [''0xt''],
     ec_allowedFunctions = [''transfer''], ec_allowedTokens = [''0xt''], ec_allowedSpenders = [],
     ec_allowedRecipients = Some [null_address], ec_fromAddress = None, ec_observedAccounts = None\<rparr>"

definition sample_transfer :: trading_intent where
  "sample_transfer = OnchainSigningIntent sample_envelope
     \<lparr>oc_chain = Ethereum, oc_chainEnvironment = Sepolia, oc_to = ''0xt'',
      oc_data = Some (ERC20_TRANSFER_SELECTOR @ replicate 128 CHR ''0''), oc_value = None, oc_programId = None,
      oc_instructions = None,
      oc_expectedDeltas = Some [\<lparr>ed_owner = null_address, ed_asset = ''T'', ed_minDelta = ''0'', ed_maxDelta = ''0''\<rparr>],
      sc_simulationId = ''s1'', sc_maxTokenApprovalAmount = None\<rparr>"

definition sample_evm :: "unit evm" where
  "sample_evm = \<lparr>em_config = sample_evm_config,
     em_simulate = (\<lambda>q. ret \<lparr>es_success = True, es_gasUsed = Fin 1, es_balanceChanges =
       [JObj [(''address'', JStr null_address), (''asset'', JStr ''T''), (''delta'', JStr ''0'')]],
       es_balanceChangesReliable = True, es_error = None\<rparr>),
     em_signer = Some \<lparr>eg_address = ''0xs'', eg_sign = (\<lambda>t. ret ''0xh'')\<rparr>\<rparr>"

lemma sample_transfer_data:
  "slice 0 10 (ERC20_TRANSFER_SELECTOR @ replicate 128 CHR ''0'') = ERC20_TRANSFER_SELECTOR"
  "''0x'' @ slice 34 74 (ERC20_TRANSFER_SELECTOR @ replicate 128 CHR ''0'') = null_address"
  "to_lower ERC20_TRANSFER_SELECTOR = ERC20_TRANSFER_SELECTOR" "length ERC20_TRANSFER_SELECTOR = 10"
  by (simp_all add: slice_def ERC20_TRANSFER_SELECTOR_def null_address_def to_lower_def lower_char_def)

lemma sample_transfer_decoded:
  "decodeTransaction target (Some (ERC20_TRANSFER_SELECTOR @ replicate 128 CHR ''0'')) None =
     \<lparr>dt_to = target, dt_value = ''0'', dt_functionSelector = Some ERC20_TRANSFER_SELECTOR, dt_functionName = Some ''transfer'',
      dt_isApproval = False, dt_approvalAmount = None, dt_spender = None, dt_recipient = Some null_address, dt_token = Some target\<rparr>"
  using selectors_differ sample_transfer_data by (simp add: decodeTransaction_def Let_def isAbiCallData_def)

lemma sample_deltas:
  "is_expected_delta Ethereum (delta_json Ethereum \<lparr>ed_owner = null_address, ed_asset = ''T'', ed_minDelta = ''0'', ed_maxDelta = ''0''\<rparr>)"
  unfolding delta_json_expected by (simp add: delta_ok_def null_address_def integer_string_def is_digit_def)

lemma sample_evm_run:
  "\<exists>r q sim. run_conn (logged EvmChecked (ret ())) (evm_execute (logged_evm sample_evm) sample_transfer) ((), []) =
     (r, ((), [EvmSimulated q (Inr sim), EvmChecked (Inr ()),
       EvmSigned \<lparr>et_to = ''0xt'', et_data = Some (ERC20_TRANSFER_SELECTOR @ replicate 128 CHR ''0''), et_value = None\<rparr> (Inr ''0xh'')]))"
  by (simp add: evm_execute_def evm_revalidation_def sample_transfer_def sample_transfer_decoded onchain_call.defs
      sample_evm_def sample_evm_config_def logged_evm_def expectedDeltas_def sample_deltas Let_def isUnlimitedApproval_def
      validateContract_def validateFunction_def validateToken_def validateSpender_def validateRecipient_def
      validateApprovalAmount_def address_in_def evm_simulated_def evm_sign_def ret_def assertExpectedEvmDeltas_def
      compareEvmBalanceDeltas_def compare_balance_deltas_def unexpected_change_def expected_mismatch_def
      is_balance_change_def change_matches_def change_delta_def js_get_def parseDelta_def integer_string_def is_digit_def
      int_value_def decimal_number_def) (simp add: null_address_def)

theorem evm_signs_cleared_witness:
  "evm_cleared sample_evm_config (in_environment sample_transfer) (case sample_transfer of OnchainSigningIntent e x \<Rightarrow> x)
     [\<lparr>ed_owner = null_address, ed_asset = ''T'', ed_minDelta = ''0'', ed_maxDelta = ''0''\<rparr>]"
proof -
  obtain r q sim where run: "run_conn (logged EvmChecked (ret ())) (evm_execute (logged_evm sample_evm) sample_transfer) ((), []) =
     (r, ((), [EvmSimulated q (Inr sim), EvmChecked (Inr ()),
       EvmSigned \<lparr>et_to = ''0xt'', et_data = Some (ERC20_TRANSFER_SELECTOR @ replicate 128 CHR ''0''), et_value = None\<rparr> (Inr ''0xh'')]))"
    using sample_evm_run by blast
  have "em_config sample_evm = sample_evm_config" by (simp add: sample_evm_def)
  with evm_signs_cleared [OF run] show ?thesis
    by (auto simp: sample_transfer_def evm_cleared_def)
qed

end
