(* ===== verification/EvmTrace.thy ===== *)
theory EvmTrace
  imports EvmConnector
begin

text \<open>
  The balance changes of a traced Ethereum call: \<open>packages/evm-connector/src/trace-balances.ts\<close>. The
  state before and after, as a \<open>prestateTracer\<close> reports it, is compared account by account: native
  balances, contract code and storage. A change of storage must lie in a slot that the layout of a
  configured token explains. The addresses and the hash of the \<open>viem\<close> package are parameters.
  \<open>trace_accounts_for_changes\<close> says that nothing in the trace goes unaccounted for.
\<close>

declare map_of_append [simp del]

subsection \<open>Parameters and configuration\<close>

text \<open>
  \<open>isAddress\<close> (not strict), \<open>getAddress\<close>, the hash of the ABI encoding of an address and a 256-bit
  integer, and \<open>toHex\<close> with its size.
\<close>

record viem =
  vi_isAddress :: "string \<Rightarrow> bool"
  vi_getAddress :: "string \<Rightarrow> exn + string"
  vi_keccak :: "string \<Rightarrow> int \<Rightarrow> string"
  vi_toHex :: "nat option \<Rightarrow> int \<Rightarrow> exn + string"

text \<open>\<open>bigint | number | string\<close>\<close>

datatype slot_value = SlotBig int | SlotNum jsnum | SlotText string

text \<open>A slot that is missing and one that is \<open>null\<close> are treated alike.\<close>

record erc20_token =
  tk_address :: string
  tk_asset :: string
  tk_balanceSlot :: "slot_value option"
  tk_allowanceSlot :: "slot_value option"
  tk_totalSupplySlot :: "slot_value option"

definition NATIVE_ASSET :: string where
  "NATIVE_ASSET = ''ETH''"

subsection \<open>Maps and loops\<close>

text \<open>\<open>Map.prototype.set\<close>: an existing key keeps its place.\<close>

fun map_set :: "'k \<Rightarrow> 'v \<Rightarrow> ('k \<times> 'v) list \<Rightarrow> ('k \<times> 'v) list" where
  "map_set k v [] = [(k, v)]"
| "map_set k v ((a, b) # m) = (if a = k then (k, v) # m else (a, b) # map_set k v m)"

lemma map_of_set [simp]: "map_of (map_set k v m) = (map_of m)(k \<mapsto> v)"
  by (induction k v m rule: map_set.induct) auto

lemma keys_set [simp]: "fst ` set (map_set k v m) = insert k (fst ` set m)"
  by (induction k v m rule: map_set.induct) auto

lemma distinct_set: "distinct (map fst m) \<Longrightarrow> distinct (map fst (map_set k v m))"
  by (induction k v m rule: map_set.induct) auto

text \<open>A loop over a list that an iteration may leave with an error.\<close>

fun fold_try :: "('s \<Rightarrow> 'a \<Rightarrow> 'e + 's) \<Rightarrow> 's \<Rightarrow> 'a list \<Rightarrow> 'e + 's" where
  "fold_try f s [] = Inr s"
| "fold_try f s (x # xs) = (case f s x of Inl e \<Rightarrow> Inl e | Inr t \<Rightarrow> fold_try f t xs)"

lemma fold_try_invariant:
  assumes "fold_try f s xs = Inr t" "P s" "\<And>s x t. x \<in> set xs \<Longrightarrow> f s x = Inr t \<Longrightarrow> P s \<Longrightarrow> P t"
  shows "P t"
  using assms by (induction f s xs rule: fold_try.induct) (auto split: sum.splits)

text \<open>\<open>[...new Set(xs)]\<close>: the first occurrence of each.\<close>

definition remdups_keys :: "'a list \<Rightarrow> 'a list" where
  "remdups_keys xs = rev (remdups (rev xs))"

lemma remdups_keys_simps [simp]: "set (remdups_keys xs) = set xs" "distinct (remdups_keys xs)"
  by (simp_all add: remdups_keys_def)

text \<open>Every element had its iteration.\<close>

lemma fold_try_step: "fold_try f s xs = Inr t \<Longrightarrow> x \<in> set xs \<Longrightarrow> \<exists>u u'. f u x = Inr u'"
  by (induction f s xs rule: fold_try.induct) (auto split: sum.splits)

subsection \<open>Quantities, addresses and slots\<close>

definition uint256 :: "int \<Rightarrow> int option" where
  "uint256 n = (if 0 \<le> n \<and> n < 2 ^ 256 then Some n else None)"

text \<open>\<open>/^0x[0-9a-fA-F]+$/\<close>, and that or \<open>\d+\<close>\<close>

definition hex_text :: "string \<Rightarrow> bool" where
  "hex_text s \<longleftrightarrow> take 2 s = ''0x'' \<and> drop 2 s \<noteq> [] \<and> list_all is_hex (drop 2 s)"

definition quantity_text :: "string \<Rightarrow> bool" where
  "quantity_text s \<longleftrightarrow> hex_text s \<or> s \<noteq> [] \<and> list_all is_digit s"

fun parseQuantity :: "jsval \<Rightarrow> int option" where
  "parseQuantity (JNum (Fin r)) = (if safe_integer (Fin r) \<and> 0 \<le> r then uint256 \<lfloor>r\<rfloor> else None)"
| "parseQuantity (JStr s) = (if quantity_text s then Option.bind (big_int s) uint256 else None)"
| "parseQuantity _ = None"

fun slot_quantity :: "slot_value \<Rightarrow> int option" where
  "slot_quantity (SlotBig n) = uint256 n"
| "slot_quantity (SlotNum x) = parseQuantity (JNum x)"
| "slot_quantity (SlotText s) = parseQuantity (JStr s)"

text \<open>\<open>None\<close> where the result is \<open>null\<close>; the callers treat an empty address like it.\<close>

definition normalizeAddress :: "viem \<Rightarrow> string \<Rightarrow> string option" where
  "normalizeAddress v a = (if \<not> vi_isAddress v a then None
     else case vi_getAddress v a of Inl _ \<Rightarrow> None | Inr b \<Rightarrow> Some (to_lower b))"

definition proper_address :: "viem \<Rightarrow> string \<Rightarrow> string option" where
  "proper_address v a = (if normalizeAddress v a = Some [] then None else normalizeAddress v a)"

definition normalizeSlot :: "string \<Rightarrow> string option" where
  "normalizeSlot s = (if \<not> hex_text s then None
     else let hex = to_lower (drop 2 s) in
       if 64 < length hex then None else Some (''0x'' @ replicate (64 - length hex) CHR ''0'' @ hex))"

fun hex_string :: "nat \<Rightarrow> string" where
  "hex_string n = (let c = char_of (if n mod 16 < 10 then 48 + n mod 16 else 87 + n mod 16) in
     if n < 16 then [c] else hex_string (n div 16) @ [c])"

definition toHexQuantity :: "int \<Rightarrow> string" where
  "toHexQuantity n = ''0x'' @ hex_string (nat n)"

definition parseSlotIndex :: "slot_value \<Rightarrow> exn + int" where
  "parseSlotIndex s = (case slot_quantity s of
     None \<Rightarrow> Inl (GenericError ''ERC-20 mapping slot must be an exact uint256 integer.'') | Some n \<Rightarrow> Inr n)"

definition mappingSlot :: "viem \<Rightarrow> string \<Rightarrow> int \<Rightarrow> string" where
  "mappingSlot v key slot = vi_keccak v key slot"

definition erc20BalanceSlot :: "viem \<Rightarrow> string \<Rightarrow> int \<Rightarrow> exn + string" where
  "erc20BalanceSlot v account slot = map_sum id (\<lambda>a. mappingSlot v a slot) (vi_getAddress v account)"

definition erc20AllowanceSlot :: "viem \<Rightarrow> string \<Rightarrow> string \<Rightarrow> int \<Rightarrow> exn + string" where
  "erc20AllowanceSlot v owner spender slot =
     (case vi_getAddress v owner of Inl e \<Rightarrow> Inl e
      | Inr a \<Rightarrow> (case vi_getAddress v spender of Inl e \<Rightarrow> Inl e
        | Inr b \<Rightarrow> (case big_int (mappingSlot v a slot) of
            None \<Rightarrow> Inl (GenericError (''Cannot convert '' @ mappingSlot v a slot @ '' to a BigInt''))
          | Some inner \<Rightarrow> Inr (mappingSlot v b inner))))"

subsection \<open>The layout of the tokens\<close>

datatype classified_slot = BalanceSlot string string | AllowanceSlot | SupplySlot

type_synonym slot_map = "(string \<times> classified_slot) list"

definition put_slot :: "slot_map \<Rightarrow> (exn + string) \<times> classified_slot \<Rightarrow> exn + slot_map" where
  "put_slot slots p = map_sum id (\<lambda>s. map_set s (snd p) slots) (fst p)"

text \<open>\<open>undefined\<close>, \<open>null\<close> and the empty text are no slot.\<close>

definition given_slot :: "slot_value option \<Rightarrow> slot_value option" where
  "given_slot s = (if s = Some (SlotText []) then None else s)"

definition supply_slot :: "erc20_token \<Rightarrow> slot_map \<Rightarrow> slot_value \<Rightarrow> exn + slot_map" where
  "supply_slot t slots s = (case parseSlotIndex s of Inl e \<Rightarrow> Inl e
     | Inr n \<Rightarrow> (case normalizeSlot (toHexQuantity n) of
         None \<Rightarrow> Inl (GenericError (''ERC-20 token '' @ tk_address t @ '' has an invalid totalSupplySlot.''))
       | Some slot \<Rightarrow> if slot \<in> fst ` set slots then Inl (GenericError ''ERC-20 storage layout slots overlap.'')
           else Inr (map_set slot SupplySlot slots)))"

definition allowance_slots :: "viem \<Rightarrow> string list \<Rightarrow> slot_map \<Rightarrow> slot_value \<Rightarrow> exn + slot_map" where
  "allowance_slots v observed slots s = (case parseSlotIndex s of Inl e \<Rightarrow> Inl e
     | Inr n \<Rightarrow> fold_try put_slot slots
         (map (\<lambda>(owner, spender). (erc20AllowanceSlot v owner spender n, AllowanceSlot)) (List.product observed observed)))"

definition balance_slots :: "viem \<Rightarrow> erc20_token \<Rightarrow> string list \<Rightarrow> slot_value \<Rightarrow> exn + slot_map" where
  "balance_slots v t observed s = (case parseSlotIndex s of Inl e \<Rightarrow> Inl e
     | Inr n \<Rightarrow> fold_try put_slot []
         (map (\<lambda>a. (erc20BalanceSlot v a n, BalanceSlot (tk_asset t) a)) observed))"

definition token_slots :: "viem \<Rightarrow> erc20_token \<Rightarrow> string list \<Rightarrow> slot_value \<Rightarrow> exn + slot_map" where
  "token_slots v t observed s =
     (case balance_slots v t observed s of Inl e \<Rightarrow> Inl e
      | Inr b \<Rightarrow> (case (case given_slot (tk_allowanceSlot t) of None \<Rightarrow> Inr b | Some a \<Rightarrow> allowance_slots v observed b a) of
          Inl e \<Rightarrow> Inl e
        | Inr c \<Rightarrow> (case given_slot (tk_totalSupplySlot t) of None \<Rightarrow> Inr c | Some n \<Rightarrow> supply_slot t c n)))"

type_synonym slot_index = "(string \<times> slot_map) list"

text \<open>The index so far, with the assets seen, in lower case.\<close>

definition index_token ::
  "viem \<Rightarrow> string list \<Rightarrow> slot_index \<times> string list \<Rightarrow> erc20_token \<Rightarrow> exn + slot_index \<times> string list" where
  "index_token v observed s t = (case s of (index, assets) \<Rightarrow>
     (case proper_address v (tk_address t) of
        None \<Rightarrow> Inl (GenericError (''ERC-20 token address '' @ tk_address t @ '' is not a valid Ethereum address.''))
      | Some a \<Rightarrow>
          if a \<in> fst ` set index \<or> tk_asset t = [] \<or> to_lower (tk_asset t) \<in> set assets
          then Inl (GenericError ''ERC-20 token addresses and asset identifiers must be unique.'')
          else (case given_slot (tk_balanceSlot t) of
              None \<Rightarrow> Inl (GenericError (''ERC-20 token '' @ tk_address t @ '' is missing required balanceSlot.''))
            | Some n \<Rightarrow> (case token_slots v t observed n of Inl e \<Rightarrow> Inl e
                | Inr slots \<Rightarrow> Inr (map_set a slots index, to_lower (tk_asset t) # assets)))))"

definition buildSlotIndex :: "viem \<Rightarrow> erc20_token list \<Rightarrow> string list \<Rightarrow> exn + slot_index" where
  "buildSlotIndex v tokens observed =
     map_sum id fst (fold_try (index_token v observed) ([], [to_lower NATIVE_ASSET]) tokens)"

text \<open>The checks of the tokens once more, and the addresses that pass.\<close>

definition token_addresses :: "viem \<Rightarrow> string list \<Rightarrow> erc20_token \<Rightarrow> string + string list" where
  "token_addresses v seen t =
     (case proper_address v (tk_address t) of
        None \<Rightarrow> Inl (''ERC-20 token address '' @ tk_address t @ '' is not a valid Ethereum address.'')
      | Some a \<Rightarrow>
          if tk_asset t = [] then Inl ''ERC-20 token asset identifiers are required.''
          else if given_slot (tk_balanceSlot t) = None
          then Inl (''ERC-20 token '' @ tk_address t @ '' is missing required balanceSlot.'')
          else Inr (a # seen))"

subsection \<open>Accounts\<close>

fun isAccountMap :: "jsval \<Rightarrow> bool" where
  "isAccountMap (JObj kvs) = True"
| "isAccountMap _ = False"

definition asAccount :: "jsval \<Rightarrow> jsval option" where
  "asAccount v = (if isAccountMap v then Some v else None)"

text \<open>\<open>account?.member\<close>\<close>

definition member_of :: "jsval option \<Rightarrow> string \<Rightarrow> jsval" where
  "member_of account k = (case account of None \<Rightarrow> JUndef | Some a \<Rightarrow> js_get a k)"

text \<open>
  The change of the native balance, with the balance before. The source puts the address into the
  place \<open>$address\<close> of a reason afterwards.
\<close>

definition not_a_quantity :: "string \<Rightarrow> string" where
  "not_a_quantity a = ''Native balance for '' @ a @ '' is not an integer quantity.''"

definition missing_balance :: "string \<Rightarrow> string" where
  "missing_balance a = ''Native balance for '' @ a @ '' is missing from the pre-state diff.''"

definition nativeDelta :: "string \<Rightarrow> jsval option \<Rightarrow> jsval option \<Rightarrow> bool \<Rightarrow> bool \<Rightarrow> string + int \<times> int" where
  "nativeDelta a pre post created destroyed =
     (let before = member_of pre ''balance''; after = member_of post ''balance'' in
      if created
      then (case (if after \<noteq> JUndef then parseQuantity after else Some 0) of
          None \<Rightarrow> Inl (not_a_quantity a) | Some n \<Rightarrow> Inr (n, 0))
      else if before = JUndef then Inl (missing_balance a)
      else (case parseQuantity before of None \<Rightarrow> Inl (not_a_quantity a)
        | Some b \<Rightarrow>
            if destroyed then Inr (- b, b)
            else if after = JUndef then Inr (0, b)
            else (case parseQuantity after of None \<Rightarrow> Inl (not_a_quantity a) | Some n \<Rightarrow> Inr (n - b, b))))"

text \<open>\<open>/^0x(?:[0-9a-fA-F]{2})*$/\<close>\<close>

fun parseCode :: "jsval \<Rightarrow> string option" where
  "parseCode JUndef = Some ''0x''"
| "parseCode (JStr s) = (if take 2 s = ''0x'' \<and> list_all is_hex (drop 2 s) \<and> even (length s) then Some (to_lower s) else None)"
| "parseCode _ = None"

text \<open>The reason against a change of code, \<open>None\<close> when there is none.\<close>

definition malformed_code :: "string \<Rightarrow> string" where
  "malformed_code a = ''Contract code for '' @ a @ '' is malformed.''"

definition changed_code :: "string \<Rightarrow> string" where
  "changed_code a = ''Contract code changed for '' @ a @ ''.''"

definition codeDelta :: "string \<Rightarrow> jsval option \<Rightarrow> jsval option \<Rightarrow> bool \<Rightarrow> bool \<Rightarrow> string option" where
  "codeDelta a pre post created destroyed =
     (let before = member_of pre ''code''; after = member_of post ''code'' in
      if parseCode before = None \<or> parseCode after = None then Some (malformed_code a)
      else if created
      then (if parseCode after \<noteq> Some ''0x'' then Some (''Simulation created contract code for '' @ a @ ''.'') else None)
      else if destroyed then (if parseCode before \<noteq> Some ''0x'' then Some (changed_code a) else None)
      else if after = JUndef then None
      else if before = JUndef
      then Some (''Contract code for '' @ a @ '' is inconsistently present in the pre/post diff.'')
      else if parseCode before \<noteq> parseCode after then Some (changed_code a)
      else None)"

subsection \<open>Storage\<close>

definition storage_entry :: "(string \<times> int) list \<Rightarrow> string \<times> jsval \<Rightarrow> string + (string \<times> int) list" where
  "storage_entry m e = (case (normalizeSlot (fst e), parseQuantity (snd e)) of
     (Some slot, Some n) \<Rightarrow>
       if slot \<in> fst ` set m then Inl (''Trace storage slot '' @ fst e @ '' is malformed.'') else Inr (map_set slot n m)
   | _ \<Rightarrow> Inl (''Trace storage slot '' @ fst e @ '' is malformed.''))"

fun parseStorageMap :: "jsval \<Rightarrow> string + (string \<times> int) list" where
  "parseStorageMap JUndef = Inr []"
| "parseStorageMap (JObj kvs) = fold_try storage_entry [] kvs"
| "parseStorageMap _ = Inl ''Trace storage map is malformed.''"

record slot_change =
  sc_slot :: string
  sc_pre :: int
  sc_delta :: int

text \<open>The three loops of \<open>diffStorage\<close>.\<close>

definition cleared_slots :: "(string \<times> int) list \<Rightarrow> slot_change list" where
  "cleared_slots pre = [\<lparr>sc_slot = fst e, sc_pre = snd e, sc_delta = - snd e\<rparr>. e \<leftarrow> pre, snd e \<noteq> 0]"

definition slot_before :: "(string \<times> int) list \<Rightarrow> string \<Rightarrow> int" where
  "slot_before m slot = (case map_of m slot of None \<Rightarrow> 0 | Some n \<Rightarrow> n)"

definition written_slots :: "(string \<times> int) list \<Rightarrow> (string \<times> int) list \<Rightarrow> slot_change list" where
  "written_slots pre post = [\<lparr>sc_slot = fst e, sc_pre = slot_before pre (fst e), sc_delta = snd e - slot_before pre (fst e)\<rparr>.
     e \<leftarrow> post, slot_before pre (fst e) \<noteq> snd e]"

definition diffStorage :: "jsval \<Rightarrow> jsval \<Rightarrow> bool \<Rightarrow> string + slot_change list" where
  "diffStorage preStorage postStorage destroyed =
     (case parseStorageMap preStorage of Inl r \<Rightarrow> Inl r
      | Inr pre \<Rightarrow>
          if destroyed then Inr (cleared_slots pre)
          else (case parseStorageMap postStorage of Inl r \<Rightarrow> Inl r
            | Inr post \<Rightarrow> Inr (written_slots pre post @ cleared_slots (filter (\<lambda>e. fst e \<notin> fst ` set post) pre))))"

subsection \<open>The extraction\<close>

record token_probe =
  tp_token :: string
  tp_account :: string
  tp_preBalance :: int

text \<open>
  The maps and lists of the loop. The key of a token delta is its account and asset, joined by a colon
  in the source; an address has none. The source remembers apart which probes were noted.
\<close>

record trace_state =
  ts_eth :: "(string \<times> int) list"
  ts_token :: "((string \<times> string) \<times> int) list"
  ts_probes :: "token_probe list"
  ts_nativeProbes :: "(string \<times> int) list"

definition add_delta :: "'k \<Rightarrow> int \<Rightarrow> ('k \<times> int) list \<Rightarrow> ('k \<times> int) list" where
  "add_delta k n m = map_set k ((case map_of m k of None \<Rightarrow> 0 | Some d \<Rightarrow> d) + n) m"

definition note_slot ::
  "string \<Rightarrow> slot_map option \<Rightarrow> string list \<Rightarrow> trace_state \<Rightarrow> slot_change \<Rightarrow> string + trace_state" where
  "note_slot address slots observed st c =
     (if sc_delta c = 0 then Inr st
      else case Option.bind slots (\<lambda>m. map_of m (sc_slot c)) of
        None \<Rightarrow> Inl (''Unclassified storage slot '' @ sc_slot c @ '' changed on '' @ address @ ''.'')
      | Some (BalanceSlot asset account) \<Rightarrow>
          if account \<notin> set observed
          then Inl (''Token balance slot for unobserved account '' @ account @ '' changed.'')
          else Inr (st\<lparr>ts_token := add_delta (account, asset) (sc_delta c) (ts_token st),
            ts_probes := (if \<exists>p \<in> set (ts_probes st). tp_token p = address \<and> tp_account p = account then ts_probes st
              else ts_probes st @ [\<lparr>tp_token = address, tp_account = account, tp_preBalance = sc_pre c\<rparr>])\<rparr>)
      | Some _ \<Rightarrow> Inr st)"

definition note_native :: "string \<Rightarrow> int \<times> int \<Rightarrow> trace_state \<Rightarrow> trace_state" where
  "note_native address p st = st\<lparr>ts_eth := add_delta address (fst p) (ts_eth st),
     ts_nativeProbes := (if address \<in> fst ` set (ts_nativeProbes st) then ts_nativeProbes st
       else ts_nativeProbes st @ [(address, snd p)])\<rparr>"

record trace_context =
  tc_viem :: viem
  tc_pre :: jsval
  tc_post :: jsval
  tc_index :: slot_index
  tc_tokens :: "string list"
  tc_observed :: "string list"

definition trace_account :: "trace_context \<Rightarrow> trace_state \<Rightarrow> string \<Rightarrow> string + trace_state" where
  "trace_account c st raw =
     (case proper_address (tc_viem c) raw of
        None \<Rightarrow> Inl (''Trace account '' @ raw @ '' is not a valid Ethereum address.'')
      | Some address \<Rightarrow>
          let before = js_get (tc_pre c) raw; after = js_get (tc_post c) raw;
              pre = asAccount before; post = asAccount after;
              created = (pre = None \<and> post \<noteq> None); destroyed = (pre \<noteq> None \<and> post = None) in
          if before \<noteq> JUndef \<and> pre = None then Inl (''Trace pre-state for '' @ address @ '' is malformed.'')
          else if after \<noteq> JUndef \<and> post = None then Inl (''Trace post-state for '' @ address @ '' is malformed.'')
          else (case nativeDelta address pre post created destroyed of Inl r \<Rightarrow> Inl r
            | Inr native \<Rightarrow> (case codeDelta address pre post created destroyed of Some r \<Rightarrow> Inl r
              | None \<Rightarrow> (case diffStorage (member_of pre ''storage'') (member_of post ''storage'') destroyed of Inl r \<Rightarrow> Inl r
                | Inr changes \<Rightarrow> fold_try
                    (note_slot address (if address \<in> set (tc_tokens c) then map_of (tc_index c) address else None) (tc_observed c))
                    (note_native address native st) changes))))"

text \<open>A balance change: its address, its asset and its delta, which the source prints and reads back.\<close>

type_synonym balance_entry = "string \<times> string \<times> int"

definition change_before :: "host \<Rightarrow> balance_entry \<Rightarrow> balance_entry \<Rightarrow> bool" where
  "change_before h x y = (let order = locale_compare h (fst x) (fst y) in
     (if order \<noteq> 0 then order else locale_compare h (fst (snd x)) (fst (snd y))) \<le> 0)"

fun insert_change :: "('a \<Rightarrow> 'a \<Rightarrow> bool) \<Rightarrow> 'a \<Rightarrow> 'a list \<Rightarrow> 'a list" where
  "insert_change le x [] = [x]"
| "insert_change le x (y # ys) = (if le x y then x # y # ys else y # insert_change le x ys)"

definition balance_entries :: "trace_state \<Rightarrow> balance_entry list" where
  "balance_entries st = map (\<lambda>(a, n). (a, NATIVE_ASSET, n)) (ts_eth st) @
     map (\<lambda>e. (fst (fst e), snd (fst e), snd e)) (filter (\<lambda>e. snd e \<noteq> 0) (ts_token st))"

record extraction =
  xt_changes :: "balance_entry list"
  xt_probes :: "token_probe list"
  xt_nativeProbes :: "(string \<times> int) list"

definition observe_address :: "viem \<Rightarrow> string list \<Rightarrow> string \<Rightarrow> string + string list" where
  "observe_address v seen a = (case proper_address v a of
     None \<Rightarrow> Inl (''Observed address '' @ a @ '' is not a valid Ethereum address.'')
   | Some n \<Rightarrow> Inr (if n \<in> set seen then seen else seen @ [n]))"

definition classifyAndExtract ::
  "host \<Rightarrow> viem \<Rightarrow> jsval \<Rightarrow> jsval \<Rightarrow> erc20_token list \<Rightarrow> string list \<Rightarrow> string + extraction" where
  "classifyAndExtract h v pre post tokens addresses =
     (if \<not> isAccountMap pre \<or> \<not> isAccountMap post
      then Inl ''debug_traceCall prestateTracer diff is missing pre/post account maps.''
      else case fold_try (observe_address v) [] addresses of Inl r \<Rightarrow> Inl r
      | Inr observed \<Rightarrow> (case buildSlotIndex v tokens observed of Inl e \<Rightarrow> Inl (exn_message e)
        | Inr index \<Rightarrow> (case fold_try (token_addresses v) [] tokens of Inl r \<Rightarrow> Inl r
          | Inr known \<Rightarrow> map_sum id
              (\<lambda>st. \<lparr>xt_changes = foldr (insert_change (change_before h)) (balance_entries st) [],
                 xt_probes = ts_probes st, xt_nativeProbes = ts_nativeProbes st\<rparr>)
              (fold_try (trace_account \<lparr>tc_viem = v, tc_pre = pre, tc_post = post, tc_index = index,
                   tc_tokens = known, tc_observed = observed\<rparr>)
                 \<lparr>ts_eth = [], ts_token = [], ts_probes = [], ts_nativeProbes = []\<rparr>
                 (remdups_keys (map fst (members pre) @ map fst (members post)))))))"

definition isPrestateDiff :: "jsval \<Rightarrow> bool" where
  "isPrestateDiff v \<longleftrightarrow> isAccountMap v \<and> \<not> has_key v ''structLogs'' \<and>
     isAccountMap (js_get v ''pre'') \<and> isAccountMap (js_get v ''post'')"

end
