(* ===== verification/EvmProvider.thy ===== *)
theory EvmProvider
  imports EvmTrace
begin

text \<open>
  The JSON-RPC provider of the Ethereum connector: \<open>packages/evm-connector/src/rpc-provider.ts\<close>. A
  simulation pins a block, traces the call on it twice, extracts the balance changes and asks the node
  for the balances behind each of them, before and with the state after. The node is a collaborator
  that acts on the world; what it answers is any value. \<open>getBalance\<close> and \<open>getBlockNumber\<close>, which only
  forward, are left out.
\<close>

subsection \<open>The provider\<close>

record provider_config =
  pc_chainEnvironment :: chain_environment
  pc_chainId :: "jsnum option"
  pc_fromAddress :: "string option"
  pc_observedAccounts :: "string list option"
  pc_allowedRecipients :: "string list option"
  pc_allowedSpenders :: "string list option"
  pc_erc20Tokens :: "erc20_token list option"

record 'w evm_rpc =
  rp_config :: provider_config
  rp_viem :: viem
  rp_getChainId :: "('w, jsnum) eff"
  rp_request :: "string \<Rightarrow> jsval list \<Rightarrow> ('w, jsval) eff"

text \<open>\<open>resolveChain\<close>: the identifier of the chain.\<close>

definition chain_ids :: "chain_environment \<Rightarrow> int option" where
  "chain_ids e = (case e of Mainnet \<Rightarrow> Some 1 | Sepolia \<Rightarrow> Some 11155111 | Devnet \<Rightarrow> None)"

definition resolveChain :: "(jsnum \<Rightarrow> string) \<Rightarrow> provider_config \<Rightarrow> exn + int" where
  "resolveChain fmt c = (case chain_ids (pc_chainEnvironment c) of
     None \<Rightarrow> Inl (GenericError (''Unsupported Ethereum chain environment '' @
       chain_environment_name (pc_chainEnvironment c) @ ''.''))
   | Some n \<Rightarrow> (case pc_chainId c of
       Some x \<Rightarrow> if x \<noteq> num_of_int n
         then Inl (GenericError (''Configured Ethereum chain ID '' @ fmt x @ '' does not match '' @
           chain_environment_name (pc_chainEnvironment c) @ '' '' @ int_string n @ ''.''))
         else Inr n
     | None \<Rightarrow> Inr n))"

definition optional_list :: "'a list option \<Rightarrow> 'a list" where
  "optional_list xs = (case xs of None \<Rightarrow> [] | Some ys \<Rightarrow> ys)"

subsection \<open>Reading answers\<close>

definition rpc_address :: "viem \<Rightarrow> string \<Rightarrow> exn + string" where
  "rpc_address v a = (case proper_address v a of
     None \<Rightarrow> Inl (GenericError (''Invalid Ethereum address '' @ a @ ''.'')) | Some n \<Rightarrow> Inr n)"

definition rpc_object :: "jsval \<Rightarrow> exn + jsval" where
  "rpc_object v = (if isAccountMap v then Inr v else Inl (GenericError ''Malformed RPC object.''))"

definition bad_quantity :: exn where
  "bad_quantity = GenericError ''Malformed RPC integer quantity.''"

definition quantity :: "jsval \<Rightarrow> exn + int" where
  "quantity v = (case parseQuantity v of None \<Rightarrow> Inl bad_quantity | Some n \<Rightarrow> Inr n)"

text \<open>A word of 32 bytes.\<close>

definition word_text :: "string \<Rightarrow> bool" where
  "word_text s \<longleftrightarrow> take 2 s = ''0x'' \<and> length s = 66 \<and> list_all is_hex (drop 2 s)"

fun tokenAmount :: "jsval \<Rightarrow> exn + int" where
  "tokenAmount (JStr s) = (if word_text s then Inr (case big_int s of None \<Rightarrow> 0 | Some n \<Rightarrow> n)
     else Inl (GenericError ''Malformed ERC-20 balance word.''))"
| "tokenAmount _ = Inl (GenericError ''Malformed ERC-20 balance word.'')"

definition pinnedBlock :: "viem \<Rightarrow> jsval \<Rightarrow> exn + string \<times> string" where
  "pinnedBlock v x = (case rpc_object x of Inl e \<Rightarrow> Inl e
     | Inr block \<Rightarrow> (case js_get block ''hash'' of
         JStr s \<Rightarrow> if \<not> word_text s then Inl (GenericError ''Missing simulation block hash.'')
           else (case quantity (js_get block ''number'') of Inl e \<Rightarrow> Inl e
             | Inr n \<Rightarrow> map_sum id (\<lambda>number. (number, to_lower s)) (vi_toHex v None n))
       | _ \<Rightarrow> Inl (GenericError ''Missing simulation block hash.'')))"

definition normal_account :: "viem \<Rightarrow> (string \<times> jsval) list \<Rightarrow> string \<times> jsval \<Rightarrow> exn + (string \<times> jsval) list" where
  "normal_account v m e = (case rpc_address v (fst e) of Inl err \<Rightarrow> Inl err
     | Inr a \<Rightarrow>
         if a \<in> fst ` set m then Inl (GenericError ''Duplicate trace account.'')
         else map_sum id (\<lambda>x. m @ [(a, x)]) (rpc_object (snd e)))"

definition normalizeAccounts :: "viem \<Rightarrow> jsval \<Rightarrow> exn + jsval" where
  "normalizeAccounts v x = map_sum id JObj (fold_try (normal_account v) [] (members x))"

subsection \<open>State overrides\<close>

definition member_object :: "jsval \<Rightarrow> string \<Rightarrow> exn + jsval" where
  "member_object v k = (if js_get v k = JUndef then Inr (JObj []) else rpc_object (js_get v k))"

definition slot_override ::
  "viem \<Rightarrow> jsval \<Rightarrow> (string \<times> jsval) list \<Rightarrow> string \<Rightarrow> exn + (string \<times> jsval) list" where
  "slot_override v afterStorage m slot =
     (case big_int slot of
        None \<Rightarrow> Inl (GenericError (''Cannot convert '' @ slot @ '' to a BigInt''))
      | Some n \<Rightarrow> (case vi_toHex v (Some 32) n of Inl e \<Rightarrow> Inl e
        | Inr key \<Rightarrow>
            (let x = js_get afterStorage slot in
             case quantity (if nullish x then JStr ''0x0'' else x) of Inl e \<Rightarrow> Inl e
             | Inr q \<Rightarrow> map_sum id (\<lambda>t. map_set key (JStr t) m) (vi_toHex v (Some 32) q))))"

definition balance_override :: "viem \<Rightarrow> jsval \<Rightarrow> string \<Rightarrow> jsval \<Rightarrow> exn + (string \<times> jsval) list" where
  "balance_override v post a after =
     (if js_get post a = JUndef then Inr [(''balance'', JStr ''0x0'')]
      else if js_get after ''balance'' = JUndef then Inr []
      else case quantity (js_get after ''balance'') of Inl e \<Rightarrow> Inl e
      | Inr n \<Rightarrow> map_sum id (\<lambda>t. [(''balance'', JStr t)]) (vi_toHex v None n))"

definition account_override ::
  "viem \<Rightarrow> jsval \<Rightarrow> jsval \<Rightarrow> (string \<times> jsval) list \<Rightarrow> string \<Rightarrow> exn + (string \<times> jsval) list" where
  "account_override v pre post m a =
     (case (member_object pre a, member_object post a) of
        (Inl e, _) \<Rightarrow> Inl e
      | (Inr before, Inl e) \<Rightarrow> Inl e
      | (Inr before, Inr after) \<Rightarrow> (case balance_override v post a after of Inl e \<Rightarrow> Inl e
        | Inr b \<Rightarrow> (case (member_object before ''storage'', member_object after ''storage'') of
            (Inl e, _) \<Rightarrow> Inl e
          | (Inr bs, Inl e) \<Rightarrow> Inl e
          | (Inr bs, Inr as) \<Rightarrow>
              (case fold_try (slot_override v as) [] (remdups_keys (map fst (members bs) @ map fst (members as))) of
                 Inl e \<Rightarrow> Inl e
               | Inr diff \<Rightarrow>
                   let override = b @ (if diff = [] then [] else [(''stateDiff'', JObj diff)]) in
                   Inr (if override = [] then m else map_set a (JObj override) m)))))"

definition stateOverrides :: "viem \<Rightarrow> jsval \<Rightarrow> jsval \<Rightarrow> exn + jsval" where
  "stateOverrides v pre post = map_sum id JObj
     (fold_try (account_override v pre post) [] (remdups_keys (map fst (members pre) @ map fst (members post))))"

subsection \<open>Asking the node\<close>

fun fold_eff :: "('s \<Rightarrow> 'a \<Rightarrow> ('w, 's) eff) \<Rightarrow> 's \<Rightarrow> 'a list \<Rightarrow> ('w, 's) eff" where
  "fold_eff f s [] = ret s"
| "fold_eff f s (x # xs) = andthen (f s x) (\<lambda>t. fold_eff f t xs)"

definition refuse :: "bool \<Rightarrow> string \<Rightarrow> ('w, 'a) eff \<Rightarrow> ('w, 'a) eff" where
  "refuse b m rest = (if b then throw (GenericError m) else rest)"

definition assertConfiguredChain :: "(jsnum \<Rightarrow> string) \<Rightarrow> 'w evm_rpc \<Rightarrow> int \<Rightarrow> ('w, unit) eff" where
  "assertConfiguredChain fmt p chain = andthen (rp_getChainId p) (\<lambda>n.
     refuse (n \<noteq> num_of_int chain)
       (''Configured EVM RPC returned chain ID '' @ fmt n @ ''; expected '' @
        chain_environment_name (pc_chainEnvironment (rp_config p)) @ '' '' @ int_string chain @ ''.'') (ret ()))"

definition call_json :: "string \<Rightarrow> string \<Rightarrow> string \<Rightarrow> string \<Rightarrow> jsval" where
  "call_json sender target data val = JObj [(''from'', JStr sender), (''to'', JStr target), (''data'', JStr data),
     (''value'', JStr val), (''gasPrice'', JStr ''0x0'')]"

definition probe_json :: "string \<Rightarrow> string \<Rightarrow> string \<Rightarrow> jsval" where
  "probe_json sender token account = JObj [(''from'', JStr sender), (''to'', JStr token),
     (''data'', JStr (''0x70a08231'' @ replicate (64 - length (drop 2 account)) CHR ''0'' @ drop 2 account)),
     (''gasPrice'', JStr ''0x0'')]"

text \<open>The probes of the native balances that changed.\<close>

definition check_native :: "'w evm_rpc \<Rightarrow> string \<Rightarrow> unit \<Rightarrow> string \<times> int \<Rightarrow> ('w, unit) eff" where
  "check_native p number u probe =
     andthen (rp_request p ''eth_getBalance'' [JStr (fst probe), JStr number]) (\<lambda>x.
     andthen (lift_exn (quantity x)) (\<lambda>n.
     refuse (n \<noteq> snd probe) ''Native pre-state disagrees with the pinned block.'' (ret ())))"

text \<open>An observed account without a change.\<close>

definition has_entry :: "string \<Rightarrow> string \<Rightarrow> balance_entry list \<Rightarrow> bool" where
  "has_entry a asset changes \<longleftrightarrow> (\<exists>e \<in> set changes. fst e = a \<and> fst (snd e) = asset)"

definition observe_native :: "'w evm_rpc \<Rightarrow> string \<Rightarrow> balance_entry list \<Rightarrow> string \<Rightarrow> ('w, balance_entry list) eff" where
  "observe_native p number changes a =
     (if has_entry a ''ETH'' changes then ret changes
      else andthen (rp_request p ''eth_getBalance'' [JStr a, JStr number]) (\<lambda>x.
        andthen (lift_exn (quantity x)) (\<lambda>_. ret (changes @ [(a, ''ETH'', 0)]))))"

definition entry_delta :: "string \<Rightarrow> string \<Rightarrow> balance_entry list \<Rightarrow> int option" where
  "entry_delta a asset changes = map_option (\<lambda>e. snd (snd e)) (find (\<lambda>e. fst e = a \<and> fst (snd e) = asset) changes)"

definition token_slot :: "erc20_token \<Rightarrow> exn + int" where
  "token_slot t = (case Option.bind (tk_balanceSlot t) slot_quantity of None \<Rightarrow> Inl bad_quantity | Some n \<Rightarrow> Inr n)"

text \<open>The sender, the pinned block, the overrides and the probes that every observation needs.\<close>

record observation =
  ob_from :: string
  ob_number :: string
  ob_overrides :: jsval
  ob_probes :: "token_probe list"

definition observe_token ::
  "'w evm_rpc \<Rightarrow> observation \<Rightarrow> erc20_token \<Rightarrow> string \<Rightarrow> balance_entry list \<Rightarrow> string \<Rightarrow> ('w, balance_entry list) eff" where
  "observe_token p o' t token changes account =
     (let probe = probe_json (ob_from o') token account in
      andthen (rp_request p ''eth_call'' [probe, JStr (ob_number o')]) (\<lambda>x.
      andthen (lift_exn (tokenAmount x)) (\<lambda>before.
      andthen (lift_exn (case token_slot t of Inl e \<Rightarrow> Inl e | Inr n \<Rightarrow> erc20BalanceSlot (rp_viem p) account n)) (\<lambda>slot.
      andthen (rp_request p ''eth_getStorageAt'' [JStr token, JStr slot, JStr (ob_number o')]) (\<lambda>y.
      andthen (lift_exn (tokenAmount y)) (\<lambda>stored.
      refuse (before \<noteq> stored) ''Configured ERC-20 layout does not match balanceOf.''
      (refuse (case find (\<lambda>q. tp_token q = token \<and> tp_account q = account) (ob_probes o') of
           None \<Rightarrow> False | Some q \<Rightarrow> tp_preBalance q \<noteq> before) ''Token pre-state disagrees with balanceOf.''
      (andthen (rp_request p ''eth_call'' [probe, JStr (ob_number o'), ob_overrides o']) (\<lambda>z.
      andthen (lift_exn (tokenAmount z)) (\<lambda>after.
      let d = entry_delta account (tk_asset t) changes in
      refuse (after - before \<noteq> (case d of None \<Rightarrow> 0 | Some n \<Rightarrow> n))
        ''Token post-state disagrees with the configured balance mapping.''
      (ret (if d = None then changes @ [(account, tk_asset t, 0)] else changes))))))))))))"

definition observe_tokens ::
  "'w evm_rpc \<Rightarrow> observation \<Rightarrow> string list \<Rightarrow> balance_entry list \<Rightarrow> erc20_token \<Rightarrow> ('w, balance_entry list) eff" where
  "observe_tokens p o' observed changes t =
     andthen (lift_exn (rpc_address (rp_viem p) (tk_address t))) (\<lambda>token.
     fold_eff (observe_token p o' t token) changes observed)"

subsection \<open>The simulation\<close>

definition failed_simulation :: "exn \<Rightarrow> evm_simulation" where
  "failed_simulation e = \<lparr>es_success = False, es_gasUsed = Fin 0, es_balanceChanges = [],
     es_balanceChangesReliable = False, es_error = Some (exn_message e)\<rparr>"

definition evm_change :: "balance_entry \<Rightarrow> jsval" where
  "evm_change e = JObj [(''address'', JStr (fst e)), (''asset'', JStr (fst (snd e))), (''delta'', JStr (int_string (snd (snd e))))]"

text \<open>\<open>String(v)\<close>\<close>

definition shown :: "(jsnum \<Rightarrow> string) \<Rightarrow> jsval \<Rightarrow> exn + string" where
  "shown fmt v = (case js_string fmt v of
     None \<Rightarrow> Inl (GenericError ''Cannot convert object to primitive value'') | Some s \<Rightarrow> Inr s)"

fun all_addresses :: "viem \<Rightarrow> string list \<Rightarrow> exn + string list" where
  "all_addresses v [] = Inr []"
| "all_addresses v (a # as) = (case rpc_address v a of Inl e \<Rightarrow> Inl e | Inr n \<Rightarrow> map_sum id (Cons n) (all_addresses v as))"

definition observed_accounts :: "viem \<Rightarrow> provider_config \<Rightarrow> string \<Rightarrow> string \<Rightarrow> evm_request \<Rightarrow> exn + string list" where
  "observed_accounts v c sender target tx = map_sum id remdups_keys (all_addresses v
     ([sender, target] @ eq_observedAddresses tx @ optional_list (pc_observedAccounts c) @
      optional_list (pc_allowedRecipients c) @ optional_list (pc_allowedSpenders c)))"

definition tracer :: "string \<Rightarrow> string \<Rightarrow> jsval" where
  "tracer name option = JObj [(''tracer'', JStr name), (''tracerConfig'', JObj [(option, JBool True)])]"

text \<open>\<open>toHex(BigInt(value))\<close>\<close>

definition call_value :: "viem \<Rightarrow> string option \<Rightarrow> exn + string" where
  "call_value v s = (let text = (case s of None \<Rightarrow> ''0'' | Some t \<Rightarrow> t) in
     case big_int text of None \<Rightarrow> Inl (GenericError (''Cannot convert '' @ text @ '' to a BigInt''))
     | Some n \<Rightarrow> vi_toHex v None n)"

text \<open>The execution trace: its gas, when it is the call that was asked for.\<close>

definition check_execution :: "(jsnum \<Rightarrow> string) \<Rightarrow> viem \<Rightarrow> string \<Rightarrow> string \<Rightarrow> jsval \<Rightarrow> exn + int" where
  "check_execution fmt v sender target execution =
     (if js_get execution ''error'' \<noteq> JUndef
      then (case shown fmt (js_get execution ''error'') of Inl e \<Rightarrow> Inl e
        | Inr s \<Rightarrow> Inl (GenericError (''Execution reverted: '' @ s)))
      else case shown fmt (js_get execution ''from'') of Inl e \<Rightarrow> Inl e
      | Inr s \<Rightarrow> (case rpc_address v s of Inl e \<Rightarrow> Inl e
        | Inr a \<Rightarrow> (case (if a \<noteq> sender then Inr False
             else case shown fmt (js_get execution ''to'') of Inl e \<Rightarrow> Inl e
               | Inr t \<Rightarrow> map_sum id (\<lambda>b. b = target) (rpc_address v t)) of
            Inl e \<Rightarrow> Inl e
          | Inr False \<Rightarrow> Inl (GenericError ''Execution trace does not match the simulation sender and destination.'')
          | Inr True \<Rightarrow> (case quantity (js_get execution ''gasUsed'') of Inl e \<Rightarrow> Inl e
              | Inr gas \<Rightarrow> if gas = 0 \<or> 9007199254740991 < gas then Inl (GenericError ''Invalid traced gas usage.'')
                  else Inr gas))))"

text \<open>The state diff of a trace, as accounts before and after, and what was extracted from it.\<close>

definition read_trace ::
  "host \<Rightarrow> viem \<Rightarrow> string \<Rightarrow> erc20_token list \<Rightarrow> string list \<Rightarrow> jsval \<Rightarrow> exn + jsval \<times> jsval \<times> extraction" where
  "read_trace h v sender tokens observed trace =
     (if \<not> isPrestateDiff trace then Inl (GenericError ''RPC did not return a prestateTracer state diff.'')
      else case normalizeAccounts v (js_get trace ''pre'') of Inl e \<Rightarrow> Inl e
      | Inr pre \<Rightarrow> (case normalizeAccounts v (js_get trace ''post'') of Inl e \<Rightarrow> Inl e
        | Inr post \<Rightarrow>
            if \<not> has_key pre sender \<and> \<not> has_key post sender
            then Inl (GenericError ''Execution state diff is empty or missing the sender.'')
            else (case classifyAndExtract h v pre post tokens observed of
                Inl r \<Rightarrow> Inl (GenericError r) | Inr x \<Rightarrow> Inr (pre, post, x))))"

text \<open>The observation of every balance, from the changes that the trace shows.\<close>

definition observe_balances ::
  "'w evm_rpc \<Rightarrow> string \<Rightarrow> string \<Rightarrow> erc20_token list \<Rightarrow> string list \<Rightarrow> jsval \<times> jsval \<times> extraction \<Rightarrow> ('w, balance_entry list) eff"
where
  "observe_balances p sender number tokens observed r = (case r of (pre, post, x) \<Rightarrow>
     andthen (fold_eff (check_native p number) () (xt_nativeProbes x)) (\<lambda>_.
     andthen (lift_exn (stateOverrides (rp_viem p) pre post)) (\<lambda>overrides.
     andthen (fold_eff (observe_native p number) (xt_changes x) observed) (\<lambda>changes.
     fold_eff (observe_tokens p \<lparr>ob_from = sender, ob_number = number, ob_overrides = overrides, ob_probes = xt_probes x\<rparr>
       observed) changes tokens))))"

definition evm_simulate_body :: "host \<Rightarrow> 'w evm_rpc \<Rightarrow> int \<Rightarrow> evm_request \<Rightarrow> ('w, evm_simulation) eff" where
  "evm_simulate_body h p chain tx =
     (let v = rp_viem p; c = rp_config p; fmt = number_to_string h; tokens = optional_list (pc_erc20Tokens c) in
      andthen (lift_exn (rpc_address v (case eq_from tx of Some a \<Rightarrow> a | None \<Rightarrow> (case pc_fromAddress c of Some a \<Rightarrow> a | None \<Rightarrow> [])))) (\<lambda>sender.
      andthen (lift_exn (rpc_address v (et_to tx))) (\<lambda>target.
      andthen (lift_exn (observed_accounts v c sender target tx)) (\<lambda>observed.
      andthen (assertConfiguredChain fmt p chain) (\<lambda>_.
      andthen (rp_request p ''eth_getBlockByNumber'' [JStr ''latest'', JBool False]) (\<lambda>latest.
      andthen (lift_exn (pinnedBlock v latest)) (\<lambda>block.
      andthen (lift_exn (call_value v (et_value tx))) (\<lambda>val.
      let call = call_json sender target (case et_data tx of None \<Rightarrow> ''0x'' | Some d \<Rightarrow> d) val in
      andthen (rp_request p ''debug_traceCall'' [call, JStr (fst block), tracer ''callTracer'' ''onlyTopCall'']) (\<lambda>answer.
      andthen (lift_exn (rpc_object answer)) (\<lambda>execution.
      andthen (lift_exn (check_execution fmt v sender target execution)) (\<lambda>gas.
      andthen (rp_request p ''debug_traceCall'' [call, JStr (fst block), tracer ''prestateTracer'' ''diffMode'']) (\<lambda>trace.
      andthen (lift_exn (read_trace h v sender tokens observed trace)) (\<lambda>r.
      andthen (observe_balances p sender (fst block) tokens observed r) (\<lambda>changes.
      andthen (rp_request p ''eth_getBlockByNumber'' [JStr (fst block), JBool False]) (\<lambda>again.
      andthen (lift_exn (pinnedBlock v again)) (\<lambda>current.
      refuse (current \<noteq> block) ''Simulation block changed during balance observation.''
      (ret \<lparr>es_success = True, es_gasUsed = num_of_int gas, es_balanceChanges = map evm_change changes,
         es_balanceChangesReliable = True, es_error = None\<rparr>)))))))))))))))))"

definition evm_simulateTransaction :: "host \<Rightarrow> 'w evm_rpc \<Rightarrow> int \<Rightarrow> evm_request \<Rightarrow> ('w, evm_simulation) eff" where
  "evm_simulateTransaction h p chain tx =
     try_catch (evm_simulate_body h p chain tx) (\<lambda>e. ret (failed_simulation e))"

end
