(* ===== verification/EvmEffects.thy ===== *)
theory EvmEffects
  imports EvmProvider
begin

text \<open>
  What the simulation behind a signed Ethereum transaction says of the accounts: nothing in the trace
  goes unaccounted for (\<open>trace_accounts_for_changes\<close>), and what is signed was run on one block, with
  every observed balance read from the node before and after (\<open>evm_signed_effects\<close>).
\<close>

subsection \<open>The layout of the tokens\<close>

text \<open>What a slot of a token holds.\<close>

definition slot_explained :: "viem \<Rightarrow> string list \<Rightarrow> erc20_token \<Rightarrow> string \<Rightarrow> classified_slot \<Rightarrow> bool" where
  "slot_explained v observed t s c \<longleftrightarrow> (case c of
     BalanceSlot asset a \<Rightarrow> asset = tk_asset t \<and> a \<in> set observed \<and>
       (\<exists>x n. tk_balanceSlot t = Some x \<and> slot_quantity x = Some n \<and> erc20BalanceSlot v a n = Inr s)
   | AllowanceSlot \<Rightarrow> \<exists>x n. \<exists>a \<in> set observed. \<exists>b \<in> set observed. tk_allowanceSlot t = Some x \<and> slot_quantity x = Some n \<and>
       erc20AllowanceSlot v a b n = Inr s
   | SupplySlot \<Rightarrow> \<exists>x n. tk_totalSupplySlot t = Some x \<and> slot_quantity x = Some n \<and> normalizeSlot (toHexQuantity n) = Some s)"

lemma put_slot_Inr: "put_slot m p = Inr m' \<longleftrightarrow> (\<exists>k. fst p = Inr k \<and> m' = map_set k (snd p) m)"
  by (cases "fst p") (auto simp: put_slot_def)

lemma put_slots:
  assumes "fold_try put_slot m ps = Inr m'" "map_of m' s = Some c"
  shows "map_of m s = Some c \<or> (Inr s, c) \<in> set ps"
  using assms
proof (induction ps arbitrary: m)
  case (Cons p ps)
  then obtain k where k: "fst p = Inr k" "fold_try put_slot (map_set k (snd p) m) ps = Inr m'"
    by (auto simp: put_slot_Inr split: sum.splits)
  have "map_of (map_set k (snd p) m) s = Some c \<or> (Inr s, c) \<in> set ps" by (rule Cons.IH) fact+
  with k(1) show ?case by (cases p) (auto split: if_splits)
qed simp

lemma given_slot_some: "given_slot x = Some s \<Longrightarrow> x = Some s"
  by (simp add: given_slot_def split: if_splits)

lemma parsed_slot: "parseSlotIndex s = Inr n \<Longrightarrow> slot_quantity s = Some n"
  by (simp add: parseSlotIndex_def split: option.splits)

lemma token_slots_explained:
  assumes "token_slots v t observed s = Inr m" "given_slot (tk_balanceSlot t) = Some s" "map_of m k = Some c"
  shows "slot_explained v observed t k c"
proof -
  obtain b where b: "balance_slots v t observed s = Inr b" using assms(1) by (auto simp: token_slots_def split: sum.splits)
  let ?al = "case given_slot (tk_allowanceSlot t) of None \<Rightarrow> Inr b | Some a \<Rightarrow> allowance_slots v observed b a"
  obtain d where d: "?al = Inr d" using assms(1) b by (auto simp: token_slots_def split: sum.splits)
  have bal: "slot_explained v observed t k c" if "map_of b k = Some c" for c
  proof -
    obtain n where n: "parseSlotIndex s = Inr n"
      "fold_try put_slot [] (map (\<lambda>a. (erc20BalanceSlot v a n, BalanceSlot (tk_asset t) a)) observed) = Inr b"
      using b by (auto simp: balance_slots_def split: sum.splits)
    from put_slots [OF n(2) that] show ?thesis
      using parsed_slot [OF n(1)] given_slot_some [OF assms(2)] by (auto simp: slot_explained_def)
  qed
  have al: "slot_explained v observed t k c" if "map_of d k = Some c" for c
  proof (cases "given_slot (tk_allowanceSlot t)")
    case None
    with d that bal show ?thesis by simp
  next
    case (Some a)
    then obtain n where n: "parseSlotIndex a = Inr n" "fold_try put_slot b
        (map (\<lambda>(owner, spender). (erc20AllowanceSlot v owner spender n, AllowanceSlot)) (List.product observed observed)) = Inr d"
      using d by (auto simp: allowance_slots_def split: sum.splits)
    from put_slots [OF n(2) that] show ?thesis
    proof
      assume "(Inr k, c) \<in> set (map (\<lambda>(owner, spender). (erc20AllowanceSlot v owner spender n, AllowanceSlot))
          (List.product observed observed))"
      then show ?thesis using parsed_slot [OF n(1)] given_slot_some [OF Some]
        by (auto simp: slot_explained_def eq_commute [of "Inr k"]) blast
    qed (rule bal)
  qed
  have "(case given_slot (tk_totalSupplySlot t) of None \<Rightarrow> Inr d | Some n \<Rightarrow> supply_slot t d n) = Inr m"
    using assms(1) b d by (simp add: token_slots_def)
  then show ?thesis
    using al assms(3)
    by (auto simp: supply_slot_def slot_explained_def dest!: given_slot_some parsed_slot split: option.splits sum.splits if_splits)
qed

lemma index_token_Inr:
  "index_token v observed (index, assets) t = Inr r \<longleftrightarrow> (\<exists>b s slots. proper_address v (tk_address t) = Some b \<and>
     b \<notin> fst ` set index \<and> tk_asset t \<noteq> [] \<and> to_lower (tk_asset t) \<notin> set assets \<and> given_slot (tk_balanceSlot t) = Some s \<and>
     token_slots v t observed s = Inr slots \<and> r = (map_set b slots index, to_lower (tk_asset t) # assets))"
  by (auto simp: index_token_def split: option.splits sum.splits)

lemma index_tokens:
  assumes "fold_try (index_token v observed) (index, assets) ts = Inr (index', assets')"
  shows "assets' = rev (map (\<lambda>t. to_lower (tk_asset t)) ts) @ assets" "distinct assets \<Longrightarrow> distinct assets'"
    and "map_of index' a = Some m \<Longrightarrow> map_of index a = Some m \<or> (\<exists>t \<in> set ts. \<exists>s. proper_address v (tk_address t) = Some a \<and>
      given_slot (tk_balanceSlot t) = Some s \<and> token_slots v t observed s = Inr m)"
proof -
  have "assets' = rev (map (\<lambda>t. to_lower (tk_asset t)) ts) @ assets \<and> (distinct assets \<longrightarrow> distinct assets') \<and>
    (map_of index' a = Some m \<longrightarrow> map_of index a = Some m \<or> (\<exists>t \<in> set ts. \<exists>s. proper_address v (tk_address t) = Some a \<and>
      given_slot (tk_balanceSlot t) = Some s \<and> token_slots v t observed s = Inr m))"
    using assms
  proof (induction ts arbitrary: index assets)
    case (Cons t ts)
    then obtain b s slots where t: "proper_address v (tk_address t) = Some b" "given_slot (tk_balanceSlot t) = Some s"
      "token_slots v t observed s = Inr slots" "to_lower (tk_asset t) \<notin> set assets"
      "fold_try (index_token v observed) (map_set b slots index, to_lower (tk_asset t) # assets) ts = Inr (index', assets')"
      by (auto simp: index_token_Inr split: sum.splits)
    have new: "map_of (map_set b slots index) a = Some m \<Longrightarrow> map_of index a = Some m \<or> b = a \<and> slots = m"
      by (simp split: if_splits)
    note ih = Cons.IH [OF t(5), THEN conjunct1] Cons.IH [OF t(5), THEN conjunct2, THEN conjunct1]
      Cons.IH [OF t(5), THEN conjunct2, THEN conjunct2]
    show ?case
    proof (intro conjI impI)
      show "assets' = rev (map (\<lambda>t. to_lower (tk_asset t)) (t # ts)) @ assets" using ih(1) by simp
      assume "distinct assets"
      with t(4) have "distinct (to_lower (tk_asset t) # assets)" by simp
      with ih(2) show "distinct assets'" by (rule mp)
    next
      assume "map_of index' a = Some m"
      with ih(3) new t(1-3) show "map_of index a = Some m \<or> (\<exists>t \<in> set (t # ts). \<exists>s.
          proper_address v (tk_address t) = Some a \<and> given_slot (tk_balanceSlot t) = Some s \<and> token_slots v t observed s = Inr m)"
        by auto
    qed
  qed simp
  then show "assets' = rev (map (\<lambda>t. to_lower (tk_asset t)) ts) @ assets" "distinct assets \<Longrightarrow> distinct assets'"
    "map_of index' a = Some m \<Longrightarrow> map_of index a = Some m \<or> (\<exists>t \<in> set ts. \<exists>s. proper_address v (tk_address t) = Some a \<and>
      given_slot (tk_balanceSlot t) = Some s \<and> token_slots v t observed s = Inr m)" by blast+
qed

text \<open>What an index that was built says of its tokens.\<close>

lemma index_assets:
  assumes "buildSlotIndex v tokens observed = Inr index"
  shows "distinct (map (\<lambda>t. to_lower (tk_asset t)) tokens)" "\<forall>t \<in> set tokens. to_lower (tk_asset t) \<noteq> to_lower NATIVE_ASSET"
proof -
  obtain assets where b: "fold_try (index_token v observed) ([], [to_lower NATIVE_ASSET]) tokens = Inr (index, assets)"
    using assms by (auto simp: buildSlotIndex_def elim!: map_sum_Inr)
  from index_tokens(1,2) [OF b] have "distinct (map (\<lambda>t. to_lower (tk_asset t)) tokens) \<and>
      to_lower NATIVE_ASSET \<notin> set (map (\<lambda>t. to_lower (tk_asset t)) tokens)" by simp
  then show "distinct (map (\<lambda>t. to_lower (tk_asset t)) tokens)"
    "\<forall>t \<in> set tokens. to_lower (tk_asset t) \<noteq> to_lower NATIVE_ASSET" by (simp, force)
qed

lemma index_explained:
  assumes "buildSlotIndex v tokens observed = Inr index" "map_of index a = Some m" "map_of m s = Some c"
  shows "\<exists>t \<in> set tokens. proper_address v (tk_address t) = Some a \<and> slot_explained v observed t s c"
proof -
  obtain assets where b: "fold_try (index_token v observed) ([], [to_lower NATIVE_ASSET]) tokens = Inr (index, assets)"
    using assms(1) by (auto simp: buildSlotIndex_def elim!: map_sum_Inr)
  from index_tokens(3) [OF b assms(2)] token_slots_explained [OF _ _ assms(3)] show ?thesis by fastforce
qed

subsection \<open>One account\<close>

text \<open>The differences of an account, before and after, that the extraction accepts.\<close>

definition account_diff :: "jsval \<Rightarrow> jsval \<Rightarrow> string \<Rightarrow> int \<times> int \<Rightarrow> slot_change list \<Rightarrow> bool" where
  "account_diff before after address native changes \<longleftrightarrow>
     (let pre = asAccount before; post = asAccount after;
          created = (pre = None \<and> post \<noteq> None); destroyed = (pre \<noteq> None \<and> post = None) in
      (before = JUndef \<or> pre \<noteq> None) \<and> (after = JUndef \<or> post \<noteq> None) \<and>
      nativeDelta address pre post created destroyed = Inr native \<and> codeDelta address pre post created destroyed = None \<and>
      diffStorage (member_of pre ''storage'') (member_of post ''storage'') destroyed = Inr changes)"

lemma trace_account_Inr:
  assumes "trace_account c st raw = Inr st'"
  obtains address native changes where "proper_address (tc_viem c) raw = Some address"
    "account_diff (js_get (tc_pre c) raw) (js_get (tc_post c) raw) address native changes"
    "fold_try (note_slot address (if address \<in> set (tc_tokens c) then map_of (tc_index c) address else None) (tc_observed c))
       (note_native address native st) changes = Inr st'"
proof -
  obtain a where Some: "proper_address (tc_viem c) raw = Some a"
    using assms by (cases "proper_address (tc_viem c) raw") (simp_all add: trace_account_def)
  define before after where "before = js_get (tc_pre c) raw" "after = js_get (tc_post c) raw"
  define created destroyed where "created = (asAccount before = None \<and> asAccount after \<noteq> None)"
    "destroyed = (asAccount before \<noteq> None \<and> asAccount after = None)"
  have diff: "account_diff before after address native changes \<longleftrightarrow>
      (before = JUndef \<or> asAccount before \<noteq> None) \<and> (after = JUndef \<or> asAccount after \<noteq> None) \<and>
      nativeDelta address (asAccount before) (asAccount after) created destroyed = Inr native \<and>
      codeDelta address (asAccount before) (asAccount after) created destroyed = None \<and>
      diffStorage (member_of (asAccount before) ''storage'') (member_of (asAccount after) ''storage'') destroyed = Inr changes"
    for address native changes
    by (simp add: account_diff_def Let_def created_destroyed_def)
  have run: "trace_account c st raw =
     (if before \<noteq> JUndef \<and> asAccount before = None then Inl (''Trace pre-state for '' @ a @ '' is malformed.'')
      else if after \<noteq> JUndef \<and> asAccount after = None then Inl (''Trace post-state for '' @ a @ '' is malformed.'')
      else (case nativeDelta a (asAccount before) (asAccount after) created destroyed of Inl r \<Rightarrow> Inl r
        | Inr native \<Rightarrow> (case codeDelta a (asAccount before) (asAccount after) created destroyed of Some r \<Rightarrow> Inl r
          | None \<Rightarrow> (case diffStorage (member_of (asAccount before) ''storage'') (member_of (asAccount after) ''storage'') destroyed of
              Inl r \<Rightarrow> Inl r
            | Inr changes \<Rightarrow> fold_try
                (note_slot a (if a \<in> set (tc_tokens c) then map_of (tc_index c) a else None) (tc_observed c))
                (note_native a native st) changes))))"
    unfolding trace_account_def Some Let_def option.case created_destroyed_def before_after_def by (rule refl)
  have ok: "\<not> (before \<noteq> JUndef \<and> asAccount before = None)" "\<not> (after \<noteq> JUndef \<and> asAccount after = None)"
    using assms unfolding run by (metis Inl_Inr_False)+
  note run' = assms [unfolded run if_not_P [OF ok(1)] if_not_P [OF ok(2)]]
  obtain native where n: "nativeDelta a (asAccount before) (asAccount after) created destroyed = Inr native"
    using run' by (cases "nativeDelta a (asAccount before) (asAccount after) created destroyed") simp_all
  have k: "codeDelta a (asAccount before) (asAccount after) created destroyed = None"
    using run' n by (cases "codeDelta a (asAccount before) (asAccount after) created destroyed") simp_all
  obtain changes where d: "diffStorage (member_of (asAccount before) ''storage'') (member_of (asAccount after) ''storage'') destroyed
      = Inr changes"
    using run' n k by (auto split: sum.splits)
  have "account_diff before after a native changes" unfolding diff n k d using ok by simp
  moreover have "fold_try (note_slot a (if a \<in> set (tc_tokens c) then map_of (tc_index c) a else None) (tc_observed c))
      (note_native a native st) changes = Inr st'"
    using run' n k d by simp
  ultimately show thesis using that Some unfolding before_after_def by blast
qed

text \<open>The code of an account that stays; a missing member is no change, a missing account has no code.\<close>

definition code_kept :: "jsval \<Rightarrow> jsval \<Rightarrow> bool" where
  "code_kept before after \<longleftrightarrow> (let b = member_of (asAccount before) ''code''; a = member_of (asAccount after) ''code'' in
     parseCode b \<noteq> None \<and> (a \<noteq> JUndef \<longrightarrow> parseCode a = parseCode b) \<and>
     (asAccount after = None \<and> asAccount before \<noteq> None \<longrightarrow> parseCode b = Some ''0x''))"

lemma account_code:
  assumes "account_diff before after address native changes" shows "code_kept before after"
proof -
  have "codeDelta address (asAccount before) (asAccount after) (asAccount before = None \<and> asAccount after \<noteq> None)
      (asAccount before \<noteq> None \<and> asAccount after = None) = None"
    using assms by (simp add: account_diff_def Let_def)
  then show ?thesis
    by (cases "asAccount before"; cases "asAccount after")
      (auto simp: code_kept_def codeDelta_def Let_def member_of_def split: if_splits)
qed

text \<open>The storage of an account; nothing is left of an account that is gone.\<close>

definition storage_maps :: "jsval \<Rightarrow> jsval \<Rightarrow> (string \<times> int) list \<Rightarrow> (string \<times> int) list \<Rightarrow> bool" where
  "storage_maps before after mb ma \<longleftrightarrow> parseStorageMap (member_of (asAccount before) ''storage'') = Inr mb \<and>
     (if asAccount after = None \<and> asAccount before \<noteq> None then ma = []
      else parseStorageMap (member_of (asAccount after) ''storage'') = Inr ma)"

lemma storage_map_distinct: "parseStorageMap x = Inr m \<Longrightarrow> distinct (map fst m)"
proof (cases x)
  case (JObj kvs)
  assume "parseStorageMap x = Inr m"
  then have "fold_try storage_entry [] kvs = Inr m" by (simp add: JObj)
  then show ?thesis
    by (rule fold_try_invariant) (auto simp: storage_entry_def distinct_set split: option.splits if_splits)
qed simp_all

lemma cleared_slot:
  "slot_before m slot \<noteq> 0 \<Longrightarrow> \<exists>ch \<in> set (cleared_slots m). sc_slot ch = slot \<and> sc_delta ch = - slot_before m slot"
  by (auto simp: slot_before_def cleared_slots_def dest!: map_of_SomeD split: option.splits intro!: bexI)

lemma storage_changes:
  assumes "diffStorage x y destroyed = Inr changes"
  shows "\<exists>mb ma. parseStorageMap x = Inr mb \<and> (if destroyed then ma = [] else parseStorageMap y = Inr ma) \<and>
    (\<forall>slot. slot_before mb slot \<noteq> slot_before ma slot \<longrightarrow>
       (\<exists>ch \<in> set changes. sc_slot ch = slot \<and> sc_delta ch = slot_before ma slot - slot_before mb slot))"
proof -
  obtain mb where mb: "parseStorageMap x = Inr mb" using assms by (auto simp: diffStorage_def split: sum.splits)
  show ?thesis
  proof (cases destroyed)
    case True
    with assms mb have "changes = cleared_slots mb" by (simp add: diffStorage_def)
    with True mb cleared_slot [of mb] show ?thesis by (auto simp: slot_before_def [of "[]"])
  next
    case False
    with assms mb obtain ma where ma: "parseStorageMap y = Inr ma"
      "changes = written_slots mb ma @ cleared_slots (filter (\<lambda>e. fst e \<notin> fst ` set ma) mb)"
      by (auto simp: diffStorage_def split: sum.splits)
    have "\<exists>ch \<in> set changes. sc_slot ch = slot \<and> sc_delta ch = slot_before ma slot - slot_before mb slot"
      if "slot_before mb slot \<noteq> slot_before ma slot" for slot
    proof (cases "map_of ma slot")
      case None
      then have gone: "slot \<notin> fst ` set ma" by (simp add: map_of_eq_None_iff)
      then have "slot_before (filter (\<lambda>e. fst e \<notin> fst ` set ma) mb) slot = slot_before mb slot"
        by (induction mb) (auto simp: slot_before_def)
      with cleared_slot [of "filter (\<lambda>e. fst e \<notin> fst ` set ma) mb" slot] that None show ?thesis
        by (auto simp: ma(2) slot_before_def [of ma])
    next
      case (Some n)
      then have "(slot, n) \<in> set ma" by (rule map_of_SomeD)
      with that Some have "\<lparr>sc_slot = slot, sc_pre = slot_before mb slot, sc_delta = n - slot_before mb slot\<rparr> \<in> set (written_slots mb ma)"
        by (force simp: written_slots_def slot_before_def [of ma])
      with Some show ?thesis by (force simp: ma(2) slot_before_def [of ma])
    qed
    with False mb ma(1) show ?thesis by auto
  qed
qed

lemma account_storage:
  assumes "account_diff before after address native changes"
  shows "\<exists>mb ma. storage_maps before after mb ma \<and> (\<forall>slot. slot_before mb slot \<noteq> slot_before ma slot \<longrightarrow>
    (\<exists>ch \<in> set changes. sc_slot ch = slot \<and> sc_delta ch \<noteq> 0))"
proof -
  have "diffStorage (member_of (asAccount before) ''storage'') (member_of (asAccount after) ''storage'')
      (asAccount before \<noteq> None \<and> asAccount after = None) = Inr changes"
    using assms by (simp add: account_diff_def Let_def)
  from storage_changes [OF this] obtain mb ma where "storage_maps before after mb ma"
    "\<forall>slot. slot_before mb slot \<noteq> slot_before ma slot \<longrightarrow>
      (\<exists>ch \<in> set changes. sc_slot ch = slot \<and> sc_delta ch = slot_before ma slot - slot_before mb slot)"
    by (auto simp: storage_maps_def conj_commute)
  then show ?thesis by (intro exI [of _ mb] exI [of _ ma]) force
qed

subsection \<open>Nothing changes unaccounted for\<close>

lemma classify_Inr:
  assumes "classifyAndExtract h v pre post tokens addresses = Inr x"
  obtains observed index known st where "fold_try (observe_address v) [] addresses = Inr observed"
    "buildSlotIndex v tokens observed = Inr index"
    "fold_try (trace_account \<lparr>tc_viem = v, tc_pre = pre, tc_post = post, tc_index = index, tc_tokens = known,
       tc_observed = observed\<rparr>) \<lparr>ts_eth = [], ts_token = [], ts_probes = [], ts_nativeProbes = []\<rparr>
       (remdups_keys (map fst (members pre) @ map fst (members post))) = Inr st"
    "x = \<lparr>xt_changes = foldr (insert_change (change_before h)) (balance_entries st) [],
       xt_probes = ts_probes st, xt_nativeProbes = ts_nativeProbes st\<rparr>"
  using assms
  by (auto simp: classifyAndExtract_def split: if_splits sum.splits elim!: map_sum_Inr)

lemma noted_slots:
  assumes "fold_try (note_slot a slots observed) st changes = Inr st'" "ch \<in> set changes" "sc_delta ch \<noteq> 0"
  shows "\<exists>m c. slots = Some m \<and> map_of m (sc_slot ch) = Some c"
  using assms(1,2)
proof (induction changes arbitrary: st)
  case (Cons ch' changes)
  then obtain u where u: "note_slot a slots observed st ch' = Inr u" "fold_try (note_slot a slots observed) u changes = Inr st'"
    by (auto split: sum.splits)
  show ?case
  proof (cases "ch = ch'")
    case True
    with u(1) assms(3) show ?thesis by (cases slots) (auto simp: note_slot_def split: option.splits)
  next
    case False
    with Cons u(2) show ?thesis by simp
  qed
qed simp

text \<open>C38. Nothing in a traced call goes unaccounted for: if the extraction of balance changes succeeds,
  every account of the state diff keeps its code (an account that is created or destroyed has none),
  and every slot of its storage whose value differs is, by the layout of a configured token at that
  address, the balance of an observed account, an allowance between observed accounts, or the total
  supply.\<close>

theorem trace_accounts_for_changes:
  assumes "classifyAndExtract h v pre post tokens addresses = Inr x"
    and "raw \<in> fst ` set (members pre) \<union> fst ` set (members post)"
  shows "\<exists>observed address mb ma. fold_try (observe_address v) [] addresses = Inr observed \<and>
    proper_address v raw = Some address \<and> code_kept (js_get pre raw) (js_get post raw) \<and>
    storage_maps (js_get pre raw) (js_get post raw) mb ma \<and>
    (\<forall>slot. slot_before mb slot \<noteq> slot_before ma slot \<longrightarrow> (\<exists>t \<in> set tokens. \<exists>c.
       proper_address v (tk_address t) = Some address \<and> slot_explained v observed t slot c))"
proof -
  from assms(1) show ?thesis
  proof (rule classify_Inr)
    fix observed index known st
    let ?c = "\<lparr>tc_viem = v, tc_pre = pre, tc_post = post, tc_index = index, tc_tokens = known, tc_observed = observed\<rparr>"
    assume o': "fold_try (observe_address v) [] addresses = Inr observed" and i: "buildSlotIndex v tokens observed = Inr index"
      and run: "fold_try (trace_account ?c) \<lparr>ts_eth = [], ts_token = [], ts_probes = [], ts_nativeProbes = []\<rparr>
        (remdups_keys (map fst (members pre) @ map fst (members post))) = Inr st"
    have "raw \<in> set (remdups_keys (map fst (members pre) @ map fst (members post)))" using assms(2) by simp
    then obtain u u' where "trace_account ?c u raw = Inr u'" using fold_try_step [OF run] by blast
    then show ?thesis
    proof (rule trace_account_Inr)
      fix address native changes
      assume a: "proper_address (tc_viem ?c) raw = Some address"
        and d: "account_diff (js_get (tc_pre ?c) raw) (js_get (tc_post ?c) raw) address native changes"
        and n: "fold_try (note_slot address (if address \<in> set (tc_tokens ?c) then map_of (tc_index ?c) address else None)
          (tc_observed ?c)) (note_native address native u) changes = Inr u'"
      obtain mb ma where m: "storage_maps (js_get pre raw) (js_get post raw) mb ma"
        "\<forall>slot. slot_before mb slot \<noteq> slot_before ma slot \<longrightarrow> (\<exists>ch \<in> set changes. sc_slot ch = slot \<and> sc_delta ch \<noteq> 0)"
        using account_storage [OF d] by auto
      have "\<exists>t \<in> set tokens. \<exists>c. proper_address v (tk_address t) = Some address \<and> slot_explained v observed t slot c"
        if differs: "slot_before mb slot \<noteq> slot_before ma slot" for slot
      proof -
        obtain ch where ch: "ch \<in> set changes" "sc_slot ch = slot" "sc_delta ch \<noteq> 0" using m(2) differs by blast
        from noted_slots [OF n ch(1,3)] ch(2) obtain m c where "map_of index address = Some m" "map_of m slot = Some c"
          by (auto split: if_splits)
        with index_explained [OF i] show ?thesis by blast
      qed
      with o' a m(1) account_code [OF d] show ?thesis by auto
    qed
  qed
qed

subsection \<open>The entries of an extraction\<close>

lemma lower_char_twice [simp]: "lower_char (lower_char c) = lower_char c"
  by (auto simp: lower_char_def of_char_of)

lemma to_lower_twice [simp]: "to_lower (to_lower s) = to_lower s"
  by (simp add: to_lower_def)

lemma proper_lower: "proper_address v a = Some b \<Longrightarrow> to_lower b = b"
  by (auto simp: proper_address_def normalizeAddress_def split: if_splits sum.splits)

lemma observed_lower:
  assumes "fold_try (observe_address v) [] addresses = Inr observed" "a \<in> set observed"
  shows "to_lower a = a"
proof -
  have "\<forall>a \<in> set observed. to_lower a = a"
    by (rule fold_try_invariant [OF assms(1)]) (auto simp: observe_address_def proper_lower split: option.splits if_splits)
  with assms(2) show ?thesis by blast
qed

text \<open>Each address and asset has one entry, in normal form.\<close>

definition entries_ok :: "erc20_token list \<Rightarrow> balance_entry list \<Rightarrow> bool" where
  "entries_ok tokens es \<longleftrightarrow> distinct (map (\<lambda>e. (fst e, fst (snd e))) es) \<and>
     (\<forall>e \<in> set es. to_lower (fst e) = fst e \<and> fst (snd e) \<in> insert NATIVE_ASSET (tk_asset ` set tokens))"

definition state_ok :: "erc20_token list \<Rightarrow> string list \<Rightarrow> trace_state \<Rightarrow> bool" where
  "state_ok tokens observed st \<longleftrightarrow> distinct (map fst (ts_eth st)) \<and> distinct (map fst (ts_token st)) \<and>
     fst ` set (ts_eth st) \<subseteq> {a. to_lower a = a} \<and> fst ` set (ts_token st) \<subseteq> set observed \<times> tk_asset ` set tokens"

lemma add_delta_keys [simp]: "fst ` set (add_delta k n m) = insert k (fst ` set m)"
  by (simp add: add_delta_def)

lemma add_delta_distinct: "distinct (map fst m) \<Longrightarrow> distinct (map fst (add_delta k n m))"
  by (simp add: add_delta_def distinct_set)

lemma noted_state:
  assumes "fold_try (note_slot a slots observed) st changes = Inr st'" "state_ok tokens observed st"
    and "\<And>m s c. slots = Some m \<Longrightarrow> map_of m s = Some c \<Longrightarrow> \<exists>t \<in> set tokens. slot_explained v observed t s c"
  shows "state_ok tokens observed st' \<and> ts_eth st' = ts_eth st \<and> ts_nativeProbes st' = ts_nativeProbes st"
proof (rule fold_try_invariant [OF assms(1)])
  show "state_ok tokens observed st \<and> ts_eth st = ts_eth st \<and> ts_nativeProbes st = ts_nativeProbes st"
    using assms(2) by simp
next
  fix u ch u'
  assume step: "note_slot a slots observed u ch = Inr u'"
    and u: "state_ok tokens observed u \<and> ts_eth u = ts_eth st \<and> ts_nativeProbes u = ts_nativeProbes st"
  show "state_ok tokens observed u' \<and> ts_eth u' = ts_eth st \<and> ts_nativeProbes u' = ts_nativeProbes st"
  proof (cases "sc_delta ch = 0")
    case False
    obtain m c where c: "slots = Some m" "map_of m (sc_slot ch) = Some c"
      using step False by (cases slots) (auto simp: note_slot_def split: option.splits)
    obtain t where t: "t \<in> set tokens" "slot_explained v observed t (sc_slot ch) c" using assms(3) [OF c] by blast
    show ?thesis
    proof (cases c)
      case (BalanceSlot asset account)
      with t(2) have "asset = tk_asset t" "account \<in> set observed" by (simp_all add: slot_explained_def)
      moreover from this have "ts_token u' = add_delta (account, tk_asset t) (sc_delta ch) (ts_token u) \<and> ts_eth u' = ts_eth u \<and>
          ts_nativeProbes u' = ts_nativeProbes u"
        using step False c BalanceSlot by (auto simp: note_slot_def)
      ultimately show ?thesis using u t(1) unfolding state_ok_def by (elim conjE) (simp add: add_delta_distinct)
    qed (use step False c u in \<open>simp_all add: note_slot_def\<close>)
  qed (use step u in \<open>simp add: note_slot_def\<close>)
qed

lemma note_native_fields [simp]:
  "ts_eth (note_native a p st) = add_delta a (fst p) (ts_eth st)" "ts_token (note_native a p st) = ts_token st"
  "ts_nativeProbes (note_native a p st) = (if a \<in> fst ` set (ts_nativeProbes st) then ts_nativeProbes st
     else ts_nativeProbes st @ [(a, snd p)])"
  by (simp_all add: note_native_def)

text \<open>An account of the state diff adds its native delta, and its balance before to the probes.\<close>

lemma trace_account_state:
  assumes "trace_account \<lparr>tc_viem = v, tc_pre = pre, tc_post = post, tc_index = index, tc_tokens = known, tc_observed = observed\<rparr>
      st raw = Inr st'" "buildSlotIndex v tokens observed = Inr index" "state_ok tokens observed st"
  shows "\<exists>address native changes. proper_address v raw = Some address \<and> account_diff (js_get pre raw) (js_get post raw) address native changes \<and>
    state_ok tokens observed st' \<and> ts_eth st' = add_delta address (fst native) (ts_eth st) \<and>
    ts_nativeProbes st' = ts_nativeProbes (note_native address native st)"
  using assms(1)
proof (rule trace_account_Inr)
  let ?c = "\<lparr>tc_viem = v, tc_pre = pre, tc_post = post, tc_index = index, tc_tokens = known, tc_observed = observed\<rparr>"
  fix address native changes
  let ?slots = "if address \<in> set (tc_tokens ?c) then map_of (tc_index ?c) address else None"
  assume a: "proper_address (tc_viem ?c) raw = Some address"
    and d: "account_diff (js_get (tc_pre ?c) raw) (js_get (tc_post ?c) raw) address native changes"
    and n: "fold_try (note_slot address ?slots (tc_observed ?c)) (note_native address native st) changes = Inr st'"
  have start: "state_ok tokens observed (note_native address native st)"
    using assms(3) a proper_lower unfolding state_ok_def by (simp add: add_delta_distinct)
  have "\<exists>t \<in> set tokens. slot_explained v observed t s c" if "?slots = Some m" "map_of m s = Some c" for m s c
    using that index_explained [OF assms(2), of address m s c] by (auto split: if_splits)
  from noted_state [OF n [unfolded trace_context.simps] start this [unfolded trace_context.simps]] a d show ?thesis
    unfolding trace_context.simps note_native_fields(1)
    by (intro exI [of _ address] exI [of _ native] exI [of _ changes]) simp
qed

lemma set_insert_change [simp]: "set (insert_change le x xs) = insert x (set xs)"
  by (induction le x xs rule: insert_change.induct) auto

lemma distinct_insert_change [simp]: "distinct (map f (insert_change le x xs)) \<longleftrightarrow> f x \<notin> f ` set xs \<and> distinct (map f xs)"
  by (induction le x xs rule: insert_change.induct) auto

lemma set_sorted_changes [simp]: "set (foldr (insert_change le) xs []) = set xs"
  by (induction xs) simp_all

lemma sorted_entries [simp]: "entries_ok tokens (foldr (insert_change le) xs []) \<longleftrightarrow> entries_ok tokens xs"
proof -
  have "distinct (map f (foldr (insert_change le) xs [])) \<longleftrightarrow> distinct (map f xs)" for f :: "balance_entry \<Rightarrow> string \<times> string"
    by (induction xs) simp_all
  then show ?thesis by (simp add: entries_ok_def)
qed

lemma state_entries:
  assumes "state_ok tokens observed st" "\<forall>t \<in> set tokens. to_lower (tk_asset t) \<noteq> to_lower NATIVE_ASSET"
    and "\<forall>a \<in> set observed. to_lower a = a"
  shows "entries_ok tokens (balance_entries st)"
proof -
  let ?key = "\<lambda>e::balance_entry. (fst e, fst (snd e))"
  let ?eth = "map (\<lambda>(a, n). (a, NATIVE_ASSET, n)) (ts_eth st)"
  let ?tok = "map (\<lambda>e. (fst (fst e), snd (fst e), snd e)) (filter (\<lambda>e. snd e \<noteq> 0) (ts_token st))"
  have split: "balance_entries st = ?eth @ ?tok" by (simp add: balance_entries_def)
  have eth: "map ?key ?eth = map (\<lambda>a. (a, NATIVE_ASSET)) (map fst (ts_eth st))" by (auto simp: case_prod_unfold)
  have tok: "map ?key ?tok = map fst (filter (\<lambda>e. snd e \<noteq> 0) (ts_token st))" by auto
  have "distinct (map ?key ?eth)"
    using assms(1) unfolding eth state_ok_def by (subst distinct_map) (auto simp: inj_on_def)
  moreover have "distinct (map ?key ?tok)"
    using assms(1) unfolding tok state_ok_def by (simp add: distinct_map_filter)
  moreover have keys: "fst ` set (ts_token st) \<subseteq> set observed \<times> tk_asset ` set tokens" "fst ` set (ts_eth st) \<subseteq> {a. to_lower a = a}"
    using assms(1) by (simp_all add: state_ok_def)
  moreover have "set (map ?key ?eth) \<inter> set (map ?key ?tok) = {}"
    using keys(1) assms(2) by force
  moreover have "\<forall>e \<in> set ?eth. to_lower (fst e) = fst e \<and> fst (snd e) \<in> insert NATIVE_ASSET (tk_asset ` set tokens)"
    using keys(2) by auto
  moreover have "\<forall>e \<in> set ?tok. to_lower (fst e) = fst e \<and> fst (snd e) \<in> insert NATIVE_ASSET (tk_asset ` set tokens)"
    using keys(1) assms(3) by force
  ultimately show ?thesis unfolding entries_ok_def split map_append distinct_append set_append ball_Un by blast
qed

lemma trace_accounts_native:
  fixes v pre post index known observed
  defines "c \<equiv> \<lparr>tc_viem = v, tc_pre = pre, tc_post = post, tc_index = index, tc_tokens = known, tc_observed = observed\<rparr>"
  assumes "fold_try (trace_account c) st ks = Inr st'" "buildSlotIndex v tokens observed = Inr index" "state_ok tokens observed st"
    and "distinct ks" "\<forall>k \<in> set ks. proper_address v k = Some k \<and> k \<notin> fst ` set (ts_eth st) \<and> k \<notin> fst ` set (ts_nativeProbes st)"
  shows "state_ok tokens observed st' \<and> (\<forall>k. k \<notin> set ks \<longrightarrow> map_of (ts_eth st') k = map_of (ts_eth st) k) \<and>
    set (ts_nativeProbes st) \<subseteq> set (ts_nativeProbes st') \<and>
    (\<forall>k \<in> set ks. \<exists>native changes. account_diff (js_get pre k) (js_get post k) k native changes \<and>
       map_of (ts_eth st') k = Some (fst native) \<and> (k, snd native) \<in> set (ts_nativeProbes st'))"
  using assms(2,4-)
proof (induction ks arbitrary: st)
  case (Cons k ks)
  then obtain u where u: "trace_account c st k = Inr u" "fold_try (trace_account c) u ks = Inr st'"
    by (auto split: sum.splits)
  obtain native changes where k: "account_diff (js_get pre k) (js_get post k) k native changes" "state_ok tokens observed u"
    "ts_eth u = add_delta k (fst native) (ts_eth st)" "ts_nativeProbes u = ts_nativeProbes (note_native k native st)"
    using trace_account_state [OF u(1) [unfolded c_def] assms(3) Cons.prems(2)] Cons.prems(4) by auto
  have fresh: "map_of (ts_eth st) k = None" using Cons.prems(4) by (simp add: map_of_eq_None_iff)
  have probes: "ts_nativeProbes u = ts_nativeProbes st @ [(k, snd native)]" using k(4) Cons.prems(4) by simp
  have "\<forall>x \<in> set ks. proper_address v x = Some x \<and> x \<notin> fst ` set (ts_eth u) \<and> x \<notin> fst ` set (ts_nativeProbes u)"
    using Cons.prems(3,4) k(3) probes by auto
  note rest = Cons.IH [OF u(2) k(2) _ this]
  have "map_of (ts_eth u) k = Some (fst native)" using k(3) fresh by (simp add: add_delta_def)
  then have "map_of (ts_eth st') k = Some (fst native)" "(k, snd native) \<in> set (ts_nativeProbes st')"
    using rest Cons.prems(3) probes by auto
  with k(1) have here: "\<exists>native changes. account_diff (js_get pre k) (js_get post k) k native changes \<and>
      map_of (ts_eth st') k = Some (fst native) \<and> (k, snd native) \<in> set (ts_nativeProbes st')" by blast
  have "map_of (ts_eth st') j = map_of (ts_eth st) j" if "j \<notin> set (k # ks)" for j
    using that rest Cons.prems(3) k(3) by (simp add: add_delta_def)
  moreover have "set (ts_nativeProbes st) \<subseteq> set (ts_nativeProbes st')" using rest Cons.prems(3) probes by auto
  ultimately show ?case using here rest Cons.prems(3) by simp
qed simp

lemma extraction_entries:
  assumes "classifyAndExtract h v pre post tokens addresses = Inr x" "\<forall>a \<in> set addresses. proper_address v a = Some a"
    and "\<forall>k \<in> fst ` set (members pre) \<union> fst ` set (members post). proper_address v k = Some k"
  shows "entries_ok tokens (xt_changes x) \<and> (\<forall>k \<in> fst ` set (members pre) \<union> fst ` set (members post). \<exists>native changes.
    account_diff (js_get pre k) (js_get post k) k native changes \<and> (k, NATIVE_ASSET, fst native) \<in> set (xt_changes x) \<and>
    (k, snd native) \<in> set (xt_nativeProbes x))"
  using assms(1)
proof (rule classify_Inr)
  fix observed index known st
  let ?ks = "remdups_keys (map fst (members pre) @ map fst (members post))"
  assume o': "fold_try (observe_address v) [] addresses = Inr observed" and i: "buildSlotIndex v tokens observed = Inr index"
    and run: "fold_try (trace_account \<lparr>tc_viem = v, tc_pre = pre, tc_post = post, tc_index = index, tc_tokens = known,
      tc_observed = observed\<rparr>) \<lparr>ts_eth = [], ts_token = [], ts_probes = [], ts_nativeProbes = []\<rparr> ?ks = Inr st"
    and x: "x = \<lparr>xt_changes = foldr (insert_change (change_before h)) (balance_entries st) [],
      xt_probes = ts_probes st, xt_nativeProbes = ts_nativeProbes st\<rparr>"
  have "state_ok tokens observed \<lparr>ts_eth = [], ts_token = [], ts_probes = [], ts_nativeProbes = []\<rparr>"
    by (simp add: state_ok_def)
  from trace_accounts_native [OF run i this] assms(3) have st: "state_ok tokens observed st"
    "\<forall>k \<in> set ?ks. \<exists>native changes. account_diff (js_get pre k) (js_get post k) k native changes \<and>
       map_of (ts_eth st) k = Some (fst native) \<and> (k, snd native) \<in> set (ts_nativeProbes st)" by auto
  have "entries_ok tokens (xt_changes x)"
    using state_entries [OF st(1)] index_assets(2) [OF i] observed_lower [OF o'] by (simp add: x)
  moreover have "(k, NATIVE_ASSET, n) \<in> set (xt_changes x)" if "map_of (ts_eth st) k = Some n" for k n
  proof -
    have "(k, NATIVE_ASSET, n) \<in> (\<lambda>(a, n). (a, NATIVE_ASSET, n)) ` set (ts_eth st)"
      using map_of_SomeD [OF that] by (rule rev_image_eqI) simp
    then show ?thesis by (simp add: x balance_entries_def del: foldr_append)
  qed
  moreover have "xt_nativeProbes x = ts_nativeProbes st" by (simp add: x)
  ultimately show ?thesis using st(2) by simp blast
qed

subsection \<open>What the node answered\<close>

definition answered :: "'w evm_rpc \<Rightarrow> string \<Rightarrow> jsval list \<Rightarrow> jsval \<Rightarrow> bool" where
  "answered p m params ans \<longleftrightarrow> (\<exists>w. fst (rp_request p m params w) = Inr ans)"

text \<open>\<open>balanceOf\<close> at a block, on the state with the overrides \<open>extra\<close>.\<close>

definition balance_answer :: "'w evm_rpc \<Rightarrow> string \<Rightarrow> string \<Rightarrow> string \<Rightarrow> string \<Rightarrow> jsval list \<Rightarrow> int \<Rightarrow> bool" where
  "balance_answer p sender number token a extra n \<longleftrightarrow>
     (\<exists>ans. answered p ''eth_call'' ([probe_json sender token a, JStr number] @ extra) ans \<and> tokenAmount ans = Inr n)"

definition native_answer :: "'w evm_rpc \<Rightarrow> string \<Rightarrow> string \<Rightarrow> int \<Rightarrow> bool" where
  "native_answer p number a n \<longleftrightarrow> (\<exists>ans. answered p ''eth_getBalance'' [JStr a, JStr number] ans \<and> quantity ans = Inr n)"

definition block_answer :: "'w evm_rpc \<Rightarrow> string \<Rightarrow> string \<times> string \<Rightarrow> bool" where
  "block_answer p asked block \<longleftrightarrow>
     (\<exists>ans. answered p ''eth_getBlockByNumber'' [JStr asked, JBool False] ans \<and> pinnedBlock (rp_viem p) ans = Inr block)"

text \<open>The state diff of the call at a block.\<close>

definition trace_answer :: "'w evm_rpc \<Rightarrow> evm_request \<Rightarrow> string \<Rightarrow> string \<Rightarrow> string \<Rightarrow> jsval \<Rightarrow> jsval \<Rightarrow> bool" where
  "trace_answer p tx sender target number pre post \<longleftrightarrow>
     (\<exists>val trace. call_value (rp_viem p) (et_value tx) = Inr val \<and>
        answered p ''debug_traceCall'' [call_json sender target (case et_data tx of None \<Rightarrow> ''0x'' | Some d \<Rightarrow> d) val, JStr number,
          tracer ''prestateTracer'' ''diffMode''] trace \<and>
        normalizeAccounts (rp_viem p) (js_get trace ''pre'') = Inr pre \<and>
        normalizeAccounts (rp_viem p) (js_get trace ''post'') = Inr post)"

lemma lift_run: "lift_exn r w = (Inr x, w') \<longleftrightarrow> r = Inr x \<and> w' = w"
  by (cases r) (auto simp: lift_exn_def ret_def throw_def)

lemma refuse_run: "refuse b m rest w = (Inr x, w') \<longleftrightarrow> \<not> b \<and> rest w = (Inr x, w')"
  by (simp add: refuse_def throw_def)

lemma ask_run: "rp_request p m params w = (Inr ans, w') \<Longrightarrow> answered p m params ans"
  unfolding answered_def by (metis fst_conv)

lemma fold_eff_cons:
  assumes "fold_eff f s (x # xs) w = (Inr t, w')"
  obtains u w1 where "f s x w = (Inr u, w1)" "fold_eff f u xs w1 = (Inr t, w')"
  using assms by (auto elim: andthenE)

lemma fold_eff_invariant:
  assumes "fold_eff f s xs w = (Inr t, w')" "P s" "\<And>s x t w w'. x \<in> set xs \<Longrightarrow> P s \<Longrightarrow> f s x w = (Inr t, w') \<Longrightarrow> P t"
  shows "P t"
  using assms
proof (induction xs arbitrary: s w)
  case (Cons x xs)
  from Cons.prems(1) obtain u w1 where u: "f s x w = (Inr u, w1)" "fold_eff f u xs w1 = (Inr t, w')"
    by (rule fold_eff_cons)
  have "P u" using Cons.prems(3) [OF _ Cons.prems(2) u(1)] by simp
  then show ?case by (rule Cons.IH [OF u(2)]) (meson Cons.prems(3) list.set_intros(2))
qed (simp add: ret_def)

lemma fold_eff_append:
  "fold_eff f s (xs @ ys) w = (Inr t, w') \<Longrightarrow> \<exists>u w1. fold_eff f s xs w = (Inr u, w1) \<and> fold_eff f u ys w1 = (Inr t, w')"
proof (induction xs arbitrary: s w)
  case (Cons x xs)
  from Cons.prems obtain u w1 where u: "f s x w = (Inr u, w1)" "fold_eff f u (xs @ ys) w1 = (Inr t, w')"
    using fold_eff_cons [of f s x "xs @ ys" w t w'] by auto
  from Cons.IH [OF u(2)] u(1) show ?case by (auto simp: andthen_def)
qed (simp add: ret_def)

lemma fold_eff_member:
  assumes "fold_eff f s xs w = (Inr t, w')" "x \<in> set xs" "P s"
    and P: "\<And>s y t w w'. y \<in> set xs \<Longrightarrow> P s \<Longrightarrow> f s y w = (Inr t, w') \<Longrightarrow> P t"
    and Q: "\<And>s t w w'. P s \<Longrightarrow> f s x w = (Inr t, w') \<Longrightarrow> Q t"
    and keep: "\<And>s y t w w'. y \<in> set xs \<Longrightarrow> P s \<Longrightarrow> Q s \<Longrightarrow> f s y w = (Inr t, w') \<Longrightarrow> Q t"
  shows "Q t"
proof -
  obtain as bs where xs: "xs = as @ x # bs" using assms(2) by (meson split_list)
  obtain s1 w1 where s1: "fold_eff f s as w = (Inr s1, w1)" "fold_eff f s1 (x # bs) w1 = (Inr t, w')"
    using fold_eff_append [OF assms(1) [unfolded xs]] by metis
  from s1(2) obtain t1 w2 where t1: "f s1 x w1 = (Inr t1, w2)" "fold_eff f t1 bs w2 = (Inr t, w')"
    by (rule fold_eff_cons)
  have "P s1" by (rule fold_eff_invariant [where P = P, OF s1(1) assms(3)]) (rule P, simp_all add: xs)
  then have start: "P t1 \<and> Q t1" using P [OF assms(2) _ t1(1)] Q [OF _ t1(1)] by blast
  have "P t \<and> Q t"
    by (rule fold_eff_invariant [where P = "\<lambda>s. P s \<and> Q s", OF t1(2) start])
      (rule conjI, rule P, simp_all add: xs, rule keep, simp_all add: xs)
  then show ?thesis by blast
qed

subsection \<open>What was observed\<close>

lemma native_checked:
  assumes "fold_eff (check_native p number) () probes w = (Inr t, w')" "(a, n) \<in> set probes"
  shows "native_answer p number a n"
proof -
  obtain as bs where probes: "probes = as @ (a, n) # bs" using assms(2) by (meson split_list)
  obtain u w1 where "fold_eff (check_native p number) u ((a, n) # bs) w1 = (Inr t, w')"
    using fold_eff_append [OF assms(1) [unfolded probes]] by blast
  then obtain u' w2 where "check_native p number u (a, n) w1 = (Inr u', w2)" by (rule fold_eff_cons)
  then show ?thesis
    by (auto simp: check_native_def lift_run refuse_run native_answer_def dest: ask_run elim!: andthenE)
qed

lemma entries_ok_add:
  assumes "entries_ok tokens es" "to_lower a = a" "m \<in> insert NATIVE_ASSET (tk_asset ` set tokens)" "\<not> has_entry a m es"
  shows "entries_ok tokens (es @ [(a, m, n)])"
  using assms by (force simp: entries_ok_def has_entry_def)

lemma native_observed:
  assumes "observe_native p number es a w = (Inr es', w')" "entries_ok tokens es" "to_lower a = a"
  shows "entries_ok tokens es' \<and> set es \<subseteq> set es'"
proof (cases "has_entry a ''ETH'' es")
  case True
  with assms show ?thesis by (simp add: observe_native_def ret_def)
next
  case False
  with assms(1) have "es' = es @ [(a, ''ETH'', 0)]"
    by (auto simp: observe_native_def ret_def lift_run elim!: andthenE)
  with False entries_ok_add [OF assms(2,3), of NATIVE_ASSET 0] show ?thesis by (auto simp: NATIVE_ASSET_def)
qed

lemma entry_delta_some: "entry_delta a m es = Some n \<Longrightarrow> (a, m, n) \<in> set es"
proof -
  assume "entry_delta a m es = Some n"
  then obtain e where e: "find (\<lambda>e. fst e = a \<and> fst (snd e) = m) es = Some e" "snd (snd e) = n"
    by (auto simp: entry_delta_def)
  then have "e \<in> set es" "fst e = a" "fst (snd e) = m" by (auto simp: find_Some_iff)
  with e(2) show ?thesis by (metis prod.collapse)
qed

lemma entry_delta_none: "entry_delta a m es = None \<longleftrightarrow> \<not> has_entry a m es"
  by (auto simp: entry_delta_def has_entry_def find_None_iff)

text \<open>The two balances that the node gave for an account and a token, and their entry.\<close>

definition token_observed ::
  "'w evm_rpc \<Rightarrow> observation \<Rightarrow> erc20_token \<Rightarrow> string \<Rightarrow> string \<Rightarrow> balance_entry list \<Rightarrow> bool" where
  "token_observed p o' t token a es \<longleftrightarrow> (\<exists>before after.
     balance_answer p (ob_from o') (ob_number o') token a [] before \<and>
     balance_answer p (ob_from o') (ob_number o') token a [ob_overrides o'] after \<and> (a, tk_asset t, after - before) \<in> set es)"

lemma token_observation:
  assumes "observe_token p o' t token es a w = (Inr es', w')" "entries_ok tokens es" "to_lower a = a" "t \<in> set tokens"
  shows "entries_ok tokens es' \<and> set es \<subseteq> set es' \<and> token_observed p o' t token a es'"
proof -
  let ?d = "entry_delta a (tk_asset t) es"
  obtain x y before after where run: "answered p ''eth_call'' [probe_json (ob_from o') token a, JStr (ob_number o')] x" "tokenAmount x = Inr before"
    "answered p ''eth_call'' [probe_json (ob_from o') token a, JStr (ob_number o'), ob_overrides o'] y" "tokenAmount y = Inr after"
    "after - before = (case ?d of None \<Rightarrow> 0 | Some n \<Rightarrow> n)"
    "es' = (if ?d = None then es @ [(a, tk_asset t, 0)] else es)"
    using assms(1)
    by (auto simp: observe_token_def Let_def lift_run refuse_run ret_def dest!: ask_run elim!: andthenE)
  then have answers: "balance_answer p (ob_from o') (ob_number o') token a [] before"
    "balance_answer p (ob_from o') (ob_number o') token a [ob_overrides o'] after"
    by (auto simp: balance_answer_def)
  have "(a, tk_asset t, after - before) \<in> set es'" "set es \<subseteq> set es'"
    using run(5,6) entry_delta_some by (auto split: if_splits option.splits)
  moreover have "entries_ok tokens es'"
    using run(6) assms(2-4) entries_ok_add entry_delta_none by (auto split: if_splits)
  ultimately show ?thesis using answers by (auto simp: token_observed_def)
qed

lemma token_observed_mono: "token_observed p o' t token a es \<Longrightarrow> set es \<subseteq> set es' \<Longrightarrow> token_observed p o' t token a es'"
  unfolding token_observed_def by blast

lemma token_loop:
  assumes "fold_eff (observe_token p o' t token) es observed w = (Inr es', w')" "entries_ok tokens es" "t \<in> set tokens"
    and "\<forall>a \<in> set observed. to_lower a = a"
  shows "entries_ok tokens es' \<and> set es \<subseteq> set es' \<and> (\<forall>a \<in> set observed. token_observed p o' t token a es')"
proof -
  let ?P = "\<lambda>es'. entries_ok tokens es' \<and> set es \<subseteq> set es'"
  have step: "?P u'" if "a \<in> set observed" "?P u" "observe_token p o' t token u a v = (Inr u', v')" for u a u' v v'
    using token_observation [OF that(3) _ _ assms(3)] that(1,2) assms(4) by blast
  have "?P es'" by (rule fold_eff_invariant [where P = ?P, OF assms(1)]) (use assms(2) step in blast)+
  moreover have "token_observed p o' t token a es'" if a: "a \<in> set observed" for a
  proof (rule fold_eff_member [where P = ?P and Q = "token_observed p o' t token a", OF assms(1) a])
    show "?P es" using assms(2) by simp
  next
    fix u b u' v v' assume "b \<in> set observed" "?P u" "observe_token p o' t token u b v = (Inr u', v')"
    then show "?P u'" by (rule step)
  next
    fix u u' v v' assume u: "?P u" "observe_token p o' t token u a v = (Inr u', v')"
    from token_observation [OF u(2) _ _ assms(3)] u(1) assms(4) a show "token_observed p o' t token a u'" by simp
  next
    fix u b u' v v'
    assume u: "b \<in> set observed" "?P u" "token_observed p o' t token a u" "observe_token p o' t token u b v = (Inr u', v')"
    from token_observation [OF u(4) _ _ assms(3)] u(1,2) assms(4) token_observed_mono [OF u(3)]
    show "token_observed p o' t token a u'" by simp
  qed
  ultimately show ?thesis by blast
qed

lemma tokens_loop:
  assumes "fold_eff (observe_tokens p o' observed) es ts w = (Inr es', w')" "entries_ok tokens es" "set ts \<subseteq> set tokens"
    and "\<forall>a \<in> set observed. to_lower a = a"
  shows "entries_ok tokens es' \<and> set es \<subseteq> set es' \<and> (\<forall>t \<in> set ts. \<exists>token. proper_address (rp_viem p) (tk_address t) = Some token \<and>
    (\<forall>a \<in> set observed. token_observed p o' t token a es'))"
proof -
  let ?P = "\<lambda>es'. entries_ok tokens es' \<and> set es \<subseteq> set es'"
  let ?Q = "\<lambda>t es'. \<exists>token. proper_address (rp_viem p) (tk_address t) = Some token \<and> (\<forall>a \<in> set observed. token_observed p o' t token a es')"
  have step: "entries_ok tokens u' \<and> set u \<subseteq> set u' \<and> ?Q t u'"
    if "t \<in> set ts" "entries_ok tokens u" and run: "observe_tokens p o' observed u t v = (Inr u', v')" for u t u' v v'
  proof -
    obtain token w1 where "proper_address (rp_viem p) (tk_address t) = Some token"
      "fold_eff (observe_token p o' t token) u observed w1 = (Inr u', v')"
      using run by (auto simp: observe_tokens_def lift_run rpc_address_def elim!: andthenE split: option.splits)
    with token_loop [OF this(2) that(2) _ assms(4)] that(1) assms(3) show ?thesis by blast
  qed
  have stepP: "?P u'" if "t \<in> set ts" "?P u" "observe_tokens p o' observed u t v = (Inr u', v')" for u t u' v v'
    using step [OF that(1) _ that(3)] that(2) by blast
  have "?P es'" by (rule fold_eff_invariant [where P = ?P, OF assms(1)]) (use assms(2) stepP in blast)+
  moreover have "?Q t es'" if t: "t \<in> set ts" for t
  proof (rule fold_eff_member [where P = ?P and Q = "?Q t", OF assms(1) t])
    show "?P es" using assms(2) by simp
  next
    fix u b u' v v' assume "b \<in> set ts" "?P u" "observe_tokens p o' observed u b v = (Inr u', v')"
    then show "?P u'" by (rule stepP)
  next
    fix u u' v v' assume u: "?P u" "observe_tokens p o' observed u t v = (Inr u', v')"
    from step [OF t _ u(2)] u(1) show "?Q t u'" by simp
  next
    fix u b u' v v' assume u: "b \<in> set ts" "?P u" "?Q t u" "observe_tokens p o' observed u b v = (Inr u', v')"
    have "set u \<subseteq> set u'" using step [OF u(1) _ u(4)] u(2) by simp
    with u(3) show "?Q t u'" using token_observed_mono by blast
  qed
  ultimately show ?thesis by blast
qed

lemma native_loop:
  assumes "fold_eff (observe_native p number) es observed w = (Inr es', w')" "entries_ok tokens es" "\<forall>a \<in> set observed. to_lower a = a"
  shows "entries_ok tokens es' \<and> set es \<subseteq> set es'"
proof (rule fold_eff_invariant [where P = "\<lambda>es'. entries_ok tokens es' \<and> set es \<subseteq> set es'", OF assms(1)])
  fix u a u' v v'
  assume u: "a \<in> set observed" "entries_ok tokens u \<and> set es \<subseteq> set u" "observe_native p number u a v = (Inr u', v')"
  from native_observed [OF u(3)] u(1,2) assms(3) show "entries_ok tokens u' \<and> set es \<subseteq> set u'" by (meson subset_trans)
qed (use assms(2) in simp)

subsection \<open>The simulation\<close>

text \<open>A normal address is its own normal form.\<close>

definition normal_addresses :: "viem \<Rightarrow> bool" where
  "normal_addresses v \<longleftrightarrow> (\<forall>a b. proper_address v a = Some b \<longrightarrow> proper_address v b = Some b)"

lemma normal_accounts:
  assumes "normalizeAccounts v x = Inr y" "normal_addresses v"
  shows "\<forall>k \<in> fst ` set (members y). proper_address v k = Some k"
proof -
  obtain m where m: "fold_try (normal_account v) [] (members x) = Inr m" "y = JObj m"
    using assms(1) by (auto simp: normalizeAccounts_def elim!: map_sum_Inr)
  have "\<forall>k \<in> fst ` set m. proper_address v k = Some k"
  proof (rule fold_try_invariant [OF m(1)])
    fix m e m'
    assume "normal_account v m e = Inr m'" "\<forall>k \<in> fst ` set m. proper_address v k = Some k"
    then show "\<forall>k \<in> fst ` set m'. proper_address v k = Some k"
      using assms(2)
      by (auto simp: normal_account_def rpc_address_def normal_addresses_def split: option.splits if_splits elim!: map_sum_Inr)
  qed simp
  then show ?thesis by (simp add: m(2))
qed

lemma all_addresses_proper:
  "all_addresses v xs = Inr ys \<Longrightarrow> a \<in> set ys \<Longrightarrow> \<exists>b. proper_address v b = Some a"
  by (induction xs arbitrary: ys) (auto simp: rpc_address_def split: option.splits elim!: map_sum_Inr)

lemma observed_proper:
  assumes "observed_accounts v c sender target tx = Inr observed" "normal_addresses v"
  shows "\<forall>a \<in> set observed. proper_address v a = Some a"
proof -
  obtain ys xs where ys: "all_addresses v xs = Inr ys" "observed = remdups_keys ys"
    using assms(1) unfolding observed_accounts_def by (elim map_sum_Inr) blast
  then show ?thesis using all_addresses_proper [OF ys(1)] assms(2) unfolding normal_addresses_def by fastforce
qed

lemma assets_inj:
  assumes "buildSlotIndex v tokens observed = Inr index"
  shows "inj_on to_lower (insert NATIVE_ASSET (tk_asset ` set tokens))"
proof -
  have "inj_on (\<lambda>t. to_lower (tk_asset t)) (set tokens)" using index_assets(1) [OF assms] by (simp add: distinct_map)
  then have "inj_on to_lower (tk_asset ` set tokens)" by (auto simp: inj_on_def)
  moreover have "to_lower NATIVE_ASSET \<notin> to_lower ` (tk_asset ` set tokens - {NATIVE_ASSET})"
    using index_assets(2) [OF assms] by auto
  ultimately show ?thesis by (simp add: inj_on_insert)
qed

text \<open>
  The calls behind a simulation: the sender and the accounts observed, the block, the same at the end,
  the state diff of the call on it, and the overrides that put the state after in its place.
\<close>

definition evm_evidence ::
  "host \<Rightarrow> 'w evm_rpc \<Rightarrow> evm_request \<Rightarrow> string list \<Rightarrow> string \<Rightarrow> string \<times> string \<Rightarrow> jsval \<Rightarrow> jsval \<Rightarrow> jsval \<Rightarrow> bool" where
  "evm_evidence h p tx observed sender block pre post overrides \<longleftrightarrow> (\<exists>target x.
     rpc_address (rp_viem p) (case eq_from tx of Some a \<Rightarrow> a | None \<Rightarrow>
       (case pc_fromAddress (rp_config p) of Some a \<Rightarrow> a | None \<Rightarrow> [])) = Inr sender \<and>
     rpc_address (rp_viem p) (et_to tx) = Inr target \<and>
     observed_accounts (rp_viem p) (rp_config p) sender target tx = Inr observed \<and>
     block_answer p ''latest'' block \<and> block_answer p (fst block) block \<and>
     trace_answer p tx sender target (fst block) pre post \<and> stateOverrides (rp_viem p) pre post = Inr overrides \<and>
     classifyAndExtract h (rp_viem p) pre post (optional_list (pc_erc20Tokens (rp_config p))) observed = Inr x)"

text \<open>Every account of the state diff and every pair of token and observed account has its entry.\<close>

definition entries_witnessed ::
  "'w evm_rpc \<Rightarrow> string list \<Rightarrow> string \<Rightarrow> string \<Rightarrow> jsval \<Rightarrow> jsval \<Rightarrow> jsval \<Rightarrow> balance_entry list \<Rightarrow> bool" where
  "entries_witnessed p observed sender number pre post overrides es \<longleftrightarrow>
     (\<forall>k \<in> fst ` set (members pre) \<union> fst ` set (members post). \<exists>native changes.
        account_diff (js_get pre k) (js_get post k) k native changes \<and> native_answer p number k (snd native) \<and>
        (k, NATIVE_ASSET, fst native) \<in> set es) \<and>
     (\<forall>t \<in> set (optional_list (pc_erc20Tokens (rp_config p))). \<exists>token. proper_address (rp_viem p) (tk_address t) = Some token \<and>
        (\<forall>a \<in> set observed. \<exists>before after. balance_answer p sender number token a [] before \<and>
           balance_answer p sender number token a [overrides] after \<and> (a, tk_asset t, after - before) \<in> set es))"

lemma balances_observed:
  assumes "observe_balances p sender number tokens observed (pre, post, x) w = (Inr es, w')"
    and "classifyAndExtract h (rp_viem p) pre post tokens observed = Inr x"
    and "\<forall>a \<in> set observed. proper_address (rp_viem p) a = Some a"
    and "\<forall>k \<in> fst ` set (members pre) \<union> fst ` set (members post). proper_address (rp_viem p) k = Some k"
    and "tokens = optional_list (pc_erc20Tokens (rp_config p))"
  shows "\<exists>overrides. stateOverrides (rp_viem p) pre post = Inr overrides \<and> entries_ok tokens es \<and>
    entries_witnessed p observed sender number pre post overrides es"
proof -
  have lower: "\<forall>a \<in> set observed. to_lower a = a" using assms(3) proper_lower by blast
  obtain u w1 overrides es1 w2 w3 where run: "fold_eff (check_native p number) () (xt_nativeProbes x) w = (Inr u, w1)"
    "stateOverrides (rp_viem p) pre post = Inr overrides"
    "fold_eff (observe_native p number) (xt_changes x) observed w2 = (Inr es1, w3)"
    "fold_eff (observe_tokens p \<lparr>ob_from = sender, ob_number = number, ob_overrides = overrides, ob_probes = xt_probes x\<rparr>
       observed) es1 tokens w3 = (Inr es, w')"
    using assms(1) by (auto simp: observe_balances_def lift_run elim!: andthenE)
  note x = extraction_entries [OF assms(2) assms(3,4)]
  have es1: "entries_ok tokens es1" "set (xt_changes x) \<subseteq> set es1" using native_loop [OF run(3) _ lower] x by blast+
  have es: "entries_ok tokens es" "set es1 \<subseteq> set es"
    "\<forall>t \<in> set tokens. \<exists>token. proper_address (rp_viem p) (tk_address t) = Some token \<and> (\<forall>a \<in> set observed.
       token_observed p \<lparr>ob_from = sender, ob_number = number, ob_overrides = overrides, ob_probes = xt_probes x\<rparr> t token a es)"
    using tokens_loop [OF run(4) es1(1) _ lower] by simp_all
  have "\<forall>k \<in> fst ` set (members pre) \<union> fst ` set (members post). \<exists>native changes.
      account_diff (js_get pre k) (js_get post k) k native changes \<and> native_answer p number k (snd native) \<and>
      (k, NATIVE_ASSET, fst native) \<in> set es"
    using x native_checked [OF run(1)] es1(2) es(2) by blast
  then have "entries_witnessed p observed sender number pre post overrides es"
    using es(3) unfolding entries_witnessed_def token_observed_def assms(5) observation.simps by blast
  with run(2) es(1) show ?thesis by blast
qed

lemma ret_changes:
  "ret \<lparr>es_success = b, es_gasUsed = g, es_balanceChanges = cs, es_balanceChangesReliable = l, es_error = e\<rparr> w = (Inr r, w') \<Longrightarrow>
   es_balanceChanges r = cs"
  by (auto simp: ret_def)

lemma simulation_sound:
  assumes "evm_simulateTransaction h p chain tx w = (Inr r, w')" "es_success r" "normal_addresses (rp_viem p)"
  shows "\<exists>observed sender block pre post overrides es. evm_evidence h p tx observed sender block pre post overrides \<and>
    es_balanceChanges r = map evm_change es \<and> entries_ok (optional_list (pc_erc20Tokens (rp_config p))) es \<and>
    entries_witnessed p observed sender (fst block) pre post overrides es"
proof -
  let ?v = "rp_viem p" and ?c = "rp_config p" and ?fmt = "number_to_string h"
  let ?tokens = "optional_list (pc_erc20Tokens ?c)"
  have body: "evm_simulate_body h p chain tx w = (Inr r, w')"
    using assms(1,2)
    by (auto simp: evm_simulateTransaction_def try_catch_def ret_def failed_simulation_def split: prod.splits sum.splits)
  obtain sender target observed latest block val trace w1 rr w2 es w3 again where run:
    "rpc_address ?v (case eq_from tx of Some a \<Rightarrow> a | None \<Rightarrow> (case pc_fromAddress ?c of Some a \<Rightarrow> a | None \<Rightarrow> [])) = Inr sender"
    "rpc_address ?v (et_to tx) = Inr target" "observed_accounts ?v ?c sender target tx = Inr observed"
    "answered p ''eth_getBlockByNumber'' [JStr ''latest'', JBool False] latest" "pinnedBlock ?v latest = Inr block"
    "call_value ?v (et_value tx) = Inr val"
    "answered p ''debug_traceCall'' [call_json sender target (case et_data tx of None \<Rightarrow> ''0x'' | Some d \<Rightarrow> d) val, JStr (fst block),
       tracer ''prestateTracer'' ''diffMode''] trace"
    "read_trace h ?v sender ?tokens observed trace = Inr rr"
    "observe_balances p sender (fst block) ?tokens observed rr w2 = (Inr es, w3)"
    "answered p ''eth_getBlockByNumber'' [JStr (fst block), JBool False] again" "pinnedBlock ?v again = Inr block"
    "es_balanceChanges r = map evm_change es"
    using body
    unfolding evm_simulate_body_def Let_def
    apply (elim andthenE)
    apply (simp only: lift_run refuse_run not_not)
    apply (elim conjE)
    apply hypsubst_thin
    apply (rule that)
    apply (assumption | erule ask_run | erule ret_changes)+
    done
  obtain pre post x where rr: "rr = (pre, post, x)" "normalizeAccounts ?v (js_get trace ''pre'') = Inr pre"
    "normalizeAccounts ?v (js_get trace ''post'') = Inr post" "classifyAndExtract h ?v pre post ?tokens observed = Inr x"
    using run(8) by (auto simp: read_trace_def split: if_splits sum.splits)
  have "\<forall>k \<in> fst ` set (members pre) \<union> fst ` set (members post). proper_address ?v k = Some k"
    using normal_accounts [OF rr(2) assms(3)] normal_accounts [OF rr(3) assms(3)] by blast
  from balances_observed [OF run(9) [unfolded rr(1)] rr(4) observed_proper [OF run(3) assms(3)] this refl]
  obtain overrides where o': "stateOverrides ?v pre post = Inr overrides" "entries_ok ?tokens es"
    "entries_witnessed p observed sender (fst block) pre post overrides es" by blast
  have "evm_evidence h p tx observed sender block pre post overrides"
    unfolding evm_evidence_def block_answer_def trace_answer_def
    using run(1-7,10,11) rr(2-4) o'(1) by blast
  with o'(2,3) run(12) show ?thesis by blast
qed

subsection \<open>What a signature means for the accounts\<close>

text \<open>A change of an account, in normal form, is in the range of every delta for it; without one it is none.\<close>

definition delta_for :: "expected_delta \<Rightarrow> string \<Rightarrow> string \<Rightarrow> bool" where
  "delta_for d a asset \<longleftrightarrow> to_lower (ed_owner d) = a \<and> to_lower (ed_asset d) = to_lower asset"

definition evm_delta_allowed :: "expected_delta list \<Rightarrow> string \<Rightarrow> string \<Rightarrow> int \<Rightarrow> bool" where
  "evm_delta_allowed ds a asset n \<longleftrightarrow> (n = 0 \<or> (\<exists>d \<in> set ds. delta_for d a asset)) \<and>
     (\<forall>d \<in> set ds. delta_for d a asset \<longrightarrow> (\<exists>lo hi. parseDelta (JStr (ed_minDelta d)) = Some lo \<and>
        parseDelta (JStr (ed_maxDelta d)) = Some hi \<and> lo \<le> n \<and> n \<le> hi))"

lemma evm_change_matches:
  "change_matches Ethereum (evm_change e) d \<longleftrightarrow> to_lower (ed_owner d) = to_lower (fst e) \<and> to_lower (ed_asset d) = to_lower (fst (snd e))"
  by (simp add: change_matches_def evm_change_def js_get_def)

lemma evm_change_delta [simp]: "change_delta (evm_change e) = Some (snd (snd e))"
  by (simp add: change_delta_def evm_change_def js_get_def)

lemma filter_key: "distinct (map f xs) \<Longrightarrow> x \<in> set xs \<Longrightarrow> filter (\<lambda>y. f y = f x) xs = [x]"
proof (induction xs)
  case (Cons y ys)
  then show ?case
  proof (cases "x = y")
    case True
    with Cons.prems(1) have "filter (\<lambda>z. f z = f x) ys = []" by (auto simp: filter_empty_conv image_iff)
    with True show ?thesis by simp
  next
    case False
    with Cons show ?thesis by (auto simp: image_iff)
  qed
qed simp

lemma entry_allowed:
  assumes "deltas_respected Ethereum (map evm_change es) ds" "entries_ok tokens es" "(a, m, n) \<in> set es"
    and "inj_on to_lower (insert NATIVE_ASSET (tk_asset ` set tokens))"
  shows "evm_delta_allowed ds a m n"
proof -
  have normal: "to_lower (fst e) = fst e" "fst (snd e) \<in> insert NATIVE_ASSET (tk_asset ` set tokens)" if "e \<in> set es" for e
    using assms(2) that by (auto simp: entries_ok_def)
  have m: "to_lower a = a" "m \<in> insert NATIVE_ASSET (tk_asset ` set tokens)" using normal [OF assms(3)] by (simp_all only: fst_conv snd_conv)
  have match: "change_matches Ethereum (evm_change e) d \<longleftrightarrow> (fst e, fst (snd e)) = (a, m)"
    if e: "e \<in> set es" and d: "delta_for d a m" for e d
  proof -
    have "to_lower (fst (snd e)) = to_lower m \<longleftrightarrow> fst (snd e) = m"
      using inj_onD [OF assms(4) _ normal(2) [OF e] m(2)] by blast
    with d normal(1) [OF e] show ?thesis unfolding evm_change_matches delta_for_def prod.inject by metis
  qed
  have single: "filter (\<lambda>v. change_matches Ethereum v d) (map evm_change es) = [evm_change (a, m, n)]" if "delta_for d a m" for d
  proof -
    have "filter (\<lambda>e. change_matches Ethereum (evm_change e) d) es = filter (\<lambda>e. (fst e, fst (snd e)) = (a, m)) es"
      using match that by (intro filter_cong) auto
    also have "\<dots> = [(a, m, n)]"
      using filter_key [of "\<lambda>e. (fst e, fst (snd e))" es "(a, m, n)"] assms(2,3) by (simp add: entries_ok_def)
    finally show ?thesis by (simp add: filter_map comp_def)
  qed
  have "n = 0 \<or> (\<exists>d \<in> set ds. delta_for d a m)"
  proof -
    have "(\<exists>d \<in> set ds. change_matches Ethereum (evm_change (a, m, n)) d) \<or> change_delta (evm_change (a, m, n)) = Some 0"
      using assms(1,3) unfolding deltas_respected_def by force
    then show ?thesis using normal(1) [OF assms(3)] by (auto simp: evm_change_matches delta_for_def)
  qed
  moreover have "\<exists>lo hi. parseDelta (JStr (ed_minDelta d)) = Some lo \<and> parseDelta (JStr (ed_maxDelta d)) = Some hi \<and> lo \<le> n \<and> n \<le> hi"
    if d: "d \<in> set ds" "delta_for d a m" for d
  proof -
    obtain ns lo hi where "those (map change_delta (filter (\<lambda>v. change_matches Ethereum v d) (map evm_change es))) = Some ns"
      "parseDelta (JStr (ed_minDelta d)) = Some lo" "parseDelta (JStr (ed_maxDelta d)) = Some hi" "lo \<le> sum_list ns" "sum_list ns \<le> hi"
      using bspec [OF conjunct2 [OF assms(1) [unfolded deltas_respected_def]] d(1)] by (elim exE conjE) (rule that)
    then show ?thesis by (auto simp: single [OF d(2)])
  qed
  ultimately show ?thesis by (simp add: evm_delta_allowed_def)
qed

text \<open>The entries of a simulation are what the node said, and the deltas hold for what the node said.\<close>

lemma witnessed_allowed:
  assumes "entries_witnessed p observed sender number pre post overrides es"
    and "deltas_respected Ethereum (map evm_change es) ds" "entries_ok (optional_list (pc_erc20Tokens (rp_config p))) es"
    and "inj_on to_lower (insert NATIVE_ASSET (tk_asset ` set (optional_list (pc_erc20Tokens (rp_config p)))))"
  shows "\<forall>k \<in> fst ` set (members pre) \<union> fst ` set (members post). \<exists>native changes.
      account_diff (js_get pre k) (js_get post k) k native changes \<and> native_answer p number k (snd native) \<and>
      evm_delta_allowed ds k NATIVE_ASSET (fst native)"
    and "\<forall>t \<in> set (optional_list (pc_erc20Tokens (rp_config p))). \<exists>token. proper_address (rp_viem p) (tk_address t) = Some token \<and>
      (\<forall>a \<in> set observed. \<exists>before after. balance_answer p sender number token a [] before \<and>
         balance_answer p sender number token a [overrides] after \<and> evm_delta_allowed ds a (tk_asset t) (after - before))"
  using assms(1) entry_allowed [OF assms(2,3) _ assms(4)] unfolding entries_witnessed_def by meson+

text \<open>C37. What an Ethereum transaction that is signed does to the accounts: with the JSON-RPC provider behind
  the connector, the simulation that let it pass ran on one block, whose hash was the same at the end. For
  every account of the state diff of that call, the change of its native balance, from the balance that the
  node reports, is in the range of every expected delta for it, and is none without one. The same holds for
  every observed account and every configured token, between what \<open>balanceOf\<close> answers on that block and what
  it answers with the state after the call in its place.\<close>

theorem evm_signed_effects:
  assumes "em_simulate v = evm_simulateTransaction h p chain" "normal_addresses (rp_viem p)"
    and "run_conn (logged EvmChecked check) (evm_execute (logged_evm v) i) (w, []) = (r, (t, events))"
    and "EvmSigned tx out \<in> set events"
  shows "\<exists>e x ds q observed sender block pre post overrides.
    i = OnchainSigningIntent e x \<and> oc_expectedDeltas x = Some ds \<and> evm_transaction.truncate q = tx \<and>
    evm_evidence h p q observed sender block pre post overrides \<and>
    (\<forall>k \<in> fst ` set (members pre) \<union> fst ` set (members post). \<exists>native changes.
       account_diff (js_get pre k) (js_get post k) k native changes \<and> native_answer p (fst block) k (snd native) \<and>
       evm_delta_allowed ds k NATIVE_ASSET (fst native)) \<and>
    (\<forall>t \<in> set (optional_list (pc_erc20Tokens (rp_config p))). \<exists>token. proper_address (rp_viem p) (tk_address t) = Some token \<and>
       (\<forall>a \<in> set observed. \<exists>before after. balance_answer p sender (fst block) token a [] before \<and>
          balance_answer p sender (fst block) token a [overrides] after \<and> evm_delta_allowed ds a (tk_asset t) (after - before)))"
proof -
  obtain e x s ds q sim where run: "i = OnchainSigningIntent e x" "evm_cleared (em_config v) (env_environment e) x ds"
    "events = [EvmSimulated q (Inr sim), EvmChecked (Inr ()), EvmSigned tx out]" "evm_transaction.truncate q = tx"
    "es_success sim" "deltas_respected Ethereum (es_balanceChanges sim) ds"
    using evm_runs [OF assms(3,4)] by blast
  obtain w' where "fst (em_simulate v q w') = Inr sim" using evm_simulated_event [OF assms(3)] run(3) by fastforce
  then obtain w'' where "evm_simulateTransaction h p chain q w' = (Inr sim, w'')"
    unfolding assms(1) by (metis prod.collapse)
  from simulation_sound [OF this run(5) assms(2)] obtain observed sender block pre post overrides es where sim:
    "evm_evidence h p q observed sender block pre post overrides" "es_balanceChanges sim = map evm_change es"
    "entries_ok (optional_list (pc_erc20Tokens (rp_config p))) es"
    "entries_witnessed p observed sender (fst block) pre post overrides es" by blast
  obtain y where "classifyAndExtract h (rp_viem p) pre post (optional_list (pc_erc20Tokens (rp_config p))) observed = Inr y"
    using sim(1) unfolding evm_evidence_def by blast
  then obtain seen index where "buildSlotIndex (rp_viem p) (optional_list (pc_erc20Tokens (rp_config p))) seen = Inr index"
    by (rule classify_Inr)
  note allowed = witnessed_allowed [OF sim(4) run(6) [unfolded sim(2)] sim(3) assets_inj [OF this]]
  have "oc_expectedDeltas x = Some ds" using run(2) by (simp add: evm_cleared_def)
  with run(1,4) sim(1) allowed show ?thesis by blast
qed

end
