(* ===== verification/EvmSamples.thy ===== *)
theory EvmSamples
  imports EvmEffects
begin

text \<open>
  A node that answers every request of a simulation, and a transfer that is signed on its answers: the
  hypotheses of the properties of the Ethereum provider hold together. Every slot of its token is the
  same word, and every word is zero.
\<close>

subsection \<open>A node\<close>

definition zero_word :: string where
  "zero_word = ''0x'' @ replicate 64 CHR ''0''"

definition sample_viem :: viem where
  "sample_viem = \<lparr>vi_isAddress = (\<lambda>a. True), vi_getAddress = Inr, vi_keccak = (\<lambda>a n. zero_word),
     vi_toHex = (\<lambda>size n. Inr (if size = None then ''0x1'' else zero_word))\<rparr>"

definition sample_token :: erc20_token where
  "sample_token = \<lparr>tk_address = ''0xt'', tk_asset = ''T'', tk_balanceSlot = Some (SlotNum (Fin 0)),
     tk_allowanceSlot = None, tk_totalSupplySlot = None\<rparr>"

definition node_answer :: "string \<Rightarrow> jsval list \<Rightarrow> jsval" where
  "node_answer m params =
     (if m = ''eth_getBlockByNumber'' then JObj [(''hash'', JStr zero_word), (''number'', JStr ''0x1'')]
      else if m = ''debug_traceCall'' then
        (if params ! 2 = tracer ''callTracer'' ''onlyTopCall''
         then JObj [(''from'', JStr ''0xs''), (''to'', JStr ''0xt''), (''gasUsed'', JStr ''0x1'')]
         else JObj [(''pre'', JObj [(''0xs'', JObj [(''balance'', JStr ''0x0'')])]), (''post'', JObj [(''0xs'', JObj [])])])
      else if m = ''eth_getBalance'' then JStr ''0x0'' else JStr zero_word)"

definition sample_node :: "unit evm_rpc" where
  "sample_node = \<lparr>rp_config = \<lparr>pc_chainEnvironment = Sepolia, pc_chainId = None, pc_fromAddress = None,
       pc_observedAccounts = None, pc_allowedRecipients = None, pc_allowedSpenders = None,
       pc_erc20Tokens = Some [sample_token]\<rparr>,
     rp_viem = sample_viem, rp_getChainId = ret (Fin 11155111),
     rp_request = (\<lambda>m params. ret (node_answer m params))\<rparr>"

lemma lower_nothing [simp]: "to_lower a = [] \<longleftrightarrow> a = []"
  by (cases a) (simp_all add: to_lower_def)

lemma sample_proper [simp]: "proper_address sample_viem a = (if a = [] then None else Some (to_lower a))"
  by (auto simp: proper_address_def normalizeAddress_def sample_viem_def)

lemma sample_normal: "normal_addresses sample_viem"
  by (auto simp: normal_addresses_def split: if_splits)

lemma lower_samples [simp]: "to_lower ''0xs'' = ''0xs''" "to_lower ''0xt'' = ''0xt''" "to_lower ''T'' = ''t''"
  "to_lower ''eth'' = ''eth''" "to_lower ''ETH'' = ''eth''" "to_lower null_address = null_address" "to_lower zero_word = zero_word"
  by (simp_all add: to_lower_def lower_char_def null_address_def zero_word_def char_of_def bit_0 bit_Suc)

lemma null_address_differs [simp]: "null_address \<noteq> ''0xs''" "null_address \<noteq> ''0xt''" "null_address \<noteq> []"
  "''0xs'' \<noteq> null_address" "''0xt'' \<noteq> null_address"
  by (simp_all add: null_address_def numeral_eq_Suc)

lemma zero_text: "is_hex CHR ''0''" "hex_value CHR ''0'' = 0"
  by (simp_all add: is_hex_def is_lower_hex_def hex_value_def is_digit_def)

lemma zero_sum: "foldl (\<lambda>n c. 16 * n + hex_value c) 0 (replicate k CHR ''0'') = 0"
  by (induction k) (simp_all add: zero_text)

lemma zero_word_texts: "word_text zero_word" "hex_text zero_word"
  by (simp_all add: word_text_def hex_text_def zero_word_def zero_text list_all_iff)


lemma zero_word_amount: "tokenAmount (JStr zero_word) = Inr 0"
proof -
  have "trim zero_word = zero_word"
    by (simp add: zero_word_def trim_def is_space_def numeral_eq_Suc)
  then have "big_int zero_word = Some 0"
    using zero_word_texts zero_sum [of 64]
    by (simp add: big_int_def Let_def radix_number_def zero_word_def zero_text list_all_iff to_lower_def lower_char_def)
  then show ?thesis by (simp add: zero_word_texts)
qed

lemma sample_quantities [simp]: "parseQuantity (JStr ''0x0'') = Some 0" "parseQuantity (JStr ''0x1'') = Some 1"
  by (simp_all add: quantity_text_def hex_text_def is_hex_def is_lower_hex_def is_digit_def big_int_def Let_def trim_def
      is_space_def radix_number_def hex_value_def to_lower_def lower_char_def uint256_def)

declare parseQuantity.simps(2) [simp del]

subsection \<open>The simulation\<close>

definition sample_call :: evm_request where
  "sample_call = \<lparr>et_to = ''0xt'', et_data = Some (ERC20_TRANSFER_SELECTOR @ replicate 128 CHR ''0''), et_value = None,
     eq_from = Some ''0xs'', eq_observedAddresses = [null_address, null_address]\<rparr>"

definition sample_diff :: "jsval \<times> jsval" where
  "sample_diff = (JObj [(''0xs'', JObj [(''balance'', JStr ''0x0'')])], JObj [(''0xs'', JObj [])])"

lemma sample_accounts: "observed_accounts sample_viem (rp_config sample_node) ''0xs'' ''0xt'' sample_call =
  Inr [''0xs'', ''0xt'', null_address]"
  by (simp add: observed_accounts_def sample_call_def sample_node_def optional_list_def rpc_address_def remdups_keys_def)

lemma sample_token_simps [simp]: "tk_address sample_token = ''0xt''" "tk_asset sample_token = ''T''"
  "tk_balanceSlot sample_token = Some (SlotNum (Fin 0))" "tk_allowanceSlot sample_token = None"
  "tk_totalSupplySlot sample_token = None" "given_slot (Some (SlotNum (Fin 0))) = Some (SlotNum (Fin 0))" "given_slot None = None"
  by (simp_all add: sample_token_def given_slot_def)

lemma sample_slot [simp]: "erc20BalanceSlot sample_viem a n = Inr zero_word" "uint256 0 = Some 0"
  by (simp_all add: erc20BalanceSlot_def mappingSlot_def sample_viem_def uint256_def)

lemma sample_slots: "token_slots sample_viem sample_token [''0xs'', ''0xt'', null_address] (SlotNum (Fin 0)) =
  Inr [(zero_word, BalanceSlot ''T'' null_address)]"
  by (simp add: token_slots_def balance_slots_def parseSlotIndex_def put_slot_def)

lemma sample_index: "buildSlotIndex sample_viem [sample_token] [''0xs'', ''0xt'', null_address] =
  Inr [(''0xt'', [(zero_word, BalanceSlot ''T'' null_address)])]"
  by (simp add: buildSlotIndex_def index_token_def NATIVE_ASSET_def sample_slots)

lemma sample_extraction: "classifyAndExtract sample_host sample_viem (fst sample_diff) (snd sample_diff) [sample_token]
    [''0xs'', ''0xt'', null_address] =
  Inr \<lparr>xt_changes = [(''0xs'', NATIVE_ASSET, 0)], xt_probes = [], xt_nativeProbes = [(''0xs'', 0)]\<rparr>"
proof -
  have seen: "fold_try (observe_address sample_viem) [] [''0xs'', ''0xt'', null_address] = Inr [''0xs'', ''0xt'', null_address]"
    by (simp add: observe_address_def)
  have known: "fold_try (token_addresses sample_viem) [] [sample_token] = Inr [''0xt'']"
    by (simp add: token_addresses_def)
  have account: "trace_account \<lparr>tc_viem = sample_viem, tc_pre = fst sample_diff, tc_post = snd sample_diff, tc_index = index,
      tc_tokens = [''0xt''], tc_observed = seen\<rparr> \<lparr>ts_eth = [], ts_token = [], ts_probes = [], ts_nativeProbes = []\<rparr> ''0xs'' =
    Inr \<lparr>ts_eth = [(''0xs'', 0)], ts_token = [], ts_probes = [], ts_nativeProbes = [(''0xs'', 0)]\<rparr>" for index seen
    by (simp add: trace_account_def sample_diff_def js_get_def asAccount_def Let_def nativeDelta_def member_of_def codeDelta_def
        diffStorage_def cleared_slots_def written_slots_def note_native_def add_delta_def)
  have keys: "remdups_keys (map fst (members (fst sample_diff)) @ map fst (members (snd sample_diff))) = [''0xs'']"
    by (simp add: sample_diff_def remdups_keys_def)
  have maps: "isAccountMap (fst sample_diff)" "isAccountMap (snd sample_diff)" by (simp_all add: sample_diff_def)
  show ?thesis
    unfolding classifyAndExtract_def seen sum.case sample_index known keys
    by (simp add: account maps balance_entries_def NATIVE_ASSET_def)
qed

lemma node_read: "read_trace sample_host sample_viem ''0xs'' [sample_token] [''0xs'', ''0xt'', null_address]
    (JObj [(''pre'', fst sample_diff), (''post'', snd sample_diff)]) =
  Inr (fst sample_diff, snd sample_diff, \<lparr>xt_changes = [(''0xs'', NATIVE_ASSET, 0)], xt_probes = [], xt_nativeProbes = [(''0xs'', 0)]\<rparr>)"
proof -
  have n: "normalizeAccounts sample_viem (fst sample_diff) = Inr (fst sample_diff)"
    "normalizeAccounts sample_viem (snd sample_diff) = Inr (snd sample_diff)"
    by (simp_all add: normalizeAccounts_def sample_diff_def normal_account_def rpc_address_def rpc_object_def)
  have g: "js_get (JObj [(''pre'', a), (''post'', b)]) ''pre'' = a" "js_get (JObj [(''pre'', a), (''post'', b)]) ''post'' = b" for a b
    by (simp_all add: js_get_def)
  have d: "isPrestateDiff (JObj [(''pre'', fst sample_diff), (''post'', snd sample_diff)])" "has_key (fst sample_diff) ''0xs''"
    unfolding isPrestateDiff_def g by (simp_all add: sample_diff_def has_key_def)
  show ?thesis unfolding read_trace_def g n sum.case sample_extraction using d by simp
qed


definition sample_simulation :: evm_simulation where
  "sample_simulation = \<lparr>es_success = True, es_gasUsed = Fin 1,
     es_balanceChanges = map evm_change [(''0xs'', ''ETH'', 0), (''0xt'', ''ETH'', 0), (null_address, ''ETH'', 0),
       (''0xs'', ''T'', 0), (''0xt'', ''T'', 0), (null_address, ''T'', 0)],
     es_balanceChangesReliable = True, es_error = None\<rparr>"

lemma sample_node_simps [simp]: "rp_viem sample_node = sample_viem" "rp_getChainId sample_node = ret (Fin 11155111)"
  "rp_request sample_node m params = ret (node_answer m params)"
  "optional_list (pc_erc20Tokens (rp_config sample_node)) = [sample_token]"
  by (simp_all add: sample_node_def optional_list_def)

lemma node_answers [simp]:
  "node_answer ''eth_getBalance'' xs = JStr ''0x0''" "node_answer ''eth_call'' xs = JStr zero_word"
  "node_answer ''eth_getStorageAt'' xs = JStr zero_word"
  by (simp_all add: node_answer_def)

declare tokenAmount.simps(1) [simp del]

lemma sample_observed: "observe_token sample_node \<lparr>ob_from = ''0xs'', ob_number = n, ob_overrides = o', ob_probes = []\<rparr>
    sample_token ''0xt'' es a () =
  (if entry_delta a ''T'' es = None then ret (es @ [(a, ''T'', 0)])
   else if entry_delta a ''T'' es = Some 0 then ret es
   else throw (GenericError ''Token post-state disagrees with the configured balance mapping.'')) ()"
  by (simp add: observe_token_def Let_def andthen_def ret_def lift_exn_def zero_word_amount token_slot_def refuse_def throw_def
      split: option.splits)


lemma sample_overrides: "stateOverrides sample_viem (fst sample_diff) (snd sample_diff) = Inr (JObj [])"
  by (simp add: stateOverrides_def sample_diff_def remdups_keys_def account_override_def member_object_def js_get_def
      rpc_object_def balance_override_def)

lemma sample_balances: "observe_balances sample_node ''0xs'' n [sample_token] [''0xs'', ''0xt'', null_address]
    (fst sample_diff, snd sample_diff, \<lparr>xt_changes = [(''0xs'', NATIVE_ASSET, 0)], xt_probes = [], xt_nativeProbes = [(''0xs'', 0)]\<rparr>) () =
  (Inr [(''0xs'', ''ETH'', 0), (''0xt'', ''ETH'', 0), (null_address, ''ETH'', 0),
     (''0xs'', ''T'', 0), (''0xt'', ''T'', 0), (null_address, ''T'', 0)], ())"
  by (simp add: observe_balances_def andthen_def ret_def lift_exn_def sample_overrides check_native_def quantity_def refuse_def
      observe_native_def has_entry_def NATIVE_ASSET_def observe_tokens_def rpc_address_def sample_observed entry_delta_def)

lemma sample_simulated: "evm_simulateTransaction sample_host sample_node 11155111 sample_call () = (Inr sample_simulation, ())"
proof -
  have block: "node_answer ''eth_getBlockByNumber'' xs = JObj [(''hash'', JStr zero_word), (''number'', JStr ''0x1'')]" for xs
    by (simp add: node_answer_def)
  have pinned: "pinnedBlock sample_viem (JObj [(''hash'', JStr zero_word), (''number'', JStr ''0x1'')]) = Inr (''0x1'', zero_word)"
    by (simp add: pinnedBlock_def rpc_object_def js_get_def zero_word_texts quantity_def) (simp add: sample_viem_def)
  have execution: "node_answer ''debug_traceCall'' [c, b, tracer ''callTracer'' ''onlyTopCall''] =
    JObj [(''from'', JStr ''0xs''), (''to'', JStr ''0xt''), (''gasUsed'', JStr ''0x1'')]" for c b
    by (simp add: node_answer_def)
  have trace: "node_answer ''debug_traceCall'' [c, b, tracer ''prestateTracer'' ''diffMode''] =
    JObj [(''pre'', fst sample_diff), (''post'', snd sample_diff)]" for c b
    by (simp add: node_answer_def tracer_def sample_diff_def)
  have checked: "rpc_object (JObj [(''from'', JStr ''0xs''), (''to'', JStr ''0xt''), (''gasUsed'', JStr ''0x1'')]) =
      Inr (JObj [(''from'', JStr ''0xs''), (''to'', JStr ''0xt''), (''gasUsed'', JStr ''0x1'')])"
    "check_execution f sample_viem ''0xs'' ''0xt'' (JObj [(''from'', JStr ''0xs''), (''to'', JStr ''0xt''), (''gasUsed'', JStr ''0x1'')]) = Inr 1" for f
    by (simp_all add: rpc_object_def check_execution_def js_get_def shown_def rpc_address_def quantity_def)
  have sent: "call_value sample_viem None = Inr ''0x1''"
    by (simp add: call_value_def big_int_def Let_def trim_def is_space_def radix_number_def is_hex_def is_lower_hex_def
        is_digit_def hex_value_def to_lower_def lower_char_def sample_viem_def)
  have chain: "assertConfiguredChain f sample_node 11155111 = ret ()" for f
    by (simp add: assertConfiguredChain_def andthen_def ret_def refuse_def fun_eq_iff)
  have target: "et_to sample_call = ''0xt''" "eq_from sample_call = Some ''0xs''" "et_value sample_call = None"
    by (simp_all add: sample_call_def)
  have "evm_simulate_body sample_host sample_node 11155111 sample_call () = (Inr sample_simulation, ())"
    by (simp add: evm_simulate_body_def Let_def target rpc_address_def sample_accounts chain block pinned execution trace checked
        sent node_read sample_balances andthen_def ret_def lift_exn_def refuse_def sample_simulation_def)
  then show ?thesis by (simp add: evm_simulateTransaction_def try_catch_def)
qed


subsection \<open>What is signed\<close>

definition provider_evm :: "unit evm" where
  "provider_evm = sample_evm\<lparr>em_simulate := evm_simulateTransaction sample_host sample_node 11155111\<rparr>"

lemma evm_change_shape: "is_balance_change Ethereum (evm_change e) \<longleftrightarrow> fst e \<noteq> [] \<and> fst (snd e) \<noteq> []"
  by (simp add: is_balance_change_def evm_change_def js_get_def)

lemma provider_deltas: "compareEvmBalanceDeltas (es_balanceChanges sample_simulation)
    [\<lparr>ed_owner = null_address, ed_asset = ''T'', ed_minDelta = ''0'', ed_maxDelta = ''0''\<rparr>] = []"
proof -
  have "parseDelta (JStr ''0'') = Some 0"
    by (simp add: parseDelta_def integer_string_def is_digit_def int_value_def decimal_number_def)
  then show ?thesis
    by (simp add: sample_simulation_def compareEvmBalanceDeltas_def compare_balance_deltas_def unexpected_change_def
        expected_mismatch_def evm_change_shape evm_change_matches)
qed

lemma provider_run:
  "\<exists>r q sim. run_conn (logged EvmChecked (ret ())) (evm_execute (logged_evm provider_evm) sample_transfer) ((), []) =
     (r, ((), [EvmSimulated q (Inr sim), EvmChecked (Inr ()),
       EvmSigned \<lparr>et_to = ''0xt'', et_data = Some (ERC20_TRANSFER_SELECTOR @ replicate 128 CHR ''0''), et_value = None\<rparr> (Inr ''0xh'')]))"
proof -
  have sim: "es_success sample_simulation" "es_balanceChangesReliable sample_simulation"
    by (simp_all add: sample_simulation_def)
  show ?thesis
    by (simp add: evm_execute_def evm_revalidation_def sample_transfer_def sample_transfer_decoded onchain_call.defs
        provider_evm_def sample_evm_def sample_evm_config_def logged_evm_def expectedDeltas_def sample_deltas Let_def
        isUnlimitedApproval_def validateContract_def validateFunction_def validateToken_def validateSpender_def
        validateRecipient_def validateApprovalAmount_def address_in_def evm_simulated_def evm_sign_def observedAddresses_def
        sample_simulated [unfolded sample_call_def] sim ret_def assertExpectedEvmDeltas_def provider_deltas)
qed

theorem evm_signed_effects_witness:
  "\<exists>q observed sender block pre post overrides. evm_evidence sample_host sample_node q observed sender block pre post overrides \<and>
     evm_transaction.truncate q =
       \<lparr>et_to = ''0xt'', et_data = Some (ERC20_TRANSFER_SELECTOR @ replicate 128 CHR ''0''), et_value = None\<rparr>"
proof -
  obtain r q sim where run: "run_conn (logged EvmChecked (ret ())) (evm_execute (logged_evm provider_evm) sample_transfer) ((), []) =
     (r, ((), [EvmSimulated q (Inr sim), EvmChecked (Inr ()),
       EvmSigned \<lparr>et_to = ''0xt'', et_data = Some (ERC20_TRANSFER_SELECTOR @ replicate 128 CHR ''0''), et_value = None\<rparr> (Inr ''0xh'')]))"
    using provider_run by blast
  let ?tx = "\<lparr>et_to = ''0xt'', et_data = Some (ERC20_TRANSFER_SELECTOR @ replicate 128 CHR ''0''), et_value = None\<rparr>"
  have "em_simulate provider_evm = evm_simulateTransaction sample_host sample_node 11155111" "normal_addresses (rp_viem sample_node)"
    "EvmSigned ?tx (Inr ''0xh'') \<in> set [EvmSimulated q (Inr sim), EvmChecked (Inr ()), EvmSigned ?tx (Inr ''0xh'')]"
    by (simp_all add: provider_evm_def sample_normal)
  from evm_signed_effects [OF this(1,2) run this(3)] obtain q' observed sender block pre post overrides where
    "evm_evidence sample_host sample_node q' observed sender block pre post overrides" "evm_transaction.truncate q' = ?tx"
    by (elim exE conjE) (rule that)
  then show ?thesis by (intro exI conjI)
qed

subsection \<open>A trace\<close>

text \<open>The transfer of one unit: the slot of the token falls to one, which its only balance explains.\<close>

definition transfer_pre :: jsval where
  "transfer_pre = JObj [(''0xt'', JObj [(''balance'', JStr ''0x0''), (''storage'', JObj [(zero_word, JStr ''0x1'')])])]"

definition transfer_post :: jsval where
  "transfer_post = JObj [(''0xt'', JObj [(''storage'', JObj [(zero_word, JStr ''0x0'')])])]"

theorem trace_accounts_for_changes_witness:
  "\<exists>observed address mb ma. fold_try (observe_address sample_viem) [] [''0xs'', ''0xt'', null_address] = Inr observed \<and>
     proper_address sample_viem ''0xt'' = Some address \<and> storage_maps (js_get transfer_pre ''0xt'') (js_get transfer_post ''0xt'') mb ma"
proof -
  have seen: "fold_try (observe_address sample_viem) [] [''0xs'', ''0xt'', null_address] = Inr [''0xs'', ''0xt'', null_address]"
    by (simp add: observe_address_def)
  have known: "fold_try (token_addresses sample_viem) [] [sample_token] = Inr [''0xt'']"
    by (simp add: token_addresses_def)
  have slot: "normalizeSlot zero_word = Some zero_word"
    by (simp add: normalizeSlot_def zero_word_texts) (simp add: zero_word_def to_lower_def lower_char_def)
  have keys: "remdups_keys (map fst (members transfer_pre) @ map fst (members transfer_post)) = [''0xt'']"
    by (simp add: transfer_pre_def transfer_post_def remdups_keys_def)
  have maps: "isAccountMap transfer_pre" "isAccountMap transfer_post" by (simp_all add: transfer_pre_def transfer_post_def)
  have account: "trace_account \<lparr>tc_viem = sample_viem, tc_pre = transfer_pre, tc_post = transfer_post,
      tc_index = [(''0xt'', [(zero_word, BalanceSlot ''T'' null_address)])], tc_tokens = [''0xt''],
      tc_observed = [''0xs'', ''0xt'', null_address]\<rparr> \<lparr>ts_eth = [], ts_token = [], ts_probes = [], ts_nativeProbes = []\<rparr> ''0xt'' =
    Inr \<lparr>ts_eth = [(''0xt'', 0)], ts_token = [((null_address, ''T''), -1)],
      ts_probes = [\<lparr>tp_token = ''0xt'', tp_account = null_address, tp_preBalance = 1\<rparr>], ts_nativeProbes = [(''0xt'', 0)]\<rparr>"
    by (simp add: trace_account_def transfer_pre_def transfer_post_def js_get_def asAccount_def Let_def nativeDelta_def member_of_def
        codeDelta_def diffStorage_def storage_entry_def slot cleared_slots_def written_slots_def slot_before_def note_native_def
        note_slot_def add_delta_def)
  have "\<exists>x. classifyAndExtract sample_host sample_viem transfer_pre transfer_post [sample_token] [''0xs'', ''0xt'', null_address] = Inr x"
    unfolding classifyAndExtract_def seen sum.case sample_index known keys by (simp add: account maps)
  then obtain x where "classifyAndExtract sample_host sample_viem transfer_pre transfer_post [sample_token]
    [''0xs'', ''0xt'', null_address] = Inr x" by blast
  from trace_accounts_for_changes [OF this, of "''0xt''"] show ?thesis by (auto simp: transfer_pre_def)
qed

end
