(* ===== verification/SolanaAccounts.thy ===== *)
theory SolanaAccounts
  imports BalanceDeltas
begin

text \<open>
  The accounts a Solana simulation observes: \<open>packages/solana-connector/src/account-state.ts\<close>. A
  snapshot is taken of each account before and after, its token balance is read from the bytes of the
  token programs, and the differences are the balance changes that the connector compares with the
  expected deltas. The base58 codec of \<open>PublicKey\<close> is a parameter, in both directions.
  \<open>observed_balances_respected\<close> says what a passed comparison means for the accounts themselves.
\<close>

declare map_of_append [simp del]

subsection \<open>Snapshots\<close>

record account_snapshot =
  sn_lamports :: nat
  sn_owner :: string
  sn_data :: "nat list"
  sn_executable :: bool

text \<open>The codec: a text to its canonical form, \<open>None\<close> where \<open>new PublicKey\<close> throws, and bytes to text.\<close>

record base58 =
  b58_text :: "string \<Rightarrow> string option"
  b58_bytes :: "nat list \<Rightarrow> string"

definition NATIVE_SOL_ASSET :: string where
  "NATIVE_SOL_ASSET = ''SOL''"

definition MAX_OBSERVATION_ACCOUNTS :: nat where
  "MAX_OBSERVATION_ACCOUNTS = 100"

definition ACCOUNT_EXTENSIONS :: "nat list" where
  "ACCOUNT_EXTENSIONS = [2, 7, 8, 11, 13, 15, 27]"

definition MINT_EXTENSIONS :: "nat list" where
  "MINT_EXTENSIONS = [1, 3, 6, 9, 10, 12, 14, 18, 19, 20, 21, 22, 23, 25, 26]"

text \<open>\<open>pubkeyOf\<close> of a JSON value.\<close>

definition pubkeyOf :: "base58 \<Rightarrow> jsval \<Rightarrow> string option" where
  "pubkeyOf b v = (case v of JStr s \<Rightarrow> b58_text b s | _ \<Rightarrow> None)"

definition is_lamports :: "jsval \<Rightarrow> bool" where
  "is_lamports v = (case v of JNum x \<Rightarrow> safe_integer x \<and> nonnegative x | _ \<Rightarrow> False)"

definition lamports_of :: "jsval \<Rightarrow> nat" where
  "lamports_of v = (case v of JNum (Fin r) \<Rightarrow> nat \<lfloor>r\<rfloor> | _ \<Rightarrow> 0)"

fun is_true_or_false :: "jsval \<Rightarrow> bool" where
  "is_true_or_false (JBool b) = True"
| "is_true_or_false _ = False"

text \<open>The checks both kinds of snapshots share; the data is decoded last.\<close>

definition snapshot :: "jsval \<Rightarrow> string option \<Rightarrow> jsval \<Rightarrow> exn + nat list \<Rightarrow> exn + account_snapshot" where
  "snapshot lamports owner executable data =
     (if \<not> is_lamports lamports
      then Inl (GenericError ''Account lamports must be a nonnegative safe integer.'')
      else if owner = None \<or> owner = Some [] \<or> \<not> is_true_or_false executable
      then Inl (GenericError ''Account owner or executable flag is invalid.'')
      else case data of Inl e \<Rightarrow> Inl e
        | Inr bytes \<Rightarrow> Inr \<lparr>sn_lamports = lamports_of lamports, sn_owner = the owner, sn_data = bytes,
            sn_executable = (executable = JBool True)\<rparr>)"

text \<open>An account as \<open>getMultipleAccountsInfoAndContext\<close> returns it: the library decodes owner and data.\<close>

record pre_account =
  pa_lamports :: jsval
  pa_owner :: "string option"
  pa_executable :: jsval
  pa_data :: "nat list option"

definition snapshotFromPre :: "pre_account option \<Rightarrow> exn + account_snapshot option" where
  "snapshotFromPre account = (case account of None \<Rightarrow> Inr None
     | Some a \<Rightarrow> map_sum id Some (snapshot (pa_lamports a) (pa_owner a) (pa_executable a)
         (case pa_data a of None \<Rightarrow> Inl (GenericError ''Account data is not a Buffer.'') | Some bs \<Rightarrow> Inr bs)))"

definition encoded_data :: "jsval \<Rightarrow> exn + nat list" where
  "encoded_data v = (case v of
     JArr [JStr s, JStr enc] \<Rightarrow>
       if enc \<noteq> ''base64'' then Inl (GenericError ''Account data must be a base64 tuple.'')
       else (case base64_decode s of
           Some bytes \<Rightarrow> if base64_encode bytes = s then Inr bytes
             else Inl (GenericError ''Account data is not valid base64.'')
         | None \<Rightarrow> Inl (GenericError ''Account data is not valid base64.''))
   | _ \<Rightarrow> Inl (GenericError ''Account data must be a base64 tuple.''))"

text \<open>An account in the answer of a simulation, a JSON value.\<close>

definition snapshotFromPost :: "base58 \<Rightarrow> jsval \<Rightarrow> exn + account_snapshot option" where
  "snapshotFromPost b v = (case v of
     JNull \<Rightarrow> Inr None
   | JObj kvs \<Rightarrow> map_sum id Some (snapshot (js_get v ''lamports'') (pubkeyOf b (js_get v ''owner''))
       (js_get v ''executable'') (encoded_data (js_get v ''data'')))
   | JArr xs \<Rightarrow> Inl (GenericError ''Account lamports must be a nonnegative safe integer.'')
   | _ \<Rightarrow> Inl (GenericError ''Missing account snapshot.''))"

subsection \<open>Token accounts\<close>

definition known_extension :: "nat list \<Rightarrow> nat list \<Rightarrow> nat \<Rightarrow> bool" where
  "known_extension listing seen t \<longleftrightarrow> t \<in> set listing \<and> t \<notin> set seen"

text \<open>The loop over the extensions; each step goes on by at least four bytes.\<close>

function extensions_from :: "nat list \<Rightarrow> nat list \<Rightarrow> nat \<Rightarrow> nat list \<Rightarrow> exn + unit" where
  "extensions_from data listing offset seen =
     (if offset \<ge> length data then Inr ()
      else if list_all (\<lambda>x. x = 0) (drop offset data) then Inr ()
      else if length data < offset + 4 then Inl (GenericError ''Token-2022 extensions are truncated.'')
      else let t = read_le offset 2 data; n = read_le (offset + 2) 2 data in
        if \<not> known_extension listing seen t
        then Inl (GenericError (''Unsupported or confidential Token-2022 extension '' @ decimal_string t @ ''.''))
        else if length data < offset + 4 + n
        then Inl (GenericError ''Token-2022 extensions are truncated.'')
        else extensions_from data listing (offset + 4 + n) (seen @ [t]))"
  by pat_completeness auto

termination by (relation "measure (\<lambda>(data, listing, offset, seen). length data - offset)") auto

declare extensions_from.simps [simp del]

definition inspectExtensions :: "nat list \<Rightarrow> nat \<Rightarrow> nat list \<Rightarrow> exn + unit" where
  "inspectExtensions data accountType listing =
     (if length data < 166 \<or> data ! 165 \<noteq> accountType
      then Inl (GenericError ''Token-2022 account type or extension layout is invalid.'')
      else extensions_from data listing 166 [])"

definition validateMint :: "account_snapshot \<Rightarrow> bool \<Rightarrow> exn + unit" where
  "validateMint s token2022 =
     (if length (sn_data s) < 82 \<or> sn_data s ! 45 \<noteq> 1
      then Inl (GenericError ''Token mint is truncated or uninitialized.'')
      else if length (sn_data s) \<noteq> 82
      then (if \<not> token2022 then Inl (GenericError ''Classic token mint has an invalid length.'')
            else inspectExtensions (sn_data s) 1 MINT_EXTENSIONS)
      else Inr ())"

type_synonym snapshots = "string \<rightharpoonup> account_snapshot option"

text \<open>The mint and the amount of a token account, \<open>None\<close> for an account that holds no tokens.\<close>

definition decodeToken ::
  "base58 \<Rightarrow> account_snapshot option \<Rightarrow> snapshots \<Rightarrow> exn + (string \<times> nat) option" where
  "decodeToken b snap all =
     (case snap of None \<Rightarrow> Inr None
      | Some s \<Rightarrow>
          let token2022 = (sn_owner s = TOKEN_2022_PROGRAM_ID); data = sn_data s in
          if sn_executable s then Inr None
          else if \<not> token2022 \<and> sn_owner s \<noteq> TOKEN_PROGRAM_ID then Inr None
          else if length data = 82 \<or> token2022 \<and> 165 < length data \<and> data ! 165 = 1
          then map_sum id (\<lambda>_. None) (validateMint s token2022)
          else if length data < 165 \<or> \<not> token2022 \<and> length data \<noteq> 165
          then Inl (GenericError ''Token account has an invalid length.'')
          else case (if token2022 \<and> length data \<noteq> 165 then inspectExtensions data 2 ACCOUNT_EXTENSIONS else Inr ()) of
              Inl e \<Rightarrow> Inl e
            | Inr _ \<Rightarrow>
                let amount = read_le 64 8 data; mint = b58_bytes b (take 32 data) in
                if data ! 108 = 0 \<and> amount = 0 then Inr None
                else if data ! 108 \<noteq> 1 \<and> data ! 108 \<noteq> 2 then Inl (GenericError ''Token account state is invalid.'')
                else if token2022
                then (case all mint of
                    Some (Some ms) \<Rightarrow>
                      if sn_owner ms \<noteq> TOKEN_2022_PROGRAM_ID
                      then Inl (GenericError (''Token-2022 mint '' @ mint @ '' is missing from the observation set.''))
                      else map_sum id (\<lambda>_. Some (mint, amount)) (validateMint ms True)
                  | _ \<Rightarrow> Inl (GenericError (''Token-2022 mint '' @ mint @ '' is missing from the observation set.'')))
                else Inr (Some (mint, amount)))"

subsection \<open>Balance changes\<close>

definition balance_change :: "string \<Rightarrow> string \<Rightarrow> int \<Rightarrow> jsval" where
  "balance_change a asset n = JObj [(''account'', JStr a), (''asset'', JStr asset), (''delta'', JStr (int_string n))]"

definition lamports :: "account_snapshot option \<Rightarrow> int" where
  "lamports s = (case s of None \<Rightarrow> 0 | Some x \<Rightarrow> int (sn_lamports x))"

definition token_amount :: "(string \<times> nat) option \<Rightarrow> int" where
  "token_amount t = (case t of None \<Rightarrow> 0 | Some (m, n) \<Rightarrow> int n)"

text \<open>One turn of the loop.\<close>

definition observe_account :: "base58 \<Rightarrow> snapshots \<Rightarrow> snapshots \<Rightarrow> string \<Rightarrow> exn + jsval list" where
  "observe_account b pre post a =
     (case (pre a, post a) of
        (Some before, Some after) \<Rightarrow>
          (case decodeToken b before pre of Inl e \<Rightarrow> Inl e
           | Inr beforeToken \<Rightarrow> (case decodeToken b after post of Inl e \<Rightarrow> Inl e
             | Inr afterToken \<Rightarrow>
                 if beforeToken \<noteq> None \<and> afterToken \<noteq> None \<and> fst (the beforeToken) \<noteq> fst (the afterToken)
                 then Inl (GenericError ''Token account mint changed during simulation.'')
                 else Inr (balance_change a NATIVE_SOL_ASSET (lamports after - lamports before) #
                   (case (if afterToken \<noteq> None then afterToken else beforeToken) of
                      None \<Rightarrow> []
                    | Some (mint, n) \<Rightarrow> if mint = [] then []
                        else [balance_change a mint (token_amount afterToken - token_amount beforeToken)]))))
      | _ \<Rightarrow> Inl (GenericError ''Missing account snapshot.''))"

fun diffObservedBalances :: "base58 \<Rightarrow> string list \<Rightarrow> snapshots \<Rightarrow> snapshots \<Rightarrow> exn + jsval list" where
  "diffObservedBalances b [] pre post = Inr []"
| "diffObservedBalances b (a # as) pre post =
     (case observe_account b pre post a of Inl e \<Rightarrow> Inl e
      | Inr here \<Rightarrow> map_sum id (\<lambda>rest. here @ rest) (diffObservedBalances b as pre post))"

subsection \<open>What a passed comparison means for the accounts\<close>

text \<open>A base58 text of 32 bytes has at least 32 characters.\<close>

definition long_mints :: "base58 \<Rightarrow> bool" where
  "long_mints b \<longleftrightarrow> (\<forall>bytes. 32 \<le> length bytes \<longrightarrow> 32 \<le> length (b58_bytes b (take 32 bytes)))"

lemma token_mint: "decodeToken b s all = Inr (Some (m, n)) \<Longrightarrow> long_mints b \<Longrightarrow> 32 \<le> length m"
  by (auto simp: decodeToken_def Let_def long_mints_def split: option.splits if_splits sum.splits
      elim!: map_sum_Inr)

text \<open>A difference is none, or in the range of an expected delta.\<close>

definition delta_allowed :: "expected_delta list \<Rightarrow> string \<Rightarrow> string \<Rightarrow> int \<Rightarrow> bool" where
  "delta_allowed ds a asset n \<longleftrightarrow> n = 0 \<or>
     (\<exists>d \<in> set ds. \<exists>lo hi. ed_owner d = a \<and> ed_asset d = asset \<and> parseDelta (JStr (ed_minDelta d)) = Some lo \<and>
        parseDelta (JStr (ed_maxDelta d)) = Some hi \<and> lo \<le> n \<and> n \<le> hi)"

lemma change_fields [simp]:
  "text_of (js_get (balance_change a m n) ''account'') = a" "text_of (js_get (balance_change a m n) ''asset'') = m"
  "change_delta (balance_change a m n) = Some n"
  by (simp_all add: balance_change_def js_get_def change_delta_def)

lemma change_matches_Solana:
  "change_matches Solana v d \<longleftrightarrow> ed_owner d = text_of (js_get v ''account'') \<and> ed_asset d = text_of (js_get v ''asset'')"
  by (simp add: change_matches_def)

text \<open>The changes of one owner and asset.\<close>

definition changes_of :: "string \<Rightarrow> string \<Rightarrow> jsval list \<Rightarrow> jsval list" where
  "changes_of a m changes = filter (\<lambda>v. text_of (js_get v ''account'') = a \<and> text_of (js_get v ''asset'') = m) changes"

lemma changes_of_append [simp]: "changes_of a m (xs @ ys) = changes_of a m xs @ changes_of a m ys"
  by (simp add: changes_of_def)

lemma single_change_allowed:
  assumes "compareSolanaBalanceDeltas changes ds = []" "changes_of a m changes = [balance_change a m n]"
  shows "delta_allowed ds a m n"
proof -
  have r: "deltas_respected Solana changes ds"
    using assms(1) balance_deltas_passed by (simp add: compareSolanaBalanceDeltas_def)
  have "balance_change a m n \<in> set (changes_of a m changes)" using assms(2) by simp
  then have "balance_change a m n \<in> set changes" by (simp add: changes_of_def)
  then consider "n = 0" | d where "d \<in> set ds" "ed_owner d = a" "ed_asset d = m"
    using r by (auto simp: deltas_respected_def change_matches_Solana)
  then show ?thesis
  proof cases
    case 2
    then have "filter (\<lambda>v. change_matches Solana v d) changes = [balance_change a m n]"
      using assms(2) by (auto simp: changes_of_def change_matches_Solana eq_commute conj_commute)
    then show ?thesis
      using r 2 by (fastforce simp: deltas_respected_def delta_allowed_def)
  qed (simp add: delta_allowed_def)
qed

lemma observe_account_changes:
  assumes "observe_account b pre post a = Inr here"
  obtains before after tb ta where "pre a = Some before" "post a = Some after"
    "decodeToken b before pre = Inr tb" "decodeToken b after post = Inr ta"
    "\<forall>m n m' n'. tb = Some (m, n) \<and> ta = Some (m', n') \<longrightarrow> m = m'"
    "here = balance_change a NATIVE_SOL_ASSET (lamports after - lamports before) #
       (case (if ta \<noteq> None then ta else tb) of None \<Rightarrow> []
        | Some (mint, n) \<Rightarrow> if mint = [] then [] else [balance_change a mint (token_amount ta - token_amount tb)])"
proof -
  obtain before after where pp: "pre a = Some before" "post a = Some after"
    using assms by (auto simp: observe_account_def split: option.splits)
  obtain tb ta where tokens: "decodeToken b before pre = Inr tb" "decodeToken b after post = Inr ta"
    using assms by (simp add: observe_account_def pp split: sum.splits)
  have mints: "\<not> (tb \<noteq> None \<and> ta \<noteq> None \<and> fst (the tb) \<noteq> fst (the ta))"
    using assms by (simp add: observe_account_def pp tokens split: if_splits)
  show thesis
  proof (rule that [OF pp tokens])
    show "\<forall>m n m' n'. tb = Some (m, n) \<and> ta = Some (m', n') \<longrightarrow> m = m'" using mints by auto
  qed (use assms mints in \<open>simp add: observe_account_def pp tokens split: if_splits\<close>)
qed

lemma observe_other: "observe_account b pre post a = Inr here \<Longrightarrow> a \<noteq> a' \<Longrightarrow> changes_of a' m here = []"
  by (erule observe_account_changes) (auto simp: changes_of_def split: option.splits)

lemma diff_cons:
  assumes "diffObservedBalances b (a # as) pre post = Inr changes"
  obtains here rest where "observe_account b pre post a = Inr here"
    "diffObservedBalances b as pre post = Inr rest" "changes = here @ rest"
  using assms by (cases "observe_account b pre post a"; cases "diffObservedBalances b as pre post") auto

lemma diff_other:
  "diffObservedBalances b as pre post = Inr changes \<Longrightarrow> a \<notin> set as \<Longrightarrow> changes_of a m changes = []"
proof (induction as arbitrary: changes)
  case (Cons a' as)
  from Cons.prems(1) show ?case
    by (rule diff_cons) (use Cons in \<open>auto intro: observe_other [of b pre post a']\<close>)
qed (simp add: changes_of_def)

lemma diff_here:
  assumes "diffObservedBalances b as pre post = Inr changes" "distinct as" "a \<in> set as"
  shows "\<exists>here. observe_account b pre post a = Inr here \<and> changes_of a m changes = changes_of a m here"
  using assms
proof (induction as arbitrary: changes)
  case (Cons a' as)
  from Cons.prems(1) show ?case
  proof (rule diff_cons)
    fix here rest
    assume p: "observe_account b pre post a' = Inr here" "diffObservedBalances b as pre post = Inr rest" "changes = here @ rest"
    show ?thesis
    proof (cases "a = a'")
      case True
      then have "changes_of a m rest = []" using diff_other [OF p(2)] Cons.prems(2) by simp
      then show ?thesis using p True by auto
    next
      case False
      then show ?thesis using Cons p observe_other [OF p(1), of a m] by auto
    qed
  qed
qed simp

text \<open>A passed comparison binds the accounts: when the observed changes pass the comparison with
  the expected deltas, every observed account exists in both snapshots with balances that could be
  read, its lamports are unchanged or changed within the range of a delta for it, and its token
  holding kept its mint and is unchanged or changed within the range of a delta for that mint.\<close>

lemma observed_balances_respected:
  assumes "diffObservedBalances b as pre post = Inr changes" "compareSolanaBalanceDeltas changes ds = []"
    and "distinct as" "long_mints b" "a \<in> set as"
  shows "\<exists>before after tb ta. pre a = Some before \<and> post a = Some after \<and>
    decodeToken b before pre = Inr tb \<and> decodeToken b after post = Inr ta \<and>
    delta_allowed ds a NATIVE_SOL_ASSET (lamports after - lamports before) \<and>
    (\<forall>m n. tb = Some (m, n) \<or> ta = Some (m, n) \<longrightarrow> delta_allowed ds a m (token_amount ta - token_amount tb))"
proof -
  obtain here where here: "observe_account b pre post a = Inr here"
    and same: "\<And>m. changes_of a m changes = changes_of a m here"
    using diff_here [OF assms(1,3,5)] by (metis sum.inject(2))
  from here show ?thesis
  proof (rule observe_account_changes)
    fix before after tb ta
    let ?sol = "balance_change a NATIVE_SOL_ASSET (lamports after - lamports before)"
    assume st: "pre a = Some before" "post a = Some after" "decodeToken b before pre = Inr tb" "decodeToken b after post = Inr ta"
      and mints: "\<forall>m n m' n'. tb = Some (m, n) \<and> ta = Some (m', n') \<longrightarrow> m = m'"
      and all: "here = ?sol # (case (if ta \<noteq> None then ta else tb) of None \<Rightarrow> []
        | Some (mint, n) \<Rightarrow> if mint = [] then [] else [balance_change a mint (token_amount ta - token_amount tb)])"
    have long: "32 \<le> length m" if "tb = Some (m, n) \<or> ta = Some (m, n)" for m n
      using that st token_mint [OF _ assms(4)] by blast
    then have token: "(if ta \<noteq> None then ta else tb) = Some (m, n) \<Longrightarrow> m \<noteq> [] \<and> m \<noteq> NATIVE_SOL_ASSET" for m n
      by (fastforce simp: NATIVE_SOL_ASSET_def split: if_splits)
    have "changes_of a NATIVE_SOL_ASSET changes = changes_of a NATIVE_SOL_ASSET here" by (rule same)
    also have "\<dots> = [?sol]"
      using token by (auto simp: all changes_of_def split: option.split)
    finally have sol: "delta_allowed ds a NATIVE_SOL_ASSET (lamports after - lamports before)"
      by (rule single_change_allowed [OF assms(2)])
    have "delta_allowed ds a m (token_amount ta - token_amount tb)" if m: "tb = Some (m, n) \<or> ta = Some (m, n)" for m n
    proof -
      obtain k where k: "(if ta \<noteq> None then ta else tb) = Some (m, k)"
        using m mints by (cases ta; cases tb) auto
      then have "changes_of a m changes = [balance_change a m (token_amount ta - token_amount tb)]"
        using token [OF k] unfolding same by (auto simp: all changes_of_def)
      then show ?thesis by (rule single_change_allowed [OF assms(2)])
    qed
    with st sol show ?thesis by blast
  qed
qed

end
