(* ===== verification/SolanaConnector.thy ===== *)
theory SolanaConnector
  imports ConnectorRuns SolanaAccounts
begin

text \<open>
  The Solana connector and its provider: \<open>rpc-provider.ts\<close> and \<open>connector.ts\<close> of
  \<open>packages/solana-connector/src\<close>. The RPC node, the compilation of a message and the base58 codec are
  collaborators and parameters. What signed instructions went through is in \<open>SolanaSafety\<close>.
\<close>

declare map_of_append [simp del]

subsection \<open>rpc-provider.ts\<close>

record tx_instruction =
  ti_programId :: string
  ti_keys :: "account_key list"
  ti_data :: "nat list"

text \<open>The answer of a simulation; \<open>sa_err\<close>, \<open>sa_slot\<close> and \<open>sa_accounts\<close> are as the node sent them.\<close>

record simulation_answer =
  sa_err :: jsval
  sa_logs :: "string list option"
  sa_slot :: jsnum
  sa_accounts :: jsval

record solana_simulation =
  ss_success :: bool
  ss_logs :: "string list"
  ss_balanceChanges :: "jsval list"
  ss_balanceChangesReliable :: bool
  ss_error :: "string option"

text \<open>
  The connection: \<open>sr_compile\<close> is \<open>compileToV0Message\<close> and gives the static account keys,
  \<open>sr_badKey\<close> is what \<open>new PublicKey\<close> throws.
\<close>

record 'w solana_rpc =
  sr_environment :: chain_environment
  sr_feePayer :: "string option"
  sr_codec :: base58
  sr_badKey :: exn
  sr_compile :: "string \<Rightarrow> tx_instruction list \<Rightarrow> exn + string list"
  sr_genesis :: "('w, string) eff"
  sr_accounts :: "string list \<Rightarrow> ('w, pre_account option list option \<times> jsnum) eff"
  sr_blockhash :: "jsnum \<Rightarrow> ('w, string) eff"
  sr_run :: "string \<Rightarrow> tx_instruction list \<Rightarrow> string \<Rightarrow> jsnum \<Rightarrow> string list \<Rightarrow> ('w, simulation_answer) eff"

fun SOLANA_GENESIS_HASH :: "chain_environment \<Rightarrow> string" where
  "SOLANA_GENESIS_HASH Devnet = ''EtWTRABZaYq6iMfeYKouRu166VU2xqa1wcaWoxPkrZBG''"
| "SOLANA_GENESIS_HASH Mainnet = ''5eykt4UsFv8P8NJdTREpY1vzqKqZKvdpKuc147dw2N9d''"
| "SOLANA_GENESIS_HASH Sepolia = []"

definition failClosed :: "string \<Rightarrow> solana_simulation" where
  "failClosed m = \<lparr>ss_success = False, ss_logs = [], ss_balanceChanges = [], ss_balanceChangesReliable = False,
     ss_error = Some m\<rparr>"

text \<open>A public key in canonical form.\<close>

definition public_key :: "'w solana_rpc \<Rightarrow> string \<Rightarrow> exn + string" where
  "public_key p s = (case b58_text (sr_codec p) s of None \<Rightarrow> Inl (sr_badKey p) | Some k \<Rightarrow> Inr k)"

definition resolveFeePayer :: "'w solana_rpc \<Rightarrow> string option \<Rightarrow> exn + string" where
  "resolveFeePayer p requested =
     (case requested of
        Some r \<Rightarrow>
          if r = [] then Inl (GenericError ''Simulation fee payer must be a non-empty public key.'')
          else (case public_key p r of Inl e \<Rightarrow> Inl e
            | Inr payer \<Rightarrow>
                if sr_feePayer p \<noteq> None \<and> sr_feePayer p \<noteq> Some payer
                then Inl (GenericError ''Simulation fee payer does not match the configured provider fee payer.'')
                else Inr payer)
      | None \<Rightarrow> (case sr_feePayer p of
          None \<Rightarrow> Inl (GenericError ''Simulation fee payer is required.'') | Some payer \<Rightarrow> Inr payer))"

text \<open>The first error of a list, or all values.\<close>

fun all_right :: "('a \<Rightarrow> exn + 'b) \<Rightarrow> 'a list \<Rightarrow> exn + 'b list" where
  "all_right f [] = Inr []"
| "all_right f (x # xs) = (case f x of Inl e \<Rightarrow> Inl e | Inr y \<Rightarrow> map_sum id (\<lambda>ys. y # ys) (all_right f xs))"

fun is_object_or_array :: "jsval \<Rightarrow> bool" where
  "is_object_or_array (JObj kvs) = True"
| "is_object_or_array (JArr xs) = True"
| "is_object_or_array _ = False"

definition account_meta :: "base58 \<Rightarrow> jsval \<Rightarrow> exn + account_key" where
  "account_meta b v =
     (if \<not> is_object_or_array v
      then Inl (GenericError ''Solana instruction account metadata must be an object.'')
      else (case pubkeyOf b (js_get v ''pubkey'') of
          None \<Rightarrow> Inl (GenericError ''Solana instruction account metadata is missing a pubkey.'')
        | Some k \<Rightarrow>
            if k = [] then Inl (GenericError ''Solana instruction account metadata is missing a pubkey.'')
            else (case (js_get v ''isSigner'', js_get v ''isWritable'') of
                (JBool sg, JBool wr) \<Rightarrow> Inr \<lparr>ak_pubkey = k, ak_isSigner = sg, ak_isWritable = wr\<rparr>
              | _ \<Rightarrow> Inl (GenericError ''Solana instruction account metadata flags must be booleans.''))))"

definition toAccountMetas :: "base58 \<Rightarrow> jsval \<Rightarrow> exn + account_key list" where
  "toAccountMetas b v = (case v of
     JUndef \<Rightarrow> Inr []
   | JArr xs \<Rightarrow> all_right (account_meta b) xs
   | _ \<Rightarrow> Inl (GenericError ''Solana instruction keys must be an array.''))"

text \<open>
  Base64 without its padding: \<open>/^[0-9a-zA-Z+\/]*={0,2}$/\<close>, and a text that is encoded back to itself up
  to the padding.
\<close>

definition unpadded :: "string \<Rightarrow> string" where
  "unpadded s = rev (dropWhile (\<lambda>c. c = CHR ''='') (rev s))"

definition loose_base64 :: "string \<Rightarrow> nat list option" where
  "loose_base64 s = (let t = unpadded s in
     if length s > length t + 2 \<or> \<not> list_all (\<lambda>c. base64_value c \<noteq> None) t then None
     else (case base64_decode (t @ replicate ((4 - length t mod 4) mod 4) CHR ''='') of
         None \<Rightarrow> None
       | Some bytes \<Rightarrow> if unpadded (base64_encode bytes) = t then Some bytes else None))"

definition toInstructionData :: "jsval \<Rightarrow> bool \<Rightarrow> exn + nat list" where
  "toInstructionData v hasData =
     (if \<not> hasData \<or> v = JStr [] then Inr []
      else case v of
        JStr s \<Rightarrow>
          if take 2 s = ''0x''
          then (case hex_bytes (drop 2 s) of
              None \<Rightarrow> Inl (GenericError ''Solana instruction data is not valid hex.'') | Some bytes \<Rightarrow> Inr bytes)
          else (case loose_base64 s of
              None \<Rightarrow> Inl (GenericError ''Solana instruction data is not valid base64.'') | Some bytes \<Rightarrow> Inr bytes)
      | _ \<Rightarrow> Inl (GenericError ''Solana instruction data must be a string.''))"

definition toTransactionInstruction :: "'w solana_rpc \<Rightarrow> parsed_instruction \<Rightarrow> exn + tx_instruction" where
  "toTransactionInstruction p ix =
     (case public_key p (pi_programId ix) of Inl e \<Rightarrow> Inl e
      | Inr prog \<Rightarrow> (case toAccountMetas (sr_codec p) (js_get (pi_data ix) ''keys'') of Inl e \<Rightarrow> Inl e
        | Inr keys \<Rightarrow> map_sum id (\<lambda>data. \<lparr>ti_programId = prog, ti_keys = keys, ti_data = data\<rparr>)
            (toInstructionData (js_get (pi_data ix) ''data'') (has_key (pi_data ix) ''data''))))"

definition assertNetwork :: "'w solana_rpc \<Rightarrow> ('w, unit) eff" where
  "assertNetwork p =
     andthen (sr_genesis p) (\<lambda>genesis.
     if genesis \<noteq> SOLANA_GENESIS_HASH (sr_environment p)
     then throw (GenericError (''Configured Solana RPC returned genesis hash '' @ genesis @ ''; expected '' @
       chain_environment_name (sr_environment p) @ ''.''))
     else ret ())"

text \<open>The loop that fills the two maps of snapshots, and the difference of them.\<close>

fun fill_snapshots ::
  "base58 \<Rightarrow> string list \<Rightarrow> pre_account option list \<Rightarrow> jsval list \<Rightarrow> snapshots \<Rightarrow> snapshots \<Rightarrow>
    exn + snapshots \<times> snapshots" where
  "fill_snapshots b (a # as) (p # ps) (q # qs) pre post =
     (case snapshotFromPre p of Inl e \<Rightarrow> Inl e
      | Inr before \<Rightarrow> (case snapshotFromPost b q of Inl e \<Rightarrow> Inl e
        | Inr after \<Rightarrow> fill_snapshots b as ps qs (pre(a \<mapsto> before)) (post(a \<mapsto> after))))"
| "fill_snapshots b as ps qs pre post = Inr (pre, post)"

definition simulation_effects ::
  "base58 \<Rightarrow> string list \<Rightarrow> pre_account option list \<Rightarrow> jsval list \<Rightarrow> exn + jsval list" where
  "simulation_effects b as ps qs =
     (case fill_snapshots b as ps qs (\<lambda>_. None) (\<lambda>_. None) of Inl e \<Rightarrow> Inl e
      | Inr (pre, post) \<Rightarrow> diffObservedBalances b as pre post)"

text \<open>What becomes of the answer of the node, for the slot of the first snapshot.\<close>

definition simulation_result ::
  "(jsnum \<Rightarrow> string) \<Rightarrow> base58 \<Rightarrow> string list \<Rightarrow> pre_account option list \<Rightarrow> jsnum \<Rightarrow> simulation_answer \<Rightarrow>
    exn + solana_simulation" where
  "simulation_result fmt b as ps slot r =
     (let logs = (case sa_logs r of None \<Rightarrow> [] | Some l \<Rightarrow> l);
          unreliable = (\<lambda>m. \<lparr>ss_success = True, ss_logs = logs, ss_balanceChanges = [],
            ss_balanceChangesReliable = False, ss_error = Some m\<rparr>) in
      if \<not> nullish (sa_err r)
      then Inr \<lparr>ss_success = False, ss_logs = logs, ss_balanceChanges = [], ss_balanceChangesReliable = False,
        ss_error = (if truthy (sa_err r) then Some (render fmt (sa_err r)) else None)\<rparr>
      else if \<not> num_eq (sa_slot r) slot
      then Inr (unreliable (''Simulation context slot '' @ fmt (sa_slot r) @ '' does not match snapshot slot '' @
        fmt slot @ ''.''))
      else (case sa_accounts r of
          JArr qs \<Rightarrow>
            if length qs \<noteq> length as
            then Inr (unreliable ''Simulation account snapshot is truncated or missing.'')
            else map_sum id (\<lambda>changes. \<lparr>ss_success = True, ss_logs = logs, ss_balanceChanges = changes,
              ss_balanceChangesReliable = True, ss_error = None\<rparr>) (simulation_effects b as ps qs)
        | _ \<Rightarrow> Inr (unreliable ''Simulation account snapshot is truncated or missing.'')))"

text \<open>Both snapshots, once the accounts are known, and before that the compilation of the message.\<close>

definition simulate_observed ::
  "(jsnum \<Rightarrow> string) \<Rightarrow> 'w solana_rpc \<Rightarrow> string \<Rightarrow> tx_instruction list \<Rightarrow> string list \<Rightarrow> ('w, solana_simulation) eff" where
  "simulate_observed fmt p payer txs as =
     andthen (sr_accounts p as) (\<lambda>(accounts, slot).
     case accounts of
       None \<Rightarrow> ret (failClosed ''Pre-account snapshot is truncated or missing.'')
     | Some ps \<Rightarrow>
         if length ps \<noteq> length as then ret (failClosed ''Pre-account snapshot is truncated or missing.'')
         else if \<not> (safe_integer slot \<and> nonnegative slot) then ret (failClosed ''Account snapshot slot is invalid.'')
         else
           andthen (sr_blockhash p slot) (\<lambda>hash.
           andthen (sr_run p payer txs hash slot as) (\<lambda>r.
           lift_exn (simulation_result fmt (sr_codec p) as ps slot r))))"

definition simulate_body ::
  "(jsnum \<Rightarrow> string) \<Rightarrow> 'w solana_rpc \<Rightarrow> parsed_instruction list \<Rightarrow> string option \<Rightarrow> ('w, solana_simulation) eff" where
  "simulate_body fmt p ixs requested =
     andthen (lift_exn (resolveFeePayer p requested)) (\<lambda>payer.
     andthen (lift_exn (all_right (toTransactionInstruction p) ixs)) (\<lambda>txs.
     andthen (lift_exn (sr_compile p payer txs)) (\<lambda>as.
     if MAX_OBSERVATION_ACCOUNTS < length as
     then ret (failClosed (''Simulation observes '' @ decimal_string (length as) @ '' accounts; maximum is '' @
       decimal_string MAX_OBSERVATION_ACCOUNTS @ ''.''))
     else andthen (assertNetwork p) (\<lambda>_. simulate_observed fmt p payer txs as))))"

definition simulateTransaction ::
  "(jsnum \<Rightarrow> string) \<Rightarrow> 'w solana_rpc \<Rightarrow> parsed_instruction list \<Rightarrow> string option \<Rightarrow> ('w, solana_simulation) eff" where
  "simulateTransaction fmt p ixs requested =
     try_catch (simulate_body fmt p ixs requested) (\<lambda>e. ret (failClosed (exn_message e)))"

subsection \<open>connector.ts\<close>

record 'w solana_signer =
  sg_publicKey :: string
  sg_signAndBroadcast :: "parsed_instruction list \<Rightarrow> ('w, string) eff"

record 'w solana =
  sl_config :: solana_config
  sl_codec :: base58
  sl_badKey :: exn
  sl_simulate :: "parsed_instruction list \<Rightarrow> string option \<Rightarrow> ('w, solana_simulation) eff"
  sl_signer :: "'w solana_signer option"

definition new_solana_connector :: "solana_config \<Rightarrow> exn + unit" where
  "new_solana_connector c =
     (if so_chainEnvironment c \<noteq> Devnet \<and> so_chainEnvironment c \<noteq> Mainnet
      then Inl (GenericError ''Unsupported Solana network.'') else Inr ())"

text \<open>Without instructions the intent stands for one instruction of its program.\<close>

definition raw_instructions :: "onchain_call \<Rightarrow> jsval list" where
  "raw_instructions x = (case oc_instructions x of
     Some raw \<Rightarrow> raw
   | None \<Rightarrow> [JObj [(''programId'', JStr (case oc_programId x of Some p \<Rightarrow> p | None \<Rightarrow> oc_to x))]])"

text \<open>What the engine throws when an object has no text, and what \<open>parseInstructions\<close> throws.\<close>

definition no_primitive :: exn where
  "no_primitive = GenericError ''Cannot convert object to primitive value''"

definition unsupported_instruction :: exn where
  "unsupported_instruction = GenericError ''Solana raw instruction data is unsupported without trusted decoding.''"

definition key_shape :: "jsval \<Rightarrow> bool" where
  "key_shape v \<longleftrightarrow> is_string (js_get v ''pubkey'') \<and> is_true_or_false (js_get v ''isSigner'') \<and>
     is_true_or_false (js_get v ''isWritable'')"

definition instruction_error :: "(jsnum \<Rightarrow> string) \<Rightarrow> 'w solana \<Rightarrow> jsval \<Rightarrow> exn" where
  "instruction_error fmt v ix =
     (if \<not> nullish (js_get ix ''programId'') \<and> js_string fmt (js_get ix ''programId'') = None \<or> nullish (js_get ix ''data'')
      then no_primitive
      else if \<not> nullish (js_get ix ''type'')
      then GenericError ''Solana raw instruction data cannot rely on caller-supplied type.''
      else if decodeInstructionData (js_get ix ''data'') = None then unsupported_instruction
      else case js_get ix ''keys'' of
          JArr ks \<Rightarrow> (case List.find (\<lambda>k. parse_key (b58_text (sl_codec v)) k = None) ks of
              Some k \<Rightarrow> if key_shape k then sl_badKey v else unsupported_instruction
            | None \<Rightarrow> unsupported_instruction)
        | _ \<Rightarrow> unsupported_instruction)"

definition parsed_instructions :: "(jsnum \<Rightarrow> string) \<Rightarrow> 'w solana \<Rightarrow> jsval list \<Rightarrow> exn + parsed_instruction list" where
  "parsed_instructions fmt v raw = all_right (\<lambda>ix. case parseInstruction fmt (b58_text (sl_codec v)) ix of
     None \<Rightarrow> Inl (instruction_error fmt v ix) | Some y \<Rightarrow> Inr y) raw"

text \<open>The checks of the parsed instructions; \<open>Inl\<close> where a check throws.\<close>

definition solana_checks :: "(jsnum \<Rightarrow> string) \<Rightarrow> solana_config \<Rightarrow> parsed_instruction list \<Rightarrow> exn + string option" where
  "solana_checks fmt c ixs =
     (case validatePrograms ixs c of Some r \<Rightarrow> Inr (Some r)
      | None \<Rightarrow> (case validateAuthorityChange ixs of Some r \<Rightarrow> Inr (Some r)
        | None \<Rightarrow> (case validateTokenMints fmt ixs c of None \<Rightarrow> Inl no_primitive | Some (Some r) \<Rightarrow> Inr (Some r)
          | Some None \<Rightarrow> (case validateAccounts fmt ixs c of None \<Rightarrow> Inl no_primitive | Some r \<Rightarrow> Inr r))))"

text \<open>\<open>revalidate\<close>: the reason of a refusal, or what it throws.\<close>

definition solana_revalidation :: "(jsnum \<Rightarrow> string) \<Rightarrow> 'w solana \<Rightarrow> trading_intent \<Rightarrow> exn + string option" where
  "solana_revalidation fmt v i =
     (case intent_call i of None \<Rightarrow> Inr (Some ''Unsupported Solana connector action.'')
      | Some x \<Rightarrow>
          if oc_chain x \<noteq> Solana then Inr (Some ''Intent is not for Solana.'')
          else if oc_chainEnvironment x \<noteq> so_chainEnvironment (sl_config v)
          then Inr (Some ''Intent Solana environment does not match connector.'')
          else if intent_action i = RequestSignature \<and> oc_chainEnvironment x = Mainnet \<and>
            in_environment i \<noteq> CanaryLive \<and> in_environment i \<noteq> Production
          then Inr (Some ''Mainnet signing requires a live environment.'')
          else if oc_instructions x = Some [] then Inr (Some ''Solana instructions cannot be empty.'')
          else (case parsed_instructions fmt v (raw_instructions x) of
              Inl e \<Rightarrow> Inr (Some (exn_message e))
            | Inr ixs \<Rightarrow> (case solana_checks fmt (sl_config v) ixs of
                Inr None \<Rightarrow>
                  if intent_action i \<noteq> RequestSignature then Inr None
                  else (case expectedDeltas Solana x of
                      Inl e \<Rightarrow> Inr (Some (exn_message e))
                    | Inr ds \<Rightarrow> Inr (if ds = [] then Some ''Solana expected balance deltas are required.'' else None))
              | refused \<Rightarrow> refused)))"

definition solana_revalidate ::
  "(jsnum \<Rightarrow> string) \<Rightarrow> 'w solana \<Rightarrow> trading_intent \<Rightarrow> ('w, bool \<times> string option) eff" where
  "solana_revalidate fmt v i = (case solana_revalidation fmt v i of
     Inl e \<Rightarrow> throw e | Inr None \<Rightarrow> ret (True, None) | Inr (Some r) \<Rightarrow> ret (False, Some r))"

definition foreign_asset :: "solana_config \<Rightarrow> jsval \<Rightarrow> bool" where
  "foreign_asset c change \<longleftrightarrow> js_get change ''asset'' \<noteq> JStr NATIVE_SOL_ASSET \<and>
     js_get change ''asset'' \<notin> JStr ` set (so_allowedTokenMints c)"

definition assertAllowlistedSimulationAssets ::
  "(jsnum \<Rightarrow> string) \<Rightarrow> solana_config \<Rightarrow> solana_simulation \<Rightarrow> exn + unit" where
  "assertAllowlistedSimulationAssets fmt c r =
     (if \<not> ss_balanceChangesReliable r then Inr ()
      else case List.find (foreign_asset c) (ss_balanceChanges r) of None \<Rightarrow> Inr ()
        | Some change \<Rightarrow> (case js_string fmt (js_get change ''asset'') of
            None \<Rightarrow> Inl no_primitive | Some a \<Rightarrow> Inl (GenericError (not_listed ''Token mint'' a))))"

definition assertExpectedSolanaDeltas :: "solana_simulation \<Rightarrow> onchain_call \<Rightarrow> exn + unit" where
  "assertExpectedSolanaDeltas r x =
     (if oc_expectedDeltas x = None then Inr ()
      else (case expectedDeltas Solana x of Inl e \<Rightarrow> Inl e
        | Inr ds \<Rightarrow>
            if ds = [] then Inl (GenericError ''Solana expected balance deltas are required.'')
            else if \<not> ss_balanceChangesReliable r then Inl unreliable_changes
            else let reasons = compareSolanaBalanceDeltas (ss_balanceChanges r) ds in
              if reasons \<noteq> [] then Inl (deltas_failed reasons) else Inr ()))"

definition solana_simulated ::
  "(jsnum \<Rightarrow> string) \<Rightarrow> 'w solana \<Rightarrow> onchain_call \<Rightarrow> parsed_instruction list \<Rightarrow> string option \<Rightarrow> 'w conn_run \<Rightarrow> 'w conn_run" where
  "solana_simulated fmt v x ixs feePayer k =
     conn_call (sl_simulate v ixs feePayer) (\<lambda>r.
     if \<not> ss_success r
     then conn_throw (''Simulation failed: '' @ (case ss_error r of None \<Rightarrow> ''null'' | Some m \<Rightarrow> m))
     else conn_try (assertAllowlistedSimulationAssets fmt (sl_config v) r) (\<lambda>_.
       conn_try (assertExpectedSolanaDeltas r x) (\<lambda>_. k)))"

definition solana_sign :: "'w solana_signer \<Rightarrow> parsed_instruction list \<Rightarrow> 'w conn_run" where
  "solana_sign s ixs = after_check (conn_call (sg_signAndBroadcast s ixs)
     (\<lambda>hash. CDone (Inr (no_evidence\<lparr>ev_transactionHash := Some hash\<rparr>))))"

definition solana_execute :: "(jsnum \<Rightarrow> string) \<Rightarrow> 'w solana \<Rightarrow> trading_intent \<Rightarrow> 'w conn_run" where
  "solana_execute fmt v i =
     conn_try (solana_revalidation fmt v i) (\<lambda>refused. case (refused, intent_call i) of
       (Some reason, _) \<Rightarrow> CDone (Inl (ConnectorRevalidationError reason))
     | (None, None) \<Rightarrow> conn_throw ''Solana connector does not execute this action.''
     | (None, Some x) \<Rightarrow>
         if oc_instructions x = Some [] then CDone (Inl (ConnectorRevalidationError ''Solana instructions cannot be empty.''))
         else conn_try (parsed_instructions fmt v (raw_instructions x)) (\<lambda>ixs.
           if intent_action i = SimulateTransaction
           then conn_try (expectedDeltas Solana x) (\<lambda>_.
             solana_simulated fmt v x ixs (map_option sg_publicKey (sl_signer v))
               (CDone (Inr (no_evidence\<lparr>ev_simulationEvidence := Some \<lparr>se_simulationId = None,
                  se_provider = ''solana:'' @ chain_environment_name (so_chainEnvironment (sl_config v))\<rparr>\<rparr>))))
           else (case sl_signer v of
               None \<Rightarrow> conn_throw ''Signer not configured.''
             | Some s \<Rightarrow> conn_try (expectedDeltas Solana x) (\<lambda>ds.
                 if ds = [] then conn_throw ''Solana expected balance deltas are required.''
                 else solana_simulated fmt v x ixs (Some (sg_publicKey s)) (solana_sign s ixs)))))"

definition solana_connector :: "(jsnum \<Rightarrow> string) \<Rightarrow> 'w solana \<Rightarrow> 'w connector" where
  "solana_connector fmt v = \<lparr>cn_execute = solana_execute fmt v, cn_revalidate = solana_revalidate fmt v\<rparr>"

end
