(* ===== verification/SolanaSafety.thy ===== *)
theory SolanaSafety
  imports SolanaConnector BrokerSamples
begin

text \<open>
  What the Solana connector signs, and what the simulation behind a signature says of the accounts:
  the connector alone (\<open>solana_signs_cleared\<close>), and the connector over its provider
  (\<open>solana_signed_effects\<close>).
\<close>

declare map_of_append [simp del] ret_run [simp del] throw_run [simp del]

subsection \<open>The connector\<close>

datatype solana_event =
    SolSimulated "parsed_instruction list" "string option" "exn + solana_simulation"
  | SolChecked "exn + unit"
  | SolSigned "parsed_instruction list" "exn + string"

definition logged_solana :: "'w solana \<Rightarrow> ('w \<times> solana_event list) solana" where
  "logged_solana v = \<lparr>sl_config = sl_config v, sl_codec = sl_codec v, sl_badKey = sl_badKey v,
     sl_simulate = (\<lambda>ixs k. logged (SolSimulated ixs k) (sl_simulate v ixs k)),
     sl_signer = map_option (\<lambda>s. \<lparr>sg_publicKey = sg_publicKey s,
       sg_signAndBroadcast = (\<lambda>ixs. logged (SolSigned ixs) (sg_signAndBroadcast s ixs))\<rparr>) (sl_signer v)\<rparr>"

lemma logged_solana_simps [simp]:
  "sl_config (logged_solana v) = sl_config v" "sl_codec (logged_solana v) = sl_codec v"
  "sl_badKey (logged_solana v) = sl_badKey v"
  "sl_simulate (logged_solana v) ixs k = logged (SolSimulated ixs k) (sl_simulate v ixs k)"
  "sl_signer (logged_solana v) = map_option (\<lambda>s. \<lparr>sg_publicKey = sg_publicKey s,
     sg_signAndBroadcast = (\<lambda>ixs. logged (SolSigned ixs) (sg_signAndBroadcast s ixs))\<rparr>) (sl_signer v)"
  by (simp_all add: logged_solana_def)

lemma logged_instruction_error [simp]: "instruction_error fmt (logged_solana v) ix = instruction_error fmt v ix"
  by (simp add: instruction_error_def cong: jsval.case_cong option.case_cong if_cong)

lemma logged_parsed [simp]: "parsed_instructions fmt (logged_solana v) raw = parsed_instructions fmt v raw"
  by (simp add: parsed_instructions_def cong: option.case_cong)

lemma logged_revalidation [simp]: "solana_revalidation fmt (logged_solana v) i = solana_revalidation fmt v i"
  by (simp add: solana_revalidation_def cong: option.case_cong sum.case_cong if_cong)

text \<open>A value that is set is a text on the list.\<close>

definition on_list :: "(jsnum \<Rightarrow> string) \<Rightarrow> string list \<Rightarrow> jsval \<Rightarrow> bool" where
  "on_list fmt names v \<longleftrightarrow> (truthy v \<longrightarrow> (\<exists>s \<in> set names. js_string fmt v = Some s))"

definition instruction_mint :: "parsed_instruction \<Rightarrow> jsval" where
  "instruction_mint ix = (if nullish (js_get (pi_data ix) ''mint'') then js_get (pi_data ix) ''tokenMint''
     else js_get (pi_data ix) ''mint'')"

definition instruction_allowed :: "(jsnum \<Rightarrow> string) \<Rightarrow> solana_config \<Rightarrow> parsed_instruction \<Rightarrow> bool" where
  "instruction_allowed fmt c ix \<longleftrightarrow> pi_programId ix \<in> set (so_allowedPrograms c) \<and> \<not> hasAuthorityChange [ix] \<and>
     on_list fmt (so_allowedTokenMints c) (instruction_mint ix) \<and>
     (\<forall>a \<in> set (instruction_accounts ix). on_list fmt (so_allowedAccounts c) a)"

lemma first_refusal_passed: "first_refusal f xs = Some None \<longleftrightarrow> (\<forall>x \<in> set xs. f x = Some None)"
  by (induction xs) (auto split: option.split)

lemma listed_passed: "listed fmt names what v = Some None \<longleftrightarrow> on_list fmt names v"
  by (auto simp: listed_def on_list_def)

lemma solana_checks_passed:
  assumes "solana_checks fmt c ixs = Inr None" "ix \<in> set ixs"
  shows "instruction_allowed fmt c ix"
proof -
  have "validatePrograms ixs c = None" "validateAuthorityChange ixs = None" "validateTokenMints fmt ixs c = Some None"
    "validateAccounts fmt ixs c = Some None"
    using assms(1) by (auto simp: solana_checks_def split: option.splits)
  moreover have "set (getUniquePrograms ixs) = pi_programId ` set ixs" by (simp add: getUniquePrograms_def)
  ultimately show ?thesis
    using assms(2)
    by (auto simp: instruction_allowed_def validatePrograms_def find_None_iff validateAuthorityChange_def
        hasAuthorityChange_def list_ex_iff validateTokenMints_def validateAccounts_def first_refusal_passed listed_passed
        instruction_mint_def Let_def split: if_splits)
qed

definition solana_cleared ::
  "(jsnum \<Rightarrow> string) \<Rightarrow> 'w solana \<Rightarrow> environment \<Rightarrow> signing_call \<Rightarrow> parsed_instruction list \<Rightarrow> expected_delta list \<Rightarrow> bool"
where
  "solana_cleared fmt v envr x ixs ds \<longleftrightarrow> oc_chain x = Solana \<and>
     oc_chainEnvironment x = so_chainEnvironment (sl_config v) \<and>
     (oc_chainEnvironment x = Mainnet \<longrightarrow> envr = CanaryLive \<or> envr = Production) \<and>
     oc_expectedDeltas x = Some ds \<and> ds \<noteq> [] \<and> oc_instructions x \<noteq> Some [] \<and>
     parsed_instructions fmt v (raw_instructions (onchain_call.truncate x)) = Inr ixs \<and>
     (\<forall>ix \<in> set ixs. instruction_allowed fmt (sl_config v) ix)"

lemma expected_some: "expectedDeltas c x = Inr ds \<Longrightarrow> ds \<noteq> [] \<Longrightarrow> oc_expectedDeltas x = Some ds"
  by (auto simp: expectedDeltas_def split: option.splits if_splits)

lemma solana_signing_revalidated:
  assumes "solana_revalidation fmt v (OnchainSigningIntent e x) = Inr None"
  shows "\<exists>ixs ds. parsed_instructions fmt v (raw_instructions (onchain_call.truncate x)) = Inr ixs \<and>
    expectedDeltas Solana (onchain_call.truncate x) = Inr ds \<and> solana_cleared fmt v (env_environment e) x ixs ds"
proof -
  let ?x = "onchain_call.truncate x"
  have frame: "oc_chain x = Solana" "oc_chainEnvironment x = so_chainEnvironment (sl_config v)"
    "oc_chainEnvironment x = Mainnet \<longrightarrow> env_environment e = CanaryLive \<or> env_environment e = Production"
    "oc_instructions x \<noteq> Some []"
    using assms by (auto simp: solana_revalidation_def onchain_call.defs split: if_splits)
  then obtain ixs ds where p: "parsed_instructions fmt v (raw_instructions ?x) = Inr ixs"
    "solana_checks fmt (sl_config v) ixs = Inr None" "expectedDeltas Solana ?x = Inr ds" "ds \<noteq> []"
    using assms by (auto simp: solana_revalidation_def onchain_call.defs split: if_splits sum.splits option.splits)
  then have "oc_expectedDeltas x = Some ds"
    using expected_some [of Solana ?x ds] by (simp add: onchain_call.defs)
  with p frame solana_checks_passed [OF p(2)] show ?thesis by (auto simp: solana_cleared_def)
qed

lemma allowlisted_assets:
  assumes "assertAllowlistedSimulationAssets fmt c r = Inr ()" "ss_balanceChangesReliable r" "v \<in> set (ss_balanceChanges r)"
  shows "\<not> foreign_asset c v"
  using assms by (auto simp: assertAllowlistedSimulationAssets_def find_None_iff split: option.splits)

lemma solana_simulated_deltas:
  assumes "assertExpectedSolanaDeltas r x = Inr ()" "expectedDeltas Solana x = Inr ds" "ds \<noteq> []"
  shows "ss_balanceChangesReliable r \<and> deltas_respected Solana (ss_balanceChanges r) ds"
  using assms expected_some [OF assms(2,3)] balance_deltas_passed [of Solana "ss_balanceChanges r" ds]
  by (auto simp: assertExpectedSolanaDeltas_def compareSolanaBalanceDeltas_def Let_def split: if_splits)

lemma solana_simulated_event:
  assumes "run_conn (logged SolChecked check) (solana_execute fmt (logged_solana v) i) (w, []) = (r, (t, events))"
    and "SolSimulated ixs k out \<in> set events"
  shows "\<exists>w'. fst (sl_simulate v ixs k w') = out"
  using assms
  by (auto simp: solana_execute_def solana_simulated_def solana_sign_def
      split: if_splits sum.splits prod.splits option.splits)

text \<open>The runs of the connector that reach the signer.\<close>

lemma solana_runs:
  assumes "run_conn (logged SolChecked check) (solana_execute fmt (logged_solana v) i) (w, []) = (r, (t, events))"
    and "SolSigned ixs out \<in> set events"
  shows "\<exists>e x s ds sim. i = OnchainSigningIntent e x \<and> sl_signer v = Some s \<and>
    solana_cleared fmt v (env_environment e) x ixs ds \<and>
    events = [SolSimulated ixs (Some (sg_publicKey s)) (Inr sim), SolChecked (Inr ()), SolSigned ixs out] \<and>
    ss_success sim \<and> ss_balanceChangesReliable sim \<and>
    (\<forall>c \<in> set (ss_balanceChanges sim). \<not> foreign_asset (sl_config v) c) \<and>
    deltas_respected Solana (ss_balanceChanges sim) ds"
proof -
  show ?thesis
  proof (cases i)
    case (OnchainSigningIntent e x)
    let ?x = "onchain_call.truncate x"
    consider (passed) "solana_revalidation fmt v i = Inr None" | (other) "solana_revalidation fmt v i \<noteq> Inr None" by blast
    then show ?thesis
    proof cases
      case passed
      then obtain ys ds where p: "parsed_instructions fmt v (raw_instructions ?x) = Inr ys"
        "expectedDeltas Solana ?x = Inr ds" "solana_cleared fmt v (env_environment e) x ys ds"
        using solana_signing_revalidated OnchainSigningIntent by blast
      then have ne: "ds \<noteq> []" "oc_instructions x \<noteq> Some []" by (simp_all add: solana_cleared_def)
      obtain s where s: "sl_signer v = Some s"
        using assms passed p ne(2) OnchainSigningIntent
        by (cases "sl_signer v") (auto simp: solana_execute_def onchain_call.defs)
      have deltas: "assertExpectedSolanaDeltas sim ?x = Inr () \<Longrightarrow>
          ss_balanceChangesReliable sim \<and> deltas_respected Solana (ss_balanceChanges sim) ds" for sim
        using solana_simulated_deltas p(2) ne(1) by blast
      show ?thesis
        using assms passed p ne s
        by (auto simp: solana_execute_def OnchainSigningIntent solana_simulated_def solana_sign_def
            allowlisted_assets onchain_call.defs dest!: deltas [unfolded onchain_call.defs]
            split: if_splits sum.splits prod.splits)
    next
      case other
      then show ?thesis
        using assms by (auto simp: solana_execute_def split: sum.splits option.splits)
    qed
  next
    case (OnchainSimulationIntent e x)
    then show ?thesis
      using assms
      by (auto simp: solana_execute_def solana_simulated_def split: if_splits sum.splits prod.splits option.splits)
  qed (use assms in \<open>auto simp: solana_execute_def split: option.splits sum.splits\<close>)
qed

text \<open>C39. Instructions are signed only when they are cleared: if the Solana connector calls the signer,
  the intent asks for a signature on the network of the connector and, on the main network, in a live
  environment; every instruction is of an allowed program, changes no authority and names only
  allowed mints and accounts; those very instructions were simulated before, successfully and with
  reliable balance changes of allowed assets that respect the expected deltas; and the check before
  the side effect came between the two. Nothing else is called.\<close>

theorem solana_signs_cleared:
  assumes "run_conn (logged SolChecked check) (solana_execute fmt (logged_solana v) i) (w, []) = (r, (t, events))"
    and "SolSigned ixs out \<in> set events"
  shows "\<exists>e x s ds sim. i = OnchainSigningIntent e x \<and> sl_signer v = Some s \<and>
    solana_cleared fmt v (env_environment e) x ixs ds \<and>
    events = [SolSimulated ixs (Some (sg_publicKey s)) (Inr sim), SolChecked (Inr ()), SolSigned ixs out] \<and>
    ss_success sim \<and> ss_balanceChangesReliable sim \<and>
    (\<forall>c \<in> set (ss_balanceChanges sim). \<not> foreign_asset (sl_config v) c) \<and>
    deltas_respected Solana (ss_balanceChanges sim) ds"
  using assms by (rule solana_runs)

subsection \<open>The connector over its provider\<close>

text \<open>
  The node was asked about the accounts \<open>as\<close> that the instructions compile to, answered with \<open>ps\<close> at
  one slot and, having run the instructions at that slot without an error, with \<open>qs\<close>; it is of the
  network of the provider.
\<close>

definition observed ::
  "'w solana_rpc \<Rightarrow> parsed_instruction list \<Rightarrow> string option \<Rightarrow> string list \<Rightarrow> pre_account option list \<Rightarrow> jsval list \<Rightarrow> bool"
where
  "observed p ixs k as ps qs \<longleftrightarrow> (\<exists>payer txs slot hash ans w w1 w2 w3.
     resolveFeePayer p k = Inr payer \<and> all_right (toTransactionInstruction p) ixs = Inr txs \<and>
     sr_compile p payer txs = Inr as \<and> length as \<le> MAX_OBSERVATION_ACCOUNTS \<and>
     fst (sr_genesis p w) = Inr (SOLANA_GENESIS_HASH (sr_environment p)) \<and>
     fst (sr_accounts p as w1) = Inr (Some ps, slot) \<and> length ps = length as \<and>
     fst (sr_blockhash p slot w2) = Inr hash \<and> fst (sr_run p payer txs hash slot as w3) = Inr ans \<and>
     nullish (sa_err ans) \<and> num_eq (sa_slot ans) slot \<and> sa_accounts ans = JArr qs \<and> length qs = length as)"

lemma reliable_result:
  assumes "simulation_result fmt b as ps slot ans = Inr sim" "ss_balanceChangesReliable sim"
  shows "\<exists>qs. nullish (sa_err ans) \<and> num_eq (sa_slot ans) slot \<and> sa_accounts ans = JArr qs \<and> length qs = length as \<and>
    simulation_effects b as ps qs = Inr (ss_balanceChanges sim)"
proof (cases "simulation_effects b as ps (case sa_accounts ans of JArr qs \<Rightarrow> qs | _ \<Rightarrow> [])")
  case (Inl e)
  then show ?thesis using assms by (auto simp: simulation_result_def Let_def split: if_splits jsval.splits)
next
  case (Inr changes)
  then show ?thesis using assms by (auto simp: simulation_result_def Let_def split: if_splits jsval.splits)
qed

lemma lift_exn_value: "lift_exn r s = (Inr x, t) \<longleftrightarrow> r = Inr x \<and> s = t"
  by (auto simp: lift_exn_def throw_def ret_def split: sum.splits)

lemma reliable_observed:
  assumes "simulate_observed fmt p payer txs as w = (Inr sim, t)" "ss_balanceChangesReliable sim"
  shows "\<exists>slot hash ans w2 w3 ps qs. fst (sr_accounts p as w) = Inr (Some ps, slot) \<and> length ps = length as \<and>
     fst (sr_blockhash p slot w2) = Inr hash \<and> fst (sr_run p payer txs hash slot as w3) = Inr ans \<and>
     nullish (sa_err ans) \<and> num_eq (sa_slot ans) slot \<and> sa_accounts ans = JArr qs \<and> length qs = length as \<and>
     simulation_effects (sr_codec p) as ps qs = Inr (ss_balanceChanges sim)"
proof -
  obtain accounts slot w2 where acc: "sr_accounts p as w = (Inr (accounts, slot), w2)"
    using assms(1) by (auto simp: simulate_observed_def elim!: andthenE)
  then obtain ps where ps: "accounts = Some ps" "length ps = length as"
    and rest: "andthen (sr_blockhash p slot) (\<lambda>hash. andthen (sr_run p payer txs hash slot as) (\<lambda>r.
             lift_exn (simulation_result fmt (sr_codec p) as ps slot r))) w2 = (Inr sim, t)"
    using assms by (auto simp: simulate_observed_def andthen_def [of "sr_accounts p as"] ret_def failClosed_def
        split: option.splits if_splits)
  from rest obtain hash w3 ans w4 where run: "sr_blockhash p slot w2 = (Inr hash, w3)"
    "sr_run p payer txs hash slot as w3 = (Inr ans, w4)"
    "lift_exn (simulation_result fmt (sr_codec p) as ps slot ans) w4 = (Inr sim, t)"
    by (elim andthenE) auto
  then have "simulation_result fmt (sr_codec p) as ps slot ans = Inr sim" by (simp add: lift_exn_value)
  from reliable_result [OF this assms(2)] acc ps run show ?thesis
    by (metis fst_conv)
qed

lemma reliable_simulation:
  assumes "simulateTransaction fmt p ixs k w = (Inr sim, t)" "ss_balanceChangesReliable sim"
  shows "\<exists>as ps qs. observed p ixs k as ps qs \<and> simulation_effects (sr_codec p) as ps qs = Inr (ss_balanceChanges sim)"
proof -
  have body: "simulate_body fmt p ixs k w = (Inr sim, t)"
    using assms by (auto simp: simulateTransaction_def try_catch_def ret_def failClosed_def split: prod.splits sum.splits)
  obtain payer txs as where c: "resolveFeePayer p k = Inr payer" "all_right (toTransactionInstruction p) ixs = Inr txs"
    "sr_compile p payer txs = Inr as"
    using body by (auto simp: simulate_body_def lift_exn_value elim!: andthenE)
  then have few: "length as \<le> MAX_OBSERVATION_ACCOUNTS"
    and rest: "andthen (assertNetwork p) (\<lambda>_. simulate_observed fmt p payer txs as) w = (Inr sim, t)"
    using body assms(2) by (auto simp: simulate_body_def lift_exn_def ret_def failClosed_def split: if_splits)
  from rest obtain w1 where net: "assertNetwork p w = (Inr (), w1)"
    and obs: "simulate_observed fmt p payer txs as w1 = (Inr sim, t)"
    by (elim andthenE) auto
  have "fst (sr_genesis p w) = Inr (SOLANA_GENESIS_HASH (sr_environment p))"
    using net by (auto simp: assertNetwork_def throw_def ret_def split: if_splits elim!: andthenE)
  with c few reliable_observed [OF obs assms(2)] show ?thesis
    unfolding observed_def by metis
qed

text \<open>C40. The effects behind a signature: when the Solana connector with its JSON-RPC provider calls
  the signer, a node of the right network had been asked, at one slot, about every account the
  instructions compile to and had run them without an error; and in that run the lamports and the
  token holding of every one of these accounts stayed as they were or changed within the range of an
  expected delta for that account and asset.\<close>

theorem solana_signed_effects:
  assumes "run_conn (logged SolChecked check) (solana_execute fmt (logged_solana v) i) (w, []) = (r, (t, events))"
    and "SolSigned ixs out \<in> set events" "sl_simulate v = simulateTransaction fmt p" "long_mints (sr_codec p)"
    and "\<And>payer txs as. sr_compile p payer txs = Inr as \<Longrightarrow> distinct as"
  shows "\<exists>e x ds as ps qs pre post k. i = OnchainSigningIntent e x \<and> oc_expectedDeltas x = Some ds \<and>
    observed p ixs k as ps qs \<and> fill_snapshots (sr_codec p) as ps qs (\<lambda>_. None) (\<lambda>_. None) = Inr (pre, post) \<and>
    (\<forall>a \<in> set as. \<exists>before after tb ta. pre a = Some before \<and> post a = Some after \<and>
       decodeToken (sr_codec p) before pre = Inr tb \<and> decodeToken (sr_codec p) after post = Inr ta \<and>
       delta_allowed ds a NATIVE_SOL_ASSET (lamports after - lamports before) \<and>
       (\<forall>m n. tb = Some (m, n) \<or> ta = Some (m, n) \<longrightarrow> delta_allowed ds a m (token_amount ta - token_amount tb)))"
proof -
  obtain e x s ds sim where "sl_signer v = Some s" and i: "i = OnchainSigningIntent e x" "solana_cleared fmt v (env_environment e) x ixs ds"
    and ev: "events = [SolSimulated ixs (Some (sg_publicKey s)) (Inr sim), SolChecked (Inr ()), SolSigned ixs out]"
    and sim: "ss_balanceChangesReliable sim" "deltas_respected Solana (ss_balanceChanges sim) ds"
    using solana_runs [OF assms(1,2)] by blast
  obtain w' where "fst (sl_simulate v ixs (Some (sg_publicKey s)) w') = Inr sim"
    using solana_simulated_event [OF assms(1)] ev by fastforce
  then obtain as ps qs where o: "observed p ixs (Some (sg_publicKey s)) as ps qs"
    and eff: "simulation_effects (sr_codec p) as ps qs = Inr (ss_balanceChanges sim)"
    using reliable_simulation [OF _ sim(1), of fmt p ixs "Some (sg_publicKey s)" w'] assms(3) by (metis prod.collapse)
  obtain pre post where fill: "fill_snapshots (sr_codec p) as ps qs (\<lambda>_. None) (\<lambda>_. None) = Inr (pre, post)"
    and diff: "diffObservedBalances (sr_codec p) as pre post = Inr (ss_balanceChanges sim)"
    using eff by (auto simp: simulation_effects_def split: sum.splits)
  have "compareSolanaBalanceDeltas (ss_balanceChanges sim) ds = []"
    using sim(2) by (simp add: compareSolanaBalanceDeltas_def balance_deltas_passed)
  moreover have "distinct as" using o assms(5) by (auto simp: observed_def)
  ultimately have "\<forall>a \<in> set as. \<exists>before after tb ta. pre a = Some before \<and> post a = Some after \<and>
       decodeToken (sr_codec p) before pre = Inr tb \<and> decodeToken (sr_codec p) after post = Inr ta \<and>
       delta_allowed ds a NATIVE_SOL_ASSET (lamports after - lamports before) \<and>
       (\<forall>m n. tb = Some (m, n) \<or> ta = Some (m, n) \<longrightarrow> delta_allowed ds a m (token_amount ta - token_amount tb))"
    using observed_balances_respected [OF diff _ _ assms(4)] by blast
  moreover have "oc_expectedDeltas x = Some ds" using i(2) by (simp add: solana_cleared_def)
  ultimately show ?thesis using i(1) o fill by blast
qed

subsection \<open>A sample\<close>

text \<open>A program of the development network takes two lamports from an account.\<close>

definition sample_codec :: base58 where
  "sample_codec = \<lparr>b58_text = Some, b58_bytes = (\<lambda>bytes. replicate 32 CHR ''k'')\<rparr>"

definition sample_rpc :: "unit solana_rpc" where
  "sample_rpc = \<lparr>sr_environment = Devnet, sr_feePayer = None, sr_codec = sample_codec,
     sr_badKey = GenericError ''Invalid public key input'', sr_compile = (\<lambda>payer txs. Inr [''A'']),
     sr_genesis = ret (SOLANA_GENESIS_HASH Devnet),
     sr_accounts = (\<lambda>as. ret (Some [Some \<lparr>pa_lamports = JNum (Fin 5), pa_owner = Some SYSTEM_PROGRAM_ID,
       pa_executable = JBool False, pa_data = Some []\<rparr>], Fin 7)),
     sr_blockhash = (\<lambda>slot. ret ''h''),
     sr_run = (\<lambda>payer txs hash slot as. ret \<lparr>sa_err = JNull, sa_logs = None, sa_slot = Fin 7, sa_accounts = JArr
       [JObj [(''lamports'', JNum (Fin 3)), (''owner'', JStr SYSTEM_PROGRAM_ID), (''executable'', JBool False),
         (''data'', JArr [JStr [], JStr ''base64''])]]\<rparr>)\<rparr>"

definition sample_solana :: "unit solana" where
  "sample_solana = \<lparr>sl_config = \<lparr>so_chainEnvironment = Devnet, so_allowedPrograms = [''prog''], so_allowedTokenMints = [],
       so_allowedAccounts = []\<rparr>, sl_codec = sample_codec, sl_badKey = GenericError ''Invalid public key input'',
     sl_simulate = simulateTransaction unary_number sample_rpc,
     sl_signer = Some \<lparr>sg_publicKey = ''payer'', sg_signAndBroadcast = (\<lambda>ixs. ret ''sig'')\<rparr>\<rparr>"

definition sample_debit :: expected_delta where
  "sample_debit = \<lparr>ed_owner = ''A'', ed_asset = ''SOL'', ed_minDelta = ''-2'', ed_maxDelta = ''-2''\<rparr>"

definition sample_signing :: trading_intent where
  "sample_signing = OnchainSigningIntent sample_envelope
     \<lparr>oc_chain = Solana, oc_chainEnvironment = Devnet, oc_to = ''A'', oc_data = None, oc_value = None,
      oc_programId = Some ''prog'', oc_instructions = None, oc_expectedDeltas = Some [sample_debit],
      sc_simulationId = ''s1'', sc_maxTokenApprovalAmount = None\<rparr>"

definition sample_instruction :: parsed_instruction where
  "sample_instruction = \<lparr>pi_programId = ''prog'', pi_type = None, pi_data = JObj [(''programId'', JStr ''prog'')]\<rparr>"

lemma sample_parsed:
  "parsed_instructions fmt sample_solana [JObj [(''programId'', JStr ''prog'')]] = Inr [sample_instruction]"
  by (simp add: parsed_instructions_def parseInstruction_def js_get_def nullish_def sample_instruction_def)

lemma sample_debit_ok: "is_expected_delta Solana (delta_json Solana sample_debit)"
  unfolding delta_json_expected by (simp add: delta_ok_def sample_debit_def integer_string_def is_digit_def)

lemma sample_revalidation: "solana_revalidation fmt sample_solana sample_signing = Inr None"
  by (simp add: solana_revalidation_def sample_signing_def onchain_call.defs raw_instructions_def sample_parsed)
    (simp add: sample_solana_def solana_checks_def validatePrograms_def getUniquePrograms_def sample_instruction_def
      validateAuthorityChange_def hasAuthorityChange_def validateTokenMints_def validateAccounts_def listed_def
      instruction_accounts_def js_get_def nullish_def expectedDeltas_def sample_debit_ok)

definition sample_effects :: "jsval list" where
  "sample_effects = [balance_change ''A'' ''SOL'' (- 2)]"

lemma sample_simulation:
  "simulateTransaction fmt sample_rpc [sample_instruction] (Some ''payer'') =
     ret \<lparr>ss_success = True, ss_logs = [], ss_balanceChanges = sample_effects, ss_balanceChangesReliable = True, ss_error = None\<rparr>"
  by (simp add: simulateTransaction_def simulate_body_def simulate_observed_def assertNetwork_def lift_exn_def
      resolveFeePayer_def public_key_def toTransactionInstruction_def toAccountMetas_def toInstructionData_def
      sample_rpc_def sample_codec_def sample_instruction_def js_get_def has_key_def MAX_OBSERVATION_ACCOUNTS_def
      simulation_result_def nullish_def num_eq_def simulation_effects_def snapshotFromPre_def snapshotFromPost_def
      snapshot_def is_lamports_def lamports_of_def pubkeyOf_def encoded_data_def observe_account_def decodeToken_def
      SYSTEM_PROGRAM_ID_def TOKEN_PROGRAM_ID_def TOKEN_2022_PROGRAM_ID_def lamports_def NATIVE_SOL_ASSET_def
      sample_effects_def nonnegative_def) (simp add: try_catch_def fun_eq_iff ret_def)

lemma sample_comparison: "compareSolanaBalanceDeltas sample_effects [sample_debit] = []"
  by (simp add: compareSolanaBalanceDeltas_def compare_balance_deltas_def sample_effects_def sample_debit_def
      unexpected_change_def expected_mismatch_def is_balance_change_def change_matches_def Let_def)
    (simp add: balance_change_def js_get_def parseDelta_def integer_string_def is_digit_def int_value_def decimal_number_def)

abbreviation sample_run_result :: solana_simulation where
  "sample_run_result \<equiv> \<lparr>ss_success = True, ss_logs = [], ss_balanceChanges = sample_effects, ss_balanceChangesReliable = True,
     ss_error = None\<rparr>"

lemma sample_assets: "assertAllowlistedSimulationAssets fmt c sample_run_result = Inr ()"
  by (simp add: assertAllowlistedSimulationAssets_def)
    (simp add: sample_effects_def foreign_asset_def balance_change_def js_get_def NATIVE_SOL_ASSET_def)

lemma sample_solana_run:
  "\<exists>sim. run_conn (logged SolChecked (ret ())) (solana_execute unary_number (logged_solana sample_solana) sample_signing) ((), []) =
     (Inr (no_evidence\<lparr>ev_transactionHash := Some ''sig''\<rparr>), ((),
       [SolSimulated [sample_instruction] (Some ''payer'') (Inr sim), SolChecked (Inr ()),
        SolSigned [sample_instruction] (Inr ''sig'')]))"
proof -
  have call: "intent_call sample_signing = Some \<lparr>oc_chain = Solana, oc_chainEnvironment = Devnet, oc_to = ''A'', oc_data = None,
      oc_value = None, oc_programId = Some ''prog'', oc_instructions = None, oc_expectedDeltas = Some [sample_debit]\<rparr>"
    "intent_action sample_signing = RequestSignature"
    by (simp_all add: sample_signing_def onchain_call.defs)
  have v: "sl_signer sample_solana = Some \<lparr>sg_publicKey = ''payer'', sg_signAndBroadcast = (\<lambda>ixs. ret ''sig'')\<rparr>"
    "sl_simulate sample_solana = simulateTransaction unary_number sample_rpc"
    by (simp_all add: sample_solana_def)
  show ?thesis
    by (simp add: solana_execute_def sample_revalidation call raw_instructions_def sample_parsed v expectedDeltas_def
        sample_debit_ok solana_simulated_def solana_sign_def sample_simulation)
      (simp add: ret_def sample_assets assertExpectedSolanaDeltas_def expectedDeltas_def sample_debit_ok sample_comparison Let_def)
qed

theorem solana_signs_cleared_witness:
  "\<exists>x ds. sample_signing = OnchainSigningIntent sample_envelope x \<and>
     solana_cleared unary_number sample_solana Testnet x [sample_instruction] ds"
proof -
  obtain sim where run: "run_conn (logged SolChecked (ret ())) (solana_execute unary_number (logged_solana sample_solana) sample_signing) ((), []) =
     (Inr (no_evidence\<lparr>ev_transactionHash := Some ''sig''\<rparr>), ((),
       [SolSimulated [sample_instruction] (Some ''payer'') (Inr sim), SolChecked (Inr ()),
        SolSigned [sample_instruction] (Inr ''sig'')]))"
    using sample_solana_run by blast
  have "env_environment sample_envelope = Testnet" by (simp add: sample_envelope_def)
  with solana_signs_cleared [OF run] show ?thesis by (fastforce simp: sample_signing_def)
qed

theorem solana_signed_effects_witness:
  "\<exists>as ps qs k. observed sample_rpc [sample_instruction] k as ps qs"
proof -
  obtain sim where run: "run_conn (logged SolChecked (ret ())) (solana_execute unary_number (logged_solana sample_solana) sample_signing) ((), []) =
     (Inr (no_evidence\<lparr>ev_transactionHash := Some ''sig''\<rparr>), ((),
       [SolSimulated [sample_instruction] (Some ''payer'') (Inr sim), SolChecked (Inr ()),
        SolSigned [sample_instruction] (Inr ''sig'')]))"
    using sample_solana_run by blast
  have "sl_simulate sample_solana = simulateTransaction unary_number sample_rpc" by (simp add: sample_solana_def)
  moreover have "long_mints (sr_codec sample_rpc)"
    by (simp add: long_mints_def sample_rpc_def sample_codec_def)
  moreover have "sr_compile sample_rpc payer txs = Inr as \<Longrightarrow> distinct as" for payer txs as
    by (auto simp: sample_rpc_def)
  moreover have "SolSigned [sample_instruction] (Inr ''sig'') \<in> set [SolSimulated [sample_instruction] (Some ''payer'') (Inr sim),
      SolChecked (Inr ()), SolSigned [sample_instruction] (Inr ''sig'')]" by simp
  ultimately show ?thesis
    using solana_signed_effects [OF run] by blast
qed

end
