(* ===== verification/BinanceConnector.thy ===== *)
theory BinanceConnector
  imports ConnectorRuns
begin

text \<open>
  The Binance connector: \<open>validation.ts\<close>, \<open>reconciliation.ts\<close>, \<open>paper-simulator.ts\<close> and
  \<open>connector.ts\<close> of \<open>packages/binance-connector/src\<close>. The API client, the clock and the identifiers
  act on the world; the orders of the paper simulator are kept beside it. The recognition and
  normalisation of IP addresses and \<open>toFixed\<close> are parameters.
\<close>

subsection \<open>Configuration and client\<close>

record binance_config =
  bn_testnet :: bool
  bn_accountMode :: account_mode
  bn_allowedAccounts :: "string list"
  bn_allowedSpotSymbols :: "string list"
  bn_allowedFuturesSymbols :: "string list"
  bn_historySymbols :: "string list"
  bn_maxFuturesLeverage :: jsnum
  bn_ipAllowlist :: "string list"

text \<open>The permissions of a key, as the API sent them.\<close>

record key_permissions =
  kp_ipRestrict :: jsval
  kp_enableWithdrawals :: jsval
  kp_enableReading :: jsval
  kp_enableSpotAndMarginTrading :: jsval
  kp_enableFutures :: jsval

text \<open>An order as the exchange reports it has the members of an \<open>order_status\<close>.\<close>

record market_price =
  mp_price :: jsnum
  mp_timestampMs :: jsnum

record order_params =
  op_account :: string
  op_symbol :: string
  op_side :: string
  op_quantity :: "jsnum option"
  op_price :: "jsnum option"
  op_leverage :: "jsnum option"
  op_clientOrderId :: string

record order_ref =
  of_account :: string
  of_symbol :: string
  of_orderId :: string

record 'w binance_client =
  cl_getPrice :: "string \<Rightarrow> ('w, market_price) eff"
  cl_placeSpotOrder :: "order_params \<Rightarrow> ('w, order_status) eff"
  cl_getFuturesMarginType :: "string \<times> string \<Rightarrow> ('w, string) eff"
  cl_placeFuturesOrder :: "order_params \<Rightarrow> ('w, order_status) eff"
  cl_cancelOrder :: "order_ref \<Rightarrow> ('w, order_status) eff"
  cl_getOrderStatus :: "order_ref \<Rightarrow> ('w, order_status) eff"
  cl_getApiKeyPermissions :: "('w, key_permissions) eff"

subsection \<open>validation.ts\<close>

text \<open>A reason, or \<open>None\<close> for valid.\<close>

fun order_invalid :: "(jsnum \<Rightarrow> string) \<Rightarrow> cex_order \<Rightarrow> binance_config \<Rightarrow> string option" where
  "order_invalid fmt x c =
     (if ord_accountMode x \<noteq> bn_accountMode c then Some ''Order does not match the configured Binance product.''
      else if ord_accountMode x = Spot
      then (if ord_symbol x \<notin> set (bn_allowedSpotSymbols c) then Some (not_listed ''Spot symbol'' (ord_symbol x)) else None)
      else if ord_marginType x \<noteq> Some Isolated then Some ''USD-M futures orders must use isolated margin.''
      else if ord_symbol x \<notin> set (bn_allowedFuturesSymbols c)
      then Some (not_listed ''Futures symbol'' (ord_symbol x))
      else (case ord_leverage x of None \<Rightarrow> None
        | Some l \<Rightarrow> if num_less (bn_maxFuturesLeverage c) l
            then Some (''Leverage '' @ fmt l @ ''x exceeds max '' @ fmt (bn_maxFuturesLeverage c) @ ''x.'') else None))"

definition validateIntent :: "(jsnum \<Rightarrow> string) \<Rightarrow> trading_intent \<Rightarrow> binance_config \<Rightarrow> string option" where
  "validateIntent fmt i c =
     (if intent_exchange i \<noteq> Some ''binance'' then Some ''Intent is not for Binance.''
      else case intent_account i of None \<Rightarrow> Some ''Intent missing account.''
      | Some a \<Rightarrow>
          if a \<notin> set (bn_allowedAccounts c) then Some (not_listed ''Account'' a)
          else (case intent_order i of
              Some x \<Rightarrow> order_invalid fmt x c
            | None \<Rightarrow> (case intent_symbol i of None \<Rightarrow> None
                | Some s \<Rightarrow> if s \<notin> set (bn_historySymbols c)
                    then Some (''Symbol '' @ s @ '' is not in the history allowlist.'') else None)))"

text \<open>An intent that satisfies the schema is of one of the two other modes.\<close>

definition margin_mode_reason :: "string \<Rightarrow> string option" where
  "margin_mode_reason mode =
     (if mode = ''margin'' \<or> mode = ''cross_margin'' then Some ''Spot margin and cross-margin are not supported.''
      else if mode = ''coinm_futures'' then Some ''COIN-M futures are not supported.'' else None)"

definition rejectMarginModes :: "trading_intent \<Rightarrow> string option" where
  "rejectMarginModes i = (case intent_order i of None \<Rightarrow> None
     | Some x \<Rightarrow> margin_mode_reason (account_mode_name (ord_accountMode x)))"

definition WILDCARD_IPS :: "string list" where
  "WILDCARD_IPS = [''0.0.0.0'', ''::'', ''::ffff:0:0'']"

definition ips_not_literal :: string where
  "ips_not_literal = ''IP allowlist must contain unique literal IP addresses.''"

fun ips_from :: "(string \<Rightarrow> nat) \<Rightarrow> (string \<Rightarrow> string) \<Rightarrow> string list \<Rightarrow> string list \<Rightarrow> string option" where
  "ips_from isIP normal seen [] = None"
| "ips_from isIP normal seen (ip # ips) =
     (if isIP ip = 0 \<or> CHR ''%'' \<in> set ip then Some ips_not_literal
      else let normalized = (if isIP ip = 6 then normal ip else ip) in
        if normalized \<in> set WILDCARD_IPS then Some ''IP allowlist must not include wildcard addresses.''
        else if normalized \<in> set seen then Some ips_not_literal
        else ips_from isIP normal (normalized # seen) ips)"

definition validateIpAllowlist :: "(string \<Rightarrow> nat) \<Rightarrow> (string \<Rightarrow> string) \<Rightarrow> string list \<Rightarrow> string option" where
  "validateIpAllowlist isIP normal allowlist =
     (if allowlist = [] then Some ips_not_literal else ips_from isIP normal [] allowlist)"

definition validateNoWithdrawalKey :: "key_permissions \<Rightarrow> string option" where
  "validateNoWithdrawalKey p = (if kp_enableWithdrawals p \<noteq> JBool False
     then Some ''Binance API key must have withdrawals disabled.'' else None)"

definition validateIpRestriction :: "key_permissions \<Rightarrow> string option" where
  "validateIpRestriction p = (if kp_ipRestrict p \<noteq> JBool True
     then Some ''Binance API key must be IP restricted.'' else None)"

fun required_product :: "trading_intent \<Rightarrow> binance_config \<Rightarrow> account_mode option" where
  "required_product (CexOrderIntent e x) c = Some (ord_accountMode x)"
| "required_product (CexCancelIntent e x) c = Some (bn_accountMode c)"
| "required_product i c = None"

definition validateLiveKeyPermissions :: "key_permissions \<Rightarrow> trading_intent \<Rightarrow> binance_config \<Rightarrow> string option" where
  "validateLiveKeyPermissions p i c = first_reason
     [validateNoWithdrawalKey p, validateIpRestriction p,
      if intent_action i \<in> {PlaceOrder, GetOrderStatus} \<and> kp_enableReading p \<noteq> JBool True
      then Some ''Binance API key must allow reading.'' else None,
      if required_product i c = Some Spot \<and> kp_enableSpotAndMarginTrading p \<noteq> JBool True
      then Some ''Binance API key must allow spot trading.'' else None,
      if required_product i c = Some UsdmFutures \<and> kp_enableFutures p \<noteq> JBool True
      then Some ''Binance API key must allow futures trading.'' else None]"

subsection \<open>reconciliation.ts\<close>

definition ORDER_STATUS_LOOKUP_FAILED :: string where
  "ORDER_STATUS_LOOKUP_FAILED = ''Binance order status lookup failed after the order was accepted.''"

definition LEGAL_TRANSITIONS :: "(string \<times> string list) list" where
  "LEGAL_TRANSITIONS =
     [(''PENDING_NEW'', [''PENDING_NEW'', ''NEW'', ''PARTIALLY_FILLED'', ''FILLED'', ''CANCELED'', ''PENDING_CANCEL'',
        ''REJECTED'', ''EXPIRED'', ''EXPIRED_IN_MATCH'']),
      (''NEW'', [''NEW'', ''PARTIALLY_FILLED'', ''FILLED'', ''CANCELED'', ''PENDING_CANCEL'', ''REJECTED'', ''EXPIRED'',
        ''EXPIRED_IN_MATCH'']),
      (''PARTIALLY_FILLED'', [''PARTIALLY_FILLED'', ''FILLED'', ''CANCELED'', ''PENDING_CANCEL'', ''EXPIRED'',
        ''EXPIRED_IN_MATCH'']),
      (''FILLED'', [''FILLED'']), (''CANCELED'', [''CANCELED'']),
      (''PENDING_CANCEL'', [''PENDING_CANCEL'', ''CANCELED'', ''PARTIALLY_FILLED'', ''FILLED'', ''EXPIRED'',
        ''EXPIRED_IN_MATCH'']),
      (''REJECTED'', [''REJECTED'']), (''EXPIRED'', [''EXPIRED'']), (''EXPIRED_IN_MATCH'', [''EXPIRED_IN_MATCH''])]"

definition isLegalTransition :: "string \<Rightarrow> string \<Rightarrow> bool" where
  "isLegalTransition a b = (case map_of LEGAL_TRANSITIONS a of None \<Rightarrow> False | Some bs \<Rightarrow> b \<in> set bs)"

definition toBrokerOrderStatus :: "order_status \<Rightarrow> order_status" where
  "toBrokerOrderStatus r = \<lparr>os_orderId = os_orderId r, os_symbol = os_symbol r, os_side = os_side r,
     os_status = os_status r, os_executedQty = os_executedQty r, os_avgPrice = os_avgPrice r\<rparr>"

definition inconsistentFill :: "order_status \<Rightarrow> jsnum \<Rightarrow> bool" where
  "inconsistentFill s approvedQuantity =
     (if num_eq (os_executedQty s) (Fin 0) \<and> \<not> num_eq (os_avgPrice s) (Fin 0) then True
      else if os_status s = ''FILLED'' then \<not> num_eq (os_executedQty s) approvedQuantity
      else if os_status s = ''PARTIALLY_FILLED''
      then num_le (os_executedQty s) (Fin 0) \<or> num_le approvedQuantity (os_executedQty s)
      else (os_status s = ''NEW'' \<or> os_status s = ''PENDING_NEW'' \<or> os_status s = ''REJECTED'') \<and>
        \<not> num_eq (os_executedQty s) (Fin 0))"

definition price_discrepancy :: "order_status \<Rightarrow> jsnum \<Rightarrow> string option" where
  "price_discrepancy observed approvedPrice =
     (if \<not> num_less (Fin 0) (os_executedQty observed) then None
      else if num_le (os_avgPrice observed) (Fin 0) then Some ''Reconciled fill is missing an execution price.''
      else if os_side observed = ''BUY'' \<and> num_less approvedPrice (os_avgPrice observed)
      then Some ''Reconciled buy price exceeds the approved limit.''
      else if os_side observed = ''SELL'' \<and> num_less (os_avgPrice observed) approvedPrice
      then Some ''Reconciled sell price is below the approved limit.''
      else None)"

definition collectDiscrepancies :: "order_status \<Rightarrow> order_status \<Rightarrow> jsnum \<Rightarrow> jsnum \<Rightarrow> string list" where
  "collectDiscrepancies expected observed approvedQuantity approvedPrice =
     map snd (filter fst
       [(os_orderId observed \<noteq> os_orderId expected, ''Reconciled order identity does not match the accepted order.''),
        (os_symbol observed \<noteq> os_symbol expected, ''Reconciled order symbol does not match the accepted order.''),
        (os_side observed \<noteq> os_side expected, ''Reconciled order side does not match the accepted order.''),
        (\<not> isLegalTransition (os_status expected) (os_status observed),
         ''Reconciled order status is not a legal advancement of the accepted order.''),
        (num_less approvedQuantity (os_executedQty expected), ''Accepted filled quantity exceeds the approved quantity.''),
        (num_less (os_executedQty observed) (os_executedQty expected),
         ''Reconciled filled quantity decreased after the order was accepted.''),
        (num_less approvedQuantity (os_executedQty observed),
         ''Reconciled filled quantity exceeds the approved quantity.''),
        (inconsistentFill expected approvedQuantity, ''Accepted order status is inconsistent with its fill.''),
        (inconsistentFill observed approvedQuantity, ''Reconciled order status is inconsistent with its fill.''),
        (num_eq (os_executedQty observed) (os_executedQty expected) \<and>
           \<not> num_eq (os_avgPrice observed) (os_avgPrice expected),
         ''Reconciled average price changed without an additional fill.'')]) @
     (case price_discrepancy observed approvedPrice of None \<Rightarrow> [] | Some d \<Rightarrow> [d])"

text \<open>\<open>None\<close> for an observation whose lookup failed.\<close>

definition reconcileAcceptedOrder ::
  "order_status \<Rightarrow> order_status option \<Rightarrow> jsnum \<Rightarrow> jsnum \<Rightarrow> string \<Rightarrow> reconciliation" where
  "reconcileAcceptedOrder acknowledged observed approvedQuantity approvedPrice checkedAt =
     (let expected = toBrokerOrderStatus acknowledged in
      case observed of
        None \<Rightarrow> \<lparr>rc_status = ReconciliationUnavailable, rc_checkedAt = checkedAt, rc_expected = expected,
          rc_observed = None, rc_discrepancies = [ORDER_STATUS_LOOKUP_FAILED]\<rparr>
      | Some o' \<Rightarrow>
          let seen = toBrokerOrderStatus o';
              ds = collectDiscrepancies expected seen approvedQuantity approvedPrice in
          \<lparr>rc_status = (if ds = [] then Matched else Discrepancy), rc_checkedAt = checkedAt, rc_expected = expected,
           rc_observed = Some seen, rc_discrepancies = ds\<rparr>)"

subsection \<open>paper-simulator.ts\<close>

text \<open>
  The two maps of the simulator. A result is the stored object itself in the source; the connector
  uses it at once, so that a later cancellation is not seen through it.
\<close>

record paper_orders =
  po_orders :: "string \<rightharpoonup> order_status"
  po_accounts :: "string \<rightharpoonup> string"

definition new_paper :: paper_orders where
  "new_paper = \<lparr>po_orders = Map.empty, po_accounts = Map.empty\<rparr>"

definition paper_place :: "string \<Rightarrow> order_params \<Rightarrow> paper_orders \<Rightarrow> order_status \<times> paper_orders" where
  "paper_place orderId p s =
     (let result = \<lparr>os_orderId = orderId, os_symbol = op_symbol p, os_side = op_side p, os_status = ''FILLED'',
        os_executedQty = (case op_quantity p of None \<Rightarrow> Fin 0 | Some q \<Rightarrow> q),
        os_avgPrice = (case op_price p of None \<Rightarrow> Fin 0 | Some q \<Rightarrow> q)\<rparr> in
      (result, \<lparr>po_orders = (po_orders s)(orderId \<mapsto> result), po_accounts = (po_accounts s)(orderId \<mapsto> op_account p)\<rparr>))"

definition paper_placeSpotOrder :: "string \<Rightarrow> order_params \<Rightarrow> paper_orders \<Rightarrow> order_status \<times> paper_orders" where
  "paper_placeSpotOrder uuid p s = paper_place (''paper-spot-'' @ take 8 uuid) p s"

definition paper_placeFuturesOrder :: "string \<Rightarrow> order_params \<Rightarrow> paper_orders \<Rightarrow> order_status \<times> paper_orders" where
  "paper_placeFuturesOrder uuid p s = paper_place (''paper-futures-'' @ take 8 uuid) p s"

definition paper_cancelOrder :: "order_ref \<Rightarrow> paper_orders \<Rightarrow> (exn + order_status) \<times> paper_orders" where
  "paper_cancelOrder r s =
     (case po_orders s (of_orderId r) of
        Some existing \<Rightarrow>
          if po_accounts s (of_orderId r) \<noteq> Some (of_account r) \<or> os_symbol existing \<noteq> of_symbol r
          then (Inl (GenericError (''Order '' @ of_orderId r @ '' was not found for account and symbol.'')), s)
          else (let cancelled = existing\<lparr>os_status := ''CANCELED''\<rparr> in
            (Inr cancelled, s\<lparr>po_orders := (po_orders s)(of_orderId r \<mapsto> cancelled)\<rparr>))
      | None \<Rightarrow> (Inr \<lparr>os_orderId = of_orderId r, os_symbol = of_symbol r, os_side = ''BUY'', os_status = ''CANCELED'',
          os_executedQty = Fin 0, os_avgPrice = Fin 0\<rparr>, s))"

definition paper_getOrderStatus :: "order_ref \<Rightarrow> paper_orders \<Rightarrow> exn + order_status" where
  "paper_getOrderStatus r s =
     (case po_orders s (of_orderId r) of
        None \<Rightarrow> Inl (GenericError (''Order '' @ of_orderId r @ '' was not found.''))
      | Some existing \<Rightarrow>
          if po_accounts s (of_orderId r) \<noteq> Some (of_account r)
          then Inl (GenericError (''Order '' @ of_orderId r @ '' was not found for account '' @ of_account r @ ''.''))
          else if os_symbol existing \<noteq> of_symbol r
          then Inl (GenericError (''Order '' @ of_orderId r @ '' was not found for symbol '' @ of_symbol r @ ''.''))
          else Inr existing)"

subsection \<open>connector.ts\<close>

record 'w binance =
  bx_config :: binance_config
  bx_client :: "'w binance_client option"
  bx_live :: bool
  bx_now :: "('w, int) eff"
  bx_uuid :: "('w, string) eff"
  bx_toFixed1 :: "jsnum \<Rightarrow> string"

type_synonym 'w binance_world = "paper_orders \<times> 'w"

definition new_binance_connector ::
  "(string \<Rightarrow> nat) \<Rightarrow> (string \<Rightarrow> string) \<Rightarrow> binance_config \<Rightarrow> bool \<Rightarrow> exn + unit" where
  "new_binance_connector isIP normal c live =
     (if live \<and> \<not> bn_testnet c
      then (case validateIpAllowlist isIP normal (bn_ipAllowlist c) of None \<Rightarrow> Inr () | Some r \<Rightarrow> Inl (GenericError r))
      else Inr ())"

text \<open>The quantity of an order is always there.\<close>

definition calculateOrderNotional :: "cex_order \<Rightarrow> exn + jsnum" where
  "calculateOrderNotional x =
     (if \<not> is_finite (ord_quantity x) \<or> num_le (ord_quantity x) (Fin 0)
      then Inl (GenericError ''Executable order quantity is invalid.'')
      else if \<not> is_finite (ord_price x) \<or> num_le (ord_price x) (Fin 0)
      then Inl (GenericError ''Executable order price is invalid.'')
      else Inr (num_mul (ord_quantity x) (ord_price x)))"

definition notional_exceeded :: string where
  "notional_exceeded = ''Executable order notional exceeds approved maxNotionalUsd.''"

text \<open>The message that \<open>validateExecutableIntent\<close> throws, if it throws.\<close>

definition validateExecutableIntent :: "(jsnum \<Rightarrow> string) \<Rightarrow> 'w binance \<Rightarrow> trading_intent \<Rightarrow> string option" where
  "validateExecutableIntent fmt v i = first_reason
     [rejectMarginModes i, validateIntent fmt i (bx_config v),
      (case intent_order i of None \<Rightarrow> None
       | Some x \<Rightarrow> (case calculateOrderNotional x of
           Inl e \<Rightarrow> Some (exn_message e)
         | Inr n \<Rightarrow> if num_less (ord_maxNotionalUsd x) n then Some notional_exceeded else None))]"

definition no_client :: string where
  "no_client = ''Binance API client not configured for live mode.''"

definition with_client :: "'w binance \<Rightarrow> string \<Rightarrow> ('w binance_client \<Rightarrow> ('w binance_world, 'a) eff) \<Rightarrow> ('w binance_world, 'a) eff"
where
  "with_client v m f = (case bx_client v of None \<Rightarrow> throw (GenericError m) | Some c \<Rightarrow> f c)"

definition verifyFuturesIsolatedMargin :: "'w binance \<Rightarrow> string \<times> string \<Rightarrow> ('w binance_world, unit) eff" where
  "verifyFuturesIsolatedMargin v p =
     (if \<not> bx_live v then ret ()
      else with_client v no_client (\<lambda>c.
        andthen (on_world (cl_getFuturesMarginType c p)) (\<lambda>t.
        if t \<noteq> ''isolated''
        then throw (GenericError (''USD-M futures '' @ snd p @ '' must be configured for isolated margin.''))
        else ret ())))"

text \<open>A check of \<open>revalidate\<close>: \<open>None\<close> when it passes, the reason otherwise.\<close>

definition verifyLiveApiKey :: "'w binance \<Rightarrow> trading_intent \<Rightarrow> ('w binance_world, string option) eff" where
  "verifyLiveApiKey v i =
     (case bx_client v of None \<Rightarrow> ret (Some ''Binance API client not configured.'')
      | Some c \<Rightarrow>
          if bn_testnet (bx_config v) then ret None
          else try_catch
            (andthen (on_world (cl_getApiKeyPermissions c)) (\<lambda>p. ret (validateLiveKeyPermissions p i (bx_config v))))
            (\<lambda>_. ret (Some ''Failed to verify Binance API key permissions.'')))"

definition price_deviation :: "cex_order \<Rightarrow> market_price \<Rightarrow> jsnum" where
  "price_deviation x m = num_mul (num_abs (num_div (num_sub (ord_price x) (mp_price m)) (mp_price m))) (Fin 10000)"

definition market_reason ::
  "(jsnum \<Rightarrow> string) \<Rightarrow> (jsnum \<Rightarrow> string) \<Rightarrow> cex_order \<Rightarrow> market_price \<Rightarrow> jsnum \<Rightarrow> exn + string option" where
  "market_reason fmt toFixed1 x m age =
     (if \<not> is_finite (mp_timestampMs m) \<or> \<not> is_finite age \<or> num_less age (Fin 0)
      then Inr (Some ''Market data timestamp is invalid.'')
      else if \<not> is_finite (mp_price m) \<or> num_le (mp_price m) (Fin 0) then Inr (Some ''Market data price is invalid.'')
      else if num_less (Fin 10000) age then Inr (Some (''Market data is '' @ fmt age @ ''ms old.''))
      else if num_less (ord_maxSlippageBps x) (price_deviation x m)
      then Inr (Some (''Market price deviation '' @ toFixed1 (price_deviation x m) @ ''bps exceeds approved slippage.''))
      else (case calculateOrderNotional x of
          Inl e \<Rightarrow> Inl e
        | Inr n \<Rightarrow> Inr (if num_less (ord_maxNotionalUsd x) n then Some notional_exceeded else None)))"

definition verify_market ::
  "(jsnum \<Rightarrow> string) \<Rightarrow> 'w binance \<Rightarrow> 'w binance_client \<Rightarrow> cex_order \<Rightarrow> ('w binance_world, string option) eff" where
  "verify_market fmt v c x =
     try_catch
       (andthen (on_world (cl_getPrice c (ord_symbol x))) (\<lambda>m.
        andthen (on_world (bx_now v)) (\<lambda>now.
        lift_exn (market_reason fmt (bx_toFixed1 v) x m (num_sub (num_of_int now) (mp_timestampMs m))))))
       (\<lambda>_. ret (Some ''Failed to fetch market data for revalidation.''))"

definition verify_margin :: "'w binance \<Rightarrow> cex_order \<Rightarrow> ('w binance_world, string option) eff" where
  "verify_margin v x =
     (if ord_accountMode x = UsdmFutures
      then try_catch (andthen (verifyFuturesIsolatedMargin v (ord_account x, ord_symbol x)) (\<lambda>_. ret None))
        (\<lambda>e. ret (Some (exn_message e)))
      else ret None)"

text \<open>One check after the other, up to the first reason.\<close>

definition unless_refused ::
  "('s, string option) eff \<Rightarrow> ('s, string option) eff \<Rightarrow> ('s, string option) eff" where
  "unless_refused m rest = andthen m (\<lambda>r. case r of Some why \<Rightarrow> ret (Some why) | None \<Rightarrow> rest)"

definition binance_revalidation ::
  "(jsnum \<Rightarrow> string) \<Rightarrow> 'w binance \<Rightarrow> trading_intent \<Rightarrow> ('w binance_world, string option) eff" where
  "binance_revalidation fmt v i =
     unless_refused (ret (first_reason [rejectMarginModes i, validateIntent fmt i (bx_config v),
       if intent_order i \<noteq> None then validateExecutableIntent fmt v i else None]))
     (if \<not> bx_live v then ret None
      else case bx_client v of None \<Rightarrow> ret (Some ''Binance API client not configured.'')
        | Some c \<Rightarrow>
            unless_refused (verifyLiveApiKey v i)
            (case intent_order i of None \<Rightarrow> ret None
             | Some x \<Rightarrow> unless_refused (verify_margin v x) (verify_market fmt v c x)))"

definition binance_revalidate ::
  "(jsnum \<Rightarrow> string) \<Rightarrow> 'w binance \<Rightarrow> trading_intent \<Rightarrow> ('w binance_world, bool \<times> string option) eff" where
  "binance_revalidate fmt v i = andthen (binance_revalidation fmt v i) (\<lambda>r. ret (r = None, r))"

definition clientOrderId :: "host \<Rightarrow> trading_intent \<Rightarrow> string" where
  "clientOrderId h i = ''guardrails-'' @ take 24 (sha256_hex h (scopeIdempotencyKey h (in_idempotencyKey i) i))"

definition binance_side :: "order_side \<Rightarrow> string" where
  "binance_side s = (if s = Buy then ''BUY'' else ''SELL'')"

text \<open>The parameters of an order; \<open>leverage\<close> is one of the parameters of futures only.\<close>

definition order_request :: "host \<Rightarrow> trading_intent \<Rightarrow> cex_order \<Rightarrow> jsnum option \<Rightarrow> order_params" where
  "order_request h i x leverage = \<lparr>op_account = ord_account x, op_symbol = ord_symbol x, op_side = binance_side (ord_side x),
     op_quantity = Some (ord_quantity x), op_price = Some (ord_price x), op_leverage = leverage,
     op_clientOrderId = clientOrderId h i\<rparr>"

text \<open>An accepted order with its reconciliation.\<close>

definition acknowledged_evidence ::
  "host \<Rightarrow> cex_order \<Rightarrow> order_status \<Rightarrow> order_status option \<Rightarrow> int \<Rightarrow> evidence" where
  "acknowledged_evidence h x acknowledged observed t = no_evidence\<lparr>ev_orderId := Some (os_orderId acknowledged),
     ev_orderStatus := Some (toBrokerOrderStatus acknowledged), ev_reconciliation :=
       Some (reconcileAcceptedOrder acknowledged observed (ord_quantity x) (ord_price x) (iso_string h t))\<rparr>"

definition acknowledgeLiveOrder ::
  "host \<Rightarrow> 'w binance \<Rightarrow> cex_order \<Rightarrow> order_status \<Rightarrow> ('w binance_world, evidence) eff" where
  "acknowledgeLiveOrder h v x acknowledged =
     (let failed = andthen (on_world (bx_now v)) (\<lambda>t. ret (acknowledged_evidence h x acknowledged None t)) in
      case bx_client v of None \<Rightarrow> failed
      | Some c \<Rightarrow>
          try_catch
            (andthen (on_world (cl_getOrderStatus c \<lparr>of_account = ord_account x, of_symbol = os_symbol acknowledged,
               of_orderId = os_orderId acknowledged\<rparr>)) (\<lambda>o'.
             andthen (on_world (bx_now v)) (\<lambda>t. ret (acknowledged_evidence h x acknowledged (Some o') t))))
            (\<lambda>_. failed))"

text \<open>The simulator changes its orders beside the world.\<close>

definition paper_order ::
  "'w binance \<Rightarrow> (string \<Rightarrow> paper_orders \<Rightarrow> order_status \<times> paper_orders) \<Rightarrow> 'w binance_world conn_run" where
  "paper_order v f = after_check
     (conn_call (on_world (bx_uuid v)) (\<lambda>u.
      conn_call (\<lambda>(s, w). (Inr (fst (f u s)), (snd (f u s), w))) (\<lambda>r.
      CDone (Inr (no_evidence\<lparr>ev_orderId := Some (os_orderId r)\<rparr>)))))"

definition executeSpotOrder :: "host \<Rightarrow> 'w binance \<Rightarrow> trading_intent \<Rightarrow> cex_order \<Rightarrow> 'w binance_world conn_run" where
  "executeSpotOrder h v i x =
     (let p = order_request h i x None in
      if \<not> bx_live v then paper_order v (\<lambda>u. paper_placeSpotOrder u p)
      else case bx_client v of None \<Rightarrow> conn_throw no_client
        | Some c \<Rightarrow> after_check (conn_call (on_world (cl_placeSpotOrder c p)) (\<lambda>r.
            conn_call (acknowledgeLiveOrder h v x r) (\<lambda>ev. CDone (Inr ev)))))"

definition executeFuturesOrder ::
  "(jsnum \<Rightarrow> string) \<Rightarrow> host \<Rightarrow> 'w binance \<Rightarrow> trading_intent \<Rightarrow> cex_order \<Rightarrow> 'w binance_world conn_run" where
  "executeFuturesOrder fmt h v i x =
     (let leverage = (case ord_leverage x of None \<Rightarrow> Fin 1 | Some l \<Rightarrow> l);
          p = order_request h i x (Some leverage) in
      if num_less (bn_maxFuturesLeverage (bx_config v)) leverage
      then conn_throw (''Leverage '' @ fmt leverage @ ''x exceeds max '' @ fmt (bn_maxFuturesLeverage (bx_config v)) @ ''x.'')
      else if \<not> bx_live v then paper_order v (\<lambda>u. paper_placeFuturesOrder u p)
      else case bx_client v of None \<Rightarrow> conn_throw no_client
        | Some c \<Rightarrow>
            conn_call (verifyFuturesIsolatedMargin v (ord_account x, ord_symbol x)) (\<lambda>_.
            after_check (conn_call (on_world (cl_placeFuturesOrder c p)) (\<lambda>r.
            conn_call (acknowledgeLiveOrder h v x r) (\<lambda>ev. CDone (Inr ev))))))"

definition order_ref_of :: "cex_ref \<Rightarrow> order_ref" where
  "order_ref_of x = \<lparr>of_account = ref_account x, of_symbol = ref_symbol x, of_orderId = ref_orderId x\<rparr>"

definition executeCancelOrder :: "'w binance \<Rightarrow> cex_ref \<Rightarrow> 'w binance_world conn_run" where
  "executeCancelOrder v x =
     (let found = (\<lambda>r. CDone (Inr (no_evidence\<lparr>ev_orderId := Some (os_orderId r)\<rparr>))) in
      if \<not> bx_live v
      then after_check (conn_call (\<lambda>(s, w). case paper_cancelOrder (order_ref_of x) s of (r, s') \<Rightarrow> (r, (s', w))) found)
      else case bx_client v of None \<Rightarrow> conn_throw no_client
        | Some c \<Rightarrow> after_check (conn_call (on_world (cl_cancelOrder c (order_ref_of x))) found))"

definition binance_getOrderStatus :: "'w binance \<Rightarrow> order_ref \<Rightarrow> ('w binance_world, order_status) eff" where
  "binance_getOrderStatus v r =
     (if \<not> bx_live v then (\<lambda>(s, w). (paper_getOrderStatus r s, (s, w)))
      else with_client v ''Binance API client not configured.'' (\<lambda>c. on_world (cl_getOrderStatus c r)))"

definition binance_execute :: "host \<Rightarrow> 'w binance \<Rightarrow> trading_intent \<Rightarrow> 'w binance_world conn_run" where
  "binance_execute h v i =
     conn_call (binance_revalidation (number_to_string h) v i) (\<lambda>refused. case refused of
       Some reason \<Rightarrow> CDone (Inl (ConnectorRevalidationError reason))
     | None \<Rightarrow> (case i of
         CexOrderIntent e x \<Rightarrow>
           if ord_accountMode x = Spot then executeSpotOrder h v i x
           else executeFuturesOrder (number_to_string h) h v i x
       | CexCancelIntent e x \<Rightarrow> executeCancelOrder v x
       | CexOrderStatusIntent e x \<Rightarrow>
           conn_call (binance_getOrderStatus v (order_ref_of x)) (\<lambda>s.
           CDone (Inr (no_evidence\<lparr>ev_orderId := Some (os_orderId s), ev_orderStatus := Some s\<rparr>)))
       | _ \<Rightarrow> conn_throw (''Binance connector does not execute '' @ action_name (intent_action i) @ ''.'')))"

definition binance_connector :: "host \<Rightarrow> 'w binance \<Rightarrow> 'w binance_world connector" where
  "binance_connector h v = \<lparr>cn_execute = binance_execute h v, cn_revalidate = binance_revalidate (number_to_string h) v\<rparr>"

end
