(* ===== verification/BinanceSafety.thy ===== *)
theory BinanceSafety
  imports BinanceConnector BrokerSamples
begin

text \<open>
  What the Binance connector guarantees: an order reaches the exchange only for an intent that is
  within the configuration, with a key that may do no more than it needs, at a fresh market price,
  and after the check before the side effect; and what a matched reconciliation says of a fill.
\<close>

subsection \<open>The calls of the client\<close>

datatype binance_event =
    BnPermissions "exn + key_permissions"
  | BnMargin "string \<times> string" "exn + string"
  | BnPrice string "exn + market_price"
  | BnNow "exn + int"
  | BnChecked "exn + unit"
  | BnOrder account_mode order_params "exn + order_status"
  | BnCancel order_ref "exn + order_status"
  | BnStatus order_ref "exn + order_status"

definition logged_client :: "'w binance_client \<Rightarrow> ('w \<times> binance_event list) binance_client" where
  "logged_client c = \<lparr>cl_getPrice = (\<lambda>s. logged (BnPrice s) (cl_getPrice c s)),
     cl_placeSpotOrder = (\<lambda>p. logged (BnOrder Spot p) (cl_placeSpotOrder c p)),
     cl_getFuturesMarginType = (\<lambda>p. logged (BnMargin p) (cl_getFuturesMarginType c p)),
     cl_placeFuturesOrder = (\<lambda>p. logged (BnOrder UsdmFutures p) (cl_placeFuturesOrder c p)),
     cl_cancelOrder = (\<lambda>r. logged (BnCancel r) (cl_cancelOrder c r)),
     cl_getOrderStatus = (\<lambda>r. logged (BnStatus r) (cl_getOrderStatus c r)),
     cl_getApiKeyPermissions = logged BnPermissions (cl_getApiKeyPermissions c)\<rparr>"

definition logged_binance :: "'w binance \<Rightarrow> ('w \<times> binance_event list) binance" where
  "logged_binance v = \<lparr>bx_config = bx_config v, bx_client = map_option logged_client (bx_client v), bx_live = bx_live v,
     bx_now = logged BnNow (bx_now v), bx_uuid = (\<lambda>(w, l). case bx_uuid v w of (r, t) \<Rightarrow> (r, (t, l))),
     bx_toFixed1 = bx_toFixed1 v\<rparr>"

lemma logged_binance_simps [simp]:
  "bx_config (logged_binance v) = bx_config v" "bx_client (logged_binance v) = map_option logged_client (bx_client v)"
  "bx_live (logged_binance v) = bx_live v" "bx_now (logged_binance v) = logged BnNow (bx_now v)"
  "bx_toFixed1 (logged_binance v) = bx_toFixed1 v"
  "cl_getPrice (logged_client c) s = logged (BnPrice s) (cl_getPrice c s)"
  "cl_placeSpotOrder (logged_client c) p = logged (BnOrder Spot p) (cl_placeSpotOrder c p)"
  "cl_getFuturesMarginType (logged_client c) q = logged (BnMargin q) (cl_getFuturesMarginType c q)"
  "cl_placeFuturesOrder (logged_client c) p = logged (BnOrder UsdmFutures p) (cl_placeFuturesOrder c p)"
  "cl_cancelOrder (logged_client c) r = logged (BnCancel r) (cl_cancelOrder c r)"
  "cl_getOrderStatus (logged_client c) r = logged (BnStatus r) (cl_getOrderStatus c r)"
  "cl_getApiKeyPermissions (logged_client c) = logged BnPermissions (cl_getApiKeyPermissions c)"
  by (simp_all add: logged_binance_def logged_client_def)

lemma logged_executable [simp]: "validateExecutableIntent fmt (logged_binance v) i = validateExecutableIntent fmt v i"
  by (simp add: validateExecutableIntent_def)

text \<open>A call that does not change the exchange.\<close>

fun reading :: "binance_event \<Rightarrow> bool" where
  "reading (BnOrder m p out) = False"
| "reading (BnCancel r out) = False"
| "reading (BnChecked out) = False"
| "reading e = True"

text \<open>A run that starts with the log \<open>l\<close> only reads, and ends with the log that \<open>P\<close> describes.\<close>

definition reads :: "('s \<times> 'w \<times> binance_event list, 'a) eff \<Rightarrow> ('a \<Rightarrow> binance_event list \<Rightarrow> bool) \<Rightarrow> bool" where
  "reads m P \<longleftrightarrow> (\<forall>s w l. \<exists>w' new. snd (m (s, w, l)) = (s, w', l @ new) \<and> (\<forall>e \<in> set new. reading e) \<and>
     (\<forall>x. fst (m (s, w, l)) = Inr x \<longrightarrow> P x new))"

lemma readsD:
  assumes "reads m P" "m (s, w, l) = (r, t)"
  obtains w' new where "t = (s, w', l @ new)" "\<And>e. e \<in> set new \<Longrightarrow> reading e" "\<And>x. r = Inr x \<Longrightarrow> P x new"
proof -
  obtain w' new where "snd (m (s, w, l)) = (s, w', l @ new)" "\<forall>e \<in> set new. reading e"
    "\<forall>x. fst (m (s, w, l)) = Inr x \<longrightarrow> P x new"
    using assms(1) unfolding reads_def by meson
  with assms(2) that show thesis by auto
qed

lemma reads_weaken: "reads m P \<Longrightarrow> (\<And>x l. P x l \<Longrightarrow> Q x l) \<Longrightarrow> reads m Q"
  unfolding reads_def by meson

lemma reads_ret: "reads (ret x) (\<lambda>y l. y = x \<and> l = [])"
  by (simp add: reads_def ret_def)

lemma reads_throw: "reads (throw e) (\<lambda>y l. False)"
  by (simp add: reads_def throw_def)

lemma reads_logged:
  assumes "\<And>r. reading (f r)"
  shows "reads (on_world (logged f m)) (\<lambda>x l. l = [f (Inr x)])"
  using assms by (simp add: reads_def on_world_def)

lemma reads_andthen:
  assumes "reads m P" "\<And>x. reads (f x) (Q x)"
  shows "reads (andthen m f) (\<lambda>y l. \<exists>x l1 l2. l = l1 @ l2 \<and> P x l1 \<and> Q x y l2)"
  unfolding reads_def
proof (intro allI)
  fix s w l
  obtain r t where m: "m (s, w, l) = (r, t)" by (cases "m (s, w, l)")
  then obtain w1 l1 where 1: "t = (s, w1, l @ l1)" "\<forall>e \<in> set l1. reading e" "\<forall>x. r = Inr x \<longrightarrow> P x l1"
    using readsD [OF assms(1) m] by metis
  show "\<exists>w' new. snd (andthen m f (s, w, l)) = (s, w', l @ new) \<and> (\<forall>e \<in> set new. reading e) \<and>
    (\<forall>y. fst (andthen m f (s, w, l)) = Inr y \<longrightarrow> (\<exists>x l1 l2. new = l1 @ l2 \<and> P x l1 \<and> Q x y l2))"
  proof (cases r)
    case (Inl e)
    with m 1 show ?thesis by (auto simp: andthen_def)
  next
    case (Inr x)
    obtain r2 t2 where f: "f x t = (r2, t2)" by (cases "f x t")
    then obtain w2 l2 where 2: "t2 = (s, w2, (l @ l1) @ l2)" "\<forall>e \<in> set l2. reading e" "\<forall>y. r2 = Inr y \<longrightarrow> Q x y l2"
      using readsD [OF assms(2) [of x] f [unfolded 1(1)]] by metis
    have run: "andthen m f (s, w, l) = (r2, t2)" using m Inr f by (simp add: andthen_def)
    show ?thesis
      using 1(2,3) 2 Inr by (intro exI [of _ w2] exI [of _ "l1 @ l2"]) (auto simp: run, blast)
  qed
qed

lemma reads_catch:
  assumes "reads m P" "\<And>e. reads (h e) (Q e)"
  shows "reads (try_catch m h) (\<lambda>x l. P x l \<or> (\<exists>e l1 l2. l = l1 @ l2 \<and> Q e x l2))"
  unfolding reads_def
proof (intro allI)
  fix s w l
  obtain r t where m: "m (s, w, l) = (r, t)" by (cases "m (s, w, l)")
  then obtain w1 l1 where 1: "t = (s, w1, l @ l1)" "\<forall>e \<in> set l1. reading e" "\<forall>x. r = Inr x \<longrightarrow> P x l1"
    using readsD [OF assms(1) m] by metis
  show "\<exists>w' new. snd (try_catch m h (s, w, l)) = (s, w', l @ new) \<and> (\<forall>e \<in> set new. reading e) \<and>
    (\<forall>y. fst (try_catch m h (s, w, l)) = Inr y \<longrightarrow> P y new \<or> (\<exists>e l1 l2. new = l1 @ l2 \<and> Q e y l2))"
  proof (cases r)
    case (Inr x)
    with m 1 show ?thesis by (auto simp: try_catch_def)
  next
    case (Inl e)
    obtain r2 t2 where f: "h e t = (r2, t2)" by (cases "h e t")
    then obtain w2 l2 where 2: "t2 = (s, w2, (l @ l1) @ l2)" "\<forall>e \<in> set l2. reading e" "\<forall>y. r2 = Inr y \<longrightarrow> Q e y l2"
      using readsD [OF assms(2) [of e] f [unfolded 1(1)]] by metis
    have run: "try_catch m h (s, w, l) = (r2, t2)" using m Inl f by (simp add: try_catch_def)
    show ?thesis
      using 1(2) 2 by (intro exI [of _ w2] exI [of _ "l1 @ l2"]) (auto simp: run)
  qed
qed

lemma reads_if: "reads m P \<Longrightarrow> reads n Q \<Longrightarrow> reads (if c then m else n) (\<lambda>x l. if c then P x l else Q x l)"
  by simp

lemma reads_lift: "reads (lift_exn r) (\<lambda>x l. r = Inr x \<and> l = [])"
  by (cases r) (simp_all add: lift_exn_def reads_def ret_def throw_def)

lemmas reads_steps = reads_ret reads_throw reads_logged reads_andthen reads_catch reads_if reads_lift

subsection \<open>What the checks leave in the log\<close>

definition key_event :: "binance_config \<Rightarrow> trading_intent \<Rightarrow> binance_event list \<Rightarrow> bool" where
  "key_event c i l \<longleftrightarrow> (if bn_testnet c then l = []
     else \<exists>p. l = [BnPermissions (Inr p)] \<and> validateLiveKeyPermissions p i c = None)"

lemma reads_key:
  assumes "bx_client v = Some c"
  shows "reads (verifyLiveApiKey (logged_binance v) i) (\<lambda>r l. r = None \<longrightarrow> key_event (bx_config v) i l)"
  unfolding verifyLiveApiKey_def assms logged_binance_simps option.map option.case
  by (rule reads_weaken, rule reads_if [OF reads_ret reads_catch [OF reads_andthen [OF reads_logged reads_ret] reads_ret]])
     (auto simp: key_event_def split: if_splits)

definition margin_event :: "cex_order \<Rightarrow> binance_event list" where
  "margin_event x = (if ord_accountMode x = UsdmFutures
     then [BnMargin (ord_account x, ord_symbol x) (Inr ''isolated'')] else [])"

lemma reads_isolated:
  assumes "bx_client v = Some c" "bx_live v"
  shows "reads (verifyFuturesIsolatedMargin (logged_binance v) p) (\<lambda>_ l. l = [BnMargin p (Inr ''isolated'')])"
  unfolding verifyFuturesIsolatedMargin_def with_client_def assms logged_binance_simps option.map option.case
  using assms(2)
  by (intro reads_weaken [OF reads_if [OF reads_ret reads_andthen [OF reads_logged reads_if [OF reads_throw reads_ret]]]])
     (auto split: if_splits)

lemma reads_margin:
  assumes "bx_client v = Some c" "bx_live v"
  shows "reads (verify_margin (logged_binance v) x) (\<lambda>r l. r = None \<longrightarrow> l = margin_event x)"
  unfolding verify_margin_def
  by (rule reads_weaken, rule reads_if [OF reads_catch [OF reads_andthen [OF reads_isolated [OF assms] reads_ret] reads_ret] reads_ret])
     (auto simp: margin_event_def split: if_splits)

definition market_cleared :: "cex_order \<Rightarrow> market_price \<Rightarrow> int \<Rightarrow> bool" where
  "market_cleared x m now \<longleftrightarrow>
     (\<exists>age p. num_sub (num_of_int now) (mp_timestampMs m) = Fin age \<and> 0 \<le> age \<and> age \<le> 10000 \<and>
        mp_price m = Fin p \<and> 0 < p) \<and>
     \<not> num_less (ord_maxSlippageBps x) (price_deviation x m)"

lemma market_reason_passed: "market_reason fmt toFixed1 x m age = Inr None \<Longrightarrow> age = num_sub (num_of_int now) (mp_timestampMs m)
    \<Longrightarrow> market_cleared x m now"
  by (auto simp: market_reason_def market_cleared_def is_finite_iff split: if_splits sum.splits)

lemma reads_market:
  shows "reads (verify_market fmt (logged_binance v) (logged_client c) x) (\<lambda>r l. r = None \<longrightarrow>
    (\<exists>m now. l = [BnPrice (ord_symbol x) (Inr m), BnNow (Inr now)] \<and> market_cleared x m now))"
  unfolding verify_market_def logged_binance_simps
  by (rule reads_weaken, rule reads_catch [OF reads_andthen [OF reads_logged reads_andthen [OF reads_logged reads_lift]] reads_ret])
     (auto simp: market_reason_passed)

definition market_event :: "cex_order \<Rightarrow> binance_event list \<Rightarrow> bool" where
  "market_event x l \<longleftrightarrow> (\<exists>m now. l = [BnPrice (ord_symbol x) (Inr m), BnNow (Inr now)] \<and> market_cleared x m now)"

lemma reads_unless:
  assumes "reads m P" "reads rest Q"
  shows "reads (unless_refused m rest) (\<lambda>r l. r = None \<longrightarrow> (\<exists>l1 l2. l = l1 @ l2 \<and> P None l1 \<and> Q None l2))"
proof -
  have "reads (case r of Some why \<Rightarrow> ret (Some why) | None \<Rightarrow> rest) (\<lambda>y l. y = None \<longrightarrow> r = None \<and> Q None l)" for r
    using assms(2) by (cases r) (auto intro: reads_weaken reads_weaken [OF reads_ret])
  from reads_andthen [OF assms(1) this] show ?thesis
    unfolding unless_refused_def by (rule reads_weaken) auto
qed

text \<open>Everything that a live revalidation reads before it passes.\<close>

definition checked_events :: "binance_config \<Rightarrow> trading_intent \<Rightarrow> binance_event list \<Rightarrow> bool" where
  "checked_events c i l \<longleftrightarrow> (case intent_order i of None \<Rightarrow> key_event c i l
     | Some x \<Rightarrow> \<exists>keys m. l = keys @ margin_event x @ m \<and> key_event c i keys \<and> market_event x m)"

lemma reads_revalidation:
  "reads (binance_revalidation fmt (logged_binance v) i) (\<lambda>r l. r = None \<longrightarrow>
     first_reason [rejectMarginModes i, validateIntent fmt i (bx_config v),
       if intent_order i \<noteq> None then validateExecutableIntent fmt v i else None] = None \<and>
     (bx_live v \<longrightarrow> bx_client v \<noteq> None \<and> checked_events (bx_config v) i l))"
proof (cases "bx_live v \<and> bx_client v \<noteq> None")
  case True
  then obtain c where live: "bx_client v = Some c" "bx_live v" by blast
  have rest: "reads (case intent_order i of None \<Rightarrow> ret None | Some x \<Rightarrow>
      unless_refused (verify_margin (logged_binance v) x) (verify_market fmt (logged_binance v) (logged_client c) x))
    (\<lambda>r l. r = None \<longrightarrow> (case intent_order i of None \<Rightarrow> l = []
       | Some x \<Rightarrow> \<exists>m. l = margin_event x @ m \<and> market_event x m))"
  proof (cases "intent_order i")
    case None
    then show ?thesis by (simp add: reads_ret [THEN reads_weaken])
  next
    case (Some x)
    show ?thesis
      unfolding Some option.case
      by (rule reads_weaken, rule reads_unless [OF reads_margin [OF live] reads_market]) (auto simp: market_event_def)
  qed
  show ?thesis
    unfolding binance_revalidation_def logged_binance_simps logged_executable live option.map option.case
    by (rule reads_weaken, rule reads_unless [OF reads_ret reads_if [OF reads_ret reads_unless [OF reads_key [OF live(1)] rest]]])
       (auto simp: live checked_events_def simp del: first_reason.simps split: if_splits option.splits)
next
  case False
  then have rest: "reads (if \<not> bx_live v then ret None else case bx_client (logged_binance v) of
      None \<Rightarrow> ret (Some ''Binance API client not configured.'') | Some c \<Rightarrow> f c) (\<lambda>r l. r = None \<longrightarrow> \<not> bx_live v)" for f
    by (auto intro: reads_weaken [OF reads_ret])
  show ?thesis
    unfolding binance_revalidation_def logged_binance_simps(3)
    by (rule reads_weaken, rule reads_unless [OF reads_ret rest]) (auto simp del: first_reason.simps)
qed

subsection \<open>Orders\<close>

lemma reads_acknowledge: "reads (acknowledgeLiveOrder h (logged_binance v) x a) (\<lambda>_ _. True)"
proof (cases "bx_client v")
  case None
  show ?thesis
    unfolding acknowledgeLiveOrder_def Let_def None logged_binance_simps option.map option.case
    by (rule reads_weaken, rule reads_andthen [OF reads_logged reads_ret]) auto
next
  case (Some c)
  show ?thesis
    unfolding acknowledgeLiveOrder_def Let_def Some logged_binance_simps option.map option.case
    by (rule reads_weaken, rule reads_catch [OF reads_andthen [OF reads_logged reads_andthen [OF reads_logged reads_ret]]
         reads_andthen [OF reads_logged reads_ret]]) auto
qed

definition order_within :: "binance_config \<Rightarrow> cex_order \<Rightarrow> bool" where
  "order_within c x \<longleftrightarrow> ord_accountMode x = bn_accountMode c \<and> ord_account x \<in> set (bn_allowedAccounts c) \<and>
     (if ord_accountMode x = Spot then ord_symbol x \<in> set (bn_allowedSpotSymbols c)
      else ord_symbol x \<in> set (bn_allowedFuturesSymbols c) \<and> ord_marginType x = Some Isolated \<and>
        pred_option (\<lambda>l. \<not> num_less (bn_maxFuturesLeverage c) l) (ord_leverage x)) \<and>
     (\<exists>q p. ord_quantity x = Fin q \<and> 0 < q \<and> ord_price x = Fin p \<and> 0 < p) \<and>
     \<not> num_less (ord_maxNotionalUsd x) (num_mul (ord_quantity x) (ord_price x))"

definition key_limited :: "key_permissions \<Rightarrow> account_mode \<Rightarrow> bool" where
  "key_limited k mode \<longleftrightarrow> kp_enableWithdrawals k = JBool False \<and> kp_ipRestrict k = JBool True \<and>
     kp_enableReading k = JBool True \<and>
     (case mode of Spot \<Rightarrow> kp_enableSpotAndMarginTrading k | UsdmFutures \<Rightarrow> kp_enableFutures k) = JBool True"

definition order_leverage :: "cex_order \<Rightarrow> jsnum option" where
  "order_leverage x = (if ord_accountMode x = Spot then None
     else Some (case ord_leverage x of None \<Rightarrow> Fin 1 | Some l \<Rightarrow> l))"

lemma order_passed:
  assumes "first_reason [rejectMarginModes i, validateIntent fmt i c,
      if intent_order i \<noteq> None then validateExecutableIntent fmt v i else None] = None"
    and "i = CexOrderIntent e x" "bx_config v = c"
  shows "order_within c x"
  using assms
  by (auto simp: first_reason_None validateIntent_def validateExecutableIntent_def order_within_def calculateOrderNotional_def
      is_finite_iff split: if_splits sum.splits option.splits)

lemma keys_passed:
  assumes "key_event c (CexOrderIntent e x) l" "\<not> bn_testnet c"
  shows "\<exists>k. l = [BnPermissions (Inr k)] \<and> key_limited k (ord_accountMode x)"
  using assms
  by (cases "ord_accountMode x")
    (auto simp: key_event_def validateLiveKeyPermissions_def first_reason_None key_limited_def validateNoWithdrawalKey_def
      validateIpRestriction_def split: if_splits)

lemma run_reads:
  assumes "run_conn check (conn_call m k) (s, w, l) = z" "reads m P"
  shows "(\<exists>x w' new. run_conn check (k x) (s, w', l @ new) = z \<and> (\<forall>e \<in> set new. reading e) \<and> P x new) \<or>
    (\<exists>e w' new. z = (Inl e, s, w', l @ new) \<and> (\<forall>e \<in> set new. reading e))"
proof -
  obtain r t where m: "m (s, w, l) = (r, t)" by (cases "m (s, w, l)")
  obtain w' new where "t = (s, w', l @ new)" "\<forall>e \<in> set new. reading e" "\<forall>x. r = Inr x \<longrightarrow> P x new"
    using readsD [OF assms(2) m] by metis
  then show ?thesis using assms(1) m by (cases r) (simp, blast)+
qed

text \<open>An order in the log is the one of the intent, right after the check, and only readings follow.\<close>

definition placed :: "account_mode \<Rightarrow> order_params \<Rightarrow> binance_event list \<Rightarrow> bool" where
  "placed md q new \<longleftrightarrow> (\<forall>mode p out. BnOrder mode p out \<in> set new \<longrightarrow> mode = md \<and> p = q \<and>
     (\<exists>after. new = [BnChecked (Inr ()), BnOrder md q out] @ after \<and> (\<forall>e \<in> set after. reading e)))"

lemma placed_order:
  assumes "run_conn (on_world (logged BnChecked check)) (after_check (conn_call (on_world (logged (BnOrder md q) place))
      (\<lambda>y. conn_call (ack y) (\<lambda>ev. CDone (Inr ev))))) (s, w, l) = (r, s', t, events)"
    and "\<And>y. reads (ack y) (\<lambda>_ _. True)"
  shows "\<exists>new. events = l @ new \<and> placed md q new"
proof -
  obtain a w1 where a: "check w = (a, w1)" by (cases "check w")
  obtain b w2 where b: "place w1 = (b, w2)" by (cases "place w1")
  show ?thesis
  proof (cases "\<exists>y. a = Inr () \<and> b = Inr y")
    case True
    then obtain y where y: "a = Inr ()" "b = Inr y" by blast
    have "run_conn (on_world (logged BnChecked check)) (conn_call (ack y) (\<lambda>ev. CDone (Inr ev)))
        (s, w2, l @ [BnChecked (Inr ()), BnOrder md q b]) = (r, s', t, events)"
      using assms(1) a b y by (simp add: on_world_def)
    from run_reads [OF this assms(2)] obtain new where
      "events = l @ [BnChecked (Inr ()), BnOrder md q b] @ new" "\<forall>e \<in> set new. reading e"
      by fastforce
    then show ?thesis by (intro exI [of _ "[BnChecked (Inr ()), BnOrder md q b] @ new"]) (auto simp: placed_def)
  next
    case False
    with assms(1) a b show ?thesis by (cases a; cases b) (auto simp: on_world_def placed_def)
  qed
qed

lemma paper_places_nothing:
  assumes "run_conn (on_world (logged BnChecked check)) (paper_order (logged_binance v) f) (s, w, l) = (r, s', t, events)"
  shows "\<exists>new. events = l @ new \<and> placed md q new \<and> (\<forall>mode p out. BnOrder mode p out \<notin> set new)"
  using assms
  by (auto simp: paper_order_def on_world_def logged_binance_def placed_def split: prod.splits sum.splits)

lemma spot_orders:
  assumes "run_conn (on_world (logged BnChecked check)) (executeSpotOrder h (logged_binance v) i x) (s, w, l) = (r, s', t, events)"
  shows "\<exists>new. events = l @ new \<and> placed Spot (order_request h i x None) new \<and>
    (\<not> bx_live v \<longrightarrow> (\<forall>mode p out. BnOrder mode p out \<notin> set new))"
proof (cases "bx_live v \<and> bx_client v \<noteq> None")
  case True
  with assms placed_order [OF _ reads_acknowledge] show ?thesis
    by (fastforce simp: executeSpotOrder_def Let_def simp del: run_check)
next
  case False
  with assms show ?thesis
    by (auto simp: executeSpotOrder_def Let_def placed_def dest: paper_places_nothing split: if_splits)
qed

lemma futures_orders:
  fixes v :: "'w binance"
  assumes "run_conn (on_world (logged BnChecked check)) (executeFuturesOrder fmt h (logged_binance v) i x) (s, w, l) =
      (r, s', t, events)"
  shows "\<exists>pre new. events = l @ pre @ new \<and> (\<forall>e \<in> set pre. reading e) \<and>
    placed UsdmFutures (order_request h i x (Some (case ord_leverage x of None \<Rightarrow> Fin 1 | Some n \<Rightarrow> n))) new \<and>
    (\<forall>mode p out. BnOrder mode p out \<in> set new \<longrightarrow>
       bx_live v \<and> pre = [BnMargin (ord_account x, ord_symbol x) (Inr ''isolated'')])"
    (is "\<exists>pre new. _ \<and> _ \<and> placed _ (order_request h i x (Some ?n)) new \<and> _")
proof (cases "bx_live v \<and> bx_client v \<noteq> None \<and> \<not> num_less (bn_maxFuturesLeverage (bx_config v)) ?n")
  case True
  then obtain c where c: "bx_client v = Some c" "bx_live v" by blast
  let ?rest = "\<lambda>u::unit. after_check (conn_call (on_world (logged (BnOrder UsdmFutures (order_request h i x (Some ?n)))
      (cl_placeFuturesOrder c (order_request h i x (Some ?n)))))
      (\<lambda>y. conn_call (acknowledgeLiveOrder h (logged_binance v) x y) (\<lambda>ev. CDone (Inr ev))))"
  have "run_conn (on_world (logged BnChecked check))
      (conn_call (verifyFuturesIsolatedMargin (logged_binance v) (ord_account x, ord_symbol x)) ?rest) (s, w, l) = (r, s', t, events)"
    using assms True c by (simp add: executeFuturesOrder_def Let_def del: run_call run_check)
  from run_reads [OF this reads_isolated [OF c]] show ?thesis
  proof (elim disjE exE conjE)
    fix u w' new
    assume "run_conn (on_world (logged BnChecked check)) (?rest u) (s, w', l @ new) = (r, s', t, events)"
      "\<forall>e \<in> set new. reading e" "new = [BnMargin (ord_account x, ord_symbol x) (Inr ''isolated'')]"
    moreover from placed_order [OF this(1) reads_acknowledge] obtain more where "events = (l @ new) @ more"
      "placed UsdmFutures (order_request h i x (Some ?n)) more" by blast
    ultimately show ?thesis using c(2) by (intro exI [of _ new] exI [of _ more]) simp
  next
    fix e w' new
    assume "(r, s', t, events) = (Inl e, s, w', l @ new)" "\<forall>e \<in> set new. reading e"
    then show ?thesis by (intro exI [of _ new] exI [of _ "[]"]) (simp add: placed_def)
  qed
next
  case False
  with assms have "\<exists>new. events = l @ new \<and> (\<forall>mode p out. BnOrder mode p out \<notin> set new)"
    by (auto simp: executeFuturesOrder_def Let_def dest: paper_places_nothing split: if_splits)
  then obtain new where "events = l @ new" "\<forall>mode p out. BnOrder mode p out \<notin> set new" by blast
  then show ?thesis by (intro exI [of _ "[]"] exI [of _ new]) (simp add: placed_def)
qed

lemma other_runs:
  assumes "run_conn (on_world (logged BnChecked check)) (executeCancelOrder (logged_binance v) x) (s, w, l) = (r, s', t, events) \<or>
    run_conn (on_world (logged BnChecked check)) (conn_call (binance_getOrderStatus (logged_binance v) q) (\<lambda>y. CDone (Inr (f y))))
      (s, w, l) = (r, s', t, events)"
  shows "\<exists>new. events = l @ new \<and> (\<forall>mode p out. BnOrder mode p out \<notin> set new)"
  using assms
  by (auto simp: executeCancelOrder_def binance_getOrderStatus_def with_client_def Let_def on_world_def throw_def
      split: if_splits prod.splits sum.splits option.splits)

text \<open>C34. Orders are placed only when they are cleared: if the Binance connector places an order on the
  exchange, it is live, and the order is the one of its intent, within the configuration, the approved
  notional and the approved leverage. Before, it has read, in this order, the permissions of the key
  (which may not withdraw, is restricted to addresses and may trade the product; not on the test
  network), the isolated margin of a futures symbol, the price, positive, at most ten seconds old and
  within the approved slippage, and the margin again; the check before the side effect comes right
  before the order; afterwards it only reads.\<close>

theorem binance_orders_cleared:
  assumes "run_conn (on_world (logged BnChecked check)) (binance_execute h (logged_binance v) i) (s, w, []) = (r, s', t, events)"
    and "BnOrder mode p out \<in> set events"
  shows "\<exists>e x keys m now after. i = CexOrderIntent e x \<and> bx_live v \<and> mode = ord_accountMode x \<and>
    p = order_request h i x (order_leverage x) \<and> order_within (bx_config v) x \<and>
    events = keys @ margin_event x @ [BnPrice (ord_symbol x) (Inr m), BnNow (Inr now)] @ margin_event x @
      [BnChecked (Inr ()), BnOrder mode p out] @ after \<and>
    (if bn_testnet (bx_config v) then keys = [] else \<exists>k. keys = [BnPermissions (Inr k)] \<and> key_limited k mode) \<and>
    market_cleared x m now \<and> (\<forall>ev \<in> set after. reading ev)"
proof -
  let ?k = "\<lambda>refused. case refused of
       Some reason \<Rightarrow> CDone (Inl (ConnectorRevalidationError reason))
     | None \<Rightarrow> (case i of
         CexOrderIntent e x \<Rightarrow>
           if ord_accountMode x = Spot then executeSpotOrder h (logged_binance v) i x
           else executeFuturesOrder (number_to_string h) h (logged_binance v) i x
       | CexCancelIntent e x \<Rightarrow> executeCancelOrder (logged_binance v) x
       | CexOrderStatusIntent e x \<Rightarrow>
           conn_call (binance_getOrderStatus (logged_binance v) (order_ref_of x)) (\<lambda>s.
           CDone (Inr (no_evidence\<lparr>ev_orderId := Some (os_orderId s), ev_orderStatus := Some s\<rparr>)))
       | _ \<Rightarrow> conn_throw (''Binance connector does not execute '' @ action_name (intent_action i) @ ''.''))"
  have order: "\<not> reading (BnOrder mode p out)" by simp
  from assms(1) have "run_conn (on_world (logged BnChecked check))
      (conn_call (binance_revalidation (number_to_string h) (logged_binance v) i) ?k) (s, w, []) = (r, s', t, events)"
    by (simp add: binance_execute_def del: run_call)
  from run_reads [OF this reads_revalidation] obtain pre w' where
    run: "run_conn (on_world (logged BnChecked check)) (?k None) (s, w', pre) = (r, s', t, events)"
    and pre: "\<forall>e \<in> set pre. reading e"
    and passed: "first_reason [rejectMarginModes i, validateIntent (number_to_string h) i (bx_config v),
       if intent_order i \<noteq> None then validateExecutableIntent (number_to_string h) v i else None] = None"
      "bx_live v \<longrightarrow> checked_events (bx_config v) i pre"
    using assms(2) order
    by (elim disjE exE conjE) (fastforce split: option.splits)+
  have fresh: "BnOrder mode p out \<in> set new" if "events = pre @ new" for new
    using that assms(2) pre order by auto
  show ?thesis
  proof (cases i)
    case (CexOrderIntent e x)
    have within: "order_within (bx_config v) x" using order_passed [OF passed(1) CexOrderIntent] by simp
    obtain mid new where new: "events = pre @ mid @ new" "bx_live v" "mode = ord_accountMode x"
      "p = order_request h i x (order_leverage x)" "mid = margin_event x"
      "\<exists>after. new = [BnChecked (Inr ()), BnOrder mode p out] @ after \<and> (\<forall>ev \<in> set after. reading ev)"
    proof (cases "ord_accountMode x")
      case Spot
      with run CexOrderIntent have "run_conn (on_world (logged BnChecked check)) (executeSpotOrder h (logged_binance v) i x)
        (s, w', pre) = (r, s', t, events)" by simp
      from spot_orders [OF this] obtain new where n: "events = pre @ new" "placed Spot (order_request h i x None) new"
        "\<not> bx_live v \<longrightarrow> (\<forall>mode p out. BnOrder mode p out \<notin> set new)" by blast
      with fresh [OF n(1)] Spot show thesis
        by (intro that [of "[]" new]) (auto simp: placed_def order_leverage_def margin_event_def)
    next
      case UsdmFutures
      with run CexOrderIntent have "run_conn (on_world (logged BnChecked check))
        (executeFuturesOrder (number_to_string h) h (logged_binance v) i x) (s, w', pre) = (r, s', t, events)" by simp
      from futures_orders [OF this] obtain mid new where n: "events = pre @ mid @ new" "\<forall>e \<in> set mid. reading e"
        "placed UsdmFutures (order_request h i x (Some (case ord_leverage x of None \<Rightarrow> Fin 1 | Some n \<Rightarrow> n))) new"
        "\<forall>mode p out. BnOrder mode p out \<in> set new \<longrightarrow>
           bx_live v \<and> mid = [BnMargin (ord_account x, ord_symbol x) (Inr ''isolated'')]" by blast
      with fresh [OF n(1)] order have "BnOrder mode p out \<in> set new" by auto
      with n UsdmFutures show thesis
        by (intro that [of mid new]) (auto simp: placed_def order_leverage_def margin_event_def)
    qed
    from passed(2) new(2) obtain keys m where "pre = keys @ margin_event x @ m" "key_event (bx_config v) i keys" "market_event x m"
      by (auto simp: checked_events_def CexOrderIntent)
    moreover from this(3) obtain quote now where "m = [BnPrice (ord_symbol x) (Inr quote), BnNow (Inr now)]"
      "market_cleared x quote now" by (auto simp: market_event_def)
    moreover from new(6) obtain after where "new = [BnChecked (Inr ()), BnOrder mode p out] @ after"
      "\<forall>ev \<in> set after. reading ev" by blast
    moreover have "if bn_testnet (bx_config v) then keys = [] else \<exists>k. keys = [BnPermissions (Inr k)] \<and> key_limited k mode"
      using keys_passed [of "bx_config v" e x keys] \<open>key_event (bx_config v) i keys\<close> CexOrderIntent new(3)
      by (simp add: key_event_def)
    ultimately show ?thesis
      using new(1-5) within CexOrderIntent
      by (intro exI [of _ e] exI [of _ x] exI [of _ keys] exI [of _ quote] exI [of _ now] exI [of _ after]) simp
  next
    case (CexCancelIntent e x)
    with run have "\<exists>new. events = pre @ new \<and> (\<forall>mode p out. BnOrder mode p out \<notin> set new)"
      using other_runs [of check v x s w' pre r s' t events] by simp
    with fresh show ?thesis by blast
  next
    case (CexOrderStatusIntent e x)
    with run have "\<exists>new. events = pre @ new \<and> (\<forall>mode p out. BnOrder mode p out \<notin> set new)"
      using other_runs [of check v undefined s w' pre r s' t events "order_ref_of x"
        "\<lambda>s. no_evidence\<lparr>ev_orderId := Some (os_orderId s), ev_orderStatus := Some s\<rparr>"] by (simp del: run_call)
    with fresh show ?thesis by blast
  qed (use run fresh [of "[]"] in auto)
qed

text \<open>A limit order for two at a hundred, on a live account.\<close>

definition sample_binance_config :: binance_config where
  "sample_binance_config = \<lparr>bn_testnet = False, bn_accountMode = Spot, bn_allowedAccounts = [''acct''],
     bn_allowedSpotSymbols = [''BTCUSDT''], bn_allowedFuturesSymbols = [], bn_historySymbols = [],
     bn_maxFuturesLeverage = Fin 1, bn_ipAllowlist = [''10.0.0.1'']\<rparr>"

definition sample_filled :: order_status where
  "sample_filled = \<lparr>os_orderId = ''o1'', os_symbol = ''BTCUSDT'', os_side = ''BUY'', os_status = ''FILLED'',
     os_executedQty = Fin 2, os_avgPrice = Fin 100\<rparr>"

definition sample_binance :: "unit binance" where
  "sample_binance = \<lparr>bx_config = sample_binance_config, bx_client = Some
     \<lparr>cl_getPrice = (\<lambda>s. ret \<lparr>mp_price = Fin 100, mp_timestampMs = Fin 0\<rparr>), cl_placeSpotOrder = (\<lambda>p. ret sample_filled),
      cl_getFuturesMarginType = (\<lambda>p. ret ''isolated''), cl_placeFuturesOrder = (\<lambda>p. ret sample_filled),
      cl_cancelOrder = (\<lambda>r. ret sample_filled), cl_getOrderStatus = (\<lambda>r. ret sample_filled),
      cl_getApiKeyPermissions = ret \<lparr>kp_ipRestrict = JBool True, kp_enableWithdrawals = JBool False,
        kp_enableReading = JBool True, kp_enableSpotAndMarginTrading = JBool True, kp_enableFutures = JBool False\<rparr>\<rparr>,
     bx_live = True, bx_now = ret 0, bx_uuid = ret [], bx_toFixed1 = (\<lambda>x. [])\<rparr>"

definition sample_limit_order :: trading_intent where
  "sample_limit_order = CexOrderIntent sample_envelope (sample_order\<lparr>ord_maxNotionalUsd := Fin 500\<rparr>)"

lemma sample_notional: "num_mul (Fin 2) (Fin 100) = Fin 200"
  by simp

lemma sample_executable: "validateExecutableIntent fmt sample_binance sample_limit_order = None"
  "validateIntent fmt sample_limit_order sample_binance_config = None" "rejectMarginModes sample_limit_order = None"
  by (simp_all add: validateExecutableIntent_def validateIntent_def rejectMarginModes_def margin_mode_reason_def
      sample_limit_order_def sample_order_def sample_binance_def sample_binance_config_def calculateOrderNotional_def
      sample_notional del: num_mul.simps)

lemma sample_market: "market_reason fmt t (sample_order\<lparr>ord_maxNotionalUsd := Fin 500\<rparr>)
    \<lparr>mp_price = Fin 100, mp_timestampMs = Fin 0\<rparr> (num_sub (num_of_int 0) (Fin 0)) = Inr None"
  by (simp add: market_reason_def price_deviation_def sample_order_def calculateOrderNotional_def num_sub_def)

lemma sample_binance_run:
  "\<exists>r a b c d p out l. run_conn (on_world (logged BnChecked (ret ()))) (binance_execute sample_host (logged_binance sample_binance)
     sample_limit_order) (new_paper, (), []) = (r, new_paper, (), [a, b, c, d, BnOrder Spot p out] @ l)"
proof -
  let ?v = "logged_binance sample_binance" and ?x = "sample_order\<lparr>ord_maxNotionalUsd := Fin 500\<rparr>"
  have key: "verifyLiveApiKey ?v sample_limit_order (s, (), l) = (Inr None, s, (), l @ [BnPermissions (Inr
      \<lparr>kp_ipRestrict = JBool True, kp_enableWithdrawals = JBool False, kp_enableReading = JBool True,
       kp_enableSpotAndMarginTrading = JBool True, kp_enableFutures = JBool False\<rparr>)])" for s :: paper_orders and l
    by (simp add: verifyLiveApiKey_def sample_binance_def sample_binance_config_def on_world_def try_catch_def andthen_def ret_def
        validateLiveKeyPermissions_def validateNoWithdrawalKey_def validateIpRestriction_def sample_limit_order_def sample_order_def)
  have market: "verify_market fmt ?v (logged_client (the (bx_client sample_binance))) ?x (s, (), l) = (Inr None, s, (), l @
      [BnPrice ''BTCUSDT'' (Inr \<lparr>mp_price = Fin 100, mp_timestampMs = Fin 0\<rparr>), BnNow (Inr 0)])" for s :: paper_orders and l fmt
    using sample_market [of fmt]
    by (simp add: verify_market_def sample_binance_def on_world_def try_catch_def andthen_def ret_def lift_exn_def)
      (simp add: sample_order_def)
  have frame: "bx_client sample_binance = Some (the (bx_client sample_binance))" "bx_live sample_binance"
    "bx_config sample_binance = sample_binance_config" "intent_order sample_limit_order = Some ?x"
    "sample_limit_order = CexOrderIntent sample_envelope ?x" "ord_accountMode ?x = Spot"
    by (simp_all add: sample_binance_def sample_limit_order_def sample_order_def)
  have passed: "binance_revalidation fmt ?v sample_limit_order (s, (), l) = (Inr None, s, (), l @
      [BnPermissions (Inr \<lparr>kp_ipRestrict = JBool True, kp_enableWithdrawals = JBool False, kp_enableReading = JBool True,
         kp_enableSpotAndMarginTrading = JBool True, kp_enableFutures = JBool False\<rparr>),
       BnPrice ''BTCUSDT'' (Inr \<lparr>mp_price = Fin 100, mp_timestampMs = Fin 0\<rparr>), BnNow (Inr 0)])" for s :: paper_orders and l fmt
    unfolding binance_revalidation_def logged_binance_simps logged_executable frame(3,4) option.case
    by (subst (1) frame(1), unfold option.map option.case)
      (simp add: frame(2,6) sample_executable unless_refused_def andthen_def ret_def verify_margin_def key market)
  show ?thesis
    unfolding binance_execute_def
    by (simp add: passed) (simp add: frame(2,6) frame(5) executeSpotOrder_def on_world_def ret_def sample_binance_def
       acknowledgeLiveOrder_def try_catch_def andthen_def)
qed

theorem binance_orders_cleared_witness: "order_within sample_binance_config (sample_order\<lparr>ord_maxNotionalUsd := Fin 500\<rparr>)"
proof -
  obtain r a b c d p out l where run: "run_conn (on_world (logged BnChecked (ret ()))) (binance_execute sample_host
      (logged_binance sample_binance) sample_limit_order) (new_paper, (), []) = (r, new_paper, (), [a, b, c, d, BnOrder Spot p out] @ l)"
    using sample_binance_run by blast
  have "bx_config sample_binance = sample_binance_config" by (simp add: sample_binance_def)
  with binance_orders_cleared [OF run, of Spot p out] show ?thesis by (auto simp: sample_limit_order_def)
qed

subsection \<open>Reconciliation\<close>

lemma isLegalTransition_trans: "isLegalTransition a b \<Longrightarrow> isLegalTransition b c \<Longrightarrow> isLegalTransition a c"
  by (auto simp: isLegalTransition_def LEGAL_TRANSITIONS_def split: if_splits)

definition terminal_statuses :: "string list" where
  "terminal_statuses = [''FILLED'', ''CANCELED'', ''REJECTED'', ''EXPIRED'', ''EXPIRED_IN_MATCH'']"

lemma terminal_absorbing: "a \<in> set terminal_statuses \<Longrightarrow> isLegalTransition a b \<longleftrightarrow> b = a"
  by (auto simp: isLegalTransition_def LEGAL_TRANSITIONS_def terminal_statuses_def)

definition matched :: "order_status \<Rightarrow> order_status \<Rightarrow> jsnum \<Rightarrow> jsnum \<Rightarrow> bool" where
  "matched a b q limit \<longleftrightarrow> os_orderId b = os_orderId a \<and> os_symbol b = os_symbol a \<and> os_side b = os_side a \<and>
     isLegalTransition (os_status a) (os_status b) \<and> \<not> num_less q (os_executedQty a) \<and>
     \<not> num_less (os_executedQty b) (os_executedQty a) \<and> \<not> num_less q (os_executedQty b) \<and>
     \<not> inconsistentFill a q \<and> \<not> inconsistentFill b q \<and>
     (num_eq (os_executedQty b) (os_executedQty a) \<longrightarrow> num_eq (os_avgPrice b) (os_avgPrice a)) \<and>
     price_discrepancy b limit = None"

lemma toBrokerOrderStatus_id [simp]: "toBrokerOrderStatus s = s"
  by (simp add: toBrokerOrderStatus_def)

lemma reconciliation_matched:
  "rc_status (reconcileAcceptedOrder a (Some b) q limit t) = Matched \<longleftrightarrow> matched a b q limit"
  by (auto simp: reconcileAcceptedOrder_def collectDiscrepancies_def matched_def Let_def split: option.splits if_splits)

lemma num_less_through:
  "y \<noteq> NaN \<Longrightarrow> \<not> num_less y x \<Longrightarrow> \<not> num_less z y \<Longrightarrow> \<not> num_less z x"
  by (cases x; cases y; cases z) auto

lemma num_between:
  "y \<noteq> NaN \<Longrightarrow> \<not> num_less y x \<Longrightarrow> \<not> num_less z y \<Longrightarrow> num_eq z x \<Longrightarrow> num_eq y x \<and> num_eq z y"
  by (cases x; cases y; cases z) (auto simp: num_eq_def)

lemma matched_trans:
  assumes "matched a b q limit" "matched b c q limit" "os_executedQty b \<noteq> NaN"
  shows "matched a c q limit"
proof -
  have "isLegalTransition (os_status a) (os_status c)"
    using assms(1,2) isLegalTransition_trans unfolding matched_def by blast
  moreover have "\<not> num_less (os_executedQty c) (os_executedQty a)"
    using assms(1,2) num_less_through [OF assms(3)] unfolding matched_def by blast
  moreover have "num_eq (os_avgPrice c) (os_avgPrice a)" if "num_eq (os_executedQty c) (os_executedQty a)"
    using assms(1,2) num_between [OF assms(3) _ _ that] unfolding matched_def num_eq_def by metis
  ultimately show ?thesis using assms(1,2) unfolding matched_def by metis
qed

text \<open>C35. What a matched reconciliation says: the observed order is the accepted one, it advances its
  status, and a terminal status stays; its fill has not decreased, is within the approved quantity and
  keeps its price while it stays the same; and a fill has a price within the approved limit. Observed
  once more against that observation, a match is a match against the accepted order.\<close>

theorem reconciliation_advances:
  assumes "rc_status (reconcileAcceptedOrder a (Some b) q limit t) = Matched" and "is_finite (os_executedQty a)"
    "is_finite (os_executedQty b)" "is_finite (os_avgPrice b)" "is_finite q" "is_finite limit"
  shows "os_orderId b = os_orderId a \<and> os_symbol b = os_symbol a \<and> os_side b = os_side a \<and>
    isLegalTransition (os_status a) (os_status b) \<and> (os_status a \<in> set terminal_statuses \<longrightarrow> os_status b = os_status a) \<and>
    num_le (os_executedQty a) (os_executedQty b) \<and> num_le (os_executedQty b) q \<and>
    (os_executedQty b = os_executedQty a \<longrightarrow> os_avgPrice b = os_avgPrice a) \<and>
    (num_less (Fin 0) (os_executedQty b) \<longrightarrow> num_less (Fin 0) (os_avgPrice b) \<and>
       (os_side b = ''BUY'' \<longrightarrow> num_le (os_avgPrice b) limit) \<and> (os_side b = ''SELL'' \<longrightarrow> num_le limit (os_avgPrice b))) \<and>
    (\<forall>c t'. rc_status (reconcileAcceptedOrder b (Some c) q limit t') = Matched \<longrightarrow>
       rc_status (reconcileAcceptedOrder a (Some c) q limit t') = Matched)"
proof -
  obtain qa qb pb q' l' where fin: "os_executedQty a = Fin qa" "os_executedQty b = Fin qb" "os_avgPrice b = Fin pb"
    "q = Fin q'" "limit = Fin l'"
    using assms(2-6) by (auto simp: is_finite_iff)
  have m: "matched a b q limit" using assms(1) by (simp add: reconciliation_matched)
  then have "\<And>c. matched b c q limit \<Longrightarrow> matched a c q limit" using matched_trans fin(2) by (metis jsnum.distinct(5))
  moreover have "num_less (Fin 0) (os_executedQty b) \<longrightarrow> num_less (Fin 0) (os_avgPrice b) \<and>
      (os_side b = ''BUY'' \<longrightarrow> num_le (os_avgPrice b) limit) \<and> (os_side b = ''SELL'' \<longrightarrow> num_le limit (os_avgPrice b))"
    using m fin by (auto simp: matched_def price_discrepancy_def split: if_splits)
  moreover have "os_status a \<in> set terminal_statuses \<longrightarrow> os_status b = os_status a"
    using m terminal_absorbing unfolding matched_def by blast
  moreover have "num_le (os_executedQty a) (os_executedQty b)" "num_le (os_executedQty b) q"
    "os_executedQty b = os_executedQty a \<longrightarrow> os_avgPrice b = os_avgPrice a"
    using m fin by (simp_all add: matched_def num_eq_def del: toBrokerOrderStatus_id)
  ultimately show ?thesis using m unfolding reconciliation_matched by (simp add: matched_def)
qed

theorem reconciliation_advances_witness: "num_le (os_executedQty sample_filled) (Fin 2)"
proof -
  have "matched sample_filled sample_filled (Fin 2) (Fin 100)"
    by (simp add: matched_def sample_filled_def isLegalTransition_def LEGAL_TRANSITIONS_def inconsistentFill_def
        price_discrepancy_def num_eq_def)
  then have "rc_status (reconcileAcceptedOrder sample_filled (Some sample_filled) (Fin 2) (Fin 100) []) = Matched"
    by (simp add: reconciliation_matched)
  from reconciliation_advances [OF this] show ?thesis by (simp add: sample_filled_def)
qed

end
