(* ===== verification/Spec2Isabelle.thy ===== *)
theory Spec2Isabelle
  imports RiskEngine KillSwitch Protocol BrokerResults AuditAnchor GuardrailDecisions
    EvmSamples SolanaSafety BinanceSafety
begin

text \<open>
  A verification library for the agent trading guardrails, the TypeScript packages under
  \<open>src/packages\<close>.

  \<^bold>\<open>The program.\<close> An agent proposes a trading intent. The guardrail service
  (\<open>guardrail-service/src/service.ts\<close>) validates it, screens its text, asks a reviewer, a risk engine
  and a policy engine, and answers with a decision that it signs, writes to the audit log and keeps
  for repetitions; a decision may ask for a human approval, which lives in the approval store
  (\<open>approval/src/store.ts\<close>). The execution broker (\<open>broker/src/broker.ts\<close>) takes such a decision and
  executes its intent at most once: it checks the token, the age and the environment of the decision,
  reserves the idempotency key, checks approval, kill switch and dry run, has the connector
  revalidate, consumes the approval and calls the connector, which calls the broker back right before
  its side effect. The connectors send orders to Binance and transactions to Ethereum and Solana.
  Everything that happens is written to the audit log, a chain of MACs with an anchor file
  (\<open>audit/src/writer.ts\<close>).

  \<^bold>\<open>How code becomes definitions.\<close> An object type is a \<open>record\<close>, an enumeration or tagged union a
  \<open>datatype\<close>, an unknown value a \<open>jsval\<close>. A number is a \<open>jsnum\<close>, a rational or one of the three special
  values, rounded to the nearest double by every operation; a bigint is an \<open>int\<close>. A function that may
  throw has a result in \<open>exn + 'a\<close>. Code that awaits or mutates is a computation \<open>('s, 'a) eff\<close>, a
  function from a state to a result or an error and the next state; \<open>andthen\<close>, \<open>try_catch\<close> and \<open>attempt\<close>
  are its sequencing and its handlers. A collaborator (clock, database statement, RPC node, signer,
  exchange client, policy engine) is a field of an environment record: any function that acts on the
  world \<open>'w\<close> and may throw, so that a theorem holds for all of its behaviours. Definitions keep the
  names of the source where Isabelle allows it.

  \<^bold>\<open>The theories.\<close>
  \<^item> \<open>Prelude\<close>: computations, errors, triples. \<open>JsNumber\<close>, \<open>JsString\<close>, \<open>JsValue\<close>: the part of JavaScript
    that the source uses, with its two canonical serialisations; canonical text determines the value.
  \<^item> \<open>Schemas\<close>, \<open>IntentSchema\<close>, \<open>ResultSchema\<close>, \<open>PolicyOutput\<close>: the schemas of \<open>schemas/src\<close> and the
    transformation of the policy engine's answer (\<open>opa-transform.ts\<close>). What is parsed is well formed,
    and a well-formed value is parsed back.
  \<^item> \<open>RiskChecks\<close>, \<open>RiskEngine\<close>: \<open>risk-engine/src\<close>; a pass is refined to limits over rationals, missing
    data denies, loosening a limit never denies, and rounding at a bound is exact.
  \<^item> \<open>KillSwitch\<close>: \<open>kill-switch.ts\<close> and \<open>preflight.ts\<close>; the locale \<open>kill_switch_laws\<close>.
  \<^item> \<open>IdempotencyStore\<close>, \<open>FileStore\<close>, \<open>Protocol\<close>: \<open>idempotency-store.ts\<close> in memory and over a locked
    file; the locale \<open>idempotency_laws\<close> over slots, its interpretation on the store in memory, and
    threads interleaved over either store, with faults and crashes, as an inductive step relation.
  \<^item> \<open>DryRun\<close>, \<open>Broker\<close>, \<open>BrokerSafety\<close>, \<open>BrokerTrace\<close>, \<open>ExecutionProtocol\<close>, \<open>SideEffects\<close>,
    \<open>BrokerResults\<close>: \<open>dry-run.ts\<close>, \<open>broker.ts\<close>, \<open>paper-connector.ts\<close> and \<open>secrets/src/env-guard.ts\<close>; what
    a decision must be, what an execution calls and in which order, what becomes of its reservation,
    and what its result is.
  \<^item> \<open>ApprovalStore\<close>, \<open>ApprovalSafety\<close>, \<open>Onboarding\<close>: \<open>approval/src/store.ts\<close> and
    \<open>allowlist-store.ts\<close>; the operations refine a state machine of requests, an approval is consumed
    once, waiting ends; the locale \<open>allowlist_laws\<close>.
  \<^item> \<open>AuditWriter\<close>, \<open>AuditSafety\<close>, \<open>AuditLog\<close>, \<open>AuditAnchor\<close>: \<open>audit/src/writer.ts\<close>; the table is a sound
    chain that only grows (the locale \<open>event_log\<close>), and a table that opens is the one its anchor was
    written for, unless the MAC collides.
  \<^item> \<open>SolanaParser\<close>, \<open>GuardrailFacts\<close>, \<open>Guardrail\<close>, \<open>GuardrailSafety\<close>, \<open>GuardrailDecisions\<close>: \<open>parser.ts\<close>
    and \<open>validation.ts\<close> of \<open>solana-connector/src\<close>, \<open>service.ts\<close> and \<open>idempotency.ts\<close>; a decision that does
    not deny has every gate behind it and is accepted by the broker, is in the audit log, and is
    replayed.
  \<^item> \<open>BalanceDeltas\<close>, \<open>ConnectorRuns\<close>, \<open>EvmConnector\<close>, \<open>SolanaAccounts\<close>, \<open>SolanaConnector\<close>,
    \<open>SolanaSafety\<close>, \<open>BinanceConnector\<close>, \<open>BinanceSafety\<close>: the three connectors; what is signed or ordered
    was checked, simulated or priced before, in a fixed order, and the check of the broker comes right
    before it.
  \<^item> \<open>EvmTrace\<close>, \<open>EvmProvider\<close>, \<open>EvmEffects\<close>: \<open>trace-balances.ts\<close> and \<open>rpc-provider.ts\<close> of
    \<open>evm-connector/src\<close>; nothing in the state diff of a traced call goes unaccounted for, and the deltas
    that were expected hold for the balances that the node answered before and after.
  \<^item> \<open>Samples\<close>, \<open>BrokerSamples\<close>, \<open>AuditSamples\<close>, \<open>GuardrailSamples\<close>, \<open>EvmSamples\<close>: concrete values for the witnesses.

  The properties that span components stand in the theory of the component they speak of last; the
  broker accepts what the service signs (\<open>GuardrailDecisions\<close>), the broker's executions are threads of
  the idempotency protocol (\<open>ExecutionProtocol\<close>, \<open>Protocol\<close>), and the connectors are runs of the type that
  the broker calls (\<open>conn_run\<close>).

  \<^bold>\<open>Parameters.\<close> The record \<open>host\<close> holds the functions of the platform: SHA-256 and HMAC, the printing
  and parsing of dates, number formatting, \<open>localeCompare\<close>, the \<open>uuid\<close> and \<open>datetime\<close> formats of zod,
  and the redaction of secrets, which is a set of regular expressions. Other parameters are base58,
  the compilation of a Solana message, the addresses, the hash and \<open>toHex\<close> of viem, IP and URL
  recognition and \<open>toFixed\<close>. What a theorem needs of them (that a serialiser is injective, that a MAC
  does not collide on the texts at hand, that an address in normal form is its own) is a hypothesis of
  that theorem, with a witness.

  \<^bold>\<open>Bounds and fuel.\<close> The only loop that needs a bound is the polling of \<open>waitForApproval\<close>, whose fuel is
  one more than the milliseconds of the timeout, which is enough when every sleep takes at least one. Everything else is
  recursion over data, or over a position that grows (\<open>extensions_from\<close>).

  \<^bold>\<open>Not modelled.\<close> Strings are lists of code units below 256. Creating and migrating the database
  tables, file locking, HTTP servers and clients, command lines, environment variables, the prompts
  and providers of the reviewer, the REST client of Binance, development signers, Vault and local
  secrets, the agent plugins and the Rego rules are input and output, glue or external, and stand in
  the model as the collaborators above. Of the JSON-RPC providers, the operations that only forward
  (\<open>getBalance\<close>, \<open>getBlockNumber\<close>, \<open>getSlot\<close>) are left out.
\<close>

section \<open>Intents\<close>

text \<open>C1. Validation and the object of an intent agree: whatever \<open>TradingIntent.safeParse\<close>
  accepts satisfies every field rule of the schema, and the object of any intent that satisfies
  them is accepted and parsed back to that very intent.\<close>

theorem intent_round_trip:
  "(parse_intent h v = Some i \<longrightarrow> intent_ok h i) \<and>
   (intent_ok h i \<longrightarrow> parse_intent h (intent_json i) = Some i)"
  by (simp add: parse_intent_ok parse_intent_json)

theorem intent_round_trip_witness:
  "parse_intent sample_host (intent_json sample_intent) = Some sample_intent \<and>
   intent_ok sample_host sample_intent"
  using intent_round_trip [of sample_host "intent_json sample_intent" sample_intent] sample_intents_ok(1)
  by blast

end
